(* ===== verification/Nl_Prelude.thy ===== *)
theory Nl_Prelude
  imports Main "HOL-Library.Word" "HOL-Library.Code_Target_Nat"
begin

text \<open>
  Shared material of the NearLink data-plane development: machine-integer synonyms, the byte
  codec of \<^verbatim>\<open>services/stack/src/utils/include/byte_codec.h\<close>, the allocator of
  \<^verbatim>\<open>services/stack/src/sdf/oal/memm/src/sdf_mem.c\<close>, the theorem collections and the generic
  list and word lemmas that the components rely on.

  Conventions. A byte is an \<open>8 word\<close>; protocol words that the code shifts, masks or
  compares modulo their width (sequence numbers, CRC values, identifiers) are words of the
  width of the C type. Lengths, offsets and counters are \<open>nat\<close> with the wrap-around of their
  C type written out (\<open>u8\<close>, \<open>u16\<close>, \<open>u32\<close>, \<open>sub64\<close>) wherever the code can reach it.
\<close>

unbundle bit_operations_syntax

type_synonym byte = "8 word"
type_synonym u16w = "16 word"

named_theorems codec_simps \<open>byte codec evaluation rules\<close>
named_theorems wf_intros \<open>preservation of well-formedness\<close>
named_theorems seq_simps \<open>serial-number arithmetic, moved to natural numbers\<close>
named_theorems win_simps \<open>unfolding of window operations\<close>

section \<open>Fixed-width arithmetic on natural numbers\<close>

definition u8 :: "nat \<Rightarrow> nat" where
  "u8 n = n mod 256"

definition u16 :: "nat \<Rightarrow> nat" where
  "u16 n = n mod 65536"

definition u32 :: "nat \<Rightarrow> nat" where
  "u32 n = n mod 4294967296"

text \<open>Subtraction of \<open>uint64_t\<close> values: wraps instead of stopping at zero.\<close>

definition sub64 :: "nat \<Rightarrow> nat \<Rightarrow> nat" where
  "sub64 a b = (a + (18446744073709551616 - b mod 18446744073709551616)) mod 18446744073709551616"

lemma u8_id [simp]: "n < 256 \<Longrightarrow> u8 n = n"
  by (simp add: u8_def)

lemma u8_less [simp]: "u8 n < 256"
  by (simp add: u8_def)

lemma u16_id [simp]: "n < 65536 \<Longrightarrow> u16 n = n"
  by (simp add: u16_def)

lemma u16_less [simp]: "u16 n < 65536"
  by (simp add: u16_def)

lemma u32_id [simp]: "n < 4294967296 \<Longrightarrow> u32 n = n"
  by (simp add: u32_def)

lemma u32_less [simp]: "u32 n < 4294967296"
  by (simp add: u32_def)

lemma sub64_ge [simp]:
  assumes "b \<le> a" "a < 18446744073709551616"
  shows "sub64 a b = a - b"
proof -
  let ?M = "18446744073709551616 :: nat"
  have "b < ?M" and "a - b < ?M" using assms by linarith+
  then have b: "b mod ?M = b" and ab: "(a - b) mod ?M = a - b"
    by (simp_all only: mod_less)
  have "a + (?M - b) = (a - b) + ?M"
    using assms(1) \<open>b < ?M\<close> by linarith
  then have "(a + (?M - b)) mod ?M = (a - b) mod ?M"
    by (simp only: mod_add_self2)
  then show ?thesis by (simp only: sub64_def b ab)
qed

section \<open>Byte codec\<close>

text \<open>\<^verbatim>\<open>DECODE2BYTE_LITTLE\<close>, \<^verbatim>\<open>ENCODE2BYTE_LITTLE\<close> and the big-endian pair, on the bytes in the
  order in which they lie in memory.\<close>

definition DECODE2BYTE_LITTLE :: "byte \<Rightarrow> byte \<Rightarrow> u16w" where
  "DECODE2BYTE_LITTLE p0 p1 = ucast p0 OR push_bit 8 (ucast p1)"

definition ENCODE2BYTE_LITTLE :: "u16w \<Rightarrow> byte list" where
  "ENCODE2BYTE_LITTLE v = [ucast v, ucast (drop_bit 8 v)]"

definition DECODE2BYTE_BIG :: "byte \<Rightarrow> byte \<Rightarrow> u16w" where
  "DECODE2BYTE_BIG p0 p1 = ucast p1 OR push_bit 8 (ucast p0)"

definition ENCODE2BYTE_BIG :: "u16w \<Rightarrow> byte list" where
  "ENCODE2BYTE_BIG v = [ucast (drop_bit 8 v), ucast v]"

lemma decode_encode_little [codec_simps]:
  "DECODE2BYTE_LITTLE (ucast v) (ucast (drop_bit 8 v)) = v"
  unfolding DECODE2BYTE_LITTLE_def
  by (rule bit_word_eqI) (auto simp: bit_simps)

lemma decode_encode_big [codec_simps]:
  "DECODE2BYTE_BIG (ucast (drop_bit 8 v)) (ucast v) = v"
  unfolding DECODE2BYTE_BIG_def
  by (rule bit_word_eqI) (auto simp: bit_simps)

lemma length_encode_little [simp]: "length (ENCODE2BYTE_LITTLE v) = 2"
  by (simp add: ENCODE2BYTE_LITTLE_def)

lemma length_encode_big [simp]: "length (ENCODE2BYTE_BIG v) = 2"
  by (simp add: ENCODE2BYTE_BIG_def)

lemma unat_of_nat_u16 [simp]: "n < 65536 \<Longrightarrow> unat (of_nat n :: u16w) = n"
  by (simp add: unat_of_nat take_bit_nat_eq_self)

section \<open>The allocator\<close>

text \<open>
  \<^verbatim>\<open>SDF_MemAlloc\<close> forwards to the registered allocation hook (\<^verbatim>\<open>malloc\<close> by default), which may
  fail at any call. The outcomes of the calls of a run are a script, the list of what the
  successive calls answer; a call past the end of the script succeeds. Every finite pattern
  of failures is such a script, and the empty script is a run without failure.
  \<^verbatim>\<open>SDF_MemZalloc\<close> also clears the block; models that need the contents start from zeros.
\<close>

type_synonym mem = "bool list"

fun SDF_MemAlloc :: "mem \<Rightarrow> bool \<times> mem" where
  "SDF_MemAlloc [] = (True, [])"
| "SDF_MemAlloc (ok # m) = (ok, m)"

definition SDF_MemZalloc :: "nat \<Rightarrow> mem \<Rightarrow> byte list option \<times> mem" where
  "SDF_MemZalloc n m =
     (case SDF_MemAlloc m of (ok, m') \<Rightarrow> (if ok then Some (replicate n 0) else None, m'))"

definition mem_ok :: "mem \<Rightarrow> bool" where
  "mem_ok m \<longleftrightarrow> False \<notin> set m"

lemma mem_ok_Nil [simp]: "mem_ok []"
  by (simp add: mem_ok_def)

lemma SDF_MemAlloc_ok: "mem_ok m \<Longrightarrow> fst (SDF_MemAlloc m) \<and> mem_ok (snd (SDF_MemAlloc m))"
  by (cases m) (auto simp: mem_ok_def)

lemma SDF_MemAlloc_okE:
  assumes "mem_ok m"
  obtains m' where "SDF_MemAlloc m = (True, m')" "mem_ok m'"
  using SDF_MemAlloc_ok [OF assms] by (cases "SDF_MemAlloc m") auto

text \<open>\<^verbatim>\<open>DP_GetMonoTimeMs\<close> of \<^verbatim>\<open>services/stack/src/utils/src/time_utils.c\<close> reads the system clock; the readings of
  a run are a script as well.\<close>

fun read_clock :: "nat list \<Rightarrow> nat \<times> nat list" where
  "read_clock [] = (0, [])"
| "read_clock (t # ts) = (t, ts)"

section \<open>Lists\<close>

text \<open>Overwriting a run of bytes in place, as \<^verbatim>\<open>memcpy_s\<close> into a buffer does.\<close>

definition list_write :: "nat \<Rightarrow> 'a list \<Rightarrow> 'a list \<Rightarrow> 'a list" where
  "list_write off new xs = take off xs @ new @ drop (off + length new) xs"

lemma length_list_write [simp]:
  "off + length new \<le> length xs \<Longrightarrow> length (list_write off new xs) = length xs"
  by (simp add: list_write_def)

lemma take_list_write: "off \<le> length xs \<Longrightarrow> take off (list_write off new xs) = take off xs"
  by (simp add: list_write_def)

lemma drop_list_write:
  "off + length new \<le> length xs \<Longrightarrow>
   drop (off + length new) (list_write off new xs) = drop (off + length new) xs"
  by (simp add: list_write_def)

lemma slice_list_write:
  "off + length new \<le> length xs \<Longrightarrow> take (length new) (drop off (list_write off new xs)) = new"
  by (simp add: list_write_def)

text \<open>The first element that satisfies a predicate, as the search loops over lists find it.\<close>

fun find_first :: "('a \<Rightarrow> bool) \<Rightarrow> 'a list \<Rightarrow> 'a option" where
  "find_first p [] = None"
| "find_first p (x # xs) = (if p x then Some x else find_first p xs)"

lemma find_first_None_iff: "find_first p xs = None \<longleftrightarrow> (\<forall>x\<in>set xs. \<not> p x)"
  by (induction xs) auto

lemma find_first_SomeD: "find_first p xs = Some x \<Longrightarrow> x \<in> set xs \<and> p x"
  by (induction xs) (auto split: if_splits)

text \<open>Changing the first element that satisfies a predicate, as a store through the pointer that such
  a search returned.\<close>

fun upd_first :: "('a \<Rightarrow> bool) \<Rightarrow> ('a \<Rightarrow> 'a) \<Rightarrow> 'a list \<Rightarrow> 'a list" where
  "upd_first p f [] = []"
| "upd_first p f (x # xs) = (if p x then f x # xs else x # upd_first p f xs)"

lemma length_upd_first [simp]: "length (upd_first p f xs) = length xs"
  by (induction xs) auto

lemma map_upd_first: "(\<And>x. h (f x) = h x) \<Longrightarrow> map h (upd_first p f xs) = map h xs"
  by (induction xs) simp_all

lemma find_upd_first:
  "find_first p xs = Some x \<Longrightarrow> p (f x) \<Longrightarrow> find_first p (upd_first p f xs) = Some (f x)"
proof (induction xs)
  case (Cons y xs) then show ?case by (cases "p y") simp_all
qed simp

lemma find_upd_first_other:
  assumes pq: "\<And>x. p x \<Longrightarrow> \<not> q x" and pf: "\<And>x. p x \<Longrightarrow> \<not> q (f x)"
  shows "find_first q (upd_first p f xs) = find_first q xs"
proof (induction xs)
  case Nil show ?case by simp
next
  case (Cons x xs)
  show ?case
  proof (cases "p x")
    case True
    from pq [OF True] pf [OF True] show ?thesis by (simp only: upd_first.simps find_first.simps True if_True if_False)
  next
    case False
    then show ?thesis by (simp only: upd_first.simps find_first.simps False if_False Cons.IH)
  qed
qed

lemma upd_first_id: "find_first p xs = None \<Longrightarrow> upd_first p f xs = xs"
  by (simp add: find_first_None_iff) (induction xs, simp_all)

lemma length_2E:
  assumes "length xs = 2"
  obtains a b where "xs = [a, b]"
  using assms by (auto simp: length_Suc_conv numeral_eq_Suc)

lemma length_5E:
  assumes "length xs = 5"
  obtains a b c d e where "xs = [a, b, c, d, e]"
  using assms by (auto simp: length_Suc_conv numeral_eq_Suc)

text \<open>Removing the first element that satisfies a predicate.\<close>

fun remove_first :: "('a \<Rightarrow> bool) \<Rightarrow> 'a list \<Rightarrow> 'a list" where
  "remove_first p [] = []"
| "remove_first p (x # xs) = (if p x then xs else x # remove_first p xs)"

lemma set_remove_first: "set (remove_first p xs) \<subseteq> set xs"
  by (induction xs) auto

lemma remove_first_id: "\<forall>x\<in>set xs. \<not> p x \<Longrightarrow> remove_first p xs = xs"
  by (induction xs) auto

text \<open>Cutting a list into pieces of the same size, the last one excepted; size zero means one piece.\<close>

function chunks :: "nat \<Rightarrow> 'a list \<Rightarrow> 'a list list" where
  "chunks n xs =
     (if xs = [] then [] else if n = 0 \<or> length xs \<le> n then [xs] else take n xs # chunks n (drop n xs))"
  by pat_completeness auto
termination
  by (relation "measure (\<lambda>(_, xs). length xs)") auto

declare chunks.simps [simp del]

lemma chunks_Nil [simp]: "chunks n [] = []"
  by (simp add: chunks.simps)

lemma concat_chunks [simp]: "concat (chunks n xs) = xs"
  by (induction n xs rule: chunks.induct) (subst chunks.simps, auto)

lemma chunks_piece: "c \<in> set (chunks n xs) \<Longrightarrow> c \<noteq> [] \<and> (0 < n \<longrightarrow> length c \<le> n)"
proof (induction n xs rule: chunks.induct)
  case (1 n xs)
  have "c \<in> set (if xs = [] then [] else if n = 0 \<or> length xs \<le> n then [xs]
      else take n xs # chunks n (drop n xs))"
    using 1(2) chunks.simps [of n xs] by simp
  then show ?case using 1(1) by (auto split: if_splits)
qed

lemma length_chunks: "0 < n \<Longrightarrow> length (chunks n xs) = (length xs + n - 1) div n"
proof (induction n xs rule: chunks.induct)
  case (1 n xs)
  consider "xs = []" | "xs \<noteq> []" "length xs \<le> n" | "n < length xs" by linarith
  then show ?case
  proof cases
    case 1 then show ?thesis using \<open>0 < n\<close> by simp
  next
    case 2
    then have "(length xs + n - 1) div n = 1"
      using \<open>0 < n\<close> by (intro div_nat_eqI; cases xs) auto
    then show ?thesis using 2 by (subst chunks.simps) auto
  next
    case 3
    then have "xs \<noteq> []" by auto
    then have "length (chunks n (drop n xs)) = (length xs - n + n - 1) div n"
      using 1 3 by auto
    moreover have "(length xs + n - 1) div n = (length xs - n + n - 1) div n + 1"
    proof -
      have "length xs + n - 1 = (length xs - 1) + n" "length xs - n + n - 1 = length xs - 1" using 3 by simp_all
      then show ?thesis using \<open>0 < n\<close> by (simp only: div_add_self2)
    qed
    ultimately show ?thesis using 3 \<open>0 < n\<close> by (subst chunks.simps) auto
  qed
qed

end
