(* ===== verification/Crc16.thy ===== *)
theory Crc16
  imports Nl_Prelude
begin

text \<open>
  The frame check sequence of the data plane, \<^verbatim>\<open>services/stack/src/utils/src/crc16.c\<close>: the
  table, the table-driven step and the loop over a buffer. The lemmas relate the table to the
  bit-serial division by the reflected polynomial 0xA001 (0x8005 read backwards), show that a
  message followed by its own check value leaves remainder zero, which is how the reliable mode
  tests a received frame, and that the code detects every error confined to two adjacent bytes.
\<close>

section \<open>The code\<close>

definition CRC16_TABLE :: "u16w list" where
  "CRC16_TABLE = [
    0x0000, 0xC0C1, 0xC181, 0x0140, 0xC301, 0x03C0, 0x0280, 0xC241,
    0xC601, 0x06C0, 0x0780, 0xC741, 0x0500, 0xC5C1, 0xC481, 0x0440,
    0xCC01, 0x0CC0, 0x0D80, 0xCD41, 0x0F00, 0xCFC1, 0xCE81, 0x0E40,
    0x0A00, 0xCAC1, 0xCB81, 0x0B40, 0xC901, 0x09C0, 0x0880, 0xC841,
    0xD801, 0x18C0, 0x1980, 0xD941, 0x1B00, 0xDBC1, 0xDA81, 0x1A40,
    0x1E00, 0xDEC1, 0xDF81, 0x1F40, 0xDD01, 0x1DC0, 0x1C80, 0xDC41,
    0x1400, 0xD4C1, 0xD581, 0x1540, 0xD701, 0x17C0, 0x1680, 0xD641,
    0xD201, 0x12C0, 0x1380, 0xD341, 0x1100, 0xD1C1, 0xD081, 0x1040,
    0xF001, 0x30C0, 0x3180, 0xF141, 0x3300, 0xF3C1, 0xF281, 0x3240,
    0x3600, 0xF6C1, 0xF781, 0x3740, 0xF501, 0x35C0, 0x3480, 0xF441,
    0x3C00, 0xFCC1, 0xFD81, 0x3D40, 0xFF01, 0x3FC0, 0x3E80, 0xFE41,
    0xFA01, 0x3AC0, 0x3B80, 0xFB41, 0x3900, 0xF9C1, 0xF881, 0x3840,
    0x2800, 0xE8C1, 0xE981, 0x2940, 0xEB01, 0x2BC0, 0x2A80, 0xEA41,
    0xEE01, 0x2EC0, 0x2F80, 0xEF41, 0x2D00, 0xEDC1, 0xEC81, 0x2C40,
    0xE401, 0x24C0, 0x2580, 0xE541, 0x2700, 0xE7C1, 0xE681, 0x2640,
    0x2200, 0xE2C1, 0xE381, 0x2340, 0xE101, 0x21C0, 0x2080, 0xE041,
    0xA001, 0x60C0, 0x6180, 0xA141, 0x6300, 0xA3C1, 0xA281, 0x6240,
    0x6600, 0xA6C1, 0xA781, 0x6740, 0xA501, 0x65C0, 0x6480, 0xA441,
    0x6C00, 0xACC1, 0xAD81, 0x6D40, 0xAF01, 0x6FC0, 0x6E80, 0xAE41,
    0xAA01, 0x6AC0, 0x6B80, 0xAB41, 0x6900, 0xA9C1, 0xA881, 0x6840,
    0x7800, 0xB8C1, 0xB981, 0x7940, 0xBB01, 0x7BC0, 0x7A80, 0xBA41,
    0xBE01, 0x7EC0, 0x7F80, 0xBF41, 0x7D00, 0xBDC1, 0xBC81, 0x7C40,
    0xB401, 0x74C0, 0x7580, 0xB541, 0x7700, 0xB7C1, 0xB681, 0x7640,
    0x7200, 0xB2C1, 0xB381, 0x7340, 0xB101, 0x71C0, 0x7080, 0xB041,
    0x5000, 0x90C1, 0x9181, 0x5140, 0x9301, 0x53C0, 0x5280, 0x9241,
    0x9601, 0x56C0, 0x5780, 0x9741, 0x5500, 0x95C1, 0x9481, 0x5440,
    0x9C01, 0x5CC0, 0x5D80, 0x9D41, 0x5F00, 0x9FC1, 0x9E81, 0x5E40,
    0x5A00, 0x9AC1, 0x9B81, 0x5B40, 0x9901, 0x59C0, 0x5880, 0x9841,
    0x8801, 0x48C0, 0x4980, 0x8941, 0x4B00, 0x8BC1, 0x8A81, 0x4A40,
    0x4E00, 0x8EC1, 0x8F81, 0x4F40, 0x8D01, 0x4DC0, 0x4C80, 0x8C41,
    0x4400, 0x84C1, 0x8581, 0x4540, 0x8701, 0x47C0, 0x4680, 0x8641,
    0x8201, 0x42C0, 0x4380, 0x8341, 0x4100, 0x81C1, 0x8081, 0x4040
  ]"

definition CRC16Byte :: "u16w \<Rightarrow> byte \<Rightarrow> u16w" where
  "CRC16Byte crc data =
     drop_bit 8 crc XOR CRC16_TABLE ! unat ((crc XOR ucast data) AND 0xff)"

fun CRC16 :: "u16w \<Rightarrow> byte list \<Rightarrow> u16w" where
  "CRC16 crc [] = crc"
| "CRC16 crc (d # ds) = CRC16 (CRC16Byte crc d) ds"

section \<open>The bit-serial reference\<close>

definition crc_bit :: "u16w \<Rightarrow> u16w" where
  "crc_bit c = (if bit c 0 then drop_bit 1 c XOR 0xA001 else drop_bit 1 c)"

definition crc_bits8 :: "u16w \<Rightarrow> u16w" where
  "crc_bits8 c = crc_bit (crc_bit (crc_bit (crc_bit (crc_bit (crc_bit (crc_bit (crc_bit c)))))))"

fun crc_serial :: "u16w \<Rightarrow> byte list \<Rightarrow> u16w" where
  "crc_serial crc [] = crc"
| "crc_serial crc (d # ds) = crc_serial (crc_bits8 (crc XOR ucast d)) ds"

lemma crc_bit_xor: "crc_bit (a XOR b) = crc_bit a XOR crc_bit b"
  unfolding crc_bit_def
  by (rule bit_word_eqI) (auto simp: bit_simps)

lemma crc_bits8_xor: "crc_bits8 (a XOR b) = crc_bits8 a XOR crc_bits8 b"
  by (simp add: crc_bits8_def crc_bit_xor)

lemma crc_bit_even: "\<not> bit c 0 \<Longrightarrow> crc_bit c = drop_bit 1 c"
  by (simp add: crc_bit_def)

lemma crc_bits8_funpow: "crc_bits8 c = (crc_bit ^^ 8) c"
  by (simp add: crc_bits8_def eval_nat_numeral)

lemma crc_bit_funpow_high:
  "n \<le> 8 \<Longrightarrow> (crc_bit ^^ n) (push_bit 8 h) = drop_bit n (push_bit 8 h)"
proof (induction n)
  case (Suc n)
  then have "\<not> bit (drop_bit n (push_bit 8 h)) 0"
    by (simp add: bit_drop_bit_eq bit_push_bit_iff)
  with Suc show ?case by (simp add: crc_bit_even)
qed simp

lemma crc_bits8_high: "crc_bits8 (push_bit 8 h) = drop_bit 8 (push_bit 8 h)"
  unfolding crc_bits8_funpow by (rule crc_bit_funpow_high) simp

lemma byte_range: "[0..<256] = [
    0, 1, 2, 3, 4, 5, 6, 7, 8, 9, 10, 11, 12, 13, 14, 15,
    16, 17, 18, 19, 20, 21, 22, 23, 24, 25, 26, 27, 28, 29, 30, 31,
    32, 33, 34, 35, 36, 37, 38, 39, 40, 41, 42, 43, 44, 45, 46, 47,
    48, 49, 50, 51, 52, 53, 54, 55, 56, 57, 58, 59, 60, 61, 62, 63,
    64, 65, 66, 67, 68, 69, 70, 71, 72, 73, 74, 75, 76, 77, 78, 79,
    80, 81, 82, 83, 84, 85, 86, 87, 88, 89, 90, 91, 92, 93, 94, 95,
    96, 97, 98, 99, 100, 101, 102, 103, 104, 105, 106, 107, 108, 109, 110, 111,
    112, 113, 114, 115, 116, 117, 118, 119, 120, 121, 122, 123, 124, 125, 126, 127,
    128, 129, 130, 131, 132, 133, 134, 135, 136, 137, 138, 139, 140, 141, 142, 143,
    144, 145, 146, 147, 148, 149, 150, 151, 152, 153, 154, 155, 156, 157, 158, 159,
    160, 161, 162, 163, 164, 165, 166, 167, 168, 169, 170, 171, 172, 173, 174, 175,
    176, 177, 178, 179, 180, 181, 182, 183, 184, 185, 186, 187, 188, 189, 190, 191,
    192, 193, 194, 195, 196, 197, 198, 199, 200, 201, 202, 203, 204, 205, 206, 207,
    208, 209, 210, 211, 212, 213, 214, 215, 216, 217, 218, 219, 220, 221, 222, 223,
    224, 225, 226, 227, 228, 229, 230, 231, 232, 233, 234, 235, 236, 237, 238, 239,
    240, 241, 242, 243, 244, 245, 246, 247, 248, 249, 250, 251, 252, 253, 254, 255 :: nat]"
  by code_simp

lemma table_entries: "CRC16_TABLE = map crc_bits8 (map of_nat [0..<256])"
  unfolding byte_range CRC16_TABLE_def by (simp add: crc_bits8_def crc_bit_def)

lemma table_nth: "i < 256 \<Longrightarrow> CRC16_TABLE ! i = crc_bits8 (of_nat i)"
  by (simp add: table_entries)

lemma low_byte_index: "unat (x AND 0xff :: u16w) < 256"
proof -
  have "x AND 0xff \<le> (0xff :: u16w)" by (rule word_and_le1)
  then have "unat (x AND 0xff) \<le> unat (0xff :: u16w)" by (simp only: word_le_nat_alt)
  then show ?thesis by simp
qed

lemma low_mask: "x AND 0xff = take_bit 8 (x :: u16w)"
  by (simp add: take_bit_eq_mask mask_eq_exp_minus_1)

lemma split_bytes: "push_bit 8 (drop_bit 8 x) XOR (x AND 0xff :: u16w) = x"
  unfolding low_mask by (rule bit_word_eqI) (auto simp: bit_simps)

lemma drop_push_drop: "drop_bit 8 (push_bit 8 (drop_bit 8 x)) = drop_bit 8 (x :: u16w)"
  by (rule bit_word_eqI) (auto simp: bit_simps dest: bit_imp_le_length)

lemma drop_ucast_byte: "drop_bit 8 (ucast (d :: byte) :: u16w) = 0"
  by (rule bit_word_eqI) (auto simp: bit_simps dest: bit_imp_le_length)

lemma CRC16Byte_serial: "CRC16Byte c d = crc_bits8 (c XOR ucast d)"
proof -
  let ?x = "c XOR ucast d"
  have "crc_bits8 ?x = crc_bits8 (push_bit 8 (drop_bit 8 ?x) XOR (?x AND 0xff))"
    by (simp only: split_bytes)
  also have "\<dots> = drop_bit 8 ?x XOR crc_bits8 (?x AND 0xff)"
    by (simp add: crc_bits8_xor crc_bits8_high drop_push_drop)
  also have "crc_bits8 (?x AND 0xff) = CRC16_TABLE ! unat (?x AND 0xff)"
    using table_nth [OF low_byte_index [of ?x]] by simp
  finally show ?thesis by (simp add: CRC16Byte_def drop_ucast_byte)
qed

lemma CRC16_append [simp]: "CRC16 c (xs @ ys) = CRC16 (CRC16 c xs) ys"
  by (induction xs arbitrary: c) auto

section \<open>Injectivity\<close>

lemma xor_left_cancel: "(c :: 'a::len word) XOR a = c XOR b \<Longrightarrow> a = b"
  by (metis xor.left_commute xor_self_eq xor.right_neutral)

lemma xor_right_cancel: "(a :: 'a::len word) XOR c = b XOR c \<Longrightarrow> a = b"
  by (metis xor.assoc xor_self_eq xor.right_neutral)

lemma crc_bit_inj: "crc_bit a = crc_bit b \<Longrightarrow> a = b"
proof -
  assume eq: "crc_bit a = crc_bit b"
  have top: "bit (crc_bit c) 15 = bit c 0" for c :: u16w
    by (auto simp: crc_bit_def bit_simps dest: bit_imp_le_length)
  have b0: "bit a 0 = bit b 0" using eq top by metis
  then have dr: "drop_bit 1 a = drop_bit 1 b"
    using eq unfolding crc_bit_def by (auto split: if_splits dest: xor_right_cancel)
  show "a = b"
  proof (rule bit_word_eqI)
    fix n assume n: "n < LENGTH(16)"
    show "bit a n = bit b n"
    proof (cases n)
      case 0 then show ?thesis using b0 by simp
    next
      case (Suc m)
      have "bit (drop_bit 1 a) m = bit (drop_bit 1 b) m" using dr by simp
      then show ?thesis using Suc by (simp add: bit_simps)
    qed
  qed
qed

lemma crc_bits8_inj: "crc_bits8 a = crc_bits8 b \<Longrightarrow> a = b"
  unfolding crc_bits8_def by (meson crc_bit_inj)

lemma ucast_byte_inj: "(ucast (a :: byte) :: u16w) = ucast b \<Longrightarrow> a = b"
proof (rule bit_word_eqI)
  fix n assume eq: "(ucast a :: u16w) = ucast b" and n: "n < LENGTH(8)"
  have "bit (ucast a :: u16w) n = bit (ucast b :: u16w) n" using eq by simp
  with n show "bit a n = bit b n" by (simp add: bit_simps)
qed

lemma CRC16_state_inj: "CRC16 c ds = CRC16 c' ds \<Longrightarrow> c = c'"
proof (induction ds arbitrary: c c')
  case (Cons d ds)
  then have "CRC16Byte c d = CRC16Byte c' d" by simp
  then show ?case
    by (auto simp: CRC16Byte_serial dest!: crc_bits8_inj xor_right_cancel)
qed simp

lemma table_high_nonzero: "list_all (\<lambda>t. drop_bit 8 t \<noteq> 0) (tl CRC16_TABLE)"
  unfolding CRC16_TABLE_def by simp

lemma crc_bits8_high_nonzero:
  assumes "drop_bit 8 (crc_bits8 (ucast (d :: byte))) = 0"
  shows "d = 0"
proof (rule ccontr)
  assume nz: "d \<noteq> 0"
  then obtain m where m: "unat d = Suc m" by (metis unat_eq_zero not0_implies_Suc)
  have "unat d < 2 ^ LENGTH(8)" by (rule unsigned_less)
  then have lt: "Suc m < 256" using m by simp
  have len: "length CRC16_TABLE = 256" by (simp add: table_entries)
  have "tl CRC16_TABLE ! m \<in> set (tl CRC16_TABLE)"
    using lt len by (intro nth_mem) simp
  moreover have "tl CRC16_TABLE ! m = CRC16_TABLE ! Suc m"
    using lt len by (intro nth_tl) simp
  ultimately have "drop_bit 8 (crc_bits8 (of_nat (Suc m))) \<noteq> 0"
    using table_high_nonzero table_nth [OF lt] by (auto simp: list_all_iff)
  moreover have "(of_nat (Suc m) :: u16w) = ucast d"
    using m by (metis of_nat_unat)
  ultimately show False using assms by simp
qed

section \<open>Properties\<close>

text \<open>(C30) The table-driven check sequence equals the bit-serial division by the reflected
  polynomial 0xA001, for every initial value and every buffer.\<close>

theorem CRC16_bit_serial: "CRC16 c ds = crc_serial c ds"
  by (induction ds arbitrary: c) (simp_all add: CRC16Byte_serial)

lemma CRC16Byte_residue_low:
  "CRC16Byte c (ucast c) = drop_bit 8 c"
proof -
  have "c XOR ucast (ucast c :: byte) = push_bit 8 (drop_bit 8 c)"
    by (rule bit_word_eqI) (auto simp: bit_simps)
  then show ?thesis
    by (simp add: CRC16Byte_serial crc_bits8_high drop_push_drop)
qed

lemma CRC16Byte_residue_high: "CRC16Byte (drop_bit 8 c) (ucast (drop_bit 8 c)) = 0"
proof -
  have "drop_bit 8 (drop_bit 8 c) = (0 :: u16w)"
    by (rule bit_word_eqI) (auto simp: bit_simps dest: bit_imp_le_length)
  then show ?thesis by (simp add: CRC16Byte_residue_low)
qed

lemma crc_append_self: "CRC16 c (ds @ ENCODE2BYTE_LITTLE (CRC16 c ds)) = 0"
  by (simp add: ENCODE2BYTE_LITTLE_def CRC16Byte_residue_low CRC16Byte_residue_high)

text \<open>A buffer followed by its own check value, low byte first, has remainder zero. This is
  the test \<^verbatim>\<open>CRC16(crcInit, data, len) != 0\<close> of the reliable mode: it accepts every frame that
  the frame builders produce.\<close>

lemma CRC16_residue_zero: "CRC16 c (ds @ ENCODE2BYTE_LITTLE (CRC16 c ds)) = 0"
  by (rule crc_append_self)

lemma CRC16_two_bytes_inj:
  assumes "CRC16 s [a, b] = CRC16 s [a', b']"
  shows "a = a' \<and> b = b'"
proof -
  have "crc_bits8 (s XOR ucast a) XOR ucast b = crc_bits8 (s XOR ucast a') XOR ucast b'"
    using assms by (auto simp: CRC16Byte_serial dest: crc_bits8_inj)
  then have e: "crc_bits8 (ucast a) XOR ucast b = crc_bits8 (ucast a') XOR ucast b'"
    by (simp only: crc_bits8_xor xor.assoc) (rule xor_left_cancel)
  have x: "(ucast a :: u16w) XOR ucast a' = ucast (a XOR a')"
    by (rule bit_word_eqI) (auto simp: bit_simps)
  have "drop_bit 8 (crc_bits8 (ucast a) XOR ucast b)
      = drop_bit 8 (crc_bits8 (ucast a') XOR ucast b' :: u16w)"
    using e by simp
  then have "drop_bit 8 (crc_bits8 (ucast a)) = drop_bit 8 (crc_bits8 (ucast a'))"
    by (simp add: drop_ucast_byte)
  then have "drop_bit 8 (crc_bits8 (ucast a XOR ucast a')) = 0"
    by (simp add: crc_bits8_xor)
  then have "a XOR a' = 0" unfolding x by (rule crc_bits8_high_nonzero)
  then have "a XOR a' = a' XOR a'" by simp
  then have a: "a = a'" by (rule xor_right_cancel)
  then have "(ucast b :: u16w) = ucast b'" using e by (auto dest: xor_left_cancel)
  then show ?thesis using a by (auto dest: ucast_byte_inj)
qed

text \<open>(C31) Two buffers that differ only inside two adjacent bytes have different check values:
  every burst error of at most sixteen bits aligned to bytes is detected, whatever the initial
  value and the surrounding data.\<close>

theorem CRC16_detects_two_byte_error:
  assumes "[a, b] \<noteq> [a', b']"
  shows "CRC16 c (xs @ [a, b] @ ys) \<noteq> CRC16 c (xs @ [a', b'] @ ys)"
proof
  assume "CRC16 c (xs @ [a, b] @ ys) = CRC16 c (xs @ [a', b'] @ ys)"
  then have "CRC16 (CRC16 c xs) [a, b] = CRC16 (CRC16 c xs) [a', b']"
    by (auto dest: CRC16_state_inj)
  then have "a = a' \<and> b = b'" by (rule CRC16_two_bytes_inj)
  with assms show False by simp
qed

theorem CRC16_detects_two_byte_error_witness:
  "CRC16 0xFFFF ([0x01, 0x02] @ [0x03, 0x04] @ [0x05]) \<noteq>
   CRC16 0xFFFF ([0x01, 0x02] @ [0x13, 0x84] @ [0x05])"
  by (rule CRC16_detects_two_byte_error) simp

end
