(* ===== verification/Sdf_DList.thy ===== *)
theory Sdf_DList
  imports Nl_Prelude
begin

text \<open>
  The intrusive doubly linked list of the stack,
  \<^verbatim>\<open>services/stack/src/sdf/bsl/dsl/src/sdf_dlist.c\<close> and the macros of \<^verbatim>\<open>sdf_dlist.h\<close>, on an explicit
  store: the \<open>next\<close> and \<open>prev\<close> fields of the entries and the \<open>size\<close> field of the heads, indexed
  by address, with 0 for NULL. \<open>dl_repr\<close> relates a head in the store to the list of the addresses
  it links; the refinement lemmas let the other components use HOL lists for these queues.
\<close>

section \<open>The store\<close>

type_synonym addr = nat

record dl_store =
  nxt :: "addr \<Rightarrow> addr"
  prv :: "addr \<Rightarrow> addr"
  dsize :: "addr \<Rightarrow> nat"

definition set_nxt :: "addr \<Rightarrow> addr \<Rightarrow> dl_store \<Rightarrow> dl_store" where
  "set_nxt a v s = s\<lparr>nxt := (nxt s)(a := v)\<rparr>"

definition set_prv :: "addr \<Rightarrow> addr \<Rightarrow> dl_store \<Rightarrow> dl_store" where
  "set_prv a v s = s\<lparr>prv := (prv s)(a := v)\<rparr>"

definition set_dsize :: "addr \<Rightarrow> nat \<Rightarrow> dl_store \<Rightarrow> dl_store" where
  "set_dsize a v s = s\<lparr>dsize := (dsize s)(a := v)\<rparr>"

lemmas store_defs = set_nxt_def set_prv_def set_dsize_def

section \<open>Operations\<close>

definition SDF_DListHeadInit :: "addr \<Rightarrow> dl_store \<Rightarrow> dl_store" where
  "SDF_DListHeadInit head s = set_dsize head 0 (set_prv head head (set_nxt head head s))"

definition SDF_DListEntryInit :: "addr \<Rightarrow> dl_store \<Rightarrow> dl_store" where
  "SDF_DListEntryInit entry s = set_prv entry entry (set_nxt entry entry s)"

definition SDF_DListIsEmpty :: "addr \<Rightarrow> dl_store \<Rightarrow> bool" where
  "SDF_DListIsEmpty head s \<longleftrightarrow> dsize s head = 0"

definition SDF_DListFirst :: "addr \<Rightarrow> dl_store \<Rightarrow> addr" where
  "SDF_DListFirst head s = nxt s head"

definition SDF_DListLast :: "addr \<Rightarrow> dl_store \<Rightarrow> addr" where
  "SDF_DListLast head s = prv s head"

definition SDF_DListCount :: "addr \<Rightarrow> dl_store \<Rightarrow> nat" where
  "SDF_DListCount head s = (if head = 0 then 0 else dsize s head)"

definition SDF_DListMove :: "addr \<Rightarrow> addr \<Rightarrow> dl_store \<Rightarrow> dl_store" where
  "SDF_DListMove dst src s =
     (if dst = 0 \<or> src = 0 then s
      else let s1 = set_nxt dst (nxt s src) s;
               s2 = set_prv dst (prv s1 src) s1;
               s3 = set_prv (nxt s2 src) dst s2;
               s4 = set_nxt (prv s3 src) dst s3;
               s5 = set_dsize dst (u32 (dsize s4 dst + dsize s4 src)) s4
           in SDF_DListHeadInit src s5)"

definition SDF_DListAdd :: "addr \<Rightarrow> addr \<Rightarrow> addr \<Rightarrow> addr \<Rightarrow> dl_store \<Rightarrow> dl_store" where
  "SDF_DListAdd head node p q s =
     (if head = 0 \<or> node = 0 \<or> p = 0 \<or> q = 0 then s
      else let s1 = set_nxt node q s;
               s2 = set_prv node p s1;
               s3 = set_prv q node s2;
               s4 = set_nxt p node s3
           in set_dsize head (u32 (dsize s4 head + 1)) s4)"

text \<open>The size is a \<^verbatim>\<open>uint32_t\<close>: decrementing zero wraps.\<close>

definition SDF_DListDel :: "addr \<Rightarrow> addr \<Rightarrow> dl_store \<Rightarrow> addr \<times> dl_store" where
  "SDF_DListDel head node s =
     (if head = 0 \<or> node = 0 then (0, s)
      else let s1 = set_nxt (prv s node) (nxt s node) s;
               s2 = set_prv (nxt s1 node) (prv s1 node) s1;
               s3 = SDF_DListEntryInit node s2
           in (node, set_dsize head (u32 (dsize s3 head + 4294967295)) s3))"

definition SDF_DListElmHeadInsert :: "addr \<Rightarrow> addr \<Rightarrow> dl_store \<Rightarrow> dl_store" where
  "SDF_DListElmHeadInsert head elm s = SDF_DListAdd head elm head (SDF_DListFirst head s) s"

definition SDF_DListElmTailInsert :: "addr \<Rightarrow> addr \<Rightarrow> dl_store \<Rightarrow> dl_store" where
  "SDF_DListElmTailInsert head elm s = SDF_DListAdd head elm (SDF_DListLast head s) head s"

definition SDF_DListConcat :: "addr \<Rightarrow> addr \<Rightarrow> addr \<Rightarrow> addr \<Rightarrow> dl_store \<Rightarrow> dl_store" where
  "SDF_DListConcat first lst p q s =
     set_prv q lst (set_nxt lst q (set_nxt p first (set_prv first p s)))"

definition SDF_DListPosConcat :: "addr \<Rightarrow> addr \<Rightarrow> dl_store \<Rightarrow> dl_store" where
  "SDF_DListPosConcat pos src s =
     (if pos = 0 \<or> src = 0 then s
      else if SDF_DListIsEmpty src s then s
      else let s1 = SDF_DListConcat pos (nxt s pos) (prv s src) (nxt s src) s;
               s2 = SDF_DListHeadInit src s1
           in set_dsize src (u32 (dsize s2 src + 1)) s2)"

text \<open>The destruction loop runs until the size is zero; \<open>freed\<close> collects the entries given to the
  hook, in order. The hook releases the entry and does not touch the links of the others.\<close>

fun SDF_DListDestroy_loop :: "nat \<Rightarrow> addr \<Rightarrow> dl_store \<Rightarrow> addr list" where
  "SDF_DListDestroy_loop 0 entry s = []"
| "SDF_DListDestroy_loop (Suc n) entry s = entry # SDF_DListDestroy_loop n (nxt s entry) s"

definition SDF_DListDestroy :: "addr \<Rightarrow> bool \<Rightarrow> dl_store \<Rightarrow> addr list \<times> dl_store" where
  "SDF_DListDestroy head has_hook s =
     (if head = 0 \<or> \<not> has_hook then ([], s)
      else (SDF_DListDestroy_loop (dsize s head) (nxt s head) s, set_dsize head 0 s))"

text \<open>The traversal of \<open>SDF_DListElmForeach\<close>, with a bound on the number of steps.\<close>

fun dl_walk :: "nat \<Rightarrow> addr \<Rightarrow> addr \<Rightarrow> dl_store \<Rightarrow> addr list option" where
  "dl_walk 0 head cur s = (if cur = head then Some [] else None)"
| "dl_walk (Suc n) head cur s =
     (if cur = head then Some [] else map_option ((#) cur) (dl_walk n head (nxt s cur) s))"

section \<open>Representation\<close>

fun seg :: "dl_store \<Rightarrow> addr \<Rightarrow> addr list \<Rightarrow> addr \<Rightarrow> bool" where
  "seg s a [] b \<longleftrightarrow> nxt s a = b \<and> prv s b = a"
| "seg s a (x # xs) b \<longleftrightarrow> nxt s a = x \<and> prv s x = a \<and> seg s x xs b"

definition dl_repr :: "dl_store \<Rightarrow> addr \<Rightarrow> addr list \<Rightarrow> bool" where
  "dl_repr s head xs \<longleftrightarrow> seg s head xs head \<and> distinct (head # xs) \<and> 0 \<notin> set (head # xs) \<and>
     dsize s head = length xs \<and> length xs < 4294967296"

lemma seg_append: "seg s a (xs @ y # ys) b \<longleftrightarrow> seg s a xs y \<and> seg s y ys b"
  by (induction xs arbitrary: a) auto

lemma seg_frame:
  assumes "seg s a xs b" "\<forall>x\<in>set (a # xs). nxt s' x = nxt s x" "\<forall>x\<in>set (xs @ [b]). prv s' x = prv s x"
  shows "seg s' a xs b"
  using assms by (induction xs arbitrary: a) auto

lemma seg_first: "seg s a xs b \<Longrightarrow> nxt s a = hd (xs @ [b])"
  by (cases xs) auto

lemma seg_last: "seg s a xs b \<Longrightarrow> prv s b = last (a # xs)"
  by (induction xs arbitrary: a) auto

lemma seg_insert:
  assumes "seg s a (xs @ ys) b" "distinct (xs @ ys)" "a \<notin> set (xs @ ys)" "b \<notin> set (xs @ ys)"
    "n \<notin> set (a # xs @ ys @ [b])"
    and s': "nxt s' = (nxt s)(n := hd (ys @ [b]), last (a # xs) := n)"
      "prv s' = (prv s)(n := last (a # xs), hd (ys @ [b]) := n)"
  shows "seg s' a (xs @ n # ys) b"
  using assms
proof (induction xs arbitrary: a)
  case Nil
  show ?case
  proof (cases ys)
    case Nil2: Nil
    then show ?thesis using Nil.prems by auto
  next
    case (Cons y zs)
    have upd: "nxt s' = (nxt s)(n := y, a := n)" "prv s' = (prv s)(n := a, y := n)"
      using Nil.prems(6,7) unfolding Cons by (simp_all only: last.simps if_True list.sel append_Cons append_Nil simp_thms)
    have ne: "a \<noteq> n" "n \<noteq> y" "y \<noteq> a" "n \<notin> set zs" "a \<notin> set zs" "n \<noteq> b" "y \<noteq> b" "y \<notin> set zs"
      using Nil.prems(2-5) Cons by auto
    have sg: "seg s y zs b" using Nil.prems(1) Cons by simp
    have "seg s' y zs b"
      by (rule seg_frame [OF sg]; unfold upd; use ne in auto)
    moreover have "nxt s' a = n" "prv s' n = a" "nxt s' n = y" "prv s' y = n"
      unfolding upd using ne by (simp_all only: fun_upd_apply) simp_all
    ultimately show ?thesis using Cons by simp
  qed
next
  case (Cons x xs)
  let ?p = "last (x # xs)" and ?q = "hd (ys @ [b])"
  have p: "?p \<in> set (x # xs)" by (rule last_in_set) simp
  have q: "?q \<in> set (ys @ [b])" by (rule hd_in_set) simp
  have neq: "a \<noteq> ?p" "a \<noteq> n" "x \<noteq> ?q" "x \<noteq> n"
    using p q Cons.prems(2-5) by (auto simp del: last.simps hd_append)
  have l: "last (a # x # xs) = ?p" by simp
  have upd: "nxt s' = (nxt s)(n := ?q, ?p := n)" "prv s' = (prv s)(n := ?p, ?q := n)"
    using Cons.prems(6,7) by (simp_all only: l)
  have "seg s' x (xs @ n # ys) b"
    by (rule Cons.IH [OF _ _ _ _ _ upd]) (use Cons.prems(1-5) in auto)
  moreover have "nxt s' a = x" "prv s' x = a"
    unfolding upd using neq Cons.prems(1) by (simp_all only: fun_upd_apply) simp_all
  ultimately show ?case by simp
qed

lemma seg_delete:
  assumes "seg s a (xs @ n # ys) b" "distinct (xs @ n # ys)" "a \<notin> set (xs @ n # ys)"
    "b \<notin> set (xs @ n # ys)"
    and s': "nxt s' = (nxt s)(last (a # xs) := hd (ys @ [b]), n := n)"
      "prv s' = (prv s)(hd (ys @ [b]) := last (a # xs), n := n)"
  shows "seg s' a (xs @ ys) b"
  using assms
proof (induction xs arbitrary: a)
  case Nil
  show ?case
  proof (cases ys)
    case Nil2: Nil
    then show ?thesis using Nil.prems by auto
  next
    case (Cons y zs)
    have upd: "nxt s' = (nxt s)(a := y, n := n)" "prv s' = (prv s)(y := a, n := n)"
      using Nil.prems(5,6) unfolding Cons by (simp_all only: last.simps if_True list.sel append_Cons append_Nil simp_thms)
    have ne: "a \<noteq> n" "n \<noteq> y" "y \<noteq> a" "n \<notin> set zs" "a \<notin> set zs" "n \<noteq> b" "y \<noteq> b" "y \<notin> set zs"
      using Nil.prems(2-4) Cons by auto
    have sg: "seg s y zs b" using Nil.prems(1) Cons by simp
    have "seg s' y zs b"
      by (rule seg_frame [OF sg]; unfold upd; use ne in auto)
    moreover have "nxt s' a = y" "prv s' y = a"
      unfolding upd using ne by (simp_all only: fun_upd_apply) simp_all
    ultimately show ?thesis using Cons by simp
  qed
next
  case (Cons x xs)
  let ?p = "last (x # xs)" and ?q = "hd (ys @ [b])"
  have p: "?p \<in> set (x # xs)" by (rule last_in_set) simp
  have q: "?q \<in> set (ys @ [b])" by (rule hd_in_set) simp
  have neq: "a \<noteq> ?p" "a \<noteq> n" "x \<noteq> ?q" "x \<noteq> n"
    using p q Cons.prems(2-4) by (auto simp del: last.simps hd_append)
  have l: "last (a # x # xs) = ?p" by simp
  have upd: "nxt s' = (nxt s)(?p := ?q, n := n)" "prv s' = (prv s)(?q := ?p, n := n)"
    using Cons.prems(5,6) by (simp_all only: l)
  have "seg s' x (xs @ ys) b"
    by (rule Cons.IH [OF _ _ _ _ upd]) (use Cons.prems(1-4) in auto)
  moreover have "nxt s' a = x" "prv s' x = a"
    unfolding upd using neq Cons.prems(1) by (simp_all only: fun_upd_apply) simp_all
  ultimately show ?case by simp
qed

section \<open>Refinement to lists\<close>

lemma dl_repr_HeadInit: "head \<noteq> 0 \<Longrightarrow> dl_repr (SDF_DListHeadInit head s) head []"
  by (simp add: dl_repr_def SDF_DListHeadInit_def store_defs)

lemma dl_repr_Add:
  assumes r: "dl_repr s head (xs @ ys)" and n: "node \<notin> set (head # xs @ ys)" "node \<noteq> 0"
    and len: "length (xs @ ys) + 1 < 4294967296"
    and p: "p = last (head # xs)" and q: "q = hd (ys @ [head])"
  shows "dl_repr (SDF_DListAdd head node p q s) head (xs @ node # ys)"
proof -
  have nz: "0 \<notin> set (head # xs @ ys)" using r by (auto simp: dl_repr_def)
  have "p \<in> set (head # xs)" using p by (metis last_in_set list.distinct(1))
  then have p0: "p \<noteq> 0" using nz by (metis Un_iff set_append append_Cons)
  have "q \<in> set (ys @ [head])" using q by (metis append_is_Nil_conv list.distinct(1) hd_in_set)
  then have q0: "q \<noteq> 0" using nz by (metis Un_iff set_append append_Cons list.set_intros(1) empty_iff empty_set set_ConsD)
  let ?s = "SDF_DListAdd head node p q s"
  have upd: "nxt ?s = (nxt s)(node := q, p := node)" "prv ?s = (prv s)(node := p, q := node)"
    "dsize ?s = (dsize s)(head := u32 (dsize s head + 1))"
    using nz n p0 q0 by (auto simp: SDF_DListAdd_def store_defs Let_def)
  have "seg ?s head (xs @ node # ys) head"
    using r n upd p q by (intro seg_insert [of s]) (auto simp: dl_repr_def)
  then show ?thesis
    using r n len upd nz by (auto simp: dl_repr_def)
qed

lemma Del_fields:
  assumes "head \<noteq> 0" "node \<noteq> 0" "prv s node = p" "nxt s node = q" "p \<noteq> node" "q \<noteq> node"
  shows "nxt (snd (SDF_DListDel head node s)) = (nxt s)(p := q, node := node) \<and>
    prv (snd (SDF_DListDel head node s)) = (prv s)(q := p, node := node) \<and>
    dsize (snd (SDF_DListDel head node s)) = (dsize s)(head := u32 (dsize s head + 4294967295))"
  using assms by (simp add: SDF_DListDel_def SDF_DListEntryInit_def store_defs Let_def)

lemma dl_repr_Del:
  assumes r: "dl_repr s head (xs @ node # ys)"
  shows "dl_repr (snd (SDF_DListDel head node s)) head (xs @ ys) \<and> fst (SDF_DListDel head node s) = node"
proof -
  let ?p = "last (head # xs)" and ?q = "hd (ys @ [head])"
  have sg: "seg s head xs node" "seg s node ys head"
    using r by (auto simp: dl_repr_def seg_append)
  have pn: "prv s node = ?p" and nn: "nxt s node = ?q"
    using seg_last [OF sg(1)] seg_first [OF sg(2)] by auto
  have ds: "distinct (head # xs @ node # ys)" and nz: "0 \<notin> set (head # xs @ node # ys)"
    using r by (auto simp: dl_repr_def)
  have "?p \<in> set (head # xs)" by (rule last_in_set) simp
  then have pne: "?p \<noteq> node" using ds by (auto simp del: last.simps)
  have "?q \<in> set (ys @ [head])" by (rule hd_in_set) simp
  then have qne: "?q \<noteq> node" using ds by auto
  have hn: "head \<noteq> 0" "node \<noteq> 0" using nz by auto
  let ?s = "snd (SDF_DListDel head node s)"
  have upd: "nxt ?s = (nxt s)(?p := ?q, node := node)" "prv ?s = (prv s)(?q := ?p, node := node)"
    "dsize ?s = (dsize s)(head := u32 (dsize s head + 4294967295))"
    using Del_fields [OF hn pn nn pne qne] by blast+
  have "seg ?s head (xs @ ys) head"
    by (rule seg_delete [OF _ _ _ _ upd(1,2)]) (use r in \<open>auto simp: dl_repr_def\<close>)
  moreover have "dsize ?s head = length (xs @ ys)"
    using r upd by (simp add: dl_repr_def u32_def mod_if)
  ultimately show ?thesis
    using r ds nz by (auto simp: dl_repr_def SDF_DListDel_def Let_def)
qed

text \<open>What the queues built on these lists rely on.\<close>

locale linked_list =
  fixes repr :: "'s \<Rightarrow> 'a \<Rightarrow> 'a list \<Rightarrow> bool"
    and fresh :: "'s \<Rightarrow> 'a \<Rightarrow> 'a list \<Rightarrow> 'a \<Rightarrow> bool"
    and head_insert :: "'a \<Rightarrow> 'a \<Rightarrow> 's \<Rightarrow> 's"
    and tail_insert :: "'a \<Rightarrow> 'a \<Rightarrow> 's \<Rightarrow> 's"
    and delete :: "'a \<Rightarrow> 'a \<Rightarrow> 's \<Rightarrow> 's"
  assumes head_law: "repr s h xs \<Longrightarrow> fresh s h xs n \<Longrightarrow> repr (head_insert h n s) h (n # xs)"
    and tail_law: "repr s h xs \<Longrightarrow> fresh s h xs n \<Longrightarrow> repr (tail_insert h n s) h (xs @ [n])"
    and delete_law: "repr s h (xs @ n # ys) \<Longrightarrow> repr (delete h n s) h (xs @ ys)"
begin

lemma rotate_head:
  assumes "repr s h (x # xs)" "fresh (delete h x s) h xs x"
  shows "repr (tail_insert h x (delete h x s)) h (xs @ [x])"
proof -
  have "repr (delete h x s) h xs"
    using delete_law [of s h "[]" x xs] assms(1) by simp
  then show ?thesis using assms(2) by (rule tail_law)
qed

lemma insert_then_delete:
  assumes "repr s h xs" "fresh s h xs n"
  shows "repr (delete h n (tail_insert h n s)) h xs"
  using delete_law [of "tail_insert h n s" h xs n "[]"] tail_law [OF assms] by simp

end

definition dl_fresh :: "dl_store \<Rightarrow> addr \<Rightarrow> addr list \<Rightarrow> addr \<Rightarrow> bool" where
  "dl_fresh s h xs n \<longleftrightarrow> n \<notin> set (h # xs) \<and> n \<noteq> 0 \<and> length xs + 1 < 4294967296"

interpretation dl: linked_list dl_repr dl_fresh SDF_DListElmHeadInsert SDF_DListElmTailInsert
  "\<lambda>h n s. snd (SDF_DListDel h n s)"
proof
  fix s h xs n assume r: "dl_repr s h xs" and f: "dl_fresh s h xs n"
  have sg: "seg s h xs h" using r by (simp add: dl_repr_def)
  show "dl_repr (SDF_DListElmHeadInsert h n s) h (n # xs)"
    using dl_repr_Add [of s h "[]" xs n h "hd (xs @ [h])"] r f seg_first [OF sg]
    by (simp add: SDF_DListElmHeadInsert_def SDF_DListFirst_def dl_fresh_def)
  show "dl_repr (SDF_DListElmTailInsert h n s) h (xs @ [n])"
    using dl_repr_Add [of s h xs "[]" n "last (h # xs)" h] r f seg_last [OF sg]
    by (simp add: SDF_DListElmTailInsert_def SDF_DListLast_def dl_fresh_def)
next
  fix s h xs n ys assume "dl_repr s h (xs @ n # ys)"
  then show "dl_repr (snd (SDF_DListDel h n s)) h (xs @ ys)" using dl_repr_Del by blast
qed

lemma dl_walk_seg:
  assumes "seg s a xs h" "h \<notin> set xs" "length xs \<le> n"
  shows "dl_walk n h (nxt s a) s = Some xs"
  using assms
proof (induction xs arbitrary: a n)
  case Nil then show ?case by (cases n) auto
next
  case (Cons x xs)
  then obtain k where n: "n = Suc k" by (cases n) auto
  have "dl_walk k h (nxt s x) s = Some xs"
    using Cons.prems n by (intro Cons.IH) auto
  then show ?case using Cons.prems n by auto
qed

lemma dl_walk_at_head: "dl_walk n h h s = Some []"
  by (cases n) auto

lemma destroy_loop_seg: "seg s a xs b \<Longrightarrow> SDF_DListDestroy_loop (length xs) (nxt s a) s = xs"
  by (induction xs arbitrary: a) auto

lemma seg_rehead:
  assumes "seg s a (xs @ [y]) b" "distinct (xs @ [y])" "c \<notin> set (xs @ [y])" "a \<notin> set (xs @ [y])"
    "b \<notin> set (xs @ [y])"
    and "nxt s' c = nxt s a" "prv s' (nxt s a) = c" "nxt s' y = d" "prv s' d = y"
    and "\<forall>x\<in>set xs. nxt s' x = nxt s x" "\<forall>x\<in>set (tl (xs @ [y])). prv s' x = prv s x"
  shows "seg s' c (xs @ [y]) d"
proof (cases xs)
  case Nil then show ?thesis using assms by auto
next
  case (Cons x zs)
  have "seg s x zs y" using assms(1) Cons by (auto simp: seg_append)
  then have "seg s' x zs y"
    by (rule seg_frame) (use assms(10,11) Cons in auto)
  then show ?thesis using assms(1,6-9) Cons by (auto simp: seg_append)
qed

lemma dl_repr_Move:
  assumes src: "dl_repr s src (xs @ [y])" and dst: "dst \<notin> set (src # xs @ [y])" "dst \<noteq> 0"
    and e: "dsize s dst = 0"
  shows "dl_repr (SDF_DListMove dst src s) dst (xs @ [y]) \<and> dl_repr (SDF_DListMove dst src s) src []"
proof -
  let ?s = "SDF_DListMove dst src s" and ?f = "nxt s src"
  have sg: "seg s src (xs @ [y]) src" and ds: "distinct (src # xs @ [y])"
    and nz: "src \<noteq> 0" and n: "dsize s src = length xs + 1" "length xs + 1 < 4294967296"
    using src by (auto simp: dl_repr_def)
  have l: "prv s src = y" using seg_last [OF sg] by simp
  have f: "?f = hd (xs @ [y])" using seg_first [OF sg] by (cases xs) auto
  have fin: "?f \<in> set (xs @ [y])" unfolding f by (rule hd_in_set) simp
  have ne: "?f \<noteq> src" "?f \<noteq> dst" "dst \<noteq> src" "y \<noteq> src" "y \<noteq> dst"
    using fin ds dst by auto
  have upd: "nxt ?s = (nxt s)(dst := ?f, y := dst, src := src)"
    "prv ?s = (prv s)(dst := y, ?f := dst, src := src)"
    "dsize ?s = (dsize s)(dst := length xs + 1, src := 0)"
    using ne nz dst e n l
    by (simp_all add: SDF_DListMove_def SDF_DListHeadInit_def store_defs Let_def fun_eq_iff)
  have tl_f: "x \<noteq> ?f" if "x \<in> set (tl (xs @ [y]))" for x
    using that ds unfolding f by (cases xs) auto
  have tl_sub: "set (tl (xs @ [y])) \<subseteq> set (xs @ [y])" by (cases xs) auto
  have "seg ?s dst (xs @ [y]) dst"
  proof (rule seg_rehead [OF sg])
    show "\<forall>x\<in>set xs. nxt ?s x = nxt s x" using upd(1) ds dst by auto
    show "\<forall>x\<in>set (tl (xs @ [y])). prv ?s x = prv s x"
      using upd(2) tl_f tl_sub ds dst by auto
  qed (use upd ne ds dst in auto)
  then have "dl_repr ?s dst (xs @ [y])"
    using src dst upd ne n by (auto simp: dl_repr_def)
  moreover have "dl_repr ?s src []"
    using upd nz ne by (simp add: dl_repr_def)
  ultimately show ?thesis by simp
qed

section \<open>Properties\<close>

text \<open>(C32) The linked list refines the sequence of its elements: for every represented list, head
  and tail insertion of a fresh entry and deletion of any entry yield the head-consed, appended and
  removed sequence, rotation of the first element to the tail (the round-robin step of the
  scheduler) is the rotated sequence, the forward traversal visits exactly the elements in order,
  and destruction releases each element exactly once, in order.\<close>

theorem SDF_DList_refines_list:
  assumes "dl_repr s h xs"
  shows "(\<forall>n. dl_fresh s h xs n \<longrightarrow>
           dl_repr (SDF_DListElmHeadInsert h n s) h (n # xs) \<and>
           dl_repr (SDF_DListElmTailInsert h n s) h (xs @ [n])) \<and>
         (\<forall>ys n zs. xs = ys @ n # zs \<longrightarrow>
           fst (SDF_DListDel h n s) = n \<and> dl_repr (snd (SDF_DListDel h n s)) h (ys @ zs)) \<and>
         (\<forall>y zs. xs = y # zs \<longrightarrow>
           dl_repr (SDF_DListElmTailInsert h y (snd (SDF_DListDel h y s))) h (zs @ [y])) \<and>
         dl_walk (length xs) h (SDF_DListFirst h s) s = Some xs \<and>
         fst (SDF_DListDestroy h True s) = xs \<and> SDF_DListCount h s = length xs"
proof -
  have sg: "seg s h xs h" and d: "h \<notin> set xs" and nz: "h \<noteq> 0" and n: "dsize s h = length xs"
    using assms by (auto simp: dl_repr_def)
  have rot: "dl_repr (SDF_DListElmTailInsert h y (snd (SDF_DListDel h y s))) h (zs @ [y])"
    if "xs = y # zs" for y zs
    using dl.rotate_head [of s h y zs] assms that by (auto simp: dl_fresh_def dl_repr_def)
  have walk: "dl_walk (length xs) h (SDF_DListFirst h s) s = Some xs"
    unfolding SDF_DListFirst_def by (rule dl_walk_seg [OF sg d]) simp
  have "fst (SDF_DListDestroy h True s) = xs" "SDF_DListCount h s = length xs"
    using destroy_loop_seg [OF sg] nz n by (simp_all add: SDF_DListDestroy_def SDF_DListCount_def)
  then show ?thesis
    using dl.head_law [OF assms] dl.tail_law [OF assms] dl_repr_Del assms rot walk by blast
qed

definition dl_store0 :: dl_store where
  "dl_store0 = \<lparr>nxt = (\<lambda>_. 0), prv = (\<lambda>_. 0), dsize = (\<lambda>_. 0)\<rparr>"

definition dl_demo :: dl_store where
  "dl_demo = SDF_DListElmTailInsert 1 3 (SDF_DListElmTailInsert 1 2 (SDF_DListHeadInit 1 dl_store0))"

lemma dl_demo_repr: "dl_repr dl_demo 1 [2, 3]"
  by (simp add: dl_demo_def dl_store0_def dl_repr_def SDF_DListElmTailInsert_def SDF_DListAdd_def
      SDF_DListHeadInit_def SDF_DListLast_def store_defs Let_def)

theorem SDF_DList_refines_list_witness:
  "dl_repr dl_demo 1 [2, 3] \<and> fst (SDF_DListDestroy 1 True dl_demo) = [2, 3] \<and>
   dl_repr (SDF_DListElmTailInsert 1 4 dl_demo) 1 [2, 3, 4]"
  using SDF_DList_refines_list [OF dl_demo_repr] dl_demo_repr by (simp add: dl_fresh_def)

text \<open>Moving a non-empty list onto a head whose size is zero transfers the whole sequence and
  leaves the source empty and usable.\<close>

lemma SDF_DListMove_transfers:
  assumes "dl_repr s src xs" "xs \<noteq> []" "dst \<notin> set (src # xs)" "dst \<noteq> 0" "dsize s dst = 0"
  shows "dl_repr (SDF_DListMove dst src s) dst xs \<and> dl_repr (SDF_DListMove dst src s) src []"
proof -
  obtain ys y where "xs = ys @ [y]" using assms(2) by (metis rev_exhaust)
  then show ?thesis using dl_repr_Move [of s src ys y dst] assms by simp
qed

text \<open>An empty source is not handled: after \<open>SDF_DListMove\<close> from an empty list to an empty one,
  the destination's \<open>prev\<close> link points at the source head, so an element appended to the
  destination is counted there but the traversal of the destination never reaches it.\<close>

lemma SDF_DListMove_empty_source_loses_append:
  "let s0 = SDF_DListHeadInit 2 (SDF_DListHeadInit 1 dl_store0);
       s1 = SDF_DListElmTailInsert 1 5 (SDF_DListMove 1 2 s0)
   in dl_repr s0 1 [] \<and> dl_repr s0 2 [] \<and>
      SDF_DListCount 1 s1 = 1 \<and> (\<forall>n. dl_walk n 1 (SDF_DListFirst 1 s1) s1 = Some [])"
  by (simp add: dl_store0_def dl_repr_def SDF_DListElmTailInsert_def SDF_DListAdd_def SDF_DListMove_def
      SDF_DListHeadInit_def SDF_DListLast_def SDF_DListFirst_def SDF_DListCount_def dl_walk_at_head store_defs Let_def)

end
