(* ===== verification/Dtap_Types.thy ===== *)
theory Dtap_Types
  imports Nl_Prelude
begin

text \<open>
  Types the parts of the data plane share: the error codes of
  \<^verbatim>\<open>services/stack/src/dp/dtap/interface/dtap_errno.h\<close>, channel identifiers of \<^verbatim>\<open>dtap_tcid.h\<close>, the packet
  information and the receive callback of \<^verbatim>\<open>dtap.h\<close>.
\<close>

section \<open>Error codes\<close>

text \<open>A code is built by \<^verbatim>\<open>DP_MAKE_DTAP_TRANS_ERRNO\<close> or \<^verbatim>\<open>DP_MAKE_DTAP_FRAME_ERRNO\<close> from a number.
  \<open>RetOther\<close> stands for a code of another module that is passed through. \<open>MemFault\<close> is no code of
  the program: an operation of the model answers it when the code would read outside the data of
  a buffer, so that memory safety is the statement that it is never the answer.\<close>

datatype dtap_ret = DTAP_SUCCESS | DtapTransErrno nat | DtapFrameErrno nat | RetOther nat | MemFault

abbreviation (input) DTAP_REGISTER_RECV_CB_ALLOC_ERR :: dtap_ret where
  "DTAP_REGISTER_RECV_CB_ALLOC_ERR \<equiv> DtapTransErrno 100"

abbreviation (input) DTAP_REGISTER_RECV_CB_INVALID_PI :: dtap_ret where
  "DTAP_REGISTER_RECV_CB_INVALID_PI \<equiv> DtapTransErrno 101"

abbreviation (input) DTAP_REGISTER_RECV_CB_NULL_ERR :: dtap_ret where
  "DTAP_REGISTER_RECV_CB_NULL_ERR \<equiv> DtapTransErrno 102"

abbreviation (input) DTAP_UNREGISTER_RECV_CB_TCID_NOT_EXIST :: dtap_ret where
  "DTAP_UNREGISTER_RECV_CB_TCID_NOT_EXIST \<equiv> DtapTransErrno 103"

abbreviation (input) DTAP_TRANS_CHANNEL_CREATE_LINK_MAP_ERR :: dtap_ret where
  "DTAP_TRANS_CHANNEL_CREATE_LINK_MAP_ERR \<equiv> DtapTransErrno 200"

abbreviation (input) DTAP_TRANS_INVALID_DATA :: dtap_ret where
  "DTAP_TRANS_INVALID_DATA \<equiv> DtapTransErrno 300"

abbreviation (input) DTAP_TRANS_FIND_CHANNEL_ERR :: dtap_ret where
  "DTAP_TRANS_FIND_CHANNEL_ERR \<equiv> DtapTransErrno 301"

abbreviation (input) DTAP_TRANS_EXCEED_MTU_ERR :: dtap_ret where
  "DTAP_TRANS_EXCEED_MTU_ERR \<equiv> DtapTransErrno 302"

abbreviation (input) DTAP_TRANS_INVALID_MODULE_TYPE :: dtap_ret where
  "DTAP_TRANS_INVALID_MODULE_TYPE \<equiv> DtapTransErrno 303"

abbreviation (input) DTAP_TRANS_MALLOC_ERR :: dtap_ret where
  "DTAP_TRANS_MALLOC_ERR \<equiv> DtapTransErrno 304"

abbreviation (input) DTAP_TRANS_UNSUPPORTED :: dtap_ret where
  "DTAP_TRANS_UNSUPPORTED \<equiv> DtapTransErrno 305"

abbreviation (input) DTAP_TRANS_EXCEED_MAX_ERR :: dtap_ret where
  "DTAP_TRANS_EXCEED_MAX_ERR \<equiv> DtapTransErrno 306"

abbreviation (input) DTAP_TRANS_INVALID_PARAM_ERR :: dtap_ret where
  "DTAP_TRANS_INVALID_PARAM_ERR \<equiv> DtapTransErrno 307"

abbreviation (input) DTAP_TRANS_CP_POST_ERR :: dtap_ret where
  "DTAP_TRANS_CP_POST_ERR \<equiv> DtapTransErrno 308"

abbreviation (input) DTAP_TRANS_INIT_ERR :: dtap_ret where
  "DTAP_TRANS_INIT_ERR \<equiv> DtapTransErrno 309"

abbreviation (input) DTAP_TRANS_ASSIGN_ERR :: dtap_ret where
  "DTAP_TRANS_ASSIGN_ERR \<equiv> DtapTransErrno 310"

abbreviation (input) DTAP_TRANS_BASIC_SEND_EXCEED_MPS :: dtap_ret where
  "DTAP_TRANS_BASIC_SEND_EXCEED_MPS \<equiv> DtapTransErrno 400"

abbreviation (input) DTAP_TRANS_BASIC_SEND_PREPEND_ERR :: dtap_ret where
  "DTAP_TRANS_BASIC_SEND_PREPEND_ERR \<equiv> DtapTransErrno 401"

abbreviation (input) DTAP_TRANS_BASIC_RECV_TRIM_PRE_ERR :: dtap_ret where
  "DTAP_TRANS_BASIC_RECV_TRIM_PRE_ERR \<equiv> DtapTransErrno 402"

abbreviation (input) DTAP_TRANS_BASIC_SEND_GET_CTX_ERR :: dtap_ret where
  "DTAP_TRANS_BASIC_SEND_GET_CTX_ERR \<equiv> DtapTransErrno 403"

abbreviation (input) DTAP_TRANS_BASIC_CACHE_OVERFLOW_ERR :: dtap_ret where
  "DTAP_TRANS_BASIC_CACHE_OVERFLOW_ERR \<equiv> DtapTransErrno 404"

abbreviation (input) DTAP_TRANS_BASIC_CREATE_FRAME_ERR :: dtap_ret where
  "DTAP_TRANS_BASIC_CREATE_FRAME_ERR \<equiv> DtapTransErrno 405"

abbreviation (input) DTAP_TRANS_TRANSPARENT_PACK_EXCEED_MPS :: dtap_ret where
  "DTAP_TRANS_TRANSPARENT_PACK_EXCEED_MPS \<equiv> DtapTransErrno 500"

abbreviation (input) DTAP_TRANS_STREAM_PACK_HEADER_ERR :: dtap_ret where
  "DTAP_TRANS_STREAM_PACK_HEADER_ERR \<equiv> DtapTransErrno 600"

abbreviation (input) DTAP_TRANS_STREAM_PACK_CRC_ERR :: dtap_ret where
  "DTAP_TRANS_STREAM_PACK_CRC_ERR \<equiv> DtapTransErrno 601"

abbreviation (input) DTAP_TRANS_STREAM_TX_FULL :: dtap_ret where
  "DTAP_TRANS_STREAM_TX_FULL \<equiv> DtapTransErrno 602"

abbreviation (input) DTAP_TRANS_STREAM_RECV_TRIM_PRE_ERR :: dtap_ret where
  "DTAP_TRANS_STREAM_RECV_TRIM_PRE_ERR \<equiv> DtapTransErrno 603"

abbreviation (input) DTAP_TRANS_STREAM_RECV_TRIM_SUF_ERR :: dtap_ret where
  "DTAP_TRANS_STREAM_RECV_TRIM_SUF_ERR \<equiv> DtapTransErrno 604"

abbreviation (input) DTAP_TRANS_STREAM_RECV_CRC_ERR :: dtap_ret where
  "DTAP_TRANS_STREAM_RECV_CRC_ERR \<equiv> DtapTransErrno 605"

abbreviation (input) DTAP_TRANS_STREAM_RECV_DUPLICATED_ERR :: dtap_ret where
  "DTAP_TRANS_STREAM_RECV_DUPLICATED_ERR \<equiv> DtapTransErrno 606"

abbreviation (input) DTAP_TRANS_STREAM_RX_FULL :: dtap_ret where
  "DTAP_TRANS_STREAM_RX_FULL \<equiv> DtapTransErrno 607"

abbreviation (input) DTAP_TRANS_RELIABLE_GET_CTX_ERR :: dtap_ret where
  "DTAP_TRANS_RELIABLE_GET_CTX_ERR \<equiv> DtapTransErrno 700"

abbreviation (input) DTAP_TRANS_RELIABLE_TX_WINDOW_FULL_ERR :: dtap_ret where
  "DTAP_TRANS_RELIABLE_TX_WINDOW_FULL_ERR \<equiv> DtapTransErrno 701"

abbreviation (input) DTAP_TRANS_RELIABLE_COPY_BUFF_ERR :: dtap_ret where
  "DTAP_TRANS_RELIABLE_COPY_BUFF_ERR \<equiv> DtapTransErrno 702"

abbreviation (input) DTAP_TRANS_RELIABLE_FIND_FRAME_ERR :: dtap_ret where
  "DTAP_TRANS_RELIABLE_FIND_FRAME_ERR \<equiv> DtapTransErrno 703"

abbreviation (input) DTAP_TRANS_RELIABLE_REACH_MAX_RE_TX_CNT_ERR :: dtap_ret where
  "DTAP_TRANS_RELIABLE_REACH_MAX_RE_TX_CNT_ERR \<equiv> DtapTransErrno 704"

abbreviation (input) DTAP_TRANS_RELIABLE_COPY_FRAME_ERR :: dtap_ret where
  "DTAP_TRANS_RELIABLE_COPY_FRAME_ERR \<equiv> DtapTransErrno 705"

abbreviation (input) DTAP_TRANS_RELIABLE_INVALID_MPS :: dtap_ret where
  "DTAP_TRANS_RELIABLE_INVALID_MPS \<equiv> DtapTransErrno 706"

abbreviation (input) DTAP_TRANS_RELIABLE_FRAGMENT_ERR :: dtap_ret where
  "DTAP_TRANS_RELIABLE_FRAGMENT_ERR \<equiv> DtapTransErrno 707"

abbreviation (input) DTAP_TRANS_RELIABLE_TX_WINDOW_FULL :: dtap_ret where
  "DTAP_TRANS_RELIABLE_TX_WINDOW_FULL \<equiv> DtapTransErrno 708"

abbreviation (input) DTAP_TRANS_RELIABLE_TRANS_CHANNEL_FULL :: dtap_ret where
  "DTAP_TRANS_RELIABLE_TRANS_CHANNEL_FULL \<equiv> DtapTransErrno 709"

abbreviation (input) DTAP_TRANS_RELIABLE_INVALID_FRAME_NUM :: dtap_ret where
  "DTAP_TRANS_RELIABLE_INVALID_FRAME_NUM \<equiv> DtapTransErrno 710"

abbreviation (input) DTAP_MODULE_DUP_INITED_ERR :: dtap_ret where
  "DTAP_MODULE_DUP_INITED_ERR \<equiv> DtapTransErrno 800"

abbreviation (input) DTAP_MODULE_NOT_INITED_ERR :: dtap_ret where
  "DTAP_MODULE_NOT_INITED_ERR \<equiv> DtapTransErrno 801"

abbreviation (input) DTAP_FRAME_INVALID_FRAME_TYPE :: dtap_ret where
  "DTAP_FRAME_INVALID_FRAME_TYPE \<equiv> DtapFrameErrno 100"

abbreviation (input) DTAP_FRAME_SEND_ALLOC_ERR :: dtap_ret where
  "DTAP_FRAME_SEND_ALLOC_ERR \<equiv> DtapFrameErrno 101"

abbreviation (input) DTAP_FRAME_SEND_DLI_SEND_ERR :: dtap_ret where
  "DTAP_FRAME_SEND_DLI_SEND_ERR \<equiv> DtapFrameErrno 102"

abbreviation (input) DTAP_FRAME_NULL_PTR_ERR :: dtap_ret where
  "DTAP_FRAME_NULL_PTR_ERR \<equiv> DtapFrameErrno 103"

abbreviation (input) DTAP_FRAME_INVALID_BUFF_LEN :: dtap_ret where
  "DTAP_FRAME_INVALID_BUFF_LEN \<equiv> DtapFrameErrno 104"

abbreviation (input) DTAP_FRAME_INVALID_EXT_HDR_LEN :: dtap_ret where
  "DTAP_FRAME_INVALID_EXT_HDR_LEN \<equiv> DtapFrameErrno 105"

abbreviation (input) DTAP_FRAME_INVALID_EXT_LEN :: dtap_ret where
  "DTAP_FRAME_INVALID_EXT_LEN \<equiv> DtapFrameErrno 106"

abbreviation (input) DTAP_FRAME_INVALID_EXT_NUM :: dtap_ret where
  "DTAP_FRAME_INVALID_EXT_NUM \<equiv> DtapFrameErrno 107"

abbreviation (input) DTAP_BASIC_FRAME_INVALID_PI_LEN :: dtap_ret where
  "DTAP_BASIC_FRAME_INVALID_PI_LEN \<equiv> DtapFrameErrno 200"

abbreviation (input) DTAP_ENHANCED_FRAME_HDR_LEN_TOO_SHORT :: dtap_ret where
  "DTAP_ENHANCED_FRAME_HDR_LEN_TOO_SHORT \<equiv> DtapFrameErrno 400"

abbreviation (input) DTAP_ENHANCED_FRAME_LENGTH_TOO_SHORT :: dtap_ret where
  "DTAP_ENHANCED_FRAME_LENGTH_TOO_SHORT \<equiv> DtapFrameErrno 401"

abbreviation (input) DTAP_ENHANCED_FRAME_SDU_HDR_LEN_TOO_SHORT :: dtap_ret where
  "DTAP_ENHANCED_FRAME_SDU_HDR_LEN_TOO_SHORT \<equiv> DtapFrameErrno 402"

abbreviation (input) DTAP_ENHANCED_FRAME_SDU_LEN_TOO_SHORT :: dtap_ret where
  "DTAP_ENHANCED_FRAME_SDU_LEN_TOO_SHORT \<equiv> DtapFrameErrno 403"

abbreviation (input) DTAP_ENHANCED_FRAME_NOT_SUPPORT_ERR :: dtap_ret where
  "DTAP_ENHANCED_FRAME_NOT_SUPPORT_ERR \<equiv> DtapFrameErrno 404"

abbreviation (input) DTAP_ENHANCED_FRAME_PREPEND_ERR :: dtap_ret where
  "DTAP_ENHANCED_FRAME_PREPEND_ERR \<equiv> DtapFrameErrno 405"

abbreviation (input) DTAP_ENHANCED_FRAME_APPEND_ERR :: dtap_ret where
  "DTAP_ENHANCED_FRAME_APPEND_ERR \<equiv> DtapFrameErrno 406"

abbreviation (input) DTAP_ENHANCED_FRAME_BUFF_NEW_ERR :: dtap_ret where
  "DTAP_ENHANCED_FRAME_BUFF_NEW_ERR \<equiv> DtapFrameErrno 407"

abbreviation (input) DTAP_ENHANCED_FRAME_NULL :: dtap_ret where
  "DTAP_ENHANCED_FRAME_NULL \<equiv> DtapFrameErrno 408"

abbreviation (input) DTAP_ENHANCED_FRAME_TRIM_PREFIX_ERR :: dtap_ret where
  "DTAP_ENHANCED_FRAME_TRIM_PREFIX_ERR \<equiv> DtapFrameErrno 409"

abbreviation (input) DTAP_ENHANCED_FRAME_TRIM_SUFFIX_ERR :: dtap_ret where
  "DTAP_ENHANCED_FRAME_TRIM_SUFFIX_ERR \<equiv> DtapFrameErrno 410"

abbreviation (input) DTAP_ENHANCED_FRAME_DUP_FIRST_FRAG_FRAME :: dtap_ret where
  "DTAP_ENHANCED_FRAME_DUP_FIRST_FRAG_FRAME \<equiv> DtapFrameErrno 411"

abbreviation (input) DTAP_ENHANCED_FRAME_NO_FIRST_FRAG_FRAME :: dtap_ret where
  "DTAP_ENHANCED_FRAME_NO_FIRST_FRAG_FRAME \<equiv> DtapFrameErrno 412"

abbreviation (input) DTAP_ENHANCED_FRAME_FRAGMENT_FRAME_LEN_ERR :: dtap_ret where
  "DTAP_ENHANCED_FRAME_FRAGMENT_FRAME_LEN_ERR \<equiv> DtapFrameErrno 413"

abbreviation (input) DTAP_ENHANCED_FRAME_UPDATE_FRAG_FRAME_ERR :: dtap_ret where
  "DTAP_ENHANCED_FRAME_UPDATE_FRAG_FRAME_ERR \<equiv> DtapFrameErrno 414"

section \<open>Identifiers\<close>

abbreviation (input) TCID_FTC_RFU_END :: byte where "TCID_FTC_RFU_END \<equiv> 0x1D"

abbreviation (input) TCID_MAX :: byte where "TCID_MAX \<equiv> 0xFF"

abbreviation (input) DTAP_PI_NONE :: byte where "DTAP_PI_NONE \<equiv> 0"

abbreviation (input) DTAP_PI_MAX :: nat where "DTAP_PI_MAX \<equiv> 7"

section \<open>Upcalls\<close>

text \<open>\<open>DTAP_Data_Info_S\<close>, what a receive callback learns about a packet.\<close>

record DTAP_Data_Info =
  info_pi :: byte
  info_lcid :: u16w
  info_tcid :: byte

text \<open>A receive callback belongs to the upper layer. It answers a code and may keep state: its
  answer is a function of the earlier calls made to it. \<open>deliveries\<close> is the log of these calls, the
  latest last, each with its answer.\<close>

type_synonym deliveries = "(DTAP_Data_Info \<times> byte list \<times> dtap_ret) list"

type_synonym recv_cb = "deliveries \<Rightarrow> DTAP_Data_Info \<Rightarrow> byte list \<Rightarrow> dtap_ret"

definition call_recv :: "recv_cb \<Rightarrow> DTAP_Data_Info \<Rightarrow> byte list \<Rightarrow> deliveries \<Rightarrow> dtap_ret \<times> deliveries" where
  "call_recv cb info dat dl = (cb dl info dat, dl @ [(info, dat, cb dl info dat)])"

text \<open>The data units handed to the upper layer, and those it took.\<close>

definition sdus :: "deliveries \<Rightarrow> byte list list" where
  "sdus dl = map (\<lambda>(_, d, _). d) dl"

definition accepted :: "deliveries \<Rightarrow> byte list list" where
  "accepted dl =
     map (\<lambda>(_, d, _). d) (filter (\<lambda>(_, _, r). r \<noteq> DTAP_TRANS_RELIABLE_TRANS_CHANNEL_FULL) dl)"

lemma sdus_append [simp]: "sdus (xs @ ys) = sdus xs @ sdus ys"
  by (simp add: sdus_def)

lemma accepted_append [simp]: "accepted (xs @ ys) = accepted xs @ accepted ys"
  by (simp add: accepted_def)

end
