(* ===== verification/Sdf_Buff.thy ===== *)
theory Sdf_Buff
  imports Nl_Prelude
begin

text \<open>
  The data buffer of the stack, \<^verbatim>\<open>services/stack/src/sdf/bsl/dsl/src/sdf_buff.c\<close> and the accessor
  macros of \<^verbatim>\<open>sdf_buff.h\<close>: one block with a headroom for the protocol headers, the data and a
  tailroom for the check sequence. \<open>SDF_BuffAppend\<close> and \<open>SDF_BuffPrepend\<close> hand out the
  position at which the caller writes; \<open>buff_write\<close> is that write (\<^verbatim>\<open>memcpy_s\<close> or the stores
  through a header struct). The locale \<open>byte_buffer\<close> states what the protocol layers rely on.
\<close>

section \<open>The structure\<close>

record SDF_Buff =
  dataOff :: nat
  dataLen :: nat
  buffLen :: nat
  bytes :: "byte list"

abbreviation (input) SDF_BUFF_MAX_HEADROOM_SIZE :: nat where
  "SDF_BUFF_MAX_HEADROOM_SIZE \<equiv> 14"

abbreviation (input) SDF_BUFF_MAX_TAILROOM_SIZE :: nat where
  "SDF_BUFF_MAX_TAILROOM_SIZE \<equiv> 2"

abbreviation (input) SDF_BUFF_MAX_RESERVED_SIZE :: nat where
  "SDF_BUFF_MAX_RESERVED_SIZE \<equiv> 16"

definition SDF_BuffTailRoom :: "SDF_Buff \<Rightarrow> nat" where
  "SDF_BuffTailRoom b = sub64 (sub64 (buffLen b) (dataOff b)) (dataLen b)"

text \<open>The bytes between \<^verbatim>\<open>buff + dataOff\<close> and \<^verbatim>\<open>buff + dataOff + dataLen\<close>.\<close>

definition buff_data :: "SDF_Buff \<Rightarrow> byte list" where
  "buff_data b = take (dataLen b) (drop (dataOff b) (bytes b))"

definition buff_write :: "nat \<Rightarrow> byte list \<Rightarrow> SDF_Buff \<Rightarrow> SDF_Buff" where
  "buff_write off new b = b\<lparr>bytes := list_write off new (bytes b)\<rparr>"

section \<open>Operations\<close>

text \<open>\<open>buffLen\<close> is computed in 32 bits (\<open>size\<close> and the reserve constants are unsigned ints); the
  size handed to the allocator is computed in \<^verbatim>\<open>size_t\<close> and does not wrap. \<open>bytes\<close> is the
  zeroed block behind the header of the structure.\<close>

definition SDF_BuffNew :: "nat \<Rightarrow> mem \<Rightarrow> SDF_Buff option \<times> mem" where
  "SDF_BuffNew n m =
     (case SDF_MemZalloc n m of
        (None, m') \<Rightarrow> (None, m')
      | (Some blk, m') \<Rightarrow>
          (Some \<lparr>dataOff = 0, dataLen = 0, buffLen = n, bytes = blk\<rparr>, m'))"

definition SDF_BuffNewWithReserve :: "nat \<Rightarrow> mem \<Rightarrow> SDF_Buff option \<times> mem" where
  "SDF_BuffNewWithReserve n m =
     (case SDF_MemZalloc (SDF_BUFF_MAX_RESERVED_SIZE + n) m of
        (None, m') \<Rightarrow> (None, m')
      | (Some blk, m') \<Rightarrow>
          (Some \<lparr>dataOff = SDF_BUFF_MAX_HEADROOM_SIZE, dataLen = 0,
                 buffLen = u32 (SDF_BUFF_MAX_RESERVED_SIZE + n), bytes = blk\<rparr>, m'))"

definition SDF_BuffNewWithExtraReserve :: "nat \<Rightarrow> nat \<Rightarrow> mem \<Rightarrow> SDF_Buff option \<times> mem" where
  "SDF_BuffNewWithExtraReserve n extraSize m =
     (case SDF_MemZalloc (SDF_BUFF_MAX_RESERVED_SIZE + n + extraSize) m of
        (None, m') \<Rightarrow> (None, m')
      | (Some blk, m') \<Rightarrow>
          (Some \<lparr>dataOff = SDF_BUFF_MAX_HEADROOM_SIZE + extraSize, dataLen = 0,
                 buffLen = u32 (SDF_BUFF_MAX_RESERVED_SIZE + n + extraSize),
                 bytes = blk\<rparr>, m'))"

definition SDF_BuffAppend :: "SDF_Buff \<Rightarrow> nat \<Rightarrow> (nat \<times> SDF_Buff) option" where
  "SDF_BuffAppend b n =
     (if n > SDF_BuffTailRoom b then None
      else Some (dataOff b + dataLen b, b\<lparr>dataLen := dataLen b + n\<rparr>))"

definition SDF_BuffPrepend :: "SDF_Buff \<Rightarrow> nat \<Rightarrow> (nat \<times> SDF_Buff) option" where
  "SDF_BuffPrepend b n =
     (if n > dataOff b then None
      else Some (dataOff b - n, b\<lparr>dataOff := dataOff b - n, dataLen := dataLen b + n\<rparr>))"

definition SDF_BuffTrimPrefix :: "SDF_Buff \<Rightarrow> nat \<Rightarrow> SDF_Buff option" where
  "SDF_BuffTrimPrefix b n =
     (if n > dataLen b then None
      else Some (b\<lparr>dataLen := dataLen b - n, dataOff := dataOff b + n\<rparr>))"

definition SDF_BuffTrimSuffix :: "SDF_Buff \<Rightarrow> nat \<Rightarrow> SDF_Buff option" where
  "SDF_BuffTrimSuffix b n =
     (if n > dataLen b then None else Some (b\<lparr>dataLen := dataLen b - n\<rparr>))"

definition SDF_BuffCopy :: "SDF_Buff \<Rightarrow> mem \<Rightarrow> SDF_Buff option \<times> mem" where
  "SDF_BuffCopy b m =
     (if buffLen b > 18446744073709551615 - 24 then (None, m)
      else case SDF_MemAlloc m of (ok, m') \<Rightarrow> (if ok then Some b else None, m'))"

section \<open>Well-formedness\<close>

definition wf_buff :: "SDF_Buff \<Rightarrow> bool" where
  "wf_buff b \<longleftrightarrow> dataOff b + dataLen b \<le> buffLen b \<and> length (bytes b) = buffLen b \<and>
     buffLen b < 4294967296"

lemma SDF_BuffTailRoom_wf:
  "wf_buff b \<Longrightarrow> SDF_BuffTailRoom b = buffLen b - dataOff b - dataLen b"
  by (auto simp: wf_buff_def SDF_BuffTailRoom_def)

lemma length_buff_data [simp]: "wf_buff b \<Longrightarrow> length (buff_data b) = dataLen b"
  by (auto simp: wf_buff_def buff_data_def)

lemma SDF_BuffNew_SomeD:
  assumes "SDF_BuffNew n m = (Some b, m')" "n < 4294967296"
  shows "wf_buff b \<and> buff_data b = [] \<and> dataLen b = 0 \<and> SDF_BuffTailRoom b = n \<and> dataOff b = 0"
  using assms
  by (auto simp: SDF_BuffNew_def SDF_MemZalloc_def wf_buff_def buff_data_def
      SDF_BuffTailRoom_def split: prod.splits option.splits if_splits)

lemma SDF_BuffNewWithReserve_SomeD:
  assumes "SDF_BuffNewWithReserve n m = (Some b, m')" "n + 16 < 4294967296"
  shows "wf_buff b \<and> buff_data b = [] \<and> dataLen b = 0 \<and> SDF_BuffTailRoom b = n + 2 \<and>
    dataOff b = 14"
  using assms
  by (auto simp: SDF_BuffNewWithReserve_def SDF_MemZalloc_def wf_buff_def buff_data_def
      SDF_BuffTailRoom_def split: prod.splits option.splits if_splits)

lemma SDF_BuffNew_ok:
  "mem_ok m \<Longrightarrow> \<exists>b m'. SDF_BuffNew n m = (Some b, m') \<and> mem_ok m'"
  by (erule SDF_MemAlloc_okE) (auto simp: SDF_BuffNew_def SDF_MemZalloc_def)

lemma SDF_BuffNewWithReserve_ok:
  "mem_ok m \<Longrightarrow> \<exists>b m'. SDF_BuffNewWithReserve n m = (Some b, m') \<and> mem_ok m'"
  by (erule SDF_MemAlloc_okE) (auto simp: SDF_BuffNewWithReserve_def SDF_MemZalloc_def)

lemma SDF_BuffCopy_SomeD: "SDF_BuffCopy b m = (Some b', m') \<Longrightarrow> b' = b"
  by (auto simp: SDF_BuffCopy_def split: if_splits prod.splits)

lemma SDF_BuffCopy_ok: "mem_ok m \<Longrightarrow> wf_buff b \<Longrightarrow> \<exists>m'. SDF_BuffCopy b m = (Some b, m') \<and> mem_ok m'"
  by (erule SDF_MemAlloc_okE) (auto simp: SDF_BuffCopy_def wf_buff_def)

text \<open>Append followed by the caller's write of exactly the requested bytes.\<close>

definition buff_append :: "byte list \<Rightarrow> SDF_Buff \<Rightarrow> SDF_Buff option" where
  "buff_append new b =
     (case SDF_BuffAppend b (length new) of None \<Rightarrow> None | Some (p, b') \<Rightarrow> Some (buff_write p new b'))"

definition buff_prepend :: "byte list \<Rightarrow> SDF_Buff \<Rightarrow> SDF_Buff option" where
  "buff_prepend new b =
     (case SDF_BuffPrepend b (length new) of None \<Rightarrow> None | Some (p, b') \<Rightarrow> Some (buff_write p new b'))"

lemma buff_append_eq:
  assumes "wf_buff b"
  shows "buff_append new b =
    (if length new > SDF_BuffTailRoom b then None
     else Some (b\<lparr>dataLen := dataLen b + length new,
                  bytes := list_write (dataOff b + dataLen b) new (bytes b)\<rparr>))"
  by (simp add: buff_append_def SDF_BuffAppend_def buff_write_def)

lemma buff_append_SomeD:
  assumes "wf_buff b" "buff_append new b = Some b'"
  shows "wf_buff b' \<and> buff_data b' = buff_data b @ new \<and> dataOff b' = dataOff b \<and>
    dataLen b' = dataLen b + length new \<and> buffLen b' = buffLen b"
  using assms
  by (auto simp: buff_append_eq SDF_BuffTailRoom_wf wf_buff_def buff_data_def list_write_def
      drop_take add.commute split: if_splits)

lemma buff_append_Some:
  assumes "wf_buff b" "length new \<le> SDF_BuffTailRoom b"
  shows "\<exists>b'. buff_append new b = Some b'"
  using assms by (simp add: buff_append_eq)

lemma buff_prepend_SomeD:
  assumes "wf_buff b" "buff_prepend new b = Some b'"
  shows "wf_buff b' \<and> buff_data b' = new @ buff_data b \<and> dataOff b' = dataOff b - length new \<and>
    dataLen b' = dataLen b + length new \<and> buffLen b' = buffLen b"
  using assms
  by (auto simp: buff_prepend_def SDF_BuffPrepend_def buff_write_def wf_buff_def buff_data_def
      list_write_def split: if_splits)

lemma buff_prepend_Some: "length new \<le> dataOff b \<Longrightarrow> \<exists>b'. buff_prepend new b = Some b'"
  by (simp add: buff_prepend_def SDF_BuffPrepend_def)

lemma SDF_BuffTrimPrefix_SomeD:
  assumes "wf_buff b" "SDF_BuffTrimPrefix b n = Some b'"
  shows "wf_buff b' \<and> buff_data b' = drop n (buff_data b) \<and> dataLen b' = dataLen b - n \<and>
    dataOff b' = dataOff b + n \<and> buffLen b' = buffLen b \<and> n \<le> dataLen b"
  using assms
  by (auto simp: SDF_BuffTrimPrefix_def wf_buff_def buff_data_def drop_take add.commute
      split: if_splits)

lemma SDF_BuffTrimSuffix_SomeD:
  assumes "wf_buff b" "SDF_BuffTrimSuffix b n = Some b'"
  shows "wf_buff b' \<and> buff_data b' = take (dataLen b - n) (buff_data b) \<and>
    dataLen b' = dataLen b - n \<and> dataOff b' = dataOff b \<and> buffLen b' = buffLen b \<and> n \<le> dataLen b"
  using assms
  by (auto simp: SDF_BuffTrimSuffix_def wf_buff_def buff_data_def split: if_splits)

section \<open>The buffer interface\<close>

text \<open>What the frame layer relies on: append and prepend extend the data at one end, the trims
  remove from one end, and all of them keep the buffer well formed.\<close>

locale byte_buffer =
  fixes wf :: "'b \<Rightarrow> bool"
    and contents :: "'b \<Rightarrow> byte list"
    and append_bytes :: "byte list \<Rightarrow> 'b \<Rightarrow> 'b option"
    and prepend_bytes :: "byte list \<Rightarrow> 'b \<Rightarrow> 'b option"
    and trim_prefix :: "'b \<Rightarrow> nat \<Rightarrow> 'b option"
    and trim_suffix :: "'b \<Rightarrow> nat \<Rightarrow> 'b option"
  assumes append_law: "wf b \<Longrightarrow> append_bytes xs b = Some b' \<Longrightarrow> wf b' \<and> contents b' = contents b @ xs"
    and prepend_law: "wf b \<Longrightarrow> prepend_bytes xs b = Some b' \<Longrightarrow> wf b' \<and> contents b' = xs @ contents b"
    and prefix_law: "wf b \<Longrightarrow> trim_prefix b n = Some b' \<Longrightarrow> wf b' \<and> contents b' = drop n (contents b)"
    and suffix_law: "wf b \<Longrightarrow> trim_suffix b n = Some b' \<Longrightarrow>
          wf b' \<and> contents b' = take (length (contents b) - n) (contents b)"
    and prefix_total: "wf b \<Longrightarrow> n \<le> length (contents b) \<Longrightarrow> trim_prefix b n \<noteq> None"
    and suffix_total: "wf b \<Longrightarrow> n \<le> length (contents b) \<Longrightarrow> trim_suffix b n \<noteq> None"
begin

lemma prepend_trim:
  assumes "wf b" "prepend_bytes hdr b = Some b1"
  shows "\<exists>b2. trim_prefix b1 (length hdr) = Some b2 \<and> wf b2 \<and> contents b2 = contents b"
proof -
  from prepend_law [OF assms] have w: "wf b1" and c: "contents b1 = hdr @ contents b" by auto
  then obtain b2 where b2: "trim_prefix b1 (length hdr) = Some b2"
    using prefix_total [OF w, of "length hdr"] by auto
  with prefix_law [OF w b2] c show ?thesis by auto
qed

lemma append_trim:
  assumes "wf b" "append_bytes tail b = Some b1"
  shows "\<exists>b2. trim_suffix b1 (length tail) = Some b2 \<and> wf b2 \<and> contents b2 = contents b"
proof -
  from append_law [OF assms] have w: "wf b1" and c: "contents b1 = contents b @ tail" by auto
  then obtain b2 where b2: "trim_suffix b1 (length tail) = Some b2"
    using suffix_total [OF w, of "length tail"] by auto
  with suffix_law [OF w b2] c show ?thesis by auto
qed

lemma envelope_trim:
  assumes "wf b" "prepend_bytes hdr b = Some b1" "append_bytes tail b1 = Some b2"
  shows "\<exists>b3 b4. trim_prefix b2 (length hdr) = Some b3 \<and> trim_suffix b3 (length tail) = Some b4 \<and>
    wf b4 \<and> contents b4 = contents b"
proof -
  from prepend_law [OF assms(1,2)] have w1: "wf b1" and c1: "contents b1 = hdr @ contents b"
    by auto
  from append_law [OF w1 assms(3)] have w2: "wf b2" and c2: "contents b2 = hdr @ contents b @ tail"
    using c1 by auto
  obtain b3 where b3: "trim_prefix b2 (length hdr) = Some b3"
    using prefix_total [OF w2, of "length hdr"] c2 by auto
  from prefix_law [OF w2 b3] have w3: "wf b3" and c3: "contents b3 = contents b @ tail"
    using c2 by auto
  obtain b4 where b4: "trim_suffix b3 (length tail) = Some b4"
    using suffix_total [OF w3, of "length tail"] c3 by auto
  from suffix_law [OF w3 b4] b3 b4 c3 show ?thesis by auto
qed

end

interpretation sdf: byte_buffer wf_buff buff_data buff_append buff_prepend
  SDF_BuffTrimPrefix SDF_BuffTrimSuffix
proof
  show "wf_buff b \<Longrightarrow> buff_append xs b = Some b' \<Longrightarrow> wf_buff b' \<and> buff_data b' = buff_data b @ xs"
    for b b' xs using buff_append_SomeD by blast
  show "wf_buff b \<Longrightarrow> buff_prepend xs b = Some b' \<Longrightarrow> wf_buff b' \<and> buff_data b' = xs @ buff_data b"
    for b b' xs using buff_prepend_SomeD by blast
  show "wf_buff b \<Longrightarrow> SDF_BuffTrimPrefix b n = Some b' \<Longrightarrow>
      wf_buff b' \<and> buff_data b' = drop n (buff_data b)" for b b' n
    using SDF_BuffTrimPrefix_SomeD by blast
  show "wf_buff b \<Longrightarrow> SDF_BuffTrimSuffix b n = Some b' \<Longrightarrow>
      wf_buff b' \<and> buff_data b' = take (length (buff_data b) - n) (buff_data b)" for b b' n
    using SDF_BuffTrimSuffix_SomeD by simp
  show "wf_buff b \<Longrightarrow> n \<le> length (buff_data b) \<Longrightarrow> SDF_BuffTrimPrefix b n \<noteq> None" for b n
    by (simp add: SDF_BuffTrimPrefix_def)
  show "wf_buff b \<Longrightarrow> n \<le> length (buff_data b) \<Longrightarrow> SDF_BuffTrimSuffix b n \<noteq> None" for b n
    by (simp add: SDF_BuffTrimSuffix_def)
qed

section \<open>Properties\<close>

text \<open>A reserved buffer always has room for the largest frame header and the check sequence
  around a payload of the announced size: on a run without allocation failure, a payload of \<open>n\<close>
  bytes can be appended, a header of at most fourteen bytes prepended and a two-byte trailer
  appended, and the data is then header, payload and trailer in this order.\<close>

lemma SDF_BuffNewWithReserve_fits_frame:
  assumes "mem_ok m" "length payload + 16 < 4294967296" "length hdr \<le> 14" "length trailer = 2"
  shows "\<exists>b m' b1 b2 b3. SDF_BuffNewWithReserve (length payload) m = (Some b, m') \<and>
    buff_append payload b = Some b1 \<and> buff_prepend hdr b1 = Some b2 \<and>
    buff_append trailer b2 = Some b3 \<and> wf_buff b3 \<and> buff_data b3 = hdr @ payload @ trailer"
proof -
  obtain b m' where b: "SDF_BuffNewWithReserve (length payload) m = (Some b, m')"
    using SDF_BuffNewWithReserve_ok [OF assms(1)] by blast
  from SDF_BuffNewWithReserve_SomeD [OF b assms(2)]
  have w: "wf_buff b" and d: "buff_data b = []" and r: "SDF_BuffTailRoom b = length payload + 2"
    and o: "dataOff b = 14" and l: "dataLen b = 0" by auto
  obtain b1 where b1: "buff_append payload b = Some b1"
    using buff_append_Some [OF w, of payload] r by auto
  from buff_append_SomeD [OF w b1]
  have w1: "wf_buff b1" and d1: "buff_data b1 = payload" and o1: "dataOff b1 = 14"
    and l1: "dataLen b1 = length payload" and n1: "buffLen b1 = buffLen b" using d o l by auto
  obtain b2 where b2: "buff_prepend hdr b1 = Some b2"
    using buff_prepend_Some [of hdr b1] o1 assms(3) by auto
  from buff_prepend_SomeD [OF w1 b2]
  have w2: "wf_buff b2" and d2: "buff_data b2 = hdr @ payload"
    and p2: "dataOff b2 = 14 - length hdr" "dataLen b2 = length payload + length hdr"
      "buffLen b2 = buffLen b1" using d1 o1 l1 by auto
  have "SDF_BuffTailRoom b2 = SDF_BuffTailRoom b - length payload"
    using SDF_BuffTailRoom_wf [OF w2] SDF_BuffTailRoom_wf [OF w] p2 n1 o l assms(3) by simp
  then obtain b3 where b3: "buff_append trailer b2 = Some b3"
    using buff_append_Some [OF w2, of trailer] r assms(4) by auto
  from buff_append_SomeD [OF w2 b3] d2 have "wf_buff b3 \<and> buff_data b3 = hdr @ payload @ trailer"
    by simp
  with b b1 b2 b3 show ?thesis by blast
qed

text \<open>(C33) The four operations never leave the block: from a well-formed buffer each of them
  either refuses or yields a well-formed buffer of the same capacity, so the position handed to
  the caller and everything written there up to the requested size lie inside the block.\<close>

theorem SDF_Buff_ops_in_bounds:
  assumes "wf_buff b"
  shows "(case SDF_BuffAppend b n of None \<Rightarrow> True | Some (p, b1) \<Rightarrow>
            wf_buff b1 \<and> p + n \<le> buffLen b \<and> buffLen b1 = buffLen b) \<and>
         (case SDF_BuffPrepend b n of None \<Rightarrow> True | Some (p, b1) \<Rightarrow>
            wf_buff b1 \<and> p + n \<le> buffLen b \<and> buffLen b1 = buffLen b) \<and>
         (case SDF_BuffTrimPrefix b n of None \<Rightarrow> True | Some b1 \<Rightarrow>
            wf_buff b1 \<and> buffLen b1 = buffLen b) \<and>
         (case SDF_BuffTrimSuffix b n of None \<Rightarrow> True | Some b1 \<Rightarrow>
            wf_buff b1 \<and> buffLen b1 = buffLen b)"
  using assms
  by (auto simp: SDF_BuffAppend_def SDF_BuffPrepend_def SDF_BuffTrimPrefix_def
      SDF_BuffTrimSuffix_def SDF_BuffTailRoom_wf wf_buff_def split: if_splits)

theorem SDF_Buff_ops_in_bounds_witness:
  "SDF_BuffAppend \<lparr>dataOff = 1, dataLen = 2, buffLen = 5, bytes = [0, 1, 2, 0, 0]\<rparr> 2 =
     Some (3, \<lparr>dataOff = 1, dataLen = 4, buffLen = 5, bytes = [0, 1, 2, 0, 0]\<rparr>) \<and>
   wf_buff \<lparr>dataOff = 1, dataLen = 4, buffLen = 5, bytes = [0, 1, 2, 0, 0]\<rparr>"
proof -
  let ?b = "\<lparr>dataOff = 1, dataLen = 2, buffLen = 5, bytes = [0, 1, 2, 0, 0]\<rparr>"
  have w: "wf_buff ?b" by (simp add: wf_buff_def)
  have a: "SDF_BuffAppend ?b 2 =
      Some (3, \<lparr>dataOff = 1, dataLen = 4, buffLen = 5, bytes = [0, 1, 2, 0, 0]\<rparr>)"
    using w by (simp add: SDF_BuffAppend_def SDF_BuffTailRoom_wf)
  with SDF_Buff_ops_in_bounds [OF w, of 2] show ?thesis by simp
qed

end
