(* ===== verification/Dli_Data.thy ===== *)
theory Dli_Data
  imports Dtap_Types Sdf_Buff
begin

text \<open>
  The data path of the driver layer interface: splitting packets for the controller, and
  reassembling what it receives, \<^verbatim>\<open>services/stack/src/dli/layer/src/dli_layer.c\<close> and
  \<^verbatim>\<open>dli_layer_utils.c\<close>. The command and event path of these files is not modelled. \<open>acbLen\<close> is the
  buffer size the controller announced, \<open>DLI_DataLenGet(ACB_DATA_TYPE)\<close>.
\<close>

section \<open>Types\<close>

datatype dli_ret = DLI_SUCCESS | DLI_STACK_PARAMS_ERRNO | DLI_STACK_MEM_ERRNO | DliErrno nat | DliFault

abbreviation (input) DLI_FULL_FRAGMENT :: nat where "DLI_FULL_FRAGMENT \<equiv> 0"
abbreviation (input) DLI_FIRST_FRAGMENT :: nat where "DLI_FIRST_FRAGMENT \<equiv> 1"
abbreviation (input) DLI_MIDDLE_FRAGMENT :: nat where "DLI_MIDDLE_FRAGMENT \<equiv> 2"
abbreviation (input) DLI_LAST_FRAGMENT :: nat where "DLI_LAST_FRAGMENT \<equiv> 3"
abbreviation (input) DLI_HEADER :: nat where "DLI_HEADER \<equiv> 5"
abbreviation (input) DLI_HEADER_WITHOUT_TYPE_SIZE :: nat where "DLI_HEADER_WITHOUT_TYPE_SIZE \<equiv> 4"
abbreviation (input) DLI_MAX_FRAGMEN_NUM :: nat where "DLI_MAX_FRAGMEN_NUM \<equiv> 128"
abbreviation (input) DLI_MAX_TXRX_DATA_LEN :: nat where "DLI_MAX_TXRX_DATA_LEN \<equiv> 102400"
abbreviation (input) DLI_DATA_MAX_CNT :: nat where "DLI_DATA_MAX_CNT \<equiv> 10000"
abbreviation (input) DLI_DATATYPE_ACB :: byte where "DLI_DATATYPE_ACB \<equiv> 0xA3"

record DLI_DataStru =
  dli_lcid :: u16w
  dli_type :: byte
  dli_ts :: nat
  dli_prio :: nat
  dli_buf :: SDF_Buff

record DLI_RecvDataNode =
  rx_lcid :: u16w
  rx_pb :: nat
  rx_buf :: SDF_Buff

section \<open>Sending\<close>

text \<open>\<open>DLI_PdFlagGet\<close> computes the flag of the next fragment from the flag of the previous one, which
  it keeps in \<open>g_info.pdFlag\<close>; 255 is the value after initialisation.\<close>

definition DLI_PdFlagGet :: "nat \<Rightarrow> nat \<Rightarrow> nat \<Rightarrow> nat \<times> nat" where
  "DLI_PdFlagGet pdFlag remainLen oneSendLen =
     (let f = (if pdFlag = DLI_FIRST_FRAGMENT \<or> pdFlag = DLI_MIDDLE_FRAGMENT
               then (if remainLen > oneSendLen then DLI_MIDDLE_FRAGMENT else DLI_LAST_FRAGMENT)
               else if pdFlag = DLI_LAST_FRAGMENT \<or> pdFlag = DLI_FULL_FRAGMENT \<or> pdFlag = 255
               then (if remainLen > oneSendLen then DLI_FIRST_FRAGMENT else DLI_FULL_FRAGMENT)
               else DLI_FIRST_FRAGMENT)
      in (f, f))"

definition DLI_GetDataFragmentNums :: "nat \<Rightarrow> SDF_Buff \<Rightarrow> nat" where
  "DLI_GetDataFragmentNums acbLen b =
     (if acbLen = 0 then 0
      else let n = u32 ((dataLen b + acbLen - 1) div acbLen) in if n > DLI_MAX_FRAGMEN_NUM then 0 else n)"

definition DLI_GetFragmentMaxLen :: "nat \<Rightarrow> nat" where
  "DLI_GetFragmentMaxLen acbLen = acbLen + DLI_HEADER"

text \<open>The handle word: identifier, fragment flag, time stamp and priority.\<close>

definition dli_handle :: "u16w \<Rightarrow> nat \<Rightarrow> nat \<Rightarrow> nat \<Rightarrow> u16w" where
  "dli_handle lcid pd ts prio =
     lcid OR push_bit 12 (of_nat pd) OR push_bit 14 (of_nat ts) OR push_bit 15 (of_nat prio)"

text \<open>The loop of \<open>DLI_SplitData\<close>. The header is written into the packet itself, in front of the data
  of the fragment and so over the tail of the previous fragment, which has been copied out by
  then. \<^verbatim>\<open>DLI_ENCODE2BYTE\<close> evaluates its value argument twice, first for the high and then for the low
  byte, and with it calls \<open>DLI_PdFlagGet\<close> twice; only the first result reaches the flag bits, which lie
  in the high byte, but both calls update \<open>pdFlag\<close>.\<close>

definition dli_split_one :: "nat \<Rightarrow> DLI_DataStru \<Rightarrow> SDF_Buff \<Rightarrow> nat \<Rightarrow> nat \<Rightarrow> SDF_Buff \<Rightarrow>
    SDF_Buff option \<times> SDF_Buff \<times> nat \<times> nat" where
  "dli_split_one acbLen d b dataOffset pdFlag frag =
     (let p = dataOff b + dataOffset - DLI_HEADER;
          remainLen = sub64 (dataLen b) dataOffset;
          (pd1, pdFlag1) = DLI_PdFlagGet pdFlag remainLen acbLen;
          (pd2, pdFlag2) = DLI_PdFlagGet pdFlag1 remainLen acbLen;
          hi = dli_handle (dli_lcid d) pd1 (dli_ts d) (dli_prio d);
          lo = dli_handle (dli_lcid d) pd2 (dli_ts d) (dli_prio d);
          sendLen = u16 (if remainLen > acbLen then acbLen else remainLen);
          hdr = [dli_type d, ucast lo, ucast (drop_bit 8 hi)] @ ENCODE2BYTE_LITTLE (of_nat sendLen);
          b1 = buff_write p hdr b;
          fragmentLen = u16 (sendLen + DLI_HEADER)
      in (buff_append (take fragmentLen (drop p (bytes b1))) frag, b1, dataOffset + sendLen, pdFlag2))"

fun dli_split_loop :: "nat \<Rightarrow> DLI_DataStru \<Rightarrow> SDF_Buff \<Rightarrow> nat \<Rightarrow> nat \<Rightarrow> SDF_Buff list \<Rightarrow> SDF_Buff list \<Rightarrow>
    dli_ret \<times> SDF_Buff list \<times> nat" where
  "dli_split_loop acbLen d b dataOffset pdFlag [] acc = (DLI_SUCCESS, acc, pdFlag)"
| "dli_split_loop acbLen d b dataOffset pdFlag (frag # frags) acc =
     (if dataOff b + dataOffset < DLI_HEADER then (DliFault, acc @ frag # frags, pdFlag)
      else case dli_split_one acbLen d b dataOffset pdFlag frag of
        (None, b1, off1, pdFlag2) \<Rightarrow> (DLI_STACK_MEM_ERRNO, acc @ frag # frags, pdFlag2)
      | (Some frag', b1, off1, pdFlag2) \<Rightarrow>
          dli_split_loop acbLen d b1 off1 pdFlag2 frags (acc @ [frag']))"

definition DLI_SplitData :: "nat \<Rightarrow> nat \<Rightarrow> DLI_DataStru \<Rightarrow> SDF_Buff list \<Rightarrow> dli_ret \<times> SDF_Buff list \<times> nat" where
  "DLI_SplitData acbLen pdFlag d frags =
     (if length frags > 0 \<and> length frags \<le> DLI_MAX_FRAGMEN_NUM
      then dli_split_loop acbLen d (dli_buf d) 0 pdFlag frags []
      else (DLI_STACK_PARAMS_ERRNO, frags, pdFlag))"

text \<open>\<open>DLI_DataSend\<close> posts the fragment to the driver thread. Posting is outside of this file and may
  fail; its outcomes form a script like those of the allocator.\<close>

definition DLI_DataSend :: "DLI_DataStru \<Rightarrow> bool list \<Rightarrow> dli_ret \<times> bool list" where
  "DLI_DataSend d sc =
     (if dataLen (dli_buf d) > DLI_MAX_TXRX_DATA_LEN then (DLI_STACK_PARAMS_ERRNO, sc)
      else case SDF_MemAlloc sc of (ok, sc') \<Rightarrow> ((if ok then DLI_SUCCESS else DliErrno 0), sc'))"

section \<open>Receiving\<close>

definition DLI_RecvDataNodeCreate :: "u16w \<Rightarrow> nat \<Rightarrow> SDF_Buff \<Rightarrow> mem \<Rightarrow> DLI_RecvDataNode option \<times> mem" where
  "DLI_RecvDataNodeCreate lcid pb b m =
     (case SDF_MemAlloc m of (ok, m') \<Rightarrow>
        ((if ok then Some \<lparr>rx_lcid = lcid, rx_pb = pb, rx_buf = b\<rparr> else None), m'))"

definition DLI_DataNodeFind :: "DLI_RecvDataNode list \<Rightarrow> u16w \<Rightarrow> DLI_RecvDataNode option" where
  "DLI_DataNodeFind rx lcid = find_first (\<lambda>n. rx_lcid n = lcid) rx"

text \<open>The other outcome of \<open>DLI_ReciveBufUpdate\<close>, a failing \<^verbatim>\<open>memcpy_s\<close>, cannot occur: the copy is bounded by
  the tail room that the append has checked.\<close>

definition DLI_ReciveBufUpdate :: "SDF_Buff \<Rightarrow> SDF_Buff \<Rightarrow> SDF_Buff option" where
  "DLI_ReciveBufUpdate b newBuf = buff_append (buff_data newBuf) b"

definition DLI_ReciveDataUpdate :: "DLI_RecvDataNode \<Rightarrow> u16w \<Rightarrow> nat \<Rightarrow> SDF_Buff \<Rightarrow> mem \<Rightarrow>
    DLI_RecvDataNode option \<times> mem" where
  "DLI_ReciveDataUpdate node lcid pb b m =
     (case DLI_ReciveBufUpdate (rx_buf node) b of
        Some b' \<Rightarrow> (Some (node\<lparr>rx_buf := b'\<rparr>), m)
      | None \<Rightarrow>
          let sz = (if pb = DLI_MIDDLE_FRAGMENT then 2 * dataLen b else dataLen b) + dataLen (rx_buf node) in
          if sz > DLI_MAX_TXRX_DATA_LEN then (None, m)
          else case SDF_BuffNew sz m of
            (None, m') \<Rightarrow> (None, m')
          | (Some n0, m') \<Rightarrow>
              (case DLI_ReciveBufUpdate n0 (rx_buf node) of
                 None \<Rightarrow> (None, m')
               | Some n1 \<Rightarrow>
                   (case DLI_ReciveBufUpdate n1 b of
                      None \<Rightarrow> (None, m')
                    | Some n2 \<Rightarrow> (Some \<lparr>rx_lcid = lcid, rx_pb = pb, rx_buf = n2\<rparr>, m'))))"

definition DLI_IsFirstPb :: "nat \<Rightarrow> bool" where
  "DLI_IsFirstPb pb \<longleftrightarrow> pb = DLI_FIRST_FRAGMENT \<or> pb = DLI_FULL_FRAGMENT"

definition DLI_CheckPb :: "nat \<Rightarrow> nat \<Rightarrow> bool" where
  "DLI_CheckPb prePb curPb \<longleftrightarrow> \<not> ((prePb \<noteq> DLI_MIDDLE_FRAGMENT \<and> prePb = curPb) \<or> prePb > curPb)"

text \<open>Replacing and removing the node that \<open>DLI_DataNodeFind\<close> returned, the first with its identifier.\<close>

fun rx_replace :: "u16w \<Rightarrow> DLI_RecvDataNode \<Rightarrow> DLI_RecvDataNode list \<Rightarrow> DLI_RecvDataNode list" where
  "rx_replace lcid n [] = []"
| "rx_replace lcid n (x # xs) = (if rx_lcid x = lcid then n # xs else x # rx_replace lcid n xs)"

definition rx_remove :: "u16w \<Rightarrow> DLI_RecvDataNode list \<Rightarrow> DLI_RecvDataNode list" where
  "rx_remove lcid = remove_first (\<lambda>n. rx_lcid n = lcid)"

definition DLI_ReceiveDataNodeUpdate :: "SDF_Buff \<Rightarrow> u16w \<Rightarrow> nat \<Rightarrow> DLI_RecvDataNode list \<Rightarrow> mem \<Rightarrow>
    DLI_RecvDataNode option \<times> DLI_RecvDataNode list \<times> mem" where
  "DLI_ReceiveDataNodeUpdate b lcid pb rx m =
     (case DLI_DataNodeFind rx lcid of
        None \<Rightarrow>
          if \<not> DLI_IsFirstPb pb then (None, rx, m)
          else (case DLI_RecvDataNodeCreate lcid pb b m of
                  (None, m') \<Rightarrow> (None, rx, m')
                | (Some n, m') \<Rightarrow>
                    if length rx \<ge> DLI_DATA_MAX_CNT then (None, rx, m') else (Some n, rx @ [n], m'))
      | Some node \<Rightarrow>
          if \<not> DLI_CheckPb (rx_pb node) pb then
            (if DLI_IsFirstPb pb
             then let n = node\<lparr>rx_buf := b, rx_pb := pb\<rparr> in (Some n, rx_replace lcid n rx, m)
             else (None, rx_remove lcid rx, m))
          else (case DLI_ReciveDataUpdate node lcid pb b m of
                  (None, m') \<Rightarrow> (None, rx_remove lcid rx, m')
                | (Some n, m') \<Rightarrow> (Some n, rx_replace lcid n rx, m')))"

text \<open>\<open>DLI_AcbPacketReceived\<close> on a packet without its type byte; \<open>DLI_PacketReceived\<close> has checked that the four
  header bytes are there. The result lists what is handed to \<open>DLI_AcbRecvHander\<close>.\<close>

definition rdn4 :: "SDF_Buff \<Rightarrow> (byte \<times> byte \<times> byte \<times> byte) option" where
  "rdn4 b = (let ds = buff_data b in
     if length ds < 4 then None else Some (ds ! 0, ds ! 1, ds ! 2, ds ! 3))"

definition DLI_AcbPacketReceived :: "SDF_Buff \<Rightarrow> DLI_RecvDataNode list \<Rightarrow> mem \<Rightarrow>
    (u16w \<times> SDF_Buff) list \<times> DLI_RecvDataNode list \<times> mem" where
  "DLI_AcbPacketReceived b rx m =
     (case rdn4 b of
        Some (h0, h1, l0, l1) \<Rightarrow>
          (let len = unat (DECODE2BYTE_LITTLE l0 l1) in
           if len \<noteq> sub64 (dataLen b) DLI_HEADER_WITHOUT_TYPE_SIZE then ([], rx, m)
           else let w = DECODE2BYTE_LITTLE h0 h1;
                    pb = unat (drop_bit 12 w AND 3);
                    lcid = w AND 0x0FFF
                in case SDF_BuffTrimPrefix b DLI_HEADER_WITHOUT_TYPE_SIZE of
                     None \<Rightarrow> ([], rx, m)
                   | Some b' \<Rightarrow>
                       if pb = DLI_FULL_FRAGMENT then ([(lcid, b')], rx, m)
                       else if pb = DLI_FIRST_FRAGMENT \<or> pb = DLI_MIDDLE_FRAGMENT
                       then (case DLI_ReceiveDataNodeUpdate b' lcid pb rx m of (_, rx', m') \<Rightarrow> ([], rx', m'))
                       else (case DLI_ReceiveDataNodeUpdate b' lcid pb rx m of
                               (None, rx', m') \<Rightarrow> ([], rx', m')
                             | (Some n, rx', m') \<Rightarrow> ([(lcid, rx_buf n)], rx_remove lcid rx', m')))
      | None \<Rightarrow> ([], rx, m))"

definition DLI_CreateRxBuff :: "byte list \<Rightarrow> mem \<Rightarrow> SDF_Buff option \<times> mem" where
  "DLI_CreateRxBuff packet m =
     (case SDF_BuffNew (length packet) m of
        (None, m') \<Rightarrow> (None, m')
      | (Some b, m') \<Rightarrow> (buff_append packet b, m'))"

text \<open>\<open>DLI_PacketReceived\<close> for data packets: the size check, the copy into a buffer and the handler, which
  runs on the main thread in the order of the packets.\<close>

definition DLI_PacketReceived :: "byte list \<Rightarrow> DLI_RecvDataNode list \<Rightarrow> mem \<Rightarrow>
    (u16w \<times> SDF_Buff) list \<times> DLI_RecvDataNode list \<times> mem" where
  "DLI_PacketReceived packet rx m =
     (if length packet \<ge> DLI_HEADER_WITHOUT_TYPE_SIZE \<and> length packet \<le> 65535
      then case DLI_CreateRxBuff packet m of
             (None, m') \<Rightarrow> ([], rx, m')
           | (Some b, m') \<Rightarrow> DLI_AcbPacketReceived b rx m'
      else ([], rx, m))"

fun dli_receive_all :: "byte list list \<Rightarrow> DLI_RecvDataNode list \<Rightarrow> mem \<Rightarrow>
    (u16w \<times> SDF_Buff) list \<times> DLI_RecvDataNode list \<times> mem" where
  "dli_receive_all [] rx m = ([], rx, m)"
| "dli_receive_all (p # ps) rx m =
     (case DLI_PacketReceived p rx m of (out, rx', m') \<Rightarrow>
        (case dli_receive_all ps rx' m' of (out', rx'', m'') \<Rightarrow> (out @ out', rx'', m'')))"

section \<open>Splitting\<close>

text \<open>The flags of the fragments of one packet.\<close>

fun pb_flags :: "bool \<Rightarrow> nat \<Rightarrow> nat list" where
  "pb_flags started 0 = []"
| "pb_flags started (Suc k) =
     (if started then (if k = 0 then DLI_LAST_FRAGMENT else DLI_MIDDLE_FRAGMENT)
      else (if k = 0 then DLI_FULL_FRAGMENT else DLI_FIRST_FRAGMENT)) # pb_flags True k"

text \<open>One fragment on the wire.\<close>

definition dli_wire :: "DLI_DataStru \<Rightarrow> nat \<Rightarrow> byte list \<Rightarrow> byte list" where
  "dli_wire d pb piece =
     dli_type d # ENCODE2BYTE_LITTLE (dli_handle (dli_lcid d) pb (dli_ts d) (dli_prio d))
     @ ENCODE2BYTE_LITTLE (of_nat (length piece)) @ piece"

lemma handle_low: "(ucast (dli_handle lcid pd ts prio) :: byte) = ucast lcid"
  unfolding dli_handle_def by (rule bit_word_eqI) (auto simp: bit_simps)

definition pd_started :: "nat \<Rightarrow> bool" where
  "pd_started f \<longleftrightarrow> f = DLI_FIRST_FRAGMENT \<or> f = DLI_MIDDLE_FRAGMENT"

definition pd_idle :: "nat \<Rightarrow> bool" where
  "pd_idle f \<longleftrightarrow> f = DLI_LAST_FRAGMENT \<or> f = DLI_FULL_FRAGMENT \<or> f = 255"

lemma PdFlag_twice:
  assumes "if st then pd_started f else pd_idle f"
  shows "DLI_PdFlagGet f rem len = (hd (pb_flags st (if rem > len then 2 else 1)),
           hd (pb_flags st (if rem > len then 2 else 1))) \<and>
    (if rem > len then pd_started else pd_idle)
      (snd (DLI_PdFlagGet (snd (DLI_PdFlagGet f rem len)) rem len))"
  using assms
  by (cases st) (auto simp: DLI_PdFlagGet_def pd_started_def pd_idle_def numeral_2_eq_2)

lemma split_one:
  assumes "wf_buff b" "5 \<le> dataOff b + off" "rest = drop off (buff_data b)" "rest \<noteq> []"
    "0 < L" "L + 5 < 65536" "wf_buff frag" "buff_data frag = []" "SDF_BuffTailRoom frag = L + 5"
    "if st then pd_started f else pd_idle f"
  obtains frag' b1 f2 where
    "dli_split_one L d b off f frag = (Some frag', b1, off + length (take L rest), f2)"
    "wf_buff frag'" "buff_data frag' = dli_wire d (hd (pb_flags st (if length rest > L then 2 else 1))) (take L rest)"
    "wf_buff b1" "dataOff b1 = dataOff b" "dataLen b1 = dataLen b"
    "drop (off + length (take L rest)) (buff_data b1) = drop L rest"
    "if length rest > L then pd_started f2 else pd_idle f2"
proof -
  define pb where "pb = hd (pb_flags st (if length rest > L then 2 else 1))"
  define n where "n = length (take L rest)"
  let ?p = "dataOff b + off - 5"
  have lr: "length rest = dataLen b - off" using assms(1,3) by simp
  have off: "off < dataLen b" using assms(4) lr by (cases rest) auto
  have lt: "dataLen b < 18446744073709551616" "dataOff b + dataLen b \<le> length (bytes b)"
    using assms(1) by (auto simp: wf_buff_def)
  have rem: "sub64 (dataLen b) off = length rest" using lt off lr by simp
  obtain f1 f2 where f: "DLI_PdFlagGet f (length rest) L = (pb, pb)" "DLI_PdFlagGet pb (length rest) L = (f1, f2)"
    "if length rest > L then pd_started f2 else pd_idle f2"
    using PdFlag_twice [OF assms(10), of "length rest" L, folded pb_def] by (cases "DLI_PdFlagGet pb (length rest) L") (auto split: if_splits)
  have n: "u16 (if length rest > L then L else length rest) = n" "u16 (n + 5) = n + 5"
    using assms(6) by (auto simp: n_def)
  define hdr0 where "hdr0 = [dli_type d, ucast (dli_handle (dli_lcid d) f1 (dli_ts d) (dli_prio d)),
     ucast (drop_bit 8 (dli_handle (dli_lcid d) pb (dli_ts d) (dli_prio d)))] @ ENCODE2BYTE_LITTLE (of_nat n)"
  have hdr: "hdr0 = dli_type d # ENCODE2BYTE_LITTLE (dli_handle (dli_lcid d) pb (dli_ts d) (dli_prio d))
     @ ENCODE2BYTE_LITTLE (of_nat n)"
    by (simp add: hdr0_def ENCODE2BYTE_LITTLE_def handle_low)
  let ?b1 = "buff_write ?p hdr0 b"
  have p5: "?p + 5 = dataOff b + off" using assms(2) by simp
  have lh: "length hdr0 = 5" by (simp add: hdr0_def)
  have bytes1: "bytes ?b1 = take ?p (bytes b) @ hdr0 @ drop (dataOff b + off) (bytes b)"
    unfolding buff_write_def list_write_def lh p5 by simp
  have lb: "length (bytes ?b1) = length (bytes b)" using lt off p5 lh unfolding bytes1 by auto
  have lp: "length (take ?p (bytes b)) = ?p" using lt off p5 by auto
  have restb: "rest = take (dataLen b - off) (drop (dataOff b + off) (bytes b))"
    using assms(3) by (simp add: buff_data_def drop_take add.commute)
  have cut: "take (n + 5) (drop ?p (bytes ?b1)) = hdr0 @ take L rest"
  proof -
    have "drop ?p (bytes ?b1) = hdr0 @ drop (dataOff b + off) (bytes b)"
      unfolding bytes1 using lp by simp
    moreover have "take n (drop (dataOff b + off) (bytes b)) = take L rest"
      unfolding n_def restb by (simp add: min_def)
    ultimately show ?thesis using lh by simp
  qed
  have rt: "length (hdr0 @ take L rest) \<le> SDF_BuffTailRoom frag" using assms(9) lh by (simp add: n_def)
  obtain frag' where fr: "buff_append (hdr0 @ take L rest) frag = Some frag'"
    using buff_append_Some [OF assms(7) rt] by blast
  have w1: "wf_buff ?b1" using assms(1) lb by (simp add: wf_buff_def buff_write_def)
  have d1: "drop (off + n) (buff_data ?b1) = drop L rest"
  proof -
    have "drop (dataOff b + off + k) (bytes ?b1) = drop (dataOff b + off + k) (bytes b)" for k
      unfolding bytes1 using lp lh p5 by (simp add: add.commute)
    then have "drop (off + k) (buff_data ?b1) = drop (off + k) (buff_data b)" for k
      by (simp add: buff_data_def buff_write_def drop_take add.assoc add.commute add.left_commute)
    from this [of n] have "drop (off + n) (buff_data ?b1) = drop n rest"
      using assms(3) by (simp add: add.commute)
    also have "\<dots> = drop L rest" by (cases "L \<le> length rest") (simp_all add: n_def)
    finally show ?thesis .
  qed
  show thesis
  proof (rule that [of frag' ?b1 f2, folded n_def pb_def])
    show "dli_split_one L d b off f frag = (Some frag', ?b1, off + n, f2)"
      unfolding dli_split_one_def rem Let_def f prod.case n hdr0_def [symmetric] using cut fr by simp
    show "wf_buff frag'" "buff_data frag' = dli_wire d pb (take L rest)"
      using buff_append_SomeD [OF assms(7) fr] assms(8) hdr by (simp_all add: dli_wire_def n_def)
    show "if length rest > L then pd_started f2 else pd_idle f2" by (rule f(3))
  qed (use w1 d1 in \<open>simp_all add: buff_write_def\<close>)
qed

text \<open>The fragments of a packet on the wire.\<close>

definition dli_fragments :: "nat \<Rightarrow> DLI_DataStru \<Rightarrow> bool \<Rightarrow> byte list \<Rightarrow> byte list list" where
  "dli_fragments L d st rest =
     map2 (dli_wire d) (pb_flags st (length (chunks L rest))) (chunks L rest)"

lemma fragments_step:
  assumes "rest \<noteq> []" "0 < L"
  shows "dli_fragments L d st rest =
    dli_wire d (hd (pb_flags st (if length rest > L then 2 else 1))) (take L rest) # dli_fragments L d True (drop L rest)"
proof (cases "length rest > L")
  case True
  then have "chunks L rest = take L rest # chunks L (drop L rest)" "chunks L (drop L rest) \<noteq> []"
    using assms by (simp_all add: chunks.simps [of L rest] chunks.simps [of L "drop L rest"])
  then show ?thesis using True
    by (cases "length (chunks L (drop L rest))") (auto simp: dli_fragments_def numeral_2_eq_2)
next
  case False
  then have "chunks L rest = [rest]" using assms by (simp add: chunks.simps [of L rest])
  then show ?thesis using False by (simp add: dli_fragments_def)
qed

lemma split_loop:
  assumes "wf_buff b" "5 \<le> dataOff b" "rest = drop off (buff_data b)" "0 < L" "L + 5 < 65536"
    "length frags = length (chunks L rest)"
    "\<forall>frag\<in>set frags. wf_buff frag \<and> buff_data frag = [] \<and> SDF_BuffTailRoom frag = L + 5"
    "rest \<noteq> [] \<Longrightarrow> if st then pd_started f else pd_idle f" "rest = [] \<Longrightarrow> pd_idle f"
  shows "\<exists>out f'. dli_split_loop L d b off f frags acc = (DLI_SUCCESS, acc @ out, f') \<and> pd_idle f' \<and>
    map buff_data out = dli_fragments L d st rest \<and> list_all wf_buff out"
  using assms
proof (induction frags arbitrary: b off f rest st acc)
  case Nil
  then have "chunks L rest = []" by simp
  then have "rest = []" using concat_chunks [of L rest] by (metis concat.simps(1))
  then show ?case using Nil by (simp add: dli_fragments_def)
next
  case (Cons frag frags)
  then have ne: "rest \<noteq> []" by auto
  obtain frag' b1 f2 where one:
    "dli_split_one L d b off f frag = (Some frag', b1, off + length (take L rest), f2)"
    "wf_buff frag'" "buff_data frag' = dli_wire d (hd (pb_flags st (if length rest > L then 2 else 1))) (take L rest)"
    "wf_buff b1" "dataOff b1 = dataOff b" "dataLen b1 = dataLen b"
    "drop (off + length (take L rest)) (buff_data b1) = drop L rest"
    "if length rest > L then pd_started f2 else pd_idle f2"
    using split_one [OF Cons.prems(1) _ Cons.prems(3) ne Cons.prems(4,5), of frag st f d] Cons.prems(2,7,8) ne
    by (metis list.set_intros(1) trans_le_add1)
  have len: "length frags = length (chunks L (drop L rest))"
  proof (cases "length rest > L")
    case True then show ?thesis using Cons.prems(4,6) ne chunks.simps [of L rest] by simp
  next
    case False then show ?thesis using Cons.prems(4,6) ne chunks.simps [of L rest] by simp
  qed
  have "\<exists>out f'. dli_split_loop L d b1 (off + length (take L rest)) f2 frags (acc @ [frag']) =
      (DLI_SUCCESS, (acc @ [frag']) @ out, f') \<and> pd_idle f' \<and>
      map buff_data out = dli_fragments L d True (drop L rest) \<and> list_all wf_buff out"
    by (rule Cons.IH [OF one(4) _ one(7) [symmetric] Cons.prems(4,5) len])
      (use Cons.prems(2,7) one(5,8) in \<open>auto split: if_splits\<close>)
  then obtain out f' where o: "dli_split_loop L d b1 (off + length (take L rest)) f2 frags (acc @ [frag']) =
      (DLI_SUCCESS, (acc @ [frag']) @ out, f')" "pd_idle f'"
      "map buff_data out = dli_fragments L d True (drop L rest)" "list_all wf_buff out" by blast
  show ?case
    using o one(1,2,3) Cons.prems(2) fragments_step [OF ne Cons.prems(4), of d st]
    by (intro exI [of _ "frag' # out"] exI [of _ f']) simp
qed

lemma fragment_nums:
  assumes "wf_buff b" "0 < dataLen b" "0 < L" "L + 5 < 65536" "length (chunks L (buff_data b)) \<le> DLI_MAX_FRAGMEN_NUM"
  shows "DLI_GetDataFragmentNums L b = length (chunks L (buff_data b)) \<and> 0 < length (chunks L (buff_data b))"
proof -
  have "(dataLen b + L - 1) div L = length (chunks L (buff_data b))"
    using length_chunks [OF assms(3), of "buff_data b"] assms(1) by simp
  moreover have "buff_data b \<noteq> []" using assms(1,2) by (metis length_buff_data list.size(3) less_nat_zero_code)
  then have "0 < length (chunks L (buff_data b))" using concat_chunks [of L "buff_data b"] by (cases "chunks L (buff_data b)") auto
  ultimately show ?thesis using assms(3,5) by (simp add: DLI_GetDataFragmentNums_def)
qed

section \<open>Reassembling\<close>

lemma handle_decode:
  assumes "unat lcid < 4096" "pb < 4"
  shows "dli_handle lcid pb 0 0 AND 0x0FFF = lcid" "unat (drop_bit 12 (dli_handle lcid pb 0 0) AND 3) = pb"
proof -
  have l12: "take_bit 12 lcid = lcid"
    using assms(1) by (simp add: word_unat_eq_iff unsigned_take_bit_eq take_bit_nat_eq_self)
  have nb: "\<not> bit lcid n" if "12 \<le> n" for n
    using that l12 by (metis bit_take_bit_iff not_less)
  have m: "(0x0FFF :: u16w) = mask 12" "(3 :: u16w) = mask 2" by (simp_all add: mask_eq_exp_minus_1)
  have pb: "take_bit 2 (of_nat pb :: u16w) = of_nat pb"
    using assms(2) by (simp add: take_bit_nat_eq_self flip: of_nat_take_bit)
  have "take_bit 12 (dli_handle lcid pb 0 0) = take_bit 12 lcid"
    unfolding dli_handle_def by (rule bit_word_eqI) (auto simp: bit_simps)
  then show "dli_handle lcid pb 0 0 AND 0x0FFF = lcid"
    unfolding m take_bit_eq_mask [symmetric] by (simp add: l12)
  have "drop_bit 12 (dli_handle lcid pb 0 0) AND 3 = take_bit 2 (of_nat pb)"
    unfolding m take_bit_eq_mask [symmetric] dli_handle_def
    by (rule bit_word_eqI) (auto simp: bit_simps nb)
  then show "unat (drop_bit 12 (dli_handle lcid pb 0 0) AND 3) = pb"
    using assms(2) by (simp add: pb)
qed

lemma packet_received:
  assumes "packet = tl (dli_wire d pb piece)" "length piece \<le> 65531" "mem_ok m"
    "unat (dli_lcid d) < 4096" "dli_ts d = 0" "dli_prio d = 0" "pb < 4"
  obtains b m' where "wf_buff b" "buff_data b = piece" "dataLen b = length piece" "mem_ok m'"
    "DLI_PacketReceived packet rx m =
      (if pb = DLI_FULL_FRAGMENT then ([(dli_lcid d, b)], rx, m')
       else if pb = DLI_FIRST_FRAGMENT \<or> pb = DLI_MIDDLE_FRAGMENT
       then (case DLI_ReceiveDataNodeUpdate b (dli_lcid d) pb rx m' of (_, rx', m'') \<Rightarrow> ([], rx', m''))
       else (case DLI_ReceiveDataNodeUpdate b (dli_lcid d) pb rx m' of
               (None, rx', m'') \<Rightarrow> ([], rx', m'')
             | (Some n, rx', m'') \<Rightarrow> ([(dli_lcid d, rx_buf n)], rx_remove (dli_lcid d) rx', m'')))"
proof -
  define w where "w = dli_handle (dli_lcid d) pb 0 0"
  have pk: "packet = ENCODE2BYTE_LITTLE w @ ENCODE2BYTE_LITTLE (of_nat (length piece)) @ piece"
    using assms(1,5,6) by (simp add: dli_wire_def w_def)
  have lp: "length packet = length piece + 4" by (simp add: pk)
  obtain n0 m' where n0: "SDF_BuffNew (length packet) m = (Some n0, m')" "mem_ok m'"
    using SDF_BuffNew_ok [OF assms(3)] by blast
  have s: "wf_buff n0" "buff_data n0 = []" "dataLen n0 = 0" "SDF_BuffTailRoom n0 = length packet"
    using SDF_BuffNew_SomeD [OF n0(1)] lp assms(2) by auto
  obtain n1 where n1: "buff_append packet n0 = Some n1" using buff_append_Some [OF s(1)] s(4) by auto
  have a: "wf_buff n1" "buff_data n1 = packet" "dataLen n1 = length packet"
    using buff_append_SomeD [OF s(1) n1] s by auto
  obtain b where b: "SDF_BuffTrimPrefix n1 4 = Some b" using a(3) lp by (auto simp: SDF_BuffTrimPrefix_def)
  have t: "wf_buff b" "buff_data b = piece" "dataLen b = length piece"
    using SDF_BuffTrimPrefix_SomeD [OF a(1) b] a lp by (simp_all add: pk)
  have r4: "rdn4 n1 = Some (ucast w, ucast (drop_bit 8 w), ucast (of_nat (length piece) :: u16w),
      ucast (drop_bit 8 (of_nat (length piece) :: u16w)))"
    unfolding rdn4_def a(2) by (simp add: pk ENCODE2BYTE_LITTLE_def numeral_eq_Suc)
  have "DLI_PacketReceived packet rx m = DLI_AcbPacketReceived n1 rx m'"
    using lp assms(2) n0(1) n1 by (simp add: DLI_PacketReceived_def DLI_CreateRxBuff_def)
  also have "\<dots> = (if pb = DLI_FULL_FRAGMENT then ([(dli_lcid d, b)], rx, m')
       else if pb = DLI_FIRST_FRAGMENT \<or> pb = DLI_MIDDLE_FRAGMENT
       then (case DLI_ReceiveDataNodeUpdate b (dli_lcid d) pb rx m' of (_, rx', m'') \<Rightarrow> ([], rx', m''))
       else (case DLI_ReceiveDataNodeUpdate b (dli_lcid d) pb rx m' of
               (None, rx', m'') \<Rightarrow> ([], rx', m'')
             | (Some n, rx', m'') \<Rightarrow> ([(dli_lcid d, rx_buf n)], rx_remove (dli_lcid d) rx', m'')))"
    using r4 a(3) lp b assms(2) handle_decode [OF assms(4,7), folded w_def]
    by (simp add: DLI_AcbPacketReceived_def decode_encode_little Let_def split: prod.splits option.splits)
  finally show thesis using that [OF t n0(2)] by simp
qed

lemma data_update:
  assumes "wf_buff (rx_buf n)" "wf_buff b" "mem_ok m" "rx_lcid n = lcid"
    "dataLen (rx_buf n) + 2 * dataLen b \<le> DLI_MAX_TXRX_DATA_LEN"
  obtains n' m' where "DLI_ReciveDataUpdate n lcid pb b m = (Some n', m')" "mem_ok m'"
    "rx_lcid n' = lcid" "rx_pb n' = rx_pb n \<or> rx_pb n' = pb" "wf_buff (rx_buf n')"
    "buff_data (rx_buf n') = buff_data (rx_buf n) @ buff_data b"
proof (cases "buff_append (buff_data b) (rx_buf n)")
  case (Some b')
  show thesis
    by (rule that [of "n\<lparr>rx_buf := b'\<rparr>" m])
      (use Some assms buff_append_SomeD [OF assms(1) Some] in
        \<open>auto simp: DLI_ReciveDataUpdate_def DLI_ReciveBufUpdate_def\<close>)
next
  case None
  let ?s = "(if pb = DLI_MIDDLE_FRAGMENT then 2 * dataLen b else dataLen b) + dataLen (rx_buf n)"
  obtain n0 m' where n0: "SDF_BuffNew ?s m = (Some n0, m')" "mem_ok m'" using SDF_BuffNew_ok [OF assms(3)] by blast
  have s: "wf_buff n0" "buff_data n0 = []" "dataLen n0 = 0" "SDF_BuffTailRoom n0 = ?s" "dataOff n0 = 0"
    using SDF_BuffNew_SomeD [OF n0(1)] assms(5) by auto
  obtain n1 where n1: "buff_append (buff_data (rx_buf n)) n0 = Some n1"
    using buff_append_Some [OF s(1), of "buff_data (rx_buf n)"] s(4) assms(1) by auto
  note a = buff_append_SomeD [OF s(1) n1]
  have "dataLen b \<le> SDF_BuffTailRoom n1"
    using a s SDF_BuffTailRoom_wf [OF s(1)] SDF_BuffTailRoom_wf [of n1] assms(1) by auto
  then obtain n2 where n2: "buff_append (buff_data b) n1 = Some n2"
    using buff_append_Some [of n1 "buff_data b"] a assms(2) by auto
  show thesis
    by (rule that [of "\<lparr>rx_lcid = lcid, rx_pb = pb, rx_buf = n2\<rparr>" m'])
      (use None n0 n1 n2 s a assms buff_append_SomeD [of n1 _ n2, OF _ n2] in
        \<open>auto simp: DLI_ReciveDataUpdate_def DLI_ReciveBufUpdate_def Let_def\<close>)
qed

lemma find_replace: "rx_lcid n = lcid \<Longrightarrow> DLI_DataNodeFind rx lcid \<noteq> None \<Longrightarrow>
    DLI_DataNodeFind (rx_replace lcid n rx) lcid = Some n \<and> rx_remove lcid (rx_replace lcid n rx) = rx_remove lcid rx"
  by (induction rx) (auto simp: DLI_DataNodeFind_def rx_remove_def)

lemma find_lcid: "DLI_DataNodeFind rx lcid = Some n \<Longrightarrow> rx_lcid n = lcid"
  using find_first_SomeD by (fastforce simp: DLI_DataNodeFind_def)

lemma receive_more:
  assumes "DLI_DataNodeFind rx (dli_lcid d) = Some n" "rx_pb n = DLI_FIRST_FRAGMENT \<or> rx_pb n = DLI_MIDDLE_FRAGMENT"
    "wf_buff (rx_buf n)" "mem_ok m" "ps \<noteq> []" "\<forall>p\<in>set ps. length p \<le> L" "L \<le> 65531"
    "length (buff_data (rx_buf n)) + length (concat ps) + L \<le> DLI_MAX_TXRX_DATA_LEN"
    "unat (dli_lcid d) < 4096" "dli_ts d = 0" "dli_prio d = 0"
  shows "\<exists>nb m'. dli_receive_all (map tl (map2 (dli_wire d) (pb_flags True (length ps)) ps)) rx m =
    ([(dli_lcid d, nb)], rx_remove (dli_lcid d) rx, m') \<and> buff_data nb = buff_data (rx_buf n) @ concat ps"
  using assms(1-6,8)
proof (induction ps arbitrary: rx n m)
  case Nil then show ?case by simp
next
  case (Cons p ps)
  let ?l = "dli_lcid d" and ?pb = "if ps = [] then DLI_LAST_FRAGMENT else DLI_MIDDLE_FRAGMENT :: nat"
  obtain b m1 where b: "wf_buff b" "buff_data b = p" "dataLen b = length p" "mem_ok m1"
    "DLI_PacketReceived (tl (dli_wire d ?pb p)) rx m =
      (if ?pb = DLI_FULL_FRAGMENT then ([(?l, b)], rx, m1)
       else if ?pb = DLI_FIRST_FRAGMENT \<or> ?pb = DLI_MIDDLE_FRAGMENT
       then (case DLI_ReceiveDataNodeUpdate b ?l ?pb rx m1 of (_, rx', m'') \<Rightarrow> ([], rx', m''))
       else (case DLI_ReceiveDataNodeUpdate b ?l ?pb rx m1 of
               (None, rx', m'') \<Rightarrow> ([], rx', m'')
             | (Some n, rx', m'') \<Rightarrow> ([(?l, rx_buf n)], rx_remove ?l rx', m'')))"
    by (rule packet_received [of "tl (dli_wire d ?pb p)" d ?pb p m rx])
      (use Cons.prems assms(7,9-11) in auto)
  have lc: "rx_lcid n = ?l" using find_lcid [OF Cons.prems(1)] .
  have sz: "dataLen (rx_buf n) + 2 * dataLen b \<le> DLI_MAX_TXRX_DATA_LEN"
    using Cons.prems(3,6,7) b(3) by simp
  obtain n' m2 where u: "DLI_ReciveDataUpdate n ?l ?pb b m1 = (Some n', m2)" "mem_ok m2"
    "rx_lcid n' = ?l" "rx_pb n' = rx_pb n \<or> rx_pb n' = ?pb" "wf_buff (rx_buf n')"
    "buff_data (rx_buf n') = buff_data (rx_buf n) @ buff_data b"
    by (rule data_update [OF Cons.prems(3) b(1,4) lc sz, of ?pb])
  have chk: "DLI_CheckPb (rx_pb n) ?pb" using Cons.prems(2) by (auto simp: DLI_CheckPb_def)
  have upd: "DLI_ReceiveDataNodeUpdate b ?l ?pb rx m1 = (Some n', rx_replace ?l n' rx, m2)"
    using Cons.prems(1) chk u(1) by (simp add: DLI_ReceiveDataNodeUpdate_def)
  have fr: "DLI_DataNodeFind (rx_replace ?l n' rx) ?l = Some n'"
    "rx_remove ?l (rx_replace ?l n' rx) = rx_remove ?l rx"
    using find_replace [OF u(3), of rx] Cons.prems(1) by auto
  show ?case
  proof (cases "ps = []")
    case True
    then show ?thesis using b(2,5) upd fr u(6) by simp
  next
    case False
    have "\<exists>nb m'. dli_receive_all (map tl (map2 (dli_wire d) (pb_flags True (length ps)) ps)) (rx_replace ?l n' rx) m2 =
      ([(?l, nb)], rx_remove ?l (rx_replace ?l n' rx), m') \<and> buff_data nb = buff_data (rx_buf n') @ concat ps"
      by (rule Cons.IH [OF fr(1) _ u(5,2) False])
        (use Cons.prems u(4,6) b(2) False in auto)
    then show ?thesis using False b(2,5) upd fr(2) u(6) by auto
  qed
qed

lemma receive_packet:
  assumes "DLI_DataNodeFind rx (dli_lcid d) = None" "length rx < DLI_DATA_MAX_CNT" "mem_ok m"
    "0 < L" "L \<le> 65531" "data \<noteq> []" "length data + L \<le> DLI_MAX_TXRX_DATA_LEN"
    "unat (dli_lcid d) < 4096" "dli_ts d = 0" "dli_prio d = 0"
  shows "\<exists>nb m'. dli_receive_all (map tl (dli_fragments L d False data)) rx m = ([(dli_lcid d, nb)], rx, m') \<and>
    buff_data nb = data"
proof -
  let ?l = "dli_lcid d"
  obtain p ps where c: "chunks L data = p # ps" using assms(6) concat_chunks [of L data] by (cases "chunks L data") auto
  have len: "\<forall>q\<in>set (p # ps). length q \<le> L" using chunks_piece [of _ L data] assms(4) c by auto
  have cc: "p @ concat ps = data" using concat_chunks [of L data] c by simp
  let ?pb = "if ps = [] then DLI_FULL_FRAGMENT else DLI_FIRST_FRAGMENT :: nat"
  obtain b m1 where b: "wf_buff b" "buff_data b = p" "dataLen b = length p" "mem_ok m1"
    "DLI_PacketReceived (tl (dli_wire d ?pb p)) rx m =
      (if ?pb = DLI_FULL_FRAGMENT then ([(?l, b)], rx, m1)
       else if ?pb = DLI_FIRST_FRAGMENT \<or> ?pb = DLI_MIDDLE_FRAGMENT
       then (case DLI_ReceiveDataNodeUpdate b ?l ?pb rx m1 of (_, rx', m'') \<Rightarrow> ([], rx', m''))
       else (case DLI_ReceiveDataNodeUpdate b ?l ?pb rx m1 of
               (None, rx', m'') \<Rightarrow> ([], rx', m'')
             | (Some n, rx', m'') \<Rightarrow> ([(?l, rx_buf n)], rx_remove ?l rx', m'')))"
    by (rule packet_received [of "tl (dli_wire d ?pb p)" d ?pb p m rx])
      (use len assms(3,5,8,9,10) in auto)
  show ?thesis
  proof (cases "ps = []")
    case True
    then show ?thesis using b cc c by (auto simp: dli_fragments_def)
  next
    case False
    obtain m2 where m2: "SDF_MemAlloc m1 = (True, m2)" "mem_ok m2" using SDF_MemAlloc_okE [OF b(4)] .
    let ?n = "\<lparr>rx_lcid = ?l, rx_pb = DLI_FIRST_FRAGMENT, rx_buf = b\<rparr>"
    have upd: "DLI_ReceiveDataNodeUpdate b ?l DLI_FIRST_FRAGMENT rx m1 = (Some ?n, rx @ [?n], m2)"
      using assms(1,2) m2 by (simp add: DLI_ReceiveDataNodeUpdate_def DLI_RecvDataNodeCreate_def DLI_IsFirstPb_def)
    have none: "\<forall>x\<in>set rx. rx_lcid x \<noteq> ?l" using assms(1) by (simp add: DLI_DataNodeFind_def find_first_None_iff)
    then have fr: "DLI_DataNodeFind (rx @ [?n]) ?l = Some ?n" "rx_remove ?l (rx @ [?n]) = rx"
      by (induction rx) (auto simp: DLI_DataNodeFind_def rx_remove_def)
    have "\<exists>nb m'. dli_receive_all (map tl (map2 (dli_wire d) (pb_flags True (length ps)) ps)) (rx @ [?n]) m2 =
      ([(?l, nb)], rx_remove ?l (rx @ [?n]), m') \<and> buff_data nb = buff_data (rx_buf ?n) @ concat ps"
    proof (rule receive_more [OF fr(1) _ _ m2(2) False])
      show "\<forall>q\<in>set ps. length q \<le> L" using len by simp
      show "length (buff_data (rx_buf ?n)) + length (concat ps) + L \<le> DLI_MAX_TXRX_DATA_LEN"
        using assms(7) cc b(2) by (metis DLI_RecvDataNode.select_convs(3) length_append)
    qed (use b(1) assms(5,8-10) in auto)
    then show ?thesis
      using False b(2,5) upd fr(2) cc c by (auto simp: dli_fragments_def)
  qed
qed

section \<open>Properties\<close>

text \<open>(C24) Splitting a packet for the controller and reassembling it are inverse, although the headers
  are written into the packet itself and the flag generator runs twice per fragment. Starting
  from an idle flag, \<open>DLI_SplitData\<close> succeeds on buffers of the announced size, produces one fragment
  per controller buffer with the flags of a single packet (full, or first, middle, last), leaves
  the flag idle for the next packet; a receiver without partial data for the link delivers exactly
  one packet, with the same bytes, and keeps no partial data.\<close>

theorem dli_split_receive_roundtrip:
  assumes "wf_buff b" "DLI_HEADER \<le> dataOff b" "0 < dataLen b" "0 < L" "L \<le> 65530"
    "dataLen b + L \<le> DLI_MAX_TXRX_DATA_LEN" "length (chunks L (buff_data b)) \<le> DLI_MAX_FRAGMEN_NUM"
    "length frags = DLI_GetDataFragmentNums L b"
    "\<forall>frag\<in>set frags. wf_buff frag \<and> buff_data frag = [] \<and> SDF_BuffTailRoom frag = DLI_GetFragmentMaxLen L"
    "pd_idle f" "unat lcid < 4096" "DLI_DataNodeFind rx lcid = None" "length rx < DLI_DATA_MAX_CNT" "mem_ok m"
  shows "\<exists>out f' nb m'. DLI_SplitData L f \<lparr>dli_lcid = lcid, dli_type = DLI_DATATYPE_ACB, dli_ts = 0, dli_prio = 0,
        dli_buf = b\<rparr> frags = (DLI_SUCCESS, out, f') \<and> pd_idle f' \<and>
    map buff_data out = dli_fragments L \<lparr>dli_lcid = lcid, dli_type = DLI_DATATYPE_ACB, dli_ts = 0, dli_prio = 0,
        dli_buf = b\<rparr> False (buff_data b) \<and>
    dli_receive_all (map (\<lambda>x. tl (buff_data x)) out) rx m = ([(lcid, nb)], rx, m') \<and> buff_data nb = buff_data b"
proof -
  let ?d = "\<lparr>dli_lcid = lcid, dli_type = DLI_DATATYPE_ACB, dli_ts = 0, dli_prio = 0, dli_buf = b\<rparr>"
  have L5: "L + 5 < 65536" using assms(5) by simp
  have nums: "DLI_GetDataFragmentNums L b = length (chunks L (buff_data b))" "0 < length (chunks L (buff_data b))"
    using fragment_nums [OF assms(1,3,4) L5 assms(7)] by auto
  have ne: "buff_data b \<noteq> []" using nums(2) by auto
  obtain out f' where s: "dli_split_loop L ?d b 0 f frags [] = (DLI_SUCCESS, [] @ out, f')" "pd_idle f'"
      "map buff_data out = dli_fragments L ?d False (buff_data b)"
    using split_loop [OF assms(1,2) _ assms(4) L5, of "buff_data b" 0 frags False f ?d "[]"] assms(8-10) nums
    by (auto simp: DLI_GetFragmentMaxLen_def)
  have "DLI_SplitData L f ?d frags = (DLI_SUCCESS, out, f')"
    using s(1) nums assms(7,8) by (simp add: DLI_SplitData_def)
  moreover have "map (\<lambda>x. tl (buff_data x)) out = map tl (dli_fragments L ?d False (buff_data b))"
    using s(3) [symmetric] by simp
  moreover have "\<exists>nb m'. dli_receive_all (map tl (dli_fragments L ?d False (buff_data b))) rx m =
      ([(dli_lcid ?d, nb)], rx, m') \<and> buff_data nb = buff_data b"
    by (rule receive_packet [OF _ assms(13,14,4) _ ne]) (use assms in simp_all)
  ultimately show ?thesis using s(2,3) by auto
qed

theorem dli_split_receive_roundtrip_witness:
  "\<exists>out f' nb m'. DLI_SplitData 2 255 \<lparr>dli_lcid = 7, dli_type = DLI_DATATYPE_ACB, dli_ts = 0, dli_prio = 0,
        dli_buf = \<lparr>dataOff = 5, dataLen = 3, buffLen = 8, bytes = [0, 0, 0, 0, 0, 1, 2, 3]\<rparr>\<rparr>
        (replicate 2 \<lparr>dataOff = 0, dataLen = 0, buffLen = 7, bytes = replicate 7 0\<rparr>) = (DLI_SUCCESS, out, f') \<and>
    dli_receive_all (map (\<lambda>x. tl (buff_data x)) out) [] [] = ([(7, nb)], [], m') \<and> buff_data nb = [1, 2, 3]"
proof -
  let ?b = "\<lparr>dataOff = 5, dataLen = 3, buffLen = 8, bytes = [0, 0, 0, 0, 0, 1, 2, 3 :: byte]\<rparr>"
  have w: "wf_buff ?b" and d: "buff_data ?b = [1, 2, 3]" by (simp_all add: wf_buff_def buff_data_def)
  have ch: "chunks 2 [1, 2, 3 :: byte] = [[1, 2], [3]]" by (simp add: chunks.simps)
  have nums: "length (replicate 2 \<lparr>dataOff = 0, dataLen = 0, buffLen = 7, bytes = replicate 7 (0 :: byte)\<rparr>)
      = DLI_GetDataFragmentNums 2 ?b" by (simp add: DLI_GetDataFragmentNums_def)
  have frags: "\<forall>frag\<in>set (replicate 2 \<lparr>dataOff = 0, dataLen = 0, buffLen = 7, bytes = replicate 7 (0 :: byte)\<rparr>).
      wf_buff frag \<and> buff_data frag = [] \<and> SDF_BuffTailRoom frag = DLI_GetFragmentMaxLen 2"
    by (simp add: wf_buff_def buff_data_def SDF_BuffTailRoom_def DLI_GetFragmentMaxLen_def)
  from dli_split_receive_roundtrip [OF w _ _ _ _ _ _ nums frags, of 255 7 "[]" "[]"]
  show ?thesis unfolding d ch by (simp add: pd_idle_def DLI_DataNodeFind_def) blast
qed

end
