(* ===== verification/Dtap_Scheduler.thy ===== *)
theory Dtap_Scheduler
  imports Dli_Data
begin

text \<open>
  The packet scheduler, \<^verbatim>\<open>services/stack/src/dp/dtap/src/dtap_scheduler.c\<close>: four priority queues of
  links, each with the channels that have packets for it, drained towards the driver layer under
  a global credit (\<open>g_apBufferNum\<close>) and a quota per link.

  The state \<open>sched\<close> holds the static variables of the file and the scheduler's part of the channel
  structures, which are addressed because a channel is linked into a queue by its own node
  (\<open>chanStore\<close>). Nodes of the link lists are referred to by their link identifier, which is unique in
  each list. Calls into other parts are scripts (allocation, posting to the driver thread, the
  clock), \<open>sent\<close> is the log of the fragments handed to the driver layer.
\<close>

section \<open>State\<close>

abbreviation (input) DTAP_PRIORITY_FRAGMENT :: nat where "DTAP_PRIORITY_FRAGMENT \<equiv> 0"
abbreviation (input) DTAP_PRIORITY_MAX :: nat where "DTAP_PRIORITY_MAX \<equiv> 4"
abbreviation (input) DTAP_PACKET_MAX_SIZE :: nat where "DTAP_PACKET_MAX_SIZE \<equiv> 10000"
abbreviation (input) DTAP_FRAGMENT_TCID :: byte where "DTAP_FRAGMENT_TCID \<equiv> 0xFF"
abbreviation (input) DTAP_MIN_BUFFER_NUM :: nat where "DTAP_MIN_BUFFER_NUM \<equiv> 1"
abbreviation (input) DTAP_RATE_CALC_INTERVAL_MS :: nat where "DTAP_RATE_CALC_INTERVAL_MS \<equiv> 10000"

record DTAP_PendingPacket =
  pkt_buff :: SDF_Buff
  pkt_seq :: nat
  isSplited :: bool

record sched_chan =
  sc_lcid :: u16w
  sc_srcTcid :: byte
  sc_dstTcid :: byte
  sc_priority :: nat
  pktList :: "DTAP_PendingPacket list"

record DTAP_LcidNode =
  channelList :: "nat list"
  hasScheduled :: bool
  ln_lcid :: u16w
  ln_priority :: nat
  ln_pktCnt :: nat

record DTAP_PriorityQueue =
  lcidList :: "DTAP_LcidNode list"
  q_priority :: nat
  q_pktCnt :: nat

record DTAP_LcidBufferNode =
  bn_lcid :: u16w
  quota :: nat
  lastQuota :: nat
  bn_notAck :: nat
  queuedPktCnt :: nat
  windowBytes :: nat
  lastRateCalcTime :: nat

record sched =
  g_dtapScheduler :: "DTAP_PriorityQueue list"
  g_lcidBufferList :: "DTAP_LcidBufferNode list"
  g_sendNotAckPktCnt :: nat
  g_isInited :: bool
  g_pktSeq :: nat
  g_apBufferNum :: nat
  chanStore :: "nat \<Rightarrow> sched_chan"
  nextAddr :: nat
  s_mem :: mem
  dliScript :: "bool list"
  clockScript :: "nat list"
  s_acbLen :: nat
  s_pdFlag :: nat
  sent :: "(u16w \<times> SDF_Buff) list"

text \<open>\<^verbatim>\<open>DTAP_SCHED_SUB\<close> is the subtraction of natural numbers.\<close>

definition upd_queue :: "nat \<Rightarrow> (DTAP_PriorityQueue \<Rightarrow> DTAP_PriorityQueue) \<Rightarrow> sched \<Rightarrow> sched" where
  "upd_queue i f s = s\<lparr>g_dtapScheduler := (g_dtapScheduler s)[i := f (g_dtapScheduler s ! i)]\<rparr>"

definition upd_lcid_node :: "nat \<Rightarrow> u16w \<Rightarrow> (DTAP_LcidNode \<Rightarrow> DTAP_LcidNode) \<Rightarrow> sched \<Rightarrow> sched" where
  "upd_lcid_node i lcid f s =
     upd_queue i (\<lambda>q. q\<lparr>lcidList := upd_first (\<lambda>n. ln_lcid n = lcid) f (lcidList q)\<rparr>) s"

definition upd_buf_node :: "u16w \<Rightarrow> (DTAP_LcidBufferNode \<Rightarrow> DTAP_LcidBufferNode) \<Rightarrow> sched \<Rightarrow> sched" where
  "upd_buf_node lcid f s = s\<lparr>g_lcidBufferList := upd_first (\<lambda>n. bn_lcid n = lcid) f (g_lcidBufferList s)\<rparr>"

definition upd_chan :: "nat \<Rightarrow> (sched_chan \<Rightarrow> sched_chan) \<Rightarrow> sched \<Rightarrow> sched" where
  "upd_chan a f s = s\<lparr>chanStore := (chanStore s)(a := f (chanStore s a))\<rparr>"

definition sched_alloc :: "sched \<Rightarrow> bool \<times> sched" where
  "sched_alloc s = (case SDF_MemAlloc (s_mem s) of (ok, m) \<Rightarrow> (ok, s\<lparr>s_mem := m\<rparr>))"

section \<open>Link nodes and quotas\<close>

definition DTAP_GetLcidBufferNode :: "u16w \<Rightarrow> sched \<Rightarrow> DTAP_LcidBufferNode option" where
  "DTAP_GetLcidBufferNode lcid s = find_first (\<lambda>n. bn_lcid n = lcid) (g_lcidBufferList s)"

definition DTAP_AddLcidBufferNode :: "u16w \<Rightarrow> sched \<Rightarrow> bool \<times> sched" where
  "DTAP_AddLcidBufferNode connHandle s =
     (if DTAP_GetLcidBufferNode connHandle s \<noteq> None then (False, s)
      else case sched_alloc s of (ok, s1) \<Rightarrow>
        if \<not> ok then (False, s1)
        else (True, s1\<lparr>g_lcidBufferList := g_lcidBufferList s1 @
               [\<lparr>bn_lcid = connHandle, quota = 0, lastQuota = 0, bn_notAck = 0, queuedPktCnt = 0,
                 windowBytes = 0, lastRateCalcTime = 0\<rparr>]\<rparr>))"

definition DTAP_DeleteLcidBufferNode :: "u16w \<Rightarrow> sched \<Rightarrow> bool \<times> sched" where
  "DTAP_DeleteLcidBufferNode connHandle s =
     (if DTAP_GetLcidBufferNode connHandle s = None then (False, s)
      else (True, s\<lparr>g_lcidBufferList := remove_first (\<lambda>n. bn_lcid n = connHandle) (g_lcidBufferList s)\<rparr>))"

definition DTAP_DecLcidQueuedPktCnt :: "u16w \<Rightarrow> nat \<Rightarrow> sched \<Rightarrow> sched" where
  "DTAP_DecLcidQueuedPktCnt lcid cnt s =
     upd_buf_node lcid (\<lambda>n. n\<lparr>queuedPktCnt := queuedPktCnt n - cnt\<rparr>) s"

definition rate_upd :: "nat \<Rightarrow> nat \<Rightarrow> DTAP_LcidBufferNode \<Rightarrow> DTAP_LcidBufferNode" where
  "rate_upd now pktBytes n =
     (let n1 = n\<lparr>windowBytes := (windowBytes n + pktBytes) mod 18446744073709551616\<rparr> in
      if lastRateCalcTime n = 0 then n1\<lparr>lastRateCalcTime := now\<rparr>
      else if now - lastRateCalcTime n < DTAP_RATE_CALC_INTERVAL_MS then n1
      else n1\<lparr>windowBytes := 0, lastRateCalcTime := now\<rparr>)"

definition DTAP_CalcLcidSendRate :: "u16w \<Rightarrow> nat \<Rightarrow> sched \<Rightarrow> sched" where
  "DTAP_CalcLcidSendRate lcid pktBytes s =
     (case read_clock (clockScript s) of (now, ts) \<Rightarrow>
        upd_buf_node lcid (rate_upd now pktBytes) (s\<lparr>clockScript := ts\<rparr>))"

definition DTAP_CalcTotalQueuedPktCnt :: "DTAP_LcidBufferNode list \<Rightarrow> nat" where
  "DTAP_CalcTotalQueuedPktCnt ns = sum_list (map queuedPktCnt ns)"

text \<open>\<open>DTAP_AllocLcidQuota\<close>: first the truncated shares, then one more for the nodes with the largest
  remainders. \<open>quota_pick\<close> is the inner loop over the list, \<open>quota_topup\<close> the loop over \<open>rem\<close>.\<close>

definition quota_base :: "nat \<Rightarrow> nat \<Rightarrow> DTAP_LcidBufferNode \<Rightarrow> DTAP_LcidBufferNode" where
  "quota_base pool tot n = n\<lparr>quota := u8 (DTAP_MIN_BUFFER_NUM + u8 (pool * queuedPktCnt n div tot))\<rparr>"

definition quota_pick :: "nat \<Rightarrow> nat \<Rightarrow> DTAP_LcidBufferNode list \<Rightarrow> nat \<times> u16w option" where
  "quota_pick pool tot ns =
     foldl (\<lambda>(maxFrac, maxNode) n.
       let product = pool * queuedPktCnt n; floorBonus = u8 (product div tot) in
       if int (quota n) - int DTAP_MIN_BUFFER_NUM > int floorBonus then (maxFrac, maxNode)
       else let frac = product mod tot in
         if frac > maxFrac then (frac, Some (bn_lcid n)) else (maxFrac, maxNode)) (0, None) ns"

fun quota_topup :: "nat \<Rightarrow> nat \<Rightarrow> nat \<Rightarrow> DTAP_LcidBufferNode list \<Rightarrow> DTAP_LcidBufferNode list" where
  "quota_topup pool tot 0 ns = ns"
| "quota_topup pool tot (Suc rem) ns =
     quota_topup pool tot rem
       (case snd (quota_pick pool tot ns) of
          None \<Rightarrow> ns
        | Some lcid \<Rightarrow> upd_first (\<lambda>n. bn_lcid n = lcid) (\<lambda>n. n\<lparr>quota := u8 (quota n + 1)\<rparr>) ns)"

definition DTAP_AllocLcidQuota :: "nat \<Rightarrow> nat \<Rightarrow> DTAP_LcidBufferNode list \<Rightarrow> DTAP_LcidBufferNode list" where
  "DTAP_AllocLcidQuota apBufferNum tot ns =
     (let lcidNums = length ns;
          pool = (if apBufferNum > lcidNums * DTAP_MIN_BUFFER_NUM
                  then u8 (apBufferNum - lcidNums * DTAP_MIN_BUFFER_NUM) else 0);
          ns1 = map (quota_base pool tot) ns;
          sumBonus = foldl (\<lambda>acc n. u8 (acc + u8 (pool * queuedPktCnt n div tot))) 0 ns;
          rem = u8 (pool + 256 - sumBonus)
      in quota_topup pool tot rem ns1)"

definition DTAP_RecalcLcidQuota :: "sched \<Rightarrow> sched" where
  "DTAP_RecalcLcidQuota s =
     (let tot = DTAP_CalcTotalQueuedPktCnt (g_lcidBufferList s);
          ns = (if tot \<noteq> 0 then DTAP_AllocLcidQuota (g_apBufferNum s) tot (g_lcidBufferList s)
                else map (\<lambda>n. n\<lparr>quota := DTAP_MIN_BUFFER_NUM\<rparr>) (g_lcidBufferList s))
      in s\<lparr>g_lcidBufferList := map (\<lambda>n. if quota n \<noteq> lastQuota n then n\<lparr>lastQuota := quota n\<rparr> else n) ns\<rparr>)"

definition DTAP_SetApBufferNum :: "nat \<Rightarrow> sched \<Rightarrow> sched" where
  "DTAP_SetApBufferNum bufferNum s = DTAP_RecalcLcidQuota (s\<lparr>g_apBufferNum := u8 bufferNum\<rparr>)"

text \<open>The announced number is a \<^verbatim>\<open>uint16_t\<close> and is passed to a \<^verbatim>\<open>uint8_t\<close> parameter. The further callback
  \<open>g_acbNumChangeCbk\<close> belongs to the collaboration extension.\<close>

definition DTAP_DLIDataNumChangecbk :: "bool \<Rightarrow> nat \<Rightarrow> sched \<Rightarrow> sched" where
  "DTAP_DLIDataNumChangecbk isAcb dataNum s = (if isAcb then DTAP_SetApBufferNum dataNum s else s)"

text \<open>\<open>COLLAB_ContinueAssignTransBuffer\<close> calls a function of an extension that is loaded at run time and has
  been given \<open>DTAP_SetApBufferNum\<close>: told the number of occupied buffers, it may assign another number.
  It is the parameter \<open>collab\<close>.\<close>

definition COLLAB_ContinueAssignTransBuffer :: "(nat \<Rightarrow> nat option) \<Rightarrow> sched \<Rightarrow> sched" where
  "COLLAB_ContinueAssignTransBuffer collab s =
     (case collab (g_sendNotAckPktCnt s) of None \<Rightarrow> s | Some n \<Rightarrow> DTAP_SetApBufferNum n s)"

definition DTAP_DLIConnectCbk :: "bool \<Rightarrow> u16w option \<Rightarrow> sched \<Rightarrow> sched" where
  "DTAP_DLIConnectCbk success param s =
     (if \<not> success then s
      else case param of None \<Rightarrow> s
        | Some connHandle \<Rightarrow>
            (case DTAP_AddLcidBufferNode connHandle s of (added, s1) \<Rightarrow>
               if added then DTAP_RecalcLcidQuota s1 else s1))"

definition DTAP_DLIDisconnectCbk :: "(nat \<Rightarrow> nat option) \<Rightarrow> u16w option \<Rightarrow> sched \<Rightarrow> sched" where
  "DTAP_DLIDisconnectCbk collab param s =
     (case param of None \<Rightarrow> s
      | Some connHandle \<Rightarrow>
          let s1 = (case DTAP_GetLcidBufferNode connHandle s of
                      None \<Rightarrow> s
                    | Some node \<Rightarrow>
                        COLLAB_ContinueAssignTransBuffer collab
                          (s\<lparr>g_sendNotAckPktCnt := g_sendNotAckPktCnt s - bn_notAck node\<rparr>))
          in case DTAP_DeleteLcidBufferNode connHandle s1 of (deleted, s2) \<Rightarrow>
               if deleted then DTAP_RecalcLcidQuota s2 else s2)"

section \<open>Packets and queues\<close>

definition DTAP_CreatePacket :: "SDF_Buff \<Rightarrow> sched \<Rightarrow> DTAP_PendingPacket option \<times> sched" where
  "DTAP_CreatePacket b s =
     (case sched_alloc s of (ok, s1) \<Rightarrow>
        if \<not> ok then (None, s1)
        else (Some \<lparr>pkt_buff = b, pkt_seq = g_pktSeq s1, isSplited = False\<rparr>,
              s1\<lparr>g_pktSeq := u32 (g_pktSeq s1 + 1)\<rparr>))"

definition DTAP_DestroyLcidNode :: "DTAP_LcidNode \<Rightarrow> sched \<Rightarrow> sched" where
  "DTAP_DestroyLcidNode node s = foldl (\<lambda>s a. upd_chan a (\<lambda>c. c\<lparr>pktList := []\<rparr>) s) s (channelList node)"

definition DTAP_CreateLcidNode :: "u16w \<Rightarrow> nat \<Rightarrow> sched \<Rightarrow> DTAP_LcidNode option \<times> sched" where
  "DTAP_CreateLcidNode lcid priority s =
     (case sched_alloc s of (ok, s1) \<Rightarrow>
        if \<not> ok then (None, s1)
        else (Some \<lparr>channelList = [], hasScheduled = False, ln_lcid = lcid, ln_priority = priority, ln_pktCnt = 0\<rparr>, s1))"

definition DTAP_GetLcidNode :: "nat \<Rightarrow> u16w \<Rightarrow> sched \<Rightarrow> DTAP_LcidNode option" where
  "DTAP_GetLcidNode i lcid s = find_first (\<lambda>n. ln_lcid n = lcid) (lcidList (g_dtapScheduler s ! i))"

text \<open>The channels of a node, in order, that match an identifier pair.\<close>

definition find_channel :: "u16w \<Rightarrow> byte \<Rightarrow> DTAP_LcidNode \<Rightarrow> sched \<Rightarrow> nat option" where
  "find_channel lcid tcid node s =
     find_first (\<lambda>a. sc_lcid (chanStore s a) = lcid \<and> sc_srcTcid (chanStore s a) = tcid) (channelList node)"

definition DTAP_GetOrCreateFragmentChannel :: "u16w \<Rightarrow> sched \<Rightarrow> (nat \<times> bool) option \<times> sched" where
  "DTAP_GetOrCreateFragmentChannel lcid s =
     (case (case DTAP_GetLcidNode DTAP_PRIORITY_FRAGMENT lcid s of
              None \<Rightarrow> None | Some node \<Rightarrow> find_channel lcid DTAP_FRAGMENT_TCID node s) of
        Some a \<Rightarrow> (Some (a, False), s)
      | None \<Rightarrow>
          (case sched_alloc s of (ok, s1) \<Rightarrow>
             if \<not> ok then (None, s1)
             else let a = nextAddr s1 in
               (Some (a, True), (upd_chan a (\<lambda>_. \<lparr>sc_lcid = lcid, sc_srcTcid = DTAP_FRAGMENT_TCID,
                    sc_dstTcid = DTAP_FRAGMENT_TCID, sc_priority = DTAP_PRIORITY_FRAGMENT, pktList = []\<rparr>) s1)
                  \<lparr>nextAddr := a + 1\<rparr>)))"

definition DTAP_InsertChannelToLcidNode :: "nat \<Rightarrow> u16w \<Rightarrow> nat \<Rightarrow> sched \<Rightarrow> sched" where
  "DTAP_InsertChannelToLcidNode i lcid a s =
     (case DTAP_GetLcidNode i lcid s of
        None \<Rightarrow> s
      | Some node \<Rightarrow>
          if find_channel (sc_lcid (chanStore s a)) (sc_srcTcid (chanStore s a)) node s \<noteq> None then s
          else upd_lcid_node i lcid (\<lambda>n. n\<lparr>channelList := channelList n @ [a]\<rparr>) s)"

definition DTAP_PriorityQueuePush :: "nat \<Rightarrow> nat \<Rightarrow> nat \<Rightarrow> sched \<Rightarrow> dtap_ret \<times> sched" where
  "DTAP_PriorityQueuePush i a pktCnt s =
     (let lcid = sc_lcid (chanStore s a);
          made = (if DTAP_GetLcidNode i lcid s \<noteq> None then (True, s)
                  else case DTAP_CreateLcidNode lcid (q_priority (g_dtapScheduler s ! i)) s of
                         (None, s1) \<Rightarrow> (False, s1)
                       | (Some node, s1) \<Rightarrow> (True, upd_queue i (\<lambda>q. q\<lparr>lcidList := lcidList q @ [node]\<rparr>) s1))
      in case made of
           (False, s1) \<Rightarrow> (DTAP_TRANS_MALLOC_ERR, s1)
         | (True, s1) \<Rightarrow>
             let s2 = DTAP_InsertChannelToLcidNode i lcid a s1;
                 s3 = upd_lcid_node i lcid (\<lambda>n. n\<lparr>ln_pktCnt := u32 (ln_pktCnt n + pktCnt)\<rparr>) s2;
                 s4 = upd_queue i (\<lambda>q. q\<lparr>q_pktCnt := u32 (q_pktCnt q + pktCnt)\<rparr>) s3
             in (DTAP_SUCCESS, upd_buf_node lcid (\<lambda>n. n\<lparr>queuedPktCnt := u32 (queuedPktCnt n + pktCnt)\<rparr>) s4))"

definition DTAP_PriorityQueuePeek :: "DTAP_LcidNode \<Rightarrow> sched \<Rightarrow> nat option" where
  "DTAP_PriorityQueuePeek node s =
     (if ln_pktCnt node = 0 then None
      else find_first (\<lambda>a. pktList (chanStore s a) \<noteq> []) (channelList node))"

definition DTAP_PriorityQueuePop :: "nat \<Rightarrow> u16w \<Rightarrow> nat \<Rightarrow> sched \<Rightarrow> sched" where
  "DTAP_PriorityQueuePop i lcid a s =
     (let s1 = upd_chan a (\<lambda>c. c\<lparr>pktList := tl (pktList c)\<rparr>) s;
          s2 = upd_lcid_node i lcid (\<lambda>n. n\<lparr>ln_pktCnt := ln_pktCnt n - 1\<rparr>) s1;
          s3 = upd_queue i (\<lambda>q. q\<lparr>q_pktCnt := q_pktCnt q - 1\<rparr>) s2;
          s4 = upd_buf_node lcid (\<lambda>n. n\<lparr>queuedPktCnt := queuedPktCnt n - 1\<rparr>) s3
      in if pktList (chanStore s4 a) \<noteq> []
         then upd_lcid_node i lcid (\<lambda>n. n\<lparr>channelList := remove1 a (channelList n) @ [a]\<rparr>) s4
         else s4)"

section \<open>Sending\<close>

definition DTAP_CanSend :: "u16w \<Rightarrow> sched \<Rightarrow> bool" where
  "DTAP_CanSend lcid s =
     (case DTAP_GetLcidBufferNode lcid s of
        None \<Rightarrow> False
      | Some node \<Rightarrow> if g_sendNotAckPktCnt s \<ge> g_apBufferNum s then False else bn_notAck node < quota node)"

text \<open>Allocating the fragment buffers of \<open>DTAP_SplitData\<close>.\<close>

fun new_buffs :: "nat \<Rightarrow> nat \<Rightarrow> mem \<Rightarrow> SDF_Buff list option \<times> mem" where
  "new_buffs 0 len m = (Some [], m)"
| "new_buffs (Suc k) len m =
     (case SDF_BuffNew len m of
        (None, m1) \<Rightarrow> (None, m1)
      | (Some b, m1) \<Rightarrow>
          (case new_buffs k len m1 of (bs, m2) \<Rightarrow> (map_option ((#) b) bs, m2)))"

definition DTAP_SplitData :: "u16w \<Rightarrow> SDF_Buff \<Rightarrow> nat \<Rightarrow> sched \<Rightarrow> SDF_Buff list option \<times> sched" where
  "DTAP_SplitData lcid b fragmentCnt s =
     (case new_buffs fragmentCnt (DLI_GetFragmentMaxLen (s_acbLen s)) (s_mem s) of
        (None, m) \<Rightarrow> (None, s\<lparr>s_mem := m\<rparr>)
      | (Some bs, m) \<Rightarrow>
          (case DLI_SplitData (s_acbLen s) (s_pdFlag s)
                  \<lparr>dli_lcid = lcid, dli_type = DLI_DATATYPE_ACB, dli_ts = 0, dli_prio = 0, dli_buf = b\<rparr> bs of
             (ret, out, pd) \<Rightarrow>
               ((if ret = DLI_SUCCESS then Some out else None), s\<lparr>s_mem := m, s_pdFlag := pd\<rparr>)))"

text \<open>The buffer node that \<open>DTAP_SendData\<close> charges is the one of the link \<open>node\<close>.\<close>

definition DTAP_SendData :: "u16w \<Rightarrow> SDF_Buff \<Rightarrow> u16w \<Rightarrow> sched \<Rightarrow> bool \<times> sched" where
  "DTAP_SendData lcid b node s =
     (case sched_alloc s of (ok, s1) \<Rightarrow>
        if \<not> ok then (False, s1)
        else case DLI_DataSend \<lparr>dli_lcid = lcid, dli_type = DLI_DATATYPE_ACB, dli_ts = 0, dli_prio = 0, dli_buf = b\<rparr>
                    (dliScript s1) of (ret, sc) \<Rightarrow>
          let s2 = s1\<lparr>dliScript := sc\<rparr> in
          if ret \<noteq> DLI_SUCCESS then (False, s2)
          else let s3 = DTAP_CalcLcidSendRate node (dataLen b) s2;
                   s4 = upd_buf_node node (\<lambda>n. n\<lparr>bn_notAck := u32 (bn_notAck n + 1)\<rparr>) s3
               in (True, s4\<lparr>g_sendNotAckPktCnt := u8 (g_sendNotAckPktCnt s4 + 1), sent := sent s4 @ [(lcid, b)]\<rparr>))"

text \<open>Creating the packets of \<open>DTAP_SaveFragmentData\<close>; they are marked as split.\<close>

fun create_packets :: "SDF_Buff list \<Rightarrow> sched \<Rightarrow> DTAP_PendingPacket list option \<times> sched" where
  "create_packets [] s = (Some [], s)"
| "create_packets (b # bs) s =
     (case DTAP_CreatePacket b s of
        (None, s1) \<Rightarrow> (None, s1)
      | (Some pkt, s1) \<Rightarrow>
          (case create_packets bs s1 of (pkts, s2) \<Rightarrow> (map_option ((#) (pkt\<lparr>isSplited := True\<rparr>)) pkts, s2)))"

definition DTAP_SaveFragmentData :: "u16w \<Rightarrow> SDF_Buff list \<Rightarrow> sched \<Rightarrow> bool \<times> sched" where
  "DTAP_SaveFragmentData lcid bs s =
     (case create_packets bs s of
        (None, s1) \<Rightarrow> (False, s1)
      | (Some pkts, s1) \<Rightarrow>
          (case DTAP_GetOrCreateFragmentChannel lcid s1 of
             (None, s2) \<Rightarrow> (False, s2)
           | (Some (a, hasCreated), s2) \<Rightarrow>
               (case DTAP_PriorityQueuePush (sc_priority (chanStore s2 a)) a (length bs) s2 of (ret, s3) \<Rightarrow>
                  if ret \<noteq> DTAP_SUCCESS then (False, s3)
                  else (True, upd_chan a (\<lambda>c. c\<lparr>pktList := pktList c @ pkts\<rparr>) s3))))"

text \<open>The loop that sends the fragments of one packet; it returns the fragments that were not sent.\<close>

fun send_fragments :: "u16w \<Rightarrow> u16w \<Rightarrow> SDF_Buff list \<Rightarrow> sched \<Rightarrow> SDF_Buff list \<times> sched" where
  "send_fragments lcid node [] s = ([], s)"
| "send_fragments lcid node (b # bs) s =
     (if \<not> DTAP_CanSend node s then (b # bs, s)
      else case DTAP_SendData lcid b node s of (ok, s1) \<Rightarrow>
        if ok then send_fragments lcid node bs s1 else (b # bs, s1))"

text \<open>One iteration of the loop of \<open>DTAP_ScheduleLcid\<close>: \<open>Some r\<close> leaves the loop with the result \<open>r\<close>, \<open>None\<close>
  continues. Only \<open>continue\<close> statements of the source continue.\<close>

definition schedule_step :: "nat \<Rightarrow> u16w \<Rightarrow> sched \<Rightarrow> bool option \<times> sched" where
  "schedule_step i lcid s =
     (if \<not> DTAP_CanSend lcid s then (Some True, s)
      else case DTAP_GetLcidNode i lcid s of
        None \<Rightarrow> (Some True, s)
      | Some node \<Rightarrow>
      case DTAP_PriorityQueuePeek node s of
        None \<Rightarrow> (Some True, s)
      | Some a \<Rightarrow>
        let pkt = hd (pktList (chanStore s a)); chLcid = sc_lcid (chanStore s a) in
        if isSplited pkt then
          (case DTAP_SendData chLcid (pkt_buff pkt) lcid s of (ok, s1) \<Rightarrow>
             if \<not> ok then (Some False, s1) else (None, DTAP_PriorityQueuePop i lcid a s1))
        else
          let fragmentCnt = DLI_GetDataFragmentNums (s_acbLen s) (pkt_buff pkt) in
          if fragmentCnt = 0 then (Some False, s)
          else case DTAP_SplitData chLcid (pkt_buff pkt) fragmentCnt s of
            (None, s1) \<Rightarrow> (Some False, s1)
          | (Some frags, s1) \<Rightarrow>
              (case send_fragments chLcid lcid frags s1 of (left, s2) \<Rightarrow>
                 let s3 = DTAP_PriorityQueuePop i lcid a s2 in
                 if left = [] then (None, s3)
                 else case DTAP_SaveFragmentData chLcid left s3 of (ok, s4) \<Rightarrow> (Some ok, s4)))"


text \<open>Every iteration that continues takes a packet from a channel of the link.\<close>

definition node_packets :: "nat \<Rightarrow> u16w \<Rightarrow> sched \<Rightarrow> nat" where
  "node_packets i lcid s =
     (case DTAP_GetLcidNode i lcid s of
        None \<Rightarrow> 0
      | Some n \<Rightarrow> sum_list (map (\<lambda>a. length (pktList (chanStore s a))) (channelList n)))"

section \<open>Frame lemmas of the state updates\<close>

text \<open>The buffer nodes, the clock, the allocator and the log do not touch queues and channels.\<close>

lemma upd_buf_node_sel [simp]:
  "g_dtapScheduler (upd_buf_node l f s) = g_dtapScheduler s"
  "chanStore (upd_buf_node l f s) = chanStore s" "nextAddr (upd_buf_node l f s) = nextAddr s"
  "g_apBufferNum (upd_buf_node l f s) = g_apBufferNum s"
  "g_sendNotAckPktCnt (upd_buf_node l f s) = g_sendNotAckPktCnt s"
  "sent (upd_buf_node l f s) = sent s" "s_mem (upd_buf_node l f s) = s_mem s"
  "dliScript (upd_buf_node l f s) = dliScript s" "s_acbLen (upd_buf_node l f s) = s_acbLen s"
  "s_pdFlag (upd_buf_node l f s) = s_pdFlag s" "g_isInited (upd_buf_node l f s) = g_isInited s"
  by (simp_all add: upd_buf_node_def)

lemma upd_queue_sel [simp]:
  "g_lcidBufferList (upd_queue i f s) = g_lcidBufferList s"
  "chanStore (upd_queue i f s) = chanStore s" "nextAddr (upd_queue i f s) = nextAddr s"
  "g_apBufferNum (upd_queue i f s) = g_apBufferNum s"
  "g_sendNotAckPktCnt (upd_queue i f s) = g_sendNotAckPktCnt s"
  "sent (upd_queue i f s) = sent s" "s_mem (upd_queue i f s) = s_mem s"
  "dliScript (upd_queue i f s) = dliScript s" "s_acbLen (upd_queue i f s) = s_acbLen s"
  "s_pdFlag (upd_queue i f s) = s_pdFlag s" "g_isInited (upd_queue i f s) = g_isInited s"
  by (simp_all add: upd_queue_def)

lemma upd_lcid_node_sel [simp]:
  "g_lcidBufferList (upd_lcid_node i l f s) = g_lcidBufferList s"
  "chanStore (upd_lcid_node i l f s) = chanStore s" "nextAddr (upd_lcid_node i l f s) = nextAddr s"
  "g_apBufferNum (upd_lcid_node i l f s) = g_apBufferNum s"
  "g_sendNotAckPktCnt (upd_lcid_node i l f s) = g_sendNotAckPktCnt s"
  "sent (upd_lcid_node i l f s) = sent s" "s_mem (upd_lcid_node i l f s) = s_mem s"
  "dliScript (upd_lcid_node i l f s) = dliScript s" "s_acbLen (upd_lcid_node i l f s) = s_acbLen s"
  "s_pdFlag (upd_lcid_node i l f s) = s_pdFlag s" "g_isInited (upd_lcid_node i l f s) = g_isInited s"
  by (simp_all add: upd_lcid_node_def)

lemma upd_chan_sel [simp]:
  "g_dtapScheduler (upd_chan a f s) = g_dtapScheduler s"
  "g_lcidBufferList (upd_chan a f s) = g_lcidBufferList s" "nextAddr (upd_chan a f s) = nextAddr s"
  "g_apBufferNum (upd_chan a f s) = g_apBufferNum s"
  "g_sendNotAckPktCnt (upd_chan a f s) = g_sendNotAckPktCnt s"
  "sent (upd_chan a f s) = sent s" "s_mem (upd_chan a f s) = s_mem s"
  "dliScript (upd_chan a f s) = dliScript s" "s_acbLen (upd_chan a f s) = s_acbLen s"
  "s_pdFlag (upd_chan a f s) = s_pdFlag s" "g_isInited (upd_chan a f s) = g_isInited s"
  "chanStore (upd_chan a f s) = (chanStore s)(a := f (chanStore s a))"
  by (simp_all add: upd_chan_def)

lemma length_upd_queue [simp]:
  "length (g_dtapScheduler (upd_queue i f s)) = length (g_dtapScheduler s)"
  "length (g_dtapScheduler (upd_lcid_node i l g s)) = length (g_dtapScheduler s)"
  by (simp_all add: upd_queue_def upd_lcid_node_def)

lemma get_node_upd_queue_other:
  "j \<noteq> i \<Longrightarrow> DTAP_GetLcidNode j l (upd_queue i f s) = DTAP_GetLcidNode j l s"
  by (simp add: DTAP_GetLcidNode_def upd_queue_def)

lemma get_node_upd_queue_cnt [simp]:
  "(\<And>q. lcidList (f q) = lcidList q) \<Longrightarrow> DTAP_GetLcidNode j l (upd_queue i f s) = DTAP_GetLcidNode j l s"
  by (cases "i < length (g_dtapScheduler s)")
    (simp_all add: DTAP_GetLcidNode_def upd_queue_def nth_list_update list_update_beyond)

lemma find_upd_first_same:
  "(\<And>x. p (f x) = p x) \<Longrightarrow> find_first p (upd_first p f xs) = map_option f (find_first p xs)"
  by (induction xs) simp_all

lemma get_node_upd_lcid_node:
  assumes "\<And>n. ln_lcid (f n) = ln_lcid n"
  shows "DTAP_GetLcidNode j l' (upd_lcid_node i l f s) =
    (if j = i \<and> l' = l \<and> i < length (g_dtapScheduler s) then map_option f (DTAP_GetLcidNode j l' s)
     else DTAP_GetLcidNode j l' s)"
proof (cases "j = i \<and> i < length (g_dtapScheduler s)")
  case True
  then show ?thesis
    by (cases "l' = l")
      (simp_all add: DTAP_GetLcidNode_def upd_lcid_node_def upd_queue_def find_upd_first_same find_upd_first_other assms)
next
  case False
  then show ?thesis
    by (cases "i < length (g_dtapScheduler s)")
      (auto simp: DTAP_GetLcidNode_def upd_lcid_node_def upd_queue_def nth_list_update list_update_beyond)
qed

lemma get_node_upd_chan [simp]: "DTAP_GetLcidNode j l (upd_chan a f s) = DTAP_GetLcidNode j l s"
  by (simp add: DTAP_GetLcidNode_def)

lemma get_node_upd_buf [simp]: "DTAP_GetLcidNode j l (upd_buf_node b f s) = DTAP_GetLcidNode j l s"
  by (simp add: DTAP_GetLcidNode_def)

lemma get_node_cong: "g_dtapScheduler s = g_dtapScheduler s' \<Longrightarrow> DTAP_GetLcidNode j l s = DTAP_GetLcidNode j l s'"
  by (simp add: DTAP_GetLcidNode_def)

lemma sched_alloc_eq: "sched_alloc s = (fst (SDF_MemAlloc (s_mem s)), s\<lparr>s_mem := snd (SDF_MemAlloc (s_mem s))\<rparr>)"
  by (simp add: sched_alloc_def split: prod.splits)

text \<open>Updates of a buffer node that only touch the rate statistics.\<close>

definition rate_only :: "(DTAP_LcidBufferNode \<Rightarrow> DTAP_LcidBufferNode) \<Rightarrow> bool" where
  "rate_only f \<longleftrightarrow> (\<forall>n. bn_lcid (f n) = bn_lcid n \<and> quota (f n) = quota n \<and> bn_notAck (f n) = bn_notAck n \<and>
     queuedPktCnt (f n) = queuedPktCnt n \<and> lastQuota (f n) = lastQuota n)"

lemma CalcLcidSendRate_eq:
  "\<exists>f ts. rate_only f \<and> DTAP_CalcLcidSendRate l k s = upd_buf_node l f (s\<lparr>clockScript := ts\<rparr>)"
proof -
  obtain now ts where c: "read_clock (clockScript s) = (now, ts)" by fastforce
  have "rate_only (rate_upd now k)" by (simp add: rate_only_def rate_upd_def Let_def)
  then show ?thesis unfolding DTAP_CalcLcidSendRate_def c prod.case by blast
qed

text \<open>The effect of \<open>DTAP_SendData\<close>: a failed call only uses up scripts; a successful one logs the
  fragment and charges one credit to the link and one to the controller.\<close>

lemma SendData_cases:
  assumes "DTAP_SendData lcid b node s = (ok, s1)"
  obtains (failed) m sc where "\<not> ok" "s1 = s\<lparr>s_mem := m, dliScript := sc\<rparr>"
  | (okay) m sc ts f where "ok" "rate_only f"
      "s1 = (upd_buf_node node (\<lambda>n. f n\<lparr>bn_notAck := u32 (bn_notAck n + 1)\<rparr>)
              (s\<lparr>s_mem := m, dliScript := sc, clockScript := ts\<rparr>))
            \<lparr>g_sendNotAckPktCnt := u8 (g_sendNotAckPktCnt s + 1), sent := sent s @ [(lcid, b)]\<rparr>"
proof -
  obtain ok1 m where a: "SDF_MemAlloc (s_mem s) = (ok1, m)" by fastforce
  obtain ret sc where d: "DLI_DataSend \<lparr>dli_lcid = lcid, dli_type = DLI_DATATYPE_ACB, dli_ts = 0, dli_prio = 0, dli_buf = b\<rparr>
    (dliScript s) = (ret, sc)" by fastforce
  obtain f ts where f: "rate_only f" "DTAP_CalcLcidSendRate node (dataLen b) (s\<lparr>s_mem := m, dliScript := sc\<rparr>) =
    upd_buf_node node f (s\<lparr>s_mem := m, dliScript := sc\<rparr>\<lparr>clockScript := ts\<rparr>)" using CalcLcidSendRate_eq by blast
  have ff: "upd_first p (\<lambda>n. g n) (upd_first p f xs) = upd_first p (\<lambda>n. g (f n)) xs" if "\<And>n. p (f n) = p n"
    for p g and xs :: "DTAP_LcidBufferNode list" using that by (induction xs) auto
  have na: "bn_notAck (f n) = bn_notAck n" "bn_lcid (f n) = bn_lcid n" for n using f(1) by (simp_all add: rate_only_def)
  consider "\<not> ok1" | "ok1" "ret \<noteq> DLI_SUCCESS" | "ok1" "ret = DLI_SUCCESS" by blast
  then show thesis
  proof cases
    case 1
    with assms have "\<not> ok \<and> s1 = s\<lparr>s_mem := m\<rparr>" by (auto simp: DTAP_SendData_def sched_alloc_eq a)
    then have "\<not> ok \<and> s1 = s\<lparr>s_mem := m, dliScript := dliScript s\<rparr>" by simp
    then show thesis using failed by blast
  next
    case 2
    with assms have "\<not> ok \<and> s1 = s\<lparr>s_mem := m, dliScript := sc\<rparr>"
      by (simp add: DTAP_SendData_def sched_alloc_eq a d Let_def)
    then show thesis using failed by blast
  next
    case 3
    with assms have "ok \<and> s1 = (upd_buf_node node (\<lambda>n. f n\<lparr>bn_notAck := u32 (bn_notAck n + 1)\<rparr>)
              (s\<lparr>s_mem := m, dliScript := sc, clockScript := ts\<rparr>))
            \<lparr>g_sendNotAckPktCnt := u8 (g_sendNotAckPktCnt s + 1), sent := sent s @ [(lcid, b)]\<rparr>"
      by (simp add: DTAP_SendData_def sched_alloc_eq a d f(2) Let_def upd_buf_node_def ff na)
    then show thesis using okay f(1) by blast
  qed
qed

lemma SendData_queues:
  assumes "DTAP_SendData lcid b node s = (ok, s1)"
  shows "g_dtapScheduler s1 = g_dtapScheduler s \<and> chanStore s1 = chanStore s \<and> nextAddr s1 = nextAddr s \<and>
    g_apBufferNum s1 = g_apBufferNum s \<and> s_acbLen s1 = s_acbLen s \<and> s_pdFlag s1 = s_pdFlag s \<and> g_isInited s1 = g_isInited s"
  using assms by (rule SendData_cases) simp_all

lemma send_fragments_queues:
  assumes "send_fragments lcid node bs s = (left, s1)"
  shows "g_dtapScheduler s1 = g_dtapScheduler s \<and> chanStore s1 = chanStore s \<and> nextAddr s1 = nextAddr s \<and>
    g_apBufferNum s1 = g_apBufferNum s \<and> s_acbLen s1 = s_acbLen s \<and> s_pdFlag s1 = s_pdFlag s \<and> g_isInited s1 = g_isInited s"
  using assms
proof (induction bs arbitrary: s)
  case (Cons b bs)
  obtain ok s2 where e: "DTAP_SendData lcid b node s = (ok, s2)" by fastforce
  show ?case using Cons.prems Cons.IH [of s2] SendData_queues [OF e] by (auto simp: e split: if_splits)
qed simp

lemma SplitData_sel:
  assumes "DTAP_SplitData lcid b k s = (r, s1)"
  shows "\<exists>m pd. s1 = s\<lparr>s_mem := m, s_pdFlag := pd\<rparr>"
proof -
  obtain bs m where n: "new_buffs k (DLI_GetFragmentMaxLen (s_acbLen s)) (s_mem s) = (bs, m)" by fastforce
  show ?thesis
  proof (cases bs)
    case None
    then have "s1 = s\<lparr>s_mem := m, s_pdFlag := s_pdFlag s\<rparr>" using assms n by (auto simp: DTAP_SplitData_def)
    then show ?thesis by blast
  next
    case (Some fs)
    then show ?thesis using assms n by (auto simp: DTAP_SplitData_def split: prod.splits)
  qed
qed

text \<open>What \<open>DTAP_PriorityQueuePop\<close> does to the channel, the nodes and the counters.\<close>

lemma Pop_chanStore [simp]:
  "chanStore (DTAP_PriorityQueuePop i lcid a s) =
     (chanStore s)(a := (chanStore s a)\<lparr>pktList := tl (pktList (chanStore s a))\<rparr>)"
  by (simp add: DTAP_PriorityQueuePop_def Let_def)

lemma Pop_sel [simp]:
  "nextAddr (DTAP_PriorityQueuePop i lcid a s) = nextAddr s"
  "g_apBufferNum (DTAP_PriorityQueuePop i lcid a s) = g_apBufferNum s"
  "g_sendNotAckPktCnt (DTAP_PriorityQueuePop i lcid a s) = g_sendNotAckPktCnt s"
  "sent (DTAP_PriorityQueuePop i lcid a s) = sent s" "s_mem (DTAP_PriorityQueuePop i lcid a s) = s_mem s"
  "dliScript (DTAP_PriorityQueuePop i lcid a s) = dliScript s" "s_acbLen (DTAP_PriorityQueuePop i lcid a s) = s_acbLen s"
  "s_pdFlag (DTAP_PriorityQueuePop i lcid a s) = s_pdFlag s" "g_isInited (DTAP_PriorityQueuePop i lcid a s) = g_isInited s"
  by (simp_all add: DTAP_PriorityQueuePop_def Let_def)

definition pop_node :: "nat \<Rightarrow> bool \<Rightarrow> DTAP_LcidNode \<Rightarrow> DTAP_LcidNode" where
  "pop_node a again n = n\<lparr>ln_pktCnt := ln_pktCnt n - 1,
     channelList := (if again then remove1 a (channelList n) @ [a] else channelList n)\<rparr>"

lemma Pop_get_node:
  "DTAP_GetLcidNode j l (DTAP_PriorityQueuePop i lcid a s) =
     (if j = i \<and> l = lcid \<and> i < length (g_dtapScheduler s)
      then map_option (pop_node a (tl (pktList (chanStore s a)) \<noteq> [])) (DTAP_GetLcidNode j l s)
      else DTAP_GetLcidNode j l s)"
  by (auto simp: DTAP_PriorityQueuePop_def Let_def get_node_upd_lcid_node pop_node_def option.map_comp comp_def
      intro!: option.map_cong)

lemma sum_list_rotate:
  "a \<in> set xs \<Longrightarrow> sum_list (map f (remove1 a xs @ [a])) = (sum_list (map f xs) :: nat)"
  by (induction xs) auto

lemma sum_list_tl_less:
  assumes "a \<in> set xs" "pktList (c a) \<noteq> []"
  shows "sum_list (map (\<lambda>x. length (pktList ((c(a := (c a)\<lparr>pktList := tl (pktList (c a))\<rparr>)) x))) xs) <
         sum_list (map (\<lambda>x. length (pktList (c x))) xs)"
  using assms
proof (induction xs)
  case (Cons x xs)
  have le: "sum_list (map (\<lambda>x. length (pktList ((c(a := (c a)\<lparr>pktList := tl (pktList (c a))\<rparr>)) x))) xs) \<le>
         sum_list (map (\<lambda>x. length (pktList (c x))) xs)" by (rule sum_list_mono) auto
  show ?case
  proof (cases "x = a")
    case True
    with le Cons.prems show ?thesis by (simp add: less_le_trans add_less_le_mono)
  next
    case False
    with Cons show ?thesis by simp
  qed
qed simp

lemma Pop_packets:
  assumes "DTAP_GetLcidNode i lcid s = Some n" "a \<in> set (channelList n)" "pktList (chanStore s a) \<noteq> []"
  shows "node_packets i lcid (DTAP_PriorityQueuePop i lcid a s) < node_packets i lcid s"
  using sum_list_tl_less [OF assms(2), of "chanStore s", OF assms(3)] assms
  by (auto simp: node_packets_def Pop_get_node pop_node_def sum_list_rotate simp del: map_append fun_upd_apply)

lemma Peek_Some:
  assumes "DTAP_PriorityQueuePeek n s = Some a"
  shows "a \<in> set (channelList n)" "pktList (chanStore s a) \<noteq> []"
  using assms by (auto simp: DTAP_PriorityQueuePeek_def dest!: find_first_SomeD split: if_splits)

lemma node_packets_cong:
  "g_dtapScheduler s1 = g_dtapScheduler s \<Longrightarrow> chanStore s1 = chanStore s \<Longrightarrow> node_packets i l s1 = node_packets i l s"
  by (simp add: node_packets_def DTAP_GetLcidNode_def cong: option.case_cong)

lemma schedule_step_cases:
  assumes "schedule_step i lcid s = (r, s1)"
  obtains (idle) "r = Some True" "s1 = s"
      "\<not> DTAP_CanSend lcid s \<or> DTAP_GetLcidNode i lcid s = None \<or>
       (\<exists>n. DTAP_GetLcidNode i lcid s = Some n \<and> DTAP_PriorityQueuePeek n s = None)"
  | (failed) "r = Some False"
      "s1 = s \<or> (\<exists>n a. DTAP_SendData n a lcid s = (False, s1)) \<or> (\<exists>l b k. DTAP_SplitData l b k s = (None, s1))"
  | (resent) n a s2 where "r = None" "DTAP_CanSend lcid s" "DTAP_GetLcidNode i lcid s = Some n"
      "DTAP_PriorityQueuePeek n s = Some a" "isSplited (hd (pktList (chanStore s a)))"
      "DTAP_SendData (sc_lcid (chanStore s a)) (pkt_buff (hd (pktList (chanStore s a)))) lcid s = (True, s2)"
      "s1 = DTAP_PriorityQueuePop i lcid a s2"
  | (split) n a frags s2 left s3 where "DTAP_CanSend lcid s" "DTAP_GetLcidNode i lcid s = Some n"
      "DTAP_PriorityQueuePeek n s = Some a" "\<not> isSplited (hd (pktList (chanStore s a)))"
      "DLI_GetDataFragmentNums (s_acbLen s) (pkt_buff (hd (pktList (chanStore s a)))) \<noteq> 0"
      "DTAP_SplitData (sc_lcid (chanStore s a)) (pkt_buff (hd (pktList (chanStore s a))))
        (DLI_GetDataFragmentNums (s_acbLen s) (pkt_buff (hd (pktList (chanStore s a))))) s = (Some frags, s2)"
      "send_fragments (sc_lcid (chanStore s a)) lcid frags s2 = (left, s3)"
      "left = [] \<and> r = None \<and> s1 = DTAP_PriorityQueuePop i lcid a s3 \<or>
       left \<noteq> [] \<and> (\<exists>ok. r = Some ok \<and>
         DTAP_SaveFragmentData (sc_lcid (chanStore s a)) left (DTAP_PriorityQueuePop i lcid a s3) = (ok, s1))"
proof -
  consider "\<not> DTAP_CanSend lcid s" | "DTAP_CanSend lcid s" "DTAP_GetLcidNode i lcid s = None"
    | n where "DTAP_CanSend lcid s" "DTAP_GetLcidNode i lcid s = Some n" "DTAP_PriorityQueuePeek n s = None"
    | n a where "DTAP_CanSend lcid s" "DTAP_GetLcidNode i lcid s = Some n" "DTAP_PriorityQueuePeek n s = Some a"
    by (metis not_None_eq)
  then show thesis
  proof cases
    case (4 n a)
    note step = assms [unfolded schedule_step_def Let_def 4 option.case]
    show thesis
    proof (cases "isSplited (hd (pktList (chanStore s a)))")
      case True
      obtain ok s2 where e: "DTAP_SendData (sc_lcid (chanStore s a)) (pkt_buff (hd (pktList (chanStore s a)))) lcid s = (ok, s2)"
        by fastforce
      show thesis
      proof (cases ok)
        case t: True
        show thesis using step True e 4 t by (intro resent [of n a s2]) auto
      next
        case False
        then show thesis using step True e 4 by (intro failed) auto
      qed
    next
      case False
      show thesis
      proof (cases "DLI_GetDataFragmentNums (s_acbLen s) (pkt_buff (hd (pktList (chanStore s a)))) = 0")
        case True then show thesis using step False 4 by (intro failed) auto
      next
        case cnt: False
        obtain fr s2 where e: "DTAP_SplitData (sc_lcid (chanStore s a)) (pkt_buff (hd (pktList (chanStore s a))))
          (DLI_GetDataFragmentNums (s_acbLen s) (pkt_buff (hd (pktList (chanStore s a))))) s = (fr, s2)" by fastforce
        show thesis
        proof (cases fr)
          case None then show thesis using step False cnt e 4 by (intro failed) auto
        next
          case (Some frags)
          obtain left s3 where f: "send_fragments (sc_lcid (chanStore s a)) lcid frags s2 = (left, s3)" by fastforce
          show thesis using step False cnt e f Some 4 by (intro split [of n a frags s2 left s3]) (auto split: if_splits prod.splits)
        qed
      qed
    qed
  qed (use assms idle in \<open>auto simp: schedule_step_def\<close>)
qed

lemma schedule_step_continues:
  assumes "schedule_step i lcid s = (None, s1)"
  shows "node_packets i lcid s1 < node_packets i lcid s"
  using assms
proof (cases rule: schedule_step_cases)
  case (resent n a s2)
  note q = SendData_queues [OF resent(6)]
  have g: "DTAP_GetLcidNode i lcid s2 = Some n" using get_node_cong [of s2 s i lcid] q resent(3) by simp
  have "node_packets i lcid s1 < node_packets i lcid s2"
    unfolding resent(7) using q Peek_Some [OF resent(4)] by (intro Pop_packets [OF g]) simp_all
  then show ?thesis using q node_packets_cong [of s2 s i lcid] by simp
next
  case (split n a frags s2 left s3)
  obtain m pd where s2: "s2 = s\<lparr>s_mem := m, s_pdFlag := pd\<rparr>" using SplitData_sel [OF split(6)] by blast
  have q: "g_dtapScheduler s3 = g_dtapScheduler s" "chanStore s3 = chanStore s"
    using send_fragments_queues [OF split(7)] by (simp_all add: s2)
  have g: "DTAP_GetLcidNode i lcid s3 = Some n" using get_node_cong [of s3 s i lcid] q split(2) by simp
  have "s1 = DTAP_PriorityQueuePop i lcid a s3" using split(8) by simp
  then have "node_packets i lcid s1 < node_packets i lcid s3"
    using q Peek_Some [OF split(3)] by (auto intro!: Pop_packets [OF g])
  then show ?thesis using q node_packets_cong [of s3 s i lcid] by simp
qed simp_all

section \<open>Scheduling\<close>

function DTAP_ScheduleLcid :: "nat \<Rightarrow> u16w \<Rightarrow> sched \<Rightarrow> bool \<times> sched" where
  "DTAP_ScheduleLcid i lcid s =
     (case schedule_step i lcid s of
        (Some r, s1) \<Rightarrow> (r, s1)
      | (None, s1) \<Rightarrow> DTAP_ScheduleLcid i lcid s1)"
  by pat_completeness auto
termination
  by (relation "measure (\<lambda>(i, lcid, s). node_packets i lcid s)") (auto dest: schedule_step_continues [OF sym])

declare DTAP_ScheduleLcid.simps [simp del]

text \<open>The first loop of \<open>DTAP_SchedulePriority\<close>, over the links of the queue.\<close>

fun schedule_lcids :: "nat \<Rightarrow> u16w list \<Rightarrow> sched \<Rightarrow> bool \<times> sched" where
  "schedule_lcids i [] s = (True, s)"
| "schedule_lcids i (lcid # ls) s =
     (if \<not> DTAP_CanSend lcid s then schedule_lcids i ls s
      else case DTAP_ScheduleLcid i lcid (upd_lcid_node i lcid (\<lambda>n. n\<lparr>hasScheduled := True\<rparr>) s) of (ok, s1) \<Rightarrow>
        if ok then schedule_lcids i ls s1 else (False, s1))"

text \<open>The second loop moves every node that was scheduled to the tail.\<close>

definition rotate_scheduled :: "DTAP_LcidNode list \<Rightarrow> DTAP_LcidNode list" where
  "rotate_scheduled ns =
     foldl (\<lambda>l n. if hasScheduled n
                 then remove_first (\<lambda>x. ln_lcid x = ln_lcid n) l @ [n\<lparr>hasScheduled := False\<rparr>] else l) ns ns"

definition DTAP_SchedulePriority :: "nat \<Rightarrow> sched \<Rightarrow> bool \<times> sched" where
  "DTAP_SchedulePriority i s =
     (case schedule_lcids i (map ln_lcid (lcidList (g_dtapScheduler s ! i))) s of (ret, s1) \<Rightarrow>
        (ret, upd_queue i (\<lambda>q. q\<lparr>lcidList := rotate_scheduled (lcidList q)\<rparr>) s1))"

fun run_queues :: "nat list \<Rightarrow> sched \<Rightarrow> sched" where
  "run_queues [] s = s"
| "run_queues (i # is) s =
     (if g_sendNotAckPktCnt s \<ge> g_apBufferNum s then s
      else if q_pktCnt (g_dtapScheduler s ! i) = 0 then run_queues is s
      else case DTAP_SchedulePriority i s of (ok, s1) \<Rightarrow> if ok then run_queues is s1 else s1)"

definition DTAP_SchedulerRun :: "sched \<Rightarrow> sched" where
  "DTAP_SchedulerRun s = run_queues [DTAP_PRIORITY_FRAGMENT..<DTAP_PRIORITY_MAX] s"

definition DTAP_DataSendWithPriority :: "nat option \<Rightarrow> SDF_Buff option \<Rightarrow> sched \<Rightarrow> dtap_ret \<times> sched" where
  "DTAP_DataSendWithPriority transChan buff s =
     (if \<not> g_isInited s then (DTAP_TRANS_INIT_ERR, s)
      else case (transChan, buff) of
        (Some a, Some b) \<Rightarrow>
          let priority = sc_priority (chanStore s a) in
          if priority \<ge> DTAP_PRIORITY_MAX then (DTAP_TRANS_INVALID_MODULE_TYPE, s)
          else if q_pktCnt (g_dtapScheduler s ! priority) \<ge> DTAP_PACKET_MAX_SIZE then (DTAP_TRANS_EXCEED_MAX_ERR, s)
          else (case DTAP_CreatePacket b s of
                  (None, s1) \<Rightarrow> (DTAP_TRANS_MALLOC_ERR, s1)
                | (Some pkt, s1) \<Rightarrow>
                    (case DTAP_PriorityQueuePush priority a 1 s1 of (ret, s2) \<Rightarrow>
                       if ret \<noteq> DTAP_SUCCESS then (ret, s2)
                       else let s3 = upd_chan a (\<lambda>c. c\<lparr>pktList := pktList c @ [pkt]\<rparr>) s2;
                                s4 = (case DTAP_GetLcidBufferNode (sc_lcid (chanStore s3 a)) s3 of
                                        None \<Rightarrow> s3
                                      | Some bufNode \<Rightarrow>
                                          if bn_notAck bufNode \<ge> quota bufNode \<and> g_sendNotAckPktCnt s3 < g_apBufferNum s3
                                          then DTAP_RecalcLcidQuota s3 else s3)
                            in (DTAP_SUCCESS, DTAP_SchedulerRun s4)))
      | _ \<Rightarrow> (DTAP_TRANS_INVALID_PARAM_ERR, s))"

definition DTAP_SendCompleteCbk :: "(nat \<Rightarrow> nat option) \<Rightarrow> u16w \<Rightarrow> nat \<Rightarrow> sched \<Rightarrow> sched" where
  "DTAP_SendCompleteCbk collab connHandle numCompletedPackets s =
     (if DTAP_GetLcidBufferNode connHandle s = None then s
      else let s1 = s\<lparr>g_sendNotAckPktCnt := g_sendNotAckPktCnt s - numCompletedPackets\<rparr>;
               s2 = COLLAB_ContinueAssignTransBuffer collab s1;
               s3 = upd_buf_node connHandle (\<lambda>n. n\<lparr>bn_notAck := bn_notAck n - numCompletedPackets\<rparr>) s2
           in DTAP_SchedulerRun (DTAP_RecalcLcidQuota s3))"

section \<open>Life cycle\<close>

definition DTAP_ChannelDownProc :: "nat \<Rightarrow> u16w \<Rightarrow> byte \<Rightarrow> sched \<Rightarrow> sched" where
  "DTAP_ChannelDownProc i lcid srcTcid s =
     (case DTAP_GetLcidNode i lcid s of
        None \<Rightarrow> s
      | Some node \<Rightarrow>
          let s1 = (case find_channel lcid srcTcid node s of
                      None \<Rightarrow> s
                    | Some a \<Rightarrow>
                        let channelPktCnt = length (pktList (chanStore s a));
                            t1 = DTAP_DecLcidQueuedPktCnt lcid channelPktCnt s;
                            t2 = upd_lcid_node i lcid (\<lambda>n. n\<lparr>channelList := remove1 a (channelList n),
                                    ln_pktCnt := ln_pktCnt n - channelPktCnt\<rparr>) t1;
                            t3 = upd_queue i (\<lambda>q. q\<lparr>q_pktCnt := q_pktCnt q - channelPktCnt\<rparr>) t2
                        in upd_chan a (\<lambda>c. c\<lparr>pktList := []\<rparr>) t3)
          in case DTAP_GetLcidNode i lcid s1 of
               None \<Rightarrow> s1
             | Some node1 \<Rightarrow>
                 if channelList node1 = []
                 then DTAP_DestroyLcidNode node1
                        (upd_queue i (\<lambda>q. q\<lparr>lcidList := remove_first (\<lambda>n. ln_lcid n = lcid) (lcidList q)\<rparr>) s1)
                 else s1)"

definition DTAP_ChannelDown :: "u16w \<Rightarrow> byte \<Rightarrow> sched \<Rightarrow> sched" where
  "DTAP_ChannelDown lcid srcTcid s =
     foldl (\<lambda>s i. DTAP_ChannelDownProc i lcid (if i = DTAP_PRIORITY_FRAGMENT then DTAP_FRAGMENT_TCID else srcTcid) s)
       s [DTAP_PRIORITY_FRAGMENT..<DTAP_PRIORITY_MAX]"

text \<open>The results of registering the callbacks are only logged.\<close>

definition DTAP_SchedulerInitInner :: "sched \<Rightarrow> sched" where
  "DTAP_SchedulerInitInner s =
     (if g_isInited s then s
      else s\<lparr>g_dtapScheduler := map (\<lambda>i. \<lparr>lcidList = [], q_priority = i, q_pktCnt = 0\<rparr>) [DTAP_PRIORITY_FRAGMENT..<DTAP_PRIORITY_MAX],
             g_lcidBufferList := [], g_sendNotAckPktCnt := 0, g_isInited := True\<rparr>)"

definition DTAP_SchedulerDeinitInner :: "sched \<Rightarrow> sched" where
  "DTAP_SchedulerDeinitInner s =
     (if \<not> g_isInited s then s
      else let s1 = s\<lparr>g_lcidBufferList := []\<rparr>;
               s2 = foldl (\<lambda>s i. (foldl (\<lambda>s n. DTAP_DestroyLcidNode n s) s (lcidList (g_dtapScheduler s ! i))))
                      s1 [DTAP_PRIORITY_FRAGMENT..<DTAP_PRIORITY_MAX]
           in s2\<lparr>g_dtapScheduler := map (\<lambda>q. q\<lparr>lcidList := [], q_pktCnt := 0\<rparr>) (g_dtapScheduler s2), g_isInited := False\<rparr>)"

text \<open>\<open>CP_PostTaskBlocked\<close> runs the function in the control thread and waits for it; \<open>executed\<close> says whether
  the function was run, \<open>posted\<close> whether the call was reported as successful.\<close>

definition DTAP_SchedulerInit :: "bool \<Rightarrow> bool \<Rightarrow> sched \<Rightarrow> dtap_ret \<times> sched" where
  "DTAP_SchedulerInit executed posted s =
     ((if posted then DTAP_SUCCESS else DTAP_TRANS_CP_POST_ERR), if executed then DTAP_SchedulerInitInner s else s)"

definition DTAP_SchedulerDeinit :: "bool \<Rightarrow> bool \<Rightarrow> sched \<Rightarrow> dtap_ret \<times> sched" where
  "DTAP_SchedulerDeinit executed posted s =
     ((if posted then DTAP_SUCCESS else DTAP_TRANS_CP_POST_ERR), if executed then DTAP_SchedulerDeinitInner s else s)"

end
