(* ===== verification/Dtap_Sched_Quota.thy ===== *)
theory Dtap_Sched_Quota
  imports Dtap_Scheduler
begin

text \<open>
  The quotas of the links: \<open>DTAP_AllocLcidQuota\<close> distributes the controller's buffers by the largest
  remainder method. Every link gets one buffer; the rest of the buffers is shared in proportion to the
  queued packets, rounded down, and what the rounding leaves goes one each to the links with the largest
  remainders.
\<close>

section \<open>Shares and remainders\<close>

definition share :: "nat \<Rightarrow> nat \<Rightarrow> DTAP_LcidBufferNode \<Rightarrow> nat" where
  "share pool tot n = pool * queuedPktCnt n div tot"

definition frac :: "nat \<Rightarrow> nat \<Rightarrow> DTAP_LcidBufferNode \<Rightarrow> nat" where
  "frac pool tot n = pool * queuedPktCnt n mod tot"

definition bumped :: "nat \<Rightarrow> nat \<Rightarrow> DTAP_LcidBufferNode \<Rightarrow> bool" where
  "bumped pool tot n \<longleftrightarrow> quota n = share pool tot n + 2"

lemma frac_less: "0 < tot \<Longrightarrow> frac pool tot n < tot"
  by (simp add: frac_def)

lemma sum_shares:
  "pool * sum_list (map queuedPktCnt ns) = tot * sum_list (map (share pool tot) ns) + sum_list (map (frac pool tot) ns)"
  by (induction ns) (simp_all add: share_def frac_def algebra_simps)

lemma share_le:
  assumes "n \<in> set ns" "tot = sum_list (map queuedPktCnt ns)" "0 < tot"
  shows "share pool tot n \<le> pool"
proof -
  have "queuedPktCnt n \<le> tot" unfolding assms(2) by (rule member_le_sum_list) (use assms(1) in auto)
  then have "pool * queuedPktCnt n div tot \<le> pool * tot div tot" by (intro div_le_mono mult_le_mono2)
  then show ?thesis using assms(3) by (simp add: share_def)
qed

lemma share_less:
  assumes "n \<in> set ns" "tot = sum_list (map queuedPktCnt ns)" "0 < tot" "0 < frac pool tot n"
  shows "share pool tot n < pool"
proof -
  have "queuedPktCnt n \<le> tot" unfolding assms(2) by (rule member_le_sum_list) (use assms(1) in auto)
  then have "pool * queuedPktCnt n \<le> pool * tot" by (intro mult_le_mono2)
  moreover have "pool * queuedPktCnt n = tot * share pool tot n + frac pool tot n"
    by (simp add: share_def frac_def)
  ultimately have "tot * share pool tot n < tot * pool" using assms(4) mult.commute [of pool tot] by linarith
  then show ?thesis by simp
qed

lemma sum_frac_le:
  "0 < tot \<Longrightarrow> sum_list (map (frac pool tot) ns) \<le> (tot - 1) * length (filter (\<lambda>n. 0 < frac pool tot n) ns)"
proof (induction ns)
  case (Cons n ns)
  have "frac pool tot n \<le> tot - 1" using frac_less [OF Cons.prems, of pool n] by simp
  then show ?case using Cons by auto
qed simp

lemma enough_remainders:
  assumes tot: "tot = sum_list (map queuedPktCnt ns)" "0 < tot"
  shows "sum_list (map (share pool tot) ns) \<le> pool"
    "pool - sum_list (map (share pool tot) ns) \<le> length (filter (\<lambda>n. 0 < frac pool tot n) ns)"
proof -
  let ?S = "sum_list (map (share pool tot) ns)" and ?k = "length (filter (\<lambda>n. 0 < frac pool tot n) ns)"
  have e: "pool * tot = tot * ?S + sum_list (map (frac pool tot) ns)"
    using sum_shares [of pool ns tot] tot(1) by simp
  then have "tot * ?S \<le> tot * pool" by (simp add: mult.commute)
  then show S: "?S \<le> pool" using tot(2) by simp
  have "tot * (pool - ?S) = sum_list (map (frac pool tot) ns)" using e by (simp add: diff_mult_distrib2 mult.commute)
  also have "\<dots> \<le> (tot - 1) * ?k" by (rule sum_frac_le [OF tot(2)])
  also have "\<dots> \<le> tot * ?k" by simp
  finally show "pool - ?S \<le> ?k" using tot(2) by simp
qed

section \<open>One round of the top-up\<close>

text \<open>The inner loop finds the first node with the largest remainder among those not topped up.\<close>

definition unbumped :: "nat \<Rightarrow> nat \<Rightarrow> DTAP_LcidBufferNode \<Rightarrow> bool" where
  "unbumped pool tot n \<longleftrightarrow> quota n = share pool tot n + 1"

lemma quota_pick_fold:
  assumes "\<forall>n\<in>set ns. (bumped pool tot n \<or> unbumped pool tot n) \<and> share pool tot n < 256"
    and "foldl (\<lambda>(maxFrac, maxNode) n.
       let product = pool * queuedPktCnt n; floorBonus = u8 (product div tot) in
       if int (quota n) - int DTAP_MIN_BUFFER_NUM > int floorBonus then (maxFrac, maxNode)
       else let frac = product mod tot in
         if frac > maxFrac then (frac, Some (bn_lcid n)) else (maxFrac, maxNode)) (m0, r0) ns = (m, r)"
  shows "m0 \<le> m \<and> (\<forall>n\<in>set ns. unbumped pool tot n \<longrightarrow> frac pool tot n \<le> m) \<and>
    (m = m0 \<and> r = r0 \<or> (\<exists>n\<in>set ns. unbumped pool tot n \<and> frac pool tot n = m \<and> m0 < m \<and> r = Some (bn_lcid n)))"
  using assms
proof (induction ns arbitrary: m0 r0)
  case (Cons n ns)
  have n: "bumped pool tot n \<or> unbumped pool tot n" "share pool tot n < 256" using Cons.prems(1) by auto
  have ns: "\<forall>n\<in>set ns. (bumped pool tot n \<or> unbumped pool tot n) \<and> share pool tot n < 256" using Cons.prems(1) by simp
  have sh: "u8 (pool * queuedPktCnt n div tot) = share pool tot n" using n(2) by (simp add: share_def)
  consider "bumped pool tot n" | "unbumped pool tot n" "frac pool tot n > m0" | "unbumped pool tot n" "frac pool tot n \<le> m0"
    using n(1) by force
  then show ?case
  proof cases
    case 1
    then show ?thesis using Cons.IH [OF ns, of m0 r0] Cons.prems(2)
      by (auto simp: Let_def sh bumped_def unbumped_def)
  next
    case 2
    then show ?thesis using Cons.IH [OF ns, of "frac pool tot n" "Some (bn_lcid n)"] Cons.prems(2)
      by (auto simp: Let_def sh unbumped_def frac_def)
  next
    case 3
    then show ?thesis using Cons.IH [OF ns, of m0 r0] Cons.prems(2)
      by (auto simp: Let_def sh unbumped_def frac_def)
  qed
qed auto

lemma quota_pick_max:
  assumes wf: "\<forall>n\<in>set ns. (bumped pool tot n \<or> unbumped pool tot n) \<and> share pool tot n < 256"
    and ex: "n0 \<in> set ns" "unbumped pool tot n0" "0 < frac pool tot n0"
  obtains n where "n \<in> set ns" "unbumped pool tot n" "0 < frac pool tot n" "snd (quota_pick pool tot ns) = Some (bn_lcid n)"
    "\<forall>y\<in>set ns. unbumped pool tot y \<longrightarrow> frac pool tot y \<le> frac pool tot n"
proof -
  obtain m r where e: "quota_pick pool tot ns = (m, r)" by fastforce
  have f: "0 \<le> m \<and> (\<forall>n\<in>set ns. unbumped pool tot n \<longrightarrow> frac pool tot n \<le> m) \<and>
    (m = 0 \<and> r = None \<or> (\<exists>n\<in>set ns. unbumped pool tot n \<and> frac pool tot n = m \<and> 0 < m \<and> r = Some (bn_lcid n)))"
    by (rule quota_pick_fold [OF wf]) (use e in \<open>simp add: quota_pick_def\<close>)
  then obtain n where "n \<in> set ns" "unbumped pool tot n" "frac pool tot n = m" "0 < m" "r = Some (bn_lcid n)"
    using ex by fastforce
  then show thesis using f that [of n] e by auto
qed

section \<open>The top-up loop\<close>

abbreviation (input) erase :: "DTAP_LcidBufferNode \<Rightarrow> DTAP_LcidBufferNode" where
  "erase n \<equiv> n\<lparr>quota := 0\<rparr>"

definition topup_inv :: "nat \<Rightarrow> nat \<Rightarrow> nat \<Rightarrow> DTAP_LcidBufferNode list \<Rightarrow> bool" where
  "topup_inv pool tot k ns \<longleftrightarrow>
     (\<forall>n\<in>set ns. unbumped pool tot n \<or> bumped pool tot n \<and> 0 < frac pool tot n) \<and>
     length (filter (bumped pool tot) ns) = k \<and>
     (\<forall>x\<in>set ns. \<forall>y\<in>set ns. bumped pool tot x \<longrightarrow> unbumped pool tot y \<longrightarrow> frac pool tot y \<le> frac pool tot x)"

definition bounded :: "nat \<Rightarrow> nat \<Rightarrow> DTAP_LcidBufferNode \<Rightarrow> bool" where
  "bounded pool tot n \<longleftrightarrow> share pool tot n < 255 \<and> (0 < frac pool tot n \<longrightarrow> share pool tot n < 254)"

lemma not_both: "unbumped pool tot n \<Longrightarrow> \<not> bumped pool tot n"
  by (simp add: unbumped_def bumped_def)

lemma upd_first_distinct:
  assumes "n \<in> set ns" "distinct (map h ns)"
  shows "\<exists>xs ys. ns = xs @ n # ys \<and> upd_first (\<lambda>m. h m = h n) f ns = xs @ f n # ys"
  using assms
proof (induction ns)
  case (Cons x ns)
  show ?case
  proof (cases "h x = h n")
    case True
    with Cons.prems have "x = n" by (auto simp: image_iff)
    then have "x # ns = [] @ n # ns \<and> upd_first (\<lambda>m. h m = h n) f (x # ns) = [] @ f n # ns" by simp
    then show ?thesis by blast
  next
    case False
    then obtain xs ys where "ns = xs @ n # ys \<and> upd_first (\<lambda>m. h m = h n) f ns = xs @ f n # ys"
      using Cons by auto
    then have "x # ns = (x # xs) @ n # ys \<and> upd_first (\<lambda>m. h m = h n) f (x # ns) = (x # xs) @ f n # ys"
      using False by auto
    then show ?thesis by blast
  qed
qed simp

lemma exists_unbumped:
  assumes "topup_inv pool tot k ns" "k < length (filter (\<lambda>n. 0 < frac pool tot n) ns)"
  obtains n where "n \<in> set ns" "unbumped pool tot n" "0 < frac pool tot n"
proof (rule ccontr)
  assume "\<not> thesis"
  then have "\<forall>n\<in>set ns. 0 < frac pool tot n \<longrightarrow> bumped pool tot n" using assms(1) that by (auto simp: topup_inv_def)
  then have "length (filter (\<lambda>n. 0 < frac pool tot n) ns) \<le> length (filter (bumped pool tot) ns)"
    by (induction ns) auto
  then show False using assms by (simp add: topup_inv_def)
qed

lemma topup_step:
  assumes inv: "topup_inv pool tot k ns" and k: "k < length (filter (\<lambda>n. 0 < frac pool tot n) ns)"
    and d: "distinct (map bn_lcid ns)" and b: "\<forall>n\<in>set ns. bounded pool tot n"
  defines "ns' \<equiv> (case snd (quota_pick pool tot ns) of None \<Rightarrow> ns
        | Some lcid \<Rightarrow> upd_first (\<lambda>n. bn_lcid n = lcid) (\<lambda>n. n\<lparr>quota := u8 (quota n + 1)\<rparr>) ns)"
  shows "topup_inv pool tot (Suc k) ns'" "map erase ns' = map erase ns"
proof -
  obtain n0 where n0: "n0 \<in> set ns" "unbumped pool tot n0" "0 < frac pool tot n0" by (rule exists_unbumped [OF inv k])
  have wf: "\<forall>n\<in>set ns. (bumped pool tot n \<or> unbumped pool tot n) \<and> share pool tot n < 256"
    using inv b by (force simp: topup_inv_def bounded_def)
  obtain n where n: "n \<in> set ns" "unbumped pool tot n" "0 < frac pool tot n" "snd (quota_pick pool tot ns) = Some (bn_lcid n)"
    "\<forall>y\<in>set ns. unbumped pool tot y \<longrightarrow> frac pool tot y \<le> frac pool tot n"
    by (rule quota_pick_max [OF wf n0])
  define n' where "n' = n\<lparr>quota := u8 (quota n + 1)\<rparr>"
  obtain xs ys where ns: "ns = xs @ n # ys" "ns' = xs @ n' # ys"
    using upd_first_distinct [OF n(1) d, of "\<lambda>n. n\<lparr>quota := u8 (quota n + 1)\<rparr>"]
    unfolding ns'_def n(4) option.case n'_def by metis
  have q: "quota n' = share pool tot n + 2" using n(2,3) b n(1) by (auto simp: n'_def unbumped_def bounded_def)
  have n': "bumped pool tot n'" "\<not> unbumped pool tot n'" "frac pool tot n' = frac pool tot n"
    using q by (simp_all add: bumped_def unbumped_def n'_def share_def frac_def)
  show "map erase ns' = map erase ns" by (simp add: ns n'_def)
  have "set ns' = insert n' (set xs \<union> set ys)" "set ns = insert n (set xs \<union> set ys)" by (auto simp: ns)
  moreover have "length (filter (bumped pool tot) ns') = Suc k"
    using inv n' not_both [OF n(2)] by (simp add: topup_inv_def ns)
  ultimately show "topup_inv pool tot (Suc k) ns'"
    using inv n n' by (auto simp: topup_inv_def)
qed

lemma map_erase:
  assumes "map erase ns' = map erase ns" "\<And>n. f (erase n) = f n"
  shows "map f ns' = map f ns"
proof -
  have "map f ns' = map f (map erase ns')" by (simp add: assms(2))
  also have "\<dots> = map f (map erase ns)" by (simp only: assms(1))
  also have "\<dots> = map f ns" by (simp add: assms(2))
  finally show ?thesis .
qed

lemma frac_erase:
  assumes "map erase ns' = map erase ns"
  shows "map (frac pool tot) ns' = map (frac pool tot) ns" "map (share pool tot) ns' = map (share pool tot) ns"
    "map bn_lcid ns' = map bn_lcid ns" "map (bounded pool tot) ns' = map (bounded pool tot) ns"
  by (rule map_erase [OF assms], simp add: frac_def share_def bounded_def)+

lemma bounded_erase:
  "map erase ns' = map erase ns \<Longrightarrow> (\<forall>n\<in>set ns'. bounded pool tot n) = (\<forall>n\<in>set ns. bounded pool tot n)"
  using arg_cong [OF frac_erase(4), of ns' ns "\<lambda>xs. \<forall>b\<in>set xs. b" pool tot] by auto

lemma filter_frac_length: "length (filter (\<lambda>n. 0 < frac pool tot n) ns) = length (filter (\<lambda>x. 0 < x) (map (frac pool tot) ns))"
  by (simp add: filter_map comp_def)

lemma topup_loop:
  assumes "topup_inv pool tot k ns" "k + r \<le> length (filter (\<lambda>n. 0 < frac pool tot n) ns)"
    "distinct (map bn_lcid ns)" "\<forall>n\<in>set ns. bounded pool tot n"
  shows "topup_inv pool tot (k + r) (quota_topup pool tot r ns) \<and> map erase (quota_topup pool tot r ns) = map erase ns"
  using assms
proof (induction r arbitrary: k ns)
  case (Suc r)
  define ns' where "ns' = (case snd (quota_pick pool tot ns) of None \<Rightarrow> ns
        | Some lcid \<Rightarrow> upd_first (\<lambda>n. bn_lcid n = lcid) (\<lambda>n. n\<lparr>quota := u8 (quota n + 1)\<rparr>) ns)"
  have k: "k < length (filter (\<lambda>n. 0 < frac pool tot n) ns)" using Suc.prems(2) by simp
  have st: "topup_inv pool tot (Suc k) ns'" "map erase ns' = map erase ns"
    using topup_step [OF Suc.prems(1) k Suc.prems(3,4)] by (simp_all add: ns'_def)
  have "\<forall>n\<in>set ns'. bounded pool tot n" using bounded_erase [OF st(2)] Suc.prems(4) by simp
  moreover have "Suc k + r \<le> length (filter (\<lambda>n. 0 < frac pool tot n) ns')"
    using Suc.prems(2) frac_erase(1) [OF st(2), of pool tot] by (simp add: filter_frac_length)
  moreover have "distinct (map bn_lcid ns')" using Suc.prems(3) frac_erase(3) [OF st(2)] by simp
  ultimately have "topup_inv pool tot (Suc k + r) (quota_topup pool tot r ns') \<and> map erase (quota_topup pool tot r ns') = map erase ns'"
    by (intro Suc.IH st(1))
  then show ?case using st(2) by (simp flip: ns'_def)
qed simp

lemma sum_quota:
  "\<forall>n\<in>set ns. unbumped pool tot n \<or> bumped pool tot n \<Longrightarrow>
   sum_list (map quota ns) = length ns + sum_list (map (share pool tot) ns) + length (filter (bumped pool tot) ns)"
  by (induction ns) (auto simp: bumped_def unbumped_def)

section \<open>The allocation\<close>

lemma foldl_u8_sum:
  "a + sum_list (map (\<lambda>n. pool * queuedPktCnt n div tot) ns) < 256 \<Longrightarrow>
   foldl (\<lambda>acc n. u8 (acc + u8 (pool * queuedPktCnt n div tot))) a ns = a + sum_list (map (share pool tot) ns)"
  by (induction ns arbitrary: a) (simp_all add: share_def)

definition bonus_pool :: "nat \<Rightarrow> nat \<Rightarrow> nat" where
  "bonus_pool ap k = ap - k * DTAP_MIN_BUFFER_NUM"

lemma AllocLcidQuota_largest_remainder:
  assumes ap: "ap < 256" and d: "distinct (map bn_lcid ns)" and tot: "tot = sum_list (map queuedPktCnt ns)" "0 < tot"
  defines "pool \<equiv> bonus_pool ap (length ns)"
  defines "ns' \<equiv> DTAP_AllocLcidQuota ap tot ns"
  shows "topup_inv pool tot (pool - sum_list (map (share pool tot) ns)) ns'" "map erase ns' = map erase ns"
    "sum_list (map quota ns') = length ns + pool"
proof -
  have ne: "ns \<noteq> []" using tot by auto
  then have pool: "pool < 255" using ap by (cases ns) (auto simp: pool_def bonus_pool_def)
  let ?S = "sum_list (map (share pool tot) ns)"
  note en = enough_remainders [OF tot, of pool]
  have pe: "(if ap > length ns * DTAP_MIN_BUFFER_NUM then u8 (ap - length ns * DTAP_MIN_BUFFER_NUM) else 0) = pool"
    using ap by (simp add: pool_def bonus_pool_def)
  have fS: "foldl (\<lambda>acc n. u8 (acc + u8 (pool * queuedPktCnt n div tot))) 0 ns = ?S"
    using foldl_u8_sum [of 0 pool tot ns] en(1) pool by (simp add: share_def [abs_def])
  have rem: "u8 (pool + 256 - ?S) = pool - ?S" using en(1) pool by (simp add: u8_def mod_if)
  let ?ns1 = "map (quota_base pool tot) ns"
  have e: "ns' = quota_topup pool tot (pool - ?S) ?ns1"
    unfolding ns'_def DTAP_AllocLcidQuota_def Let_def pe fS rem ..
  have er: "map erase ?ns1 = map erase ns" by (simp add: quota_base_def)
  have bd: "\<forall>n\<in>set ns. bounded pool tot n"
    using share_le [OF _ tot, of _ pool] share_less [OF _ tot, of _ pool] pool by (fastforce simp: bounded_def)
  have un: "\<forall>n\<in>set ?ns1. unbumped pool tot n"
    using bd by (auto simp: unbumped_def quota_base_def share_def bounded_def)
  have i0: "topup_inv pool tot 0 ?ns1" using un not_both by (auto simp: topup_inv_def filter_empty_conv)
  have k: "0 + (pool - ?S) \<le> length (filter (\<lambda>n. 0 < frac pool tot n) ?ns1)"
    using en(2) frac_erase(1) [OF er, of pool tot] by (simp only: filter_frac_length)
  have L: "topup_inv pool tot (0 + (pool - ?S)) ns' \<and> map erase ns' = map erase ?ns1"
    unfolding e
  proof (rule topup_loop [OF i0 k])
    show "distinct (map bn_lcid ?ns1)" using d by (simp only: frac_erase(3) [OF er])
    show "\<forall>n\<in>set ?ns1. bounded pool tot n" using bd by (simp only: bounded_erase [OF er])
  qed
  then show inv: "topup_inv pool tot (pool - ?S) ns'" and er': "map erase ns' = map erase ns" using er by simp_all
  have "length ns' = length ns" using arg_cong [OF er', of length] by simp
  moreover have "length (filter (bumped pool tot) ns') = pool - ?S" "\<forall>n\<in>set ns'. unbumped pool tot n \<or> bumped pool tot n"
    using inv by (auto simp: topup_inv_def)
  ultimately show "sum_list (map quota ns') = length ns + pool"
    using sum_quota [of ns' pool tot] frac_erase(2) [OF er', of pool tot] en(1) by simp
qed

lemma RecalcLcidQuota_list:
  "g_lcidBufferList (DTAP_RecalcLcidQuota s) =
     map (\<lambda>n. n\<lparr>lastQuota := quota n\<rparr>)
       (let ns = g_lcidBufferList s; tot = sum_list (map queuedPktCnt ns) in
        if tot \<noteq> 0 then DTAP_AllocLcidQuota (g_apBufferNum s) tot ns else map (\<lambda>n. n\<lparr>quota := 1\<rparr>) ns)"
proof -
  have "(\<lambda>n. if quota n \<noteq> lastQuota n then n\<lparr>lastQuota := quota n\<rparr> else n) = (\<lambda>n. n\<lparr>lastQuota := quota n\<rparr>)"
    by (rule ext) auto
  then show ?thesis by (simp add: DTAP_RecalcLcidQuota_def DTAP_CalcTotalQueuedPktCnt_def Let_def)
qed

lemma RecalcLcidQuota_sel [simp]:
  "g_dtapScheduler (DTAP_RecalcLcidQuota s) = g_dtapScheduler s" "chanStore (DTAP_RecalcLcidQuota s) = chanStore s"
  "g_sendNotAckPktCnt (DTAP_RecalcLcidQuota s) = g_sendNotAckPktCnt s"
  "g_apBufferNum (DTAP_RecalcLcidQuota s) = g_apBufferNum s" "sent (DTAP_RecalcLcidQuota s) = sent s"
  "nextAddr (DTAP_RecalcLcidQuota s) = nextAddr s" "s_mem (DTAP_RecalcLcidQuota s) = s_mem s"
  "dliScript (DTAP_RecalcLcidQuota s) = dliScript s" "s_acbLen (DTAP_RecalcLcidQuota s) = s_acbLen s"
  "s_pdFlag (DTAP_RecalcLcidQuota s) = s_pdFlag s" "g_isInited (DTAP_RecalcLcidQuota s) = g_isInited s"
  by (simp_all add: DTAP_RecalcLcidQuota_def Let_def)

lemma quota_topup_erase: "map erase (quota_topup pool tot r ns) = map erase ns"
proof (induction r arbitrary: ns)
  case (Suc r)
  have "map erase (upd_first p (\<lambda>n. n\<lparr>quota := u8 (quota n + 1)\<rparr>) ns) = map erase ns" for p
    by (induction ns) auto
  then show ?case using Suc by (auto split: option.splits)
qed simp

text \<open>Only the quotas change, whatever the state.\<close>

lemma RecalcLcidQuota_erase:
  "map (\<lambda>n. n\<lparr>quota := 0, lastQuota := 0\<rparr>) (g_lcidBufferList (DTAP_RecalcLcidQuota s)) =
   map (\<lambda>n. n\<lparr>quota := 0, lastQuota := 0\<rparr>) (g_lcidBufferList s)"
proof -
  have a: "map erase (DTAP_AllocLcidQuota ap tot ns) = map erase ns" for ap tot ns
    by (simp add: DTAP_AllocLcidQuota_def Let_def quota_topup_erase quota_base_def)
  show ?thesis
    using map_erase [OF a [of "g_apBufferNum s"], of "\<lambda>n. n\<lparr>quota := 0, lastQuota := 0\<rparr>"]
    by (simp add: RecalcLcidQuota_list Let_def comp_def)
qed

text \<open>(C22) The quotas are those of the largest remainder method. With distinct links and at most 255
  controller buffers, \<open>DTAP_RecalcLcidQuota\<close> gives every link one buffer and shares the others in
  proportion to the queued packets: the quotas add up to exactly the number of buffers (or to one per link
  when there are fewer buffers than links); each link has one plus its share rounded down, or one more when
  its share has a remainder; a link that was rounded up has a remainder at least as large as each link
  that was not; a link without packets has quota one. Without any queued packet every link has quota one.
  Nothing else in the nodes changes.\<close>
theorem quota_largest_remainder:
  assumes "g_apBufferNum s < 256" "distinct (map bn_lcid (g_lcidBufferList s))"
  shows "let ns = g_lcidBufferList s; ns' = g_lcidBufferList (DTAP_RecalcLcidQuota s);
             tot = sum_list (map queuedPktCnt ns); pool = g_apBufferNum s - length ns in
     (0 < tot \<longrightarrow>
        sum_list (map quota ns') = max (g_apBufferNum s) (length ns) \<and>
        (\<forall>n\<in>set ns'. quota n = 1 + pool * queuedPktCnt n div tot \<or>
            quota n = 2 + pool * queuedPktCnt n div tot \<and> 0 < pool * queuedPktCnt n mod tot) \<and>
        (\<forall>x\<in>set ns'. \<forall>y\<in>set ns'. quota x = 2 + pool * queuedPktCnt x div tot \<longrightarrow>
            quota y = 1 + pool * queuedPktCnt y div tot \<longrightarrow>
            pool * queuedPktCnt y mod tot \<le> pool * queuedPktCnt x mod tot) \<and>
        (\<forall>n\<in>set ns'. queuedPktCnt n = 0 \<longrightarrow> quota n = 1)) \<and>
     (tot = 0 \<longrightarrow> (\<forall>n\<in>set ns'. quota n = 1)) \<and>
     map (\<lambda>n. n\<lparr>quota := 0, lastQuota := 0\<rparr>) ns' = map (\<lambda>n. n\<lparr>quota := 0, lastQuota := 0\<rparr>) ns"
proof -
  define ns where "ns = g_lcidBufferList s"
  define ns' where "ns' = g_lcidBufferList (DTAP_RecalcLcidQuota s)"
  define tot where "tot = sum_list (map queuedPktCnt ns)"
  define pool where "pool = bonus_pool (g_apBufferNum s) (length ns)"
  have pe: "pool = g_apBufferNum s - length ns" by (simp add: pool_def bonus_pool_def)
  have z: "\<forall>n\<in>set ns'. quota n = 1" if "tot = 0"
    using that unfolding tot_def ns_def by (auto simp: ns'_def RecalcLcidQuota_list Let_def simp del: sum_list_eq_0_iff)
  have p: "topup_inv pool tot (pool - sum_list (map (share pool tot) ns)) ns' \<and>
      sum_list (map quota ns') = length ns + pool" if "0 < tot"
  proof -
    have e: "ns' = map (\<lambda>n. n\<lparr>lastQuota := quota n\<rparr>) (DTAP_AllocLcidQuota (g_apBufferNum s) tot ns)"
      using that by (simp add: ns'_def RecalcLcidQuota_list Let_def ns_def tot_def)
    have "bumped pool tot (n\<lparr>lastQuota := q\<rparr>) = bumped pool tot n" "unbumped pool tot (n\<lparr>lastQuota := q\<rparr>) = unbumped pool tot n"
      "frac pool tot (n\<lparr>lastQuota := q\<rparr>) = frac pool tot n" for n q
      by (simp_all add: bumped_def unbumped_def share_def frac_def)
    then show ?thesis
      using AllocLcidQuota_largest_remainder [OF assms(1) assms(2) [folded ns_def] tot_def that] e
      by (simp add: topup_inv_def pool_def filter_map comp_def)
  qed
  have "0 < tot \<longrightarrow>
        sum_list (map quota ns') = max (g_apBufferNum s) (length ns) \<and>
        (\<forall>n\<in>set ns'. quota n = 1 + pool * queuedPktCnt n div tot \<or>
            quota n = 2 + pool * queuedPktCnt n div tot \<and> 0 < pool * queuedPktCnt n mod tot) \<and>
        (\<forall>x\<in>set ns'. \<forall>y\<in>set ns'. quota x = 2 + pool * queuedPktCnt x div tot \<longrightarrow>
            quota y = 1 + pool * queuedPktCnt y div tot \<longrightarrow>
            pool * queuedPktCnt y mod tot \<le> pool * queuedPktCnt x mod tot)"
    using p by (auto simp: topup_inv_def unbumped_def bumped_def share_def frac_def pe)
  moreover have "quota n = 1" if "0 < tot" "n \<in> set ns'" "queuedPktCnt n = 0" for n
    using calculation that by fastforce
  ultimately have "0 < tot \<longrightarrow>
        sum_list (map quota ns') = max (g_apBufferNum s) (length ns) \<and>
        (\<forall>n\<in>set ns'. quota n = 1 + pool * queuedPktCnt n div tot \<or>
            quota n = 2 + pool * queuedPktCnt n div tot \<and> 0 < pool * queuedPktCnt n mod tot) \<and>
        (\<forall>x\<in>set ns'. \<forall>y\<in>set ns'. quota x = 2 + pool * queuedPktCnt x div tot \<longrightarrow>
            quota y = 1 + pool * queuedPktCnt y div tot \<longrightarrow>
            pool * queuedPktCnt y mod tot \<le> pool * queuedPktCnt x mod tot) \<and>
        (\<forall>n\<in>set ns'. queuedPktCnt n = 0 \<longrightarrow> quota n = 1)" by blast
  then show ?thesis
    using z RecalcLcidQuota_erase [of s] unfolding Let_def ns_def [symmetric] ns'_def [symmetric] tot_def [symmetric] pe [symmetric] by blast
qed

definition demo_bufs :: "DTAP_LcidBufferNode list" where
  "demo_bufs = map (\<lambda>(l, q). \<lparr>bn_lcid = l, quota = 0, lastQuota = 0, bn_notAck = 0, queuedPktCnt = q,
     windowBytes = 0, lastRateCalcTime = 0\<rparr>) [(1, 5), (2, 0), (3, 9)]"

definition demo_sched :: sched where
  "demo_sched = \<lparr>g_dtapScheduler = map (\<lambda>i. \<lparr>lcidList = [], q_priority = i, q_pktCnt = 0\<rparr>) [0, 1, 2, 3],
     g_lcidBufferList = demo_bufs, g_sendNotAckPktCnt = 0, g_isInited = True, g_pktSeq = 0, g_apBufferNum = 10,
     chanStore = (\<lambda>_. \<lparr>sc_lcid = 1, sc_srcTcid = 0x20, sc_dstTcid = 0x20, sc_priority = 1, pktList = []\<rparr>),
     nextAddr = 1, s_mem = [], dliScript = [], clockScript = [], s_acbLen = 100, s_pdFlag = 255, sent = []\<rparr>"

theorem quota_largest_remainder_witness:
  "map quota (g_lcidBufferList (DTAP_RecalcLcidQuota demo_sched)) = [4, 1, 5] \<and>
   sum_list (map quota (g_lcidBufferList (DTAP_RecalcLcidQuota demo_sched))) = 10"
proof -
  have h: "g_apBufferNum demo_sched < 256" "distinct (map bn_lcid (g_lcidBufferList demo_sched))"
    by (simp_all add: demo_sched_def demo_bufs_def)
  have e: "0 < sum_list (map queuedPktCnt (g_lcidBufferList demo_sched))" "g_apBufferNum demo_sched = 10"
    "length (g_lcidBufferList demo_sched) = 3" by (simp_all add: demo_sched_def demo_bufs_def)
  have "sum_list (map quota (g_lcidBufferList (DTAP_RecalcLcidQuota demo_sched))) = 10"
    using quota_largest_remainder [OF h] e by (simp add: Let_def)
  moreover have "map quota (g_lcidBufferList (DTAP_RecalcLcidQuota demo_sched)) = [4, 1, 5]" by code_simp
  ultimately show ?thesis by blast
qed

end
