(* ===== verification/Dtap_Seq.thy ===== *)
theory Dtap_Seq
  imports Nl_Prelude
begin

text \<open>
  Sequence numbers, transmission-mode registry and timer helpers,
  \<^verbatim>\<open>services/stack/src/dp/dtap/src/dtap_trans.c\<close>. Sequence numbers are 14 bits wide and kept in
  \<^verbatim>\<open>uint16_t\<close>; \<open>DTAP_IsFrameSeqSmaller\<close> compares them by the sign bit of their difference. The
  distance \<open>soff b s\<close> of a sequence number from a base turns these comparisons into comparisons
  of natural numbers, which is how the window proofs use them.
\<close>

section \<open>Sequence numbers\<close>

abbreviation (input) DTAP_FRAME_SEQ_INIT :: u16w where "DTAP_FRAME_SEQ_INIT \<equiv> 0xFFFF"

abbreviation (input) DTAP_FRAME_SEQ_MAX :: u16w where "DTAP_FRAME_SEQ_MAX \<equiv> 0x3FFF"

abbreviation (input) DTAP_FRAME_SEQ_SIGN_MASK :: u16w where "DTAP_FRAME_SEQ_SIGN_MASK \<equiv> 0x2000"

definition DTAP_IsFrameSeqSmaller :: "u16w \<Rightarrow> u16w \<Rightarrow> bool" where
  "DTAP_IsFrameSeqSmaller own other \<longleftrightarrow>
     (own - other) AND DTAP_FRAME_SEQ_SIGN_MASK = DTAP_FRAME_SEQ_SIGN_MASK"

definition DTAP_GetNextFrameSeq :: "u16w \<Rightarrow> u16w" where
  "DTAP_GetNextFrameSeq s =
     (let nextSeq = s + 1 in if nextSeq > DTAP_FRAME_SEQ_MAX then 0 else nextSeq)"

text \<open>A sequence number proper has 14 bits.\<close>

definition is_seq :: "u16w \<Rightarrow> bool" where
  "is_seq s \<longleftrightarrow> s \<le> DTAP_FRAME_SEQ_MAX"

text \<open>The distance from a base, modulo \<open>2 ^ 14\<close>.\<close>

definition soff :: "u16w \<Rightarrow> u16w \<Rightarrow> nat" where
  "soff b s = nat ((uint s - uint b) mod 16384)"

text \<open>Insertion into a list ordered by sequence number, before the first element with a larger number, at
  the end when there is none.\<close>

fun insert_by_seq :: "('a \<Rightarrow> u16w) \<Rightarrow> 'a \<Rightarrow> 'a list \<Rightarrow> 'a list" where
  "insert_by_seq key x [] = [x]"
| "insert_by_seq key x (c # cs) = (if DTAP_IsFrameSeqSmaller (key x) (key c) then x # c # cs else c # insert_by_seq key x cs)"

section \<open>Transmission-mode registry\<close>

text \<open>The modes are the four tables of function pointers that the mode files register; a mode is
  identified by the number its \<open>getModeType\<close> returns. The registry is the array
  \<open>g_dtapTransMode\<close>.\<close>

datatype trans_mode = ModeBasic | ModeTransparent | ModeStream | ModeReliable

fun getModeType :: "trans_mode \<Rightarrow> nat" where
  "getModeType ModeBasic = 0"
| "getModeType ModeTransparent = 1"
| "getModeType ModeStream = 2"
| "getModeType ModeReliable = 3"

abbreviation (input) CM_TRANS_MODE_MAX :: nat where "CM_TRANS_MODE_MAX \<equiv> 4"

type_synonym mode_table = "trans_mode option list"

definition DTAP_RegisterTransMode :: "trans_mode option \<Rightarrow> mode_table \<Rightarrow> mode_table" where
  "DTAP_RegisterTransMode md tab =
     (case md of None \<Rightarrow> tab
      | Some x \<Rightarrow> if getModeType x < CM_TRANS_MODE_MAX then tab[getModeType x := Some x] else tab)"

definition DTAP_GetTransMode :: "nat \<Rightarrow> mode_table \<Rightarrow> trans_mode option" where
  "DTAP_GetTransMode modeType tab = (if modeType \<ge> CM_TRANS_MODE_MAX then None else tab ! modeType)"

section \<open>Timers\<close>

text \<open>\<open>CP_TimerAdd\<close> creates a timer descriptor and may fail; on success it stores a positive handle
  through its first argument, on failure it leaves it unchanged. \<open>armed\<close> records the timers that
  are running, with their period and handler.\<close>

datatype timer_cbk = RspTimerExpire | ReorderTimerExpire | RetransTimerExpire | StreamReorderExpire

record timers =
  tscript :: "bool list"
  tnext :: nat
  armed :: "(int \<times> nat \<times> timer_cbk) list"

abbreviation (input) INVALID_TIMER_HANDLE :: int where "INVALID_TIMER_HANDLE \<equiv> -1"

definition CP_TimerAdd :: "int \<Rightarrow> nat \<Rightarrow> timer_cbk \<Rightarrow> timers \<Rightarrow> bool \<times> int \<times> timers" where
  "CP_TimerAdd h expire cbk t =
     (case SDF_MemAlloc (tscript t) of (ok, sc) \<Rightarrow>
        if ok then (True, int (tnext t) + 1,
                    t\<lparr>tscript := sc, tnext := tnext t + 1,
                      armed := (int (tnext t) + 1, expire, cbk) # armed t\<rparr>)
        else (False, h, t\<lparr>tscript := sc\<rparr>))"

definition CP_TimerDel :: "int \<Rightarrow> timers \<Rightarrow> timers" where
  "CP_TimerDel h t = t\<lparr>armed := filter (\<lambda>(k, _). k \<noteq> h) (armed t)\<rparr>"

definition DTAP_TransStartTimer :: "int \<Rightarrow> nat \<Rightarrow> timer_cbk \<Rightarrow> timers \<Rightarrow> bool \<times> int \<times> timers" where
  "DTAP_TransStartTimer h expire cbk t = CP_TimerAdd h expire cbk t"

definition DTAP_TransStopTimer :: "int \<Rightarrow> timers \<Rightarrow> int \<times> timers" where
  "DTAP_TransStopTimer h t =
     (if h = INVALID_TIMER_HANDLE then (h, t) else (INVALID_TIMER_HANDLE, CP_TimerDel h t))"

definition DTAP_TransRestartTimer :: "int \<Rightarrow> nat \<Rightarrow> timer_cbk \<Rightarrow> timers \<Rightarrow> bool \<times> int \<times> timers" where
  "DTAP_TransRestartTimer h expire cbk t =
     (case DTAP_TransStopTimer h t of (h', t') \<Rightarrow> DTAP_TransStartTimer h' expire cbk t')"

section \<open>Serial arithmetic\<close>

lemma mod_diff_cases:
  fixes x y :: int
  assumes "0 \<le> x" "x < 16384" "0 \<le> y" "y < 16384"
  shows "(x - y) mod 16384 = (if y \<le> x then x - y else x - y + 16384)"
proof (cases "y \<le> x")
  case True
  then have "(x - y) mod 16384 = x - y"
    using assms by (intro mod_pos_pos_trivial) linarith+
  then show ?thesis using True by simp
next
  case False
  have "(x - y) mod 16384 = (x - y + 16384) mod 16384" by (simp only: mod_add_self2)
  also have "\<dots> = x - y + 16384"
    using False assms by (intro mod_pos_pos_trivial) linarith+
  finally show ?thesis using False by simp
qed

lemma mod_diff_0:
  fixes x y :: int
  assumes "(x - y) mod 16384 = 0" "0 \<le> x" "x < 16384" "0 \<le> y" "y < 16384"
  shows "x = y"
proof -
  have "y \<le> x \<Longrightarrow> x - y = 0" "\<not> y \<le> x \<Longrightarrow> x - y + 16384 = 0"
    using mod_diff_cases [of x y] assms by simp_all
  then show ?thesis using assms(2,5) by (cases "y \<le> x") linarith+
qed

lemma odd_div_iff: "odd (x div 8192) \<longleftrightarrow> 8192 \<le> x mod (16384 :: int)"
proof -
  have "x mod 16384 = 8192 * (x div 8192 mod 2) + x mod 8192"
    using zmod_zmult2_eq [of 2 x 8192] by simp
  moreover have "0 \<le> x mod 8192" "x mod 8192 < 8192" by simp_all
  moreover have "x div 8192 mod 2 = 0 \<or> x div 8192 mod 2 = 1" by (rule mod2_eq_if [of "x div 8192", THEN ssubst]) auto
  ultimately show ?thesis unfolding odd_iff_mod_2_eq_one by linarith
qed

lemma bit13_iff: "(w AND 0x2000 = (0x2000 :: u16w)) \<longleftrightarrow> 8192 \<le> uint w mod 16384"
proof -
  have m: "(0x2000 :: u16w) = push_bit 13 1" by simp
  have "(w AND 0x2000 = (0x2000 :: u16w)) \<longleftrightarrow> bit w 13"
  proof
    assume a: "w AND 0x2000 = (0x2000 :: u16w)"
    have "bit (0x2000 :: u16w) 13" unfolding m by (simp only: bit_push_bit_iff) simp
    with a have "bit (w AND 0x2000 :: u16w) 13" by (simp only:)
    then show "bit w 13" by (simp only: bit_and_iff)
  next
    assume b: "bit w 13"
    show "w AND 0x2000 = (0x2000 :: u16w)"
      unfolding m by (rule bit_word_eqI, simp only: bit_and_iff bit_push_bit_iff bit_1_iff)
        (use b in \<open>auto dest: le_antisym\<close>)
  qed
  also have "\<dots> \<longleftrightarrow> bit (uint w) 13" by (simp add: bit_uint_iff)
  also have "\<dots> \<longleftrightarrow> odd (uint w div 8192)" by (simp add: bit_iff_odd)
  also have "\<dots> \<longleftrightarrow> 8192 \<le> uint w mod 16384" by (rule odd_div_iff)
  finally show ?thesis .
qed

lemma uint_mod_sub: "uint (s - t :: u16w) mod 16384 = (uint s - uint t) mod 16384"
proof -
  have "uint (s - t) = (uint s - uint t) mod 65536"
    by (simp add: uint_word_ariths)
  then have "uint (s - t) mod 16384 = (uint s - uint t) mod 65536 mod 16384" by simp
  also have "\<dots> = (uint s - uint t) mod 16384" by (rule mod_mod_cancel) simp
  finally show ?thesis .
qed

lemma soff_less [simp]: "soff b s < 16384"
  by (simp add: soff_def nat_less_iff)

lemma int_soff: "int (soff b s) = (uint s - uint b) mod 16384"
  by (simp add: soff_def)

lemma soff_self [simp]: "soff b b = 0"
  by (simp add: soff_def)

lemma smaller_int: "DTAP_IsFrameSeqSmaller s t \<longleftrightarrow> 8192 \<le> (uint s - uint t) mod 16384"
  unfolding DTAP_IsFrameSeqSmaller_def bit13_iff uint_mod_sub ..

lemma smaller_soff: "DTAP_IsFrameSeqSmaller s t \<longleftrightarrow> 8192 \<le> soff t s"
  unfolding smaller_int int_soff [symmetric] by simp

lemma diff_soff: "(uint s - uint t) mod 16384 = (int (soff b s) - int (soff b t)) mod 16384"
proof -
  have "(int (soff b s) - int (soff b t)) mod 16384
      = ((uint s - uint b) - (uint t - uint b)) mod 16384"
    unfolding int_soff by (rule mod_diff_eq)
  then show ?thesis by simp
qed

lemma smaller_iff [seq_simps]:
  assumes "soff b s < 8192" "soff b t < 8192"
  shows "DTAP_IsFrameSeqSmaller s t \<longleftrightarrow> soff b s < soff b t"
proof -
  have "int (soff b s) < 16384" "int (soff b t) < 16384" using soff_less by simp_all
  then show ?thesis
    unfolding smaller_int diff_soff [of s t b]
    using mod_diff_cases [of "int (soff b s)" "int (soff b t)"] assms by (simp split: if_splits)
qed

text \<open>Up to one half of the number space on either side of a pivot.\<close>

lemma smaller_iff_wide:
  assumes "soff b s \<le> soff b t + 8191" "soff b t \<le> soff b s + 8192"
  shows "DTAP_IsFrameSeqSmaller s t \<longleftrightarrow> soff b s < soff b t"
proof -
  have "int (soff b s) < 16384" "int (soff b t) < 16384" using soff_less by simp_all
  then show ?thesis
    unfolding smaller_int diff_soff [of s t b]
    using mod_diff_cases [of "int (soff b s)" "int (soff b t)"] assms by (simp split: if_splits)
qed

lemma is_seq_uint: "is_seq s \<longleftrightarrow> uint s < 16384"
proof -
  have "s \<le> DTAP_FRAME_SEQ_MAX \<longleftrightarrow> uint s \<le> 16383" by (simp add: word_le_def)
  then show ?thesis unfolding is_seq_def by linarith
qed

lemma soff_inj:
  assumes "is_seq s" "is_seq t" "soff b s = soff b t"
  shows "s = t"
proof -
  have "(uint s - uint t) mod 16384 = 0"
    unfolding diff_soff [of s t b] using assms(3) by simp
  moreover have "0 \<le> uint s" "uint s < 16384" "0 \<le> uint t" "uint t < 16384"
    using assms(1,2) by (simp_all add: is_seq_uint)
  ultimately have "uint s = uint t" by (rule mod_diff_0)
  then show ?thesis by (simp add: word_uint_eq_iff)
qed

lemma soff_inj_iff [seq_simps]:
  "is_seq s \<Longrightarrow> is_seq t \<Longrightarrow> s = t \<longleftrightarrow> soff b s = soff b t"
  using soff_inj by blast

lemma uint_next: "is_seq s \<Longrightarrow> uint (DTAP_GetNextFrameSeq s) = (uint s + 1) mod 16384"
proof -
  assume "is_seq s"
  then have s: "0 \<le> uint s" "uint s < 16384" by (simp_all add: is_seq_uint)
  have p: "uint (s + 1) = uint s + 1"
    using s by (simp add: uint_word_ariths)
  show ?thesis
  proof (cases "uint s = 16383")
    case True
    then have "s + 1 > DTAP_FRAME_SEQ_MAX" by (simp add: word_less_def p)
    then show ?thesis using True by (simp add: DTAP_GetNextFrameSeq_def Let_def)
  next
    case False
    then have "\<not> s + 1 > DTAP_FRAME_SEQ_MAX" using s by (simp add: word_less_def p)
    then show ?thesis using False s by (simp add: DTAP_GetNextFrameSeq_def Let_def p)
  qed
qed

lemma is_seq_next [simp]: "is_seq s \<Longrightarrow> is_seq (DTAP_GetNextFrameSeq s)"
  by (simp add: is_seq_uint uint_next)

lemma soff_next_mod: "is_seq s \<Longrightarrow> soff b (DTAP_GetNextFrameSeq s) = (soff b s + 1) mod 16384"
proof -
  assume "is_seq s"
  then have "int (soff b (DTAP_GetNextFrameSeq s)) = ((uint s + 1) mod 16384 - uint b) mod 16384"
    by (simp only: int_soff uint_next)
  also have "\<dots> = ((uint s + 1) - uint b) mod 16384" by (rule mod_diff_left_eq)
  also have "\<dots> = ((uint s - uint b) + 1) mod 16384" by (simp only: diff_add_eq)
  also have "\<dots> = ((uint s - uint b) mod 16384 + 1) mod 16384" by (rule mod_add_left_eq [symmetric])
  also have "\<dots> = int ((soff b s + 1) mod 16384)"
    unfolding int_soff [symmetric] by (simp add: zmod_int add.commute)
  finally show ?thesis by linarith
qed

lemma soff_next [seq_simps]:
  "is_seq s \<Longrightarrow> soff b s < 16383 \<Longrightarrow> soff b (DTAP_GetNextFrameSeq s) = soff b s + 1"
  by (simp add: soff_next_mod)

lemma soff_rebase_mod: "soff b' s = (soff b s + soff b' b) mod 16384"
proof -
  have "int (soff b' s) = ((uint s - uint b) + (uint b - uint b')) mod 16384"
    by (simp add: int_soff)
  also have "\<dots> = int ((soff b s + soff b' b) mod 16384)"
    by (simp add: zmod_int int_soff mod_add_eq)
  finally show ?thesis by linarith
qed

lemma soff_base_next:
  assumes "is_seq b" "0 < soff b s"
  shows "soff (DTAP_GetNextFrameSeq b) s = soff b s - 1"
proof -
  have n: "soff b (DTAP_GetNextFrameSeq b) = 1" using assms(1) by (simp add: soff_next_mod)
  have "soff b s = (soff (DTAP_GetNextFrameSeq b) s + 1) mod 16384"
    using soff_rebase_mod [of b s "DTAP_GetNextFrameSeq b"] n by simp
  moreover have "soff (DTAP_GetNextFrameSeq b) s < 16384" by simp
  ultimately show ?thesis
    using assms(2) by (cases "soff (DTAP_GetNextFrameSeq b) s = 16383") auto
qed

section \<open>Frame numbers\<close>

text \<open>The frames of a channel are counted from zero; frame \<open>k\<close> carries the sequence number \<open>seqn k\<close>.\<close>

definition seqn :: "nat \<Rightarrow> u16w" where
  "seqn k = of_nat (k mod 16384)"

lemma uint_seqn: "uint (seqn k) = int k mod 16384"
proof -
  have "uint (seqn k) = int (k mod 16384) mod 65536" by (simp add: seqn_def uint_word_of_int_eq unsigned_of_nat take_bit_eq_mod zmod_int)
  also have "\<dots> = int (k mod 16384)"
  proof (rule mod_pos_pos_trivial)
    have "k mod 16384 < 16384" by simp
    then show "int (k mod 16384) < 65536" by linarith
  qed simp
  finally show ?thesis by (simp add: zmod_int)
qed

lemma is_seq_seqn [simp]: "is_seq (seqn k)"
  by (simp add: is_seq_uint uint_seqn)

lemma next_seqn [simp]: "DTAP_GetNextFrameSeq (seqn k) = seqn (Suc k)"
proof -
  have "uint (DTAP_GetNextFrameSeq (seqn k)) = (int k mod 16384 + 1) mod 16384" by (simp only: uint_next is_seq_seqn uint_seqn)
  also have "\<dots> = (int k + 1) mod 16384" by (rule mod_add_left_eq)
  also have "\<dots> = uint (seqn (Suc k))" by (simp only: uint_seqn of_nat_Suc add.commute)
  finally show ?thesis by (simp only: word_uint_eq_iff)
qed

lemma int_mod_window:
  fixes d :: int
  assumes "-8192 \<le> d" "d < 8192"
  shows "8192 \<le> d mod 16384 \<longleftrightarrow> d < 0"
proof (cases "d < 0")
  case True
  have "d mod 16384 = (d + 16384) mod 16384" by (simp only: mod_add_self2)
  also have "\<dots> = d + 16384" using True assms by (intro mod_pos_pos_trivial) linarith+
  finally show ?thesis using True assms by linarith
next
  case False
  then have "d mod 16384 = d" using assms by (intro mod_pos_pos_trivial) linarith+
  then show ?thesis using False assms by linarith
qed

lemma smaller_seqn:
  assumes "a < b + 8192" "b \<le> a + 8192"
  shows "DTAP_IsFrameSeqSmaller (seqn a) (seqn b) \<longleftrightarrow> a < b"
proof -
  have "(uint (seqn a) - uint (seqn b)) mod 16384 = (int a - int b) mod 16384"
    unfolding uint_seqn by (rule mod_diff_eq)
  then show ?thesis unfolding smaller_int using int_mod_window [of "int a - int b"] assms by simp
qed

lemma seqn_eq_iff:
  assumes "a < b + 16384" "b < a + 16384"
  shows "seqn a = seqn b \<longleftrightarrow> a = b"
proof
  assume "seqn a = seqn b"
  then have "int a mod 16384 = int b mod 16384" using uint_seqn by metis
  then have "int (a mod 16384) = int (b mod 16384)" by (simp only: zmod_int of_nat_numeral)
  then have "a mod 16384 = b mod 16384" by (simp only: of_nat_eq_iff)
  then have e: "16384 * (a div 16384) + a mod 16384 = a" "16384 * (b div 16384) + a mod 16384 = b"
    by (metis mult_div_mod_eq, metis mult_div_mod_eq)
  have "a div 16384 < b div 16384 + 1" "b div 16384 < a div 16384 + 1" using assms e by linarith+
  then show "a = b" using e by linarith
qed simp

lemma seqn_boundary: "(seqn b + of_nat n) AND DTAP_FRAME_SEQ_MAX = seqn (b + n)"
proof -
  have m: "(0x3FFF :: u16w) = mask 14" by (simp add: mask_eq_exp_minus_1)
  have "uint ((seqn b + of_nat n) AND DTAP_FRAME_SEQ_MAX) = uint (seqn b + of_nat n :: u16w) mod 16384"
    unfolding m by (simp flip: take_bit_eq_mask add: unsigned_take_bit_eq) (simp add: take_bit_eq_mod)
  also have "uint (seqn b + of_nat n :: u16w) = (int b mod 16384 + int n mod 65536) mod 65536"
    by (simp add: uint_word_ariths uint_seqn unsigned_of_nat take_bit_eq_mod zmod_int)
  also have "(int b mod 16384 + int n mod 65536) mod 65536 mod 16384 = (int b mod 16384 + int n mod 65536) mod 16384"
    by (rule mod_mod_cancel) simp
  also have "\<dots> = (int b + int n mod 65536) mod 16384" by (rule mod_add_left_eq)
  also have "\<dots> = (int b + int n mod 65536 mod 16384) mod 16384" by (rule mod_add_right_eq [symmetric])
  also have "int n mod 65536 mod 16384 = int n mod 16384" by (rule mod_mod_cancel) simp
  also have "(int b + int n mod 16384) mod 16384 = (int b + int n) mod 16384" by (rule mod_add_right_eq)
  also have "\<dots> = uint (seqn (b + n))" by (simp only: uint_seqn of_nat_add)
  finally show ?thesis by (simp only: word_uint_eq_iff)
qed

text \<open>Sequence numbers order frames across the wrap. As long as two frames are at most half of the
  number space apart, \<open>DTAP_IsFrameSeqSmaller\<close> on their 14-bit numbers says which of them is earlier, and
  numbers that are less than the whole space apart are equal only for the same frame;
  \<open>DTAP_GetNextFrameSeq\<close> is the number of the following frame, and the window boundary the reliable mode
  computes by masking is the number of the frame that many positions later.\<close>
lemma frame_seq_serial_order:
  assumes "a < b + 8192" "b \<le> a + 8192"
  shows "(DTAP_IsFrameSeqSmaller (seqn a) (seqn b) \<longleftrightarrow> a < b) \<and> (seqn a = seqn b \<longleftrightarrow> a = b) \<and>
    DTAP_GetNextFrameSeq (seqn a) = seqn (a + 1) \<and> (seqn b + of_nat n) AND DTAP_FRAME_SEQ_MAX = seqn (b + n)"
  using assms by (simp add: smaller_seqn seqn_eq_iff seqn_boundary)

section \<open>Timers of a channel\<close>

text \<open>Handles in use are not above the counter.\<close>

definition wf_timers :: "timers \<Rightarrow> bool" where
  "wf_timers t \<longleftrightarrow> (\<forall>x\<in>set (armed t). fst x \<le> int (tnext t))"

text \<open>Restarting a timer replaces it. Whatever the handle was, afterwards the timer it named is not
  running; when the new timer could be created, it runs with the given period and handler under a handle
  no other timer has, and all other timers run on unchanged; when it could not, the handle is the invalid
  one, so that the channel does not refer to a timer that does not exist.\<close>
lemma restart_timer_replaces:
  assumes "wf_timers t" "DTAP_TransRestartTimer h expire cbk t = (ok, h', t')" "h \<noteq> INVALID_TIMER_HANDLE"
  shows "let others = filter (\<lambda>(k, _). k \<noteq> h) (armed t) in
    (ok \<longrightarrow> armed t' = (h', expire, cbk) # others \<and> h' \<notin> fst ` set (armed t) \<and> h' \<noteq> INVALID_TIMER_HANDLE) \<and>
    (\<not> ok \<longrightarrow> armed t' = others \<and> h' = INVALID_TIMER_HANDLE) \<and> wf_timers t'"
proof -
  have f: "int (tnext t) + 1 \<notin> fst ` set (armed t)" using assms(1) by (force simp: wf_timers_def)
  show ?thesis
    using assms f
    by (auto simp: DTAP_TransRestartTimer_def DTAP_TransStopTimer_def CP_TimerDel_def DTAP_TransStartTimer_def CP_TimerAdd_def
        Let_def wf_timers_def split: prod.splits if_splits) fastforce+
qed

end
