(* ===== verification/Dtap_Frame.thy ===== *)
theory Dtap_Frame
  imports Dtap_Types Dtap_Seq Crc16 Sdf_Buff
begin

text \<open>
  Frames of the data plane: \<^verbatim>\<open>services/stack/src/dp/dtap/src/dtap_frame.c\<close>, \<^verbatim>\<open>dtap_frame_basic.c\<close> and
  \<^verbatim>\<open>dtap_frame_enhance.c\<close>, with the layouts of \<^verbatim>\<open>dtap_frame.h\<close>. Headers are packed and little
  endian; bit fields are allocated from the least significant bit, as the supported compilers do.
  Pointers into a frame's buffer (\<open>header\<close>, \<open>extension\<close>, \<open>payload\<close>) are offsets into its block.
  The two members of the union in \<open>DTAP_Frame_S\<close> are separate fields: \<open>ack\<close> is used for
  acknowledgement frames only, \<open>enhance\<close> for the others.
\<close>

section \<open>Frame structure\<close>

text \<open>The tables of function pointers that \<open>DTAP_RegisterFrameCtx\<close> collects, one per frame type.\<close>

datatype frame_ctx = CtxBasic | CtxSimplexAggr | CtxSimplexFrag | CtxDuplexAggr | CtxDuplexFrag | CtxAck

abbreviation (input) DTAP_FRAME_BASIC :: nat where "DTAP_FRAME_BASIC \<equiv> 0"
abbreviation (input) DTAP_FRAME_SIMPLEX_AGGR :: nat where "DTAP_FRAME_SIMPLEX_AGGR \<equiv> 1"
abbreviation (input) DTAP_FRAME_SIMPLEX_FRAG :: nat where "DTAP_FRAME_SIMPLEX_FRAG \<equiv> 2"
abbreviation (input) DTAP_FRAME_DUPLEX_AGGR :: nat where "DTAP_FRAME_DUPLEX_AGGR \<equiv> 3"
abbreviation (input) DTAP_FRAME_DUPLEX_FRAG :: nat where "DTAP_FRAME_DUPLEX_FRAG \<equiv> 4"
abbreviation (input) DTAP_FRAME_ACK :: nat where "DTAP_FRAME_ACK \<equiv> 5"
abbreviation (input) DTAP_FRAME_MAX :: nat where "DTAP_FRAME_MAX \<equiv> 8"

abbreviation (input) DTAP_SAR_UNSEG :: nat where "DTAP_SAR_UNSEG \<equiv> 0"
abbreviation (input) DTAP_SAR_FIRST :: nat where "DTAP_SAR_FIRST \<equiv> 1"
abbreviation (input) DTAP_SAR_MID :: nat where "DTAP_SAR_MID \<equiv> 2"
abbreviation (input) DTAP_SAR_LAST :: nat where "DTAP_SAR_LAST \<equiv> 3"

abbreviation (input) DTAP_FRAME_O_BIT :: byte where "DTAP_FRAME_O_BIT \<equiv> 1"
abbreviation (input) DTAP_FRAME_C_BIT :: byte where "DTAP_FRAME_C_BIT \<equiv> 2"
abbreviation (input) DTAP_FRAME_P_BIT :: byte where "DTAP_FRAME_P_BIT \<equiv> 4"
abbreviation (input) DTAP_FRAME_F_BIT :: byte where "DTAP_FRAME_F_BIT \<equiv> 8"

abbreviation (input) DTAP_CRC_LEN :: nat where "DTAP_CRC_LEN \<equiv> 2"
abbreviation (input) DTAP_BASIC_HEADER_LEN :: nat where "DTAP_BASIC_HEADER_LEN \<equiv> 4"
abbreviation (input) DTAP_MAX_FRAGMENT_NUM :: nat where "DTAP_MAX_FRAGMENT_NUM \<equiv> 128"
abbreviation (input) DTAP_EXTENSIONS_MAX_NUM :: nat where "DTAP_EXTENSIONS_MAX_NUM \<equiv> 16"

fun getFrameType :: "frame_ctx \<Rightarrow> nat" where
  "getFrameType CtxBasic = DTAP_FRAME_BASIC"
| "getFrameType CtxSimplexAggr = DTAP_FRAME_SIMPLEX_AGGR"
| "getFrameType CtxSimplexFrag = DTAP_FRAME_SIMPLEX_FRAG"
| "getFrameType CtxDuplexAggr = DTAP_FRAME_DUPLEX_AGGR"
| "getFrameType CtxDuplexFrag = DTAP_FRAME_DUPLEX_FRAG"
| "getFrameType CtxAck = DTAP_FRAME_ACK"

fun getHeaderLen :: "frame_ctx \<Rightarrow> nat" where
  "getHeaderLen CtxBasic = 4"
| "getHeaderLen CtxSimplexAggr = 7"
| "getHeaderLen CtxSimplexFrag = 7"
| "getHeaderLen CtxDuplexAggr = 9"
| "getHeaderLen CtxDuplexFrag = 9"
| "getHeaderLen CtxAck = 6"

record DTAP_Frame =
  fbuff :: "SDF_Buff option"
  fheader :: "nat option"
  fextension :: "nat option"
  fpayload :: "nat option"
  fbits :: byte
  fpi :: byte
  ack_reqSeq :: u16w
  ack_sBit :: bool
  reTxCnt :: nat
  sar :: nat
  txSeq :: u16w
  reqSeq :: u16w
  headerLen :: nat
  extensionLen :: nat
  payloadLen :: nat
  fctx :: frame_ctx

text \<open>A frame cleared by \<^verbatim>\<open>SDF_MemZalloc\<close> or \<^verbatim>\<open>= {0}\<close>, with its context set.\<close>

definition frame0 :: "frame_ctx \<Rightarrow> DTAP_Frame" where
  "frame0 c = \<lparr>fbuff = None, fheader = None, fextension = None, fpayload = None, fbits = 0, fpi = 0,
     ack_reqSeq = 0, ack_sBit = False, reTxCnt = 0, sar = 0, txSeq = 0, reqSeq = 0,
     headerLen = 0, extensionLen = 0, payloadLen = 0, fctx = c\<rparr>"

section \<open>Registry, creation and copies\<close>

type_synonym ctx_table = "frame_ctx option list"

definition DTAP_RegisterFrameCtx :: "frame_ctx option \<Rightarrow> ctx_table \<Rightarrow> ctx_table" where
  "DTAP_RegisterFrameCtx c tab =
     (case c of None \<Rightarrow> tab
      | Some x \<Rightarrow> if getFrameType x < DTAP_FRAME_MAX then tab[getFrameType x := Some x] else tab)"

definition DTAP_RegisterBasicFrameCtx :: "ctx_table \<Rightarrow> ctx_table" where
  "DTAP_RegisterBasicFrameCtx tab = DTAP_RegisterFrameCtx (Some CtxBasic) tab"

definition DTAP_RegisterEnhanceFrameCtx :: "ctx_table \<Rightarrow> ctx_table" where
  "DTAP_RegisterEnhanceFrameCtx tab =
     foldl (\<lambda>t c. DTAP_RegisterFrameCtx (Some c) t) tab
       [CtxSimplexAggr, CtxSimplexFrag, CtxDuplexAggr, CtxDuplexFrag, CtxAck]"

definition DTAP_GetFrameCtx :: "nat \<Rightarrow> ctx_table \<Rightarrow> frame_ctx option" where
  "DTAP_GetFrameCtx frameType tab = (if frameType \<ge> DTAP_FRAME_MAX then None else tab ! frameType)"

text \<open>The table once \<open>DTAP_Init\<close> has registered every frame type; the operations below run on it.\<close>

definition g_dtapFrameCtx :: ctx_table where
  "g_dtapFrameCtx = DTAP_RegisterEnhanceFrameCtx (DTAP_RegisterBasicFrameCtx (replicate DTAP_FRAME_MAX None))"

definition DTAP_CreateFrame :: "nat \<Rightarrow> mem \<Rightarrow> DTAP_Frame option \<times> mem" where
  "DTAP_CreateFrame frameType m =
     (case DTAP_GetFrameCtx frameType g_dtapFrameCtx of
        None \<Rightarrow> (None, m)
      | Some c \<Rightarrow> (case SDF_MemAlloc m of (ok, m') \<Rightarrow> (if ok then Some (frame0 c) else None, m')))"

definition DTAP_CopyFrame :: "DTAP_Frame \<Rightarrow> mem \<Rightarrow> DTAP_Frame option \<times> mem" where
  "DTAP_CopyFrame src m =
     (case SDF_MemAlloc m of (ok, m1) \<Rightarrow>
        if \<not> ok then (None, m1)
        else let dst = src\<lparr>fheader := None, fextension := None, fpayload := None\<rparr> in
          case fbuff src of
            None \<Rightarrow> (Some dst, m1)
          | Some sb \<Rightarrow>
             (case SDF_BuffCopy sb m1 of
                (None, m2) \<Rightarrow> (None, m2)
              | (Some b, m2) \<Rightarrow>
                  (case fheader src of
                     None \<Rightarrow> (Some (dst\<lparr>fbuff := Some b\<rparr>), m2)
                   | Some _ \<Rightarrow>
                       (Some (dst\<lparr>fbuff := Some b, fheader := Some (dataOff b),
                          fextension := (if fextension src = None then None
                                         else Some (dataOff b + headerLen dst)),
                          fpayload := (if fpayload src = None then None
                                       else Some (dataOff b + headerLen dst + extensionLen dst))\<rparr>), m2))))"

section \<open>Header access\<close>

text \<open>Reading \<open>n\<close> bytes at an offset of the block: defined when they lie within the data.\<close>

definition rdn :: "SDF_Buff \<Rightarrow> nat \<Rightarrow> nat \<Rightarrow> byte list option" where
  "rdn b off n =
     (if dataOff b \<le> off \<and> off + n \<le> dataOff b + dataLen b \<and> off + n \<le> length (bytes b)
      then Some (take n (drop off (bytes b))) else None)"

definition DTAP_CheckFrameBit :: "byte \<Rightarrow> byte \<Rightarrow> bool" where
  "DTAP_CheckFrameBit bs b \<longleftrightarrow> bs AND b \<noteq> 0"

definition typeBits :: "nat \<Rightarrow> bool \<Rightarrow> bool \<Rightarrow> bool \<Rightarrow> bool \<Rightarrow> byte" where
  "typeBits ft o_bit c_bit p_bit f_bit =
     (of_nat ft AND 0x0F) OR (if o_bit then 0x10 else 0) OR (if c_bit then 0x20 else 0) OR
     (if p_bit then 0x40 else 0) OR (if f_bit then 0x80 else 0)"

definition seq_sar :: "u16w \<Rightarrow> nat \<Rightarrow> u16w" where
  "seq_sar s sa = (s AND 0x3FFF) OR push_bit 14 (of_nat sa AND 3)"

definition DTAP_SetFrameBit :: "byte \<Rightarrow> byte \<Rightarrow> byte" where
  "DTAP_SetFrameBit tb bs =
     (tb AND 0x0F) OR (if DTAP_CheckFrameBit bs DTAP_FRAME_O_BIT then 0x10 else 0)
     OR (if DTAP_CheckFrameBit bs DTAP_FRAME_C_BIT then 0x20 else 0)
     OR (if DTAP_CheckFrameBit bs DTAP_FRAME_P_BIT then 0x40 else 0)
     OR (if DTAP_CheckFrameBit bs DTAP_FRAME_F_BIT then 0x80 else 0)"

definition DTAP_ReCalculateCrcValue :: "u16w \<Rightarrow> DTAP_Frame \<Rightarrow> dtap_ret \<times> DTAP_Frame" where
  "DTAP_ReCalculateCrcValue crcInit fr =
     (case fbuff fr of
        None \<Rightarrow> (DTAP_FRAME_NULL_PTR_ERR, fr)
      | Some b \<Rightarrow>
          if dataLen b < DTAP_CRC_LEN then (DTAP_FRAME_INVALID_BUFF_LEN, fr)
          else let realDataLen = dataLen b - DTAP_CRC_LEN;
                   b1 = buff_write (dataOff b + realDataLen) [0, 0] b;
                   newCrc = CRC16 crcInit (take realDataLen (buff_data b1))
               in (DTAP_SUCCESS,
                   fr\<lparr>fbuff := Some (buff_write (dataOff b + realDataLen) (ENCODE2BYTE_LITTLE newCrc) b1)\<rparr>))"

section \<open>Parsing\<close>

text \<open>The loop of \<open>DTAP_ParseExtension\<close> over the remaining extensions: \<open>off\<close> is the position of the
  next one, \<open>dlen\<close> the bytes from the extension header on, \<open>elen\<close> what was consumed of them.\<close>

fun parse_extensions :: "nat \<Rightarrow> SDF_Buff \<Rightarrow> nat \<Rightarrow> nat \<Rightarrow> nat \<Rightarrow> dtap_ret \<times> nat" where
  "parse_extensions 0 b off dlen elen = (DTAP_SUCCESS, elen)"
| "parse_extensions (Suc k) b off dlen elen =
     (if dlen < elen \<or> dlen - elen < 2 then (DTAP_FRAME_INVALID_EXT_LEN, elen)
      else case rdn b (off + 1) 1 of
        Some [l] \<Rightarrow>
          (if dlen < u16 (elen + 2) \<or> dlen - u16 (elen + 2) < unat l then (DTAP_FRAME_INVALID_EXT_LEN, elen)
           else parse_extensions k b (off + 2 + unat l) dlen (u16 (u16 (elen + 2) + unat l)))
      | _ \<Rightarrow> (MemFault, elen))"

definition DTAP_ParseExtension :: "DTAP_Frame \<Rightarrow> dtap_ret \<times> DTAP_Frame" where
  "DTAP_ParseExtension fr =
     (case (fbuff fr, fheader fr) of
        (Some b, Some h) \<Rightarrow>
          if dataLen b < headerLen fr then (DTAP_FRAME_INVALID_BUFF_LEN, fr)
          else let dlen = u16 (dataLen b - headerLen fr) in
            if dlen < 1 then (DTAP_FRAME_INVALID_EXT_HDR_LEN, fr)
            else let fr1 = fr\<lparr>fextension := Some (h + headerLen fr)\<rparr> in
              (case rdn b (h + headerLen fr) 1 of
                 Some [num] \<Rightarrow>
                   if unat num > DTAP_EXTENSIONS_MAX_NUM then (DTAP_FRAME_INVALID_EXT_NUM, fr1)
                   else (case parse_extensions (unat num) b (h + headerLen fr + 1) dlen 1 of
                           (ret, elen) \<Rightarrow>
                             if ret = DTAP_SUCCESS then (DTAP_SUCCESS, fr1\<lparr>extensionLen := elen\<rparr>)
                             else (ret, fr1))
               | _ \<Rightarrow> (MemFault, fr1))
      | _ \<Rightarrow> (DTAP_FRAME_NULL_PTR_ERR, fr))"

definition DTAP_ParseBasicFrame :: "DTAP_Frame \<Rightarrow> dtap_ret \<times> DTAP_Frame" where
  "DTAP_ParseBasicFrame fr =
     (case (fbuff fr, fheader fr) of
        (Some b, Some h) \<Rightarrow>
          (case rdn b h 1 of
             Some [tcid] \<Rightarrow>
               if tcid \<le> TCID_FTC_RFU_END
               then (DTAP_SUCCESS, fr\<lparr>fpi := DTAP_PI_NONE, headerLen := 4,
                       payloadLen := u16 (sub64 (dataLen b) 4)\<rparr>)
               else if dataLen b < 5 then (DTAP_BASIC_FRAME_INVALID_PI_LEN, fr)
               else (case rdn b (h + 4) 1 of
                       Some [p] \<Rightarrow> (DTAP_SUCCESS, fr\<lparr>fpi := p, headerLen := 5,
                                      payloadLen := u16 (sub64 (sub64 (dataLen b) 4) 1)\<rparr>)
                     | _ \<Rightarrow> (MemFault, fr))
           | _ \<Rightarrow> (MemFault, fr))
      | _ \<Rightarrow> (MemFault, fr))"

definition DTAP_ParseEnhanceFrame :: "DTAP_Frame \<Rightarrow> dtap_ret \<times> DTAP_Frame" where
  "DTAP_ParseEnhanceFrame fr =
     (case (fbuff fr, fheader fr) of
        (Some b, Some h) \<Rightarrow>
          let hl = getHeaderLen (fctx fr) in
          if dataLen b < hl then (DTAP_ENHANCED_FRAME_HDR_LEN_TOO_SHORT, fr)
          else (case rdn b h 5 of
            Some [tcid, tb, len0, len1, p] \<Rightarrow>
              let fr1 = fr\<lparr>fbits := drop_bit 4 tb, fpi := p, headerLen := hl\<rparr>;
                  ext = (if tb AND 0x10 \<noteq> 0 then DTAP_ParseExtension fr1 else (DTAP_SUCCESS, fr1))
              in (case ext of (ret, fr2) \<Rightarrow>
                    if ret \<noteq> DTAP_SUCCESS then (ret, fr2)
                    else let pl = u16 (sub64 (sub64 (dataLen b) (headerLen fr2)) (extensionLen fr2));
                             fr3 = fr2\<lparr>fpayload := Some (h + headerLen fr2 + extensionLen fr2), payloadLen := pl\<rparr>
                         in if pl < DTAP_CRC_LEN then (DTAP_ENHANCED_FRAME_LENGTH_TOO_SHORT, fr3)
                            else (DTAP_SUCCESS, fr3\<lparr>payloadLen := pl - DTAP_CRC_LEN\<rparr>))
          | _ \<Rightarrow> (MemFault, fr))
      | _ \<Rightarrow> (MemFault, fr))"

text \<open>The sequence-number words behind the common header.\<close>

definition rd_word :: "DTAP_Frame \<Rightarrow> nat \<Rightarrow> u16w option" where
  "rd_word fr i =
     (case (fbuff fr, fheader fr) of
        (Some b, Some h) \<Rightarrow> (case rdn b (h + i) 2 of Some [x, y] \<Rightarrow> Some (DECODE2BYTE_LITTLE x y) | _ \<Rightarrow> None)
      | _ \<Rightarrow> None)"

definition DTAP_ParseSimplexAggrFrame :: "DTAP_Frame \<Rightarrow> dtap_ret \<times> DTAP_Frame" where
  "DTAP_ParseSimplexAggrFrame fr =
     (case DTAP_ParseEnhanceFrame fr of (ret, fr1) \<Rightarrow>
        if ret \<noteq> DTAP_SUCCESS then (ret, fr1)
        else (case rd_word fr1 5 of
                Some w \<Rightarrow> (DTAP_SUCCESS, fr1\<lparr>txSeq := w AND 0x3FFF, reqSeq := DTAP_FRAME_SEQ_INIT\<rparr>)
              | None \<Rightarrow> (MemFault, fr1)))"

definition DTAP_ParseSimplexFragFrame :: "DTAP_Frame \<Rightarrow> dtap_ret \<times> DTAP_Frame" where
  "DTAP_ParseSimplexFragFrame fr =
     (case DTAP_ParseEnhanceFrame fr of (ret, fr1) \<Rightarrow>
        if ret \<noteq> DTAP_SUCCESS then (ret, fr1)
        else (case rd_word fr1 5 of
                Some w \<Rightarrow> (DTAP_SUCCESS, fr1\<lparr>sar := unat (drop_bit 14 w), txSeq := w AND 0x3FFF,
                             reqSeq := DTAP_FRAME_SEQ_INIT\<rparr>)
              | None \<Rightarrow> (MemFault, fr1)))"

definition DTAP_ParseDuplexAggrFrame :: "DTAP_Frame \<Rightarrow> dtap_ret \<times> DTAP_Frame" where
  "DTAP_ParseDuplexAggrFrame fr =
     (case DTAP_ParseEnhanceFrame fr of (ret, fr1) \<Rightarrow>
        if ret \<noteq> DTAP_SUCCESS then (ret, fr1)
        else (case (rd_word fr1 5, rd_word fr1 7) of
                (Some w, Some v) \<Rightarrow> (DTAP_SUCCESS, fr1\<lparr>txSeq := w AND 0x3FFF, reqSeq := v AND 0x3FFF\<rparr>)
              | _ \<Rightarrow> (MemFault, fr1)))"

definition DTAP_ParseDuplexFragFrame :: "DTAP_Frame \<Rightarrow> dtap_ret \<times> DTAP_Frame" where
  "DTAP_ParseDuplexFragFrame fr =
     (case DTAP_ParseEnhanceFrame fr of (ret, fr1) \<Rightarrow>
        if ret \<noteq> DTAP_SUCCESS then (ret, fr1)
        else (case (rd_word fr1 5, rd_word fr1 7) of
                (Some w, Some v) \<Rightarrow> (DTAP_SUCCESS, fr1\<lparr>sar := unat (drop_bit 14 w),
                                       txSeq := w AND 0x3FFF, reqSeq := v AND 0x3FFF\<rparr>)
              | _ \<Rightarrow> (MemFault, fr1)))"

definition DTAP_ParseAckFrame :: "DTAP_Frame \<Rightarrow> dtap_ret \<times> DTAP_Frame" where
  "DTAP_ParseAckFrame fr =
     (case DTAP_ParseEnhanceFrame fr of (ret, fr1) \<Rightarrow>
        if ret \<noteq> DTAP_SUCCESS then (ret, fr1)
        else (case rd_word fr1 4 of
                Some w \<Rightarrow> (DTAP_SUCCESS, fr1\<lparr>ack_reqSeq := w AND 0x3FFF, ack_sBit := (w AND 0x4000 \<noteq> 0)\<rparr>)
              | None \<Rightarrow> (MemFault, fr1)))"

fun parseFrame :: "frame_ctx \<Rightarrow> DTAP_Frame \<Rightarrow> dtap_ret \<times> DTAP_Frame" where
  "parseFrame CtxBasic = DTAP_ParseBasicFrame"
| "parseFrame CtxSimplexAggr = DTAP_ParseSimplexAggrFrame"
| "parseFrame CtxSimplexFrag = DTAP_ParseSimplexFragFrame"
| "parseFrame CtxDuplexAggr = DTAP_ParseDuplexAggrFrame"
| "parseFrame CtxDuplexFrag = DTAP_ParseDuplexFragFrame"
| "parseFrame CtxAck = DTAP_ParseAckFrame"

definition DTAP_ParseFrame :: "nat \<Rightarrow> SDF_Buff \<Rightarrow> DTAP_Frame \<Rightarrow> dtap_ret \<times> DTAP_Frame" where
  "DTAP_ParseFrame frameType b fr =
     (case DTAP_GetFrameCtx frameType g_dtapFrameCtx of
        None \<Rightarrow> (DTAP_FRAME_INVALID_FRAME_TYPE, fr)
      | Some c \<Rightarrow> parseFrame c (fr\<lparr>fbuff := Some b, fheader := Some (dataOff b), fctx := c\<rparr>))"

text \<open>Header checks. The type byte is in the data of every frame that was parsed.\<close>

definition frame_typeBits :: "DTAP_Frame \<Rightarrow> byte" where
  "frame_typeBits fr =
     (case (fbuff fr, fheader fr) of
        (Some b, Some h) \<Rightarrow> (case rdn b (h + 1) 1 of Some [tb] \<Rightarrow> tb | _ \<Rightarrow> 0)
      | _ \<Rightarrow> 0)"

definition DTAP_CheckBasicFrameHeader :: "DTAP_Frame \<Rightarrow> bool" where
  "DTAP_CheckBasicFrameHeader fr \<longleftrightarrow> frame_typeBits fr AND 0xF0 = 0"

definition DTAP_CheckEnhanceFrameHeader :: "DTAP_Frame \<Rightarrow> bool" where
  "DTAP_CheckEnhanceFrameHeader fr \<longleftrightarrow> frame_typeBits fr AND 0x20 \<noteq> 0"

fun checkFrameHeader :: "frame_ctx \<Rightarrow> DTAP_Frame \<Rightarrow> bool" where
  "checkFrameHeader CtxBasic = DTAP_CheckBasicFrameHeader"
| "checkFrameHeader CtxSimplexAggr = DTAP_CheckEnhanceFrameHeader"
| "checkFrameHeader CtxSimplexFrag = DTAP_CheckEnhanceFrameHeader"
| "checkFrameHeader CtxDuplexAggr = DTAP_CheckEnhanceFrameHeader"
| "checkFrameHeader CtxDuplexFrag = DTAP_CheckEnhanceFrameHeader"
| "checkFrameHeader CtxAck = DTAP_CheckEnhanceFrameHeader"

section \<open>Building\<close>

definition DTAP_BuildBasicFrame :: "byte \<Rightarrow> DTAP_Frame \<Rightarrow> dtap_ret \<times> DTAP_Frame" where
  "DTAP_BuildBasicFrame tcid fr =
     (case fbuff fr of
        None \<Rightarrow> (DTAP_TRANS_BASIC_SEND_PREPEND_ERR, fr)
      | Some b \<Rightarrow>
          let hl = (if tcid > TCID_FTC_RFU_END then 5 else 4);
              len = of_nat (dataLen b + hl - DTAP_BASIC_HEADER_LEN) :: u16w;
              hdr = [tcid, typeBits DTAP_FRAME_BASIC False False False False] @ ENCODE2BYTE_LITTLE len
                    @ (if tcid > TCID_FTC_RFU_END then [fpi fr] else [])
          in case buff_prepend hdr b of
               None \<Rightarrow> (DTAP_TRANS_BASIC_SEND_PREPEND_ERR, fr)
             | Some b1 \<Rightarrow> (DTAP_SUCCESS, fr\<lparr>fbuff := Some b1\<rparr>))"

text \<open>Appending the check sequence over the current data, the tail of every enhanced build.\<close>

definition build_crc :: "u16w \<Rightarrow> SDF_Buff \<Rightarrow> SDF_Buff option" where
  "build_crc crcInit b = buff_append (ENCODE2BYTE_LITTLE (CRC16 crcInit (buff_data b))) b"

definition DTAP_BuildSimplexFragFrame :: "byte \<Rightarrow> u16w \<Rightarrow> DTAP_Frame \<Rightarrow> dtap_ret \<times> DTAP_Frame" where
  "DTAP_BuildSimplexFragFrame tcid crcInit fr =
     (case fbuff fr of
        None \<Rightarrow> (DTAP_ENHANCED_FRAME_PREPEND_ERR, fr)
      | Some b \<Rightarrow>
          let len = of_nat (dataLen b + 7 - DTAP_BASIC_HEADER_LEN + DTAP_CRC_LEN) :: u16w;
              hdr = [tcid, typeBits DTAP_FRAME_SIMPLEX_FRAG False True
                             (DTAP_CheckFrameBit (fbits fr) DTAP_FRAME_P_BIT) False]
                    @ ENCODE2BYTE_LITTLE len @ [fpi fr] @ ENCODE2BYTE_LITTLE (seq_sar (txSeq fr) (sar fr))
          in case buff_prepend hdr b of
               None \<Rightarrow> (DTAP_ENHANCED_FRAME_PREPEND_ERR, fr)
             | Some b1 \<Rightarrow>
                 (case build_crc crcInit b1 of
                    None \<Rightarrow> (DTAP_ENHANCED_FRAME_APPEND_ERR, fr\<lparr>fbuff := Some b1\<rparr>)
                  | Some b2 \<Rightarrow> (DTAP_SUCCESS, fr\<lparr>fbuff := Some b2\<rparr>)))"

text \<open>The two reserved bits above \<open>reqSeq\<close> are not written: they keep what the last byte of the
  headroom held.\<close>

definition DTAP_BuildDuplexFragFrame :: "byte \<Rightarrow> u16w \<Rightarrow> DTAP_Frame \<Rightarrow> dtap_ret \<times> DTAP_Frame" where
  "DTAP_BuildDuplexFragFrame tcid crcInit fr =
     (case fbuff fr of
        None \<Rightarrow> (DTAP_ENHANCED_FRAME_PREPEND_ERR, fr)
      | Some b \<Rightarrow>
          let len = of_nat (dataLen b + 9 - DTAP_BASIC_HEADER_LEN + DTAP_CRC_LEN) :: u16w;
              old = push_bit 8 (ucast (bytes b ! (dataOff b - 1)) :: u16w);
              hdr = [tcid, typeBits DTAP_FRAME_DUPLEX_FRAG False True
                             (DTAP_CheckFrameBit (fbits fr) DTAP_FRAME_P_BIT)
                             (DTAP_CheckFrameBit (fbits fr) DTAP_FRAME_F_BIT)]
                    @ ENCODE2BYTE_LITTLE len @ [fpi fr] @ ENCODE2BYTE_LITTLE (seq_sar (txSeq fr) (sar fr))
                    @ ENCODE2BYTE_LITTLE ((reqSeq fr AND 0x3FFF) OR (old AND 0xC000))
          in case buff_prepend hdr b of
               None \<Rightarrow> (DTAP_ENHANCED_FRAME_PREPEND_ERR, fr)
             | Some b1 \<Rightarrow>
                 (case build_crc crcInit b1 of
                    None \<Rightarrow> (DTAP_ENHANCED_FRAME_APPEND_ERR, fr\<lparr>fbuff := Some b1\<rparr>)
                  | Some b2 \<Rightarrow> (DTAP_SUCCESS, fr\<lparr>fbuff := Some b2\<rparr>)))"

text \<open>The acknowledgement is built in a new cleared buffer, so its reserved bit is zero.\<close>

definition DTAP_BuildAckFrame :: "byte \<Rightarrow> u16w \<Rightarrow> DTAP_Frame \<Rightarrow> mem \<Rightarrow> dtap_ret \<times> DTAP_Frame \<times> mem" where
  "DTAP_BuildAckFrame tcid crcInit fr m =
     (case SDF_BuffNewWithReserve 0 m of
        (None, m') \<Rightarrow> (DTAP_ENHANCED_FRAME_BUFF_NEW_ERR, fr, m')
      | (Some b, m') \<Rightarrow>
          let len = of_nat (dataLen b + 6 - DTAP_BASIC_HEADER_LEN + DTAP_CRC_LEN) :: u16w;
              hdr = [tcid, typeBits DTAP_FRAME_ACK False True False
                             (DTAP_CheckFrameBit (fbits fr) DTAP_FRAME_F_BIT)]
                    @ ENCODE2BYTE_LITTLE len
                    @ ENCODE2BYTE_LITTLE ((ack_reqSeq fr AND 0x3FFF) OR (if ack_sBit fr then 0x4000 else 0))
          in case buff_prepend hdr b of
               None \<Rightarrow> (DTAP_ENHANCED_FRAME_PREPEND_ERR, fr, m')
             | Some b1 \<Rightarrow>
                 (case build_crc crcInit b1 of
                    None \<Rightarrow> (DTAP_ENHANCED_FRAME_APPEND_ERR, fr, m')
                  | Some b2 \<Rightarrow> (DTAP_SUCCESS, fr\<lparr>fbuff := Some b2\<rparr>, m')))"

fun buildFrame :: "frame_ctx \<Rightarrow> byte \<Rightarrow> u16w \<Rightarrow> DTAP_Frame \<Rightarrow> mem \<Rightarrow> dtap_ret \<times> DTAP_Frame \<times> mem" where
  "buildFrame CtxBasic tcid crcInit fr m = (case DTAP_BuildBasicFrame tcid fr of (r, f) \<Rightarrow> (r, f, m))"
| "buildFrame CtxSimplexAggr tcid crcInit fr m = (DTAP_ENHANCED_FRAME_NOT_SUPPORT_ERR, fr, m)"
| "buildFrame CtxSimplexFrag tcid crcInit fr m =
     (case DTAP_BuildSimplexFragFrame tcid crcInit fr of (r, f) \<Rightarrow> (r, f, m))"
| "buildFrame CtxDuplexAggr tcid crcInit fr m = (DTAP_ENHANCED_FRAME_NOT_SUPPORT_ERR, fr, m)"
| "buildFrame CtxDuplexFrag tcid crcInit fr m =
     (case DTAP_BuildDuplexFragFrame tcid crcInit fr of (r, f) \<Rightarrow> (r, f, m))"
| "buildFrame CtxAck tcid crcInit fr m = DTAP_BuildAckFrame tcid crcInit fr m"

section \<open>Reading and bit fields\<close>

lemma rdn_data:
  assumes "wf_buff b" "i + n \<le> dataLen b"
  shows "rdn b (dataOff b + i) n = Some (take n (drop i (buff_data b)))"
proof -
  have "take n (drop i (buff_data b)) = take n (drop (dataOff b + i) (bytes b))"
    using assms by (simp add: buff_data_def drop_take add.commute min_def)
  then show ?thesis using assms by (simp add: rdn_def wf_buff_def)
qed

lemma rdn_data0:
  "wf_buff b \<Longrightarrow> n \<le> dataLen b \<Longrightarrow> rdn b (dataOff b) n = Some (take n (buff_data b))"
  using rdn_data [of b 0 n] by simp

lemma seq14_id: "is_seq s \<Longrightarrow> s AND 0x3FFF = s"
proof -
  assume "is_seq s"
  then have "uint s < 2 ^ 14" by (simp add: is_seq_uint)
  then have "take_bit 14 (uint s) = uint s" by (simp add: take_bit_int_eq_self_iff)
  then have "take_bit 14 s = s" by (simp add: word_uint_eq_iff unsigned_take_bit_eq)
  then show ?thesis by (simp add: take_bit_eq_mask mask_eq_exp_minus_1)
qed

lemma and_3FFF_take_bit: "w AND 0x3FFF = take_bit 14 (w :: u16w)"
  by (simp add: take_bit_eq_mask mask_eq_exp_minus_1)

lemma and_3_take_bit: "w AND 3 = take_bit 2 (w :: u16w)"
  by (simp add: take_bit_eq_mask mask_eq_exp_minus_1)

lemma is_seq_and [simp]: "is_seq (w AND 0x3FFF)"
proof -
  have "uint (take_bit 14 w) < 2 ^ 14" by (simp only: unsigned_take_bit_eq take_bit_int_less_exp)
  then show ?thesis unfolding and_3FFF_take_bit is_seq_uint by simp
qed

lemma seq_sar_seq [codec_simps]: "seq_sar s sa AND 0x3FFF = s AND 0x3FFF"
  unfolding seq_sar_def and_3FFF_take_bit and_3_take_bit
  by (rule bit_word_eqI) (auto simp only: bit_take_bit_iff bit_or_iff bit_push_bit_iff)

lemma seq_sar_sar [codec_simps]: "sa < 4 \<Longrightarrow> unat (drop_bit 14 (seq_sar s sa)) = sa"
proof -
  assume sa: "sa < 4"
  have "drop_bit 14 (seq_sar s sa) = take_bit 2 (of_nat sa)"
    unfolding seq_sar_def and_3FFF_take_bit and_3_take_bit
    by (rule bit_word_eqI) (auto simp: bit_take_bit_iff bit_or_iff bit_push_bit_iff bit_drop_bit_eq)
  also have "\<dots> = of_nat sa"
    using sa by (simp add: take_bit_nat_eq_self flip: of_nat_take_bit)
  finally show ?thesis using sa by simp
qed

lemma check_frame_bit_C [simp]: "DTAP_CheckFrameBit DTAP_FRAME_C_BIT DTAP_FRAME_P_BIT = False"
  by (simp add: DTAP_CheckFrameBit_def)

text \<open>The type byte of every frame that is built: its flag nibble and the bits the checks test.\<close>

definition flag_nibble :: "bool \<Rightarrow> bool \<Rightarrow> byte" where
  "flag_nibble p_bit f_bit = 2 OR (if p_bit then 4 else 0) OR (if f_bit then 8 else 0)"

lemma typeBits_enhanced [codec_simps]:
  assumes "ft \<in> {2, 4, 5}"
  shows "drop_bit 4 (typeBits ft False True p f) = flag_nibble p f"
    "typeBits ft False True p f AND 0x10 = 0"
    "typeBits ft False True p f AND 0x20 \<noteq> 0"
    "typeBits ft False True p f AND 0x0F = of_nat ft"
  using assms by (cases p; cases f; auto simp: typeBits_def flag_nibble_def)+

lemma frames_registered [simp]:
  "DTAP_GetFrameCtx 0 g_dtapFrameCtx = Some CtxBasic"
  "DTAP_GetFrameCtx (Suc 0) g_dtapFrameCtx = Some CtxSimplexAggr"
  "DTAP_GetFrameCtx 2 g_dtapFrameCtx = Some CtxSimplexFrag"
  "DTAP_GetFrameCtx 3 g_dtapFrameCtx = Some CtxDuplexAggr"
  "DTAP_GetFrameCtx 4 g_dtapFrameCtx = Some CtxDuplexFrag"
  "DTAP_GetFrameCtx 5 g_dtapFrameCtx = Some CtxAck"
  "DTAP_GetFrameCtx 6 g_dtapFrameCtx = None"
  "DTAP_GetFrameCtx 7 g_dtapFrameCtx = None"
  by code_simp+

lemma GetFrameCtx_type: "DTAP_GetFrameCtx (getFrameType c) g_dtapFrameCtx = Some c"
  by (cases c) simp_all

lemma GetFrameCtx_SomeD:
  assumes "DTAP_GetFrameCtx n g_dtapFrameCtx = Some c"
  shows "n = getFrameType c"
proof -
  have "n < 8" using assms by (auto simp: DTAP_GetFrameCtx_def split: if_splits)
  then have "n = 0 \<or> n = Suc 0 \<or> n = 2 \<or> n = 3 \<or> n = 4 \<or> n = 5 \<or> n = 6 \<or> n = 7" by arith
  then show ?thesis using assms by (elim disjE) auto
qed

section \<open>What is built can be parsed\<close>

text \<open>The payload a parsed frame points at.\<close>

definition frame_payload :: "DTAP_Frame \<Rightarrow> byte list" where
  "frame_payload fr =
     (case (fbuff fr, fpayload fr) of
        (Some b, Some p) \<Rightarrow> take (payloadLen fr) (drop p (bytes b))
      | _ \<Rightarrow> [])"

lemma frame_payload_data:
  assumes "wf_buff b" "fbuff fr = Some b" "fpayload fr = Some (dataOff b + k)"
    "k + payloadLen fr \<le> dataLen b"
  shows "frame_payload fr = take (payloadLen fr) (drop k (buff_data b))"
proof -
  have "rdn b (dataOff b + k) (payloadLen fr) = Some (take (payloadLen fr) (drop k (buff_data b)))"
    using rdn_data assms by blast
  then show ?thesis using assms by (auto simp: frame_payload_def rdn_def split: if_splits)
qed

text \<open>The length field counts what follows it.\<close>

definition wire_length :: "SDF_Buff \<Rightarrow> nat" where
  "wire_length b = unat (DECODE2BYTE_LITTLE (buff_data b ! 2) (buff_data b ! 3))"

lemma build_envelope:
  assumes "wf_buff b" "length hdr \<le> dataOff b" "2 \<le> SDF_BuffTailRoom b"
  obtains b1 b2 where "buff_prepend hdr b = Some b1" "build_crc c b1 = Some b2" "wf_buff b2"
    "buff_data b2 = hdr @ buff_data b @ ENCODE2BYTE_LITTLE (CRC16 c (hdr @ buff_data b))"
    "dataLen b2 = length hdr + dataLen b + 2" "CRC16 c (buff_data b2) = 0"
proof -
  obtain b1 where b1: "buff_prepend hdr b = Some b1" using buff_prepend_Some assms(2) by blast
  note p = buff_prepend_SomeD [OF assms(1) b1]
  have "SDF_BuffTailRoom b1 = SDF_BuffTailRoom b"
    using p assms by (simp add: SDF_BuffTailRoom_wf)
  then obtain b2 where b2: "build_crc c b1 = Some b2"
    using buff_append_Some [of b1 "ENCODE2BYTE_LITTLE (CRC16 c (buff_data b1))"] p assms(3)
    by (auto simp: build_crc_def)
  have q: "wf_buff b2 \<and> buff_data b2 = buff_data b1 @ ENCODE2BYTE_LITTLE (CRC16 c (buff_data b1)) \<and>
      dataLen b2 = dataLen b1 + 2"
    using buff_append_SomeD [of b1 _ b2] p b2 by (simp add: build_crc_def)
  have "CRC16 c (buff_data b2) = 0" using q crc_append_self by metis
  with that [OF b1 b2] p q show thesis by simp
qed

lemma ParseEnhance_plain:
  assumes "wf_buff b" "buff_data b = tcid # tb # l0 # l1 # p # rest" "tb AND 0x10 = 0"
    "getHeaderLen (fctx fr) + 2 \<le> dataLen b" "dataLen b < 65536"
    "fbuff fr = Some b" "fheader fr = Some (dataOff b)" "extensionLen fr = 0"
  shows "DTAP_ParseEnhanceFrame fr = (DTAP_SUCCESS,
    fr\<lparr>fbits := drop_bit 4 tb, fpi := p, headerLen := getHeaderLen (fctx fr),
       fpayload := Some (dataOff b + getHeaderLen (fctx fr)),
       payloadLen := dataLen b - getHeaderLen (fctx fr) - 2\<rparr>)"
proof -
  let ?h = "getHeaderLen (fctx fr)"
  have "5 \<le> dataLen b" using length_buff_data [OF assms(1)] unfolding assms(2) by simp
  then have "rdn b (dataOff b) 5 = Some [tcid, tb, l0, l1, p]"
    using rdn_data0 [of b 5] assms(1,2) by simp
  moreover have "sub64 (dataLen b) ?h = dataLen b - ?h" "u16 (dataLen b - ?h) = dataLen b - ?h"
    "sub64 (dataLen b - ?h) 0 = dataLen b - ?h"
    using assms(4,5) by simp_all
  ultimately show ?thesis
    using assms by (simp add: DTAP_ParseEnhanceFrame_def Let_def)
qed

lemma rd_word_data:
  assumes "wf_buff b" "fbuff fr = Some b" "fheader fr = Some (dataOff b)"
    "buff_data b = xs @ x # y # zs" "length xs = i"
  shows "rd_word fr i = Some (DECODE2BYTE_LITTLE x y)"
proof -
  have "i + 2 \<le> dataLen b" using length_buff_data [OF assms(1)] assms(5) unfolding assms(4) by simp
  then have "rdn b (dataOff b + i) 2 = Some [x, y]"
    using rdn_data [of b i 2] assms by simp
  then show ?thesis using assms by (simp add: rd_word_def)
qed

lemma frame_typeBits_data:
  assumes "wf_buff b" "fbuff fr = Some b" "fheader fr = Some (dataOff b)"
    "buff_data b = x # y # zs"
  shows "frame_typeBits fr = y"
proof -
  have "2 \<le> dataLen b" using length_buff_data [OF assms(1)] unfolding assms(4) by simp
  then have "rdn b (dataOff b + 1) 1 = Some [y]"
    using rdn_data [of b 1 1] assms by simp
  then show ?thesis using assms by (simp add: frame_typeBits_def)
qed

lemma CheckFrameBit_flag_nibble [codec_simps]:
  "DTAP_CheckFrameBit (flag_nibble p f) DTAP_FRAME_P_BIT = p"
  "DTAP_CheckFrameBit (flag_nibble p f) DTAP_FRAME_F_BIT = f"
  by (cases p; cases f; simp add: DTAP_CheckFrameBit_def flag_nibble_def)+

text \<open>A fragment that can be built: room around its payload, a proper sequence number and
  segmentation state, and a total length that fits the length field.\<close>

definition buildable :: "nat \<Rightarrow> DTAP_Frame \<Rightarrow> SDF_Buff \<Rightarrow> bool" where
  "buildable hl fr b \<longleftrightarrow> fbuff fr = Some b \<and> wf_buff b \<and> hl \<le> dataOff b \<and> 2 \<le> SDF_BuffTailRoom b \<and>
     dataLen b + hl + 2 < 65536 \<and> is_seq (txSeq fr) \<and> sar fr < 4"

text \<open>\<open>b'\<close> is the frame on the wire and \<open>pf\<close> what the receiver parses from it: the check sequence
  and the length field are right, and protocol, sequence number, segmentation state, poll bit
  and payload are those of the frame that was built.\<close>

definition wire_image :: "u16w \<Rightarrow> byte \<Rightarrow> DTAP_Frame \<Rightarrow> SDF_Buff \<Rightarrow> SDF_Buff \<Rightarrow> DTAP_Frame \<Rightarrow> bool" where
  "wire_image c tcid fr b b' pf \<longleftrightarrow> wf_buff b' \<and> CRC16 c (buff_data b') = 0 \<and>
     wire_length b' + DTAP_BASIC_HEADER_LEN = dataLen b' \<and> buff_data b' ! 0 = tcid \<and>
     unat (buff_data b' ! 1 AND 0x0F) = getFrameType (fctx pf) \<and> DTAP_CheckEnhanceFrameHeader pf \<and>
     fbuff pf = Some b' \<and> fpi pf = fpi fr \<and> txSeq pf = txSeq fr \<and> sar pf = sar fr \<and>
     DTAP_CheckFrameBit (fbits pf) DTAP_FRAME_P_BIT = DTAP_CheckFrameBit (fbits fr) DTAP_FRAME_P_BIT \<and>
     frame_payload pf = buff_data b \<and> payloadLen pf = dataLen b \<and>
     fpayload pf = Some (dataOff b' + headerLen pf + extensionLen pf) \<and>
     headerLen pf + extensionLen pf + payloadLen pf + DTAP_CRC_LEN = dataLen b'"

lemma wire_length_hdr:
  assumes "buff_data b' = [x, y] @ ENCODE2BYTE_LITTLE (of_nat n) @ rest" "n < 65536"
  shows "wire_length b' = n"
  using assms by (simp add: wire_length_def ENCODE2BYTE_LITTLE_def decode_encode_little)

text \<open>The header both fragment builders write, up to the words behind \<open>txSeq\<close> and \<open>sar\<close>.\<close>

definition frag_hdr :: "frame_ctx \<Rightarrow> byte \<Rightarrow> bool \<Rightarrow> bool \<Rightarrow> DTAP_Frame \<Rightarrow> nat \<Rightarrow> byte list \<Rightarrow> byte list" where
  "frag_hdr cx tcid p f fr n extra =
     [tcid, typeBits (getFrameType cx) False True p f] @ ENCODE2BYTE_LITTLE (of_nat n)
     @ [fpi fr] @ ENCODE2BYTE_LITTLE (seq_sar (txSeq fr) (sar fr)) @ extra"

lemma frag_parsed:
  assumes "buildable hl fr b" "getHeaderLen cx = hl" "hl = 7 + length extra"
    "cx = CtxSimplexFrag \<or> cx = CtxDuplexFrag"
  and hdr: "hdr = frag_hdr cx tcid (DTAP_CheckFrameBit (fbits fr) DTAP_FRAME_P_BIT) f fr
              (dataLen b + hl - DTAP_BASIC_HEADER_LEN + DTAP_CRC_LEN) extra"
  and w: "wf_buff b2" and d: "buff_data b2 = hdr @ buff_data b @ ENCODE2BYTE_LITTLE v"
  and l2: "dataLen b2 = hl + dataLen b + 2" and z: "CRC16 c (buff_data b2) = 0"
  obtains g where
    "DTAP_ParseEnhanceFrame ((frame0 c0)\<lparr>fbuff := Some b2, fheader := Some (dataOff b2), fctx := cx\<rparr>)
       = (DTAP_SUCCESS, g)"
    "rd_word g 5 = Some (seq_sar (txSeq fr) (sar fr))"
    "\<And>r. extra = ENCODE2BYTE_LITTLE r \<Longrightarrow> rd_word g 7 = Some r"
    "\<And>r. wire_image c tcid fr b b2 (g\<lparr>sar := sar fr, txSeq := txSeq fr, reqSeq := r\<rparr>)"
    "fbits g = flag_nibble (DTAP_CheckFrameBit (fbits fr) DTAP_FRAME_P_BIT) f"
proof -
  let ?p = "DTAP_CheckFrameBit (fbits fr) DTAP_FRAME_P_BIT"
  let ?tb = "typeBits (getFrameType cx) False True ?p f"
  note a = assms(1) [unfolded buildable_def]
  have ft: "getFrameType cx \<in> {2, 4, 5}" using assms(4) by auto
  note tb = typeBits_enhanced [OF ft, of ?p f]
  have hl: "7 \<le> hl" using assms(3) by simp
  let ?f = "(frame0 c0)\<lparr>fbuff := Some b2, fheader := Some (dataOff b2), fctx := cx\<rparr>"
  let ?g = "?f\<lparr>fbits := drop_bit 4 ?tb, fpi := fpi fr, headerLen := hl,
       fpayload := Some (dataOff b2 + hl), payloadLen := dataLen b\<rparr>"
  have pe: "DTAP_ParseEnhanceFrame ?f = (DTAP_SUCCESS, ?g)"
    using ParseEnhance_plain [OF w, of tcid ?tb _ _ "fpi fr" _ ?f] d l2 a tb assms(2)
    by (simp add: hdr frag_hdr_def ENCODE2BYTE_LITTLE_def frame0_def)
  have rw: "rd_word ?g 5 = Some (seq_sar (txSeq fr) (sar fr))"
    using rd_word_data [OF w, of ?g "take 5 hdr"] d
    by (simp add: hdr frag_hdr_def ENCODE2BYTE_LITTLE_def decode_encode_little)
  have rx: "rd_word ?g 7 = Some r" if "extra = ENCODE2BYTE_LITTLE r" for r
    using rd_word_data [OF w, of ?g "take 7 hdr"] d that
    by (simp add: hdr frag_hdr_def ENCODE2BYTE_LITTLE_def decode_encode_little)
  have len: "wire_length b2 + 4 = dataLen b2"
  proof -
    have "dataLen b + hl - DTAP_BASIC_HEADER_LEN + DTAP_CRC_LEN < 65536" using a by linarith
    from wire_length_hdr [OF d [unfolded hdr frag_hdr_def append_assoc] this] l2 hl
    show ?thesis by linarith
  qed
  have lh: "length hdr = hl" by (simp add: hdr frag_hdr_def assms(3))
  have "wire_image c tcid fr b b2 (?g\<lparr>sar := sar fr, txSeq := txSeq fr, reqSeq := r\<rparr>)"
    (is "wire_image c tcid fr b b2 ?pf") for r
  proof -
    have pay: "frame_payload ?pf = buff_data b"
      using frame_payload_data [OF w, of ?pf hl] d l2 a lh by simp
    have chk: "DTAP_CheckEnhanceFrameHeader ?pf"
      using frame_typeBits_data [OF w, of ?pf] d tb
      by (simp add: DTAP_CheckEnhanceFrameHeader_def hdr frag_hdr_def)
    have "unat (?tb AND 0x0F) = getFrameType cx" using tb(4) assms(4) by auto
    then show ?thesis
      using w z len chk pay d tb l2 by (simp add: wire_image_def codec_simps frame0_def hdr frag_hdr_def)
  qed
  then show thesis using that [OF pe rw rx] tb(1) by simp
qed

lemma simplex_frag_roundtrip:
  assumes "buildable 7 fr b"
  shows "\<exists>fr' b' pf. DTAP_BuildSimplexFragFrame tcid c fr = (DTAP_SUCCESS, fr') \<and> fbuff fr' = Some b' \<and>
    DTAP_ParseFrame DTAP_FRAME_SIMPLEX_FRAG b' (frame0 c0) = (DTAP_SUCCESS, pf) \<and>
    wire_image c tcid fr b b' pf \<and> reqSeq pf = DTAP_FRAME_SEQ_INIT"
proof -
  let ?hdr = "frag_hdr CtxSimplexFrag tcid (DTAP_CheckFrameBit (fbits fr) DTAP_FRAME_P_BIT) False fr
     (dataLen b + 7 - DTAP_BASIC_HEADER_LEN + DTAP_CRC_LEN) []"
  note a = assms [unfolded buildable_def]
  have lh: "length ?hdr = 7" by (simp add: frag_hdr_def)
  obtain b1 b2 where b1: "buff_prepend ?hdr b = Some b1" and b2: "build_crc c b1 = Some b2"
    and w: "wf_buff b2" and d: "buff_data b2 = ?hdr @ buff_data b @ ENCODE2BYTE_LITTLE (CRC16 c (?hdr @ buff_data b))"
    and l: "dataLen b2 = length ?hdr + dataLen b + 2" and z: "CRC16 c (buff_data b2) = 0"
    by (rule build_envelope [of b ?hdr c]) (use a lh in simp_all)
  obtain g where g: "DTAP_ParseEnhanceFrame ((frame0 c0)\<lparr>fbuff := Some b2, fheader := Some (dataOff b2),
        fctx := CtxSimplexFrag\<rparr>) = (DTAP_SUCCESS, g)" "rd_word g 5 = Some (seq_sar (txSeq fr) (sar fr))"
      "\<And>r. wire_image c tcid fr b b2 (g\<lparr>sar := sar fr, txSeq := txSeq fr, reqSeq := r\<rparr>)"
    by (rule frag_parsed [OF assms _ _ _ refl w d _ z, of c0]) (use l lh in auto)
  have "DTAP_ParseFrame DTAP_FRAME_SIMPLEX_FRAG b2 (frame0 c0) =
      (DTAP_SUCCESS, g\<lparr>sar := sar fr, txSeq := txSeq fr, reqSeq := DTAP_FRAME_SEQ_INIT\<rparr>)"
    using a g by (simp add: DTAP_ParseFrame_def DTAP_ParseSimplexFragFrame_def codec_simps seq14_id)
  moreover have "DTAP_BuildSimplexFragFrame tcid c fr = (DTAP_SUCCESS, fr\<lparr>fbuff := Some b2\<rparr>)"
    using a b1 b2 by (simp add: DTAP_BuildSimplexFragFrame_def Let_def frag_hdr_def)
  ultimately show ?thesis using g(3) by fastforce
qed

lemma reqSeq_word:
  "is_seq r \<Longrightarrow> ((r AND 0x3FFF) OR (push_bit 8 (ucast (x :: byte)) AND 0xC000)) AND 0x3FFF = (r :: u16w)"
proof -
  assume r: "is_seq r"
  have "(0xC000 :: u16w) AND 0x3FFF = 0" by simp
  then have "((r AND 0x3FFF) OR (y AND 0xC000)) AND 0x3FFF = r AND 0x3FFF" for y :: u16w
    by (simp add: and.assoc bit.conj_disj_distrib2)
  then show ?thesis using seq14_id [OF r] by simp
qed

lemma duplex_frag_roundtrip:
  assumes "buildable 9 fr b" "is_seq (reqSeq fr)"
  shows "\<exists>fr' b' pf. DTAP_BuildDuplexFragFrame tcid c fr = (DTAP_SUCCESS, fr') \<and> fbuff fr' = Some b' \<and>
    DTAP_ParseFrame DTAP_FRAME_DUPLEX_FRAG b' (frame0 c0) = (DTAP_SUCCESS, pf) \<and>
    wire_image c tcid fr b b' pf \<and> reqSeq pf = reqSeq fr"
proof -
  let ?f = "DTAP_CheckFrameBit (fbits fr) DTAP_FRAME_F_BIT"
  define r where "r = (reqSeq fr AND 0x3FFF) OR (push_bit 8 (ucast (bytes b ! (dataOff b - 1)) :: u16w) AND 0xC000)"
  let ?hdr = "frag_hdr CtxDuplexFrag tcid (DTAP_CheckFrameBit (fbits fr) DTAP_FRAME_P_BIT) ?f fr
     (dataLen b + 9 - DTAP_BASIC_HEADER_LEN + DTAP_CRC_LEN) (ENCODE2BYTE_LITTLE r)"
  note a = assms(1) [unfolded buildable_def]
  have lh: "length ?hdr = 9" by (simp add: frag_hdr_def)
  obtain b1 b2 where b1: "buff_prepend ?hdr b = Some b1" and b2: "build_crc c b1 = Some b2"
    and w: "wf_buff b2" and d: "buff_data b2 = ?hdr @ buff_data b @ ENCODE2BYTE_LITTLE (CRC16 c (?hdr @ buff_data b))"
    and l: "dataLen b2 = length ?hdr + dataLen b + 2" and z: "CRC16 c (buff_data b2) = 0"
    by (rule build_envelope [of b ?hdr c]) (use a lh in simp_all)
  obtain g where g: "DTAP_ParseEnhanceFrame ((frame0 c0)\<lparr>fbuff := Some b2, fheader := Some (dataOff b2),
        fctx := CtxDuplexFrag\<rparr>) = (DTAP_SUCCESS, g)" "rd_word g 5 = Some (seq_sar (txSeq fr) (sar fr))"
      "rd_word g 7 = Some r"
      "\<And>r. wire_image c tcid fr b b2 (g\<lparr>sar := sar fr, txSeq := txSeq fr, reqSeq := r\<rparr>)"
    by (rule frag_parsed [OF assms(1) _ _ _ refl w d _ z, of c0]) (use l lh in auto)
  have "DTAP_ParseFrame DTAP_FRAME_DUPLEX_FRAG b2 (frame0 c0) =
      (DTAP_SUCCESS, g\<lparr>sar := sar fr, txSeq := txSeq fr, reqSeq := reqSeq fr\<rparr>)"
    using a g reqSeq_word [OF assms(2), of "bytes b ! (dataOff b - 1)", folded r_def]
    by (simp add: DTAP_ParseFrame_def DTAP_ParseDuplexFragFrame_def codec_simps seq14_id)
  moreover have "DTAP_BuildDuplexFragFrame tcid c fr = (DTAP_SUCCESS, fr\<lparr>fbuff := Some b2\<rparr>)"
    using a b1 b2 by (simp add: DTAP_BuildDuplexFragFrame_def Let_def frag_hdr_def r_def)
  ultimately show ?thesis using g(4) by fastforce
qed

text \<open>The acknowledgement: built in its own buffer, parsed back with its request number and kind.\<close>

lemma ack_word:
  "is_seq r \<Longrightarrow> ((r AND 0x3FFF) OR (if s then 0x4000 else 0)) AND 0x3FFF = (r :: u16w)"
  "((r AND 0x3FFF) OR (if s then 0x4000 else 0)) AND 0x4000 = (if s then 0x4000 else (0 :: u16w))"
proof -
  have d: "(r AND 0x3FFF OR y) AND m = (r AND (0x3FFF AND m)) OR (y AND m)" for y m :: u16w
    by (simp only: bit.conj_disj_distrib2 and.assoc)
  show "is_seq r \<Longrightarrow> ((r AND 0x3FFF) OR (if s then 0x4000 else 0)) AND 0x3FFF = r"
    unfolding d using seq14_id by (cases s) simp_all
  show "((r AND 0x3FFF) OR (if s then 0x4000 else 0)) AND 0x4000 = (if s then 0x4000 else (0 :: u16w))"
    unfolding d by (cases s) simp_all
qed

lemma build_ack:
  assumes "mem_ok m"
  obtains b2 m' where "DTAP_BuildAckFrame tcid c fr m = (DTAP_SUCCESS, fr\<lparr>fbuff := Some b2\<rparr>, m')"
    "mem_ok m'" "wf_buff b2" "dataLen b2 = 8" "CRC16 c (buff_data b2) = 0"
    "\<exists>v. buff_data b2 = [tcid, typeBits DTAP_FRAME_ACK False True False
                             (DTAP_CheckFrameBit (fbits fr) DTAP_FRAME_F_BIT)]
       @ ENCODE2BYTE_LITTLE (of_nat 4)
       @ ENCODE2BYTE_LITTLE ((ack_reqSeq fr AND 0x3FFF) OR (if ack_sBit fr then 0x4000 else 0))
       @ ENCODE2BYTE_LITTLE v"
proof -
  obtain b m' where b: "SDF_BuffNewWithReserve 0 m = (Some b, m')" and m': "mem_ok m'"
    using SDF_BuffNewWithReserve_ok [OF assms] by blast
  have s: "wf_buff b" "buff_data b = []" "dataLen b = 0" "SDF_BuffTailRoom b = 2" "dataOff b = 14"
    using SDF_BuffNewWithReserve_SomeD [OF b] by simp_all
  let ?hdr = "[tcid, typeBits DTAP_FRAME_ACK False True False
                             (DTAP_CheckFrameBit (fbits fr) DTAP_FRAME_F_BIT)]
                    @ ENCODE2BYTE_LITTLE (of_nat 4)
                    @ ENCODE2BYTE_LITTLE ((ack_reqSeq fr AND 0x3FFF) OR (if ack_sBit fr then 0x4000 else 0))"
  obtain b1 b2 where b1: "buff_prepend ?hdr b = Some b1" and b2: "build_crc c b1 = Some b2"
    and w: "wf_buff b2" and d: "buff_data b2 = ?hdr @ buff_data b @ ENCODE2BYTE_LITTLE (CRC16 c (?hdr @ buff_data b))"
    and l: "dataLen b2 = length ?hdr + dataLen b + 2" and z: "CRC16 c (buff_data b2) = 0"
    by (rule build_envelope [of b ?hdr c]) (use s in simp_all)
  have e: "DTAP_BuildAckFrame tcid c fr m = (DTAP_SUCCESS, fr\<lparr>fbuff := Some b2\<rparr>, m')"
    using b b1 b2 s by (simp add: DTAP_BuildAckFrame_def Let_def)
  show thesis
    by (rule that [OF e m' w _ z]) (use l s d in auto)
qed

lemma ack_roundtrip:
  assumes "mem_ok m" "is_seq (ack_reqSeq fr)"
  shows "\<exists>fr' b' m' pf. DTAP_BuildAckFrame tcid c fr m = (DTAP_SUCCESS, fr', m') \<and> fbuff fr' = Some b' \<and>
    CRC16 c (buff_data b') = 0 \<and> wire_length b' + DTAP_BASIC_HEADER_LEN = dataLen b' \<and>
    DTAP_ParseFrame DTAP_FRAME_ACK b' (frame0 c0) = (DTAP_SUCCESS, pf) \<and>
    DTAP_CheckEnhanceFrameHeader pf \<and>
    ack_reqSeq pf = ack_reqSeq fr \<and> ack_sBit pf = ack_sBit fr \<and>
    DTAP_CheckFrameBit (fbits pf) DTAP_FRAME_F_BIT = DTAP_CheckFrameBit (fbits fr) DTAP_FRAME_F_BIT \<and>
    payloadLen pf = 0"
proof -
  let ?f = "DTAP_CheckFrameBit (fbits fr) DTAP_FRAME_F_BIT"
  let ?tb = "typeBits DTAP_FRAME_ACK False True False ?f"
  define r where "r = (ack_reqSeq fr AND 0x3FFF) OR (if ack_sBit fr then 0x4000 else 0)"
  obtain b2 m' v where b: "DTAP_BuildAckFrame tcid c fr m = (DTAP_SUCCESS, fr\<lparr>fbuff := Some b2\<rparr>, m')"
    and w: "wf_buff b2" and l: "dataLen b2 = 8" and z: "CRC16 c (buff_data b2) = 0"
    and d: "buff_data b2 = [tcid, ?tb] @ ENCODE2BYTE_LITTLE (of_nat 4) @ ENCODE2BYTE_LITTLE r
              @ ENCODE2BYTE_LITTLE v"
    using build_ack [OF assms(1), of tcid c fr] unfolding r_def by metis
  have tb: "?tb AND 0x10 = 0" "?tb AND 0x20 \<noteq> 0" "drop_bit 4 ?tb = flag_nibble False ?f"
    by (simp_all add: typeBits_enhanced)
  let ?fr = "(frame0 c0)\<lparr>fbuff := Some b2, fheader := Some (dataOff b2), fctx := CtxAck\<rparr>"
  obtain x where pe: "DTAP_ParseEnhanceFrame ?fr = (DTAP_SUCCESS,
      ?fr\<lparr>fbits := drop_bit 4 ?tb, fpi := x, headerLen := 6, fpayload := Some (dataOff b2 + 6), payloadLen := 0\<rparr>)"
    using ParseEnhance_plain [OF w, of tcid ?tb _ _ _ _ ?fr] d l tb
    by (simp add: ENCODE2BYTE_LITTLE_def frame0_def)
  let ?g = "?fr\<lparr>fbits := drop_bit 4 ?tb, fpi := x, headerLen := 6, fpayload := Some (dataOff b2 + 6), payloadLen := 0\<rparr>"
  have rw: "rd_word ?g 4 = Some r"
    using rd_word_data [OF w, of ?g "[tcid, ?tb] @ ENCODE2BYTE_LITTLE (of_nat 4)"] d
    by (simp add: ENCODE2BYTE_LITTLE_def decode_encode_little)
  let ?pf = "?g\<lparr>ack_reqSeq := ack_reqSeq fr, ack_sBit := ack_sBit fr\<rparr>"
  have "r AND 0x3FFF = ack_reqSeq fr" "(r AND 0x4000 \<noteq> 0) = ack_sBit fr"
    unfolding r_def using ack_word [of "ack_reqSeq fr" "ack_sBit fr"] assms(2) by (auto split: if_splits)
  then have parse: "DTAP_ParseFrame DTAP_FRAME_ACK b2 (frame0 c0) = (DTAP_SUCCESS, ?pf)"
    using pe rw by (simp add: DTAP_ParseFrame_def DTAP_ParseAckFrame_def)
  have "DTAP_CheckEnhanceFrameHeader ?pf"
    using frame_typeBits_data [OF w, of ?pf] d tb by (simp add: DTAP_CheckEnhanceFrameHeader_def)
  moreover have "wire_length b2 + 4 = dataLen b2"
    using wire_length_hdr [OF d] l by simp
  ultimately show ?thesis
    using b z parse tb
    by (intro exI [of _ "fr\<lparr>fbuff := Some b2\<rparr>"] exI [of _ b2] exI [of _ m'] exI [of _ ?pf])
      (simp add: codec_simps)
qed

text \<open>Parsing never reads outside the data, and what it reports lies inside it.\<close>

lemma parse_extensions_safe:
  assumes "wf_buff b" "dataOff b \<le> base" "base + dlen \<le> dataOff b + dataLen b" "dlen < 65536"
    "elen \<le> dlen" "parse_extensions k b (base + elen) dlen elen = (ret, e')"
  shows "ret \<noteq> MemFault \<and> (ret = DTAP_SUCCESS \<longrightarrow> elen \<le> e' \<and> e' \<le> dlen)"
  using assms(5,6)
proof (induction k arbitrary: elen)
  case 0 then show ?case by simp
next
  case (Suc k)
  show ?case
  proof (cases "dlen - elen < 2")
    case True then show ?thesis using Suc.prems by auto
  next
    case False
    have u: "u16 (elen + 2) = elen + 2" using False assms(4) by simp
    have "base + elen + 1 = dataOff b + (base - dataOff b + elen + 1)"
      using assms(2) by simp
    then obtain l where l: "rdn b (base + elen + 1) 1 = Some [l]"
      using rdn_data [OF assms(1), of "base - dataOff b + elen + 1" 1] assms(1-3) False
      by (auto simp: take_Suc_conv_app_nth)
    show ?thesis
    proof (cases "dlen - (elen + 2) < unat l")
      case True
      then show ?thesis using Suc.prems False l u by (auto split: if_splits)
    next
      case False2: False
      have u2: "u16 (elen + 2 + unat l) = elen + 2 + unat l"
        using False False2 assms(4) by simp
      have "parse_extensions k b (base + (elen + 2 + unat l)) dlen (elen + 2 + unat l) = (ret, e')"
        using Suc.prems False False2 l u u2 by (simp add: add.assoc split: if_splits)
      moreover have "elen + 2 + unat l \<le> dlen" using False False2 by linarith
      ultimately have "ret \<noteq> MemFault \<and> (ret = DTAP_SUCCESS \<longrightarrow> elen + 2 + unat l \<le> e' \<and> e' \<le> dlen)"
        using Suc.IH by blast
      then show ?thesis by auto
    qed
  qed
qed

lemma rdn_one:
  assumes "wf_buff b" "i < dataLen b"
  obtains x where "rdn b (dataOff b + i) 1 = Some [x]"
  using rdn_data [OF assms(1), of i 1] assms by (auto simp: take_Suc_conv_app_nth)

lemma ParseExtension_safe:
  assumes "wf_buff b" "fbuff fr = Some b" "fheader fr = Some (dataOff b)"
    "DTAP_ParseExtension fr = (ret, fr')"
  shows "ret \<noteq> MemFault \<and> (ret = DTAP_SUCCESS \<longrightarrow>
    (\<exists>e. fr' = fr\<lparr>fextension := Some (dataOff b + headerLen fr), extensionLen := e\<rparr> \<and>
      headerLen fr + e \<le> dataLen b))"
proof (cases "dataLen b < headerLen fr \<or> u16 (dataLen b - headerLen fr) < 1")
  case True
  then show ?thesis using assms by (auto simp: DTAP_ParseExtension_def Let_def split: if_splits)
next
  case False
  let ?d = "u16 (dataLen b - headerLen fr)" and ?h = "headerLen fr"
  have d: "?d \<le> dataLen b - ?h" by (simp add: u16_def)
  then have "?h < dataLen b" using False by auto
  then obtain n where n: "rdn b (dataOff b + ?h) 1 = Some [n]"
    using rdn_one [OF assms(1)] by blast
  obtain r e where re: "parse_extensions (unat n) b (dataOff b + ?h + 1) ?d 1 = (r, e)" by fastforce
  have "r \<noteq> MemFault \<and> (r = DTAP_SUCCESS \<longrightarrow> 1 \<le> e \<and> e \<le> ?d)"
    by (rule parse_extensions_safe [OF assms(1) _ _ _ _ re]) (use d False in auto)
  then show ?thesis using assms n re False d
    by (auto simp: DTAP_ParseExtension_def Let_def split: if_splits)
qed

text \<open>A successful parse: the fixed header, the extensions, the payload and the trailing check
  sequence of an enhanced frame lie one after the other inside the data.\<close>

definition parsed_in_bounds :: "SDF_Buff \<Rightarrow> DTAP_Frame \<Rightarrow> bool" where
  "parsed_in_bounds b fr \<longleftrightarrow> fbuff fr = Some b \<and> fheader fr = Some (dataOff b) \<and>
     (if fctx fr = CtxBasic then headerLen fr + payloadLen fr \<le> dataLen b
      else headerLen fr = getHeaderLen (fctx fr) \<and>
        fpayload fr = Some (dataOff b + headerLen fr + extensionLen fr) \<and>
        headerLen fr + extensionLen fr + payloadLen fr + DTAP_CRC_LEN \<le> dataLen b)"

lemma u16_le: "u16 n \<le> n"
  by (simp add: u16_def)

lemma ParseEnhance_safe:
  assumes "wf_buff b" "fbuff fr = Some b" "fheader fr = Some (dataOff b)" "extensionLen fr = 0"
    "fctx fr \<noteq> CtxBasic" "DTAP_ParseEnhanceFrame fr = (ret, fr')"
  shows "ret \<noteq> MemFault \<and> (ret = DTAP_SUCCESS \<longrightarrow> parsed_in_bounds b fr' \<and> fctx fr' = fctx fr)"
proof (cases "dataLen b < getHeaderLen (fctx fr)")
  case True then show ?thesis using assms by (auto simp: DTAP_ParseEnhanceFrame_def Let_def)
next
  case False
  let ?hl = "getHeaderLen (fctx fr)"
  have hl: "5 < ?hl" "?hl \<le> dataLen b" using assms(5) False by (cases "fctx fr"; simp)+
  then have "length (take 5 (buff_data b)) = 5" using assms(1) by simp
  then obtain a tb c d p where five: "take 5 (buff_data b) = [a, tb, c, d, p]" by (rule length_5E)
  have rd: "rdn b (dataOff b) 5 = Some [a, tb, c, d, p]"
    using rdn_data0 [OF assms(1), of 5] hl five by simp
  let ?f1 = "fr\<lparr>fbits := drop_bit 4 tb, fpi := p, headerLen := ?hl\<rparr>"
  obtain r f2 where ext: "(if tb AND 0x10 \<noteq> 0 then DTAP_ParseExtension ?f1 else (DTAP_SUCCESS, ?f1)) = (r, f2)"
    by fastforce
  have e: "r \<noteq> MemFault \<and> (r = DTAP_SUCCESS \<longrightarrow> fbuff f2 = Some b \<and> fheader f2 = Some (dataOff b) \<and>
      fctx f2 = fctx fr \<and> headerLen f2 = ?hl \<and> ?hl + extensionLen f2 \<le> dataLen b)"
  proof (cases "tb AND 0x10 = 0")
    case True then show ?thesis using ext assms hl by auto
  next
    case F: False
    then have pe: "DTAP_ParseExtension ?f1 = (r, f2)" using ext by simp
    from ParseExtension_safe [OF assms(1) _ _ pe] assms(2,3) hl show ?thesis by fastforce
  qed
  have lt: "dataLen b < 18446744073709551616" using assms(1) by (auto simp: wf_buff_def)
  then have s: "?hl + x \<le> dataLen b \<Longrightarrow> sub64 (sub64 (dataLen b) ?hl) x = dataLen b - ?hl - x" for x
    using hl by simp
  have pl: "ret \<noteq> MemFault \<and> (ret = DTAP_SUCCESS \<longrightarrow> r = DTAP_SUCCESS \<and>
      2 \<le> u16 (dataLen b - ?hl - extensionLen f2) \<and>
      fr' = f2\<lparr>fpayload := Some (dataOff b + ?hl + extensionLen f2),
               payloadLen := u16 (dataLen b - ?hl - extensionLen f2) - 2\<rparr>)"
    using assms(2,3,6) hl rd ext e s
    by (auto simp: DTAP_ParseEnhanceFrame_def Let_def split: if_splits)
  show ?thesis
    using pl e assms(5) u16_le [of "dataLen b - ?hl - extensionLen f2"]
    by (auto simp: parsed_in_bounds_def)
qed

lemma rd_word_safe:
  assumes "wf_buff b" "parsed_in_bounds b fr" "i + 2 \<le> headerLen fr" "fctx fr \<noteq> CtxBasic"
  shows "\<exists>w. rd_word fr i = Some w"
proof -
  have p: "fbuff fr = Some b" "fheader fr = Some (dataOff b)" "headerLen fr \<le> dataLen b"
    using assms by (auto simp: parsed_in_bounds_def)
  then have l: "length (take 2 (drop i (buff_data b))) = 2" using assms by simp
  then obtain x y where "take 2 (drop i (buff_data b)) = [x, y]" by (rule length_2E)
  then have "rdn b (dataOff b + i) 2 = Some [x, y]"
    using rdn_data [OF assms(1), of i 2] assms(3) p by simp
  then show ?thesis using p by (simp add: rd_word_def)
qed

lemma ParseFrame_enhanced_safe:
  assumes "wf_buff b" "fbuff fr = Some b" "fheader fr = Some (dataOff b)" "extensionLen fr = 0"
    "fctx fr = c" "c \<noteq> CtxBasic" "parseFrame c fr = (ret, fr')"
  shows "ret \<noteq> MemFault \<and> (ret = DTAP_SUCCESS \<longrightarrow> parsed_in_bounds b fr' \<and> fctx fr' = c)"
proof -
  obtain r f1 where pe: "DTAP_ParseEnhanceFrame fr = (r, f1)" by fastforce
  have s: "r \<noteq> MemFault \<and> (r = DTAP_SUCCESS \<longrightarrow> parsed_in_bounds b f1 \<and> fctx f1 = c)"
    using ParseEnhance_safe [OF assms(1-4) _ pe] assms(5,6) by auto
  show ?thesis
  proof (cases "r = DTAP_SUCCESS")
    case False
    then show ?thesis using assms(6,7) pe s
      by (cases c) (auto simp: DTAP_ParseSimplexAggrFrame_def DTAP_ParseSimplexFragFrame_def
          DTAP_ParseDuplexAggrFrame_def DTAP_ParseDuplexFragFrame_def DTAP_ParseAckFrame_def)
  next
    case True
    then have p: "parsed_in_bounds b f1" "fctx f1 = c" "headerLen f1 = getHeaderLen c"
      using s assms(6) by (auto simp: parsed_in_bounds_def)
    note rw = rd_word_safe [OF assms(1) p(1)]
    have keep: "parsed_in_bounds b (f1\<lparr>sar := x, txSeq := y, reqSeq := z\<rparr>)"
      "parsed_in_bounds b (f1\<lparr>txSeq := y, reqSeq := z\<rparr>)"
      "parsed_in_bounds b (f1\<lparr>ack_reqSeq := y, ack_sBit := w\<rparr>)" for x y z w
      using p by (auto simp: parsed_in_bounds_def)
    have w5: "c \<noteq> CtxAck \<Longrightarrow> \<exists>w. rd_word f1 5 = Some w" using rw [of 5] p assms(6) by (cases c) auto
    have w7: "c = CtxDuplexAggr \<or> c = CtxDuplexFrag \<Longrightarrow> \<exists>w. rd_word f1 7 = Some w"
      using rw [of 7] p by (cases c) auto
    have w4: "c = CtxAck \<Longrightarrow> \<exists>w. rd_word f1 4 = Some w" using rw [of 4] p by auto
    show ?thesis
    proof (cases c)
      case CtxBasic then show ?thesis using assms(6) by simp
    next
      case CtxSimplexAggr then show ?thesis
        using assms(7) pe True w5 keep p(2) by (auto simp: DTAP_ParseSimplexAggrFrame_def)
    next
      case CtxSimplexFrag then show ?thesis
        using assms(7) pe True w5 keep p(2) by (auto simp: DTAP_ParseSimplexFragFrame_def)
    next
      case CtxDuplexAggr then show ?thesis
        using assms(7) pe True w5 w7 keep p(2) by (auto simp: DTAP_ParseDuplexAggrFrame_def)
    next
      case CtxDuplexFrag then show ?thesis
        using assms(7) pe True w5 w7 keep p(2) by (auto simp: DTAP_ParseDuplexFragFrame_def)
    next
      case CtxAck then show ?thesis
        using assms(7) pe True w4 keep p(2) by (auto simp: DTAP_ParseAckFrame_def)
    qed
  qed
qed

lemma ParseBasic_safe:
  assumes "wf_buff b" "4 \<le> dataLen b" "fbuff fr = Some b" "fheader fr = Some (dataOff b)"
    "fctx fr = CtxBasic" "DTAP_ParseBasicFrame fr = (ret, fr')"
  shows "ret \<noteq> MemFault \<and> (ret = DTAP_SUCCESS \<longrightarrow> parsed_in_bounds b fr' \<and> fctx fr' = CtxBasic)"
proof -
  obtain x where x: "rdn b (dataOff b) 1 = Some [x]" using rdn_one [OF assms(1), of 0] assms(2) by auto
  have y: "5 \<le> dataLen b \<Longrightarrow> \<exists>y. rdn b (dataOff b + 4) 1 = Some [y]"
    using rdn_one [OF assms(1), of 4] by fastforce
  have "dataLen b < 18446744073709551616" using assms(1) by (auto simp: wf_buff_def)
  then have s: "sub64 (dataLen b) 4 = dataLen b - 4" "5 \<le> dataLen b \<Longrightarrow> sub64 (dataLen b - 4) 1 = dataLen b - 5"
    using assms(2) by auto
  show ?thesis
  proof (cases "x \<le> TCID_FTC_RFU_END")
    case True
    then show ?thesis using assms x s(1) u16_le [of "dataLen b - 4"]
      by (auto simp: DTAP_ParseBasicFrame_def parsed_in_bounds_def)
  next
    case False
    then show ?thesis using assms x s y u16_le [of "dataLen b - 5"]
      by (cases "5 \<le> dataLen b") (auto simp: DTAP_ParseBasicFrame_def parsed_in_bounds_def)
  qed
qed

lemma ParseFrame_safe:
  assumes "wf_buff b" "DTAP_BASIC_HEADER_LEN \<le> dataLen b"
    "DTAP_ParseFrame ft b (frame0 c0) = (ret, fr)"
  shows "ret \<noteq> MemFault \<and> (ret = DTAP_SUCCESS \<longrightarrow> parsed_in_bounds b fr \<and> getFrameType (fctx fr) = ft)"
proof (cases "DTAP_GetFrameCtx ft g_dtapFrameCtx")
  case None then show ?thesis using assms(3) by (auto simp: DTAP_ParseFrame_def)
next
  case (Some c)
  let ?f = "(frame0 c0)\<lparr>fbuff := Some b, fheader := Some (dataOff b), fctx := c\<rparr>"
  have p: "parseFrame c ?f = (ret, fr)" using assms(3) Some by (simp add: DTAP_ParseFrame_def)
  have ft: "ft = getFrameType c" using GetFrameCtx_SomeD Some .
  show ?thesis
  proof (cases "c = CtxBasic")
    case True
    then show ?thesis using ParseBasic_safe [OF assms(1,2), of ?f ret fr] p ft by auto
  next
    case False
    then show ?thesis
      using ParseFrame_enhanced_safe [OF assms(1) _ _ _ _ False p] ft by (auto simp: frame0_def)
  qed
qed

section \<open>The codec interface\<close>

text \<open>What the transmission modes rely on: a builder and the parser of its frame type agree on
  the fields of the frame and on the bytes on the wire.\<close>

locale frame_codec =
  fixes build :: "byte \<Rightarrow> u16w \<Rightarrow> DTAP_Frame \<Rightarrow> dtap_ret \<times> DTAP_Frame"
    and ft :: nat and hlen :: nat
    and req_ok :: "u16w \<Rightarrow> bool"
  assumes codec: "buildable hlen fr b \<Longrightarrow> req_ok (reqSeq fr) \<Longrightarrow>
    \<exists>fr' b' pf. build tcid c fr = (DTAP_SUCCESS, fr') \<and> fbuff fr' = Some b' \<and>
      DTAP_ParseFrame ft b' (frame0 c0) = (DTAP_SUCCESS, pf) \<and> wire_image c tcid fr b b' pf"
begin

text \<open>A batch of frames that is built and parsed one by one.\<close>

lemma batch:
  assumes "list_all2 (buildable hlen) frs bs" "\<forall>fr\<in>set frs. req_ok (reqSeq fr)"
  shows "\<exists>bs' pfs. length bs' = length frs \<and> length pfs = length frs \<and>
    (\<forall>i<length frs. (\<exists>fr'. build tcid c (frs ! i) = (DTAP_SUCCESS, fr') \<and> fbuff fr' = Some (bs' ! i)) \<and>
       DTAP_ParseFrame ft (bs' ! i) (frame0 c0) = (DTAP_SUCCESS, pfs ! i) \<and>
       wire_image c tcid (frs ! i) (bs ! i) (bs' ! i) (pfs ! i)) \<and>
    concat (map frame_payload pfs) = concat (map buff_data bs)"
  using assms
proof (induction rule: list_all2_induct)
  case Nil then show ?case by auto
next
  case (Cons fr frs b bs)
  obtain fr' b' pf where one: "build tcid c fr = (DTAP_SUCCESS, fr')" "fbuff fr' = Some b'"
      "DTAP_ParseFrame ft b' (frame0 c0) = (DTAP_SUCCESS, pf)" "wire_image c tcid fr b b' pf"
    using codec [OF Cons(1), of tcid c c0] Cons.prems by auto
  obtain bs' pfs where rest: "length bs' = length frs" "length pfs = length frs"
    "\<forall>i<length frs. (\<exists>fr'. build tcid c (frs ! i) = (DTAP_SUCCESS, fr') \<and> fbuff fr' = Some (bs' ! i)) \<and>
       DTAP_ParseFrame ft (bs' ! i) (frame0 c0) = (DTAP_SUCCESS, pfs ! i) \<and>
       wire_image c tcid (frs ! i) (bs ! i) (bs' ! i) (pfs ! i)"
    "concat (map frame_payload pfs) = concat (map buff_data bs)"
    using Cons.IH Cons.prems by auto
  have "frame_payload pf = buff_data b" using one(4) by (simp add: wire_image_def)
  then show ?case
    using one rest
    by (intro exI [of _ "b' # bs'"] exI [of _ "pf # pfs"]) (auto simp: nth_Cons split: nat.splits)
qed

end

interpretation simplex: frame_codec DTAP_BuildSimplexFragFrame DTAP_FRAME_SIMPLEX_FRAG 7 "\<lambda>_. True"
  by unfold_locales (use simplex_frag_roundtrip in blast)

interpretation duplex: frame_codec DTAP_BuildDuplexFragFrame DTAP_FRAME_DUPLEX_FRAG 9 is_seq
  by unfold_locales (use duplex_frag_roundtrip in blast)

section \<open>Properties\<close>


definition demo_buff :: SDF_Buff where
  "demo_buff = \<lparr>dataOff = 14, dataLen = 3, buffLen = 19, bytes = replicate 14 0 @ [1, 2, 3, 0, 0]\<rparr>"

definition demo_frame :: DTAP_Frame where
  "demo_frame = (frame0 CtxDuplexFrag)\<lparr>fbuff := Some demo_buff, fpi := 3, txSeq := 0x3FFF, reqSeq := 7, sar := 1\<rparr>"

lemma demo_buildable: "buildable 9 demo_frame demo_buff"
  by (simp add: buildable_def demo_frame_def demo_buff_def wf_buff_def SDF_BuffTailRoom_def is_seq_def)


text \<open>Acknowledgements survive the wire: without allocation failure the frame is built, its check
  sequence is zero and its length field right, and the receiver parses the same request number,
  the same normal or abnormal kind and the same final bit, with an empty payload.\<close>

lemma ack_frame_roundtrip:
  assumes "mem_ok m" "is_seq (ack_reqSeq fr)"
  shows "\<exists>fr' b' m' pf. DTAP_BuildAckFrame tcid c fr m = (DTAP_SUCCESS, fr', m') \<and> fbuff fr' = Some b' \<and>
    CRC16 c (buff_data b') = 0 \<and> wire_length b' + DTAP_BASIC_HEADER_LEN = dataLen b' \<and>
    DTAP_ParseFrame DTAP_FRAME_ACK b' (frame0 c0) = (DTAP_SUCCESS, pf) \<and>
    DTAP_CheckEnhanceFrameHeader pf \<and>
    ack_reqSeq pf = ack_reqSeq fr \<and> ack_sBit pf = ack_sBit fr \<and>
    DTAP_CheckFrameBit (fbits pf) DTAP_FRAME_F_BIT = DTAP_CheckFrameBit (fbits fr) DTAP_FRAME_F_BIT \<and>
    payloadLen pf = 0"
  by (rule ack_roundtrip [OF assms])

text \<open>(C26) Parsing is memory safe for every received frame of at least the basic header length,
  whatever its type, flags, extension count and extension lengths: no byte outside the data is
  read, and when a parse succeeds the header, the extensions, the payload and the check sequence
  it reports lie inside the data.\<close>

theorem parse_frame_memory_safe:
  assumes "wf_buff b" "DTAP_BASIC_HEADER_LEN \<le> dataLen b"
  shows "fst (DTAP_ParseFrame ft b (frame0 c0)) \<noteq> MemFault \<and>
    (fst (DTAP_ParseFrame ft b (frame0 c0)) = DTAP_SUCCESS \<longrightarrow>
      parsed_in_bounds b (snd (DTAP_ParseFrame ft b (frame0 c0))))"
  using ParseFrame_safe [OF assms, of ft c0] by (cases "DTAP_ParseFrame ft b (frame0 c0)") auto

theorem parse_frame_memory_safe_witness:
  "fst (DTAP_ParseFrame DTAP_FRAME_DUPLEX_FRAG
     \<lparr>dataOff = 0, dataLen = 12, buffLen = 12, bytes = [0x80, 0x34, 8, 0, 3, 1, 0, 2, 0, 200, 1, 1]\<rparr>
     (frame0 CtxBasic)) \<noteq> MemFault"
  using parse_frame_memory_safe [of "\<lparr>dataOff = 0, dataLen = 12, buffLen = 12,
      bytes = [0x80, 0x34, 8, 0, 3, 1, 0, 2, 0, 200, 1, 1]\<rparr>"] by (simp add: wf_buff_def)

text \<open>What the builder makes of a basic frame, and what the parser makes of that.\<close>

lemma basic_build_parse:
  assumes "fbuff fr = Some b" "wf_buff b" "5 \<le> dataOff b" "dataLen b + 5 < 65536"
  obtains b' pf where "DTAP_BuildBasicFrame tcid fr = (DTAP_SUCCESS, fr\<lparr>fbuff := Some b'\<rparr>)" "wf_buff b'"
    "take 2 (buff_data b') = [tcid, 0]" "dataLen b' = headerLen pf + dataLen b" "4 \<le> headerLen pf" "headerLen pf \<le> 5"
    "DTAP_ParseFrame DTAP_FRAME_BASIC b' (frame0 c0) = (DTAP_SUCCESS, pf)"
    "fbuff pf = Some b'" "fctx pf = CtxBasic" "frame_typeBits pf = 0" "DTAP_CheckBasicFrameHeader pf"
    "wire_length b' + DTAP_BASIC_HEADER_LEN = dataLen b'"
    "fpi pf = (if tcid > TCID_FTC_RFU_END then fpi fr else DTAP_PI_NONE)"
    "drop (headerLen pf) (buff_data b') = buff_data b" "payloadLen pf = dataLen b"
proof -
  let ?hl = "if tcid > TCID_FTC_RFU_END then 5 else 4 :: nat"
  let ?n = "dataLen b + ?hl - DTAP_BASIC_HEADER_LEN"
  let ?tb = "typeBits DTAP_FRAME_BASIC False False False False"
  let ?hdr = "[tcid, ?tb] @ ENCODE2BYTE_LITTLE (of_nat ?n) @ (if tcid > TCID_FTC_RFU_END then [fpi fr] else [])"
  have lh: "length ?hdr = ?hl" by simp
  obtain b' where b': "buff_prepend ?hdr b = Some b'"
    using buff_prepend_Some [of ?hdr b] assms(3) lh by fastforce
  have w: "wf_buff b'" and d: "buff_data b' = ?hdr @ buff_data b" and l: "dataLen b' = ?hl + dataLen b"
    using buff_prepend_SomeD [OF assms(2) b'] lh by simp_all
  have tb: "?tb AND 0xF0 = 0" by (simp add: typeBits_def)
  have build: "DTAP_BuildBasicFrame tcid fr = (DTAP_SUCCESS, fr\<lparr>fbuff := Some b'\<rparr>)"
    using assms(1) b' by (simp only: DTAP_BuildBasicFrame_def Let_def option.case)
  have len: "wire_length b' + 4 = dataLen b'"
    using wire_length_hdr [OF d [unfolded append_assoc]] assms(4) l by simp
  have r0: "rdn b' (dataOff b') 1 = Some [tcid]"
    using rdn_data0 [OF w, of 1] d l by simp
  have r4: "rdn b' (dataOff b' + 4) 1 = Some [fpi fr]" if "tcid > TCID_FTC_RFU_END"
    using rdn_data [OF w, of 4 1] d l that by (simp add: ENCODE2BYTE_LITTLE_def numeral_eq_Suc)
  have lt: "dataLen b' < 18446744073709551616" using w by (auto simp: wf_buff_def)
  let ?pf = "(frame0 c0)\<lparr>fbuff := Some b', fheader := Some (dataOff b'), fctx := CtxBasic,
     fpi := (if tcid > TCID_FTC_RFU_END then fpi fr else DTAP_PI_NONE), headerLen := ?hl, payloadLen := dataLen b\<rparr>"
  have parse: "DTAP_ParseFrame DTAP_FRAME_BASIC b' (frame0 c0) = (DTAP_SUCCESS, ?pf)"
    using r0 r4 l lt assms(4)
    by (cases "tcid > TCID_FTC_RFU_END")
      (auto simp: DTAP_ParseFrame_def DTAP_ParseBasicFrame_def not_less)
  have t0: "?tb = 0" by (simp add: typeBits_def)
  have ft: "frame_typeBits ?pf = ?tb" using frame_typeBits_data [OF w, of ?pf] d by simp
  show thesis
    by (rule that [OF build w _ _ _ _ parse]) (use len d lh l ft tb t0 in \<open>simp_all add: DTAP_CheckBasicFrameHeader_def\<close>)
qed

text \<open>Basic frames survive the wire: on a fixed channel (identifier at most \<open>0x1D\<close>) the header
  omits the protocol identifier and the parser reports none, on any other channel it carries it;
  in both cases the payload behind the reported header is the data that was sent, all flags are
  clear and the length field is right.\<close>

lemma basic_frame_roundtrip:
  assumes "fbuff fr = Some b" "wf_buff b" "5 \<le> dataOff b" "dataLen b + 5 < 65536"
  shows "\<exists>fr' b' pf. DTAP_BuildBasicFrame tcid fr = (DTAP_SUCCESS, fr') \<and> fbuff fr' = Some b' \<and>
    DTAP_ParseFrame DTAP_FRAME_BASIC b' (frame0 c0) = (DTAP_SUCCESS, pf) \<and>
    DTAP_CheckBasicFrameHeader pf \<and> wire_length b' + DTAP_BASIC_HEADER_LEN = dataLen b' \<and>
    fpi pf = (if tcid > TCID_FTC_RFU_END then fpi fr else DTAP_PI_NONE) \<and>
    drop (headerLen pf) (buff_data b') = buff_data b \<and> payloadLen pf = dataLen b"
proof -
  obtain b' pf where "DTAP_BuildBasicFrame tcid fr = (DTAP_SUCCESS, fr\<lparr>fbuff := Some b'\<rparr>)"
    "DTAP_ParseFrame DTAP_FRAME_BASIC b' (frame0 c0) = (DTAP_SUCCESS, pf)" "DTAP_CheckBasicFrameHeader pf"
    "wire_length b' + DTAP_BASIC_HEADER_LEN = dataLen b'"
    "fpi pf = (if tcid > TCID_FTC_RFU_END then fpi fr else DTAP_PI_NONE)"
    "drop (headerLen pf) (buff_data b') = buff_data b" "payloadLen pf = dataLen b"
    by (rule basic_build_parse [OF assms, of tcid c0])
  then show ?thesis by (intro exI [of _ "fr\<lparr>fbuff := Some b'\<rparr>"] exI [of _ b'] exI [of _ pf]) simp
qed

end
