(* ===== verification/Dtap_Frag.thy ===== *)
theory Dtap_Frag
  imports Dtap_Frame
begin

text \<open>
  Fragmentation, reassembly and disaggregation, the first part of
  \<^verbatim>\<open>services/stack/src/dp/dtap/src/dtap_frame_enhance.c\<close>. A data unit is cut into frames of at most
  \<open>mps\<close> payload bytes with a segmentation state each; the receiver collects the fragments in
  \<open>frags\<close> and hands the complete unit to the upper layer. Releasing memory is not modelled.
\<close>

section \<open>Sending side\<close>

text \<open>The arguments are \<^verbatim>\<open>uint16_t\<close>, the sum is computed in \<^verbatim>\<open>int\<close>, the result is \<^verbatim>\<open>uint16_t\<close>.\<close>

definition DTAP_GetFragmentFramesNum :: "nat \<Rightarrow> nat \<Rightarrow> nat" where
  "DTAP_GetFragmentFramesNum len mps = (if u16 mps = 0 then 1 else u16 ((u16 len + u16 mps - 1) div u16 mps))"

definition DTAP_GetFragFrameSar :: "nat \<Rightarrow> nat \<Rightarrow> nat" where
  "DTAP_GetFragFrameSar fragCnt curFragCnt =
     (if fragCnt = 1 then DTAP_SAR_UNSEG
      else if curFragCnt = 1 then DTAP_SAR_FIRST
      else if curFragCnt < fragCnt then DTAP_SAR_MID
      else DTAP_SAR_LAST)"

text \<open>The loop of \<open>DTAP_FragmentFrame\<close>: \<open>rest\<close> is what \<open>data\<close> and \<open>totalLen\<close> describe, \<open>acc\<close> the frames
  stored in \<open>outFrames\<close> so far. \<open>None\<close> is the jump to \<open>ERR\<close>, which destroys them.\<close>

function fragment_loop :: "nat \<Rightarrow> nat \<Rightarrow> nat \<Rightarrow> byte list \<Rightarrow> DTAP_Frame list \<Rightarrow> mem \<Rightarrow>
    DTAP_Frame list option \<times> mem" where
  "fragment_loop mps frameType cnt rest acc m =
     (if rest = [] then (Some acc, m)
      else case DTAP_CreateFrame frameType m of
        (None, m1) \<Rightarrow> (None, m1)
      | (Some fr, m1) \<Rightarrow>
          let buffLen = (if mps = 0 then length rest else if length rest < mps then length rest else mps) in
          (case SDF_BuffNewWithReserve buffLen m1 of
             (None, m2) \<Rightarrow> (None, m2)
           | (Some sub, m2) \<Rightarrow>
               (case buff_append (take buffLen rest) sub of
                  None \<Rightarrow> (None, m2)
                | Some sub' \<Rightarrow>
                    fragment_loop mps frameType cnt (drop buffLen rest)
                      (acc @ [fr\<lparr>fbuff := Some sub',
                                 sar := DTAP_GetFragFrameSar cnt (length acc + 1)\<rparr>]) m2)))"
  by pat_completeness auto
termination
  by (relation "measure (\<lambda>(_, _, _, rest, _, _). length rest)") auto

declare fragment_loop.simps [simp del]

text \<open>The output array and counter of \<open>DTAP_FragmentFrame\<close>; the counter stays zero, as the caller
  initialised it, when the function returns early.\<close>

definition DTAP_FragmentFrame :: "SDF_Buff \<Rightarrow> nat \<Rightarrow> nat \<Rightarrow> mem \<Rightarrow> DTAP_Frame list \<times> nat \<times> mem" where
  "DTAP_FragmentFrame b mps frameType m =
     (if dataLen b = 0 then ([], 0, m)
      else if frameType \<noteq> DTAP_FRAME_SIMPLEX_FRAG \<and> frameType \<noteq> DTAP_FRAME_DUPLEX_FRAG then ([], 0, m)
      else let cnt = DTAP_GetFragmentFramesNum (dataLen b) mps in
        if cnt > DTAP_MAX_FRAGMENT_NUM then ([], 0, m)
        else case fragment_loop mps frameType cnt (buff_data b) [] m of
               (None, m') \<Rightarrow> ([], 0, m')
             | (Some frs, m') \<Rightarrow> (frs, cnt, m'))"

section \<open>Receiving side\<close>

abbreviation (input) DTAP_MAX_FRAG_TOTAL_LEN :: nat where "DTAP_MAX_FRAG_TOTAL_LEN \<equiv> 65535"

definition DTAP_UpdateFragmentFrame :: "SDF_Buff \<Rightarrow> SDF_Buff \<Rightarrow> mem \<Rightarrow> dtap_ret \<times> SDF_Buff option \<times> mem" where
  "DTAP_UpdateFragmentFrame buffs b m =
     (let tot = dataLen buffs + dataLen b in
      if tot > DTAP_MAX_FRAG_TOTAL_LEN then (DTAP_ENHANCED_FRAME_FRAGMENT_FRAME_LEN_ERR, None, m)
      else case SDF_BuffNewWithReserve tot m of
        (None, m1) \<Rightarrow> (DTAP_ENHANCED_FRAME_UPDATE_FRAG_FRAME_ERR, None, m1)
      | (Some n0, m1) \<Rightarrow>
          (case buff_append (buff_data buffs) n0 of
             None \<Rightarrow> (DTAP_ENHANCED_FRAME_UPDATE_FRAG_FRAME_ERR, None, m1)
           | Some n1 \<Rightarrow>
               (case buff_append (buff_data b) n1 of
                  None \<Rightarrow> (DTAP_ENHANCED_FRAME_UPDATE_FRAG_FRAME_ERR, None, m1)
                | Some n2 \<Rightarrow> (DTAP_SUCCESS, Some n2, m1))))"

text \<open>What a reception works on: the allocator script and the log of the upcalls.\<close>

type_synonym rx_env = "mem \<times> deliveries"

definition upcall :: "recv_cb option \<Rightarrow> DTAP_Data_Info \<Rightarrow> byte list \<Rightarrow> deliveries \<Rightarrow> dtap_ret \<times> deliveries" where
  "upcall recvCb info dat dl =
     (case recvCb of None \<Rightarrow> (DTAP_SUCCESS, dl) | Some cb \<Rightarrow> call_recv cb info dat dl)"

text \<open>The frame's buffer is trimmed in place, so the updated frame is part of the result.\<close>

definition DTAP_RecvFragmentFrame ::
    "SDF_Buff option \<Rightarrow> DTAP_Frame \<Rightarrow> DTAP_Data_Info \<Rightarrow> recv_cb option \<Rightarrow> rx_env \<Rightarrow>
     dtap_ret \<times> DTAP_Frame \<times> SDF_Buff option \<times> rx_env" where
  "DTAP_RecvFragmentFrame frags fr info recvCb env =
     (case env of (m, dl) \<Rightarrow>
      case fbuff fr of
        None \<Rightarrow> (DTAP_ENHANCED_FRAME_TRIM_PREFIX_ERR, fr, frags, env)
      | Some b0 \<Rightarrow>
      case SDF_BuffTrimPrefix b0 (headerLen fr + extensionLen fr) of
        None \<Rightarrow> (DTAP_ENHANCED_FRAME_TRIM_PREFIX_ERR, fr, frags, env)
      | Some b1 \<Rightarrow>
      case SDF_BuffTrimSuffix b1 DTAP_CRC_LEN of
        None \<Rightarrow> (DTAP_ENHANCED_FRAME_TRIM_SUFFIX_ERR, fr\<lparr>fbuff := Some b1\<rparr>, frags, env)
      | Some b \<Rightarrow>
        let fr1 = fr\<lparr>fbuff := Some b\<rparr> in
        if sar fr = DTAP_SAR_UNSEG then
          (case upcall recvCb info (buff_data b) dl of (result, dl') \<Rightarrow>
             ((if result = DTAP_TRANS_RELIABLE_TRANS_CHANNEL_FULL then result else DTAP_SUCCESS),
              fr1, frags, (m, dl')))
        else if sar fr = DTAP_SAR_FIRST then
          (case SDF_BuffCopy b m of (cp, m') \<Rightarrow>
             ((if frags \<noteq> None then DTAP_ENHANCED_FRAME_DUP_FIRST_FRAG_FRAME else DTAP_SUCCESS),
              fr1, cp, (m', dl)))
        else if sar fr = DTAP_SAR_MID \<or> sar fr = DTAP_SAR_LAST then
          (case frags of
             None \<Rightarrow> (DTAP_ENHANCED_FRAME_NO_FIRST_FRAG_FRAME, fr1, None, (m, dl))
           | Some bs \<Rightarrow>
               (case DTAP_UpdateFragmentFrame bs b m of (ret, frags', m') \<Rightarrow>
                  (case frags' of
                     Some n \<Rightarrow>
                       if sar fr = DTAP_SAR_LAST then
                         (case upcall recvCb info (buff_data n) dl of (result, dl') \<Rightarrow>
                            ((if result = DTAP_TRANS_RELIABLE_TRANS_CHANNEL_FULL then result else ret),
                             fr1, None, (m', dl')))
                       else (ret, fr1, frags', (m', dl))
                   | None \<Rightarrow> (ret, fr1, None, (m', dl)))))
        else (DTAP_SUCCESS, fr1, frags, (m, dl)))"

text \<open>The loop of \<open>DTAP_RecvAggregateFrame\<close>: \<open>sdu\<close> is the offset of the current unit's header and
  \<open>tot\<close> the bytes left from there on.\<close>

function aggregate_loop :: "SDF_Buff \<Rightarrow> nat \<Rightarrow> nat \<Rightarrow> DTAP_Frame \<Rightarrow> DTAP_Data_Info \<Rightarrow> recv_cb \<Rightarrow> rx_env \<Rightarrow>
    dtap_ret \<times> DTAP_Frame \<times> rx_env" where
  "aggregate_loop b sdu tot fr info cb env =
     (case env of (m, dl) \<Rightarrow>
      if tot < 2 then (DTAP_ENHANCED_FRAME_SDU_HDR_LEN_TOO_SHORT, fr, env)
      else case rdn b sdu 2 of
        Some [l0, l1] \<Rightarrow>
          (let left = tot - 2; sduLen = unat (DECODE2BYTE_LITTLE l0 l1) in
           if sduLen = 0 \<or> left < sduLen then (DTAP_ENHANCED_FRAME_SDU_LEN_TOO_SHORT, fr, env)
           else case SDF_BuffNew sduLen m of
             (None, m1) \<Rightarrow> (DTAP_ENHANCED_FRAME_BUFF_NEW_ERR, fr, (m1, dl))
           | (Some n0, m1) \<Rightarrow>
               (case rdn b (sdu + 2) sduLen of
                  None \<Rightarrow> (MemFault, fr, (m1, dl))
                | Some dat \<Rightarrow>
                    (case buff_append dat n0 of
                       None \<Rightarrow> (DTAP_ENHANCED_FRAME_APPEND_ERR, fr, (m1, dl))
                     | Some n1 \<Rightarrow>
                         (case call_recv cb info (buff_data n1) dl of (result, dl') \<Rightarrow>
                            if result = DTAP_TRANS_RELIABLE_TRANS_CHANNEL_FULL
                            then (result, fr\<lparr>fpayload := Some sdu, payloadLen := left\<rparr>, (m1, dl'))
                            else if left - sduLen > 0
                            then aggregate_loop b (sdu + 2 + sduLen) (left - sduLen) fr info cb (m1, dl')
                            else (DTAP_SUCCESS, fr, (m1, dl'))))))
      | _ \<Rightarrow> (MemFault, fr, env))"
  by pat_completeness auto
termination
  by (relation "measure (\<lambda>(_, _, tot, _). tot)") auto

declare aggregate_loop.simps [simp del]

definition DTAP_RecvAggregateFrame :: "DTAP_Frame \<Rightarrow> DTAP_Data_Info \<Rightarrow> recv_cb option \<Rightarrow> rx_env \<Rightarrow>
    dtap_ret \<times> DTAP_Frame \<times> rx_env" where
  "DTAP_RecvAggregateFrame fr info recvCb env =
     (case (fbuff fr, fpayload fr) of
        (Some b, Some p) \<Rightarrow>
          (case recvCb of
             None \<Rightarrow> (DTAP_SUCCESS, fr, env)
           | Some cb \<Rightarrow> if payloadLen fr = 0 then (DTAP_SUCCESS, fr, env)
                        else aggregate_loop b p (payloadLen fr) fr info cb env)
      | _ \<Rightarrow> (DTAP_ENHANCED_FRAME_NULL, fr, env))"

section \<open>Fragments\<close>

lemma frames_num:
  assumes "0 < mps" "mps < 65536" "length xs < 65536" "xs \<noteq> []"
  shows "DTAP_GetFragmentFramesNum (length xs) mps = length (chunks mps xs)"
proof -
  have "(length xs + mps - 1) div mps \<le> length xs + mps - 1" by (rule div_le_dividend)
  moreover have "(length xs + mps - 1) div mps \<le> length xs"
  proof -
    have "length xs + mps - 1 < (length xs + 1) * mps"
      using assms(1,4) by (cases mps) (auto simp: algebra_simps)
    then have "(length xs + mps - 1) div mps < length xs + 1"
      using assms(1) by (simp add: less_mult_imp_div_less)
    then show ?thesis by simp
  qed
  ultimately show ?thesis
    using assms by (simp add: DTAP_GetFragmentFramesNum_def length_chunks)
qed

text \<open>A fragment fresh from \<open>DTAP_FragmentFrame\<close>: a cleared frame whose buffer holds the piece and
  keeps the reserve for header and check sequence.\<close>

definition fresh_frag :: "frame_ctx \<Rightarrow> DTAP_Frame \<Rightarrow> byte list \<Rightarrow> bool" where
  "fresh_frag cx fr piece \<longleftrightarrow> (\<exists>b s. fr = (frame0 cx)\<lparr>fbuff := Some b, sar := s\<rparr> \<and> wf_buff b \<and>
     buff_data b = piece \<and> dataOff b = 14 \<and> SDF_BuffTailRoom b = 2)"

lemma reserve_append:
  assumes "mem_ok m" "length new + 16 < 4294967296"
  obtains b b' m' where "SDF_BuffNewWithReserve (length new) m = (Some b, m')" "mem_ok m'"
    "buff_append new b = Some b'" "wf_buff b'" "buff_data b' = new" "dataOff b' = 14"
    "SDF_BuffTailRoom b' = 2" "dataLen b' = length new"
proof -
  obtain b m' where b: "SDF_BuffNewWithReserve (length new) m = (Some b, m')" "mem_ok m'"
    using SDF_BuffNewWithReserve_ok [OF assms(1)] by blast
  have s: "wf_buff b" "buff_data b = []" "dataLen b = 0" "SDF_BuffTailRoom b = length new + 2" "dataOff b = 14"
    using SDF_BuffNewWithReserve_SomeD [OF b(1) assms(2)] by auto
  obtain b' where b': "buff_append new b = Some b'"
    using buff_append_Some [OF s(1), of new] s(4) by auto
  note d = buff_append_SomeD [OF s(1) b']
  have "SDF_BuffTailRoom b' = 2"
    using d s SDF_BuffTailRoom_wf [OF s(1)] SDF_BuffTailRoom_wf [of b'] by simp
  then show thesis using that [OF b b'] d s by simp
qed

lemma fragment_loop_ok:
  assumes "mem_ok m" "length rest + 16 < 4294967296" "DTAP_GetFrameCtx ft g_dtapFrameCtx = Some cx"
  shows "\<exists>frs m'. fragment_loop mps ft cnt rest acc m = (Some (acc @ frs), m') \<and> mem_ok m' \<and>
    list_all2 (fresh_frag cx) frs (chunks mps rest) \<and>
    (\<forall>i<length frs. sar (frs ! i) = DTAP_GetFragFrameSar cnt (length acc + i + 1))"
  using assms(1,2)
proof (induction "length rest" arbitrary: rest acc m rule: less_induct)
  case less
  show ?case
  proof (cases "rest = []")
    case True then show ?thesis using less.prems by (subst fragment_loop.simps) auto
  next
    case False
    define bl where "bl = (if mps = 0 then length rest else if length rest < mps then length rest else mps)"
    have bl: "0 < bl" "bl \<le> length rest" "length (take bl rest) = bl" using False by (auto simp: bl_def)
    obtain m1 where m1: "SDF_MemAlloc m = (True, m1)" "mem_ok m1" using SDF_MemAlloc_okE [OF less.prems(1)] .
    obtain fr where c: "DTAP_CreateFrame ft m = (Some fr, m1)" "fr = frame0 cx" "mem_ok m1"
      using m1 assms(3) by (simp add: DTAP_CreateFrame_def)
    have "length (take bl rest) + 16 < 4294967296" using bl(2) less.prems(2) by simp
    from reserve_append [OF c(3) this, unfolded bl(3)]
    obtain b b' m2 where r: "SDF_BuffNewWithReserve bl m1 = (Some b, m2)" "mem_ok m2"
      "buff_append (take bl rest) b = Some b'" "wf_buff b'" "buff_data b' = take bl rest" "dataOff b' = 14"
      "SDF_BuffTailRoom b' = 2" by blast
    let ?fr = "fr\<lparr>fbuff := Some b', sar := DTAP_GetFragFrameSar cnt (length acc + 1)\<rparr>"
    have ff: "fresh_frag cx ?fr (take bl rest)" using r c(2) by (auto simp: fresh_frag_def)
    have step: "fragment_loop mps ft cnt rest acc m = fragment_loop mps ft cnt (drop bl rest) (acc @ [?fr]) m2"
      using False c r by (subst fragment_loop.simps) (simp add: Let_def bl_def)
    have "length (drop bl rest) < length rest" using bl False by simp
    moreover have "length (drop bl rest) + 16 < 4294967296" using less.prems(2) by simp
    ultimately obtain frs m' where ih: "fragment_loop mps ft cnt (drop bl rest) (acc @ [?fr]) m2 = (Some ((acc @ [?fr]) @ frs), m')"
      "mem_ok m'" "list_all2 (fresh_frag cx) frs (chunks mps (drop bl rest))"
      "\<forall>i<length frs. sar (frs ! i) = DTAP_GetFragFrameSar cnt (length acc + 1 + i + 1)"
      using less.hyps [of "drop bl rest" m2 "acc @ [?fr]"] r(2) by auto
    have ch: "chunks mps rest = take bl rest # chunks mps (drop bl rest)"
      using False by (subst chunks.simps) (auto simp: bl_def)
    have "\<forall>i<length (?fr # frs). sar ((?fr # frs) ! i) = DTAP_GetFragFrameSar cnt (length acc + i + 1)"
      using ih(4) by (auto simp: nth_Cons split: nat.splits)
    then show ?thesis using step ih ch ff
      by (intro exI [of _ "?fr # frs"] exI [of _ m']) auto
  qed
qed

section \<open>Reassembly\<close>

text \<open>\<open>rx_frag fr d\<close>: a parsed fragment whose data behind the headers and before the check sequence
  is \<open>d\<close>.\<close>

definition rx_frag :: "DTAP_Frame \<Rightarrow> byte list \<Rightarrow> bool" where
  "rx_frag fr d \<longleftrightarrow> (\<exists>b. fbuff fr = Some b \<and> wf_buff b \<and>
     headerLen fr + extensionLen fr + length d + DTAP_CRC_LEN = dataLen b \<and>
     take (length d) (drop (headerLen fr + extensionLen fr) (buff_data b)) = d)"

lemma wire_image_rx_frag: "wire_image c tcid fr b b' pf \<Longrightarrow> wf_buff b \<Longrightarrow> rx_frag pf (buff_data b)"
proof -
  assume a: "wire_image c tcid fr b b' pf" "wf_buff b"
  then have "frame_payload pf = take (payloadLen pf) (drop (headerLen pf + extensionLen pf) (buff_data b'))"
    by (intro frame_payload_data) (auto simp: wire_image_def)
  with a show ?thesis by (auto simp: wire_image_def rx_frag_def)
qed

lemma rx_frag_trim:
  assumes "rx_frag fr d"
  obtains b b1 b2 where "fbuff fr = Some b" "SDF_BuffTrimPrefix b (headerLen fr + extensionLen fr) = Some b1"
    "SDF_BuffTrimSuffix b1 DTAP_CRC_LEN = Some b2" "wf_buff b2" "buff_data b2 = d" "dataLen b2 = length d"
proof -
  let ?h = "headerLen fr + extensionLen fr"
  obtain b where b: "fbuff fr = Some b" "wf_buff b" "?h + length d + 2 = dataLen b"
    "take (length d) (drop ?h (buff_data b)) = d" using assms by (auto simp: rx_frag_def)
  obtain b1 where b1: "SDF_BuffTrimPrefix b ?h = Some b1"
    using b(3) by (auto simp: SDF_BuffTrimPrefix_def)
  note p = SDF_BuffTrimPrefix_SomeD [OF b(2) b1]
  have "dataLen b1 = length d + 2" using p b(3) by linarith
  then obtain b2 where b2: "SDF_BuffTrimSuffix b1 2 = Some b2"
    by (simp add: SDF_BuffTrimSuffix_def)
  note s = SDF_BuffTrimSuffix_SomeD [of b1 2 b2, OF _ b2]
  show thesis using that [OF b(1) b1 b2] p s b(3,4) by auto
qed

lemma update_fragment_ok:
  assumes "mem_ok m" "wf_buff bs" "wf_buff b" "dataLen bs + dataLen b \<le> DTAP_MAX_FRAG_TOTAL_LEN"
  obtains n m' where "DTAP_UpdateFragmentFrame bs b m = (DTAP_SUCCESS, Some n, m')" "mem_ok m'"
    "wf_buff n" "buff_data n = buff_data bs @ buff_data b" "dataLen n = dataLen bs + dataLen b"
proof -
  let ?t = "dataLen bs + dataLen b"
  obtain n0 m' where n0: "SDF_BuffNewWithReserve ?t m = (Some n0, m')" "mem_ok m'"
    using SDF_BuffNewWithReserve_ok [OF assms(1)] by blast
  have s: "wf_buff n0" "buff_data n0 = []" "dataLen n0 = 0" "SDF_BuffTailRoom n0 = ?t + 2" "dataOff n0 = 14"
    using SDF_BuffNewWithReserve_SomeD [OF n0(1)] assms(4) by auto
  obtain n1 where n1: "buff_append (buff_data bs) n0 = Some n1"
    using buff_append_Some [OF s(1), of "buff_data bs"] s(4) assms(2) by auto
  note a1 = buff_append_SomeD [OF s(1) n1]
  have "SDF_BuffTailRoom n1 = dataLen b + 2"
    using a1 s SDF_BuffTailRoom_wf [OF s(1)] SDF_BuffTailRoom_wf [of n1] assms(2) by simp
  then obtain n2 where n2: "buff_append (buff_data b) n1 = Some n2"
    using buff_append_Some [of n1 "buff_data b"] a1 assms(3) by auto
  note a2 = buff_append_SomeD [of n1 "buff_data b" n2, OF _ n2]
  show thesis
    by (rule that [of n2 m'])
      (use n0 n1 n2 a1 a2 s assms in \<open>auto simp: DTAP_UpdateFragmentFrame_def Let_def\<close>)
qed

text \<open>Feeding fragments one after the other, as the reliable mode does with the frames that are in
  sequence.\<close>

fun recv_frames :: "SDF_Buff option \<Rightarrow> DTAP_Frame list \<Rightarrow> DTAP_Data_Info \<Rightarrow> recv_cb option \<Rightarrow> rx_env \<Rightarrow>
    SDF_Buff option \<times> rx_env" where
  "recv_frames frags [] info cb env = (frags, env)"
| "recv_frames frags (fr # frs) info cb env =
     (case DTAP_RecvFragmentFrame frags fr info cb env of
        (ret, fr', frags', env') \<Rightarrow> recv_frames frags' frs info cb env')"

lemma recv_unseg:
  assumes "rx_frag fr d" "sar fr = DTAP_SAR_UNSEG"
  obtains fr' r where "DTAP_RecvFragmentFrame frags fr info (Some cb) (m, dl) =
    (r, fr', frags, (m, dl @ [(info, d, cb dl info d)]))"
    "r = (if cb dl info d = DTAP_TRANS_RELIABLE_TRANS_CHANNEL_FULL then cb dl info d else DTAP_SUCCESS)"
  by (rule rx_frag_trim [OF assms(1)])
    (use assms(2) that in \<open>auto simp: DTAP_RecvFragmentFrame_def upcall_def call_recv_def Let_def\<close>)

lemma recv_first:
  assumes "rx_frag fr d" "sar fr = DTAP_SAR_FIRST" "mem_ok m"
  obtains fr' r n m' where "DTAP_RecvFragmentFrame frags fr info cb (m, dl) = (r, fr', Some n, (m', dl))"
    "wf_buff n" "buff_data n = d" "dataLen n = length d" "mem_ok m'"
proof -
  obtain b b1 b2 where b: "fbuff fr = Some b" "SDF_BuffTrimPrefix b (headerLen fr + extensionLen fr) = Some b1"
    "SDF_BuffTrimSuffix b1 DTAP_CRC_LEN = Some b2" "wf_buff b2" "buff_data b2 = d" "dataLen b2 = length d"
    using rx_frag_trim [OF assms(1)] by blast
  obtain m' where m': "SDF_BuffCopy b2 m = (Some b2, m')" "mem_ok m'"
    using SDF_BuffCopy_ok [OF assms(3) b(4)] by blast
  then show thesis
    using that [of _ _ b2 m'] b assms(2) by (auto simp: DTAP_RecvFragmentFrame_def Let_def)
qed

lemma recv_next:
  assumes "rx_frag fr d" "sar fr = DTAP_SAR_MID \<or> sar fr = DTAP_SAR_LAST" "mem_ok m" "wf_buff bs"
    "dataLen bs + length d \<le> DTAP_MAX_FRAG_TOTAL_LEN"
  obtains fr' r n m' where "wf_buff n" "buff_data n = buff_data bs @ d" "dataLen n = dataLen bs + length d"
    "mem_ok m'"
    "DTAP_RecvFragmentFrame (Some bs) fr info (Some cb) (m, dl) =
      (if sar fr = DTAP_SAR_LAST
       then (r, fr', None, (m', dl @ [(info, buff_data bs @ d, cb dl info (buff_data bs @ d))]))
       else (DTAP_SUCCESS, fr', Some n, (m', dl)))"
proof -
  obtain b b1 b2 where b: "fbuff fr = Some b" "SDF_BuffTrimPrefix b (headerLen fr + extensionLen fr) = Some b1"
    "SDF_BuffTrimSuffix b1 DTAP_CRC_LEN = Some b2" "wf_buff b2" "buff_data b2 = d" "dataLen b2 = length d"
    using rx_frag_trim [OF assms(1)] by blast
  obtain n m' where u: "DTAP_UpdateFragmentFrame bs b2 m = (DTAP_SUCCESS, Some n, m')" "mem_ok m'"
    "wf_buff n" "buff_data n = buff_data bs @ buff_data b2" "dataLen n = dataLen bs + dataLen b2"
    by (rule update_fragment_ok [OF assms(3,4) b(4)]) (use assms(5) b(6) in auto)
  let ?d = "buff_data bs @ d"
  let ?r = "if cb dl info ?d = DTAP_TRANS_RELIABLE_TRANS_CHANNEL_FULL then cb dl info ?d else DTAP_SUCCESS"
  have "DTAP_RecvFragmentFrame (Some bs) fr info (Some cb) (m, dl) =
      (if sar fr = DTAP_SAR_LAST
       then (?r, fr\<lparr>fbuff := Some b2\<rparr>, None, (m', dl @ [(info, ?d, cb dl info ?d)]))
       else (DTAP_SUCCESS, fr\<lparr>fbuff := Some b2\<rparr>, Some n, (m', dl)))"
    using u b assms(2)
    by (elim disjE) (simp_all add: DTAP_RecvFragmentFrame_def upcall_def call_recv_def Let_def)
  then show thesis using that [of n m' ?r "fr\<lparr>fbuff := Some b2\<rparr>"] u b by simp
qed

lemma recv_tail:
  assumes "list_all2 rx_frag frs ds" "frs \<noteq> []" "wf_buff bs" "mem_ok m"
    "dataLen bs + length (concat ds) \<le> DTAP_MAX_FRAG_TOTAL_LEN"
    "\<forall>i<length frs. sar (frs ! i) = (if i + 1 < length frs then DTAP_SAR_MID else DTAP_SAR_LAST)"
  shows "\<exists>m'. mem_ok m' \<and> recv_frames (Some bs) frs info (Some cb) (m, dl) =
    (None, (m', dl @ [(info, buff_data bs @ concat ds, cb dl info (buff_data bs @ concat ds))]))"
  using assms
proof (induction frs ds arbitrary: bs m rule: list_all2_induct)
  case Nil then show ?case by simp
next
  case (Cons fr frs d ds)
  have len: "dataLen bs + length d \<le> DTAP_MAX_FRAG_TOTAL_LEN" using Cons.prems by simp
  have sar0: "sar fr = (if frs = [] then DTAP_SAR_LAST else DTAP_SAR_MID)"
    using Cons.prems(5) by (cases frs) auto
  obtain fr' r n m1 where n: "wf_buff n" "buff_data n = buff_data bs @ d" "dataLen n = dataLen bs + length d"
    "mem_ok m1" "DTAP_RecvFragmentFrame (Some bs) fr info (Some cb) (m, dl) =
      (if sar fr = DTAP_SAR_LAST
       then (r, fr', None, (m1, dl @ [(info, buff_data bs @ d, cb dl info (buff_data bs @ d))]))
       else (DTAP_SUCCESS, fr', Some n, (m1, dl)))"
    using recv_next [OF Cons(1) _ Cons.prems(3,2) len, of info cb dl] sar0 by metis
  show ?case
  proof (cases "frs = []")
    case True
    then have "ds = []" using Cons(2) by simp
    then show ?thesis using True n sar0 by simp
  next
    case False
    have "\<forall>i<length frs. sar (frs ! i) = (if i + 1 < length frs then DTAP_SAR_MID else DTAP_SAR_LAST)"
      using Cons.prems(5) by fastforce
    then have "\<exists>m'. mem_ok m' \<and> recv_frames (Some n) frs info (Some cb) (m1, dl) =
        (None, (m', dl @ [(info, buff_data n @ concat ds, cb dl info (buff_data n @ concat ds))]))"
      using Cons.IH [of n m1] False n Cons.prems(4) by auto
    then show ?thesis using False n sar0 by auto
  qed
qed

lemma recv_all:
  assumes "list_all2 rx_frag frs ds" "frs \<noteq> []" "mem_ok m" "length (concat ds) \<le> DTAP_MAX_FRAG_TOTAL_LEN"
    "\<forall>i<length frs. sar (frs ! i) = DTAP_GetFragFrameSar (length frs) (i + 1)"
  shows "\<exists>m'. recv_frames None frs info (Some cb) (m, dl) =
    (None, (m', dl @ [(info, concat ds, cb dl info (concat ds))]))"
proof -
  obtain fr frs' d ds' where c: "frs = fr # frs'" "ds = d # ds'" "rx_frag fr d" "list_all2 rx_frag frs' ds'"
    using assms(1,2) by (cases frs; cases ds) auto
  show ?thesis
  proof (cases "frs' = []")
    case True
    then have "sar fr = DTAP_SAR_UNSEG" "ds' = []" using assms(5) c by (auto simp: DTAP_GetFragFrameSar_def)
    then show ?thesis using recv_unseg [OF c(3), of None info cb m dl] c True by fastforce
  next
    case False
    then have s: "sar fr = DTAP_SAR_FIRST" using assms(5) c by (auto simp: DTAP_GetFragFrameSar_def)
    obtain fr' r n m1 where n: "DTAP_RecvFragmentFrame None fr info (Some cb) (m, dl) = (r, fr', Some n, (m1, dl))"
      "wf_buff n" "buff_data n = d" "dataLen n = length d" "mem_ok m1"
      using recv_first [OF c(3) s assms(3)] by metis
    have "\<forall>i<length frs'. sar (frs' ! i) = (if i + 1 < length frs' then DTAP_SAR_MID else DTAP_SAR_LAST)"
    proof (intro allI impI)
      fix i assume "i < length frs'"
      then have "sar (frs ! Suc i) = DTAP_GetFragFrameSar (length frs) (Suc i + 1)"
        using assms(5) c(1) by fastforce
      then show "sar (frs' ! i) = (if i + 1 < length frs' then DTAP_SAR_MID else DTAP_SAR_LAST)"
        using c(1) False by (simp add: DTAP_GetFragFrameSar_def)
    qed
    moreover have "dataLen n + length (concat ds') \<le> DTAP_MAX_FRAG_TOTAL_LEN" using assms(4) c n(4) by simp
    ultimately have "\<exists>m'. mem_ok m' \<and> recv_frames (Some n) frs' info (Some cb) (m1, dl) =
        (None, (m', dl @ [(info, buff_data n @ concat ds', cb dl info (buff_data n @ concat ds'))]))"
      using recv_tail [OF c(4) False n(2,5)] by blast
    then show ?thesis using n c by auto
  qed
qed

lemma fragment_frame_ok:
  assumes "mem_ok m" "wf_buff b" "0 < dataLen b" "dataLen b \<le> DTAP_MAX_FRAG_TOTAL_LEN" "0 < mps" "mps < 65536"
    "length (chunks mps (buff_data b)) \<le> DTAP_MAX_FRAGMENT_NUM"
    "ft = DTAP_FRAME_SIMPLEX_FRAG \<and> cx = CtxSimplexFrag \<or> ft = DTAP_FRAME_DUPLEX_FRAG \<and> cx = CtxDuplexFrag"
  obtains frs m' where "DTAP_FragmentFrame b mps ft m = (frs, length frs, m')" "mem_ok m'" "frs \<noteq> []"
    "list_all2 (fresh_frag cx) frs (chunks mps (buff_data b))"
    "\<forall>i<length frs. sar (frs ! i) = DTAP_GetFragFrameSar (length frs) (i + 1)"
proof -
  have l: "length (buff_data b) = dataLen b" using assms(2) by simp
  then have ne: "buff_data b \<noteq> []" using assms(3) by auto
  have cnt: "DTAP_GetFragmentFramesNum (dataLen b) mps = length (chunks mps (buff_data b))"
    using frames_num [OF assms(5,6) _ ne] l assms(4) by simp
  have cx: "DTAP_GetFrameCtx ft g_dtapFrameCtx = Some cx" using assms(8) by auto
  obtain frs m' where f: "fragment_loop mps ft (length (chunks mps (buff_data b))) (buff_data b) [] m = (Some frs, m')"
    "mem_ok m'" "list_all2 (fresh_frag cx) frs (chunks mps (buff_data b))"
    "\<forall>i<length frs. sar (frs ! i) = DTAP_GetFragFrameSar (length (chunks mps (buff_data b))) (i + 1)"
    using fragment_loop_ok [OF assms(1) _ cx, of "buff_data b" mps "length (chunks mps (buff_data b))" "[]"] l assms(4)
    by auto
  have lf: "length frs = length (chunks mps (buff_data b))" using f(3) by (rule list_all2_lengthD)
  have "chunks mps (buff_data b) \<noteq> []" using ne concat_chunks [of mps "buff_data b"] by (metis concat.simps(1))
  then have "frs \<noteq> []" using lf by auto
  moreover have "DTAP_FragmentFrame b mps ft m = (frs, length frs, m')"
    using f(1) cnt assms(3,7,8) lf by (auto simp: DTAP_FragmentFrame_def Let_def)
  ultimately show thesis using that f lf by simp
qed

section \<open>Disaggregation\<close>

text \<open>The payload of an aggregate frame: every data unit behind its length.\<close>

definition agg_sdu :: "byte list \<Rightarrow> byte list" where
  "agg_sdu d = ENCODE2BYTE_LITTLE (of_nat (length d)) @ d"

text \<open>The log after handing over data units one by one.\<close>

fun deliver_all :: "recv_cb \<Rightarrow> DTAP_Data_Info \<Rightarrow> byte list list \<Rightarrow> deliveries \<Rightarrow> deliveries" where
  "deliver_all cb info [] dl = dl"
| "deliver_all cb info (d # ds) dl = deliver_all cb info ds (dl @ [(info, d, cb dl info d)])"

lemma sdus_deliver_all [simp]: "sdus (deliver_all cb info ds dl) = sdus dl @ ds"
  by (induction ds arbitrary: dl) (auto simp: sdus_def)

lemma rdn_split:
  assumes "rdn b off (length (ys @ zs)) = Some (ys @ zs)"
  shows "rdn b off (length ys) = Some ys" "rdn b (off + length ys) (length zs) = Some zs"
proof -
  have e: "take (length ys + length zs) (drop off (bytes b)) = ys @ zs"
    using assms by (auto simp: rdn_def split: if_splits)
  then have "take (length ys) (take (length ys + length zs) (drop off (bytes b))) = ys"
    "drop (length ys) (take (length ys + length zs) (drop off (bytes b))) = zs" by simp_all
  then show "rdn b off (length ys) = Some ys" "rdn b (off + length ys) (length zs) = Some zs"
    using assms by (auto simp: rdn_def take_take drop_take add.commute split: if_splits)
qed

lemma new_append_ok:
  assumes "mem_ok m" "length d < 65536"
  obtains n0 n1 m' where "SDF_BuffNew (length d) m = (Some n0, m')" "mem_ok m'"
    "buff_append d n0 = Some n1" "buff_data n1 = d"
proof -
  obtain n0 m' where n0: "SDF_BuffNew (length d) m = (Some n0, m')" "mem_ok m'"
    using SDF_BuffNew_ok [OF assms(1)] by blast
  have s: "wf_buff n0" "buff_data n0 = []" "SDF_BuffTailRoom n0 = length d"
    using SDF_BuffNew_SomeD [OF n0(1)] assms(2) by auto
  obtain n1 where n1: "buff_append d n0 = Some n1" using buff_append_Some [OF s(1), of d] s(3) by auto
  show thesis using that [OF n0 n1] buff_append_SomeD [OF s(1) n1] s(2) by simp
qed

lemma aggregate_step:
  assumes "rdn b off (length (agg_sdu d @ tail)) = Some (agg_sdu d @ tail)" "mem_ok m"
    "0 < length d" "length d < 65536"
  obtains m' where "mem_ok m'" "aggregate_loop b off (length (agg_sdu d @ tail)) fr info cb (m, dl) =
    (let dl' = dl @ [(info, d, cb dl info d)] in
     if cb dl info d = DTAP_TRANS_RELIABLE_TRANS_CHANNEL_FULL
     then (cb dl info d, fr\<lparr>fpayload := Some off, payloadLen := length d + length tail\<rparr>, (m', dl'))
     else if tail \<noteq> [] then aggregate_loop b (off + 2 + length d) (length tail) fr info cb (m', dl')
     else (DTAP_SUCCESS, fr, (m', dl')))"
proof -
  let ?l = "ENCODE2BYTE_LITTLE (of_nat (length d))"
  have r1: "rdn b off (length ?l) = Some ?l" and r2: "rdn b (off + length ?l) (length (d @ tail)) = Some (d @ tail)"
    using rdn_split [of b off ?l "d @ tail"] assms(1) by (simp_all add: agg_sdu_def)
  have r3: "rdn b (off + 2) (length d) = Some d" using rdn_split(1) [OF r2] by simp
  obtain n0 n1 m' where n: "SDF_BuffNew (length d) m = (Some n0, m')" "mem_ok m'"
    "buff_append d n0 = Some n1" "buff_data n1 = d" using new_append_ok [OF assms(2,4)] .
  have "rdn b off 2 = Some [ucast (of_nat (length d) :: u16w), ucast (drop_bit 8 (of_nat (length d) :: u16w))]"
    using r1 unfolding length_encode_little by (simp only: ENCODE2BYTE_LITTLE_def)
  then have "aggregate_loop b off (length (agg_sdu d @ tail)) fr info cb (m, dl) =
    (let dl' = dl @ [(info, d, cb dl info d)] in
     if cb dl info d = DTAP_TRANS_RELIABLE_TRANS_CHANNEL_FULL
     then (cb dl info d, fr\<lparr>fpayload := Some off, payloadLen := length d + length tail\<rparr>, (m', dl'))
     else if tail \<noteq> [] then aggregate_loop b (off + 2 + length d) (length tail) fr info cb (m', dl')
     else (DTAP_SUCCESS, fr, (m', dl')))"
    using n r3 assms(3,4)
    by (subst aggregate_loop.simps) (simp add: agg_sdu_def decode_encode_little call_recv_def Let_def)
  then show thesis by (rule that [OF n(2)])
qed

lemma aggregate_all:
  assumes "ds \<noteq> []" "\<forall>d\<in>set ds. 0 < length d \<and> length d < 65536" "mem_ok m"
    "rdn b off (length (concat (map agg_sdu ds))) = Some (concat (map agg_sdu ds))"
    "\<forall>dl d. cb dl info d \<noteq> DTAP_TRANS_RELIABLE_TRANS_CHANNEL_FULL"
  shows "\<exists>m'. aggregate_loop b off (length (concat (map agg_sdu ds))) fr info cb (m, dl) =
    (DTAP_SUCCESS, fr, (m', deliver_all cb info ds dl))"
  using assms(1-4)
proof (induction ds arbitrary: off m dl)
  case Nil then show ?case by simp
next
  case (Cons d ds)
  let ?t = "concat (map agg_sdu ds)"
  have r: "rdn b off (length (agg_sdu d @ ?t)) = Some (agg_sdu d @ ?t)" using Cons.prems(4) by simp
  obtain m' where m': "mem_ok m'" "aggregate_loop b off (length (agg_sdu d @ ?t)) fr info cb (m, dl) =
    (let dl' = dl @ [(info, d, cb dl info d)] in
     if cb dl info d = DTAP_TRANS_RELIABLE_TRANS_CHANNEL_FULL
     then (cb dl info d, fr\<lparr>fpayload := Some off, payloadLen := length d + length ?t\<rparr>, (m', dl'))
     else if ?t \<noteq> [] then aggregate_loop b (off + 2 + length d) (length ?t) fr info cb (m', dl')
     else (DTAP_SUCCESS, fr, (m', dl')))"
    by (rule aggregate_step [OF r Cons.prems(3), of fr info cb dl]) (use Cons.prems(2) in auto)
  show ?case
  proof (cases "ds = []")
    case True then show ?thesis using m' assms(5) by (simp add: Let_def)
  next
    case False
    then have t: "?t \<noteq> []" by (cases ds) (auto simp: agg_sdu_def ENCODE2BYTE_LITTLE_def)
    have "rdn b (off + 2 + length d) (length ?t) = Some ?t"
      using rdn_split(2) [OF r] by (simp add: agg_sdu_def add.assoc)
    then have "\<exists>m''. aggregate_loop b (off + 2 + length d) (length ?t) fr info cb (m', dl @ [(info, d, cb dl info d)]) =
        (DTAP_SUCCESS, fr, (m'', deliver_all cb info ds (dl @ [(info, d, cb dl info d)])))"
      using Cons.IH [OF False _ m'(1)] Cons.prems(2) by auto
    then show ?thesis using m' t assms(5) by (simp add: Let_def)
  qed
qed

section \<open>Properties\<close>

text \<open>(C23) Fragmentation followed by reassembly is the identity. For every data unit of 1 to 65535
  bytes and every payload size that needs at most 128 fragments, and without allocation failure,
  the fragments are non-empty, at most \<open>mps\<close> bytes each, as many as announced, and their payloads
  concatenate to the unit; any receiver that gets these payloads in order with their segmentation
  states calls the upper layer exactly once, with exactly the unit, and is left with no partial
  data.\<close>

theorem fragment_reassemble:
  assumes "mem_ok m" "mem_ok m2" "wf_buff b" "0 < dataLen b" "dataLen b \<le> DTAP_MAX_FRAG_TOTAL_LEN"
    "0 < mps" "mps < 65536" "DTAP_GetFragmentFramesNum (dataLen b) mps \<le> DTAP_MAX_FRAGMENT_NUM"
    "ft = DTAP_FRAME_SIMPLEX_FRAG \<or> ft = DTAP_FRAME_DUPLEX_FRAG"
  shows "\<exists>frs pieces m'. DTAP_FragmentFrame b mps ft m = (frs, length pieces, m') \<and>
    length pieces = DTAP_GetFragmentFramesNum (dataLen b) mps \<and>
    concat pieces = buff_data b \<and> (\<forall>p\<in>set pieces. 0 < length p \<and> length p \<le> mps) \<and>
    list_all2 (\<lambda>fr p. \<exists>fb. fbuff fr = Some fb \<and> buff_data fb = p) frs pieces \<and>
    (\<forall>rxs dl. list_all2 rx_frag rxs pieces \<and> map sar rxs = map sar frs \<longrightarrow>
      (\<exists>m3. recv_frames None rxs info (Some cb) (m2, dl) =
        (None, (m3, dl @ [(info, buff_data b, cb dl info (buff_data b))]))))"
proof -
  let ?ps = "chunks mps (buff_data b)"
  have l: "length (buff_data b) = dataLen b" using assms(3) by simp
  then have ne: "buff_data b \<noteq> []" using assms(4) by auto
  have cnt: "DTAP_GetFragmentFramesNum (dataLen b) mps = length ?ps"
    using frames_num [OF assms(6,7) _ ne] l assms(5) by simp
  define cx where "cx = (if ft = DTAP_FRAME_SIMPLEX_FRAG then CtxSimplexFrag else CtxDuplexFrag)"
  obtain frs m' where f: "DTAP_FragmentFrame b mps ft m = (frs, length frs, m')" "frs \<noteq> []"
    "list_all2 (fresh_frag cx) frs ?ps" "\<forall>i<length frs. sar (frs ! i) = DTAP_GetFragFrameSar (length frs) (i + 1)"
    by (rule fragment_frame_ok [OF assms(1,3,4,5,6,7), of ft cx])
      (use assms(8,9) cnt in \<open>auto simp: cx_def\<close>)
  have lf: "length frs = length ?ps" using f(3) by (rule list_all2_lengthD)
  have pieces: "list_all2 (\<lambda>fr p. \<exists>fb. fbuff fr = Some fb \<and> buff_data fb = p) frs ?ps"
    using f(3) by (rule list_all2_mono) (auto simp: fresh_frag_def)
  have re: "\<exists>m3. recv_frames None rxs info (Some cb) (m2, dl) =
      (None, (m3, dl @ [(info, buff_data b, cb dl info (buff_data b))]))"
    if a: "list_all2 rx_frag rxs ?ps" "map sar rxs = map sar frs" for rxs dl
  proof -
    have lr: "length rxs = length frs" using a(2) by (metis length_map)
    have "\<forall>i<length rxs. sar (rxs ! i) = DTAP_GetFragFrameSar (length rxs) (i + 1)"
      using f(4) a(2) lr by (metis nth_map)
    moreover have "rxs \<noteq> []" using f(2) lr by auto
    ultimately show ?thesis
      using recv_all [OF a(1) _ assms(2), of info cb dl] l assms(5) by auto
  qed
  have "\<forall>p\<in>set ?ps. 0 < length p \<and> length p \<le> mps" using chunks_piece assms(6) by fastforce
  then show ?thesis
    using f(1) lf cnt pieces re by (intro exI [of _ frs] exI [of _ ?ps] exI [of _ m']) auto
qed

theorem fragment_reassemble_witness:
  "\<exists>frs pieces m'. DTAP_FragmentFrame demo_buff 2 DTAP_FRAME_SIMPLEX_FRAG [] = (frs, length pieces, m') \<and>
    length pieces = 2 \<and> concat pieces = [1, 2, 3 :: byte]"
proof -
  have d: "wf_buff demo_buff" "dataLen demo_buff = 3" "buff_data demo_buff = [1, 2, 3]"
    "DTAP_GetFragmentFramesNum 3 2 = 2"
    by (simp_all add: demo_buff_def wf_buff_def buff_data_def DTAP_GetFragmentFramesNum_def)
  have p: "0 < dataLen demo_buff" "dataLen demo_buff \<le> DTAP_MAX_FRAG_TOTAL_LEN" "0 < (2 :: nat)" "(2 :: nat) < 65536"
    "DTAP_GetFragmentFramesNum (dataLen demo_buff) 2 \<le> DTAP_MAX_FRAGMENT_NUM"
    "DTAP_FRAME_SIMPLEX_FRAG = DTAP_FRAME_SIMPLEX_FRAG \<or> DTAP_FRAME_SIMPLEX_FRAG = DTAP_FRAME_DUPLEX_FRAG"
    using d by simp_all
  obtain frs pieces m' where "DTAP_FragmentFrame demo_buff 2 DTAP_FRAME_SIMPLEX_FRAG [] = (frs, length pieces, m')"
    "length pieces = DTAP_GetFragmentFramesNum (dataLen demo_buff) 2" "concat pieces = buff_data demo_buff"
    using fragment_reassemble [OF mem_ok_Nil mem_ok_Nil d(1) p] by blast
  then show ?thesis unfolding d(2,3,4) by blast
qed

text \<open>An aggregate frame is taken apart completely and in order: if the payload holds the units
  \<open>ds\<close> one behind the other, each with its length, and the upper layer takes each of them, the call
  succeeds and the upper layer has been called once per unit, in order, with exactly its bytes.\<close>

lemma aggregate_delivers_all:
  assumes "fbuff fr = Some b" "fpayload fr = Some p" "payloadLen fr = length (concat (map agg_sdu ds))"
    "rdn b p (payloadLen fr) = Some (concat (map agg_sdu ds))"
    "ds \<noteq> []" "\<forall>d\<in>set ds. 0 < length d \<and> length d < 65536" "mem_ok m"
    "\<forall>dl d. cb dl info d \<noteq> DTAP_TRANS_RELIABLE_TRANS_CHANNEL_FULL"
  shows "\<exists>m'. DTAP_RecvAggregateFrame fr info (Some cb) (m, dl) =
      (DTAP_SUCCESS, fr, (m', deliver_all cb info ds dl)) \<and> sdus (deliver_all cb info ds dl) = sdus dl @ ds"
proof -
  have "concat (map agg_sdu ds) \<noteq> []"
    using assms(5) by (cases ds) (auto simp: agg_sdu_def ENCODE2BYTE_LITTLE_def)
  then have "payloadLen fr \<noteq> 0" using assms(3) by simp
  moreover have "\<exists>m'. aggregate_loop b p (payloadLen fr) fr info cb (m, dl) =
      (DTAP_SUCCESS, fr, (m', deliver_all cb info ds dl))"
    using aggregate_all [of ds m b p cb info fr dl] assms(3-8) by auto
  ultimately show ?thesis using assms(1,2) by (auto simp: DTAP_RecvAggregateFrame_def)
qed

definition demo_agg :: DTAP_Frame where
  "demo_agg = (frame0 CtxSimplexAggr)\<lparr>fbuff := Some \<lparr>dataOff = 0, dataLen = 7, buffLen = 7,
     bytes = [1, 0, 9, 2, 0, 8, 7]\<rparr>, fpayload := Some 0, payloadLen := 7\<rparr>"

text \<open>A unit that the upper layer refuses as full is lost on retry. When the last unit of an
  aggregate frame is refused, the frame is left pointing at that unit's length field but with a
  payload length that no longer counts it; the retry (\<open>DTAP_SetTransChannelStatus\<close>) then fails with
  a length error and never offers the unit again, whatever the upper layer would answer.\<close>

lemma aggregate_refused_unit_is_lost:
  assumes "fbuff fr = Some b" "fpayload fr = Some p" "payloadLen fr = length d + 2"
    "rdn b p (length d + 2) = Some (agg_sdu d)" "0 < length d" "length d < 65536" "mem_ok m"
    "cb dl info d = DTAP_TRANS_RELIABLE_TRANS_CHANNEL_FULL"
  shows "\<exists>fr1 m1. DTAP_RecvAggregateFrame fr info (Some cb) (m, dl) =
      (DTAP_TRANS_RELIABLE_TRANS_CHANNEL_FULL, fr1, (m1, dl @ [(info, d, cb dl info d)])) \<and>
    (\<forall>cb2 m2 dl2. \<exists>e. e \<in> {DTAP_ENHANCED_FRAME_SDU_HDR_LEN_TOO_SHORT, DTAP_ENHANCED_FRAME_SDU_LEN_TOO_SHORT} \<and>
       DTAP_RecvAggregateFrame fr1 info (Some cb2) (m2, dl2) = (e, fr1, (m2, dl2)))"
proof -
  let ?fr1 = "fr\<lparr>fpayload := Some p, payloadLen := length d\<rparr>"
  have la: "length (agg_sdu d @ []) = length d + 2" by (simp add: agg_sdu_def)
  obtain m1 where s: "aggregate_loop b p (length d + 2) fr info cb (m, dl) =
      (DTAP_TRANS_RELIABLE_TRANS_CHANNEL_FULL, ?fr1, (m1, dl @ [(info, d, cb dl info d)]))"
    using aggregate_step [of b p d "[]" m fr info cb dl] assms(4-8) la by (auto simp: Let_def)
  have "rdn b p (length (ENCODE2BYTE_LITTLE (of_nat (length d)))) = Some (ENCODE2BYTE_LITTLE (of_nat (length d)))"
    using rdn_split(1) [of b p "ENCODE2BYTE_LITTLE (of_nat (length d))" d] assms(4)
    by (simp add: agg_sdu_def)
  then have r: "rdn b p 2 = Some [ucast (of_nat (length d) :: u16w), ucast (drop_bit 8 (of_nat (length d) :: u16w))]"
    unfolding length_encode_little by (simp only: ENCODE2BYTE_LITTLE_def)
  have "aggregate_loop b p (length d) ?fr1 info cb2 (m2, dl2) =
      ((if length d < 2 then DTAP_ENHANCED_FRAME_SDU_HDR_LEN_TOO_SHORT
        else DTAP_ENHANCED_FRAME_SDU_LEN_TOO_SHORT), ?fr1, (m2, dl2))" for cb2 m2 dl2
    using r assms(5,6) by (subst aggregate_loop.simps) (auto simp: decode_encode_little Let_def)
  then show ?thesis
    using s assms(1,2,3,5)
    by (intro exI [of _ ?fr1] exI [of _ m1]) (auto simp: DTAP_RecvAggregateFrame_def)
qed

text \<open>(C38) An unfragmented frame that the upper layer refuses as full is corrupted on retry: its
  buffer has already been trimmed, the retry trims header and check sequence a second time, and
  the upper layer is offered the unit without its first \<open>headerLen + extensionLen\<close> and last two
  bytes.\<close>

theorem fragment_refused_unit_is_corrupted:
  assumes "rx_frag fr d" "sar fr = DTAP_SAR_UNSEG" "headerLen fr + extensionLen fr + 2 \<le> length d"
    "cb dl info d = DTAP_TRANS_RELIABLE_TRANS_CHANNEL_FULL"
  shows "\<exists>fr1. DTAP_RecvFragmentFrame frags fr info (Some cb) (m, dl) =
      (DTAP_TRANS_RELIABLE_TRANS_CHANNEL_FULL, fr1, frags, (m, dl @ [(info, d, cb dl info d)])) \<and>
    (\<forall>cb2 m2 dl2. \<exists>r fr2. DTAP_RecvFragmentFrame frags fr1 info (Some cb2) (m2, dl2) =
      (r, fr2, frags, (m2, dl2 @ [(info, take (length d - (headerLen fr + extensionLen fr) - 2)
          (drop (headerLen fr + extensionLen fr) d),
        cb2 dl2 info (take (length d - (headerLen fr + extensionLen fr) - 2) (drop (headerLen fr + extensionLen fr) d)))])))"
proof -
  let ?h = "headerLen fr + extensionLen fr"
  obtain b b1 b2 where b: "fbuff fr = Some b" "SDF_BuffTrimPrefix b ?h = Some b1"
    "SDF_BuffTrimSuffix b1 DTAP_CRC_LEN = Some b2" "wf_buff b2" "buff_data b2 = d" "dataLen b2 = length d"
    using rx_frag_trim [OF assms(1)] by blast
  let ?fr1 = "fr\<lparr>fbuff := Some b2\<rparr>"
  have one: "DTAP_RecvFragmentFrame frags fr info (Some cb) (m, dl) =
      (DTAP_TRANS_RELIABLE_TRANS_CHANNEL_FULL, ?fr1, frags, (m, dl @ [(info, d, cb dl info d)]))"
    using b assms(2,4) by (simp add: DTAP_RecvFragmentFrame_def upcall_def call_recv_def Let_def)
  have "rx_frag ?fr1 (take (length d - ?h - 2) (drop ?h d))"
    using b assms(3) by (auto simp: rx_frag_def)
  moreover have "sar ?fr1 = DTAP_SAR_UNSEG" using assms(2) by simp
  ultimately have "\<exists>r fr2. DTAP_RecvFragmentFrame frags ?fr1 info (Some cb2) (m2, dl2) =
      (r, fr2, frags, (m2, dl2 @ [(info, take (length d - ?h - 2) (drop ?h d),
         cb2 dl2 info (take (length d - ?h - 2) (drop ?h d)))]))" for cb2 m2 dl2
    using recv_unseg [of ?fr1 _ frags info cb2 m2 dl2] by metis
  then show ?thesis using one by blast
qed

theorem fragment_refused_unit_is_corrupted_witness:
  "\<exists>fr1. DTAP_RecvFragmentFrame None
      ((frame0 CtxSimplexFrag)\<lparr>fbuff := Some \<lparr>dataOff = 0, dataLen = 8, buffLen = 8, bytes = [0, 1, 2, 3, 4, 5, 6, 7]\<rparr>,
         headerLen := 1\<rparr>)
      \<lparr>info_pi = 3, info_lcid = 1, info_tcid = 0x80\<rparr> (Some (\<lambda>_ _ _. DTAP_TRANS_RELIABLE_TRANS_CHANNEL_FULL)) ([], []) =
    (DTAP_TRANS_RELIABLE_TRANS_CHANNEL_FULL, fr1, None, ([], [(\<lparr>info_pi = 3, info_lcid = 1, info_tcid = 0x80\<rparr>,
       [1, 2, 3, 4, 5], DTAP_TRANS_RELIABLE_TRANS_CHANNEL_FULL)]))"
proof -
  let ?fr = "(frame0 CtxSimplexFrag)\<lparr>fbuff := Some \<lparr>dataOff = 0, dataLen = 8, buffLen = 8,
     bytes = [0, 1, 2, 3, 4, 5, 6, 7]\<rparr>, headerLen := 1\<rparr>"
  have "rx_frag ?fr [1, 2, 3, 4, 5]"
    by (simp add: rx_frag_def frame0_def wf_buff_def buff_data_def)
  from fragment_refused_unit_is_corrupted [OF this,
      of "\<lambda>_ _ _. DTAP_TRANS_RELIABLE_TRANS_CHANNEL_FULL" "[]" "\<lparr>info_pi = 3, info_lcid = 1, info_tcid = 0x80\<rparr>" None "[]"]
  show ?thesis by (auto simp: frame0_def)
qed

end
