(* ===== verification/Dtap_Env.thy ===== *)
theory Dtap_Env
  imports Dtap_Frag Dtap_Seq
begin

text \<open>
  What the transmission modes share: the fixed fields of a channel (\<^verbatim>\<open>DTAP_Channel_S\<close> of
  \<^verbatim>\<open>services/stack/src/dp/dtap/include/dtap_channel.h\<close>), the environment their operations change, and the
  calls into it for transmission, timers and the clock.
\<close>

section \<open>Channels and environment\<close>

text \<open>The fields of \<^verbatim>\<open>DTAP_Channel_S\<close> that stay fixed for the life of a channel.\<close>

record chan_info =
  c_lcid :: u16w
  c_srcTcid :: byte
  c_dstTcid :: byte
  c_mode :: nat
  c_mtu :: nat
  c_mps :: nat
  c_castMode :: nat
  c_type :: nat
  c_priority :: nat

text \<open>\<open>e_known\<close> says whether the connection manager still knows the channel
  (\<^verbatim>\<open>CM_FindTransChannelByLocalTcid\<close>); \<open>e_release\<close> logs the release requests sent to it, \<open>e_status\<close> the calls of
  \<^verbatim>\<open>transChannelStatusChangeCbk\<close>.\<close>

record 'w env =
  e_mem :: mem
  e_tim :: timers
  e_clock :: "nat list"
  e_dl :: deliveries
  e_known :: bool
  e_release :: "(u16w \<times> byte \<times> byte) list"
  e_status :: "(u16w \<times> byte \<times> nat) list"
  e_tx :: 'w

text \<open>The upcalls made, without their answers.\<close>

definition upcalls :: "deliveries \<Rightarrow> (DTAP_Data_Info \<times> byte list) list" where
  "upcalls dl = map (\<lambda>(i, d, _). (i, d)) dl"

type_synonym 'w xmit = "SDF_Buff option \<Rightarrow> 'w \<Rightarrow> dtap_ret \<times> 'w"

definition transmit :: "'w xmit \<Rightarrow> SDF_Buff option \<Rightarrow> 'w env \<Rightarrow> dtap_ret \<times> 'w env" where
  "transmit xmit b e = (case xmit b (e_tx e) of (ret, w) \<Rightarrow> (ret, e\<lparr>e_tx := w\<rparr>))"

text \<open>Timer operations on the environment; the results are ignored by the callers.\<close>

definition start_timer :: "int \<Rightarrow> nat \<Rightarrow> timer_cbk \<Rightarrow> 'w env \<Rightarrow> int \<times> 'w env" where
  "start_timer h expire cbk e = (case DTAP_TransStartTimer h expire cbk (e_tim e) of (_, h', t) \<Rightarrow> (h', e\<lparr>e_tim := t\<rparr>))"

definition stop_timer :: "int \<Rightarrow> 'w env \<Rightarrow> int \<times> 'w env" where
  "stop_timer h e = (case DTAP_TransStopTimer h (e_tim e) of (h', t) \<Rightarrow> (h', e\<lparr>e_tim := t\<rparr>))"

definition restart_timer :: "int \<Rightarrow> nat \<Rightarrow> timer_cbk \<Rightarrow> 'w env \<Rightarrow> int \<times> 'w env" where
  "restart_timer h expire cbk e = (case DTAP_TransRestartTimer h expire cbk (e_tim e) of (_, h', t) \<Rightarrow> (h', e\<lparr>e_tim := t\<rparr>))"

definition DP_GetMonoTimeMs :: "'w env \<Rightarrow> nat \<times> 'w env" where
  "DP_GetMonoTimeMs e = (case read_clock (e_clock e) of (now, ts) \<Rightarrow> (now, e\<lparr>e_clock := ts\<rparr>))"

end
