(* ===== verification/Dtap_Reliable.thy ===== *)
theory Dtap_Reliable
  imports Dtap_Env
begin

text \<open>
  The reliable transmission mode, \<^verbatim>\<open>services/stack/src/dp/dtap/src/dtap_trans_reliable.c\<close>, with the part of
  \<^verbatim>\<open>dtap.c\<close> that sends a cached data unit when the window opens. A channel keeps a transmission window of
  unacknowledged frames, a reception window of frames that wait for their predecessors, and three timers.

  The operations work on the channel's attributes \<open>DTAP_ReliableChannel\<close> and on an environment \<open>env\<close>: the
  allocator script, the timers, the log of upcalls, the requests to the connection manager, the status
  callbacks, and whatever the transmission of a frame changes (\<open>e_tx\<close>). Transmission itself is the
  argument \<open>xmit\<close>, which is \<open>DTAP_SendFrame\<close> on the scheduler's state in the composed system.
\<close>

section \<open>State\<close>

record DTAP_TxWindow =
  tx_size :: nat
  nextTxSeq :: u16w
  expectedAckSeq :: u16w
  txList :: "DTAP_Frame list"

record DTAP_RxWindow =
  rx_size :: nat
  bufferSeq :: u16w
  expectedTxSeq :: u16w
  maxExpectedTxSeq :: u16w
  rxList :: "DTAP_Frame list"

record DTAP_ReliableChannel =
  r_reorderTimeout :: nat
  r_crcInit :: u16w
  retransTimeout :: nat
  rspTimeout :: nat
  maxTxThreshold :: nat
  reorderTimer :: int
  retransTimer :: int
  rspTimer :: int
  isRecvFrame :: bool
  isRxWindowFull :: bool
  reTxSeq :: u16w
  txWindow :: DTAP_TxWindow
  nackCnt :: nat
  rxWindow :: DTAP_RxWindow
  frags :: "SDF_Buff option"
  cachePi :: byte
  cacheBuff :: "SDF_Buff option"
  sendPollingCounter :: nat
  isTxWindowFull :: bool
  isDestroyMsgSent :: bool

section \<open>Acknowledgements\<close>

definition DTAP_SendAckFrame :: "'w xmit \<Rightarrow> chan_info \<Rightarrow> bool \<Rightarrow> bool \<Rightarrow> DTAP_ReliableChannel \<Rightarrow> 'w env \<Rightarrow> dtap_ret \<times> 'w env" where
  "DTAP_SendAckFrame xmit ch fBit sBit r e =
     (case DTAP_GetFrameCtx DTAP_FRAME_ACK g_dtapFrameCtx of
        None \<Rightarrow> (DTAP_TRANS_RELIABLE_GET_CTX_ERR, e)
      | Some ctx \<Rightarrow>
          let fr = (frame0 ctx)\<lparr>fbits := (if fBit then DTAP_FRAME_C_BIT OR DTAP_FRAME_F_BIT else DTAP_FRAME_C_BIT),
                     ack_sBit := sBit,
                     ack_reqSeq := (if sBit then expectedTxSeq (rxWindow r) else bufferSeq (rxWindow r))\<rparr> in
          (case buildFrame ctx (c_dstTcid ch) (r_crcInit r) fr (e_mem e) of (ret, fr', m) \<Rightarrow>
             let e1 = e\<lparr>e_mem := m\<rparr> in
             if ret \<noteq> DTAP_SUCCESS then (ret, e1) else transmit xmit (fbuff fr') e1))"

definition DTAP_RspTimerExpireProc :: "'w xmit \<Rightarrow> chan_info \<Rightarrow> DTAP_ReliableChannel \<Rightarrow> 'w env \<Rightarrow> DTAP_ReliableChannel \<times> 'w env" where
  "DTAP_RspTimerExpireProc xmit ch r e = (r, snd (DTAP_SendAckFrame xmit ch False False r e))"

definition DTAP_FindFrameBySeq :: "DTAP_Frame list \<Rightarrow> u16w \<Rightarrow> DTAP_Frame option" where
  "DTAP_FindFrameBySeq l s = find_first (\<lambda>f. txSeq f = s) l"

definition DTAP_CheckEnhanceFrameTxSeq :: "DTAP_RxWindow \<Rightarrow> u16w \<Rightarrow> bool" where
  "DTAP_CheckEnhanceFrameTxSeq w s =
     (if DTAP_IsFrameSeqSmaller s (expectedTxSeq w) then False
      else if s = expectedTxSeq w then True
      else let boundarySeq = (bufferSeq w + of_nat (rx_size w)) AND DTAP_FRAME_SEQ_MAX in
        if \<not> DTAP_IsFrameSeqSmaller s boundarySeq then False
        else DTAP_FindFrameBySeq (rxList w) s = None)"

definition DTAP_CheckEnhanceFrame :: "DTAP_ReliableChannel \<Rightarrow> DTAP_Frame \<Rightarrow> bool" where
  "DTAP_CheckEnhanceFrame r fr =
     (let frameType = getFrameType (fctx fr) in
      if \<not> (frameType \<ge> DTAP_FRAME_SIMPLEX_AGGR \<and> frameType \<le> DTAP_FRAME_ACK) then False
      else case fbuff fr of
        None \<Rightarrow> False
      | Some b \<Rightarrow>
          if CRC16 (r_crcInit r) (buff_data b) \<noteq> 0 then False
          else if frameType = DTAP_FRAME_ACK then True
          else DTAP_CheckEnhanceFrameTxSeq (rxWindow r) (txSeq fr))"

section \<open>Retransmission\<close>

definition DTAP_DynTransChannReleaseReq :: "chan_info \<Rightarrow> DTAP_ReliableChannel \<Rightarrow> 'w env \<Rightarrow> DTAP_ReliableChannel \<times> 'w env" where
  "DTAP_DynTransChannReleaseReq ch r e =
     (if isDestroyMsgSent r then (r, e)
      else if \<not> e_known e then (r, e)
      else (r\<lparr>isDestroyMsgSent := True\<rparr>, e\<lparr>e_release := e_release e @ [(c_lcid ch, c_srcTcid ch, c_dstTcid ch)]\<rparr>))"

definition DTAP_ReorderTimerExpireProc :: "'w xmit \<Rightarrow> chan_info \<Rightarrow> DTAP_ReliableChannel \<Rightarrow> 'w env \<Rightarrow> DTAP_ReliableChannel \<times> 'w env" where
  "DTAP_ReorderTimerExpireProc xmit ch r e =
     (if nackCnt r \<ge> maxTxThreshold r then DTAP_DynTransChannReleaseReq ch r e
      else case DTAP_SendAckFrame xmit ch False True r e of (ret, e1) \<Rightarrow>
        if ret \<noteq> DTAP_SUCCESS then (r, e1)
        else case restart_timer (rspTimer r) (rspTimeout r) RspTimerExpire e1 of (h, e2) \<Rightarrow>
          (r\<lparr>rspTimer := h, nackCnt := u8 (nackCnt r + 1)\<rparr>, e2))"

abbreviation (input) MAX_BASE_RETRANS_TIMEOUT :: nat where "MAX_BASE_RETRANS_TIMEOUT \<equiv> 15"

definition DTAP_CalculateRetransTimeout :: "nat \<Rightarrow> nat \<Rightarrow> nat" where
  "DTAP_CalculateRetransTimeout baseTimeout cnt =
     (if cnt = 0 then baseTimeout
      else let safeCount = (if cnt > MAX_BASE_RETRANS_TIMEOUT then MAX_BASE_RETRANS_TIMEOUT else cnt) in
        if baseTimeout > 65535 div 2 ^ safeCount then 65535 else u16 (baseTimeout * 2 ^ safeCount))"

text \<open>The type byte of a built frame, behind the channel identifier.\<close>

definition head_typeBits :: "SDF_Buff \<Rightarrow> byte" where
  "head_typeBits b = buff_data b ! 1"

definition put_typeBits :: "byte \<Rightarrow> SDF_Buff \<Rightarrow> SDF_Buff" where
  "put_typeBits tb b = buff_write (dataOff b + 1) [tb] b"

definition DTAP_SetPbitForSendPolling :: "u16w \<Rightarrow> DTAP_Frame \<Rightarrow> DTAP_Frame" where
  "DTAP_SetPbitForSendPolling crcInit fr =
     (case fbuff fr of None \<Rightarrow> fr
      | Some b \<Rightarrow>
          let tb = head_typeBits b; oriBits = drop_bit 4 tb; newBits = oriBits OR DTAP_FRAME_P_BIT in
          if oriBits = newBits then fr
          else let b1 = put_typeBits (DTAP_SetFrameBit tb newBits) b in
            (case DTAP_ReCalculateCrcValue crcInit (fr\<lparr>fbuff := Some b1\<rparr>) of (ret, fr1) \<Rightarrow>
               if ret \<noteq> DTAP_SUCCESS
               then fr1\<lparr>fbuff := Some (put_typeBits (DTAP_SetFrameBit (head_typeBits b1) oriBits) b1)\<rparr> else fr1))"

definition DTAP_RetransEnhanceFrame :: "'w xmit \<Rightarrow> chan_info \<Rightarrow> DTAP_ReliableChannel \<Rightarrow> 'w env \<Rightarrow> dtap_ret \<times> DTAP_ReliableChannel \<times> 'w env" where
  "DTAP_RetransEnhanceFrame xmit ch r e =
     (case DTAP_FindFrameBySeq (txList (txWindow r)) (reTxSeq r) of
        None \<Rightarrow> (DTAP_TRANS_RELIABLE_FIND_FRAME_ERR, r, e)
      | Some fr \<Rightarrow>
          if reTxCnt fr \<ge> maxTxThreshold r then
            (case DTAP_DynTransChannReleaseReq ch r e of (r1, e1) \<Rightarrow> (DTAP_TRANS_RELIABLE_REACH_MAX_RE_TX_CNT_ERR, r1, e1))
          else
            let upd = (\<lambda>f r. r\<lparr>txWindow := (txWindow r)\<lparr>txList :=
                         upd_first (\<lambda>x. txSeq x = reTxSeq r) f (txList (txWindow r))\<rparr>\<rparr>);
                fr1 = DTAP_SetPbitForSendPolling (r_crcInit r) fr;
                r1 = upd (DTAP_SetPbitForSendPolling (r_crcInit r)) r in
            (case (case fbuff fr1 of None \<Rightarrow> (None, e_mem e) | Some b \<Rightarrow> SDF_BuffCopy b (e_mem e)) of
               (None, m) \<Rightarrow> (DTAP_TRANS_RELIABLE_COPY_BUFF_ERR, r1, e\<lparr>e_mem := m\<rparr>)
             | (Some cb, m) \<Rightarrow>
                 (case transmit xmit (Some cb) (e\<lparr>e_mem := m\<rparr>) of (ret, e1) \<Rightarrow>
                    if ret \<noteq> DTAP_SUCCESS then (ret, r1, e1)
                    else
                      let cnt = u8 (reTxCnt fr1 + 1); r2 = upd (\<lambda>f. f\<lparr>reTxCnt := u8 (reTxCnt f + 1)\<rparr>) r1 in
                      (case (if getFrameType (fctx fr1) = DTAP_FRAME_DUPLEX_FRAG
                             then restart_timer (rspTimer r2) (rspTimeout r2) RspTimerExpire e1 else (rspTimer r2, e1)) of
                         (h, e2) \<Rightarrow>
                           (case restart_timer (retransTimer r2)
                                   (DTAP_CalculateRetransTimeout (retransTimeout r2) cnt) RetransTimerExpire e2 of
                              (h', e3) \<Rightarrow> (DTAP_SUCCESS, r2\<lparr>rspTimer := h, retransTimer := h'\<rparr>, e3))))))"

definition DTAP_RetransTimerExpireProc :: "'w xmit \<Rightarrow> chan_info \<Rightarrow> DTAP_ReliableChannel \<Rightarrow> 'w env \<Rightarrow> DTAP_ReliableChannel \<times> 'w env" where
  "DTAP_RetransTimerExpireProc xmit ch r e =
     (if txList (txWindow r) = [] then (r, e)
      else snd (DTAP_RetransEnhanceFrame xmit ch (r\<lparr>reTxSeq := expectedAckSeq (txWindow r)\<rparr>) e))"

section \<open>Receiving\<close>

definition frame_reqSeq :: "DTAP_Frame \<Rightarrow> u16w" where
  "frame_reqSeq fr = (if getFrameType (fctx fr) = DTAP_FRAME_ACK then ack_reqSeq fr else reqSeq fr)"

definition DTAP_SlideTxWindow :: "chan_info \<Rightarrow> DTAP_Frame \<Rightarrow> DTAP_ReliableChannel \<Rightarrow> 'w env \<Rightarrow> DTAP_ReliableChannel \<times> 'w env" where
  "DTAP_SlideTxWindow ch fr r e =
     (let rq = frame_reqSeq fr in
      if rq = DTAP_FRAME_SEQ_INIT then (r, e)
      else let r0 = r\<lparr>sendPollingCounter := 0\<rparr> in
      if txList (txWindow r0) = [] then (r0, e)
      else let r1 = (if DTAP_IsFrameSeqSmaller (reTxSeq r0) rq then r0\<lparr>reTxSeq := rq\<rparr> else r0); w = txWindow r1 in
      if DTAP_IsFrameSeqSmaller (expectedAckSeq w) rq \<and> DTAP_IsFrameSeqSmaller rq (nextTxSeq w) \<or> rq = nextTxSeq w then
        let w2 = w\<lparr>expectedAckSeq := rq, txList := dropWhile (\<lambda>f. DTAP_IsFrameSeqSmaller (txSeq f) rq) (txList w)\<rparr>;
            r2 = r1\<lparr>txWindow := w2\<rparr> in
        (case (if expectedAckSeq w2 = nextTxSeq w2 then stop_timer (retransTimer r2) e
               else restart_timer (retransTimer r2) (retransTimeout r2) RetransTimerExpire e) of
           (h, e1) \<Rightarrow> (r2\<lparr>retransTimer := h\<rparr>, e1))
      else (r1, e))"

definition DTAP_RecvNackFrame :: "'w xmit \<Rightarrow> chan_info \<Rightarrow> DTAP_Frame \<Rightarrow> DTAP_ReliableChannel \<Rightarrow> 'w env \<Rightarrow> dtap_ret \<times> DTAP_ReliableChannel \<times> 'w env" where
  "DTAP_RecvNackFrame xmit ch fr r e =
     (if getFrameType (fctx fr) = DTAP_FRAME_ACK \<and> ack_sBit fr then
        (case DTAP_RetransEnhanceFrame xmit ch (r\<lparr>reTxSeq := ack_reqSeq fr\<rparr>) e of (ret, r1, e1) \<Rightarrow>
           ((if ret = DTAP_TRANS_RELIABLE_REACH_MAX_RE_TX_CNT_ERR then ret else DTAP_SUCCESS), r1, e1))
      else (DTAP_SUCCESS, r, e))"

text \<open>Insertion before the first frame with a larger number, at the end when there is none.\<close>

definition insert_frame :: "DTAP_Frame \<Rightarrow> DTAP_Frame list \<Rightarrow> DTAP_Frame list" where
  "insert_frame fr l = insert_by_seq txSeq fr l"

text \<open>The loop that looks for the next missing number, at most as often as the window is large;
  \<open>None\<close> when every number tried is present.\<close>

fun next_missing :: "nat \<Rightarrow> DTAP_Frame list \<Rightarrow> u16w \<Rightarrow> u16w option" where
  "next_missing 0 l s = None"
| "next_missing (Suc k) l s =
     (if DTAP_FindFrameBySeq l s = None then Some s else next_missing k l (DTAP_GetNextFrameSeq s))"

definition DTAP_SlideRxWindow :: "DTAP_Frame \<Rightarrow> DTAP_ReliableChannel \<Rightarrow> DTAP_ReliableChannel" where
  "DTAP_SlideRxWindow fr r =
     (let s = txSeq fr;
          r0 = r\<lparr>isRecvFrame := True, rxWindow := (rxWindow r)\<lparr>rxList := insert_frame fr (rxList (rxWindow r))\<rparr>\<rparr>;
          r1 = (if s = expectedTxSeq (rxWindow r0)
                then (case next_missing (rx_size (rxWindow r0)) (rxList (rxWindow r0)) (DTAP_GetNextFrameSeq s) of
                        None \<Rightarrow> r0
                      | Some q \<Rightarrow> r0\<lparr>rxWindow := (rxWindow r0)\<lparr>expectedTxSeq := q\<rparr>, nackCnt := 0\<rparr>)
                else r0);
          w = rxWindow r1
      in if DTAP_IsFrameSeqSmaller (maxExpectedTxSeq w) s \<or> maxExpectedTxSeq w = s
         then r1\<lparr>rxWindow := w\<lparr>maxExpectedTxSeq := DTAP_GetNextFrameSeq s\<rparr>\<rparr> else r1)"

definition DTAP_OperateReorderTimer :: "DTAP_ReliableChannel \<Rightarrow> 'w env \<Rightarrow> DTAP_ReliableChannel \<times> 'w env" where
  "DTAP_OperateReorderTimer r e =
     (let w = rxWindow r in
      if reorderTimer r = INVALID_TIMER_HANDLE then
        (if DTAP_IsFrameSeqSmaller (expectedTxSeq w) (maxExpectedTxSeq w)
         then case start_timer (reorderTimer r) (r_reorderTimeout r) ReorderTimerExpire e of (h, e1) \<Rightarrow> (r\<lparr>reorderTimer := h\<rparr>, e1)
         else (r, e))
      else if expectedTxSeq w = maxExpectedTxSeq w then
        (case stop_timer (reorderTimer r) e of (h, e1) \<Rightarrow> (r\<lparr>reorderTimer := h\<rparr>, e1))
      else if DTAP_IsFrameSeqSmaller (expectedTxSeq w) (maxExpectedTxSeq w) then
        (case restart_timer (reorderTimer r) (r_reorderTimeout r) ReorderTimerExpire e of (h, e1) \<Rightarrow> (r\<lparr>reorderTimer := h\<rparr>, e1))
      else (r, e))"

text \<open>Handing the first frame of the reception window to the upper layer, as the body of the loop of
  \<open>DTAP_RecvEnhanceFrameInner\<close> does. The frame is changed in place.\<close>

definition hand_up :: "chan_info \<Rightarrow> recv_cb option \<Rightarrow> DTAP_Frame \<Rightarrow> SDF_Buff option \<Rightarrow> rx_env \<Rightarrow>
    dtap_ret \<times> DTAP_Frame \<times> SDF_Buff option \<times> rx_env" where
  "hand_up ch recvCb fr fg env =
     (let info = \<lparr>info_pi = fpi fr, info_lcid = c_lcid ch, info_tcid = c_dstTcid ch\<rparr>; ft = getFrameType (fctx fr) in
      if ft = DTAP_FRAME_SIMPLEX_AGGR \<or> ft = DTAP_FRAME_DUPLEX_AGGR then
        (case DTAP_RecvAggregateFrame fr info recvCb env of (ret, fr', env') \<Rightarrow> (ret, fr', fg, env'))
      else if ft = DTAP_FRAME_SIMPLEX_FRAG \<or> ft = DTAP_FRAME_DUPLEX_FRAG then DTAP_RecvFragmentFrame fg fr info recvCb env
      else (DTAP_SUCCESS, fr, fg, env))"

function recv_inner_loop :: "chan_info \<Rightarrow> recv_cb option \<Rightarrow> DTAP_ReliableChannel \<Rightarrow> 'w env \<Rightarrow> DTAP_ReliableChannel \<times> 'w env" where
  "recv_inner_loop ch recvCb r e =
     (case rxList (rxWindow r) of
        [] \<Rightarrow> (r, e)
      | fr # frs \<Rightarrow>
          if txSeq fr \<noteq> bufferSeq (rxWindow r) then (r, e)
          else case hand_up ch recvCb fr (frags r) (e_mem e, e_dl e) of (ret, fr', fg, (m, dl)) \<Rightarrow>
            let e1 = e\<lparr>e_mem := m, e_dl := dl\<rparr>; r1 = r\<lparr>frags := fg\<rparr> in
            if ret = DTAP_TRANS_RELIABLE_TRANS_CHANNEL_FULL
            then (r1\<lparr>isRxWindowFull := True, rxWindow := (rxWindow r1)\<lparr>rxList := fr' # frs\<rparr>\<rparr>, e1)
            else recv_inner_loop ch recvCb
                   (r1\<lparr>rxWindow := (rxWindow r1)\<lparr>rxList := frs, bufferSeq := DTAP_GetNextFrameSeq (bufferSeq (rxWindow r1))\<rparr>\<rparr>) e1)"
  by pat_completeness auto
termination
  by (relation "measure (\<lambda>(_, _, r, _). length (rxList (rxWindow r)))") auto

declare recv_inner_loop.simps [simp del]

definition DTAP_RecvEnhanceFrameInner :: "chan_info \<Rightarrow> recv_cb option \<Rightarrow> DTAP_ReliableChannel \<Rightarrow> 'w env \<Rightarrow> DTAP_ReliableChannel \<times> 'w env" where
  "DTAP_RecvEnhanceFrameInner ch recvCb r e = (if isRxWindowFull r then (r, e) else recv_inner_loop ch recvCb r e)"

definition DTAP_SetTransChannelStatus :: "chan_info \<Rightarrow> bool \<Rightarrow> recv_cb option \<Rightarrow> DTAP_ReliableChannel \<Rightarrow> 'w env \<Rightarrow> DTAP_ReliableChannel \<times> 'w env" where
  "DTAP_SetTransChannelStatus ch success recvCb r e =
     (if success then DTAP_RecvEnhanceFrameInner ch recvCb (r\<lparr>isRxWindowFull := False\<rparr>) e else (r, e))"

section \<open>Sending\<close>

text \<open>The loop of \<open>DTAP_PackEnhanceFrames\<close> over the fragments.\<close>

fun pack_frames :: "chan_info \<Rightarrow> byte \<Rightarrow> DTAP_ReliableChannel \<Rightarrow> u16w \<Rightarrow> DTAP_Frame list \<Rightarrow> mem \<Rightarrow> dtap_ret \<times> DTAP_Frame list \<times> mem" where
  "pack_frames ch p r s [] m = (DTAP_SUCCESS, [], m)"
| "pack_frames ch p r s (fr # frs) m =
     (let fr0 = fr\<lparr>fbits := DTAP_FRAME_C_BIT, fpi := p, txSeq := s, reqSeq := expectedTxSeq (rxWindow r)\<rparr> in
      case buildFrame (fctx fr0) (c_dstTcid ch) (r_crcInit r) fr0 m of (ret, fr1, m1) \<Rightarrow>
        if ret \<noteq> DTAP_SUCCESS then (ret, [], m1)
        else case pack_frames ch p r (DTAP_GetNextFrameSeq s) frs m1 of (ret2, l, m2) \<Rightarrow>
          (ret2, (if ret2 = DTAP_SUCCESS then fr1 # l else []), m2))"

definition DTAP_PackEnhanceFrames :: "chan_info \<Rightarrow> byte \<Rightarrow> SDF_Buff \<Rightarrow> nat \<Rightarrow> DTAP_ReliableChannel \<Rightarrow> mem \<Rightarrow> dtap_ret \<times> DTAP_Frame list \<times> mem" where
  "DTAP_PackEnhanceFrames ch p b mps r m =
     (case DTAP_FragmentFrame b mps (if isRecvFrame r then DTAP_FRAME_DUPLEX_FRAG else DTAP_FRAME_SIMPLEX_FRAG) m of
        (frs, frameCnt, m1) \<Rightarrow>
          if frameCnt = 0 then (DTAP_TRANS_RELIABLE_FRAGMENT_ERR, [], m1)
          else pack_frames ch p r (nextTxSeq (txWindow r)) (take frameCnt frs) m1)"

definition DTAP_TriggerSendPolling :: "DTAP_ReliableChannel \<Rightarrow> bool \<times> DTAP_ReliableChannel" where
  "DTAP_TriggerSendPolling r =
     (if sendPollingCounter r * 4 \<ge> tx_size (txWindow r) then (True, r\<lparr>sendPollingCounter := 0\<rparr>)
      else (False, r\<lparr>sendPollingCounter := u8 (sendPollingCounter r + 1)\<rparr>))"

definition DTAP_SetBitForSendPolling :: "u16w \<Rightarrow> DTAP_Frame \<Rightarrow> DTAP_Frame" where
  "DTAP_SetBitForSendPolling crcInit fr =
     (case fbuff fr of None \<Rightarrow> fr
      | Some b \<Rightarrow>
          let tb = head_typeBits b; newBits = drop_bit 4 tb OR DTAP_FRAME_P_BIT in
          snd (DTAP_ReCalculateCrcValue crcInit (fr\<lparr>fbuff := Some (put_typeBits (DTAP_SetFrameBit tb newBits) b)\<rparr>)))"

text \<open>The loop of \<open>DTAP_SendEnhanceFrameInner\<close> over the new frames; the flag says whether a frame was
  sent.\<close>

fun send_new_frames :: "'w xmit \<Rightarrow> DTAP_Frame list \<Rightarrow> bool \<Rightarrow> DTAP_ReliableChannel \<Rightarrow> 'w env \<Rightarrow> bool \<times> DTAP_ReliableChannel \<times> 'w env" where
  "send_new_frames xmit [] flag r e = (flag, r, e)"
| "send_new_frames xmit (fr # frs) flag r e =
     (case DTAP_TriggerSendPolling r of (poll, r1) \<Rightarrow>
      let fr1 = (if poll then DTAP_SetBitForSendPolling (r_crcInit r1) fr else fr) in
      case (case fbuff fr1 of None \<Rightarrow> (None, e_mem e) | Some b \<Rightarrow> SDF_BuffCopy b (e_mem e)) of (cb, m) \<Rightarrow>
      case transmit xmit cb (e\<lparr>e_mem := m\<rparr>) of (ret, e1) \<Rightarrow>
        let w = txWindow r1;
            r2 = r1\<lparr>reTxSeq := DTAP_GetNextFrameSeq (reTxSeq r1),
                    txWindow := w\<lparr>nextTxSeq := DTAP_GetNextFrameSeq (nextTxSeq w), txList := txList w @ [fr1]\<rparr>\<rparr>
        in send_new_frames xmit frs (flag \<or> ret = DTAP_SUCCESS) r2 e1)"

definition DTAP_SendEnhanceFrameInner :: "'w xmit \<Rightarrow> chan_info \<Rightarrow> DTAP_Frame list \<Rightarrow> nat \<Rightarrow> DTAP_ReliableChannel \<Rightarrow> 'w env \<Rightarrow>
    dtap_ret \<times> DTAP_ReliableChannel \<times> 'w env" where
  "DTAP_SendEnhanceFrameInner xmit ch frs frameCnt r e =
     (if frameCnt > DTAP_MAX_FRAGMENT_NUM then (DTAP_TRANS_RELIABLE_INVALID_FRAME_NUM, r, e)
      else case (if DTAP_IsFrameSeqSmaller (reTxSeq r) (nextTxSeq (txWindow r))
                 then DTAP_RetransEnhanceFrame xmit ch r e else (DTAP_TRANS_RELIABLE_FIND_FRAME_ERR, r, e)) of
        (ret, r1, e1) \<Rightarrow>
          let old = DTAP_IsFrameSeqSmaller (reTxSeq r) (nextTxSeq (txWindow r)) in
          if old \<and> ret = DTAP_TRANS_RELIABLE_REACH_MAX_RE_TX_CNT_ERR then (ret, r1, e1)
          else
            let r2 = (if old then r1\<lparr>reTxSeq := nextTxSeq (txWindow r1)\<rparr> else r1) in
            (case send_new_frames xmit (take frameCnt frs) (old \<and> ret = DTAP_SUCCESS) r2 e1 of (flag, r3, e3) \<Rightarrow>
               (case (if flag \<and> isRecvFrame r3 then restart_timer (rspTimer r3) (rspTimeout r3) RspTimerExpire e3
                      else (rspTimer r3, e3)) of (h, e4) \<Rightarrow>
                  (case (if retransTimer r3 = INVALID_TIMER_HANDLE
                         then start_timer (retransTimer r3) (retransTimeout r3) RetransTimerExpire e4
                         else (retransTimer r3, e4)) of (h', e5) \<Rightarrow>
                     (DTAP_SUCCESS, r3\<lparr>rspTimer := h, retransTimer := h'\<rparr>, e5)))))"

abbreviation (input) DTAP_SIMPLEX_FRAG_FRAME_HEADER_LEN :: nat where "DTAP_SIMPLEX_FRAG_FRAME_HEADER_LEN \<equiv> 7"
abbreviation (input) DTAP_DUPLEX_FRAG_FRAME_HEADER_LEN :: nat where "DTAP_DUPLEX_FRAG_FRAME_HEADER_LEN \<equiv> 9"

definition frag_header_len :: "DTAP_ReliableChannel \<Rightarrow> nat" where
  "frag_header_len r = (if isRecvFrame r then DTAP_DUPLEX_FRAG_FRAME_HEADER_LEN else DTAP_SIMPLEX_FRAG_FRAME_HEADER_LEN)"

definition DTAP_SendEnhanceFrame :: "'w xmit \<Rightarrow> chan_info \<Rightarrow> byte \<Rightarrow> SDF_Buff \<Rightarrow> DTAP_ReliableChannel \<Rightarrow> 'w env \<Rightarrow>
    dtap_ret \<times> DTAP_ReliableChannel \<times> 'w env" where
  "DTAP_SendEnhanceFrame xmit ch p b r e =
     (if c_mps ch \<le> frag_header_len r + DTAP_CRC_LEN then (DTAP_TRANS_RELIABLE_INVALID_MPS, r, e)
      else
      let mps = c_mps ch - frag_header_len r - DTAP_CRC_LEN;
          frameCnt = DTAP_GetFragmentFramesNum (dataLen b) mps;
          inUse = length (txList (txWindow r)) in
      if frameCnt > DTAP_MAX_FRAGMENT_NUM then (DTAP_TRANS_RELIABLE_INVALID_FRAME_NUM, r, e)
      else if inUse + frameCnt > tx_size (txWindow r) then
        (case (if cacheBuff r = None
               then (case SDF_BuffCopy b (e_mem e) of (cb, m) \<Rightarrow> (r\<lparr>cacheBuff := cb, cachePi := p\<rparr>, e\<lparr>e_mem := m\<rparr>))
               else (r, e)) of
           (r1, e1) \<Rightarrow> (DTAP_TRANS_RELIABLE_TX_WINDOW_FULL, r1\<lparr>isTxWindowFull := True\<rparr>, e1))
      else
      let r1 = (if inUse + frameCnt = tx_size (txWindow r) then r\<lparr>isTxWindowFull := True\<rparr> else r) in
      (case DTAP_PackEnhanceFrames ch p b mps r1 (e_mem e) of (ret, frs, m) \<Rightarrow>
         let e1 = e\<lparr>e_mem := m\<rparr> in
         if ret \<noteq> DTAP_SUCCESS then (ret, r1, e1)
         else case DTAP_SendEnhanceFrameInner xmit ch frs frameCnt r1 e1 of (ret2, r2, e2) \<Rightarrow>
           ((if ret2 = DTAP_SUCCESS \<and> isTxWindowFull r2 then DTAP_TRANS_RELIABLE_TX_WINDOW_FULL else ret2), r2, e2)))"

section \<open>The window opens\<close>

text \<open>\<open>DTAP_TransChannelStatusChange\<close> and its helpers are in \<^verbatim>\<open>dtap.c\<close>. The mode of the channel is the reliable
  one there, so the registered \<open>sendFrame\<close> is \<open>DTAP_SendEnhanceFrame\<close>.\<close>

abbreviation (input) CM_TRANS_MODE_RELIABLE :: nat where "CM_TRANS_MODE_RELIABLE \<equiv> 3"

text \<open>The registry after \<open>DTAP_Init\<close> has registered the four modes.\<close>

definition g_dtapTransMode :: mode_table where
  "g_dtapTransMode = foldl (\<lambda>t x. DTAP_RegisterTransMode (Some x) t) (replicate CM_TRANS_MODE_MAX None)
     [ModeBasic, ModeTransparent, ModeStream, ModeReliable]"

fun DTAP_CovertErrorCode :: "dtap_ret \<Rightarrow> nat" where
  "DTAP_CovertErrorCode ret =
     (if ret = DTAP_SUCCESS then 0
      else if ret = DTAP_TRANS_INVALID_DATA then 3
      else if ret = DTAP_TRANS_FIND_CHANNEL_ERR then 4
      else if ret = DTAP_TRANS_EXCEED_MTU_ERR then 5
      else if ret = DTAP_TRANS_RELIABLE_TX_WINDOW_FULL then 6 else 1)"

definition status_change_cbk :: "bool \<Rightarrow> chan_info \<Rightarrow> nat \<Rightarrow> 'w env \<Rightarrow> 'w env" where
  "status_change_cbk reg ch result e =
     (if reg then e\<lparr>e_status := e_status e @ [(c_lcid ch, c_srcTcid ch, result)]\<rparr> else e)"

text \<open>\<open>reg\<close> says whether the callback is registered.\<close>

definition DTAP_TransSendCacheBuff :: "'w xmit \<Rightarrow> bool \<Rightarrow> chan_info \<Rightarrow> nat \<Rightarrow> DTAP_ReliableChannel \<Rightarrow> 'w env \<Rightarrow> DTAP_ReliableChannel \<times> 'w env" where
  "DTAP_TransSendCacheBuff xmit reg ch result r e =
     (case (DTAP_GetTransMode (c_mode ch) g_dtapTransMode, cacheBuff r) of
        (Some _, Some cb) \<Rightarrow>
          let mps = u16 (65536 + c_mps ch - frag_header_len r - DTAP_CRC_LEN);
              frameCnt = DTAP_GetFragmentFramesNum (dataLen cb) mps in
          if length (txList (txWindow r)) + frameCnt \<ge> tx_size (txWindow r) then (r, e)
          else (case DTAP_SendEnhanceFrame xmit ch (cachePi r) cb (r\<lparr>isTxWindowFull := False\<rparr>) e of (ret, r1, e1) \<Rightarrow>
                  (r1\<lparr>cacheBuff := None\<rparr>, status_change_cbk reg ch result e1))
      | _ \<Rightarrow> (r, e))"

definition DTAP_TransChannelStatusChange :: "'w xmit \<Rightarrow> bool \<Rightarrow> chan_info \<Rightarrow> nat \<Rightarrow> DTAP_ReliableChannel \<Rightarrow> 'w env \<Rightarrow> DTAP_ReliableChannel \<times> 'w env" where
  "DTAP_TransChannelStatusChange xmit reg ch result r e =
     (if c_mode ch \<noteq> CM_TRANS_MODE_RELIABLE then (r, e)
      else if \<not> isTxWindowFull r then (r, e)
      else if cacheBuff r \<noteq> None then DTAP_TransSendCacheBuff xmit reg ch result r e
      else if length (txList (txWindow r)) < tx_size (txWindow r)
      then (r\<lparr>isTxWindowFull := False\<rparr>, status_change_cbk reg ch result e)
      else (r, e))"

definition DTAP_RecvEnhanceFrame :: "'w xmit \<Rightarrow> bool \<Rightarrow> chan_info \<Rightarrow> DTAP_Frame \<Rightarrow> recv_cb option \<Rightarrow> DTAP_ReliableChannel \<Rightarrow> 'w env \<Rightarrow>
    dtap_ret \<times> DTAP_ReliableChannel \<times> 'w env" where
  "DTAP_RecvEnhanceFrame xmit reg ch fr recvCb r e =
     (case DTAP_RecvNackFrame xmit ch fr r e of (ret, r1, e1) \<Rightarrow>
        if ret \<noteq> DTAP_SUCCESS then (ret, r1, e1)
        else case DTAP_SlideTxWindow ch fr r1 e1 of (r2, e2) \<Rightarrow>
        if getFrameType (fctx fr) = DTAP_FRAME_ACK then
          (case DTAP_TransChannelStatusChange xmit reg ch 0 r2 e2 of (r3, e3) \<Rightarrow> (DTAP_SUCCESS, r3, e3))
        else case DTAP_CopyFrame fr (e_mem e2) of
          (None, m) \<Rightarrow> (DTAP_TRANS_RELIABLE_COPY_FRAME_ERR, r2, e2\<lparr>e_mem := m\<rparr>)
        | (Some cp, m) \<Rightarrow>
            (case DTAP_OperateReorderTimer (DTAP_SlideRxWindow cp r2) (e2\<lparr>e_mem := m\<rparr>) of (r4, e4) \<Rightarrow>
             case DTAP_RecvEnhanceFrameInner ch recvCb r4 e4 of (r5, e5) \<Rightarrow>
             case (if DTAP_CheckFrameBit (fbits cp) DTAP_FRAME_P_BIT
                   then (case DTAP_SendAckFrame xmit ch True False r5 e5 of (ret2, e6) \<Rightarrow>
                           if ret2 \<noteq> DTAP_SUCCESS then (r5, e6)
                           else case restart_timer (rspTimer r5) (rspTimeout r5) RspTimerExpire e6 of
                                  (h, e7) \<Rightarrow> (r5\<lparr>rspTimer := h\<rparr>, e7))
                   else (r5, e5)) of (r6, e8) \<Rightarrow>
             case DTAP_TransChannelStatusChange xmit reg ch 0 r6 e8 of (r7, e9) \<Rightarrow> (DTAP_SUCCESS, r7, e9)))"

end
