(* ===== verification/Dtap_Rel_Tx.thy ===== *)
theory Dtap_Rel_Tx
  imports Dtap_Reliable
begin

text \<open>
  The transmission window of the reliable mode. \<open>tx_win A r\<close> says that the window holds exactly the frames
  \<open>A\<close>, \<open>A + 1\<close>, ... up to the next one to send, in order and within its size. Every operation keeps
  this, acknowledgements only move \<open>A\<close> forward over frames that were sent, and what stays in the window is
  what was not acknowledged.
\<close>

section \<open>The window\<close>

definition tx_win :: "nat \<Rightarrow> DTAP_ReliableChannel \<Rightarrow> bool" where
  "tx_win A r \<longleftrightarrow>
     expectedAckSeq (txWindow r) = seqn A \<and>
     nextTxSeq (txWindow r) = seqn (A + length (txList (txWindow r))) \<and>
     map txSeq (txList (txWindow r)) = map seqn [A..<A + length (txList (txWindow r))] \<and>
     length (txList (txWindow r)) \<le> tx_size (txWindow r) \<and> tx_size (txWindow r) \<le> 255"

definition tx_view :: "DTAP_ReliableChannel \<Rightarrow> nat \<times> u16w \<times> u16w \<times> u16w list" where
  "tx_view r = (tx_size (txWindow r), nextTxSeq (txWindow r), expectedAckSeq (txWindow r), map txSeq (txList (txWindow r)))"

lemma tx_win_view: "tx_view r' = tx_view r \<Longrightarrow> tx_win A r' = tx_win A r"
proof -
  assume a: "tx_view r' = tx_view r"
  then have "length (txList (txWindow r')) = length (txList (txWindow r))"
    by (auto simp: tx_view_def dest: map_eq_imp_length_eq)
  with a show ?thesis by (simp add: tx_win_def tx_view_def)
qed

lemma tx_win_simps [simp]:
  "tx_win A (r\<lparr>rspTimer := h\<rparr>) = tx_win A r" "tx_win A (r\<lparr>retransTimer := h\<rparr>) = tx_win A r"
  "tx_win A (r\<lparr>reorderTimer := h\<rparr>) = tx_win A r" "tx_win A (r\<lparr>isTxWindowFull := b\<rparr>) = tx_win A r"
  "tx_win A (r\<lparr>cacheBuff := cb\<rparr>) = tx_win A r" "tx_win A (r\<lparr>reTxSeq := s\<rparr>) = tx_win A r"
  "tx_win A (r\<lparr>isRxWindowFull := b\<rparr>) = tx_win A r"
  by (simp_all add: tx_win_def)

lemma tx_win_nth:
  assumes "tx_win A r" "i < length (txList (txWindow r))"
  shows "txSeq (txList (txWindow r) ! i) = seqn (A + i)"
proof -
  have "map txSeq (txList (txWindow r)) ! i = map seqn [A..<A + length (txList (txWindow r))] ! i"
    using assms(1) by (simp add: tx_win_def)
  then show ?thesis using assms(2) by simp
qed

section \<open>Operations that leave the window alone\<close>

lemma ReCalculateCrc_txSeq: "txSeq (snd (DTAP_ReCalculateCrcValue c fr)) = txSeq fr"
  by (simp add: DTAP_ReCalculateCrcValue_def Let_def split: option.splits)

lemma SetPbit_txSeq [simp]: "txSeq (DTAP_SetPbitForSendPolling c fr) = txSeq fr"
proof (cases "fbuff fr")
  case (Some b)
  let ?fr = "fr\<lparr>fbuff := Some (put_typeBits (DTAP_SetFrameBit (head_typeBits b) (drop_bit 4 (head_typeBits b) OR DTAP_FRAME_P_BIT)) b)\<rparr>"
  obtain ret fr1 where e: "DTAP_ReCalculateCrcValue c ?fr = (ret, fr1)" by fastforce
  have "txSeq fr1 = txSeq fr" using ReCalculateCrc_txSeq [of c ?fr] by (simp add: e)
  then show ?thesis using Some by (simp add: DTAP_SetPbitForSendPolling_def Let_def e)
qed (simp add: DTAP_SetPbitForSendPolling_def)

lemma SetBit_txSeq [simp]: "txSeq (DTAP_SetBitForSendPolling c fr) = txSeq fr"
  by (simp add: DTAP_SetBitForSendPolling_def Let_def ReCalculateCrc_txSeq split: option.splits)

lemma ReleaseReq_view: "DTAP_DynTransChannReleaseReq ch r e = (r', e') \<Longrightarrow> tx_view r' = tx_view r \<and> rxWindow r' = rxWindow r"
  by (auto simp: DTAP_DynTransChannReleaseReq_def tx_view_def split: if_splits)

lemma Retrans_view:
  assumes "DTAP_RetransEnhanceFrame xmit ch r e = (ret, r', e')"
  shows "tx_view r' = tx_view r" "rxWindow r' = rxWindow r"
proof -
  have m: "map txSeq (upd_first p f l) = map txSeq l" if "\<And>x. txSeq (f x) = txSeq x" for p f l
    using that by (rule map_upd_first)
  show "tx_view r' = tx_view r" "rxWindow r' = rxWindow r"
    using assms ReleaseReq_view
    by (auto simp: DTAP_RetransEnhanceFrame_def Let_def tx_view_def m split: option.splits if_splits prod.splits) blast+
qed

lemma RetransExpire_view:
  "DTAP_RetransTimerExpireProc xmit ch r e = (r', e') \<Longrightarrow> tx_view r' = tx_view r \<and> rxWindow r' = rxWindow r"
  using Retrans_view [of xmit ch "r\<lparr>reTxSeq := expectedAckSeq (txWindow r)\<rparr>" e "fst (DTAP_RetransEnhanceFrame xmit ch (r\<lparr>reTxSeq := expectedAckSeq (txWindow r)\<rparr>) e)" r' e']
  by (auto simp: DTAP_RetransTimerExpireProc_def tx_view_def prod_eq_iff split: if_splits)

lemma ReorderExpire_view:
  "DTAP_ReorderTimerExpireProc xmit ch r e = (r', e') \<Longrightarrow> tx_view r' = tx_view r \<and> rxWindow r' = rxWindow r"
  using ReleaseReq_view [of ch r e r' e'] by (auto simp: DTAP_ReorderTimerExpireProc_def tx_view_def split: if_splits prod.splits)

lemma RecvNack_view:
  "DTAP_RecvNackFrame xmit ch fr r e = (ret, r', e') \<Longrightarrow> tx_view r' = tx_view r \<and> rxWindow r' = rxWindow r"
  using Retrans_view [of xmit ch "r\<lparr>reTxSeq := ack_reqSeq fr\<rparr>" e]
  by (auto simp: DTAP_RecvNackFrame_def tx_view_def split: if_splits prod.splits)

lemma SlideRx_tx [simp]: "txWindow (DTAP_SlideRxWindow fr r) = txWindow r"
  by (simp add: DTAP_SlideRxWindow_def Let_def split: option.splits)

lemma OperateReorder_same:
  "DTAP_OperateReorderTimer r e = (r', e') \<Longrightarrow> txWindow r' = txWindow r \<and> rxWindow r' = rxWindow r \<and>
     frags r' = frags r \<and> isRxWindowFull r' = isRxWindowFull r"
  by (auto simp: DTAP_OperateReorderTimer_def Let_def split: if_splits prod.splits)

lemma recv_inner_tx: "recv_inner_loop ch cb r e = (r', e') \<Longrightarrow> txWindow r' = txWindow r"
proof (induction ch cb r e rule: recv_inner_loop.induct)
  case (1 ch cb r e)
  show ?case
  proof (cases "rxList (rxWindow r)")
    case Nil
    then show ?thesis using 1(2) by (subst (asm) recv_inner_loop.simps) simp
  next
    case (Cons fr frs)
    obtain ret fr' fg m dl where h: "hand_up ch cb fr (frags r) (e_mem e, e_dl e) = (ret, fr', fg, (m, dl))"
      by (metis prod_cases5)
    show ?thesis using 1(2) 1(1) [OF Cons _ h [symmetric]] Cons h
      by (subst (asm) recv_inner_loop.simps) (auto simp: Let_def split: if_splits)
  qed
qed

lemma RecvInner_tx: "DTAP_RecvEnhanceFrameInner ch cb r e = (r', e') \<Longrightarrow> txWindow r' = txWindow r"
  by (auto simp: DTAP_RecvEnhanceFrameInner_def split: if_splits dest: recv_inner_tx)

section \<open>Acknowledgements\<close>

lemma seqn_soff: "is_seq s \<Longrightarrow> s = seqn (A + soff (seqn A) s)"
proof -
  assume s: "is_seq s"
  have "uint (seqn (A + soff (seqn A) s)) = (int A + (uint s - int A mod 16384) mod 16384) mod 16384"
    by (simp add: uint_seqn int_soff)
  also have "\<dots> = (int A + (uint s - int A mod 16384)) mod 16384" by (rule mod_add_right_eq)
  also have "\<dots> = ((int A + uint s) - int A mod 16384) mod 16384" by (simp only: add_diff_eq)
  also have "\<dots> = ((int A + uint s) - int A) mod 16384" by (rule mod_diff_right_eq)
  also have "\<dots> = uint s mod 16384" by simp
  also have "\<dots> = uint s" using s by (simp add: is_seq_uint)
  finally show ?thesis by (simp add: word_uint_eq_iff)
qed

lemma smaller_seqn_wide:
  assumes "d < 16384"
  shows "DTAP_IsFrameSeqSmaller (seqn A) (seqn (A + d)) \<longleftrightarrow> 1 \<le> d \<and> d \<le> 8192"
proof (cases "d \<le> 8192")
  case True then show ?thesis by (auto simp: smaller_seqn)
next
  case False
  have "seqn A = seqn (A + 16384)" by (simp add: seqn_def)
  then show ?thesis using False assms smaller_seqn [of "A + 16384" "A + d"] by simp
qed

text \<open>Which request numbers move the window: those of the frames behind the first unacknowledged one,
  up to the next frame to be sent.\<close>

lemma ack_in_window:
  assumes "is_seq rq" "1 \<le> n" "n \<le> 255"
  shows "(DTAP_IsFrameSeqSmaller (seqn A) rq \<and> DTAP_IsFrameSeqSmaller rq (seqn (A + n)) \<or> rq = seqn (A + n)) \<longleftrightarrow>
    (\<exists>k. 1 \<le> k \<and> k \<le> n \<and> rq = seqn (A + k))"
proof -
  define d where "d = soff (seqn A) rq"
  have d: "d < 16384" "rq = seqn (A + d)" using assms(1) by (simp_all add: d_def flip: seqn_soff)
  have e: "seqn (A + d) = seqn (A + k) \<longleftrightarrow> d = k" if "k \<le> 255" for k
    using d(1) that by (auto simp: seqn_eq_iff)
  have s: "DTAP_IsFrameSeqSmaller (seqn A) rq \<longleftrightarrow> 1 \<le> d \<and> d \<le> 8192" using smaller_seqn_wide [OF d(1)] d(2) by simp
  have t: "DTAP_IsFrameSeqSmaller rq (seqn (A + n)) \<longleftrightarrow> d < n" if "d \<le> 8192"
    unfolding d(2) using that assms by (subst smaller_seqn) auto
  have "(\<exists>k. 1 \<le> k \<and> k \<le> n \<and> rq = seqn (A + k)) \<longleftrightarrow> 1 \<le> d \<and> d \<le> n"
    unfolding d(2) using e assms(3) by (metis le_trans)
  moreover have "rq = seqn (A + n) \<longleftrightarrow> d = n" unfolding d(2) using e assms(3) by blast
  ultimately show ?thesis using s t assms by (cases "d \<le> 8192") auto
qed

lemma dropWhile_acked:
  assumes "tx_win A r" "k \<le> length (txList (txWindow r))"
  shows "dropWhile (\<lambda>f. DTAP_IsFrameSeqSmaller (txSeq f) (seqn (A + k))) (txList (txWindow r)) = drop k (txList (txWindow r))"
proof -
  let ?l = "txList (txWindow r)" and ?P = "\<lambda>f. DTAP_IsFrameSeqSmaller (txSeq f) (seqn (A + k))"
  have n: "length ?l \<le> 255" using assms(1) by (simp add: tx_win_def)
  have P: "?P (?l ! i) \<longleftrightarrow> i < k" if "i < length ?l" for i
    using that tx_win_nth [OF assms(1) that] n assms(2) by (simp add: smaller_seqn)
  have "takeWhile ?P ?l = take k ?l" by (rule takeWhile_eq_take_P_nth) (use P in auto)
  then show ?thesis unfolding dropWhile_eq_drop using assms(2) by simp
qed

text \<open>The effect of an acknowledgement on the window.\<close>

lemma SlideTx_window:
  assumes w: "tx_win A r" and q: "is_seq (frame_reqSeq fr) \<or> frame_reqSeq fr = DTAP_FRAME_SEQ_INIT"
    and s: "DTAP_SlideTxWindow ch fr r e = (r', e')"
  obtains k where "k \<le> length (txList (txWindow r))" "tx_win (A + k) r'" "txList (txWindow r') = drop k (txList (txWindow r))"
    "tx_size (txWindow r') = tx_size (txWindow r)" "rxWindow r' = rxWindow r" "frags r' = frags r" "isRxWindowFull r' = isRxWindowFull r"
    "k = 0 \<or> frame_reqSeq fr = seqn (A + k)"
proof -
  let ?l = "txList (txWindow r)" and ?rq = "frame_reqSeq fr"
  let ?move = "DTAP_IsFrameSeqSmaller (seqn A) ?rq \<and> DTAP_IsFrameSeqSmaller ?rq (seqn (A + length ?l)) \<or> ?rq = seqn (A + length ?l)"
  have ws: "expectedAckSeq (txWindow r) = seqn A" "nextTxSeq (txWindow r) = seqn (A + length ?l)" "length ?l \<le> tx_size (txWindow r)"
    "tx_size (txWindow r) \<le> 255" "map txSeq ?l = map seqn [A..<A + length ?l]" using w by (simp_all add: tx_win_def)
  consider (stay) "?rq = DTAP_FRAME_SEQ_INIT \<or> ?l = [] \<or> \<not> ?move" | (go) "?rq \<noteq> DTAP_FRAME_SEQ_INIT" "?l \<noteq> []" ?move by blast
  then show thesis
  proof cases
    case stay
    have "txWindow r' = txWindow r \<and> rxWindow r' = rxWindow r \<and> frags r' = frags r \<and> isRxWindowFull r' = isRxWindowFull r"
      using s stay by (auto simp: DTAP_SlideTxWindow_def Let_def ws split: if_splits prod.splits)
    then show thesis using w by (intro that [of 0]) (simp_all add: tx_win_def)
  next
    case go
    have sq: "is_seq ?rq" using q go(1) by blast
    have n1: "1 \<le> length ?l" "length ?l \<le> 255" using go(2) ws by (cases ?l, auto)
    obtain k where k: "1 \<le> k" "k \<le> length ?l" "?rq = seqn (A + k)"
      using go(3) ack_in_window [OF sq n1] by blast
    have tw: "txWindow r' = (txWindow r)\<lparr>expectedAckSeq := ?rq, txList := drop k ?l\<rparr> \<and> rxWindow r' = rxWindow r \<and>
        frags r' = frags r \<and> isRxWindowFull r' = isRxWindowFull r"
      using s go dropWhile_acked [OF w k(2)] unfolding DTAP_SlideTxWindow_def Let_def
      by (auto simp: ws k(3) split: if_splits prod.splits)
    have "map txSeq (drop k ?l) = map seqn [A + k..<A + length ?l]"
      unfolding drop_map [symmetric] ws(5) using k(2) by (simp add: drop_map)
    then have "tx_win (A + k) r'" using tw ws k by (simp add: tx_win_def)
    then show thesis using tw k by (intro that [of k]) simp_all
  qed
qed

section \<open>Sending\<close>

lemma buildFrame_txSeq: "buildFrame c t crc fr m = (ret, fr1, m1) \<Longrightarrow> txSeq fr1 = txSeq fr"
  by (cases c) (auto simp: DTAP_BuildBasicFrame_def DTAP_BuildSimplexFragFrame_def DTAP_BuildDuplexFragFrame_def
      DTAP_BuildAckFrame_def Let_def split: option.splits prod.splits if_splits)

lemma pack_frames_seq:
  "pack_frames ch p r (seqn k) frs m = (DTAP_SUCCESS, l, m') \<Longrightarrow> map txSeq l = map seqn [k..<k + length frs]"
proof (induction frs arbitrary: k m l m')
  case (Cons fr frs)
  let ?fr0 = "fr\<lparr>fbits := DTAP_FRAME_C_BIT, fpi := p, txSeq := seqn k, reqSeq := expectedTxSeq (rxWindow r)\<rparr>"
  obtain ret fr1 m1 where b: "buildFrame (fctx fr) (c_dstTcid ch) (r_crcInit r) ?fr0 m = (ret, fr1, m1)" by (metis prod_cases3)
  obtain ret2 l2 m2 where p: "pack_frames ch p r (seqn (Suc k)) frs m1 = (ret2, l2, m2)" by (metis prod_cases3)
  have "ret = DTAP_SUCCESS" "ret2 = DTAP_SUCCESS" "l = fr1 # l2" using Cons.prems by (auto simp: Let_def b p split: if_splits)
  moreover have "txSeq fr1 = seqn k" using buildFrame_txSeq [OF b] by simp
  moreover have "[k..<k + length (fr # frs)] = k # [Suc k..<Suc k + length frs]" by (simp add: upt_conv_Cons del: upt_Suc)
  ultimately show ?case using Cons.IH [of "Suc k" m1 l2 m2] p by (simp del: upt_Suc)
qed simp

lemma Trigger_view: "DTAP_TriggerSendPolling r = (b, r') \<Longrightarrow> txWindow r' = txWindow r \<and> rxWindow r' = rxWindow r"
  by (auto simp: DTAP_TriggerSendPolling_def split: if_splits)

lemma send_new_frames_window:
  assumes "send_new_frames xmit frs fl r e = (fl', r', e')" "tx_win A r"
    "map txSeq frs = map seqn [A + length (txList (txWindow r))..<A + length (txList (txWindow r)) + length frs]"
    "length (txList (txWindow r)) + length frs \<le> tx_size (txWindow r)"
  shows "tx_win A r' \<and> rxWindow r' = rxWindow r \<and> length (txList (txWindow r')) = length (txList (txWindow r)) + length frs \<and>
    take (length (txList (txWindow r))) (txList (txWindow r')) = txList (txWindow r)"
  using assms
proof (induction frs arbitrary: fl r e)
  case (Cons fr frs)
  obtain poll r1 where t: "DTAP_TriggerSendPolling r = (poll, r1)" by fastforce
  define fr1 where "fr1 = (if poll then DTAP_SetBitForSendPolling (r_crcInit r1) fr else fr)"
  obtain cb m where c: "(case fbuff fr1 of None \<Rightarrow> (None, e_mem e) | Some b \<Rightarrow> SDF_BuffCopy b (e_mem e)) = (cb, m)" by fastforce
  obtain ret e1 where x: "transmit xmit cb (e\<lparr>e_mem := m\<rparr>) = (ret, e1)" by fastforce
  note tv = Trigger_view [OF t]
  let ?w = "txWindow r1" and ?n = "length (txList (txWindow r))"
  define r2 where "r2 = r1\<lparr>reTxSeq := DTAP_GetNextFrameSeq (reTxSeq r1),
     txWindow := ?w\<lparr>nextTxSeq := DTAP_GetNextFrameSeq (nextTxSeq ?w), txList := txList ?w @ [fr1]\<rparr>\<rparr>"
  have step: "send_new_frames xmit frs (fl \<or> ret = DTAP_SUCCESS) r2 e1 = (fl', r', e')"
    using Cons.prems(1) by (simp add: t Let_def c x flip: fr1_def r2_def)
  have sq: "txSeq fr1 = seqn (A + ?n)" "map txSeq frs = map seqn [Suc (A + ?n)..<A + ?n + length (fr # frs)]"
    using Cons.prems(3) by (simp_all add: fr1_def upt_conv_Cons del: upt_Suc)
  have w2: "tx_win A r2" using Cons.prems(2,4) tv sq(1) by (simp add: tx_win_def r2_def)
  have len: "length (txList (txWindow r2)) = Suc ?n" "tx_size (txWindow r2) = tx_size (txWindow r)" "rxWindow r2 = rxWindow r"
    "txList (txWindow r2) = txList (txWindow r) @ [fr1]" using tv by (simp_all add: r2_def)
  have ih: "tx_win A r' \<and> rxWindow r' = rxWindow r2 \<and> length (txList (txWindow r')) = length (txList (txWindow r2)) + length frs \<and>
    take (length (txList (txWindow r2))) (txList (txWindow r')) = txList (txWindow r2)"
    by (rule Cons.IH [OF step w2]) (use sq(2) len Cons.prems(4) in simp_all)
  then have "take ?n (take (Suc ?n) (txList (txWindow r'))) = txList (txWindow r)" using len by simp
  then show ?case using ih len by (simp add: min_def)
qed simp

lemma SendInner_window:
  assumes i: "DTAP_SendEnhanceFrameInner xmit ch frs cnt r e = (ret, r', e')" and w: "tx_win A r"
    and f: "map txSeq frs = map seqn [A + length (txList (txWindow r))..<A + length (txList (txWindow r)) + length frs]"
    and l: "length (txList (txWindow r)) + length frs \<le> tx_size (txWindow r)"
  shows "tx_win A r' \<and> rxWindow r' = rxWindow r"
proof -
  let ?old = "DTAP_IsFrameSeqSmaller (reTxSeq r) (nextTxSeq (txWindow r))"
  obtain ret1 r1 e1 where R: "(if ?old then DTAP_RetransEnhanceFrame xmit ch r e else (DTAP_TRANS_RELIABLE_FIND_FRAME_ERR, r, e)) = (ret1, r1, e1)"
    by (metis prod_cases3)
  have v1: "tx_view r1 = tx_view r" "rxWindow r1 = rxWindow r" using R Retrans_view by (auto split: if_splits)
  define r2 where "r2 = (if ?old then r1\<lparr>reTxSeq := nextTxSeq (txWindow r1)\<rparr> else r1)"
  have v2: "tx_view r2 = tx_view r" "rxWindow r2 = rxWindow r" using v1 by (auto simp: r2_def tx_view_def)
  have w2: "tx_win A r2" using w tx_win_view [OF v2(1)] by simp
  have n2: "length (txList (txWindow r2)) = length (txList (txWindow r))" "tx_size (txWindow r2) = tx_size (txWindow r)"
    using v2(1) by (auto simp: tx_view_def dest: map_eq_imp_length_eq)
  obtain fl r3 e3 where S: "send_new_frames xmit (take cnt frs) (?old \<and> ret1 = DTAP_SUCCESS) r2 e1 = (fl, r3, e3)" by (metis prod_cases3)
  have tk: "map txSeq (take cnt frs) = map seqn [A + length (txList (txWindow r2))..<A + length (txList (txWindow r2)) + length (take cnt frs)]"
    using arg_cong [OF f, of "take cnt"] n2 by (simp add: take_map min_def)
  have w3: "tx_win A r3 \<and> rxWindow r3 = rxWindow r2"
    using send_new_frames_window [OF S w2 tk] l n2 by (simp add: le_trans [OF _ l])
  have w1: "tx_win A r1" using w tx_win_view [OF v1(1)] by simp
  show ?thesis
    using i w w1 w3 v1(2) v2(2) unfolding DTAP_SendEnhanceFrameInner_def Let_def R prod.case r2_def [symmetric] S
    by (auto split: if_splits prod.splits)
qed

lemma SendEnhance_window:
  assumes s: "DTAP_SendEnhanceFrame xmit ch p b r e = (ret, r', e')" and w: "tx_win A r"
  shows "tx_win A r' \<and> rxWindow r' = rxWindow r"
proof -
  let ?mps = "c_mps ch - frag_header_len r - DTAP_CRC_LEN"
  define cnt where "cnt = DTAP_GetFragmentFramesNum (dataLen b) ?mps"
  let ?n = "length (txList (txWindow r))"
  consider "c_mps ch \<le> frag_header_len r + DTAP_CRC_LEN" | "cnt > DTAP_MAX_FRAGMENT_NUM" | "?n + cnt > tx_size (txWindow r)"
    | (go) "\<not> c_mps ch \<le> frag_header_len r + DTAP_CRC_LEN" "\<not> cnt > DTAP_MAX_FRAGMENT_NUM" "\<not> ?n + cnt > tx_size (txWindow r)" by blast
  then show ?thesis
  proof cases
    case go
    define r1 where "r1 = (if ?n + cnt = tx_size (txWindow r) then r\<lparr>isTxWindowFull := True\<rparr> else r)"
    have r1: "txWindow r1 = txWindow r" "rxWindow r1 = rxWindow r" "isRecvFrame r1 = isRecvFrame r" by (simp_all add: r1_def)
    obtain ret1 frs m where P: "DTAP_PackEnhanceFrames ch p b ?mps r1 (e_mem e) = (ret1, frs, m)" by (metis prod_cases3)
    obtain ret2 r2 e2 where I: "DTAP_SendEnhanceFrameInner xmit ch frs cnt r1 (e\<lparr>e_mem := m\<rparr>) = (ret2, r2, e2)" by (metis prod_cases3)
    show ?thesis
    proof (cases "ret1 = DTAP_SUCCESS")
      case True
      obtain fs k m1 where F: "DTAP_FragmentFrame b ?mps (if isRecvFrame r1 then DTAP_FRAME_DUPLEX_FRAG else DTAP_FRAME_SIMPLEX_FRAG) (e_mem e) = (fs, k, m1)"
        by (metis prod_cases3)
      have k: "k = 0 \<or> k = cnt" using F by (auto simp: DTAP_FragmentFrame_def Let_def cnt_def split: if_splits option.splits prod.splits)
      have pk: "pack_frames ch p r1 (nextTxSeq (txWindow r)) (take k fs) m1 = (DTAP_SUCCESS, frs, m)"
        using P True F r1 by (auto simp: DTAP_PackEnhanceFrames_def split: if_splits)
      have sq: "map txSeq frs = map seqn [A + ?n..<A + ?n + length (take k fs)]"
        using pk w by (intro pack_frames_seq) (simp add: tx_win_def)
      then have len: "length frs = length (take k fs)" by (metis length_map length_upt diff_add_inverse)
      have "length frs \<le> cnt" using k len by auto
      then have "tx_win A r2 \<and> rxWindow r2 = rxWindow r1"
        using sq len go w by (intro SendInner_window [OF I]) (simp_all add: r1 tx_win_def)
      moreover have "r' = r2" using s
        unfolding DTAP_SendEnhanceFrame_def Let_def cnt_def [symmetric] r1_def [symmetric] using go True P I by simp
      ultimately show ?thesis using r1 by simp
    next
      case False
      then have "r' = r1" using s
        unfolding DTAP_SendEnhanceFrame_def Let_def cnt_def [symmetric] r1_def [symmetric] using go P by simp
      then show ?thesis using w r1 by (simp add: tx_win_def)
    qed
  next
    case 1
    then show ?thesis using s w by (simp add: DTAP_SendEnhanceFrame_def)
  next
    case 2
    then show ?thesis using s w
      unfolding DTAP_SendEnhanceFrame_def Let_def cnt_def [symmetric] by (auto split: if_splits)
  next
    case 3
    have full: "tx_win A (r\<lparr>cacheBuff := cb, cachePi := q, isTxWindowFull := True\<rparr>)" "tx_win A (r\<lparr>isTxWindowFull := True\<rparr>)" for cb q
      using w by (simp_all add: tx_win_def)
    show ?thesis using s w 3 full
      unfolding DTAP_SendEnhanceFrame_def Let_def cnt_def [symmetric]
      by (cases "SDF_BuffCopy b (e_mem e)") (auto split: if_splits)
  qed
qed

lemma StatusChange_window:
  assumes "DTAP_TransChannelStatusChange xmit reg ch res r e = (r', e')" "tx_win A r"
  shows "tx_win A r' \<and> rxWindow r' = rxWindow r"
proof -
  have w: "tx_win A (r\<lparr>isTxWindowFull := b\<rparr>)" for b using assms(2) by (simp add: tx_win_def)
  have c: "tx_win A r2 \<and> rxWindow r2 = rxWindow r"
    if "DTAP_TransSendCacheBuff xmit reg ch res r e = (r2, e2)" for r2 e2
    using that w assms(2) SendEnhance_window [of xmit ch "cachePi r" _ "r\<lparr>isTxWindowFull := False\<rparr>" e _ _ _ A]
    by (auto simp: DTAP_TransSendCacheBuff_def Let_def tx_win_def split: option.splits if_splits prod.splits)
  show ?thesis using assms c w
    by (auto simp: DTAP_TransChannelStatusChange_def split: if_splits)
qed

section \<open>Histories of a channel\<close>

text \<open>What can happen to a reliable channel: the upper layer sends a unit, a frame that passed the checks
  arrives, a timer expires, the upper layer reports that it can take data again. The request number of a
  parsed frame has 14 bits, or is the initial value when the frame carries none.\<close>

inductive rel_event :: "'w xmit \<Rightarrow> bool \<Rightarrow> chan_info \<Rightarrow> recv_cb option \<Rightarrow> DTAP_ReliableChannel \<times> 'w env \<Rightarrow> DTAP_ReliableChannel \<times> 'w env \<Rightarrow> bool"
  for xmit :: "'w xmit" and reg ch cb where
  Rel_Send: "DTAP_SendEnhanceFrame xmit ch p b r e = (ret, r', e') \<Longrightarrow> rel_event xmit reg ch cb (r, e) (r', e')"
| Rel_Recv: "is_seq (frame_reqSeq fr) \<or> frame_reqSeq fr = DTAP_FRAME_SEQ_INIT \<Longrightarrow> DTAP_CheckEnhanceFrame r fr \<Longrightarrow>
    DTAP_RecvEnhanceFrame xmit reg ch fr cb r e = (ret, r', e') \<Longrightarrow> rel_event xmit reg ch cb (r, e) (r', e')"
| Rel_Rsp: "DTAP_RspTimerExpireProc xmit ch r e = (r', e') \<Longrightarrow> rel_event xmit reg ch cb (r, e) (r', e')"
| Rel_Reorder: "DTAP_ReorderTimerExpireProc xmit ch r e = (r', e') \<Longrightarrow> rel_event xmit reg ch cb (r, e) (r', e')"
| Rel_Retrans: "DTAP_RetransTimerExpireProc xmit ch r e = (r', e') \<Longrightarrow> rel_event xmit reg ch cb (r, e) (r', e')"
| Rel_Status: "DTAP_SetTransChannelStatus ch ok cb r e = (r', e') \<Longrightarrow> rel_event xmit reg ch cb (r, e) (r', e')"

inductive_cases rel_eventE: "rel_event xmit reg ch cb (r, e) (r', e')"

lemma SetStatus_tx: "DTAP_SetTransChannelStatus ch ok cb r e = (r', e') \<Longrightarrow> txWindow r' = txWindow r"
  by (auto simp: DTAP_SetTransChannelStatus_def split: if_splits dest: RecvInner_tx)

lemma tx_win_cong: "txWindow r' = txWindow r \<Longrightarrow> tx_win A r' = tx_win A r"
  by (simp add: tx_win_def)

lemma RecvEnhance_window:
  assumes q: "is_seq (frame_reqSeq fr) \<or> frame_reqSeq fr = DTAP_FRAME_SEQ_INIT" and w: "tx_win A r"
    and s: "DTAP_RecvEnhanceFrame xmit reg ch fr cb r e = (ret, r', e')"
  shows "\<exists>k. k \<le> length (txList (txWindow r)) \<and> tx_win (A + k) r' \<and> (k = 0 \<or> frame_reqSeq fr = seqn (A + k))"
proof -
  obtain ret1 r1 e1 where n: "DTAP_RecvNackFrame xmit ch fr r e = (ret1, r1, e1)" by (metis prod_cases3)
  note v1 = RecvNack_view [OF n]
  have w1: "tx_win A r1" using w tx_win_view [of r1 r A] v1 by simp
  have l1: "length (txList (txWindow r1)) = length (txList (txWindow r))"
    using v1 by (auto simp: tx_view_def dest: map_eq_imp_length_eq)
  obtain r2 e2 where s2: "DTAP_SlideTxWindow ch fr r1 e1 = (r2, e2)" by fastforce
  obtain k where k: "k \<le> length (txList (txWindow r1))" "tx_win (A + k) r2" "k = 0 \<or> frame_reqSeq fr = seqn (A + k)"
    by (rule SlideTx_window [OF w1 q s2])
  have "tx_win A r' \<or> tx_win (A + k) r'"
  proof (cases "ret1 = DTAP_SUCCESS")
    case False
    then show ?thesis using s w1 n by (simp add: DTAP_RecvEnhanceFrame_def)
  next
    case True
    note S = s [unfolded DTAP_RecvEnhanceFrame_def n prod.case s2]
    show ?thesis
    proof (cases "getFrameType (fctx fr) = DTAP_FRAME_ACK")
      case ack: True
      obtain r3 e3 where c: "DTAP_TransChannelStatusChange xmit reg ch 0 r2 e2 = (r3, e3)" by fastforce
      then show ?thesis using S True ack StatusChange_window [OF c k(2)] by simp
    next
      case data: False
      obtain cp m where cp: "DTAP_CopyFrame fr (e_mem e2) = (cp, m)" by fastforce
      show ?thesis
      proof (cases cp)
        case None
        then show ?thesis using S True data cp k(2) by simp
      next
        case (Some f)
        obtain r4 e4 where o: "DTAP_OperateReorderTimer (DTAP_SlideRxWindow f r2) (e2\<lparr>e_mem := m\<rparr>) = (r4, e4)" by fastforce
        obtain r5 e5 where i: "DTAP_RecvEnhanceFrameInner ch cb r4 e4 = (r5, e5)" by fastforce
        have w5: "tx_win (A + k) r5"
          using k(2) OperateReorder_same [OF o] RecvInner_tx [OF i] by (simp add: tx_win_def)
        obtain r6 e6 where a: "(if DTAP_CheckFrameBit (fbits f) DTAP_FRAME_P_BIT
                   then (case DTAP_SendAckFrame xmit ch True False r5 e5 of (ret2, e6) \<Rightarrow>
                           if ret2 \<noteq> DTAP_SUCCESS then (r5, e6)
                           else case restart_timer (rspTimer r5) (rspTimeout r5) RspTimerExpire e6 of
                                  (h, e7) \<Rightarrow> (r5\<lparr>rspTimer := h\<rparr>, e7))
                   else (r5, e5)) = (r6, e6)" by fastforce
        have w6: "tx_win (A + k) r6" using a w5 by (auto split: if_splits prod.splits)
        obtain r7 e7 where c: "DTAP_TransChannelStatusChange xmit reg ch 0 r6 e6 = (r7, e7)" by fastforce
        have "r' = r7" using S True data cp Some o i a c by simp
        then show ?thesis using StatusChange_window [OF c w6] by simp
      qed
    qed
  qed
  then show ?thesis using k l1 by (metis add_0_right le0)
qed

lemma rel_event_window:
  assumes "rel_event xmit reg ch cb (r, e) (r', e')" "tx_win A r"
  shows "\<exists>k. k \<le> length (txList (txWindow r)) \<and> tx_win (A + k) r'"
proof -
  have same: ?thesis if "tx_win A r'" using that by (intro exI [of _ 0]) simp
  show ?thesis
    using assms(1)
  proof (rule rel_eventE)
    fix p b ret assume "DTAP_SendEnhanceFrame xmit ch p b r e = (ret, r', e')"
    from SendEnhance_window [OF this assms(2)] show ?thesis by (intro same) simp
  next
    fix fr ret assume "is_seq (frame_reqSeq fr) \<or> frame_reqSeq fr = DTAP_FRAME_SEQ_INIT"
      "DTAP_RecvEnhanceFrame xmit reg ch fr cb r e = (ret, r', e')"
    from RecvEnhance_window [OF this(1) assms(2) this(2)] show ?thesis by blast
  next
    assume "DTAP_RspTimerExpireProc xmit ch r e = (r', e')"
    then show ?thesis using assms(2) by (intro same) (simp add: DTAP_RspTimerExpireProc_def)
  next
    assume "DTAP_ReorderTimerExpireProc xmit ch r e = (r', e')"
    from ReorderExpire_view [OF this] show ?thesis using assms(2) tx_win_view [of r' r A] by (intro same) simp
  next
    assume "DTAP_RetransTimerExpireProc xmit ch r e = (r', e')"
    from RetransExpire_view [OF this] show ?thesis using assms(2) tx_win_view [of r' r A] by (intro same) simp
  next
    fix ok assume "DTAP_SetTransChannelStatus ch ok cb r e = (r', e')"
    from tx_win_cong [OF SetStatus_tx [OF this], of A] show ?thesis using assms(2) by (intro same) simp
  qed
qed

text \<open>(C7) The transmission window of a reliable channel is always a run of consecutive frames. Starting
  from the window as created (empty, numbers zero, size at most 255), after any sequence of sends, received
  frames, timer expirations and status changes - whatever allocation, timers and the transmission
  below do - the window holds exactly the frames \<open>A\<close>, ..., \<open>A + n - 1\<close> in order, where \<open>A\<close> is the oldest
  unacknowledged one and \<open>A + n\<close> the next to be sent, and \<open>n\<close> never exceeds the window size.\<close>
theorem reliable_tx_window:
  assumes "(rel_event xmit reg ch cb)\<^sup>*\<^sup>* (r0, e0) (r, e)" "tx_size (txWindow r0) \<le> 255" "txList (txWindow r0) = []"
    "nextTxSeq (txWindow r0) = 0" "expectedAckSeq (txWindow r0) = 0"
  shows "\<exists>A. let w = txWindow r; n = length (txList w) in
     expectedAckSeq w = seqn A \<and> nextTxSeq w = seqn (A + n) \<and> map txSeq (txList w) = map seqn [A..<A + n] \<and> n \<le> tx_size w"
proof -
  have w0: "tx_win 0 r0" using assms(2-) by (simp add: tx_win_def seqn_def)
  have "\<exists>A. tx_win A (fst y)" if "(rel_event xmit reg ch cb)\<^sup>*\<^sup>* x y" "tx_win 0 (fst x)" for x y
    using that
  proof (induction rule: rtranclp_induct)
    case (step y z)
    then obtain A where "tx_win A (fst y)" by blast
    then show ?case using rel_event_window [of xmit reg ch cb "fst y" "snd y" "fst z" "snd z" A] step(2) by auto
  qed blast
  from this [OF assms(1)] w0 obtain A where "tx_win A r" by auto
  then show ?thesis by (auto simp: tx_win_def Let_def)
qed

section \<open>A channel to run\<close>

definition demo_chan :: chan_info where
  "demo_chan = \<lparr>c_lcid = 1, c_srcTcid = 0x40, c_dstTcid = 0x41, c_mode = 3, c_mtu = 100, c_mps = 20, c_castMode = 0,
     c_type = 0, c_priority = 3\<rparr>"

definition demo_rel :: DTAP_ReliableChannel where
  "demo_rel = \<lparr>r_reorderTimeout = 100, r_crcInit = 0, retransTimeout = 500, rspTimeout = 300, maxTxThreshold = 3,
     reorderTimer = -1, retransTimer = -1, rspTimer = -1, isRecvFrame = False, isRxWindowFull = False, reTxSeq = 0,
     txWindow = \<lparr>tx_size = 4, nextTxSeq = 0, expectedAckSeq = 0, txList = []\<rparr>, nackCnt = 0,
     rxWindow = \<lparr>rx_size = 4, bufferSeq = 0, expectedTxSeq = 0, maxExpectedTxSeq = 0, rxList = []\<rparr>,
     frags = None, cachePi = 0, cacheBuff = None, sendPollingCounter = 0, isTxWindowFull = False, isDestroyMsgSent = False\<rparr>"

definition demo_env :: "SDF_Buff option list env" where
  "demo_env = \<lparr>e_mem = [], e_tim = \<lparr>tscript = [], tnext = 0, armed = []\<rparr>, e_clock = [], e_dl = [], e_known = True, e_release = [],
     e_status = [], e_tx = []\<rparr>"

definition demo_xmit :: "SDF_Buff option list xmit" where
  "demo_xmit b w = (DTAP_SUCCESS, w @ [b])"

text \<open>Two frames wait for their acknowledgement.\<close>

definition demo_rel2 :: DTAP_ReliableChannel where
  "demo_rel2 = demo_rel\<lparr>retransTimer := 7, txWindow := \<lparr>tx_size = 4, nextTxSeq = 1, expectedAckSeq = 0x3FFF,
     txList = [(frame0 CtxSimplexFrag)\<lparr>txSeq := 0x3FFF\<rparr>, (frame0 CtxSimplexFrag)\<lparr>txSeq := 0\<rparr>]\<rparr>\<rparr>"

theorem reliable_tx_window_witness:
  "\<exists>A. let w = txWindow (fst (snd (DTAP_SendEnhanceFrame demo_xmit demo_chan 3
        \<lparr>dataOff = 0, dataLen = 2, buffLen = 2, bytes = [1, 2]\<rparr> demo_rel demo_env))); n = length (txList w) in
     expectedAckSeq w = seqn A \<and> nextTxSeq w = seqn (A + n) \<and> map txSeq (txList w) = map seqn [A..<A + n] \<and> n \<le> tx_size w"
proof -
  let ?b = "\<lparr>dataOff = 0, dataLen = 2, buffLen = 2, bytes = [1, 2]\<rparr> :: SDF_Buff"
  obtain ret r e where s: "DTAP_SendEnhanceFrame demo_xmit demo_chan 3 ?b demo_rel demo_env = (ret, r, e)" by (metis prod_cases3)
  have "(rel_event demo_xmit True demo_chan None)\<^sup>*\<^sup>* (demo_rel, demo_env) (r, e)"
    by (rule r_into_rtranclp) (rule Rel_Send [OF s])
  moreover have "tx_size (txWindow demo_rel) \<le> 255" "txList (txWindow demo_rel) = []" "nextTxSeq (txWindow demo_rel) = 0"
    "expectedAckSeq (txWindow demo_rel) = 0" by (simp_all add: demo_rel_def)
  ultimately show ?thesis unfolding s fst_conv snd_conv by (rule reliable_tx_window)
qed



end
