(* ===== verification/Dtap_Reseq.thy ===== *)
theory Dtap_Reseq
  imports Dtap_Seq
begin

text \<open>
  Putting frames back into sequence. The stream mode and the reliable mode receive numbered frames in
  any order, with losses and repetitions, keep the early ones and hand the others up in sequence. The
  abstract receiver of this theory works with the unbounded positions of the frames in the stream
  instead of their 14-bit numbers; the locale \<open>resequencer\<close> states what a mode has to show of its
  receive operation and gives in return that the frames are handed up in order, each once, none left out.
\<close>

section \<open>The abstract receiver\<close>

text \<open>The position expected next, and the positions received beyond it.\<close>

type_synonym reseq = "nat \<times> nat list"

fun strip :: "nat \<Rightarrow> nat list \<Rightarrow> reseq" where
  "strip n [] = (n, [])"
| "strip n (k # ks) = (if k = n then strip (Suc n) ks else (n, k # ks))"

fun arrive :: "nat \<Rightarrow> reseq \<Rightarrow> reseq" where
  "arrive k (n, ks) = (if k < n \<or> k \<in> set ks then (n, ks) else strip n (insort k ks))"

definition reseq_ok :: "reseq \<Rightarrow> bool" where
  "reseq_ok a \<longleftrightarrow> sorted_wrt (<) (fst a # snd a)"

definition received :: "reseq \<Rightarrow> nat set" where
  "received a = {..<fst a} \<union> set (snd a)"

fun paced :: "(nat \<Rightarrow> reseq \<Rightarrow> bool) \<Rightarrow> nat list \<Rightarrow> reseq \<Rightarrow> bool" where
  "paced fits [] a \<longleftrightarrow> True"
| "paced fits (k # ks) a \<longleftrightarrow> fits k a \<and> paced fits ks (arrive k a)"

lemma strip_ge: "n \<le> fst (strip n ks)"
  by (induction n ks rule: strip.induct) auto

lemma strip_split: "ks = [n..<fst (strip n ks)] @ snd (strip n ks)"
proof (induction n ks rule: strip.induct)
  case (2 n k ks)
  show ?case
  proof (cases "k = n")
    case True
    then have s: "strip n (k # ks) = strip (Suc n) ks" by simp
    have "n < fst (strip (Suc n) ks)" using strip_ge [of "Suc n" ks] by simp
    then have "[n..<fst (strip (Suc n) ks)] = n # [Suc n..<fst (strip (Suc n) ks)]" by (rule upt_conv_Cons)
    then show ?thesis unfolding s using True 2 by simp
  qed simp
qed simp

lemma strip_ok:
  assumes "sorted_wrt (<) ks" "\<forall>k\<in>set ks. n \<le> k"
  shows "reseq_ok (strip n ks)"
  using assms by (induction n ks rule: strip.induct) (fastforce simp: reseq_ok_def)+

lemma received_strip: "received (strip n ks) = {..<n} \<union> set ks"
proof -
  let ?m = "fst (strip n ks)"
  have "set ks = {n..<?m} \<union> set (snd (strip n ks))" by (subst strip_split [of ks n]) (simp only: set_append set_upt)
  moreover have "{..<?m} = {..<n} \<union> {n..<?m}" using strip_ge [of n ks] by auto
  ultimately show ?thesis by (auto simp: received_def)
qed

lemma sorted_insort_strict: "sorted_wrt (<) ks \<Longrightarrow> (k :: nat) \<notin> set ks \<Longrightarrow> sorted_wrt (<) (insort k ks)"
  unfolding strict_sorted_iff by (simp add: sorted_insort distinct_insort)

lemma arrive_new:
  assumes "reseq_ok (n, ks)" "\<not> k < n" "k \<notin> set ks"
  shows "arrive k (n, ks) = strip n (insort k ks)" "sorted_wrt (<) (insort k ks)" "\<forall>j\<in>set (insort k ks). n \<le> j"
proof -
  have o: "sorted_wrt (<) ks" "\<forall>j\<in>set ks. n < j" using assms(1) by (simp_all add: reseq_ok_def)
  show "arrive k (n, ks) = strip n (insort k ks)" using assms(2,3) by simp
  show "sorted_wrt (<) (insort k ks)" using o assms(3) by (simp add: sorted_insort_strict)
  show "\<forall>j\<in>set (insort k ks). n \<le> j" using o assms(2) by (auto simp: set_insort_key)
qed

lemma arrive_ok: "reseq_ok a \<Longrightarrow> reseq_ok (arrive k a)"
proof (cases a)
  case (Pair n ks)
  assume a: "reseq_ok a"
  show ?thesis
  proof (cases "k < n \<or> k \<in> set ks")
    case True then show ?thesis using a Pair by simp
  next
    case False
    then show ?thesis using arrive_new [of n ks k] a Pair strip_ok by auto
  qed
qed

lemma received_arrive: "received (arrive k a) = insert k (received a)"
proof (cases a)
  case (Pair n ks)
  show ?thesis
  proof (cases "k < n \<or> k \<in> set ks")
    case True then show ?thesis using Pair by (auto simp: received_def)
  next
    case False then show ?thesis using Pair by (simp add: received_strip set_insort_key) (simp add: received_def)
  qed
qed

lemma arrive_ge: "fst a \<le> fst (arrive k a)"
  by (cases a) (auto intro: strip_ge)

lemma arrivals_ge: "fst a \<le> fst (fold arrive ks a)"
proof (induction ks arbitrary: a)
  case (Cons k ks)
  show ?case using order_trans [OF arrive_ge Cons.IH [of "arrive k a"]] by simp
qed simp

lemma received_arrivals: "received (fold arrive ks a) = received a \<union> set ks"
  by (induction ks arbitrary: a) (auto simp: received_arrive)

lemma arrivals_ok: "reseq_ok a \<Longrightarrow> reseq_ok (fold arrive ks a)"
  by (induction ks arbitrary: a) (auto simp: arrive_ok)

text \<open>The position reached is the first one that did not arrive.\<close>

lemma arrivals_complete:
  assumes "reseq_ok a"
  shows "{..<n} \<subseteq> received a \<union> set ks \<longleftrightarrow> n \<le> fst (fold arrive ks a)"
proof -
  let ?b = "fold arrive ks a"
  have b: "received a \<union> set ks = {..<fst ?b} \<union> set (snd ?b)" "\<forall>j\<in>set (snd ?b). fst ?b < j"
    using received_arrivals [of ks a] arrivals_ok [OF assms, of ks] by (auto simp: received_def reseq_ok_def)
  then have ni: "fst ?b \<notin> received a \<union> set ks" by auto
  show ?thesis
  proof
    assume "{..<n} \<subseteq> received a \<union> set ks"
    then have "\<not> fst ?b < n" using ni by auto
    then show "n \<le> fst ?b" by simp
  next
    assume "n \<le> fst ?b"
    then show "{..<n} \<subseteq> received a \<union> set ks" unfolding b(1) by auto
  qed
qed

lemma paced_conj: "paced P ks a \<Longrightarrow> \<forall>k\<in>set ks. Q k \<Longrightarrow> paced (\<lambda>k a. P k a \<and> Q k) ks a"
  by (induction ks arbitrary: a) auto

section \<open>The interface of a resequencing mode\<close>

text \<open>\<open>sim\<close> relates the state of the mode to the abstract receiver, \<open>recv k\<close> is the mode's reaction to
  the frame at position \<open>k\<close>, \<open>out\<close> what has been handed up so far and \<open>sink k\<close> what handing up that
  frame adds. \<open>fits\<close> restricts the arrivals to those the numbering can tell apart.\<close>

locale resequencer =
  fixes sim :: "reseq \<Rightarrow> 's \<Rightarrow> bool"
    and recv :: "nat \<Rightarrow> 's \<Rightarrow> 's"
    and out :: "'s \<Rightarrow> 'o"
    and sink :: "nat \<Rightarrow> 'o \<Rightarrow> 'o"
    and fits :: "nat \<Rightarrow> reseq \<Rightarrow> bool"
  assumes sim_ok: "sim a s \<Longrightarrow> reseq_ok a"
    and sim_recv: "sim a s \<Longrightarrow> fits k a \<Longrightarrow> sim (arrive k a) (recv k s)"
    and out_recv: "sim a s \<Longrightarrow> fits k a \<Longrightarrow> out (recv k s) = fold sink [fst a..<fst (arrive k a)] (out s)"
begin

lemma sim_run: "sim a s \<Longrightarrow> paced fits ks a \<Longrightarrow> sim (fold arrive ks a) (fold recv ks s)"
  by (induction ks arbitrary: a s) (auto simp: sim_recv)

lemma out_run:
  assumes "sim a s" "paced fits ks a"
  shows "out (fold recv ks s) = fold sink [fst a..<fst (fold arrive ks a)] (out s)"
  using assms
proof (induction ks arbitrary: a s)
  case (Cons k ks)
  let ?b = "arrive k a"
  have ih: "out (fold recv ks (recv k s)) = fold sink [fst ?b..<fst (fold arrive ks ?b)] (out (recv k s))"
    using Cons by (simp add: sim_recv)
  obtain d where d: "fst (fold arrive ks ?b) = fst ?b + d" using arrivals_ge [of ?b ks] by (metis le_Suc_ex)
  have "[fst a..<fst ?b + d] = [fst a..<fst ?b] @ [fst ?b..<fst ?b + d]" by (rule upt_add_eq_append) (rule arrive_ge)
  then show ?case using ih out_recv [OF Cons.prems(1)] Cons.prems(2) d by simp
qed simp

text \<open>Everything up to the first position that never arrived is handed up, in order and once.\<close>

lemma in_order_exactly_once:
  assumes "sim a s" "paced fits ks a"
  shows "\<exists>n. out (fold recv ks s) = fold sink [fst a..<n] (out s) \<and> fst a \<le> n \<and> n \<notin> received a \<union> set ks \<and>
    {fst a..<n} \<subseteq> received a \<union> set ks"
proof (intro exI conjI)
  let ?n = "fst (fold arrive ks a)"
  show "out (fold recv ks s) = fold sink [fst a..<?n] (out s)" by (rule out_run [OF assms])
  show "fst a \<le> ?n" by (rule arrivals_ge)
  have r: "reseq_ok a" using assms(1) by (rule sim_ok)
  have "{..<?n} \<subseteq> received a \<union> set ks" using arrivals_complete [OF r, of ?n ks] by simp
  then show "{fst a..<?n} \<subseteq> received a \<union> set ks" by auto
  show "?n \<notin> received a \<union> set ks"
  proof
    assume "?n \<in> received a \<union> set ks"
    then have "{..<Suc ?n} \<subseteq> received a \<union> set ks" using \<open>{..<?n} \<subseteq> _\<close> by (auto simp: less_Suc_eq)
    then show False using arrivals_complete [OF r, of "Suc ?n" ks] by simp
  qed
qed

end

section \<open>Sequence numbers of positions\<close>

text \<open>Insertion by sequence number is insertion by position.\<close>

lemma insert_by_seq_positions:
  assumes "list_all2 P ks xs" "P k x" "\<And>j y. P j y \<Longrightarrow> key y = seqn j"
    "\<forall>j\<in>set ks. k < j + 8192 \<and> j \<le> k + 8192" "k \<notin> set ks"
  shows "list_all2 P (insort k ks) (insert_by_seq key x xs)"
  using assms(1,4,5)
proof (induction rule: list_all2_induct)
  case Nil then show ?case using assms(2) by simp
next
  case (Cons j ks y xs)
  have "DTAP_IsFrameSeqSmaller (key x) (key y) \<longleftrightarrow> k < j"
    unfolding assms(3) [OF assms(2)] assms(3) [OF Cons.hyps(1)] using Cons.prems(1) by (intro smaller_seqn) auto
  moreover have "k \<le> j \<longleftrightarrow> k < j" using Cons.prems(2) by auto
  ultimately show ?case using Cons assms(2) by auto
qed

lemma find_by_seq_positions:
  assumes "list_all2 P ks xs" "\<And>j y. P j y \<Longrightarrow> key y = seqn j" "\<forall>j\<in>set ks. k < j + 16384 \<and> j < k + 16384"
  shows "find_first (\<lambda>y. key y = seqn k) xs = None \<longleftrightarrow> k \<notin> set ks"
  using assms(1,3)
proof (induction rule: list_all2_induct)
  case (Cons j ks y xs)
  have "key y = seqn k \<longleftrightarrow> j = k" unfolding assms(2) [OF Cons.hyps(1)] using Cons.prems by (intro seqn_eq_iff) auto
  then show ?case using Cons by auto
qed simp

end
