(* ===== verification/Dtap_Rel_Rx.thy ===== *)
theory Dtap_Rel_Rx
  imports Dtap_Rel_Tx Dtap_Reseq
begin

text \<open>
  The reception window of the reliable mode as a resequencer. The operations of the sending side leave the
  reception state alone; receiving a fragment frame does what the abstract receiver of \<open>Dtap_Reseq\<close> does; and
  the fragments that are handed up in sequence are put together to the data units that were sent.
\<close>

section \<open>Operations that leave the reception state alone\<close>

text \<open>\<open>rx_same\<close>: window, partial unit, flow control and the log of upcalls are the same, and no allocation
  failure has been added.\<close>

definition rx_same :: "DTAP_ReliableChannel \<Rightarrow> 'w env \<Rightarrow> DTAP_ReliableChannel \<Rightarrow> 'w env \<Rightarrow> bool" where
  "rx_same r e r' e' \<longleftrightarrow> rxWindow r' = rxWindow r \<and> frags r' = frags r \<and> isRxWindowFull r' = isRxWindowFull r \<and>
     r_crcInit r' = r_crcInit r \<and> e_dl e' = e_dl e \<and> (mem_ok (e_mem e) \<longrightarrow> mem_ok (e_mem e'))"

lemma rx_same_refl [simp]: "rx_same r e r e"
  by (simp add: rx_same_def)

lemma rx_same_trans: "rx_same r e r1 e1 \<Longrightarrow> rx_same r1 e1 r2 e2 \<Longrightarrow> rx_same r e r2 e2"
  by (auto simp: rx_same_def)

lemma mem_ok_alloc: "SDF_MemAlloc m = (ok, m') \<Longrightarrow> mem_ok m \<Longrightarrow> mem_ok m'"
  by (cases m) (auto simp: mem_ok_def)

lemma mem_ok_copy: "SDF_BuffCopy b m = (x, m') \<Longrightarrow> mem_ok m \<Longrightarrow> mem_ok m'"
  by (auto simp: SDF_BuffCopy_def split: if_splits prod.splits dest: mem_ok_alloc)

lemma mem_ok_reserve: "SDF_BuffNewWithReserve n m = (x, m') \<Longrightarrow> mem_ok m \<Longrightarrow> mem_ok m'"
  by (auto simp: SDF_BuffNewWithReserve_def SDF_MemZalloc_def split: option.splits prod.splits if_splits dest: mem_ok_alloc)

lemma mem_ok_create: "DTAP_CreateFrame ft m = (x, m') \<Longrightarrow> mem_ok m \<Longrightarrow> mem_ok m'"
  by (auto simp: DTAP_CreateFrame_def split: option.splits prod.splits if_splits dest: mem_ok_alloc)

lemma mem_ok_build: "buildFrame c t crc fr m = (ret, fr', m') \<Longrightarrow> mem_ok m \<Longrightarrow> mem_ok m'"
  by (cases c) (auto simp: DTAP_BuildAckFrame_def Let_def split: option.splits prod.splits dest: mem_ok_reserve)

lemma mem_ok_fragment_loop: "fragment_loop mps ft cnt rest acc m = (x, m') \<Longrightarrow> mem_ok m \<Longrightarrow> mem_ok m'"
proof (induction mps ft cnt rest acc m arbitrary: x m' rule: fragment_loop.induct)
  case (1 mps ft cnt rest acc m)
  show ?case
  proof (cases "rest = []")
    case True then show ?thesis using 1(2,3) by (subst (asm) fragment_loop.simps) simp
  next
    case False
    define bl where "bl = (if mps = 0 then length rest else if length rest < mps then length rest else mps)"
    obtain fo m1 where c: "DTAP_CreateFrame ft m = (fo, m1)" by fastforce
    have m1: "mem_ok m1" using mem_ok_create [OF c 1(3)] .
    obtain so m2 where s: "SDF_BuffNewWithReserve bl m1 = (so, m2)" by fastforce
    have m2: "mem_ok m2" using mem_ok_reserve [OF s m1] .
    have e: "fragment_loop mps ft cnt rest acc m = (case fo of None \<Rightarrow> (None, m1) | Some fr \<Rightarrow>
       (case so of None \<Rightarrow> (None, m2) | Some sub \<Rightarrow> (case buff_append (take bl rest) sub of None \<Rightarrow> (None, m2)
        | Some sub' \<Rightarrow> fragment_loop mps ft cnt (drop bl rest)
            (acc @ [fr\<lparr>fbuff := Some sub', sar := DTAP_GetFragFrameSar cnt (length acc + 1)\<rparr>]) m2)))"
      unfolding fragment_loop.simps [of mps ft cnt rest acc m] Let_def bl_def [symmetric] c
      using False by (simp add: s split: option.splits)
    show ?thesis
      using 1(2) m1 m2 1(1) [OF False c [symmetric] _ bl_def s [symmetric]] unfolding e by (auto split: option.splits)
  qed
qed

lemma mem_ok_FragmentFrame: "DTAP_FragmentFrame b mps ft m = (frs, n, m') \<Longrightarrow> mem_ok m \<Longrightarrow> mem_ok m'"
  by (auto simp: DTAP_FragmentFrame_def Let_def split: if_splits prod.splits option.splits dest: mem_ok_fragment_loop)

lemma mem_ok_pack_frames: "pack_frames ch p r s frs m = (ret, l, m') \<Longrightarrow> mem_ok m \<Longrightarrow> mem_ok m'"
  by (induction frs arbitrary: s m ret l m') (auto simp: Let_def split: if_splits prod.splits dest: mem_ok_build)

lemma mem_ok_Pack: "DTAP_PackEnhanceFrames ch p b mps r m = (ret, l, m') \<Longrightarrow> mem_ok m \<Longrightarrow> mem_ok m'"
  by (auto simp: DTAP_PackEnhanceFrames_def split: prod.splits if_splits dest: mem_ok_FragmentFrame mem_ok_pack_frames)

lemma transmit_same: "transmit xmit b e = (ret, e') \<Longrightarrow> e_dl e' = e_dl e \<and> e_mem e' = e_mem e"
  by (auto simp: transmit_def split: prod.splits)

lemma timer_same:
  "start_timer h x cbk e = (h', e') \<Longrightarrow> e_dl e' = e_dl e \<and> e_mem e' = e_mem e"
  "stop_timer h e = (h', e') \<Longrightarrow> e_dl e' = e_dl e \<and> e_mem e' = e_mem e"
  "restart_timer h x cbk e = (h', e') \<Longrightarrow> e_dl e' = e_dl e \<and> e_mem e' = e_mem e"
  by (auto simp: start_timer_def stop_timer_def restart_timer_def split: prod.splits)

lemma SendAck_same:
  assumes "DTAP_SendAckFrame xmit ch f s r e = (ret, e')"
  shows "rx_same r e r e'"
proof -
  have "e_dl e' = e_dl e \<and> (mem_ok (e_mem e) \<longrightarrow> mem_ok (e_mem e'))"
    using assms unfolding DTAP_SendAckFrame_def Let_def
    by (auto split: option.splits prod.splits if_splits dest!: transmit_same dest: mem_ok_build [where c = CtxAck, simplified])
  then show ?thesis by (simp add: rx_same_def)
qed

lemma Retrans_same:
  assumes "DTAP_RetransEnhanceFrame xmit ch r e = (ret, r', e')"
  shows "rx_same r e r' e'"
proof (cases "DTAP_FindFrameBySeq (txList (txWindow r)) (reTxSeq r)")
  case None then show ?thesis using assms by (simp add: DTAP_RetransEnhanceFrame_def)
next
  case (Some fr)
  show ?thesis
  proof (cases "reTxCnt fr \<ge> maxTxThreshold r")
    case True
    then show ?thesis using assms Some
      by (auto simp: DTAP_RetransEnhanceFrame_def DTAP_DynTransChannReleaseReq_def rx_same_def split: if_splits)
  next
    case False
    then show ?thesis using assms Some unfolding DTAP_RetransEnhanceFrame_def Let_def
      by (auto simp: rx_same_def split: option.splits if_splits prod.splits dest!: transmit_same timer_same dest: mem_ok_copy)
  qed
qed

lemma SlideTx_same: "DTAP_SlideTxWindow ch fr r e = (r', e') \<Longrightarrow> rx_same r e r' e'"
  by (auto simp: DTAP_SlideTxWindow_def rx_same_def Let_def split: if_splits prod.splits dest!: timer_same)

lemma send_new_frames_same: "send_new_frames xmit frs fl r e = (fl', r', e') \<Longrightarrow> rx_same r e r' e'"
proof (induction frs arbitrary: fl r e)
  case (Cons fr frs)
  obtain poll r1 where t: "DTAP_TriggerSendPolling r = (poll, r1)" by fastforce
  define fr1 where "fr1 = (if poll then DTAP_SetBitForSendPolling (r_crcInit r1) fr else fr)"
  obtain cb m where c: "(case fbuff fr1 of None \<Rightarrow> (None, e_mem e) | Some b \<Rightarrow> SDF_BuffCopy b (e_mem e)) = (cb, m)" by fastforce
  obtain ret e1 where x: "transmit xmit cb (e\<lparr>e_mem := m\<rparr>) = (ret, e1)" by fastforce
  let ?w = "txWindow r1"
  define r2 where "r2 = r1\<lparr>reTxSeq := DTAP_GetNextFrameSeq (reTxSeq r1),
     txWindow := ?w\<lparr>nextTxSeq := DTAP_GetNextFrameSeq (nextTxSeq ?w), txList := txList ?w @ [fr1]\<rparr>\<rparr>"
  have step: "send_new_frames xmit frs (fl \<or> ret = DTAP_SUCCESS) r2 e1 = (fl', r', e')"
    using Cons.prems by (simp add: t Let_def c x flip: fr1_def r2_def)
  have "mem_ok (e_mem e) \<longrightarrow> mem_ok m" using c by (auto split: option.splits dest: mem_ok_copy)
  then have "rx_same r e r2 e1" using t transmit_same [OF x]
    by (auto simp: rx_same_def r2_def DTAP_TriggerSendPolling_def split: if_splits)
  then show ?case using rx_same_trans Cons.IH [OF step] by blast
qed simp

lemma SendInner_same:
  assumes i: "DTAP_SendEnhanceFrameInner xmit ch frs cnt r e = (ret, r', e')"
  shows "rx_same r e r' e'"
proof -
  let ?old = "DTAP_IsFrameSeqSmaller (reTxSeq r) (nextTxSeq (txWindow r))"
  obtain ret1 r1 e1 where R: "(if ?old then DTAP_RetransEnhanceFrame xmit ch r e else (DTAP_TRANS_RELIABLE_FIND_FRAME_ERR, r, e)) = (ret1, r1, e1)"
    by (metis prod_cases3)
  have v1: "rx_same r e r1 e1" using R Retrans_same by (auto split: if_splits)
  define r2 where "r2 = (if ?old then r1\<lparr>reTxSeq := nextTxSeq (txWindow r1)\<rparr> else r1)"
  have v2: "rx_same r e r2 e1" using v1 by (auto simp: r2_def rx_same_def)
  obtain fl r3 e3 where S: "send_new_frames xmit (take cnt frs) (?old \<and> ret1 = DTAP_SUCCESS) r2 e1 = (fl, r3, e3)" by (metis prod_cases3)
  have v3: "rx_same r e r3 e3" using rx_same_trans [OF v2 send_new_frames_same [OF S]] .
  obtain h e4 where T: "(if fl \<and> isRecvFrame r3 then restart_timer (rspTimer r3) (rspTimeout r3) RspTimerExpire e3 else (rspTimer r3, e3)) = (h, e4)"
    by fastforce
  obtain h' e5 where U: "(if retransTimer r3 = INVALID_TIMER_HANDLE then start_timer (retransTimer r3) (retransTimeout r3) RetransTimerExpire e4
      else (retransTimer r3, e4)) = (h', e5)" by fastforce
  have "e_dl e4 = e_dl e3 \<and> e_mem e4 = e_mem e3" "e_dl e5 = e_dl e4 \<and> e_mem e5 = e_mem e4"
    using T U timer_same by (metis prod.inject)+
  then have v5: "rx_same r e (r3\<lparr>rspTimer := h, retransTimer := h'\<rparr>) e5" using v3 by (simp add: rx_same_def)
  show ?thesis
    using i v1 v5 unfolding DTAP_SendEnhanceFrameInner_def Let_def R prod.case r2_def [symmetric] S T U
    by (auto split: if_splits)
qed

lemma SendEnhance_same:
  assumes "DTAP_SendEnhanceFrame xmit ch p b r e = (ret, r', e')"
  shows "rx_same r e r' e'"
proof -
  let ?mps = "c_mps ch - frag_header_len r - DTAP_CRC_LEN"
  define cnt where "cnt = DTAP_GetFragmentFramesNum (dataLen b) ?mps"
  let ?n = "length (txList (txWindow r))"
  define r1 where "r1 = (if ?n + cnt = tx_size (txWindow r) then r\<lparr>isTxWindowFull := True\<rparr> else r)"
  obtain ret1 frs m where P: "DTAP_PackEnhanceFrames ch p b ?mps r1 (e_mem e) = (ret1, frs, m)" by (metis prod_cases3)
  have s1: "rx_same r e r1 (e\<lparr>e_mem := m\<rparr>)" using mem_ok_Pack [OF P] by (auto simp: rx_same_def r1_def)
  obtain ret2 r2 e2 where I: "DTAP_SendEnhanceFrameInner xmit ch frs cnt r1 (e\<lparr>e_mem := m\<rparr>) = (ret2, r2, e2)" by (metis prod_cases3)
  have s2: "rx_same r e r2 e2" using rx_same_trans [OF s1 SendInner_same [OF I]] .
  obtain cb m1 where C: "SDF_BuffCopy b (e_mem e) = (cb, m1)" by fastforce
  have s3: "rx_same r e (r\<lparr>cacheBuff := x, cachePi := p, isTxWindowFull := True\<rparr>) (e\<lparr>e_mem := m1\<rparr>)"
    "rx_same r e (r\<lparr>isTxWindowFull := True\<rparr>) e" for x
    using mem_ok_copy [OF C] by (auto simp: rx_same_def)
  show ?thesis
    using assms s1 s2 s3 unfolding DTAP_SendEnhanceFrame_def Let_def cnt_def [symmetric] r1_def [symmetric] P prod.case I C
    by (auto split: if_splits)
qed

lemma StatusChange_same:
  assumes "DTAP_TransChannelStatusChange xmit reg ch res r e = (r', e')"
  shows "rx_same r e r' e'"
proof -
  have k: "e_dl (status_change_cbk reg ch res x) = e_dl x" "e_mem (status_change_cbk reg ch res x) = e_mem x" for x
    by (simp_all add: status_change_cbk_def)
  have c: "rx_same r e r2 e2" if "DTAP_TransSendCacheBuff xmit reg ch res r e = (r2, e2)" for r2 e2
    using that SendEnhance_same [of xmit ch "cachePi r" _ "r\<lparr>isTxWindowFull := False\<rparr>" e]
    by (auto simp: DTAP_TransSendCacheBuff_def Let_def rx_same_def k split: option.splits if_splits prod.splits)
  show ?thesis using assms c
    by (auto simp: DTAP_TransChannelStatusChange_def rx_same_def k split: if_splits)
qed

section \<open>Handing up fragments\<close>

text \<open>A fragment as the receiver sees it: segmentation state, protocol identifier, data. \<open>reasm\<close> is
  reassembly on the data alone: the unit under construction and the units handed up.\<close>

type_synonym frag = "nat \<times> byte \<times> byte list"

type_synonym reasm = "byte list option \<times> (DTAP_Data_Info \<times> byte list) list"

definition frag_info :: "chan_info \<Rightarrow> byte \<Rightarrow> DTAP_Data_Info" where
  "frag_info ch p = \<lparr>info_pi = p, info_lcid = c_lcid ch, info_tcid = c_dstTcid ch\<rparr>"

fun reasm :: "chan_info \<Rightarrow> frag \<Rightarrow> reasm \<Rightarrow> reasm" where
  "reasm ch (sa, p, d) (part, out) =
     (if sa = DTAP_SAR_UNSEG then (part, out @ [(frag_info ch p, d)])
      else if sa = DTAP_SAR_FIRST then (Some d, out)
      else case part of
        None \<Rightarrow> (None, out)
      | Some q \<Rightarrow>
          if length q + length d > DTAP_MAX_FRAG_TOTAL_LEN then (None, out)
          else if sa = DTAP_SAR_LAST then (None, out @ [(frag_info ch p, q @ d)])
          else (Some (q @ d), out))"

text \<open>\<open>frag_at g k fr\<close>: the frame carries position \<open>k\<close> and the fragment the stream has there.\<close>

definition frag_at :: "(nat \<Rightarrow> frag) \<Rightarrow> nat \<Rightarrow> DTAP_Frame \<Rightarrow> bool" where
  "frag_at g k fr \<longleftrightarrow> txSeq fr = seqn k \<and> fctx fr \<in> {CtxSimplexFrag, CtxDuplexFrag} \<and> sar fr < 4 \<and>
     (\<exists>d. g k = (sar fr, fpi fr, d) \<and> rx_frag fr d)"

lemma frag_at_seq: "frag_at g k fr \<Longrightarrow> txSeq fr = seqn k"
  by (simp add: frag_at_def)

definition wf_part :: "SDF_Buff option \<Rightarrow> bool" where
  "wf_part fg \<longleftrightarrow> (\<forall>b. fg = Some b \<longrightarrow> wf_buff b)"

definition never_full :: "recv_cb \<Rightarrow> bool" where
  "never_full cb \<longleftrightarrow> (\<forall>dl info d. cb dl info d \<noteq> DTAP_TRANS_RELIABLE_TRANS_CHANNEL_FULL)"

lemma recv_next_over:
  assumes "rx_frag fr d" "sar fr = DTAP_SAR_MID \<or> sar fr = DTAP_SAR_LAST" "dataLen bs + length d > DTAP_MAX_FRAG_TOTAL_LEN"
  shows "\<exists>fr'. DTAP_RecvFragmentFrame (Some bs) fr info cb (m, dl) = (DTAP_ENHANCED_FRAME_FRAGMENT_FRAME_LEN_ERR, fr', None, (m, dl))"
proof -
  obtain b b1 b2 where b: "fbuff fr = Some b" "SDF_BuffTrimPrefix b (headerLen fr + extensionLen fr) = Some b1"
    "SDF_BuffTrimSuffix b1 DTAP_CRC_LEN = Some b2" "wf_buff b2" "buff_data b2 = d" "dataLen b2 = length d"
    using rx_frag_trim [OF assms(1)] by blast
  then have "DTAP_UpdateFragmentFrame bs b2 m = (DTAP_ENHANCED_FRAME_FRAGMENT_FRAME_LEN_ERR, None, m)"
    using assms(3) by (simp add: DTAP_UpdateFragmentFrame_def Let_def)
  then show ?thesis using b assms(2) by (auto simp: DTAP_RecvFragmentFrame_def Let_def)
qed

lemma recv_no_first:
  assumes "rx_frag fr d" "sar fr = DTAP_SAR_MID \<or> sar fr = DTAP_SAR_LAST"
  shows "\<exists>fr'. DTAP_RecvFragmentFrame None fr info cb (m, dl) = (DTAP_ENHANCED_FRAME_NO_FIRST_FRAG_FRAME, fr', None, (m, dl))"
proof -
  obtain b b1 b2 where b: "fbuff fr = Some b" "SDF_BuffTrimPrefix b (headerLen fr + extensionLen fr) = Some b1"
    "SDF_BuffTrimSuffix b1 DTAP_CRC_LEN = Some b2" "wf_buff b2" "buff_data b2 = d" "dataLen b2 = length d"
    using rx_frag_trim [OF assms(1)] by blast
  then show ?thesis using assms(2) by (auto simp: DTAP_RecvFragmentFrame_def Let_def)
qed

lemma hand_up_reasm:
  assumes fa: "frag_at g k fr" and nf: "never_full cb" and m: "mem_ok m" and wp: "wf_part fg"
  shows "\<exists>ret fr' fg' m' dl'. hand_up ch (Some cb) fr fg (m, dl) = (ret, fr', fg', (m', dl')) \<and>
    ret \<noteq> DTAP_TRANS_RELIABLE_TRANS_CHANNEL_FULL \<and> mem_ok m' \<and> wf_part fg' \<and>
    (map_option buff_data fg', upcalls dl') = reasm ch (g k) (map_option buff_data fg, upcalls dl)"
proof -
  obtain d where d: "g k = (sar fr, fpi fr, d)" "rx_frag fr d" using fa by (auto simp: frag_at_def)
  let ?i = "frag_info ch (fpi fr)"
  have h: "hand_up ch (Some cb) fr fg (m, dl) = DTAP_RecvFragmentFrame fg fr ?i (Some cb) (m, dl)"
    using fa by (auto simp: hand_up_def frag_at_def frag_info_def Let_def)
  have nf': "cb x y z \<noteq> DTAP_TRANS_RELIABLE_TRANS_CHANNEL_FULL" for x y z using nf by (simp add: never_full_def)
  consider (un) "sar fr = DTAP_SAR_UNSEG" | (fi) "sar fr = DTAP_SAR_FIRST" | (nx) "sar fr = DTAP_SAR_MID \<or> sar fr = DTAP_SAR_LAST"
    using fa by (fastforce simp: frag_at_def)
  then show ?thesis
  proof cases
    case un
    obtain fr' r where "DTAP_RecvFragmentFrame fg fr ?i (Some cb) (m, dl) = (r, fr', fg, (m, dl @ [(?i, d, cb dl ?i d)]))"
      "r = (if cb dl ?i d = DTAP_TRANS_RELIABLE_TRANS_CHANNEL_FULL then cb dl ?i d else DTAP_SUCCESS)"
      by (rule recv_unseg [OF d(2) un])
    then show ?thesis unfolding h using un d(1) m wp nf' by (simp add: upcalls_def)
  next
    case fi
    obtain fr' r n m' where r: "DTAP_RecvFragmentFrame fg fr ?i (Some cb) (m, dl) = (r, fr', Some n, (m', dl))"
      "wf_buff n" "buff_data n = d" "mem_ok m'" using recv_first [OF d(2) fi m] by metis
    moreover have "r \<noteq> DTAP_TRANS_RELIABLE_TRANS_CHANNEL_FULL"
      using r(1) fi by (auto simp: DTAP_RecvFragmentFrame_def Let_def split: option.splits prod.splits if_splits)
    ultimately show ?thesis unfolding h using fi d(1) by (simp add: wf_part_def)
  next
    case nx
    show ?thesis
    proof (cases fg)
      case None
      then show ?thesis unfolding h using recv_no_first [OF d(2) nx, of ?i "Some cb" m dl] nx d(1) m by (auto simp: wf_part_def)
    next
      case (Some bs)
      have bs: "wf_buff bs" "length (buff_data bs) = dataLen bs" using wp Some by (auto simp: wf_part_def)
      show ?thesis
      proof (cases "dataLen bs + length d > DTAP_MAX_FRAG_TOTAL_LEN")
        case True
        then show ?thesis unfolding h [unfolded Some] Some
          using recv_next_over [OF d(2) nx True, of ?i "Some cb" m dl] nx d(1) m bs by (auto simp: wf_part_def)
      next
        case False
        then have "dataLen bs + length d \<le> DTAP_MAX_FRAG_TOTAL_LEN" by simp
        then obtain fr' r n m' where r: "wf_buff n" "buff_data n = buff_data bs @ d" "mem_ok m'"
          "DTAP_RecvFragmentFrame (Some bs) fr ?i (Some cb) (m, dl) =
            (if sar fr = DTAP_SAR_LAST
             then (r, fr', None, (m', dl @ [(?i, buff_data bs @ d, cb dl ?i (buff_data bs @ d))]))
             else (DTAP_SUCCESS, fr', Some n, (m', dl)))"
          using recv_next [OF d(2) nx m bs(1), of ?i cb dl] by metis
        have "sar fr = DTAP_SAR_LAST \<Longrightarrow> r \<noteq> DTAP_TRANS_RELIABLE_TRANS_CHANNEL_FULL"
          using r(4) nf' Some
          by (auto simp: DTAP_RecvFragmentFrame_def DTAP_UpdateFragmentFrame_def upcall_def call_recv_def Let_def split: option.splits prod.splits if_splits)
        then show ?thesis unfolding h [unfolded Some] Some using r nx d(1) bs(2) False by (auto simp: wf_part_def upcalls_def)
      qed
    qed
  qed
qed

section \<open>The window\<close>

lemma inner_loop_strip:
  assumes "list_all2 (frag_at g) ks (rxList (rxWindow r))" "bufferSeq (rxWindow r) = seqn n" "sorted_wrt (<) ks"
    "\<forall>k\<in>set ks. n \<le> k \<and> k < n + 8192" "never_full cb" "mem_ok (e_mem e)" "wf_part (frags r)"
  shows "\<exists>zs fg m dl. recv_inner_loop ch (Some cb) r e =
      (r\<lparr>frags := fg, rxWindow := (rxWindow r)\<lparr>rxList := zs, bufferSeq := seqn (fst (strip n ks))\<rparr>\<rparr>, e\<lparr>e_mem := m, e_dl := dl\<rparr>) \<and>
    list_all2 (frag_at g) (snd (strip n ks)) zs \<and> mem_ok m \<and> wf_part fg \<and>
    (map_option buff_data fg, upcalls dl) =
      fold (\<lambda>k. reasm ch (g k)) [n..<fst (strip n ks)] (map_option buff_data (frags r), upcalls (e_dl e))"
  using assms
proof (induction n ks arbitrary: r e rule: strip.induct)
  case (1 n)
  then have "recv_inner_loop ch (Some cb) r e = (r, e)" by (subst recv_inner_loop.simps) simp
  moreover have "r\<lparr>frags := frags r, rxWindow := (rxWindow r)\<lparr>rxList := [], bufferSeq := seqn n\<rparr>\<rparr> = r"
    using 1(1,2) by (cases r; cases "rxWindow r") simp
  ultimately show ?case using 1(6,7)
    by (intro exI [of _ "[]"] exI [of _ "frags r"] exI [of _ "e_mem e"] exI [of _ "e_dl e"]) simp
next
  case (2 n k ks)
  obtain x xs where x: "rxList (rxWindow r) = x # xs" "frag_at g k x" "list_all2 (frag_at g) ks xs"
    using 2(2) by (auto simp: list_all2_Cons1)
  show ?case
  proof (cases "k = n")
    case False
    then have "txSeq x \<noteq> bufferSeq (rxWindow r)"
      unfolding 2(3) frag_at_seq [OF x(2)] using 2(5) by (subst seqn_eq_iff) auto
    then have l: "recv_inner_loop ch (Some cb) r e = (r, e)" using x(1) by (subst recv_inner_loop.simps) simp
    have r: "r\<lparr>frags := frags r, rxWindow := (rxWindow r)\<lparr>rxList := x # xs, bufferSeq := seqn n\<rparr>\<rparr> = r"
      using x(1) 2(3) by (cases r; cases "rxWindow r") simp
    show ?thesis using False l r x 2(7,8)
      by (intro exI [of _ "x # xs"] exI [of _ "frags r"] exI [of _ "e_mem e"] exI [of _ "e_dl e"]) simp
  next
    case True
    obtain ret x' fg m dl where h: "hand_up ch (Some cb) x (frags r) (e_mem e, e_dl e) = (ret, x', fg, (m, dl))"
      "ret \<noteq> DTAP_TRANS_RELIABLE_TRANS_CHANNEL_FULL" "mem_ok m" "wf_part fg"
      "(map_option buff_data fg, upcalls dl) = reasm ch (g k) (map_option buff_data (frags r), upcalls (e_dl e))"
      using hand_up_reasm [OF x(2) 2(6,7,8), of ch "e_dl e"] by blast
    let ?r = "r\<lparr>frags := fg, rxWindow := (rxWindow r)\<lparr>rxList := xs, bufferSeq := seqn (Suc n)\<rparr>\<rparr>" and ?e = "e\<lparr>e_mem := m, e_dl := dl\<rparr>"
    have "txSeq x = bufferSeq (rxWindow r)" using x(2) 2(3) True by (simp add: frag_at_def)
    then have l: "recv_inner_loop ch (Some cb) r e = recv_inner_loop ch (Some cb) ?r ?e"
      using x(1) h(1,2) 2(3) by (subst recv_inner_loop.simps) (simp add: Let_def)
    have b: "\<forall>j\<in>set ks. Suc n \<le> j \<and> j < Suc n + 8192" using 2(4,5) True by fastforce
    have "\<exists>zs fg' m' dl'. recv_inner_loop ch (Some cb) ?r ?e =
        (?r\<lparr>frags := fg', rxWindow := (rxWindow ?r)\<lparr>rxList := zs, bufferSeq := seqn (fst (strip (Suc n) ks))\<rparr>\<rparr>, ?e\<lparr>e_mem := m', e_dl := dl'\<rparr>) \<and>
      list_all2 (frag_at g) (snd (strip (Suc n) ks)) zs \<and> mem_ok m' \<and> wf_part fg' \<and>
      (map_option buff_data fg', upcalls dl') =
        fold (\<lambda>k. reasm ch (g k)) [Suc n..<fst (strip (Suc n) ks)] (map_option buff_data (frags ?r), upcalls (e_dl ?e))"
      by (rule 2(1) [OF True]) (use x(3) 2(4,6) b h(3,4) in simp_all)
    moreover have "[n..<fst (strip (Suc n) ks)] = n # [Suc n..<fst (strip (Suc n) ks)]"
      using strip_ge [of "Suc n" ks] by (intro upt_conv_Cons) simp
    ultimately show ?thesis unfolding l using True h(5) by (simp del: upt_Suc)
  qed
qed

lemma next_missing_first:
  assumes "list_all2 (frag_at g) ks l" "\<forall>j\<in>set ks. n \<le> j \<and> j < n + 8192" "n \<le> i" "i \<le> q" "q < i + c" "q < n + 8192"
    "q \<notin> set ks" "{i..<q} \<subseteq> set ks"
  shows "next_missing c l (seqn i) = Some (seqn q)"
  using assms(3-8)
proof (induction c arbitrary: i)
  case (Suc c)
  have "find_first (\<lambda>y. txSeq y = seqn i) l = None \<longleftrightarrow> i \<notin> set ks"
    by (rule find_by_seq_positions [OF assms(1) frag_at_seq]) (use assms(2) Suc.prems in fastforce)+
  then have f: "DTAP_FindFrameBySeq l (seqn i) = None \<longleftrightarrow> i \<notin> set ks" by (simp add: DTAP_FindFrameBySeq_def)
  show ?case
  proof (cases "i = q")
    case True then show ?thesis using f Suc.prems by simp
  next
    case False
    then have "i \<in> {i..<q}" using Suc.prems by simp
    then have i: "i \<in> set ks" using Suc.prems(6) by blast
    have s: "{Suc i..<q} \<subseteq> set ks" using Suc.prems(6) by auto
    have "next_missing c l (seqn (Suc i)) = Some (seqn q)" by (rule Suc.IH) (use s Suc.prems False in auto)
    moreover obtain y where "DTAP_FindFrameBySeq l (seqn i) = Some y" using f i by blast
    ultimately show ?thesis by simp
  qed
qed simp

lemma strip_first_missing:
  assumes "sorted_wrt (<) ks" "\<forall>k\<in>set ks. n < k \<and> k < n + c" "0 < c"
  shows "fst (strip (Suc n) ks) \<notin> set ks" "{Suc n..<fst (strip (Suc n) ks)} \<subseteq> set ks" "fst (strip (Suc n) ks) \<le> n + c"
proof -
  let ?q = "fst (strip (Suc n) ks)"
  have s: "set ks = {Suc n..<?q} \<union> set (snd (strip (Suc n) ks))"
    by (subst strip_split [of ks "Suc n"]) (simp only: set_append set_upt)
  have "reseq_ok (strip (Suc n) ks)" by (rule strip_ok) (use assms in \<open>auto simp: Suc_le_eq\<close>)
  then show "?q \<notin> set ks" unfolding s by (auto simp: reseq_ok_def)
  show "{Suc n..<?q} \<subseteq> set ks" using s by blast
  show "?q \<le> n + c"
  proof (cases "?q = Suc n")
    case False
    then have "?q - 1 \<in> {Suc n..<?q}" using strip_ge [of "Suc n" ks] by auto
    then have "?q - 1 < n + c" using s assms(2) by blast
    then show ?thesis using strip_ge [of "Suc n" ks] by simp
  qed (use assms(3) in simp)
qed

section \<open>The reliable mode as a resequencer\<close>

definition rel_frame :: "u16w \<Rightarrow> (nat \<Rightarrow> frag) \<Rightarrow> nat \<Rightarrow> DTAP_Frame \<Rightarrow> bool" where
  "rel_frame crc g k fr \<longleftrightarrow> frag_at g k fr \<and> (\<exists>b. fbuff fr = Some b \<and> CRC16 crc (buff_data b) = 0)"

text \<open>A parsed frame is received only if it passes the check of the mode, as \<open>DTAP_DataRecvFrame\<close> does.\<close>

definition rel_recv :: "'w xmit \<Rightarrow> bool \<Rightarrow> chan_info \<Rightarrow> recv_cb \<Rightarrow> DTAP_Frame \<Rightarrow> DTAP_ReliableChannel \<times> 'w env \<Rightarrow>
    DTAP_ReliableChannel \<times> 'w env" where
  "rel_recv xmit reg ch cb fr s = (case s of (r, e) \<Rightarrow>
     if DTAP_CheckEnhanceFrame r fr then snd (DTAP_RecvEnhanceFrame xmit reg ch fr (Some cb) r e) else (r, e))"

definition rel_sim :: "nat \<Rightarrow> u16w \<Rightarrow> (nat \<Rightarrow> frag) \<Rightarrow> reseq \<Rightarrow> DTAP_ReliableChannel \<times> 'w env \<Rightarrow> bool" where
  "rel_sim wn crc g a s \<longleftrightarrow> (case (a, s) of ((n, ks), (r, e)) \<Rightarrow>
     bufferSeq (rxWindow r) = seqn n \<and> expectedTxSeq (rxWindow r) = seqn n \<and> rx_size (rxWindow r) = wn \<and>
     list_all2 (frag_at g) ks (rxList (rxWindow r)) \<and> reseq_ok (n, ks) \<and> (\<forall>k\<in>set ks. k < n + wn) \<and>
     0 < wn \<and> wn \<le> 255 \<and> \<not> isRxWindowFull r \<and> r_crcInit r = crc \<and> mem_ok (e_mem e) \<and> wf_part (frags r))"

text \<open>The sender keeps to the window, and a repeated frame is not older than half of the number space.\<close>

fun rel_fits :: "nat \<Rightarrow> nat \<Rightarrow> reseq \<Rightarrow> bool" where
  "rel_fits wn k (n, ks) \<longleftrightarrow> k < n + wn \<and> n \<le> k + 8192"

definition rel_out :: "DTAP_ReliableChannel \<times> 'w env \<Rightarrow> reasm" where
  "rel_out s = (map_option buff_data (frags (fst s)), upcalls (e_dl (snd s)))"

lemma rel_sim_same:
  assumes "rel_sim wn crc g a (r, e)" "rx_same r e r' e'"
  shows "rel_sim wn crc g a (r', e')" "rel_out (r', e') = rel_out (r, e)"
  using assms by (auto simp: rel_sim_def rx_same_def rel_out_def split: prod.splits)

lemma rel_check:
  assumes s: "rel_sim wn crc g (n, ks) (r, e)" and f: "rel_fits wn k (n, ks)" and fr: "rel_frame crc g k fr"
  shows "DTAP_CheckEnhanceFrame r fr \<longleftrightarrow> \<not> (k < n \<or> k \<in> set ks)"
proof -
  have w: "bufferSeq (rxWindow r) = seqn n" "expectedTxSeq (rxWindow r) = seqn n" "rx_size (rxWindow r) = wn"
    "list_all2 (frag_at g) ks (rxList (rxWindow r))" "\<forall>j\<in>set ks. n < j \<and> j < n + wn" "wn \<le> 255" "r_crcInit r = crc"
    using s by (auto simp: rel_sim_def reseq_ok_def)
  have q: "k < n + wn" "n \<le> k + 8192" using f by simp_all
  have lt: "DTAP_IsFrameSeqSmaller (seqn k) (seqn n) \<longleftrightarrow> k < n" using q w(6) by (intro smaller_seqn) auto
  have eq: "seqn k = seqn n \<longleftrightarrow> k = n" using q w(6) by (intro seqn_eq_iff) auto
  have fd: "DTAP_FindFrameBySeq (rxList (rxWindow r)) (seqn k) = None \<longleftrightarrow> k \<notin> set ks"
    unfolding DTAP_FindFrameBySeq_def by (rule find_by_seq_positions [OF w(4) frag_at_seq]) (use w(5,6) q in fastforce)+
  have bo: "k \<ge> n \<Longrightarrow> DTAP_IsFrameSeqSmaller (seqn k) (seqn (n + wn))" using q w(6) by (subst smaller_seqn) auto
  have "DTAP_CheckEnhanceFrameTxSeq (rxWindow r) (txSeq fr) \<longleftrightarrow> \<not> (k < n \<or> k \<in> set ks)"
    using fr lt eq fd bo w(5) by (auto simp: DTAP_CheckEnhanceFrameTxSeq_def rel_frame_def frag_at_def w(1,2,3) seqn_boundary Let_def)
  then show ?thesis using fr by (auto simp: DTAP_CheckEnhanceFrame_def rel_frame_def frag_at_def w(7) Let_def)
qed

lemma copy_frag:
  assumes "frag_at g k fr" "mem_ok m"
  obtains cp m' where "DTAP_CopyFrame fr m = (Some cp, m')" "frag_at g k cp" "mem_ok m'"
proof -
  obtain d b where b: "fbuff fr = Some b" "wf_buff b" "rx_frag fr d" "g k = (sar fr, fpi fr, d)"
    using assms(1) by (auto simp: frag_at_def rx_frag_def)
  obtain m1 where m1: "SDF_MemAlloc m = (True, m1)" "mem_ok m1" using SDF_MemAlloc_okE [OF assms(2)] .
  obtain m2 where m2: "SDF_BuffCopy b m1 = (Some b, m2)" "mem_ok m2" using SDF_BuffCopy_ok [OF m1(2) b(2)] by blast
  define cp where "cp = (case DTAP_CopyFrame fr m of (Some c, _) \<Rightarrow> c | _ \<Rightarrow> fr)"
  have c: "DTAP_CopyFrame fr m = (Some cp, m2)"
    using b(1) m1 m2 by (auto simp: DTAP_CopyFrame_def cp_def Let_def split: option.splits)
  have "fbuff cp = Some b" "txSeq cp = txSeq fr" "fctx cp = fctx fr" "sar cp = sar fr" "fpi cp = fpi fr"
    "headerLen cp = headerLen fr" "extensionLen cp = extensionLen fr"
    using b(1) m1 m2 by (auto simp: DTAP_CopyFrame_def cp_def Let_def split: option.splits)
  then have "frag_at g k cp" using assms(1) b by (auto simp: frag_at_def rx_frag_def)
  then show thesis using that c m2(2) by blast
qed

lemma slide_rx:
  assumes s: "rel_sim wn crc g (n, ks) (r, e)" and f: "rel_fits wn k (n, ks)" and cp: "frag_at g k cp"
    and new: "\<not> k < n" "k \<notin> set ks"
  shows "\<exists>mx. rxWindow (DTAP_SlideRxWindow cp r) = (rxWindow r)\<lparr>rxList := insert_frame cp (rxList (rxWindow r)),
      expectedTxSeq := seqn (fst (arrive k (n, ks))), maxExpectedTxSeq := mx\<rparr>"
proof -
  have w: "expectedTxSeq (rxWindow r) = seqn n" "rx_size (rxWindow r) = wn" "list_all2 (frag_at g) ks (rxList (rxWindow r))"
    "\<forall>j\<in>set ks. n < j \<and> j < n + wn" "wn \<le> 255" "0 < wn" "sorted_wrt (<) ks"
    using s by (auto simp: rel_sim_def reseq_ok_def)
  have q: "k < n + wn" using f by simp
  have eq: "seqn k = seqn n \<longleftrightarrow> k = n" using q new w(5) by (intro seqn_eq_iff) auto
  have seq: "txSeq cp = seqn k" using cp by (rule frag_at_seq)
  let ?l = "insert_frame cp (rxList (rxWindow r))"
  have l: "list_all2 (frag_at g) (insort k ks) ?l" unfolding insert_frame_def
    by (rule insert_by_seq_positions [OF w(3) cp frag_at_seq]) (use w(4,5) q new in fastforce)+
  show ?thesis
  proof (cases "k = n")
    case False
    then have "insort k ks \<noteq> []" "\<forall>j\<in>set (insort k ks). j \<noteq> n" using w(4) by (auto simp: set_insort_key)
    then have a: "fst (arrive k (n, ks)) = n" using new by (cases "insort k ks") auto
    have "rxWindow r\<lparr>expectedTxSeq := seqn n\<rparr> = rxWindow r" using w(1) by simp
    then have "\<exists>mx. rxWindow (DTAP_SlideRxWindow cp r) = (rxWindow r)\<lparr>rxList := ?l, maxExpectedTxSeq := mx\<rparr>"
      using False eq w(1) unfolding DTAP_SlideRxWindow_def Let_def seq
      by (cases "rxWindow r") (auto split: if_splits)
    then show ?thesis unfolding a using w(1) by (cases "rxWindow r") auto
  next
    case True
    let ?q = "fst (strip (Suc n) ks)"
    have a: "fst (arrive k (n, ks)) = ?q"
    proof -
      have "insort n ks = n # ks" using w(4) by (cases ks) auto
      then show ?thesis using True new by simp
    qed
    note fm = strip_first_missing [OF w(7,4,6)]
    have l': "list_all2 (frag_at g) (n # ks) ?l" using l True w(4) by (cases ks) auto
    have bd: "\<forall>j\<in>set (n # ks). n \<le> j \<and> j < n + 8192" using w(4,5) by fastforce
    have q: "?q \<notin> set (n # ks)" "{Suc n..<?q} \<subseteq> set (n # ks)" "?q < Suc n + wn" "?q < n + 8192" "Suc n \<le> ?q"
      using fm strip_ge [of "Suc n" ks] w(5) by auto
    have nm: "next_missing wn ?l (seqn (Suc n)) = Some (seqn ?q)"
      by (rule next_missing_first [OF l' bd _ q(5,3,4,1,2)]) simp
    show ?thesis unfolding a using True w(1,2) nm unfolding DTAP_SlideRxWindow_def Let_def seq
      by (cases "rxWindow r") (auto split: if_splits)
  qed
qed

lemma SlideRx_rest:
  "frags (DTAP_SlideRxWindow cp r) = frags r" "isRxWindowFull (DTAP_SlideRxWindow cp r) = isRxWindowFull r"
  "r_crcInit (DTAP_SlideRxWindow cp r) = r_crcInit r"
  by (simp_all add: DTAP_SlideRxWindow_def Let_def split: option.splits)

lemma OperateReorder_rx:
  "DTAP_OperateReorderTimer r e = (r', e') \<Longrightarrow> rx_same r e r' e'"
  by (auto simp: DTAP_OperateReorderTimer_def rx_same_def Let_def split: if_splits prod.splits dest!: timer_same)

text \<open>Taking in a new frame: the window slides, and what is in sequence is handed up.\<close>

lemma take_in:
  assumes s: "rel_sim wn crc g (n, ks) (r, e)" and f: "rel_fits wn k (n, ks)" and cp: "frag_at g k cp"
    and new: "\<not> k < n" "k \<notin> set ks" and nf: "never_full cb"
    and op: "DTAP_OperateReorderTimer (DTAP_SlideRxWindow cp r) e = (r4, e4)"
    and inn: "DTAP_RecvEnhanceFrameInner ch (Some cb) r4 e4 = (r5, e5)"
  shows "rel_sim wn crc g (arrive k (n, ks)) (r5, e5)"
    "rel_out (r5, e5) = fold (\<lambda>k. reasm ch (g k)) [n..<fst (arrive k (n, ks))] (rel_out (r, e))"
proof -
  have w: "bufferSeq (rxWindow r) = seqn n" "rx_size (rxWindow r) = wn" "list_all2 (frag_at g) ks (rxList (rxWindow r))"
    "\<forall>j\<in>set ks. n < j \<and> j < n + wn" "wn \<le> 255" "0 < wn" "sorted_wrt (<) ks" "reseq_ok (n, ks)" "\<not> isRxWindowFull r" "r_crcInit r = crc"
    "mem_ok (e_mem e)" "wf_part (frags r)"
    using s by (auto simp: rel_sim_def reseq_ok_def)
  have q: "k < n + wn" using f by simp
  note ar = arrive_new [OF w(8) new]
  let ?q = "fst (arrive k (n, ks))" and ?l = "insert_frame cp (rxList (rxWindow r))"
  obtain mx where rw: "rxWindow (DTAP_SlideRxWindow cp r) = (rxWindow r)\<lparr>rxList := ?l, expectedTxSeq := seqn ?q, maxExpectedTxSeq := mx\<rparr>"
    using slide_rx [OF s f cp new] by blast
  have sm: "rx_same (DTAP_SlideRxWindow cp r) e r4 e4" using OperateReorder_rx [OF op] .
  then have r4: "rxWindow r4 = (rxWindow r)\<lparr>rxList := ?l, expectedTxSeq := seqn ?q, maxExpectedTxSeq := mx\<rparr>" "frags r4 = frags r"
    "\<not> isRxWindowFull r4" "r_crcInit r4 = crc" "mem_ok (e_mem e4)" "e_dl e4 = e_dl e"
    using rw w SlideRx_rest by (auto simp: rx_same_def)
  have l: "list_all2 (frag_at g) (insort k ks) ?l" unfolding insert_frame_def
    by (rule insert_by_seq_positions [OF w(3) cp frag_at_seq]) (use w(4,5) q new in fastforce)+
  have bd: "\<forall>j\<in>set (insort k ks). n \<le> j \<and> j < n + wn" using w(4) q new by (auto simp: set_insort_key)
  have bd': "\<forall>j\<in>set (insort k ks). n \<le> j \<and> j < n + 8192" using bd w(5) by fastforce
  have "\<exists>zs fg m dl. recv_inner_loop ch (Some cb) r4 e4 =
      (r4\<lparr>frags := fg, rxWindow := (rxWindow r4)\<lparr>rxList := zs, bufferSeq := seqn (fst (strip n (insort k ks)))\<rparr>\<rparr>, e4\<lparr>e_mem := m, e_dl := dl\<rparr>) \<and>
    list_all2 (frag_at g) (snd (strip n (insort k ks))) zs \<and> mem_ok m \<and> wf_part fg \<and>
    (map_option buff_data fg, upcalls dl) =
      fold (\<lambda>k. reasm ch (g k)) [n..<fst (strip n (insort k ks))] (map_option buff_data (frags r4), upcalls (e_dl e4))"
    by (rule inner_loop_strip) (use l r4 w ar(2) bd' nf in simp_all)
  then obtain zs fg m dl where lp: "recv_inner_loop ch (Some cb) r4 e4 =
      (r4\<lparr>frags := fg, rxWindow := (rxWindow r4)\<lparr>rxList := zs, bufferSeq := seqn ?q\<rparr>\<rparr>, e4\<lparr>e_mem := m, e_dl := dl\<rparr>)"
    "list_all2 (frag_at g) (snd (arrive k (n, ks))) zs" "mem_ok m" "wf_part fg"
    "(map_option buff_data fg, upcalls dl) = fold (\<lambda>k. reasm ch (g k)) [n..<?q] (map_option buff_data (frags r), upcalls (e_dl e))"
    unfolding ar(1) r4 by blast
  have r5: "r5 = r4\<lparr>frags := fg, rxWindow := (rxWindow r4)\<lparr>rxList := zs, bufferSeq := seqn ?q\<rparr>\<rparr>" "e5 = e4\<lparr>e_mem := m, e_dl := dl\<rparr>"
    using inn lp(1) r4(3) by (simp_all add: DTAP_RecvEnhanceFrameInner_def)
  show "rel_out (r5, e5) = fold (\<lambda>k. reasm ch (g k)) [n..<?q] (rel_out (r, e))" using lp(5) by (simp add: rel_out_def r5)
  have ok: "reseq_ok (arrive k (n, ks))" using w(8) by (rule arrive_ok)
  have bd2: "\<forall>j\<in>set (snd (arrive k (n, ks))). j < ?q + wn"
  proof
    fix j assume "j \<in> set (snd (arrive k (n, ks)))"
    then have "j \<in> set (insort k ks)" unfolding ar(1) by (subst strip_split [of "insort k ks" n]) simp
    then show "j < ?q + wn" using bd arrive_ge [of "(n, ks)" k] by fastforce
  qed
  obtain n' ks' where a: "arrive k (n, ks) = (n', ks')" by fastforce
  show "rel_sim wn crc g (arrive k (n, ks)) (r5, e5)"
    using r4 lp(2-4) ok bd2 w(2,5,6) unfolding r5 a by (simp add: rel_sim_def)
qed

lemma rel_recv_step:
  assumes s: "rel_sim wn crc g (n, ks) (r, e)" and f: "rel_fits wn k (n, ks)" and fr: "rel_frame crc g k fr" and nf: "never_full cb"
  shows "rel_sim wn crc g (arrive k (n, ks)) (rel_recv xmit reg ch cb fr (r, e))"
    "rel_out (rel_recv xmit reg ch cb fr (r, e)) = fold (\<lambda>k. reasm ch (g k)) [n..<fst (arrive k (n, ks))] (rel_out (r, e))"
proof -
  note chk = rel_check [OF s f fr]
  have "rel_sim wn crc g (arrive k (n, ks)) (rel_recv xmit reg ch cb fr (r, e)) \<and>
    rel_out (rel_recv xmit reg ch cb fr (r, e)) = fold (\<lambda>k. reasm ch (g k)) [n..<fst (arrive k (n, ks))] (rel_out (r, e))"
  proof (cases "k < n \<or> k \<in> set ks")
    case True
    then show ?thesis using chk s by (simp add: rel_recv_def)
  next
    case False
    then have new: "\<not> k < n" "k \<notin> set ks" by auto
    have fa: "frag_at g k fr" using fr by (simp add: rel_frame_def)
    have ft: "getFrameType (fctx fr) \<noteq> DTAP_FRAME_ACK" using fa by (auto simp: frag_at_def)
    obtain r2 e2 where st: "DTAP_SlideTxWindow ch fr r e = (r2, e2)" by fastforce
    note s2 = rel_sim_same [OF s SlideTx_same [OF st]]
    have "mem_ok (e_mem e2)" using s2(1) by (simp add: rel_sim_def)
    then obtain cp m where cp: "DTAP_CopyFrame fr (e_mem e2) = (Some cp, m)" "frag_at g k cp" "mem_ok m"
      using copy_frag [OF fa] by blast
    have sm: "rx_same r2 e2 r2 (e2\<lparr>e_mem := m\<rparr>)" using cp(3) by (simp add: rx_same_def)
    note s3 = rel_sim_same [OF s2(1) sm]
    obtain r4 e4 where op: "DTAP_OperateReorderTimer (DTAP_SlideRxWindow cp r2) (e2\<lparr>e_mem := m\<rparr>) = (r4, e4)" by fastforce
    obtain r5 e5 where inn: "DTAP_RecvEnhanceFrameInner ch (Some cb) r4 e4 = (r5, e5)" by fastforce
    note s5 = take_in [OF s3(1) f cp(2) new nf op inn]
    obtain r6 e8 where ak: "(if DTAP_CheckFrameBit (fbits cp) DTAP_FRAME_P_BIT
        then (case DTAP_SendAckFrame xmit ch True False r5 e5 of (ret2, e6) \<Rightarrow>
                if ret2 \<noteq> DTAP_SUCCESS then (r5, e6)
                else case restart_timer (rspTimer r5) (rspTimeout r5) RspTimerExpire e6 of (h, e7) \<Rightarrow> (r5\<lparr>rspTimer := h\<rparr>, e7))
        else (r5, e5)) = (r6, e8)" by fastforce
    have "rx_same r5 e5 r6 e8"
    proof (cases "DTAP_CheckFrameBit (fbits cp) DTAP_FRAME_P_BIT")
      case True
      obtain ret2 e6 where a: "DTAP_SendAckFrame xmit ch True False r5 e5 = (ret2, e6)" by fastforce
      show ?thesis using ak True SendAck_same [OF a]
        by (auto simp: a rx_same_def split: if_splits prod.splits dest!: timer_same)
    qed (use ak in simp)
    note s6 = rel_sim_same [OF s5(1) this]
    obtain r7 e9 where sc: "DTAP_TransChannelStatusChange xmit reg ch 0 r6 e8 = (r7, e9)" by fastforce
    note s7 = rel_sim_same [OF s6(1) StatusChange_same [OF sc]]
    have "DTAP_RecvEnhanceFrame xmit reg ch fr (Some cb) r e = (DTAP_SUCCESS, r7, e9)"
      unfolding DTAP_RecvEnhanceFrame_def using ft st cp(1) op inn ak sc by (simp add: DTAP_RecvNackFrame_def)
    then have "rel_recv xmit reg ch cb fr (r, e) = (r7, e9)" using chk False by (simp add: rel_recv_def)
    then show ?thesis using s7 s6(2) s5(2) s3(2) s2(2) by simp
  qed
  then show "rel_sim wn crc g (arrive k (n, ks)) (rel_recv xmit reg ch cb fr (r, e))"
    "rel_out (rel_recv xmit reg ch cb fr (r, e)) = fold (\<lambda>k. reasm ch (g k)) [n..<fst (arrive k (n, ks))] (rel_out (r, e))" by auto
qed

interpretation reliable: resequencer "rel_sim wn crc g" "\<lambda>k. rel_recv xmit reg ch cb (frs k)" rel_out "\<lambda>k. reasm ch (g k)"
  "\<lambda>k a. rel_fits wn k a \<and> (rel_frame crc g k (frs k) \<and> never_full cb)" for wn crc g and xmit :: "'w xmit" and reg ch cb frs
proof
  fix a k and s :: "DTAP_ReliableChannel \<times> 'w env" assume a: "rel_sim wn crc g a s"
  then show "reseq_ok a" by (auto simp: rel_sim_def)
  assume b: "rel_fits wn k a \<and> (rel_frame crc g k (frs k) \<and> never_full cb)"
  obtain n ks r e where s: "a = (n, ks)" "s = (r, e)" by fastforce
  show "rel_sim wn crc g (arrive k a) (rel_recv xmit reg ch cb (frs k) s)"
    using rel_recv_step(1) [of wn crc g n ks r e k "frs k" cb xmit reg ch] a b unfolding s by blast
  show "rel_out (rel_recv xmit reg ch cb (frs k) s) = fold (\<lambda>k. reasm ch (g k)) [fst a..<fst (arrive k a)] (rel_out s)"
    using rel_recv_step(2) [of wn crc g n ks r e k "frs k" cb xmit reg ch] a b unfolding s by simp
qed

section \<open>Data units\<close>

text \<open>The fragments of a data unit, as \<open>DTAP_FragmentFrame\<close> cuts and labels them.\<close>

fun unit_frags :: "nat \<Rightarrow> byte \<times> byte list \<Rightarrow> frag list" where
  "unit_frags mps (p, d) = (let ds = chunks mps d in
     map (\<lambda>i. (DTAP_GetFragFrameSar (length ds) (i + 1), p, ds ! i)) [0..<length ds])"

fun tail_frags :: "byte \<Rightarrow> byte list list \<Rightarrow> frag list" where
  "tail_frags p [] = []"
| "tail_frags p (d # ds) = ((if ds = [] then DTAP_SAR_LAST else DTAP_SAR_MID), p, d) # tail_frags p ds"

lemma tail_frags_map:
  "map (\<lambda>i. ((if Suc i < length ds then DTAP_SAR_MID else DTAP_SAR_LAST), p, ds ! i)) [0..<length ds] = tail_frags p ds"
proof (induction ds)
  case (Cons d ds)
  show ?case
    by (simp add: map_upt_Suc del: upt_Suc) (use Cons in \<open>simp add: o_def\<close>)
qed simp

lemma unit_frags_eq:
  assumes "chunks mps d = x # xs"
  shows "unit_frags mps (p, d) = (if xs = [] then [(DTAP_SAR_UNSEG, p, x)] else (DTAP_SAR_FIRST, p, x) # tail_frags p xs)"
proof (cases "xs = []")
  case True then show ?thesis using assms by (simp add: DTAP_GetFragFrameSar_def)
next
  case False
  have "unit_frags mps (p, d) = (DTAP_SAR_FIRST, p, x) #
      map (\<lambda>i. ((if Suc i < length xs then DTAP_SAR_MID else DTAP_SAR_LAST), p, xs ! i)) [0..<length xs]"
    using assms False by (simp add: map_upt_Suc DTAP_GetFragFrameSar_def del: upt_Suc)
  then show ?thesis unfolding tail_frags_map using False by simp
qed

lemma reasm_tail:
  assumes "ds \<noteq> []" "length q + length (concat ds) \<le> DTAP_MAX_FRAG_TOTAL_LEN"
  shows "fold (reasm ch) (tail_frags p ds) (Some q, out) = (None, out @ [(frag_info ch p, q @ concat ds)])"
  using assms by (induction ds arbitrary: q) auto

lemma length_tail_frags [simp]: "length (tail_frags p ds) = length ds"
  by (induction ds) auto

lemma reasm_tail_part:
  assumes "n < length ds" "length q + length (concat ds) \<le> DTAP_MAX_FRAG_TOTAL_LEN"
  shows "snd (fold (reasm ch) (take n (tail_frags p ds)) (Some q, out)) = out"
  using assms
proof (induction ds arbitrary: q n)
  case (Cons d ds) then show ?case by (cases n) auto
qed simp

lemma length_unit_frags: "length (unit_frags mps (p, d)) = length (chunks mps d)"
  by (simp add: Let_def)

lemma reasm_unit:
  assumes "d \<noteq> []" "length d \<le> DTAP_MAX_FRAG_TOTAL_LEN"
  shows "fold (reasm ch) (unit_frags mps (p, d)) (None, out) = (None, out @ [(frag_info ch p, d)])"
proof -
  have c: "concat (chunks mps d) = d" by simp
  obtain x xs where x: "chunks mps d = x # xs" using c assms(1) by (cases "chunks mps d") auto
  show ?thesis
  proof (cases "xs = []")
    case True then show ?thesis unfolding unit_frags_eq [OF x] using x c by simp
  next
    case False
    have l: "length x + length (concat xs) \<le> DTAP_MAX_FRAG_TOTAL_LEN" using x c assms(2) by (metis concat.simps(2) length_append)
    have "d = x @ concat xs" using x c by simp
    then show ?thesis unfolding unit_frags_eq [OF x] using False reasm_tail [OF False l] by simp
  qed
qed

lemma reasm_unit_part:
  assumes "d \<noteq> []" "length d \<le> DTAP_MAX_FRAG_TOTAL_LEN" "n < length (chunks mps d)"
  shows "snd (fold (reasm ch) (take n (unit_frags mps (p, d))) (None, out)) = out"
proof (cases n)
  case (Suc m)
  have c: "concat (chunks mps d) = d" by simp
  obtain x xs where x: "chunks mps d = x # xs" using c assms(1) by (cases "chunks mps d") auto
  have ne: "xs \<noteq> []" using assms(3) Suc x by auto
  have l: "length x + length (concat xs) \<le> DTAP_MAX_FRAG_TOTAL_LEN" using x c assms(2) by (metis concat.simps(2) length_append)
  have "m < length xs" using assms(3) Suc x by simp
  from reasm_tail_part [OF this l] show ?thesis
    unfolding unit_frags_eq [OF x] using ne Suc by simp
qed simp

definition unit_upcall :: "chan_info \<Rightarrow> byte \<times> byte list \<Rightarrow> DTAP_Data_Info \<times> byte list" where
  "unit_upcall ch u = (frag_info ch (fst u), snd u)"

definition proper_unit :: "byte \<times> byte list \<Rightarrow> bool" where
  "proper_unit u \<longleftrightarrow> snd u \<noteq> [] \<and> length (snd u) \<le> DTAP_MAX_FRAG_TOTAL_LEN"

text \<open>A run of fragments from the beginning gives the units that are complete in it.\<close>

lemma reasm_prefix:
  assumes "\<forall>u\<in>set us. proper_unit u"
  shows "\<exists>m. snd (fold (reasm ch) (take n (concat (map (unit_frags mps) us))) (None, out)) =
      out @ map (unit_upcall ch) (take m us) \<and>
    (\<forall>j\<le>length us. length (concat (map (unit_frags mps) (take j us))) \<le> n \<longrightarrow> j \<le> m)"
  using assms
proof (induction us arbitrary: n out)
  case Nil then show ?case by (intro exI [of _ 0]) simp
next
  case (Cons u us)
  obtain p d where u: "u = (p, d)" by fastforce
  have pu: "d \<noteq> []" "length d \<le> DTAP_MAX_FRAG_TOTAL_LEN" using Cons.prems u by (auto simp: proper_unit_def)
  let ?F = "unit_frags mps u" and ?R = "concat (map (unit_frags mps) us)"
  have lf: "length ?F = length (chunks mps d)" unfolding u by (rule length_unit_frags)
  show ?case
  proof (cases "n < length ?F")
    case True
    have "snd (fold (reasm ch) (take n ?F) (None, out)) = out" unfolding u by (rule reasm_unit_part [OF pu]) (use True lf in simp)
    then show ?thesis using True
      by (intro exI [of _ 0]) (auto simp: take_Cons' split: if_splits)
  next
    case False
    obtain m where m: "snd (fold (reasm ch) (take (n - length ?F) ?R) (None, out @ [unit_upcall ch u])) =
        (out @ [unit_upcall ch u]) @ map (unit_upcall ch) (take m us)"
      "\<forall>j\<le>length us. length (concat (map (unit_frags mps) (take j us))) \<le> n - length ?F \<longrightarrow> j \<le> m"
      using Cons.IH [of "n - length ?F" "out @ [unit_upcall ch u]"] Cons.prems by auto
    have "fold (reasm ch) ?F (None, out) = (None, out @ [unit_upcall ch u])"
      using reasm_unit [OF pu, of ch mps p out] unfolding u by (simp add: unit_upcall_def)
    then have "snd (fold (reasm ch) (take n (concat (map (unit_frags mps) (u # us)))) (None, out)) =
        out @ map (unit_upcall ch) (take (Suc m) (u # us))"
      using False m(1) by simp
    moreover have "\<forall>j\<le>length (u # us). length (concat (map (unit_frags mps) (take j (u # us)))) \<le> n \<longrightarrow> j \<le> Suc m"
    proof (intro allI impI)
      fix j assume j: "j \<le> length (u # us)" "length (concat (map (unit_frags mps) (take j (u # us)))) \<le> n"
      then show "j \<le> Suc m" using m(2) by (cases j) auto
    qed
    ultimately show ?thesis by blast
  qed
qed

text \<open>(C1) The reliable mode delivers every unit once and in order. Let the peer's stream be the fragments of the
  units \<open>us\<close>, and let its frames arrive in any order, with losses and repetitions, each within the window of
  the position expected or not older than half of the number space, while the upper layer takes what it is given
  and allocation succeeds. Then what the upper layer has been given are the first \<open>m\<close> units, unchanged and in the
  order in which they were sent, and a unit is among them as soon as all fragments up to its last have arrived;
  in particular all units are delivered once every frame has arrived at least once. Acknowledgements that the frames carry and the
  transmissions they cause do not interfere.\<close>
theorem reliable_delivers_units:
  assumes "rel_sim wn crc (\<lambda>k. fs ! k) (0, []) (r, e)" "frags r = None" "e_dl e = []" "never_full cb"
    "fs = concat (map (unit_frags mps) us)" "\<forall>u\<in>set us. proper_unit u"
    "\<forall>k\<in>set ks. k < length fs \<and> rel_frame crc (\<lambda>k. fs ! k) k (frs k)" "paced (rel_fits wn) ks (0, [])"
  shows "\<exists>m. upcalls (e_dl (snd (fold (\<lambda>k. rel_recv xmit reg ch cb (frs k)) ks (r, e)))) = map (unit_upcall ch) (take m us) \<and>
    (\<forall>j\<le>length us. {..<length (concat (map (unit_frags mps) (take j us)))} \<subseteq> set ks \<longrightarrow> j \<le> m)"
proof -
  have p: "paced (\<lambda>k a. rel_fits wn k a \<and> (rel_frame crc (\<lambda>k. fs ! k) k (frs k) \<and> never_full cb)) ks (0, [])"
    by (rule paced_conj) (use assms in auto)
  obtain n where n: "rel_out (fold (\<lambda>k. rel_recv xmit reg ch cb (frs k)) ks (r, e)) = fold (\<lambda>k. reasm ch (fs ! k)) [0..<n] (rel_out (r, e))"
    "n \<notin> set ks" "{0..<n} \<subseteq> set ks"
    using reliable.in_order_exactly_once [OF assms(1) p, of xmit reg ch] by (auto simp: received_def)
  have "n \<le> length fs"
  proof (cases n)
    case (Suc i)
    then have "i \<in> set ks" using n(3) by auto
    then show ?thesis using assms(7) Suc by auto
  qed simp
  then have tk: "map ((!) fs) [0..<n] = take n fs" by (intro nth_equalityI) auto
  have o: "rel_out (r, e) = (None, [])" using assms(2,3) by (simp add: rel_out_def upcalls_def)
  have "fold (\<lambda>k. reasm ch (fs ! k)) [0..<n] (None, []) = fold (reasm ch) (map ((!) fs) [0..<n]) (None, [])"
    by (simp add: fold_map o_def)
  then have u: "upcalls (e_dl (snd (fold (\<lambda>k. rel_recv xmit reg ch cb (frs k)) ks (r, e)))) = snd (fold (reasm ch) (take n fs) (None, []))"
    using n(1) unfolding o tk by (simp add: rel_out_def prod_eq_iff)
  obtain m where m: "snd (fold (reasm ch) (take n fs) (None, [])) = [] @ map (unit_upcall ch) (take m us)"
    "\<forall>j\<le>length us. length (concat (map (unit_frags mps) (take j us))) \<le> n \<longrightarrow> j \<le> m"
    unfolding assms(5) using reasm_prefix [OF assms(6)] by blast
  have "\<forall>j\<le>length us. {..<length (concat (map (unit_frags mps) (take j us)))} \<subseteq> set ks \<longrightarrow> j \<le> m"
  proof (intro allI impI)
    fix j assume j: "j \<le> length us" "{..<length (concat (map (unit_frags mps) (take j us)))} \<subseteq> set ks"
    have "\<not> n < length (concat (map (unit_frags mps) (take j us)))" using j(2) n(2) by blast
    then show "j \<le> m" using m(2) j(1) by simp
  qed
  then show ?thesis using u m(1) by auto
qed

section \<open>The frames of a unit on the wire\<close>

lemma ParseExtension_fctx: "DTAP_ParseExtension fr = (ret, fr') \<Longrightarrow> fctx fr' = fctx fr"
  by (auto simp: DTAP_ParseExtension_def Let_def split: option.splits if_splits list.splits prod.splits)

lemma ParseEnhance_fctx: "DTAP_ParseEnhanceFrame fr = (ret, fr') \<Longrightarrow> fctx fr' = fctx fr"
  by (auto simp: DTAP_ParseEnhanceFrame_def Let_def split: option.splits if_splits list.splits prod.splits
      dest!: ParseExtension_fctx)

lemma ParseFrag_fctx:
  assumes "cx = CtxSimplexFrag \<or> cx = CtxDuplexFrag" "DTAP_ParseFrame (getFrameType cx) b fr = (DTAP_SUCCESS, pf)"
  shows "fctx pf = cx"
  using assms by (auto simp: DTAP_ParseFrame_def DTAP_ParseSimplexFragFrame_def DTAP_ParseDuplexFragFrame_def
      split: prod.splits if_splits option.splits dest!: ParseEnhance_fctx)

text \<open>\<open>carries\<close>: the buffer parses to a frame that a receiver with this seed takes as fragment \<open>f\<close> at position \<open>k\<close>.\<close>

definition carries :: "u16w \<Rightarrow> byte \<Rightarrow> frame_ctx \<Rightarrow> nat \<Rightarrow> frag \<Rightarrow> DTAP_Frame \<Rightarrow> bool" where
  "carries crc tcid cx k f fr \<longleftrightarrow> (\<exists>b. fbuff fr = Some b \<and> wf_buff b \<and> buff_data b ! 0 = tcid \<and>
     wire_length b + DTAP_BASIC_HEADER_LEN = dataLen b \<and>
     (\<forall>c0. \<exists>pf. DTAP_ParseFrame (getFrameType cx) b (frame0 c0) = (DTAP_SUCCESS, pf) \<and> DTAP_CheckEnhanceFrameHeader pf \<and>
        payloadLen pf = length (snd (snd f)) \<and> rel_frame crc (\<lambda>_. f) k pf))"

lemma pack_one:
  assumes "fresh_frag cx fr piece" "cx = CtxSimplexFrag \<or> cx = CtxDuplexFrag" "sar fr < 4" "length piece + 11 < 65536"
    "is_seq q"
  shows "\<exists>fr1. buildFrame (fctx fr) tcid crc (fr\<lparr>fbits := DTAP_FRAME_C_BIT, fpi := p, txSeq := seqn k, reqSeq := q\<rparr>) m =
      (DTAP_SUCCESS, fr1, m) \<and> carries crc tcid cx k (sar fr, p, piece) fr1"
proof -
  let ?f = "fr\<lparr>fbits := DTAP_FRAME_C_BIT, fpi := p, txSeq := seqn k, reqSeq := q\<rparr>"
  obtain b where b: "fbuff fr = Some b" "wf_buff b" "buff_data b = piece" "dataOff b = 14" "SDF_BuffTailRoom b = 2" "fctx fr = cx"
    using assms(1) by (auto simp: fresh_frag_def frame0_def)
  have l: "dataLen b = length piece" using length_buff_data [OF b(2)] b(3) by simp
  have bd: "buildable 9 ?f b" "buildable 7 ?f b" using b l assms(3,4) by (simp_all add: buildable_def)
  have q: "is_seq (reqSeq ?f)" using assms(5) by simp
  have W: "\<exists>fr1 b'. buildFrame cx tcid crc ?f m = (DTAP_SUCCESS, fr1, m) \<and> fbuff fr1 = Some b' \<and>
    (\<forall>c0. \<exists>pf. DTAP_ParseFrame (getFrameType cx) b' (frame0 c0) = (DTAP_SUCCESS, pf) \<and> wire_image crc tcid ?f b b' pf)"
    using assms(2)
  proof
    assume cx: "cx = CtxSimplexFrag"
    obtain fr1 b' where 1: "DTAP_BuildSimplexFragFrame tcid crc ?f = (DTAP_SUCCESS, fr1)" "fbuff fr1 = Some b'"
      using simplex_frag_roundtrip [OF bd(2), of tcid crc CtxBasic] by blast
    have "\<exists>pf. DTAP_ParseFrame DTAP_FRAME_SIMPLEX_FRAG b' (frame0 c0) = (DTAP_SUCCESS, pf) \<and> wire_image crc tcid ?f b b' pf" for c0
      using simplex_frag_roundtrip [OF bd(2), of tcid crc c0] 1 by auto
    then show ?thesis using 1 cx by auto
  next
    assume cx: "cx = CtxDuplexFrag"
    obtain fr1 b' where 1: "DTAP_BuildDuplexFragFrame tcid crc ?f = (DTAP_SUCCESS, fr1)" "fbuff fr1 = Some b'"
      using duplex_frag_roundtrip [OF bd(1) q, of tcid crc CtxBasic] by blast
    have "\<exists>pf. DTAP_ParseFrame DTAP_FRAME_DUPLEX_FRAG b' (frame0 c0) = (DTAP_SUCCESS, pf) \<and> wire_image crc tcid ?f b b' pf" for c0
      using duplex_frag_roundtrip [OF bd(1) q, of tcid crc c0] 1 by auto
    then show ?thesis using 1 cx by auto
  qed
  then obtain fr1 b' where r: "buildFrame cx tcid crc ?f m = (DTAP_SUCCESS, fr1, m)" "fbuff fr1 = Some b'"
    "\<forall>c0. \<exists>pf. DTAP_ParseFrame (getFrameType cx) b' (frame0 c0) = (DTAP_SUCCESS, pf) \<and> wire_image crc tcid ?f b b' pf" by blast
  have "\<exists>pf. DTAP_ParseFrame (getFrameType cx) b' (frame0 c0) = (DTAP_SUCCESS, pf) \<and> DTAP_CheckEnhanceFrameHeader pf \<and>
      payloadLen pf = length piece \<and> rel_frame crc (\<lambda>_. (sar fr, p, piece)) k pf" for c0
  proof -
    obtain pf where pf: "DTAP_ParseFrame (getFrameType cx) b' (frame0 c0) = (DTAP_SUCCESS, pf)" "wire_image crc tcid ?f b b' pf"
      using r(3) by blast
    have cx: "fctx pf = cx" using ParseFrag_fctx [OF assms(2) pf(1)] .
    have rx: "rx_frag pf piece" using wire_image_rx_frag [OF pf(2) b(2)] b(3) by simp
    have "rel_frame crc (\<lambda>_. (sar fr, p, piece)) k pf"
      using pf(2) cx rx assms(2,3) by (auto simp: rel_frame_def frag_at_def wire_image_def)
    then show ?thesis using pf l by (auto simp: wire_image_def)
  qed
  moreover have "wf_buff b' \<and> buff_data b' ! 0 = tcid \<and> wire_length b' + DTAP_BASIC_HEADER_LEN = dataLen b'"
    using r(3) by (auto simp: wire_image_def)
  ultimately show ?thesis using r(1,2) b(6) by (auto simp: carries_def)
qed

lemma pack_frames_carry:
  assumes "list_all2 (fresh_frag cx) frs ds" "cx = CtxSimplexFrag \<or> cx = CtxDuplexFrag" "\<forall>fr\<in>set frs. sar fr < 4"
    "\<forall>d\<in>set ds. length d + 11 < 65536" "is_seq (expectedTxSeq (rxWindow r))"
  shows "\<exists>l. pack_frames ch p r (seqn k) frs m = (DTAP_SUCCESS, l, m) \<and> length l = length frs \<and>
    (\<forall>i<length frs. carries (r_crcInit r) (c_dstTcid ch) cx (k + i) (sar (frs ! i), p, ds ! i) (l ! i))"
  using assms(1,3,4)
proof (induction frs ds arbitrary: k rule: list_all2_induct)
  case Nil then show ?case by simp
next
  case (Cons fr frs d ds)
  obtain fr1 where 1: "buildFrame (fctx fr) (c_dstTcid ch) (r_crcInit r)
      (fr\<lparr>fbits := DTAP_FRAME_C_BIT, fpi := p, txSeq := seqn k, reqSeq := expectedTxSeq (rxWindow r)\<rparr>) m = (DTAP_SUCCESS, fr1, m)"
    "carries (r_crcInit r) (c_dstTcid ch) cx k (sar fr, p, d) fr1"
    using pack_one [OF Cons(1) assms(2) _ _ assms(5), where tcid = "c_dstTcid ch" and crc = "r_crcInit r" and p = p and k = k and m = m]
      Cons.prems by auto
  obtain l where l: "pack_frames ch p r (seqn (Suc k)) frs m = (DTAP_SUCCESS, l, m)" "length l = length frs"
    "\<forall>i<length frs. carries (r_crcInit r) (c_dstTcid ch) cx (Suc k + i) (sar (frs ! i), p, ds ! i) (l ! i)"
    using Cons.IH [of "Suc k"] Cons.prems by auto
  have "\<forall>i<length (fr # frs). carries (r_crcInit r) (c_dstTcid ch) cx (k + i) (sar ((fr # frs) ! i), p, (d # ds) ! i) ((fr1 # l) ! i)"
    using 1(2) l(3) by (auto simp: nth_Cons split: nat.splits)
  then show ?case using 1(1) l(1,2) by (intro exI [of _ "fr1 # l"]) (simp add: Let_def)
qed

lemma sar_range: "DTAP_GetFragFrameSar n i < 4"
  by (simp add: DTAP_GetFragFrameSar_def)

text \<open>(C2) The frames that \<open>DTAP_PackEnhanceFrames\<close> makes of a unit are the fragments of that unit. With memory
  available, a unit of at most 65535 bytes that needs no more than 128 fragments is packed; there is one frame per
  fragment, and the \<open>i\<close>-th carries the sequence number that follows the ones in use, the segmentation state, protocol
  identifier and data of the \<open>i\<close>-th fragment, with the right channel, length field and check sequence, whatever kind
  of fragment frame the channel uses; a receiver with the same seed accepts each of them at its position.\<close>
theorem packed_unit_fragments:
  assumes "mem_ok m" "wf_buff b" "0 < dataLen b" "dataLen b \<le> DTAP_MAX_FRAG_TOTAL_LEN" "0 < mps" "mps + 11 < 65536"
    "length (chunks mps (buff_data b)) \<le> DTAP_MAX_FRAGMENT_NUM" "nextTxSeq (txWindow r) = seqn k" "is_seq (expectedTxSeq (rxWindow r))"
  shows "\<exists>l m'. DTAP_PackEnhanceFrames ch p b mps r m = (DTAP_SUCCESS, l, m') \<and>
    length l = length (unit_frags mps (p, buff_data b)) \<and>
    (\<forall>i<length l. carries (r_crcInit r) (c_dstTcid ch) (if isRecvFrame r then CtxDuplexFrag else CtxSimplexFrag) (k + i)
       (unit_frags mps (p, buff_data b) ! i) (l ! i))"
proof -
  let ?ft = "if isRecvFrame r then DTAP_FRAME_DUPLEX_FRAG else DTAP_FRAME_SIMPLEX_FRAG"
  let ?cx = "if isRecvFrame r then CtxDuplexFrag else CtxSimplexFrag"
  let ?ds = "chunks mps (buff_data b)"
  obtain frs m' where f: "DTAP_FragmentFrame b mps ?ft m = (frs, length frs, m')" "mem_ok m'" "frs \<noteq> []"
    "list_all2 (fresh_frag ?cx) frs ?ds" "\<forall>i<length frs. sar (frs ! i) = DTAP_GetFragFrameSar (length frs) (i + 1)"
    by (rule fragment_frame_ok [OF assms(1-5) _ assms(7), of ?ft ?cx]) (use assms(6) in auto)
  have lf: "length frs = length ?ds" using f(4) by (rule list_all2_lengthD)
  have "\<forall>fr\<in>set frs. sar fr < 4" using f(5) sar_range by (metis in_set_conv_nth)
  moreover have "\<forall>d\<in>set ?ds. length d + 11 < 65536"
  proof
    fix d assume "d \<in> set ?ds"
    then have "length d \<le> mps" using chunks_piece assms(5) by blast
    then show "length d + 11 < 65536" using assms(6) by simp
  qed
  moreover have "?cx = CtxSimplexFrag \<or> ?cx = CtxDuplexFrag" by simp
  ultimately obtain l where l: "pack_frames ch p r (seqn k) frs m' = (DTAP_SUCCESS, l, m')" "length l = length frs"
    "\<forall>i<length frs. carries (r_crcInit r) (c_dstTcid ch) ?cx (k + i) (sar (frs ! i), p, ?ds ! i) (l ! i)"
    using pack_frames_carry [OF f(4), of r ch p k m'] assms(9) by blast
  have "DTAP_PackEnhanceFrames ch p b mps r m = (DTAP_SUCCESS, l, m')"
    using f(1,3) l(1) assms(8) by (simp add: DTAP_PackEnhanceFrames_def)
  moreover have "unit_frags mps (p, buff_data b) ! i = (sar (frs ! i), p, ?ds ! i)" if "i < length frs" for i
    using that f(5) lf by (simp add: Let_def)
  ultimately show ?thesis using l lf length_unit_frags [of mps p "buff_data b"] by auto
qed

text \<open>A unit of three bytes in two fragments.\<close>

definition demo_frag :: "nat \<Rightarrow> DTAP_Frame" where
  "demo_frag k = (frame0 CtxSimplexFrag)\<lparr>fbuff := Some (if k = 0
      then \<lparr>dataOff = 14, dataLen = 2, buffLen = 18, bytes = replicate 14 0 @ [1, 2, 0, 0]\<rparr>
      else \<lparr>dataOff = 14, dataLen = 1, buffLen = 17, bytes = replicate 14 0 @ [3, 0, 0]\<rparr>),
    sar := (if k = 0 then DTAP_SAR_FIRST else DTAP_SAR_LAST)\<rparr>"

definition demo_wire_frame :: "nat \<Rightarrow> DTAP_Frame" where
  "demo_wire_frame k = snd (DTAP_ParseFrame DTAP_FRAME_SIMPLEX_FRAG (the (fbuff (fst (snd (buildFrame CtxSimplexFrag 0x40 0
     ((demo_frag k)\<lparr>fbits := DTAP_FRAME_C_BIT, fpi := 7, txSeq := seqn k, reqSeq := 0\<rparr>) []))))) (frame0 CtxBasic))"

lemma demo_unit_frags: "unit_frags 2 (7, [1, 2, 3]) = [(DTAP_SAR_FIRST, 7, [1, 2]), (DTAP_SAR_LAST, 7, [3])]"
  by (simp add: chunks.simps DTAP_GetFragFrameSar_def upt_rec)

lemma demo_wire_frame:
  assumes "k < 2"
  shows "rel_frame 0 (\<lambda>k. unit_frags 2 (7, [1, 2, 3]) ! k) k (demo_wire_frame k)"
proof -
  let ?d = "if k = 0 then [1, 2] else [3] :: byte list"
  have fresh: "fresh_frag CtxSimplexFrag (demo_frag k) ?d"
    by (auto simp: fresh_frag_def demo_frag_def wf_buff_def buff_data_def SDF_BuffTailRoom_def)
  have s: "sar (demo_frag k) = (if k = 0 then 1 else 3)" "fctx (demo_frag k) = CtxSimplexFrag" by (simp_all add: demo_frag_def frame0_def)
  have lt: "sar (demo_frag k) < 4" "length ?d + 11 < 65536" "is_seq 0" using s by (simp_all add: is_seq_def)
  obtain fr1 where f: "buildFrame CtxSimplexFrag 0x40 0 ((demo_frag k)\<lparr>fbits := DTAP_FRAME_C_BIT, fpi := 7, txSeq := seqn k, reqSeq := 0\<rparr>) [] =
      (DTAP_SUCCESS, fr1, [])" "carries 0 0x40 CtxSimplexFrag k (sar (demo_frag k), 7, ?d) fr1"
    using pack_one [OF fresh disjI1 [OF refl] lt(1,2) lt(3), of "0x40" 0 k 7 "[]"] unfolding s(2) by blast
  obtain b pf where c: "fbuff fr1 = Some b" "DTAP_ParseFrame DTAP_FRAME_SIMPLEX_FRAG b (frame0 CtxBasic) = (DTAP_SUCCESS, pf)"
    "rel_frame 0 (\<lambda>_. (sar (demo_frag k), 7, ?d)) k pf"
    using f(2) by (fastforce simp: carries_def)
  have "demo_wire_frame k = pf" using f(1) c(1,2) by (simp add: demo_wire_frame_def)
  moreover have "unit_frags 2 (7, [1, 2, 3]) ! k = (sar (demo_frag k), 7, ?d)"
    unfolding demo_unit_frags s using assms by (cases k) (auto simp: less_Suc_eq)
  ultimately show ?thesis using c(3) by (simp add: rel_frame_def frag_at_def)
qed

theorem reliable_delivers_units_witness:
  "\<exists>m. upcalls (e_dl (snd (fold (\<lambda>k. rel_recv demo_xmit False demo_chan (\<lambda>_ _ _. DTAP_SUCCESS) (demo_wire_frame k)) [1, 0, 1] (demo_rel, demo_env)))) =
     map (unit_upcall demo_chan) (take m [(7, [1, 2, 3])]) \<and> 1 \<le> m"
proof -
  let ?fs = "unit_frags 2 (7, [1, 2, 3])"
  have fs: "?fs = concat (map (unit_frags 2) [(7, [1, 2, 3])])" by (simp only: list.map concat.simps append_Nil2)
  have s0: "seqn 0 = 0" by (simp add: seqn_def)
  have sim: "rel_sim 4 0 (\<lambda>k. ?fs ! k) (0, []) (demo_rel, demo_env)"
    by (simp add: rel_sim_def demo_rel_def demo_env_def s0 reseq_ok_def wf_part_def)
  have l: "length ?fs = 2" by (simp only: demo_unit_frags) simp
  have fr: "\<forall>k\<in>set [1, 0, 1]. k < length ?fs \<and> rel_frame 0 (\<lambda>k. ?fs ! k) k (demo_wire_frame k)"
    using demo_wire_frame unfolding l by simp
  have pc: "paced (rel_fits 4) [1, 0, 1] (0, [])" by simp
  have nf: "never_full (\<lambda>_ _ _. DTAP_SUCCESS)" by (simp add: never_full_def)
  obtain m where m: "upcalls (e_dl (snd (fold (\<lambda>k. rel_recv demo_xmit False demo_chan (\<lambda>_ _ _. DTAP_SUCCESS) (demo_wire_frame k)) [1, 0, 1] (demo_rel, demo_env)))) =
      map (unit_upcall demo_chan) (take m [(7, [1, 2, 3])])"
    "\<forall>j\<le>length [(7 :: byte, [1, 2, 3] :: byte list)]. {..<length (concat (map (unit_frags 2) (take j [(7, [1, 2, 3])])))} \<subseteq> set [1, 0, 1] \<longrightarrow> j \<le> m"
    using reliable_delivers_units [OF sim _ _ nf fs _ fr pc, of demo_xmit False demo_chan]
    by (auto simp: demo_rel_def demo_env_def proper_unit_def)
  have "length (concat (map (unit_frags 2) (take 1 [(7, [1, 2, 3])]))) = 2" using l by (simp del: unit_frags.simps)
  moreover have "{..<2} \<subseteq> set [1, 0, 1 :: nat]" by auto
  ultimately have "1 \<le> m" using m(2) by (metis One_nat_def length_Cons list.size(3) order_refl)
  then show ?thesis using m(1) by blast
qed

theorem packed_unit_fragments_witness:
  "\<exists>l m'. DTAP_PackEnhanceFrames demo_chan 7 \<lparr>dataOff = 14, dataLen = 3, buffLen = 19, bytes = replicate 14 0 @ [1, 2, 3, 0, 0]\<rparr> 2 demo_rel [] =
     (DTAP_SUCCESS, l, m') \<and> length l = 2 \<and> carries 0 0x41 CtxSimplexFrag 1 (DTAP_SAR_LAST, 7, [3]) (l ! 1)"
proof -
  let ?b = "\<lparr>dataOff = 14, dataLen = 3, buffLen = 19, bytes = replicate 14 0 @ [1, 2, 3, 0, 0]\<rparr>"
  have d: "buff_data ?b = [1, 2, 3]" by (simp add: buff_data_def)
  have s0: "seqn 0 = 0" by (simp add: seqn_def)
  have "\<exists>l m'. DTAP_PackEnhanceFrames demo_chan 7 ?b 2 demo_rel [] = (DTAP_SUCCESS, l, m') \<and>
    length l = length (unit_frags 2 (7, buff_data ?b)) \<and>
    (\<forall>i<length l. carries (r_crcInit demo_rel) (c_dstTcid demo_chan) (if isRecvFrame demo_rel then CtxDuplexFrag else CtxSimplexFrag) (0 + i)
       (unit_frags 2 (7, buff_data ?b) ! i) (l ! i))"
    by (rule packed_unit_fragments) (simp_all add: d wf_buff_def demo_rel_def s0 is_seq_def chunks.simps)
  then show ?thesis unfolding d demo_unit_frags by (auto simp: demo_rel_def demo_chan_def)
qed

end
