(* ===== verification/Dtap_Rel_Retrans.thy ===== *)
theory Dtap_Rel_Retrans
  imports Dtap_Rel_Tx
begin

text \<open>
  Retransmission in the reliable mode: the back-off of the retransmission timer, the number of
  retransmissions before the channel is given up, and what becomes of a unit that waits for the window.
\<close>

section \<open>Back-off\<close>

text \<open>(C19) The retransmission timeout doubles with every retransmission and stays in sixteen bits: it is the base
  timeout times two to the number of retransmissions, of which no more than fifteen count, cut off at 65535;
  so it never decreases from one retransmission to the next, and a base timeout that is not zero never gives zero.\<close>
theorem retrans_backoff:
  assumes "base \<le> 65535"
  shows "DTAP_CalculateRetransTimeout base cnt = min 65535 (base * 2 ^ min cnt 15) \<and>
    DTAP_CalculateRetransTimeout base cnt \<le> DTAP_CalculateRetransTimeout base (cnt + 1) \<and>
    (0 < base \<longrightarrow> 0 < DTAP_CalculateRetransTimeout base cnt)"
proof -
  have e: "DTAP_CalculateRetransTimeout base c = min 65535 (base * 2 ^ min c 15)" for c
  proof (cases "c = 0")
    case True then show ?thesis using assms by (simp add: DTAP_CalculateRetransTimeout_def)
  next
    case False
    define s where "s = min c 15"
    have s: "(if c > 15 then 15 else c) = s" by (simp add: s_def)
    have p: "(0 :: nat) < 2 ^ s" by simp
    have d: "base > 65535 div 2 ^ s \<longleftrightarrow> 65535 < base * 2 ^ s"
      using p by (metis div_less_iff_less_mult)
    show ?thesis
    proof (cases "65535 < base * 2 ^ s")
      case True
      then show ?thesis using False d unfolding s_def [symmetric] by (simp add: DTAP_CalculateRetransTimeout_def s Let_def)
    next
      case F: False
      then have "u16 (base * 2 ^ s) = base * 2 ^ s" by simp
      then show ?thesis using False F d unfolding s_def [symmetric] by (simp add: DTAP_CalculateRetransTimeout_def s Let_def)
    qed
  qed
  have "(2 :: nat) ^ min cnt 15 \<le> 2 ^ min (cnt + 1) 15" by (intro power_increasing) auto
  then have "min 65535 (base * 2 ^ min cnt 15) \<le> min 65535 (base * 2 ^ min (cnt + 1) 15)"
    by (intro min.mono order_refl mult_le_mono2)
  then show ?thesis unfolding e by simp
qed

theorem retrans_backoff_witness:
  "DTAP_CalculateRetransTimeout 1000 3 = 8000 \<and> DTAP_CalculateRetransTimeout 1000 7 = 65535 \<and> DTAP_CalculateRetransTimeout 1 255 = 32768"
  using retrans_backoff [of 1000 3] retrans_backoff [of 1000 7] retrans_backoff [of 1 255] by simp

section \<open>Giving up\<close>

text \<open>A transmission that always succeeds, with a count of what was sent.\<close>

definition counted :: "'w xmit \<Rightarrow> ('w \<Rightarrow> nat) \<Rightarrow> bool" where
  "counted xmit sent \<longleftrightarrow> (\<forall>b w. fst (xmit b w) = DTAP_SUCCESS \<and> sent (snd (xmit b w)) = Suc (sent w))"

text \<open>The first frame of the window, at the number that is retransmitted, has been retransmitted \<open>c\<close> times.\<close>

definition head_count :: "nat \<Rightarrow> DTAP_ReliableChannel \<Rightarrow> bool" where
  "head_count c r \<longleftrightarrow> (\<exists>fr b l. txList (txWindow r) = fr # l \<and> txSeq fr = expectedAckSeq (txWindow r) \<and> reTxCnt fr = c \<and>
     fbuff fr = Some b \<and> wf_buff b \<and> 2 \<le> dataLen b)"

lemma put_typeBits_wf: "wf_buff b \<Longrightarrow> 2 \<le> dataLen b \<Longrightarrow> wf_buff (put_typeBits t b)"
  by (auto simp: put_typeBits_def buff_write_def wf_buff_def)

lemma ReCalculateCrc_wf:
  assumes "wf_buff b" "fbuff fr = Some b" "DTAP_ReCalculateCrcValue c fr = (ret, fr')"
  shows "\<exists>b'. fbuff fr' = Some b' \<and> wf_buff b' \<and> reTxCnt fr' = reTxCnt fr \<and> dataLen b' = dataLen b \<and> fctx fr' = fctx fr"
proof (cases "dataLen b < 2")
  case True then show ?thesis using assms by (auto simp: DTAP_ReCalculateCrcValue_def)
next
  case False
  then show ?thesis using assms
    by (auto simp: DTAP_ReCalculateCrcValue_def Let_def buff_write_def wf_buff_def)
qed

lemma SetPbit_head:
  assumes "fbuff fr = Some b" "wf_buff b" "2 \<le> dataLen b"
  shows "\<exists>b'. fbuff (DTAP_SetPbitForSendPolling c fr) = Some b' \<and> wf_buff b' \<and> dataLen b' = dataLen b \<and>
    reTxCnt (DTAP_SetPbitForSendPolling c fr) = reTxCnt fr \<and> fctx (DTAP_SetPbitForSendPolling c fr) = fctx fr"
proof -
  let ?t = "head_typeBits b"
  let ?n = "drop_bit 4 ?t OR DTAP_FRAME_P_BIT"
  show ?thesis
  proof (cases "drop_bit 4 ?t = ?n")
    case True then show ?thesis using assms by (simp add: DTAP_SetPbitForSendPolling_def Let_def)
  next
    case False
    let ?b1 = "put_typeBits (DTAP_SetFrameBit ?t ?n) b"
    have w1: "wf_buff ?b1" "dataLen ?b1 = dataLen b" using put_typeBits_wf [OF assms(2,3)] by (simp_all add: put_typeBits_def buff_write_def)
    obtain ret fr1 where r: "DTAP_ReCalculateCrcValue c (fr\<lparr>fbuff := Some ?b1\<rparr>) = (ret, fr1)" by fastforce
    obtain b2 where b2: "fbuff fr1 = Some b2" "wf_buff b2" "reTxCnt fr1 = reTxCnt fr" "dataLen b2 = dataLen b" "fctx fr1 = fctx fr"
      using ReCalculateCrc_wf [OF w1(1) _ r] w1(2) by auto
    have w3: "wf_buff (put_typeBits x ?b1)" "dataLen (put_typeBits x ?b1) = dataLen b" for x
      using put_typeBits_wf [OF w1(1)] w1(2) assms(3) by (simp_all add: put_typeBits_def buff_write_def)
    show ?thesis
      using assms(1) False r b2 w3 by (simp add: DTAP_SetPbitForSendPolling_def Let_def)
  qed
qed

lemma restart_timer_rest:
  "restart_timer h x cbk e = (h', e') \<Longrightarrow> e_mem e' = e_mem e \<and> e_tx e' = e_tx e \<and> e_release e' = e_release e \<and> e_known e' = e_known e"
  by (auto simp: restart_timer_def split: prod.splits)

lemma expire_retransmits:
  assumes hc: "head_count c r" and lt: "c < maxTxThreshold r" "maxTxThreshold r \<le> 255" and cn: "counted xmit sent" and m: "mem_ok (e_mem e)"
  shows "\<exists>r' e'. DTAP_RetransTimerExpireProc xmit ch r e = (r', e') \<and> head_count (Suc c) r' \<and> maxTxThreshold r' = maxTxThreshold r \<and>
    isDestroyMsgSent r' = isDestroyMsgSent r \<and> sent (e_tx e') = Suc (sent (e_tx e)) \<and> e_release e' = e_release e \<and>
    e_known e' = e_known e \<and> mem_ok (e_mem e')"
proof -
  let ?s = "expectedAckSeq (txWindow r)"
  define r0 where "r0 = r\<lparr>reTxSeq := ?s\<rparr>"
  obtain fr b l where h: "txList (txWindow r) = fr # l" "txSeq fr = ?s" "reTxCnt fr = c" "fbuff fr = Some b" "wf_buff b" "2 \<le> dataLen b"
    using hc by (auto simp: head_count_def)
  define fr1 where "fr1 = DTAP_SetPbitForSendPolling (r_crcInit r) fr"
  obtain b1 where b1: "fbuff fr1 = Some b1" "wf_buff b1" "dataLen b1 = dataLen b" "reTxCnt fr1 = c" "txSeq fr1 = ?s"
    using SetPbit_head [OF h(4-6), of "r_crcInit r"] h(2,3) by (auto simp: fr1_def)
  obtain m1 where m1: "SDF_BuffCopy b1 (e_mem e) = (Some b1, m1)" "mem_ok m1" using SDF_BuffCopy_ok [OF m b1(2)] by blast
  obtain e1 where e1: "transmit xmit (Some b1) (e\<lparr>e_mem := m1\<rparr>) = (DTAP_SUCCESS, e1)" "sent (e_tx e1) = Suc (sent (e_tx e))"
    "e_release e1 = e_release e" "e_known e1 = e_known e" "e_mem e1 = m1"
  proof -
    obtain ret w where x: "xmit (Some b1) (e_tx e) = (ret, w)" by fastforce
    then have "ret = DTAP_SUCCESS" "sent w = Suc (sent (e_tx e))" using cn unfolding counted_def by (metis fst_conv, metis snd_conv)
    then show thesis using x by (intro that [of "e\<lparr>e_mem := m1, e_tx := w\<rparr>"]) (simp_all add: transmit_def)
  qed
  define r2 where "r2 = r0\<lparr>txWindow := (txWindow r)\<lparr>txList := fr1\<lparr>reTxCnt := Suc c\<rparr> # l\<rparr>\<rparr>"
  have cc: "u8 (c + 1) = Suc c" "u8 (Suc c) = Suc c" using lt by simp_all
  obtain h1 e2 where t1: "(if getFrameType (fctx fr1) = DTAP_FRAME_DUPLEX_FRAG
      then restart_timer (rspTimer r) (rspTimeout r) RspTimerExpire e1 else (rspTimer r, e1)) = (h1, e2)" by fastforce
  obtain h2 e3 where t2: "restart_timer (retransTimer r) (DTAP_CalculateRetransTimeout (retransTimeout r) (Suc c)) RetransTimerExpire e2 = (h2, e3)" by fastforce
  have e3: "e_mem e3 = m1" "e_tx e3 = e_tx e1" "e_release e3 = e_release e" "e_known e3 = e_known e"
    using t1 restart_timer_rest [OF t2] e1(3-5) by (auto split: if_splits dest!: restart_timer_rest)
  have f: "DTAP_FindFrameBySeq (txList (txWindow r0)) (reTxSeq r0) = Some fr" using h(1,2) by (simp add: DTAP_FindFrameBySeq_def r0_def)
  have "DTAP_RetransEnhanceFrame xmit ch r0 e = (DTAP_SUCCESS, r2\<lparr>rspTimer := h1, retransTimer := h2\<rparr>, e3)"
    unfolding DTAP_RetransEnhanceFrame_def f using lt(1) h b1 m1 e1(1) t1 t2 cc
    by (cases "getFrameType (fctx fr1) = DTAP_FRAME_DUPLEX_FRAG") (simp_all add: Let_def r0_def r2_def fr1_def [symmetric])
  then have "DTAP_RetransTimerExpireProc xmit ch r e = (r2\<lparr>rspTimer := h1, retransTimer := h2\<rparr>, e3)"
    using h(1) by (simp add: DTAP_RetransTimerExpireProc_def r0_def)
  moreover have "head_count (Suc c) (r2\<lparr>rspTimer := h1, retransTimer := h2\<rparr>)"
    using b1 h(6) by (simp add: head_count_def r2_def)
  ultimately show ?thesis using e3 e1(2) m1(2) by (simp add: r2_def r0_def)
qed

lemma expire_gives_up:
  assumes "head_count c r" "maxTxThreshold r \<le> c"
  shows "\<exists>r' e'. DTAP_RetransTimerExpireProc xmit ch r e = (r', e') \<and> head_count c r' \<and> maxTxThreshold r' = maxTxThreshold r \<and>
    isDestroyMsgSent r' = (isDestroyMsgSent r \<or> e_known e) \<and> e_tx e' = e_tx e \<and> e_known e' = e_known e \<and>
    e_release e' = e_release e @ (if isDestroyMsgSent r \<or> \<not> e_known e then [] else [(c_lcid ch, c_srcTcid ch, c_dstTcid ch)])"
proof -
  obtain fr b l where h: "txList (txWindow r) = fr # l" "txSeq fr = expectedAckSeq (txWindow r)" "reTxCnt fr = c" "fbuff fr = Some b" "wf_buff b" "2 \<le> dataLen b"
    using assms(1) by (auto simp: head_count_def)
  then show ?thesis using assms(2)
    by (auto simp: DTAP_RetransTimerExpireProc_def DTAP_RetransEnhanceFrame_def DTAP_FindFrameBySeq_def DTAP_DynTransChannReleaseReq_def head_count_def)
qed

text \<open>(C4) Retransmission is bounded and ends in one request to release the channel. When the first frame of the window
  is never acknowledged, the retransmission timer sends it again exactly \<open>maxTxThreshold\<close> times, however often the timer
  expires; the next expiration asks the connection manager to release the channel, and further ones neither send nor ask
  again. Transmission and allocation are assumed to succeed, and the connection manager to know the channel.\<close>
theorem retransmission_bounded:
  assumes "head_count 0 r" "maxTxThreshold r \<le> 255" "counted xmit sent" "mem_ok (e_mem e)" "\<not> isDestroyMsgSent r" "e_known e"
  shows "\<exists>r' e'. ((\<lambda>(r, e). DTAP_RetransTimerExpireProc xmit ch r e) ^^ i) (r, e) = (r', e') \<and>
    sent (e_tx e') = sent (e_tx e) + min i (maxTxThreshold r) \<and>
    e_release e' = e_release e @ (if maxTxThreshold r < i then [(c_lcid ch, c_srcTcid ch, c_dstTcid ch)] else [])"
proof -
  let ?t = "\<lambda>(r, e). DTAP_RetransTimerExpireProc xmit ch r e" and ?M = "maxTxThreshold r"
  have "\<exists>r' e'. (?t ^^ i) (r, e) = (r', e') \<and> head_count (min i ?M) r' \<and> maxTxThreshold r' = ?M \<and>
    isDestroyMsgSent r' = (?M < i) \<and> e_known e' \<and> (i \<le> ?M \<longrightarrow> mem_ok (e_mem e')) \<and>
    sent (e_tx e') = sent (e_tx e) + min i ?M \<and>
    e_release e' = e_release e @ (if ?M < i then [(c_lcid ch, c_srcTcid ch, c_dstTcid ch)] else [])"
  proof (induction i)
    case 0 then show ?case using assms by simp
  next
    case (Suc i)
    then obtain r1 e1 where 1: "(?t ^^ i) (r, e) = (r1, e1)" "head_count (min i ?M) r1" "maxTxThreshold r1 = ?M"
      "isDestroyMsgSent r1 = (?M < i)" "e_known e1" "i \<le> ?M \<longrightarrow> mem_ok (e_mem e1)" "sent (e_tx e1) = sent (e_tx e) + min i ?M"
      "e_release e1 = e_release e @ (if ?M < i then [(c_lcid ch, c_srcTcid ch, c_dstTcid ch)] else [])" by blast
    show ?case
    proof (cases "i < ?M")
      case True
      have c: "head_count i r1" "i < maxTxThreshold r1" "maxTxThreshold r1 \<le> 255" "mem_ok (e_mem e1)" using 1 True assms(2) by (simp_all add: min_def)
      show ?thesis using expire_retransmits [OF c(1-3) assms(3) c(4), of ch] 1 True by (auto simp: min_def)
    next
      case False
      have "min i ?M = ?M" using False by simp
      then have c: "head_count ?M r1" "maxTxThreshold r1 \<le> ?M" using 1(2,3) by simp_all
      show ?thesis using expire_gives_up [OF c, of xmit ch e1] 1 False by (auto simp: min_def)
    qed
  qed
  then show ?thesis by blast
qed

definition demo_lost :: DTAP_ReliableChannel where
  "demo_lost = demo_rel\<lparr>txWindow := \<lparr>tx_size = 4, nextTxSeq = 1, expectedAckSeq = 0,
     txList = [(frame0 CtxSimplexFrag)\<lparr>fbuff := Some \<lparr>dataOff = 7, dataLen = 12, buffLen = 19, bytes = replicate 19 0\<rparr>\<rparr>]\<rparr>\<rparr>"

theorem retransmission_bounded_witness:
  "\<exists>r' e'. ((\<lambda>(r, e). DTAP_RetransTimerExpireProc demo_xmit demo_chan r e) ^^ 9) (demo_lost, demo_env) = (r', e') \<and>
    length (e_tx e') = 3 \<and> e_release e' = [(1, 0x40, 0x41)]"
proof -
  have h: "head_count 0 demo_lost" by (simp add: head_count_def demo_lost_def frame0_def wf_buff_def)
  have c: "counted demo_xmit length" by (simp add: counted_def demo_xmit_def)
  have d: "maxTxThreshold demo_lost = 3" "\<not> isDestroyMsgSent demo_lost" by (simp_all add: demo_lost_def demo_rel_def)
  show ?thesis using retransmission_bounded [OF h _ c, where e = demo_env and ch = demo_chan and i = 9] d by (auto simp: demo_env_def demo_chan_def)
qed

section \<open>A unit that waits for the window\<close>

text \<open>\<open>cache_kept\<close>: the cached unit and the size of the window are the same, and the channel does not go back
  to the shorter header.\<close>

definition cache_kept :: "DTAP_ReliableChannel \<Rightarrow> DTAP_ReliableChannel \<Rightarrow> bool" where
  "cache_kept r r' \<longleftrightarrow> cacheBuff r' = cacheBuff r \<and> tx_size (txWindow r') = tx_size (txWindow r) \<and> (isRecvFrame r \<longrightarrow> isRecvFrame r')"

lemma cache_kept_refl [simp]: "cache_kept r r"
  by (simp add: cache_kept_def)

lemma cache_kept_trans: "cache_kept r r1 \<Longrightarrow> cache_kept r1 r2 \<Longrightarrow> cache_kept r r2"
  by (auto simp: cache_kept_def)

lemma Release_cache: "DTAP_DynTransChannReleaseReq ch r e = (r', e') \<Longrightarrow> cache_kept r r'"
  by (auto simp: DTAP_DynTransChannReleaseReq_def cache_kept_def split: if_splits)

lemma Retrans_cache: "DTAP_RetransEnhanceFrame xmit ch r e = (ret, r', e') \<Longrightarrow> cache_kept r r'"
  by (auto simp: DTAP_RetransEnhanceFrame_def Let_def cache_kept_def split: option.splits if_splits prod.splits
      dest!: Release_cache [unfolded cache_kept_def])

lemma SlideTx_cache: "DTAP_SlideTxWindow ch fr r e = (r', e') \<Longrightarrow> cache_kept r r'"
  by (auto simp: DTAP_SlideTxWindow_def cache_kept_def Let_def split: if_splits prod.splits)

lemma send_new_frames_cache: "send_new_frames xmit frs fl r e = (fl', r', e') \<Longrightarrow> cache_kept r r'"
proof (induction frs arbitrary: fl r e)
  case (Cons fr frs)
  obtain poll r1 where t: "DTAP_TriggerSendPolling r = (poll, r1)" by fastforce
  define fr1 where "fr1 = (if poll then DTAP_SetBitForSendPolling (r_crcInit r1) fr else fr)"
  obtain cb m where c: "(case fbuff fr1 of None \<Rightarrow> (None, e_mem e) | Some b \<Rightarrow> SDF_BuffCopy b (e_mem e)) = (cb, m)" by fastforce
  obtain ret e1 where x: "transmit xmit cb (e\<lparr>e_mem := m\<rparr>) = (ret, e1)" by fastforce
  let ?w = "txWindow r1"
  define r2 where "r2 = r1\<lparr>reTxSeq := DTAP_GetNextFrameSeq (reTxSeq r1),
     txWindow := ?w\<lparr>nextTxSeq := DTAP_GetNextFrameSeq (nextTxSeq ?w), txList := txList ?w @ [fr1]\<rparr>\<rparr>"
  have step: "send_new_frames xmit frs (fl \<or> ret = DTAP_SUCCESS) r2 e1 = (fl', r', e')"
    using Cons.prems by (simp add: t Let_def c x flip: fr1_def r2_def)
  have "cache_kept r r2" using t by (auto simp: cache_kept_def r2_def DTAP_TriggerSendPolling_def split: if_splits)
  then show ?case using cache_kept_trans Cons.IH [OF step] by blast
qed simp

lemma SendInner_cache:
  assumes i: "DTAP_SendEnhanceFrameInner xmit ch frs cnt r e = (ret, r', e')"
  shows "cache_kept r r'"
proof -
  let ?old = "DTAP_IsFrameSeqSmaller (reTxSeq r) (nextTxSeq (txWindow r))"
  obtain ret1 r1 e1 where R: "(if ?old then DTAP_RetransEnhanceFrame xmit ch r e else (DTAP_TRANS_RELIABLE_FIND_FRAME_ERR, r, e)) = (ret1, r1, e1)"
    by (metis prod_cases3)
  have v1: "cache_kept r r1" using R Retrans_cache by (auto split: if_splits)
  define r2 where "r2 = (if ?old then r1\<lparr>reTxSeq := nextTxSeq (txWindow r1)\<rparr> else r1)"
  have v2: "cache_kept r r2" using v1 by (auto simp: r2_def cache_kept_def)
  obtain fl r3 e3 where S: "send_new_frames xmit (take cnt frs) (?old \<and> ret1 = DTAP_SUCCESS) r2 e1 = (fl, r3, e3)" by (metis prod_cases3)
  have "cache_kept r r3" using cache_kept_trans [OF v2 send_new_frames_cache [OF S]] .
  then have v3: "cache_kept r (r3\<lparr>rspTimer := h, retransTimer := h'\<rparr>)" for h h' by (simp add: cache_kept_def)
  obtain h e4 where T: "(if fl \<and> isRecvFrame r3 then restart_timer (rspTimer r3) (rspTimeout r3) RspTimerExpire e3 else (rspTimer r3, e3)) = (h, e4)"
    by fastforce
  obtain h' e5 where U: "(if retransTimer r3 = INVALID_TIMER_HANDLE then start_timer (retransTimer r3) (retransTimeout r3) RetransTimerExpire e4
      else (retransTimer r3, e4)) = (h', e5)" by fastforce
  show ?thesis
    using i v1 v3 [of h' h] unfolding DTAP_SendEnhanceFrameInner_def Let_def R prod.case r2_def [symmetric] S T U
    by (auto split: if_splits)
qed

lemma SendEnhance_cache:
  assumes "DTAP_SendEnhanceFrame xmit ch p b r e = (ret, r', e')" "cacheBuff r \<noteq> None"
  shows "cache_kept r r'"
proof -
  let ?mps = "c_mps ch - frag_header_len r - DTAP_CRC_LEN"
  define cnt where "cnt = DTAP_GetFragmentFramesNum (dataLen b) ?mps"
  define r1 where "r1 = (if length (txList (txWindow r)) + cnt = tx_size (txWindow r) then r\<lparr>isTxWindowFull := True\<rparr> else r)"
  obtain ret1 frs m where P: "DTAP_PackEnhanceFrames ch p b ?mps r1 (e_mem e) = (ret1, frs, m)" by (metis prod_cases3)
  have s1: "cache_kept r r1" by (simp add: cache_kept_def r1_def)
  obtain ret2 r2 e2 where I: "DTAP_SendEnhanceFrameInner xmit ch frs cnt r1 (e\<lparr>e_mem := m\<rparr>) = (ret2, r2, e2)" by (metis prod_cases3)
  have s2: "cache_kept r r2" using cache_kept_trans [OF s1 SendInner_cache [OF I]] .
  have s3: "cache_kept r (r\<lparr>isTxWindowFull := True\<rparr>)" by (simp add: cache_kept_def)
  show ?thesis
    using assms s1 s2 s3 unfolding DTAP_SendEnhanceFrame_def Let_def cnt_def [symmetric] r1_def [symmetric] P prod.case I
    by (auto split: if_splits)
qed

lemma recv_inner_cache: "recv_inner_loop ch cb r e = (r', e') \<Longrightarrow> cache_kept r r'"
proof (induction ch cb r e rule: recv_inner_loop.induct)
  case (1 ch cb r e)
  show ?case
  proof (cases "rxList (rxWindow r)")
    case Nil
    then show ?thesis using 1(2) by (subst (asm) recv_inner_loop.simps) simp
  next
    case (Cons fr frs)
    obtain ret fr' fg m dl where h: "hand_up ch cb fr (frags r) (e_mem e, e_dl e) = (ret, fr', fg, (m, dl))"
      by (metis prod_cases5)
    show ?thesis using 1(2) 1(1) [OF Cons _ h [symmetric]] Cons h
      by (subst (asm) recv_inner_loop.simps) (auto simp: Let_def cache_kept_def split: if_splits)
  qed
qed

text \<open>The cached unit needs at least as many fragments as the window has places.\<close>

definition stuck_cache :: "chan_info \<Rightarrow> SDF_Buff \<Rightarrow> DTAP_ReliableChannel \<Rightarrow> bool" where
  "stuck_cache ch cb r \<longleftrightarrow> cacheBuff r = Some cb \<and> frag_header_len r + DTAP_CRC_LEN < c_mps ch \<and>
     DTAP_GetFragmentFramesNum (dataLen cb) (c_mps ch - frag_header_len r - DTAP_CRC_LEN) \<ge> tx_size (txWindow r)"

lemma frames_num_antimono:
  assumes "0 < k'" "k' \<le> k" "k < 65536"
  shows "DTAP_GetFragmentFramesNum n k \<le> DTAP_GetFragmentFramesNum n k'"
proof -
  let ?n = "u16 n"
  define q where "q = (?n + k' - 1) div k'"
  have ub: "(?n + j - 1) div j \<le> ?n" if "0 < j" for j
  proof -
    have "?n + j - 1 < (?n + 1) * j" using that by (cases j) (auto simp: algebra_simps)
    then have "(?n + j - 1) div j < ?n + 1" using that by (simp add: less_mult_imp_div_less)
    then show ?thesis by simp
  qed
  have "?n + k' - 1 < k' + q * k'" unfolding q_def using assms(1) by (rule dividend_less_div_times)
  then have "?n \<le> q * k'" using assms(1) by (simp add: algebra_simps)
  also have "\<dots> \<le> q * k" using assms(2) by simp
  finally have "?n + k - 1 < (q + 1) * k" using assms(1,2) by (simp add: algebra_simps)
  then have "(?n + k - 1) div k < q + 1" using assms(1,2) by (intro less_mult_imp_div_less)
  then have le: "(?n + k - 1) div k \<le> (?n + k' - 1) div k'" by (simp add: q_def)
  have "?n < 65536" by simp
  then have "(?n + k - 1) div k < 65536" "(?n + k' - 1) div k' < 65536" using ub [of k] ub [of k'] assms by linarith+
  then show ?thesis using le assms by (simp add: DTAP_GetFragmentFramesNum_def)
qed

lemma stuck_cache_kept:
  assumes "stuck_cache ch cb r" "cache_kept r r'" "c_mps ch < 65536" "11 < c_mps ch"
  shows "stuck_cache ch cb r'"
proof -
  have h: "frag_header_len r \<le> frag_header_len r'" "frag_header_len r' \<le> 9"
    using assms(2) by (auto simp: cache_kept_def frag_header_len_def)
  have "DTAP_GetFragmentFramesNum (dataLen cb) (c_mps ch - frag_header_len r - 2) \<le>
      DTAP_GetFragmentFramesNum (dataLen cb) (c_mps ch - frag_header_len r' - 2)"
    by (rule frames_num_antimono) (use h assms(3,4) in auto)
  then show ?thesis using assms h by (auto simp: stuck_cache_def cache_kept_def)
qed

lemma stuck_status:
  assumes "stuck_cache ch cb r" "c_mps ch < 65536"
  shows "DTAP_TransChannelStatusChange xmit reg ch res r e = (r, e)"
proof -
  have m: "frag_header_len r + DTAP_CRC_LEN < c_mps ch" using assms(1) by (simp add: stuck_cache_def)
  have e: "65536 + c_mps ch - frag_header_len r - DTAP_CRC_LEN = (c_mps ch - frag_header_len r - DTAP_CRC_LEN) + 65536" using m by simp
  have "(c_mps ch - frag_header_len r - DTAP_CRC_LEN) mod 65536 = c_mps ch - frag_header_len r - DTAP_CRC_LEN" using assms(2) by (intro mod_less) simp
  then have "u16 (65536 + c_mps ch - frag_header_len r - DTAP_CRC_LEN) = c_mps ch - frag_header_len r - DTAP_CRC_LEN"
    unfolding e u16_def by (simp only: mod_add_self2)
  then show ?thesis
    using assms(1) by (auto simp: stuck_cache_def DTAP_TransChannelStatusChange_def DTAP_TransSendCacheBuff_def Let_def split: option.splits)
qed

lemma SlideRx_cache: "cache_kept r (DTAP_SlideRxWindow fr r)"
  by (simp add: DTAP_SlideRxWindow_def Let_def cache_kept_def split: option.splits)

lemma OperateReorder_cache: "DTAP_OperateReorderTimer r e = (r', e') \<Longrightarrow> cache_kept r r'"
  by (auto simp: DTAP_OperateReorderTimer_def Let_def cache_kept_def split: if_splits prod.splits)

lemma RecvInner_cache: "DTAP_RecvEnhanceFrameInner ch cb r e = (r', e') \<Longrightarrow> cache_kept r r'"
  by (auto simp: DTAP_RecvEnhanceFrameInner_def split: if_splits dest: recv_inner_cache)

lemma RecvEnhance_stuck:
  assumes st: "stuck_cache ch cb r" "c_mps ch < 65536" "11 < c_mps ch"
    and rv: "DTAP_RecvEnhanceFrame xmit reg ch fr cbk r e = (ret, r', e')"
  shows "stuck_cache ch cb r'"
proof -
  note keep = stuck_cache_kept [OF _ _ st(2,3)]
  obtain ret1 r1 e1 where n: "DTAP_RecvNackFrame xmit ch fr r e = (ret1, r1, e1)" by (metis prod_cases3)
  have "cache_kept r r1" using n Retrans_cache [of xmit ch "r\<lparr>reTxSeq := ack_reqSeq fr\<rparr>" e]
    by (auto simp: DTAP_RecvNackFrame_def cache_kept_def split: if_splits prod.splits)
  then have s1: "stuck_cache ch cb r1" using keep st(1) by blast
  obtain r2 e2 where sl: "DTAP_SlideTxWindow ch fr r1 e1 = (r2, e2)" by fastforce
  have s2: "stuck_cache ch cb r2" using keep [OF s1 SlideTx_cache [OF sl]] .
  obtain co m where co: "DTAP_CopyFrame fr (e_mem e2) = (co, m)" by fastforce
  show ?thesis
  proof (cases "ret1 = DTAP_SUCCESS \<and> getFrameType (fctx fr) \<noteq> DTAP_FRAME_ACK \<and> co \<noteq> None")
    case False
    then show ?thesis using rv s1 s2 unfolding DTAP_RecvEnhanceFrame_def n prod.case sl co
      by (auto simp: stuck_status [OF s2 st(2)] split: if_splits)
  next
    case True
    then obtain cp where cp: "co = Some cp" by blast
    obtain r4 e4 where op: "DTAP_OperateReorderTimer (DTAP_SlideRxWindow cp r2) (e2\<lparr>e_mem := m\<rparr>) = (r4, e4)" by fastforce
    obtain r5 e5 where inn: "DTAP_RecvEnhanceFrameInner ch cbk r4 e4 = (r5, e5)" by fastforce
    have s5: "stuck_cache ch cb r5"
      using keep [OF keep [OF keep [OF s2 SlideRx_cache] OperateReorder_cache [OF op]] RecvInner_cache [OF inn]] .
    obtain r6 e8 where ak: "(if DTAP_CheckFrameBit (fbits cp) DTAP_FRAME_P_BIT
        then (case DTAP_SendAckFrame xmit ch True False r5 e5 of (ret2, e6) \<Rightarrow>
                if ret2 \<noteq> DTAP_SUCCESS then (r5, e6)
                else case restart_timer (rspTimer r5) (rspTimeout r5) RspTimerExpire e6 of (h, e7) \<Rightarrow> (r5\<lparr>rspTimer := h\<rparr>, e7))
        else (r5, e5)) = (r6, e8)" by fastforce
    have "cache_kept r5 r6" using ak by (auto simp: cache_kept_def split: if_splits prod.splits)
    then have s6: "stuck_cache ch cb r6" using keep s5 by blast
    have "r' = r6" using rv True unfolding DTAP_RecvEnhanceFrame_def n prod.case sl co cp option.case op inn ak
      by (simp add: stuck_status [OF s6 st(2)])
    then show ?thesis using s6 by simp
  qed
qed

lemma rel_event_stuck:
  assumes st: "stuck_cache ch cb r" "c_mps ch < 65536" "11 < c_mps ch" and ev: "rel_event xmit reg ch cbk (r, e) (r', e')"
  shows "stuck_cache ch cb r'"
proof -
  note keep = stuck_cache_kept [OF st(1) _ st(2,3)]
  have ne: "cacheBuff r \<noteq> None" using st(1) by (simp add: stuck_cache_def)
  from ev show ?thesis
  proof (cases rule: rel_event.cases)
    case (Rel_Send p b ret) then show ?thesis using keep SendEnhance_cache ne by blast
  next
    case (Rel_Recv fr ret) then show ?thesis using RecvEnhance_stuck [OF st] by blast
  next
    case Rel_Rsp then show ?thesis using st(1) by (simp add: DTAP_RspTimerExpireProc_def)
  next
    case Rel_Reorder
    then have "cache_kept r r'"
      using Release_cache [of ch r e r' e'] by (auto simp: DTAP_ReorderTimerExpireProc_def cache_kept_def split: if_splits prod.splits)
    then show ?thesis by (rule keep)
  next
    case Rel_Retrans
    then have "cache_kept r r'"
      using Retrans_cache [of xmit ch "r\<lparr>reTxSeq := expectedAckSeq (txWindow r)\<rparr>" e "fst (DTAP_RetransEnhanceFrame xmit ch (r\<lparr>reTxSeq := expectedAckSeq (txWindow r)\<rparr>) e)" r' e']
      by (auto simp: DTAP_RetransTimerExpireProc_def cache_kept_def prod_eq_iff split: if_splits)
    then show ?thesis by (rule keep)
  next
    case (Rel_Status ok)
    then have "cache_kept r r'" using RecvInner_cache [of ch cbk "r\<lparr>isRxWindowFull := False\<rparr>" e r' e']
      by (auto simp: DTAP_SetTransChannelStatus_def cache_kept_def split: if_splits)
    then show ?thesis by (rule keep)
  qed
qed

text \<open>(C21) A cached unit that needs the whole window is never sent. Once a unit with at least as many fragments as the
  window has places is in the cache, whatever happens to the channel the unit stays there: in every state reached by
  sending, receiving, timers and status reports it is still cached, and \<open>DTAP_TransChannelStatusChange\<close>, however empty the
  window is, changes nothing, so that the upper layer is never told that it may send again.\<close>
theorem cached_unit_never_sent:
  assumes "stuck_cache ch cb r" "c_mps ch < 65536" "11 < c_mps ch" "(rel_event xmit reg ch cbk)\<^sup>*\<^sup>* (r, e) (r', e')"
  shows "cacheBuff r' = Some cb \<and> DTAP_TransChannelStatusChange xmit reg ch res r' e' = (r', e')"
proof -
  have "stuck_cache ch cb (fst s)" if "(rel_event xmit reg ch cbk)\<^sup>*\<^sup>* (r, e) s" for s
    using that
  proof (induction rule: rtranclp_induct)
    case base then show ?case using assms(1) by simp
  next
    case (step y z)
    then show ?case using rel_event_stuck [OF _ assms(2,3), of cb "fst y" xmit reg cbk "snd y" "fst z" "snd z"] by simp
  qed
  from this [OF assms(4)] have s: "stuck_cache ch cb r'" by simp
  then show ?thesis using stuck_status [OF s assms(2)] by (simp add: stuck_cache_def)
qed

text \<open>A window of four places, empty, and a cached unit of four fragments.\<close>

definition demo_stuck :: DTAP_ReliableChannel where
  "demo_stuck = demo_rel\<lparr>isTxWindowFull := True, cacheBuff := Some \<lparr>dataOff = 14, dataLen = 44, buffLen = 60, bytes = replicate 60 0\<rparr>\<rparr>"

theorem cached_unit_never_sent_witness:
  "cacheBuff demo_stuck \<noteq> None \<and> txList (txWindow demo_stuck) = [] \<and>
   DTAP_TransChannelStatusChange demo_xmit True demo_chan 0 demo_stuck demo_env = (demo_stuck, demo_env)"
proof -
  let ?cb = "\<lparr>dataOff = 14, dataLen = 44, buffLen = 60, bytes = replicate 60 0\<rparr>"
  have s: "stuck_cache demo_chan ?cb demo_stuck"
    by (simp add: stuck_cache_def demo_stuck_def demo_rel_def demo_chan_def frag_header_len_def DTAP_GetFragmentFramesNum_def)
  have c: "c_mps demo_chan < 65536" "11 < c_mps demo_chan" by (simp_all add: demo_chan_def)
  have "DTAP_TransChannelStatusChange demo_xmit True demo_chan 0 demo_stuck demo_env = (demo_stuck, demo_env)"
    using cached_unit_never_sent [OF s c rtranclp.rtrancl_refl] by blast
  then show ?thesis by (simp add: demo_stuck_def demo_rel_def)
qed

end
