(* ===== verification/Trans_Cltp.thy ===== *)
theory Trans_Cltp
  imports Sdf_Buff
begin

text \<open>
  The connectionless transport protocol, \<^verbatim>\<open>services/stack/src/dp/transport/src/transport_cltp.c\<close> with the header
  layouts of \<^verbatim>\<open>transport_proto.h\<close> and \<^verbatim>\<open>transport_cltp.h\<close>. A packet starts with a byte that holds the version (upper
  three bits) and the length of the options in units of four bytes (lower five bits), followed by the source and
  the destination port in network order. The options the sender writes are a bitmap and the length of the payload.
\<close>

section \<open>Codes and layout\<close>

text \<open>The codes of \<^verbatim>\<open>transport_errno.h\<close>; \<open>TransErrno\<close> is \<^verbatim>\<open>DP_MAKE_TRANS_FWK_ERRNO\<close>.\<close>

datatype trans_ret = TRANS_SUCCESS | TRANS_FAIL | TransErrno nat

abbreviation (input) TRANS_REGISTER_CBKS_NULL_PTR :: trans_ret where "TRANS_REGISTER_CBKS_NULL_PTR \<equiv> TransErrno 101"
abbreviation (input) TRANS_INIT_REGISTER_FAILED :: trans_ret where "TRANS_INIT_REGISTER_FAILED \<equiv> TransErrno 201"
abbreviation (input) TRANS_INIT_DUPLICATE_FAILED :: trans_ret where "TRANS_INIT_DUPLICATE_FAILED \<equiv> TransErrno 202"
abbreviation (input) TRANS_SEND_DATA_INVALID_PARAMS :: trans_ret where "TRANS_SEND_DATA_INVALID_PARAMS \<equiv> TransErrno 301"
abbreviation (input) TRANS_SEND_DATA_MALLOC_FAILED :: trans_ret where "TRANS_SEND_DATA_MALLOC_FAILED \<equiv> TransErrno 302"
abbreviation (input) TRANS_SEND_DATA_APPEND_FAILED :: trans_ret where "TRANS_SEND_DATA_APPEND_FAILED \<equiv> TransErrno 303"
abbreviation (input) TRANS_SEND_DATA_POST_FAILED :: trans_ret where "TRANS_SEND_DATA_POST_FAILED \<equiv> TransErrno 304"

abbreviation (input) TRANS_PROTO_VERSION :: nat where "TRANS_PROTO_VERSION \<equiv> 1"
abbreviation (input) TRANS_OPT_LEN_MULTYPLY :: nat where "TRANS_OPT_LEN_MULTYPLY \<equiv> 4"
abbreviation (input) TRANS_CLTP_OPT_PAYLOAD_MASK :: u16w where "TRANS_CLTP_OPT_PAYLOAD_MASK \<equiv> 0x0001"

text \<open>\<^verbatim>\<open>sizeof(TRANS_ProtoBasicHeader_S)\<close>, \<^verbatim>\<open>sizeof(TRANS_CltpHeader_S)\<close> and \<^verbatim>\<open>sizeof(TRANS_CltpHeaderOpts_S)\<close>.\<close>

abbreviation (input) TRANS_PROTO_BASIC_LEN :: nat where "TRANS_PROTO_BASIC_LEN \<equiv> 5"
abbreviation (input) TRANS_CLTP_HEADER_LEN :: nat where "TRANS_CLTP_HEADER_LEN \<equiv> 5"
abbreviation (input) TRANS_CLTP_OPTS_LEN :: nat where "TRANS_CLTP_OPTS_LEN \<equiv> 4"

text \<open>The two bit fields of the first byte, on a little-endian machine.\<close>

definition basic_optionLen :: "byte \<Rightarrow> nat" where
  "basic_optionLen p = unat (p AND 0x1F)"

definition basic_version :: "byte \<Rightarrow> nat" where
  "basic_version p = unat (drop_bit 5 p)"

definition basic_byte :: "nat \<Rightarrow> nat \<Rightarrow> byte" where
  "basic_byte version optionLen = push_bit 5 (of_nat version) OR (of_nat optionLen AND 0x1F)"

definition TRANS_CltpHeaderSize :: nat where
  "TRANS_CltpHeaderSize = TRANS_CLTP_HEADER_LEN + TRANS_CLTP_OPTS_LEN"

section \<open>Operations\<close>

text \<open>\<open>optionLen\<close> is a byte: at most \<open>31 * 4\<close>. The header is read before it is trimmed.\<close>

definition TRANS_CltpPktProc :: "SDF_Buff \<Rightarrow> trans_ret \<times> SDF_Buff" where
  "TRANS_CltpPktProc b =
     (let len = dataLen b; d = buff_data b;
          trim = (\<lambda>n. case SDF_BuffTrimPrefix b n of None \<Rightarrow> (TRANS_FAIL, b) | Some b1 \<Rightarrow> (TRANS_SUCCESS, b1)) in
      if len < TRANS_CLTP_HEADER_LEN then (TRANS_FAIL, b)
      else let optionLen = u8 (basic_optionLen (d ! 0) * TRANS_OPT_LEN_MULTYPLY) in
      if optionLen = 0 then trim TRANS_CLTP_HEADER_LEN
      else if len < TRANS_CLTP_HEADER_LEN + TRANS_CLTP_OPTS_LEN then (TRANS_FAIL, b)
      else if DECODE2BYTE_BIG (d ! 5) (d ! 6) AND TRANS_CLTP_OPT_PAYLOAD_MASK = 0 then (TRANS_FAIL, b)
      else let payloadLen = unat (DECODE2BYTE_BIG (d ! 7) (d ! 8)) in
      if len < TRANS_CLTP_HEADER_LEN + optionLen + payloadLen then (TRANS_FAIL, b)
      else trim (TRANS_CLTP_HEADER_LEN + optionLen))"

definition cltp_header :: "u16w \<Rightarrow> u16w \<Rightarrow> u16w \<Rightarrow> byte list" where
  "cltp_header srcPort dstPort payloadLen =
     basic_byte TRANS_PROTO_VERSION (TRANS_CLTP_OPTS_LEN div TRANS_OPT_LEN_MULTYPLY) #
     ENCODE2BYTE_BIG srcPort @ ENCODE2BYTE_BIG dstPort @
     ENCODE2BYTE_BIG TRANS_CLTP_OPT_PAYLOAD_MASK @ ENCODE2BYTE_BIG payloadLen"

text \<open>\<open>payloadLen\<close> is the length before the header is prepended, cut to sixteen bits.\<close>

definition TRANS_CltpHeaderBuild :: "u16w \<Rightarrow> u16w \<Rightarrow> SDF_Buff \<Rightarrow> trans_ret \<times> SDF_Buff" where
  "TRANS_CltpHeaderBuild srcPort dstPort b =
     (let payloadLen = of_nat (dataLen b) :: u16w in
      case SDF_BuffPrepend b TRANS_CltpHeaderSize of
        None \<Rightarrow> (TRANS_SEND_DATA_APPEND_FAILED, b)
      | Some (p, b1) \<Rightarrow> (TRANS_SUCCESS, buff_write p (cltp_header srcPort dstPort payloadLen) b1))"

section \<open>The header\<close>

lemma length_cltp_header [simp]: "length (cltp_header sp dp n) = 9"
  by (simp add: cltp_header_def)

lemma basic_optionLen_less: "basic_optionLen p < 32"
proof -
  have "p AND 0x1F \<le> 0x1F" by (rule word_and_le1)
  then have "unat (p AND 0x1F) \<le> unat (0x1F :: byte)" by (simp add: word_le_nat_alt)
  then show ?thesis by (simp add: basic_optionLen_def)
qed

lemma basic_byte_fields [codec_simps]:
  "basic_byte 1 1 = 0x21" "basic_version 0x21 = 1" "basic_optionLen 0x21 = 1"
  by (simp_all add: basic_byte_def basic_version_def basic_optionLen_def)

text \<open>What the fields of a packet are read as, position by position.\<close>

lemma cltp_header_nth [codec_simps]:
  "cltp_header sp dp n ! 0 = 0x21"
  "DECODE2BYTE_BIG (cltp_header sp dp n ! Suc 0) (cltp_header sp dp n ! 2) = sp"
  "DECODE2BYTE_BIG (cltp_header sp dp n ! 3) (cltp_header sp dp n ! 4) = dp"
  "DECODE2BYTE_BIG (cltp_header sp dp n ! 5) (cltp_header sp dp n ! 6) = 1"
  "DECODE2BYTE_BIG (cltp_header sp dp n ! 7) (cltp_header sp dp n ! 8) = n"
  by (simp_all add: cltp_header_def ENCODE2BYTE_BIG_def decode_encode_big basic_byte_fields(1) [simplified] DECODE2BYTE_BIG_def [of 0 1])

lemma TRANS_CltpHeaderBuild_ok:
  assumes "wf_buff b" "9 \<le> dataOff b"
  obtains b1 where "TRANS_CltpHeaderBuild sp dp b = (TRANS_SUCCESS, b1)" "wf_buff b1"
    "buff_data b1 = cltp_header sp dp (of_nat (dataLen b)) @ buff_data b"
    "dataOff b1 = dataOff b - 9" "dataLen b1 = dataLen b + 9" "buffLen b1 = buffLen b"
proof -
  let ?h = "cltp_header sp dp (of_nat (dataLen b))"
  obtain b1 where b1: "buff_prepend ?h b = Some b1"
    using buff_prepend_Some [of ?h b] assms(2) by auto
  then have "TRANS_CltpHeaderBuild sp dp b = (TRANS_SUCCESS, b1)"
    by (auto simp: TRANS_CltpHeaderBuild_def buff_prepend_def TRANS_CltpHeaderSize_def split: option.splits)
  with buff_prepend_SomeD [OF assms(1) b1] that show thesis by simp
qed

text \<open>A packet behind the header the sender writes: the whole header is trimmed, whatever follows the payload
  that the length field announces stays.\<close>

lemma TRANS_CltpPktProc_header:
  assumes w: "wf_buff b" and d: "buff_data b = cltp_header sp dp n @ xs" and n: "unat n \<le> length xs"
  obtains b1 where "TRANS_CltpPktProc b = (TRANS_SUCCESS, b1)" "wf_buff b1" "buff_data b1 = xs"
proof -
  let ?h = "cltp_header sp dp n"
  have len: "dataLen b = 9 + length xs" using length_buff_data [OF w] d by simp
  have nth: "buff_data b ! i = ?h ! i" if "i < 9" for i using that by (simp add: d nth_append)
  have "SDF_BuffTrimPrefix b 9 \<noteq> None" using len by (simp add: SDF_BuffTrimPrefix_def)
  then obtain b1 where b1: "SDF_BuffTrimPrefix b 9 = Some b1" by blast
  have opt: "u8 (basic_optionLen (?h ! 0) * 4) = 4" by (simp only: codec_simps) simp
  have "TRANS_CltpPktProc b = (TRANS_SUCCESS, b1)"
    using n b1 by (simp add: TRANS_CltpPktProc_def Let_def nth opt len codec_simps)
  with SDF_BuffTrimPrefix_SomeD [OF w b1] d that show thesis by simp
qed

section \<open>Properties\<close>

text \<open>(C29) Building the header and taking it off again is the identity on the data: a buffer with nine bytes of
  headroom and at most 65535 bytes of data gets a header from which the receiver reads the version, both ports and
  the length of the payload, and \<open>TRANS_CltpPktProc\<close> leaves exactly the data that was given.\<close>

theorem cltp_roundtrip:
  assumes "wf_buff b" "TRANS_CltpHeaderSize \<le> dataOff b" "dataLen b < 65536"
  shows "\<exists>b1 b2. TRANS_CltpHeaderBuild srcPort dstPort b = (TRANS_SUCCESS, b1) \<and>
    basic_version (buff_data b1 ! 0) = TRANS_PROTO_VERSION \<and>
    DECODE2BYTE_BIG (buff_data b1 ! 1) (buff_data b1 ! 2) = srcPort \<and>
    DECODE2BYTE_BIG (buff_data b1 ! 3) (buff_data b1 ! 4) = dstPort \<and>
    TRANS_CltpPktProc b1 = (TRANS_SUCCESS, b2) \<and> wf_buff b2 \<and> buff_data b2 = buff_data b"
proof -
  let ?h = "cltp_header srcPort dstPort (of_nat (dataLen b))"
  have "9 \<le> dataOff b" using assms(2) by (simp add: TRANS_CltpHeaderSize_def)
  then obtain b1 where b1: "TRANS_CltpHeaderBuild srcPort dstPort b = (TRANS_SUCCESS, b1)" "wf_buff b1"
      "buff_data b1 = ?h @ buff_data b"
    using TRANS_CltpHeaderBuild_ok [OF assms(1)] by metis
  have "unat (of_nat (dataLen b) :: u16w) \<le> length (buff_data b)" using assms(1, 3) by simp
  then obtain b2 where "TRANS_CltpPktProc b1 = (TRANS_SUCCESS, b2)" "wf_buff b2" "buff_data b2 = buff_data b"
    using TRANS_CltpPktProc_header [OF b1(2, 3)] by metis
  with b1 show ?thesis by (simp add: nth_append codec_simps)
qed

theorem cltp_roundtrip_witness:
  "\<exists>b1 b2. TRANS_CltpHeaderBuild 0x1234 7
      \<lparr>dataOff = 9, dataLen = 2, buffLen = 11, bytes = replicate 9 0 @ [5, 6]\<rparr> = (TRANS_SUCCESS, b1) \<and>
    basic_version (buff_data b1 ! 0) = TRANS_PROTO_VERSION \<and>
    DECODE2BYTE_BIG (buff_data b1 ! 1) (buff_data b1 ! 2) = 0x1234 \<and>
    DECODE2BYTE_BIG (buff_data b1 ! 3) (buff_data b1 ! 4) = 7 \<and>
    TRANS_CltpPktProc b1 = (TRANS_SUCCESS, b2) \<and> wf_buff b2 \<and>
    buff_data b2 = buff_data \<lparr>dataOff = 9, dataLen = 2, buffLen = 11, bytes = replicate 9 0 @ [5, 6]\<rparr>"
  by (rule cltp_roundtrip) (simp_all add: wf_buff_def TRANS_CltpHeaderSize_def)

end
