(* ===== verification/Nlstk_Schedule.thy ===== *)
theory Nlstk_Schedule
  imports Nl_Prelude "HOL-Library.Monad_Syntax"
begin

text \<open>
  The worker of the framework, \<^verbatim>\<open>services/stack/src/sdf/oal/thread/src/sdf_worker.c\<close>, and the scheduling of
  tasks on the control thread, \<^verbatim>\<open>services/stack/src/cp/nlstkfwk/schedule/src/nlstk_schedule.c\<close>. A worker is a queue of
  works that one thread empties in order; \<open>SchedulePostTaskBlocked\<close> posts a task and waits on a semaphore for its end,
  at most a given time.

  Threads share tasks, semaphores and the arguments of the tasks through pointers, so these blocks are cells of an
  explicit heap. An address is never used twice: an access to a freed block is an access to an empty cell, and the
  operation that makes it answers \<open>None\<close>. The works of the queue are owned by the queue and are kept in it by value.
  Each operation of this theory is one that a thread runs without being observed in between: it works on blocks that
  only its thread knows, and touches shared ones once.
\<close>

section \<open>Blocks\<close>

text \<open>\<open>'c\<close> names the functions that the clients post, \<open>'x\<close> is what the blocks of the clients hold.
  \<open>bt_freeCb\<close> tells whether the argument of a blocked task is freed with \<open>SDF_MemFree\<close> or left alone.\<close>

record 'c SDF_BlockTask =
  bt_sem :: nat
  bt_func :: 'c
  bt_freeCb :: bool
  bt_arg :: nat

datatype ('c, 'x) cell = TaskCell "'c SDF_BlockTask" | SemCell nat | DataCell 'x

text \<open>The functions of a work: \<open>RunTaskBlocked\<close> or a function of a client, and the one that frees its argument.\<close>

datatype 'c work_cb = RunTaskBlocked | ClientCb 'c

datatype free_cb = FreeBlockTask | FreeSem | MemFree

record 'c SDF_Work =
  w_cb :: "'c work_cb option"
  w_arg :: nat
  w_freeCb :: "free_cb option"

text \<open>\<open>g_schedule\<close> is the queue of the worker, \<open>None\<close> for the null pointer; \<open>g_eventHandle\<close> tells whether
  \<^verbatim>\<open>g_scheduleEventHandle\<close> is valid.\<close>

record ('c, 'x) sched_st =
  cells :: "nat \<Rightarrow> ('c, 'x) cell option"
  next_addr :: nat
  heap_mem :: mem
  g_schedule :: "'c SDF_Work list option"
  g_eventHandle :: bool

definition set_cell :: "nat \<Rightarrow> ('c, 'x) cell option \<Rightarrow> ('c, 'x) sched_st \<Rightarrow> ('c, 'x) sched_st" where
  "set_cell a v s = s\<lparr>cells := (cells s)(a := v)\<rparr>"

text \<open>A new block at the next address, and its allocation, which may fail.\<close>

definition place_cell :: "('c, 'x) cell \<Rightarrow> ('c, 'x) sched_st \<Rightarrow> ('c, 'x) sched_st" where
  "place_cell v s = (set_cell (next_addr s) (Some v) s)\<lparr>next_addr := Suc (next_addr s)\<rparr>"

definition new_cell :: "('c, 'x) cell \<Rightarrow> ('c, 'x) sched_st \<Rightarrow> nat option \<times> ('c, 'x) sched_st" where
  "new_cell v s =
     (case SDF_MemAlloc (heap_mem s) of (ok, m) \<Rightarrow>
        let s1 = s\<lparr>heap_mem := m\<rparr> in
        if ok then (Some (next_addr s1), place_cell v s1) else (None, s1))"

text \<open>\<^verbatim>\<open>SDF_MemFree\<close> of a block of the heap.\<close>

definition free_cell :: "nat \<Rightarrow> ('c, 'x) sched_st \<Rightarrow> ('c, 'x) sched_st option" where
  "free_cell a s = (if cells s a = None then None else Some (set_cell a None s))"

definition get_task :: "nat \<Rightarrow> ('c, 'x) sched_st \<Rightarrow> 'c SDF_BlockTask option" where
  "get_task a s = (case cells s a of Some (TaskCell t) \<Rightarrow> Some t | _ \<Rightarrow> None)"

definition get_sem :: "nat \<Rightarrow> ('c, 'x) sched_st \<Rightarrow> nat option" where
  "get_sem a s = (case cells s a of Some (SemCell n) \<Rightarrow> Some n | _ \<Rightarrow> None)"

definition get_data :: "nat \<Rightarrow> ('c, 'x) sched_st \<Rightarrow> 'x option" where
  "get_data a s = (case cells s a of Some (DataCell x) \<Rightarrow> Some x | _ \<Rightarrow> None)"

section \<open>Freeing arguments\<close>

definition do_FreeSem :: "nat \<Rightarrow> ('c, 'x) sched_st \<Rightarrow> ('c, 'x) sched_st option" where
  "do_FreeSem sem s = do { _ \<leftarrow> get_sem sem s; free_cell sem s }"

definition do_FreeBlockTask :: "nat \<Rightarrow> ('c, 'x) sched_st \<Rightarrow> ('c, 'x) sched_st option" where
  "do_FreeBlockTask a s = do {
     t \<leftarrow> get_task a s;
     s1 \<leftarrow> (if bt_freeCb t then free_cell (bt_arg t) s else Some s);
     free_cell a s1 }"

definition call_free :: "free_cb option \<Rightarrow> nat \<Rightarrow> ('c, 'x) sched_st \<Rightarrow> ('c, 'x) sched_st option" where
  "call_free f a s =
     (case f of
        None \<Rightarrow> Some s
      | Some FreeSem \<Rightarrow> do_FreeSem a s
      | Some FreeBlockTask \<Rightarrow> do_FreeBlockTask a s
      | Some MemFree \<Rightarrow> free_cell a s)"

section \<open>The worker\<close>

text \<open>\<open>SDF_CreateWorker\<close>: the worker and its lock, which \<open>mutexInit\<close> answers for.\<close>

definition SDF_CreateWorker :: "bool \<Rightarrow> mem \<Rightarrow> 'c SDF_Work list option \<times> mem" where
  "SDF_CreateWorker mutexInit m =
     (case SDF_MemAlloc m of (ok, m1) \<Rightarrow>
        if \<not> ok then (None, m1)
        else case SDF_MemAlloc m1 of (ok2, m2) \<Rightarrow> if ok2 \<and> mutexInit then (Some [], m2) else (None, m2))"

definition SDF_AddWork :: "'c work_cb option \<Rightarrow> nat \<Rightarrow> free_cb option \<Rightarrow> ('c, 'x) sched_st \<Rightarrow> bool \<times> ('c, 'x) sched_st" where
  "SDF_AddWork cb arg freeCb s =
     (case g_schedule s of
        None \<Rightarrow> (False, s)
      | Some q \<Rightarrow>
          (case SDF_MemAlloc (heap_mem s) of (ok, m) \<Rightarrow>
             let s1 = s\<lparr>heap_mem := m\<rparr> in
             if \<not> ok then (False, s1)
             else (True, s1\<lparr>g_schedule := Some (q @ [\<lparr>w_cb = cb, w_arg = arg, w_freeCb = freeCb\<rparr>])\<rparr>)))"

text \<open>The head of the queue, taken off under the lock by \<open>SDF_WorkerRunOnce\<close>.\<close>

definition pop_work :: "('c, 'x) sched_st \<Rightarrow> ('c SDF_Work \<times> ('c, 'x) sched_st) option" where
  "pop_work s =
     (case g_schedule s of Some (w # ws) \<Rightarrow> Some (w, s\<lparr>g_schedule := Some ws\<rparr>) | _ \<Rightarrow> None)"

fun free_works :: "'c SDF_Work list \<Rightarrow> ('c, 'x) sched_st \<Rightarrow> ('c, 'x) sched_st option" where
  "free_works [] s = Some s"
| "free_works (w # ws) s = do { s1 \<leftarrow> call_free (w_freeCb w) (w_arg w) s; free_works ws s1 }"

definition SDF_DestroyWorker :: "('c, 'x) sched_st \<Rightarrow> ('c, 'x) sched_st option" where
  "SDF_DestroyWorker s = (case g_schedule s of None \<Rightarrow> Some s | Some q \<Rightarrow> free_works q s)"

section \<open>Scheduling\<close>

text \<open>\<open>ScheduleThreadCreate\<close>: \<open>mutexInit\<close>, \<open>evc\<close> and \<open>ev\<close> are the answers of the lock, of
  \<open>SDF_EvcInstanceCreate\<close> and of \<open>SDF_EventAdd\<close>.\<close>

definition ScheduleThreadCreate :: "bool \<Rightarrow> bool \<Rightarrow> bool \<Rightarrow> ('c, 'x) sched_st \<Rightarrow> bool \<times> ('c, 'x) sched_st" where
  "ScheduleThreadCreate mutexInit evc ev s =
     (case SDF_CreateWorker mutexInit (heap_mem s) of
        (None, m) \<Rightarrow> (False, s\<lparr>heap_mem := m\<rparr>)
      | (Some q, m) \<Rightarrow>
          if evc \<and> ev then (True, s\<lparr>heap_mem := m, g_schedule := Some q, g_eventHandle := True\<rparr>)
          else (False, s\<lparr>heap_mem := m\<rparr>))"

definition ScheduleEnable :: "bool \<Rightarrow> bool \<Rightarrow> bool \<Rightarrow> ('c, 'x) sched_st \<Rightarrow> bool \<times> ('c, 'x) sched_st" where
  "ScheduleEnable mutexInit evc ev s =
     (if g_schedule s \<noteq> None then (True, s) else ScheduleThreadCreate mutexInit evc ev s)"

definition ScheduleDisable :: "('c, 'x) sched_st \<Rightarrow> ('c, 'x) sched_st option" where
  "ScheduleDisable s = do {
     s1 \<leftarrow> SDF_DestroyWorker (s\<lparr>g_eventHandle := False\<rparr>);
     Some (s1\<lparr>g_schedule := None\<rparr>) }"

text \<open>A failed \<open>SDF_EventPost\<close> is only logged.\<close>

definition SchedulePostTask :: "'c work_cb option \<Rightarrow> nat \<Rightarrow> free_cb option \<Rightarrow> ('c, 'x) sched_st \<Rightarrow> (bool \<times> ('c, 'x) sched_st) option" where
  "SchedulePostTask cb arg freeCb s =
     (if g_schedule s = None \<or> \<not> g_eventHandle s
      then do { s1 \<leftarrow> call_free freeCb arg s; Some (False, s1) }
      else case SDF_AddWork cb arg freeCb s of (ok, s1) \<Rightarrow>
        if ok then Some (True, s1)
        else do { s2 \<leftarrow> call_free freeCb arg s1; Some (False, s2) })"

text \<open>\<open>SchedulePostTaskBlocked\<close> up to the wait; the result is the semaphore to wait on, or none when the call
  has failed. \<open>semInit\<close> is the answer of \<open>SDF_SemInit\<close>.\<close>

definition PostTaskBlocked_begin :: "'c \<Rightarrow> nat \<Rightarrow> bool \<Rightarrow> bool \<Rightarrow> ('c, 'x) sched_st \<Rightarrow> (nat option \<times> ('c, 'x) sched_st) option" where
  "PostTaskBlocked_begin cb arg freeCb semInit s =
     (case new_cell (TaskCell \<lparr>bt_sem = 0, bt_func = cb, bt_freeCb = freeCb, bt_arg = arg\<rparr>) s of
        (None, s1) \<Rightarrow> do { s2 \<leftarrow> (if freeCb then free_cell arg s1 else Some s1); Some (None, s2) }
      | (Some task, s1) \<Rightarrow>
      case new_cell (SemCell 0) s1 of
        (None, s2) \<Rightarrow> do { s3 \<leftarrow> do_FreeBlockTask task s2; Some (None, s3) }
      | (Some sem, s2) \<Rightarrow>
          let s3 = set_cell task (Some (TaskCell \<lparr>bt_sem = sem, bt_func = cb, bt_freeCb = freeCb, bt_arg = arg\<rparr>)) s2 in
          if \<not> semInit then do { s4 \<leftarrow> free_cell sem s3; s5 \<leftarrow> do_FreeBlockTask task s4; Some (None, s5) }
          else do {
            (ok, s4) \<leftarrow> SchedulePostTask (Some RunTaskBlocked) task (Some FreeBlockTask) s3;
            if ok then Some (Some sem, s4) else do { s5 \<leftarrow> do_FreeSem sem s4; Some (None, s5) } })"

text \<open>The wait: it ends with the semaphore taken, when its count is positive, or with a time-out at any moment.\<close>

definition SemTimeWait_ok :: "nat \<Rightarrow> ('c, 'x) sched_st \<Rightarrow> ('c, 'x) sched_st option" where
  "SemTimeWait_ok sem s = do { n \<leftarrow> get_sem sem s; if 0 < n then Some (set_cell sem (Some (SemCell (n - 1))) s) else None }"

text \<open>What follows a time-out: the semaphore is left to the worker, behind the task that will still post it.\<close>

definition PostTaskBlocked_timeout :: "nat \<Rightarrow> ('c, 'x) sched_st \<Rightarrow> ('c, 'x) sched_st option" where
  "PostTaskBlocked_timeout sem s = do { (_, s1) \<leftarrow> SchedulePostTask None sem (Some FreeSem) s; Some s1 }"

text \<open>The end of \<open>RunTaskBlocked\<close>, after the function of the task.\<close>

definition RunTaskBlocked_post :: "nat \<Rightarrow> ('c, 'x) sched_st \<Rightarrow> ('c, 'x) sched_st option" where
  "RunTaskBlocked_post task s = do {
     t \<leftarrow> get_task task s;
     n \<leftarrow> get_sem (bt_sem t) s;
     Some (set_cell (bt_sem t) (Some (SemCell (Suc n))) s) }"

end
