(* ===== verification/Dtap_Basic.thy ===== *)
theory Dtap_Basic
  imports Dtap_Env
begin

text \<open>
  The two modes without sequence numbers: the basic mode, \<^verbatim>\<open>services/stack/src/dp/dtap/src/dtap_trans_basic.c\<close>, which
  keeps received frames back until the upper layer is ready for them, and the transparent mode,
  \<^verbatim>\<open>dtap_trans_transparent.c\<close>, which passes data through without framing.
\<close>

section \<open>Basic mode\<close>

record DTAP_BasicCacheFrame =
  bc_buff :: SDF_Buff
  bc_info :: DTAP_Data_Info
  bc_recvCb :: "recv_cb option"

record DTAP_Basic_Channel =
  isReady :: bool
  cacheRxBuffs :: "DTAP_BasicCacheFrame list"

abbreviation (input) DTAP_BASIC_MODE_MAX_CACHE_NUM :: nat where "DTAP_BASIC_MODE_MAX_CACHE_NUM \<equiv> 64"

definition DTAP_CreateBasicCacheFrame :: "SDF_Buff \<Rightarrow> DTAP_Data_Info \<Rightarrow> recv_cb option \<Rightarrow> mem \<Rightarrow> DTAP_BasicCacheFrame option \<times> mem" where
  "DTAP_CreateBasicCacheFrame b info recvCb m =
     (case SDF_MemAlloc m of (ok, m1) \<Rightarrow>
        if \<not> ok then (None, m1)
        else case SDF_BuffCopy b m1 of
          (None, m2) \<Rightarrow> (None, m2)
        | (Some cb, m2) \<Rightarrow> (Some \<lparr>bc_buff = cb, bc_info = info, bc_recvCb = recvCb\<rparr>, m2))"

text \<open>The loop of \<open>DTAP_RecvBasicFrameContinue\<close> over the cached frames.\<close>

fun deliver_cached :: "DTAP_BasicCacheFrame list \<Rightarrow> 'w env \<Rightarrow> 'w env" where
  "deliver_cached [] e = e"
| "deliver_cached (f # fs) e =
     deliver_cached fs (e\<lparr>e_dl := snd (upcall (bc_recvCb f) (bc_info f) (buff_data (bc_buff f)) (e_dl e))\<rparr>)"

definition DTAP_RecvBasicFrameContinue :: "DTAP_Basic_Channel \<Rightarrow> 'w env \<Rightarrow> DTAP_Basic_Channel \<times> 'w env" where
  "DTAP_RecvBasicFrameContinue bc e = (bc\<lparr>isReady := True, cacheRxBuffs := []\<rparr>, deliver_cached (cacheRxBuffs bc) e)"

definition DTAP_CheckBasicFrame :: "DTAP_Frame \<Rightarrow> bool" where
  "DTAP_CheckBasicFrame fr \<longleftrightarrow> unat (frame_typeBits fr AND 0x0F) = DTAP_FRAME_BASIC"

definition DTAP_RecvBasicFrame :: "chan_info \<Rightarrow> DTAP_Frame \<Rightarrow> recv_cb option \<Rightarrow> DTAP_Basic_Channel \<Rightarrow> 'w env \<Rightarrow>
    dtap_ret \<times> DTAP_Basic_Channel \<times> 'w env" where
  "DTAP_RecvBasicFrame ch fr recvCb bc e =
     (case (case fbuff fr of None \<Rightarrow> None | Some b \<Rightarrow> SDF_BuffTrimPrefix b (headerLen fr)) of
        None \<Rightarrow> (DTAP_TRANS_BASIC_RECV_TRIM_PRE_ERR, bc, e)
      | Some b \<Rightarrow>
          let info = \<lparr>info_pi = fpi fr, info_lcid = c_lcid ch, info_tcid = c_srcTcid ch\<rparr> in
          if \<not> isReady bc then
            (if \<not> length (cacheRxBuffs bc) \<le> DTAP_BASIC_MODE_MAX_CACHE_NUM then (DTAP_TRANS_BASIC_CACHE_OVERFLOW_ERR, bc, e)
             else case DTAP_CreateBasicCacheFrame b info recvCb (e_mem e) of
               (None, m) \<Rightarrow> (DTAP_TRANS_BASIC_CREATE_FRAME_ERR, bc, e\<lparr>e_mem := m\<rparr>)
             | (Some f, m) \<Rightarrow> (DTAP_SUCCESS, bc\<lparr>cacheRxBuffs := cacheRxBuffs bc @ [f]\<rparr>, e\<lparr>e_mem := m\<rparr>))
          else (DTAP_SUCCESS, bc, e\<lparr>e_dl := snd (upcall recvCb info (buff_data b) (e_dl e))\<rparr>))"

definition DTAP_SendBasicFrame :: "'w xmit \<Rightarrow> chan_info \<Rightarrow> byte \<Rightarrow> SDF_Buff \<Rightarrow> 'w env \<Rightarrow> dtap_ret \<times> 'w env" where
  "DTAP_SendBasicFrame xmit ch p b e =
     (case DTAP_GetFrameCtx DTAP_FRAME_BASIC g_dtapFrameCtx of
        None \<Rightarrow> (DTAP_TRANS_BASIC_SEND_GET_CTX_ERR, e)
      | Some ctx \<Rightarrow>
          let fr = (frame0 ctx)\<lparr>fpi := p, fbuff := Some b\<rparr> in
          (case buildFrame ctx (c_dstTcid ch) 0 fr (e_mem e) of (ret, fr', m) \<Rightarrow>
             let e1 = e\<lparr>e_mem := m\<rparr> in
             if ret \<noteq> DTAP_SUCCESS then (ret, e1) else transmit xmit (fbuff fr') e1))"

section \<open>Transparent mode\<close>

definition DTAP_SendTransparentFrame :: "'w xmit \<Rightarrow> chan_info \<Rightarrow> byte \<Rightarrow> SDF_Buff \<Rightarrow> 'w env \<Rightarrow> dtap_ret \<times> 'w env" where
  "DTAP_SendTransparentFrame xmit ch p b e =
     (if dataLen b > c_mps ch then (DTAP_TRANS_TRANSPARENT_PACK_EXCEED_MPS, e) else transmit xmit (Some b) e)"

definition DTAP_TransparentTransFrame :: "chan_info \<Rightarrow> SDF_Buff \<Rightarrow> recv_cb option \<Rightarrow> 'w env \<Rightarrow> 'w env" where
  "DTAP_TransparentTransFrame ch b recvCb e =
     (let info = \<lparr>info_pi = 0, info_lcid = c_lcid ch, info_tcid = c_srcTcid ch\<rparr> in
      e\<lparr>e_dl := snd (upcall recvCb info (buff_data b) (e_dl e))\<rparr>)"

section \<open>The cache of the basic mode\<close>

text \<open>A received frame as the parser leaves it, and the upcall it is to cause.\<close>

definition basic_frame :: "DTAP_Frame \<Rightarrow> bool" where
  "basic_frame fr \<longleftrightarrow> (\<exists>b. fbuff fr = Some b \<and> wf_buff b \<and> headerLen fr \<le> dataLen b)"

definition basic_upcall :: "chan_info \<Rightarrow> DTAP_Frame \<Rightarrow> DTAP_Data_Info \<times> byte list" where
  "basic_upcall ch fr = (\<lparr>info_pi = fpi fr, info_lcid = c_lcid ch, info_tcid = c_srcTcid ch\<rparr>,
     (case fbuff fr of None \<Rightarrow> [] | Some b \<Rightarrow> drop (headerLen fr) (buff_data b)))"

fun recv_basic_frames :: "chan_info \<Rightarrow> recv_cb option \<Rightarrow> DTAP_Frame list \<Rightarrow> DTAP_Basic_Channel \<Rightarrow> 'w env \<Rightarrow>
    dtap_ret list \<times> DTAP_Basic_Channel \<times> 'w env" where
  "recv_basic_frames ch recvCb [] bc e = ([], bc, e)"
| "recv_basic_frames ch recvCb (fr # frs) bc e =
     (case DTAP_RecvBasicFrame ch fr recvCb bc e of (ret, bc1, e1) \<Rightarrow>
      case recv_basic_frames ch recvCb frs bc1 e1 of (rets, bc2, e2) \<Rightarrow> (ret # rets, bc2, e2))"

definition cached_upcall :: "DTAP_BasicCacheFrame \<Rightarrow> DTAP_Data_Info \<times> byte list" where
  "cached_upcall f = (bc_info f, buff_data (bc_buff f))"

lemma basic_frame_trim:
  assumes "basic_frame fr"
  obtains b b1 where "fbuff fr = Some b" "SDF_BuffTrimPrefix b (headerLen fr) = Some b1" "wf_buff b1"
    "buff_data b1 = drop (headerLen fr) (buff_data b)"
proof -
  obtain b where b: "fbuff fr = Some b" "wf_buff b" "headerLen fr \<le> dataLen b" using assms by (auto simp: basic_frame_def)
  obtain b1 where b1: "SDF_BuffTrimPrefix b (headerLen fr) = Some b1" using b(3) by (simp add: SDF_BuffTrimPrefix_def)
  show thesis using that [OF b(1) b1] SDF_BuffTrimPrefix_SomeD [OF b(2) b1] by simp
qed

lemma upcalls_upcall: "upcalls (snd (upcall (Some cb) info dat dl)) = upcalls dl @ [(info, dat)]"
  by (simp add: upcall_def call_recv_def upcalls_def)

lemma recv_basic_ready:
  assumes "basic_frame fr" "isReady bc"
  shows "\<exists>dl. DTAP_RecvBasicFrame ch fr (Some cb) bc e = (DTAP_SUCCESS, bc, e\<lparr>e_dl := dl\<rparr>) \<and>
    upcalls dl = upcalls (e_dl e) @ [basic_upcall ch fr]"
proof -
  obtain b b1 where b: "fbuff fr = Some b" "SDF_BuffTrimPrefix b (headerLen fr) = Some b1"
    "buff_data b1 = drop (headerLen fr) (buff_data b)" using basic_frame_trim [OF assms(1)] by metis
  show ?thesis
    using assms(2) b by (auto simp: DTAP_RecvBasicFrame_def Let_def basic_upcall_def upcalls_upcall)
qed

lemma recv_basic_caches:
  assumes "basic_frame fr" "\<not> isReady bc" "length (cacheRxBuffs bc) \<le> 64" "mem_ok (e_mem e)"
  shows "\<exists>f m. DTAP_RecvBasicFrame ch fr recvCb bc e =
      (DTAP_SUCCESS, bc\<lparr>cacheRxBuffs := cacheRxBuffs bc @ [f]\<rparr>, e\<lparr>e_mem := m\<rparr>) \<and>
    mem_ok m \<and> cached_upcall f = basic_upcall ch fr \<and> bc_recvCb f = recvCb"
proof -
  obtain b b1 where b: "fbuff fr = Some b" "SDF_BuffTrimPrefix b (headerLen fr) = Some b1" "wf_buff b1"
    "buff_data b1 = drop (headerLen fr) (buff_data b)" using basic_frame_trim [OF assms(1)] by metis
  obtain m1 where m1: "SDF_MemAlloc (e_mem e) = (True, m1)" "mem_ok m1" using assms(4) by (rule SDF_MemAlloc_okE)
  obtain m2 where m2: "SDF_BuffCopy b1 m1 = (Some b1, m2)" "mem_ok m2" using SDF_BuffCopy_ok m1(2) b(3) by blast
  show ?thesis
    by (rule exI [of _ "\<lparr>bc_buff = b1, bc_info = \<lparr>info_pi = fpi fr, info_lcid = c_lcid ch, info_tcid = c_srcTcid ch\<rparr>,
          bc_recvCb = recvCb\<rparr>"], rule exI [of _ m2])
      (use assms(2,3) b m1 m2 in \<open>simp add: DTAP_RecvBasicFrame_def DTAP_CreateBasicCacheFrame_def Let_def
          basic_upcall_def cached_upcall_def\<close>)
qed

lemma recv_basic_full:
  assumes "basic_frame fr" "\<not> isReady bc" "64 < length (cacheRxBuffs bc)"
  shows "DTAP_RecvBasicFrame ch fr recvCb bc e = (DTAP_TRANS_BASIC_CACHE_OVERFLOW_ERR, bc, e)"
proof -
  obtain b b1 where "fbuff fr = Some b" "SDF_BuffTrimPrefix b (headerLen fr) = Some b1" using basic_frame_trim [OF assms(1)] by metis
  then show ?thesis using assms(2,3) by (simp add: DTAP_RecvBasicFrame_def Let_def)
qed

lemma recv_basic_frames_cached:
  assumes "\<forall>fr\<in>set frs. basic_frame fr" "\<not> isReady bc" "length (cacheRxBuffs bc) + length frs \<le> 65" "mem_ok (e_mem e)"
  shows "\<exists>fs m. recv_basic_frames ch (Some cb) frs bc e =
      (replicate (length frs) DTAP_SUCCESS, bc\<lparr>cacheRxBuffs := cacheRxBuffs bc @ fs\<rparr>, e\<lparr>e_mem := m\<rparr>) \<and>
    map cached_upcall fs = map (basic_upcall ch) frs \<and> (\<forall>f\<in>set fs. bc_recvCb f = Some cb)"
  using assms
proof (induction frs arbitrary: bc e)
  case Nil
  have "bc = bc\<lparr>cacheRxBuffs := cacheRxBuffs bc\<rparr>" "e = e\<lparr>e_mem := e_mem e\<rparr>" by simp_all
  then show ?case by (intro exI [of _ "[]"] exI [of _ "e_mem e"]) simp
next
  case (Cons fr frs)
  obtain f m where f: "DTAP_RecvBasicFrame ch fr (Some cb) bc e =
      (DTAP_SUCCESS, bc\<lparr>cacheRxBuffs := cacheRxBuffs bc @ [f]\<rparr>, e\<lparr>e_mem := m\<rparr>)"
    "mem_ok m" "cached_upcall f = basic_upcall ch fr" "bc_recvCb f = Some cb"
    using recv_basic_caches [of fr bc e ch "Some cb"] Cons.prems by auto
  let ?bc = "bc\<lparr>cacheRxBuffs := cacheRxBuffs bc @ [f]\<rparr>"
  obtain fs m' where "recv_basic_frames ch (Some cb) frs ?bc (e\<lparr>e_mem := m\<rparr>) =
      (replicate (length frs) DTAP_SUCCESS, ?bc\<lparr>cacheRxBuffs := cacheRxBuffs ?bc @ fs\<rparr>, e\<lparr>e_mem := m'\<rparr>)"
    "map cached_upcall fs = map (basic_upcall ch) frs" "\<forall>f\<in>set fs. bc_recvCb f = Some cb"
    using Cons.IH [of ?bc "e\<lparr>e_mem := m\<rparr>"] Cons.prems f(2) by auto
  then show ?case using f by (intro exI [of _ "f # fs"] exI [of _ m']) simp
qed

lemma deliver_cached_upcalls:
  assumes "\<forall>f\<in>set fs. bc_recvCb f = Some cb"
  shows "\<exists>dl. deliver_cached fs e = e\<lparr>e_dl := dl\<rparr> \<and> upcalls dl = upcalls (e_dl e) @ map cached_upcall fs"
  using assms
proof (induction fs arbitrary: e)
  case Nil
  have "e = e\<lparr>e_dl := e_dl e\<rparr>" by simp
  then show ?case by (intro exI [of _ "e_dl e"]) simp
next
  case (Cons f fs)
  let ?e = "e\<lparr>e_dl := snd (upcall (bc_recvCb f) (bc_info f) (buff_data (bc_buff f)) (e_dl e))\<rparr>"
  have "upcalls (e_dl ?e) = upcalls (e_dl e) @ [cached_upcall f]"
    using Cons.prems by (simp add: upcalls_upcall cached_upcall_def)
  moreover obtain dl where "deliver_cached fs ?e = ?e\<lparr>e_dl := dl\<rparr>" "upcalls dl = upcalls (e_dl ?e) @ map cached_upcall fs"
    using Cons.IH [of ?e] Cons.prems by auto
  ultimately show ?case by (intro exI [of _ dl]) simp
qed

text \<open>(C27) No frame that reaches a basic channel before the upper layer is ready is lost or overtaken. Up to
  sixty-five frames are all taken without a single upcall; when the channel is told to continue, each
  of them is handed up once, in the order of arrival; and the next frame goes straight up behind them.
  One frame more than that is refused as an overflow and leaves the channel as it is.\<close>

theorem basic_cache_delivers_in_order:
  assumes "\<forall>fr\<in>set frs. basic_frame fr" "basic_frame nxt" "\<not> isReady bc" "cacheRxBuffs bc = []" "mem_ok (e_mem e)"
    "length frs \<le> 65"
  shows "\<exists>bc1 e1 bc2 e2 e3.
    recv_basic_frames ch (Some cb) frs bc e = (replicate (length frs) DTAP_SUCCESS, bc1, e1) \<and> e_dl e1 = e_dl e \<and>
    DTAP_RecvBasicFrameContinue bc1 e1 = (bc2, e2) \<and> upcalls (e_dl e2) = upcalls (e_dl e) @ map (basic_upcall ch) frs \<and>
    cacheRxBuffs bc2 = [] \<and> DTAP_RecvBasicFrame ch nxt (Some cb) bc2 e2 = (DTAP_SUCCESS, bc2, e3) \<and>
    upcalls (e_dl e3) = upcalls (e_dl e) @ map (basic_upcall ch) frs @ [basic_upcall ch nxt] \<and>
    (length frs = 65 \<longrightarrow> DTAP_RecvBasicFrame ch nxt (Some cb) bc1 e1 = (DTAP_TRANS_BASIC_CACHE_OVERFLOW_ERR, bc1, e1))"
proof -
  obtain fs m where r: "recv_basic_frames ch (Some cb) frs bc e =
      (replicate (length frs) DTAP_SUCCESS, bc\<lparr>cacheRxBuffs := fs\<rparr>, e\<lparr>e_mem := m\<rparr>)"
    and fs: "map cached_upcall fs = map (basic_upcall ch) frs" "\<forall>f\<in>set fs. bc_recvCb f = Some cb"
    using recv_basic_frames_cached [of frs bc e ch cb] assms by auto
  let ?bc1 = "bc\<lparr>cacheRxBuffs := fs\<rparr>" and ?e1 = "e\<lparr>e_mem := m\<rparr>"
  let ?bc2 = "?bc1\<lparr>isReady := True, cacheRxBuffs := []\<rparr>"
  obtain dl where dl: "deliver_cached fs ?e1 = ?e1\<lparr>e_dl := dl\<rparr>" "upcalls dl = upcalls (e_dl e) @ map (basic_upcall ch) frs"
    using deliver_cached_upcalls [OF fs(2), of ?e1] fs(1) by auto
  have c: "DTAP_RecvBasicFrameContinue ?bc1 ?e1 = (?bc2, ?e1\<lparr>e_dl := dl\<rparr>)" using dl(1) by (simp add: DTAP_RecvBasicFrameContinue_def)
  obtain dl3 where n: "DTAP_RecvBasicFrame ch nxt (Some cb) ?bc2 (?e1\<lparr>e_dl := dl\<rparr>) = (DTAP_SUCCESS, ?bc2, ?e1\<lparr>e_dl := dl3\<rparr>)"
    "upcalls dl3 = upcalls dl @ [basic_upcall ch nxt]"
    using recv_basic_ready [OF assms(2), of ?bc2 ch cb "?e1\<lparr>e_dl := dl\<rparr>"] by auto
  have "length fs = length frs" using fs(1) by (metis length_map)
  then have f: "length frs = 65 \<longrightarrow> DTAP_RecvBasicFrame ch nxt (Some cb) ?bc1 ?e1 = (DTAP_TRANS_BASIC_CACHE_OVERFLOW_ERR, ?bc1, ?e1)"
    using recv_basic_full [OF assms(2), of ?bc1] assms(3) by auto
  show ?thesis
    by (intro exI [of _ ?bc1] exI [of _ ?e1] exI [of _ ?bc2] exI [of _ "?e1\<lparr>e_dl := dl\<rparr>"] exI [of _ "?e1\<lparr>e_dl := dl3\<rparr>"] conjI)
      (use r c n f dl(2) in \<open>simp_all\<close>)
qed

text \<open>Witness: two frames of a service management channel that wait, and a third that does not.\<close>

definition demo_basic :: "byte \<Rightarrow> byte \<Rightarrow> DTAP_Frame" where
  "demo_basic p x = (frame0 CtxBasic)\<lparr>fpi := p, headerLen := 4,
     fbuff := Some \<lparr>dataOff = 0, dataLen = 5, buffLen = 5, bytes = [0x0A, 0, 1, 0, x]\<rparr>\<rparr>"

definition demo_basic_chan :: chan_info where
  "demo_basic_chan = \<lparr>c_lcid = 1, c_srcTcid = 0x0A, c_dstTcid = 0x0A, c_mode = 0, c_mtu = 512, c_mps = 512,
     c_castMode = 0, c_type = 0, c_priority = 2\<rparr>"

definition demo_basic_env :: "unit env" where
  "demo_basic_env = \<lparr>e_mem = [], e_tim = \<lparr>tscript = [], tnext = 0, armed = []\<rparr>, e_clock = [], e_dl = [], e_known = True,
     e_release = [], e_status = [], e_tx = ()\<rparr>"

theorem basic_cache_delivers_in_order_witness:
  "\<exists>bc1 e1 bc2 e2.
     recv_basic_frames demo_basic_chan (Some (\<lambda>_ _ _. DTAP_SUCCESS)) [demo_basic 0 7, demo_basic 0 9]
       \<lparr>isReady = False, cacheRxBuffs = []\<rparr> demo_basic_env = ([DTAP_SUCCESS, DTAP_SUCCESS], bc1, e1) \<and>
     DTAP_RecvBasicFrameContinue bc1 e1 = (bc2, e2) \<and>
     upcalls (e_dl e2) = [basic_upcall demo_basic_chan (demo_basic 0 7), basic_upcall demo_basic_chan (demo_basic 0 9)]"
proof -
  let ?frs = "[demo_basic 0 7, demo_basic 0 9]"
  have f: "basic_frame (demo_basic p x)" for p x by (simp add: demo_basic_def basic_frame_def wf_buff_def)
  then have fs: "\<forall>fr\<in>set ?frs. basic_frame fr" by simp
  have e: "mem_ok (e_mem demo_basic_env)" "upcalls (e_dl demo_basic_env) = []" by (simp_all add: demo_basic_env_def upcalls_def)
  have l: "replicate (length ?frs) DTAP_SUCCESS = [DTAP_SUCCESS, DTAP_SUCCESS]" by (simp add: numeral_2_eq_2)
  from basic_cache_delivers_in_order [OF fs f, of "\<lparr>isReady = False, cacheRxBuffs = []\<rparr>" demo_basic_env demo_basic_chan
      "\<lambda>_ _ _. DTAP_SUCCESS"]
  show ?thesis unfolding l using e by (simp del: recv_basic_frames.simps) blast
qed

end
