(* ===== verification/Dtap_Stream.thy ===== *)
theory Dtap_Stream
  imports Dtap_Env Dtap_Reseq
begin

text \<open>
  The stream mode, \<^verbatim>\<open>services/stack/src/dp/dtap/src/dtap_trans_stream.c\<close>: unacknowledged frames that the receiver puts
  back into sequence. A frame that is early waits in \<open>s_rxList\<close>, and a timer is to give up on the
  frames that are missing.
\<close>

section \<open>State\<close>

record StreamRxNode =
  n_sar :: nat
  n_txSeq :: u16w
  n_buff :: SDF_Buff
  n_timeStamp :: nat
  n_pi :: byte
  n_lcid :: u16w
  n_tcid :: byte

record DTAP_Stream_Channel =
  flushTimeout :: nat
  s_reorderTimeout :: nat
  s_crcInit :: u16w
  reorderTxSeq :: u16w
  expectedSeq :: u16w
  maxExpectedSeq :: u16w
  frameTxSeq :: u16w
  reorderTimerHandle :: int
  s_rxList :: "StreamRxNode list"
  s_recvCb :: "recv_cb option"

abbreviation (input) DTAP_STREAM_CACHE_MAX :: nat where "DTAP_STREAM_CACHE_MAX \<equiv> 256"

section \<open>Receiving\<close>

definition DTAP_CheckStreamFrame :: "DTAP_Frame \<Rightarrow> bool" where
  "DTAP_CheckStreamFrame fr =
     (let frameType = unat (frame_typeBits fr AND 0x0F) in
      frameType = DTAP_FRAME_SIMPLEX_FRAG \<or> frameType = DTAP_FRAME_SIMPLEX_AGGR)"

definition NewStreamRxNode :: "SDF_Buff \<Rightarrow> mem \<Rightarrow> StreamRxNode option \<times> mem" where
  "NewStreamRxNode b m =
     (case SDF_MemAlloc m of (ok, m1) \<Rightarrow>
        if \<not> ok then (None, m1)
        else case SDF_BuffCopy b m1 of
          (None, m2) \<Rightarrow> (None, m2)
        | (Some cb, m2) \<Rightarrow> (Some \<lparr>n_sar = 0, n_txSeq = 0, n_buff = cb, n_timeStamp = 0, n_pi = 0, n_lcid = 0, n_tcid = 0\<rparr>, m2))"

definition InsertStreamRxNode :: "StreamRxNode list \<Rightarrow> StreamRxNode \<Rightarrow> StreamRxNode list" where
  "InsertStreamRxNode l node = insert_by_seq n_txSeq node l"

definition FindStreamRxNode :: "StreamRxNode list \<Rightarrow> u16w \<Rightarrow> StreamRxNode option" where
  "FindStreamRxNode l s = find_first (\<lambda>n. n_txSeq n = s) l"

definition RecvCallback :: "chan_info \<Rightarrow> SDF_Buff \<Rightarrow> byte \<Rightarrow> DTAP_Stream_Channel \<Rightarrow> 'w env \<Rightarrow> 'w env" where
  "RecvCallback ch b p st e =
     (let info = \<lparr>info_pi = p, info_lcid = c_lcid ch, info_tcid = c_srcTcid ch\<rparr> in
      e\<lparr>e_dl := snd (upcall (s_recvCb st) info (buff_data b) (e_dl e))\<rparr>)"

definition StopReorderTimer :: "DTAP_Stream_Channel \<Rightarrow> 'w env \<Rightarrow> DTAP_Stream_Channel \<times> 'w env" where
  "StopReorderTimer st e =
     (if reorderTimerHandle st \<noteq> INVALID_TIMER_HANDLE
      then (st\<lparr>reorderTimerHandle := INVALID_TIMER_HANDLE\<rparr>, e\<lparr>e_tim := CP_TimerDel (reorderTimerHandle st) (e_tim e)\<rparr>)
      else (st, e))"

text \<open>The loop of \<open>StartReorderTimer\<close> over the waiting frames: the oldest time stamp, and the number of the
  frame that has it.\<close>

fun oldest_node :: "StreamRxNode list \<Rightarrow> nat \<Rightarrow> u16w \<Rightarrow> nat \<times> u16w" where
  "oldest_node [] t s = (t, s)"
| "oldest_node (n # ns) t s = (if n_timeStamp n < t then oldest_node ns (n_timeStamp n) (n_txSeq n) else oldest_node ns t s)"

definition StartReorderTimer :: "DTAP_Stream_Channel \<Rightarrow> 'w env \<Rightarrow> DTAP_Stream_Channel \<times> 'w env" where
  "StartReorderTimer st e =
     (if expectedSeq st \<noteq> maxExpectedSeq st then
        case DP_GetMonoTimeMs e of (now, e1) \<Rightarrow>
        case oldest_node (s_rxList st) now (reorderTxSeq st) of (minTimeStamp, s) \<Rightarrow>
        let diff = now - minTimeStamp;
            expires = (if diff > s_reorderTimeout st then 0 else s_reorderTimeout st - diff) in
        case CP_TimerAdd (reorderTimerHandle st) expires StreamReorderExpire (e_tim e1) of (_, h, t) \<Rightarrow>
          (st\<lparr>reorderTxSeq := s, reorderTimerHandle := h\<rparr>, e1\<lparr>e_tim := t\<rparr>)
      else (st, e))"

function ReportExpectedStreamFrame :: "chan_info \<Rightarrow> DTAP_Stream_Channel \<Rightarrow> 'w env \<Rightarrow> DTAP_Stream_Channel \<times> 'w env" where
  "ReportExpectedStreamFrame ch st e =
     (case s_rxList st of
        [] \<Rightarrow> (st, e)
      | n # ns \<Rightarrow>
          if n_txSeq n \<noteq> expectedSeq st then (st, e)
          else ReportExpectedStreamFrame ch (st\<lparr>s_rxList := ns, expectedSeq := DTAP_GetNextFrameSeq (expectedSeq st)\<rparr>)
                 (RecvCallback ch (n_buff n) (n_pi n) st e))"
  by pat_completeness auto
termination
  by (relation "measure (\<lambda>(_, st, _). length (s_rxList st))") auto

declare ReportExpectedStreamFrame.simps [simp del]

text \<open>The first loop of \<open>DTAP_ReorderStreamFrameTask\<close>.\<close>

function report_overdue :: "chan_info \<Rightarrow> DTAP_Stream_Channel \<Rightarrow> 'w env \<Rightarrow> DTAP_Stream_Channel \<times> 'w env" where
  "report_overdue ch st e =
     (case s_rxList st of
        [] \<Rightarrow> (st, e)
      | n # ns \<Rightarrow>
          if \<not> DTAP_IsFrameSeqSmaller (n_txSeq n) (reorderTxSeq st) then (st, e)
          else report_overdue ch (st\<lparr>s_rxList := ns, expectedSeq := DTAP_GetNextFrameSeq (n_txSeq n)\<rparr>)
                 (RecvCallback ch (n_buff n) (n_pi n) st e))"
  by pat_completeness auto
termination
  by (relation "measure (\<lambda>(_, st, _). length (s_rxList st))") auto

declare report_overdue.simps [simp del]

text \<open>\<open>SDF_DListLast\<close> of an empty list is the list head itself. Read as a node, the head has its element
  count where the node has \<open>sar\<close> and \<open>txSeq\<close>; with no element that is zero.\<close>

definition last_txSeq :: "StreamRxNode list \<Rightarrow> u16w" where
  "last_txSeq l = (if l = [] then 0 else n_txSeq (last l))"

text \<open>The task for a channel that was found. The test of \<open>node\<close> after the loop always succeeds: the cursor
  ends at a node or at the list head.\<close>

definition DTAP_ReorderStreamFrameTask :: "chan_info \<Rightarrow> DTAP_Stream_Channel \<Rightarrow> 'w env \<Rightarrow> DTAP_Stream_Channel \<times> 'w env" where
  "DTAP_ReorderStreamFrameTask ch st e =
     (case report_overdue ch (st\<lparr>reorderTimerHandle := INVALID_TIMER_HANDLE\<rparr>) e of (st1, e1) \<Rightarrow>
      case ReportExpectedStreamFrame ch st1 e1 of (st2, e2) \<Rightarrow>
        StartReorderTimer (st2\<lparr>maxExpectedSeq := last_txSeq (s_rxList st2) + 1\<rparr>) e2)"

definition BuffCheck :: "DTAP_Frame \<Rightarrow> DTAP_Stream_Channel \<Rightarrow> SDF_Buff \<Rightarrow> dtap_ret \<times> SDF_Buff" where
  "BuffCheck fr st b =
     (case rdn b (dataOff b + dataLen b - DTAP_CRC_LEN) 2 of
        Some [c0, c1] \<Rightarrow>
          (case SDF_BuffTrimSuffix b DTAP_CRC_LEN of
             None \<Rightarrow> (DTAP_TRANS_STREAM_RECV_TRIM_SUF_ERR, b)
           | Some b1 \<Rightarrow>
               if DECODE2BYTE_LITTLE c0 c1 \<noteq> CRC16 (s_crcInit st) (buff_data b1) then (DTAP_TRANS_STREAM_RECV_CRC_ERR, b1)
               else (case SDF_BuffTrimPrefix b1 (headerLen fr) of
                       None \<Rightarrow> (DTAP_TRANS_STREAM_RECV_TRIM_PRE_ERR, b1)
                     | Some b2 \<Rightarrow> (DTAP_SUCCESS, b2)))
      | _ \<Rightarrow> (MemFault, b))"

definition DTAP_RecvStreamFrame :: "chan_info \<Rightarrow> DTAP_Frame \<Rightarrow> recv_cb option \<Rightarrow> DTAP_Stream_Channel \<Rightarrow> 'w env \<Rightarrow>
    dtap_ret \<times> DTAP_Stream_Channel \<times> 'w env" where
  "DTAP_RecvStreamFrame ch fr recvCb st0 e =
     (case (rd_word fr 5, fbuff fr) of
        (Some w, Some b) \<Rightarrow>
          let hsar = unat (drop_bit 14 w); hseq = w AND 0x3FFF in
          if hsar \<noteq> DTAP_SAR_UNSEG then (DTAP_TRANS_UNSUPPORTED, st0, e)
          else let st = st0\<lparr>s_recvCb := recvCb\<rparr> in
          if \<not> length (s_rxList st) \<le> DTAP_STREAM_CACHE_MAX then (DTAP_TRANS_STREAM_RX_FULL, st, e)
          else (case BuffCheck fr st b of (ret, b1) \<Rightarrow>
            if ret \<noteq> DTAP_SUCCESS then (ret, st, e)
            else if expectedSeq st = DTAP_FRAME_SEQ_INIT then
              (DTAP_SUCCESS, st\<lparr>expectedSeq := DTAP_GetNextFrameSeq hseq, maxExpectedSeq := DTAP_GetNextFrameSeq hseq\<rparr>,
               RecvCallback ch b1 (fpi fr) st e)
            else if hseq = expectedSeq st then
              (case ReportExpectedStreamFrame ch (st\<lparr>expectedSeq := DTAP_GetNextFrameSeq (expectedSeq st)\<rparr>)
                      (RecvCallback ch b1 (fpi fr) st e) of (st1, e1) \<Rightarrow>
               case StopReorderTimer st1 e1 of (st2, e2) \<Rightarrow>
               case StartReorderTimer st2 e2 of (st3, e3) \<Rightarrow> (DTAP_SUCCESS, st3, e3))
            else if DTAP_IsFrameSeqSmaller hseq (expectedSeq st) then (DTAP_TRANS_STREAM_RECV_DUPLICATED_ERR, st, e)
            else if FindStreamRxNode (s_rxList st) hseq \<noteq> None then (DTAP_TRANS_STREAM_RECV_DUPLICATED_ERR, st, e)
            else (case NewStreamRxNode b1 (e_mem e) of
                (None, m) \<Rightarrow> (DTAP_TRANS_MALLOC_ERR, st, e\<lparr>e_mem := m\<rparr>)
              | (Some n0, m) \<Rightarrow>
                  (case DP_GetMonoTimeMs (e\<lparr>e_mem := m\<rparr>) of (now, e1) \<Rightarrow>
                   let n = n0\<lparr>n_sar := hsar, n_txSeq := hseq, n_timeStamp := now, n_pi := fpi fr,
                              n_lcid := c_lcid ch, n_tcid := c_srcTcid ch\<rparr>;
                       l = InsertStreamRxNode (s_rxList st) n;
                       st1 = st\<lparr>s_rxList := l, maxExpectedSeq := last_txSeq l + 1\<rparr> in
                   case (if reorderTimerHandle st1 = INVALID_TIMER_HANDLE then StartReorderTimer st1 e1 else (st1, e1)) of
                     (st2, e2) \<Rightarrow> (DTAP_SUCCESS, st2, e2))))
      | _ \<Rightarrow> (MemFault, st0, e))"

section \<open>Sending\<close>

text \<open>The buffer is changed in place and is part of the result.\<close>

definition DTAP_PackStreamFrame :: "byte \<Rightarrow> byte \<Rightarrow> SDF_Buff \<Rightarrow> nat \<Rightarrow> DTAP_Stream_Channel \<Rightarrow>
    dtap_ret \<times> SDF_Buff \<times> DTAP_Stream_Channel" where
  "DTAP_PackStreamFrame tcid p b sa st =
     (case SDF_BuffPrepend b 7 of
        None \<Rightarrow> (DTAP_TRANS_STREAM_PACK_HEADER_ERR, b, st)
      | Some (off, b0) \<Rightarrow>
          let st1 = st\<lparr>frameTxSeq := DTAP_GetNextFrameSeq (frameTxSeq st)\<rparr>;
              len = of_nat (dataLen b0 - DTAP_BASIC_HEADER_LEN + DTAP_CRC_LEN) :: u16w;
              b1 = buff_write off ([tcid, typeBits DTAP_FRAME_SIMPLEX_FRAG False True False False] @ ENCODE2BYTE_LITTLE len
                     @ [p] @ ENCODE2BYTE_LITTLE (seq_sar (frameTxSeq st1) sa)) b0;
              crcValue = CRC16 (s_crcInit st1) (buff_data b1) in
          (case SDF_BuffAppend b1 DTAP_CRC_LEN of
             None \<Rightarrow> (DTAP_TRANS_STREAM_PACK_CRC_ERR, b1, st1)
           | Some (c, b2) \<Rightarrow> (DTAP_SUCCESS, buff_write c (ENCODE2BYTE_LITTLE crcValue) b2, st1)))"

abbreviation (input) DTAP_FRAME_UNICAST :: nat where "DTAP_FRAME_UNICAST \<equiv> 0"
abbreviation (input) DTAP_FRAME_MULTICAST :: nat where "DTAP_FRAME_MULTICAST \<equiv> 1"
abbreviation (input) DTAP_FRAME_BROADCAST :: nat where "DTAP_FRAME_BROADCAST \<equiv> 2"

definition DTAP_SendStreamFrame :: "'w xmit \<Rightarrow> chan_info \<Rightarrow> byte \<Rightarrow> SDF_Buff \<Rightarrow> DTAP_Stream_Channel \<Rightarrow> 'w env \<Rightarrow>
    dtap_ret \<times> DTAP_Stream_Channel \<times> 'w env" where
  "DTAP_SendStreamFrame xmit ch p b st e =
     (let tcid = (if c_castMode ch = DTAP_FRAME_BROADCAST then c_srcTcid ch else c_dstTcid ch) in
      if dataLen b \<le> c_mtu ch then
        (case DTAP_PackStreamFrame tcid p b DTAP_SAR_UNSEG st of (ret, b1, st1) \<Rightarrow>
           if ret \<noteq> DTAP_SUCCESS then (ret, st1, e)
           else case transmit xmit (Some b1) e of (ret2, e1) \<Rightarrow> (ret2, st1, e1))
      else (DTAP_TRANS_UNSUPPORTED, st, e))"

section \<open>What the receiver hands up\<close>

text \<open>\<open>g\<close> gives the upcall that the frame at each position of the stream is to cause.\<close>

definition node_at :: "chan_info \<Rightarrow> (nat \<Rightarrow> DTAP_Data_Info \<times> byte list) \<Rightarrow> nat \<Rightarrow> StreamRxNode \<Rightarrow> bool" where
  "node_at ch g k n \<longleftrightarrow> n_txSeq n = seqn k \<and>
     (\<lparr>info_pi = n_pi n, info_lcid = c_lcid ch, info_tcid = c_srcTcid ch\<rparr>, buff_data (n_buff n)) = g k"

lemma node_at_seq: "node_at ch g k n \<Longrightarrow> n_txSeq n = seqn k"
  by (simp add: node_at_def)

lemma RecvCallback_upcalls:
  assumes "s_recvCb st = Some cb" "(\<lparr>info_pi = p, info_lcid = c_lcid ch, info_tcid = c_srcTcid ch\<rparr>, buff_data b) = x"
  shows "\<exists>dl. RecvCallback ch b p st e = e\<lparr>e_dl := dl\<rparr> \<and> upcalls dl = upcalls (e_dl e) @ [x]"
proof (intro exI conjI)
  let ?i = "\<lparr>info_pi = p, info_lcid = c_lcid ch, info_tcid = c_srcTcid ch\<rparr>"
  show "RecvCallback ch b p st e = e\<lparr>e_dl := e_dl e @ [(?i, buff_data b, cb (e_dl e) ?i (buff_data b))]\<rparr>"
    using assms(1) by (simp add: RecvCallback_def upcall_def call_recv_def Let_def)
  show "upcalls (e_dl e @ [(?i, buff_data b, cb (e_dl e) ?i (buff_data b))]) = upcalls (e_dl e) @ [x]"
    using assms(2) by (simp add: upcalls_def)
qed

lemma report_expected:
  assumes "list_all2 (node_at ch g) ks (s_rxList st)" "expectedSeq st = seqn n" "s_recvCb st = Some cb"
    "\<forall>k\<in>set ks. n \<le> k \<and> k < n + 8192" "sorted_wrt (<) ks"
  shows "\<exists>zs dl. ReportExpectedStreamFrame ch st e =
      (st\<lparr>s_rxList := zs, expectedSeq := seqn (fst (strip n ks))\<rparr>, e\<lparr>e_dl := dl\<rparr>) \<and>
    list_all2 (node_at ch g) (snd (strip n ks)) zs \<and>
    upcalls dl = upcalls (e_dl e) @ map g [n..<fst (strip n ks)]"
  using assms
proof (induction n ks arbitrary: st e rule: strip.induct)
  case (1 n)
  then show ?case by (subst ReportExpectedStreamFrame.simps) (auto intro!: exI [of _ "[]"] exI [of _ "e_dl e"])
next
  case (2 n k ks)
  obtain x xs where x: "s_rxList st = x # xs" "node_at ch g k x" "list_all2 (node_at ch g) ks xs"
    using 2(2) by (auto simp: list_all2_Cons1)
  show ?case
  proof (cases "k = n")
    case False
    then have "n_txSeq x \<noteq> expectedSeq st"
      unfolding 2(3) node_at_seq [OF x(2)] using 2(5) by (subst seqn_eq_iff) auto
    then have r: "ReportExpectedStreamFrame ch st e = (st, e)" using x(1) by (subst ReportExpectedStreamFrame.simps) simp
    have st: "st = st\<lparr>s_rxList := x # xs, expectedSeq := seqn n\<rparr>" using x(1) 2(3) by (cases st) simp
    have e: "e = e\<lparr>e_dl := e_dl e\<rparr>" by (cases e) simp
    show ?thesis using False r x st e by (intro exI [of _ "x # xs"] exI [of _ "e_dl e"]) simp
  next
    case True
    obtain dl where dl: "RecvCallback ch (n_buff x) (n_pi x) st e = e\<lparr>e_dl := dl\<rparr>" "upcalls dl = upcalls (e_dl e) @ [g n]"
      using RecvCallback_upcalls [OF 2(4), of "n_pi x" ch "n_buff x" "g n" e] x(2) True by (auto simp: node_at_def)
    let ?st = "st\<lparr>s_rxList := xs, expectedSeq := DTAP_GetNextFrameSeq (expectedSeq st)\<rparr>"
    have r: "ReportExpectedStreamFrame ch st e = ReportExpectedStreamFrame ch ?st (e\<lparr>e_dl := dl\<rparr>)"
      using x(1,2) True dl 2(3) by (subst ReportExpectedStreamFrame.simps) (simp add: node_at_def)
    have b: "\<forall>j\<in>set ks. Suc n \<le> j \<and> j < Suc n + 8192" using 2(5,6) True by fastforce
    obtain zs dl' where ih: "ReportExpectedStreamFrame ch ?st (e\<lparr>e_dl := dl\<rparr>) =
        (?st\<lparr>s_rxList := zs, expectedSeq := seqn (fst (strip (Suc n) ks))\<rparr>, e\<lparr>e_dl := dl\<rparr>\<lparr>e_dl := dl'\<rparr>)"
      "list_all2 (node_at ch g) (snd (strip (Suc n) ks)) zs" "upcalls dl' = upcalls dl @ map g [Suc n..<fst (strip (Suc n) ks)]"
      using 2(1) [OF True, of ?st "e\<lparr>e_dl := dl\<rparr>"] x(3) 2(3,4,6) b by auto
    have "[n..<fst (strip (Suc n) ks)] = n # [Suc n..<fst (strip (Suc n) ks)]"
      using strip_ge [of "Suc n" ks] by (intro upt_conv_Cons) simp
    then show ?thesis using r ih dl(2) True by (intro exI [of _ zs] exI [of _ dl']) simp
  qed
qed

lemma StartReorderTimer_eq:
  "\<exists>s h t ts. StartReorderTimer st e = (st\<lparr>reorderTxSeq := s, reorderTimerHandle := h\<rparr>, e\<lparr>e_tim := t, e_clock := ts\<rparr>)"
proof (cases "expectedSeq st \<noteq> maxExpectedSeq st")
  case True
  show ?thesis using True by (cases e) (auto simp: StartReorderTimer_def DP_GetMonoTimeMs_def Let_def split: prod.splits)
next
  case False
  have "st = st\<lparr>reorderTxSeq := reorderTxSeq st, reorderTimerHandle := reorderTimerHandle st\<rparr>"
    "e = e\<lparr>e_tim := e_tim e, e_clock := e_clock e\<rparr>" by simp_all
  then show ?thesis using False unfolding StartReorderTimer_def by (metis (no_types))
qed

lemma StopReorderTimer_eq: "\<exists>h t. StopReorderTimer st e = (st\<lparr>reorderTimerHandle := h\<rparr>, e\<lparr>e_tim := t\<rparr>)"
proof (cases "reorderTimerHandle st \<noteq> INVALID_TIMER_HANDLE")
  case True then show ?thesis by (auto simp: StopReorderTimer_def)
next
  case False
  have "st = st\<lparr>reorderTimerHandle := reorderTimerHandle st\<rparr>" "e = e\<lparr>e_tim := e_tim e\<rparr>" by simp_all
  then show ?thesis using False unfolding StopReorderTimer_def by (metis (no_types))
qed

section \<open>The stream mode as a resequencer\<close>

text \<open>A parsed frame that carries position \<open>k\<close> and passes the check of the channel.\<close>

definition stream_frame :: "chan_info \<Rightarrow> u16w \<Rightarrow> (nat \<Rightarrow> DTAP_Data_Info \<times> byte list) \<Rightarrow> nat \<Rightarrow> DTAP_Frame \<Rightarrow> bool" where
  "stream_frame ch crc g k fr \<longleftrightarrow> (\<exists>b b1. fbuff fr = Some b \<and> rd_word fr 5 = Some (seqn k) \<and> wf_buff b1 \<and>
     (\<forall>st. s_crcInit st = crc \<longrightarrow> BuffCheck fr st b = (DTAP_SUCCESS, b1)) \<and>
     (\<lparr>info_pi = fpi fr, info_lcid = c_lcid ch, info_tcid = c_srcTcid ch\<rparr>, buff_data b1) = g k)"

definition stream_sim :: "chan_info \<Rightarrow> u16w \<Rightarrow> (nat \<Rightarrow> DTAP_Data_Info \<times> byte list) \<Rightarrow> reseq \<Rightarrow>
    DTAP_Stream_Channel \<times> 'w env \<Rightarrow> bool" where
  "stream_sim ch crc g a s \<longleftrightarrow> (case (a, s) of ((n, ks), (st, e)) \<Rightarrow>
     expectedSeq st = seqn n \<and> list_all2 (node_at ch g) ks (s_rxList st) \<and> reseq_ok (n, ks) \<and>
     (\<forall>k\<in>set ks. k < n + 8192) \<and> mem_ok (e_mem e) \<and> s_crcInit st = crc)"

text \<open>The arrivals that 14-bit numbers can tell apart, with the cache not beyond its limit.\<close>

fun stream_fits :: "nat \<Rightarrow> reseq \<Rightarrow> bool" where
  "stream_fits k (n, ks) \<longleftrightarrow> k < n + 8192 \<and> n \<le> k + 8192 \<and> length ks \<le> DTAP_STREAM_CACHE_MAX"

lemma fold_snoc: "fold (\<lambda>k l. l @ [g k]) ks xs = xs @ map g ks"
  by (induction ks arbitrary: xs) auto

lemma seqn_fields: "unat (drop_bit 14 (seqn k)) = 0" "seqn k AND 0x3FFF = seqn k" "seqn k \<noteq> DTAP_FRAME_SEQ_INIT"
proof -
  have "uint (drop_bit 14 (seqn k)) = 0"
    unfolding unsigned_drop_bit_eq uint_seqn by (simp add: drop_bit_eq_div take_bit_eq_mod)
  then show "unat (drop_bit 14 (seqn k)) = 0" by (simp add: unat_eq_nat_uint)
  show "seqn k AND 0x3FFF = seqn k" using seqn_boundary [of k 0] by simp
  show "seqn k \<noteq> DTAP_FRAME_SEQ_INIT" using is_seq_seqn [of k] by (auto simp: is_seq_def simp del: is_seq_seqn)
qed

lemma strip_expected: "\<forall>j\<in>set ks. n < j \<Longrightarrow> insort n ks = n # ks"
  by (cases ks) auto

lemma recv_stream_step:
  assumes sim: "stream_sim ch crc g (n, ks) (st, e)" and fits: "stream_fits k (n, ks)" and fr: "stream_frame ch crc g k fr"
  shows "\<exists>ret st' e'. DTAP_RecvStreamFrame ch fr (Some cb) st e = (ret, st', e') \<and>
    stream_sim ch crc g (arrive k (n, ks)) (st', e') \<and>
    upcalls (e_dl e') = upcalls (e_dl e) @ map g [n..<fst (arrive k (n, ks))]"
proof -
  have s: "expectedSeq st = seqn n" "list_all2 (node_at ch g) ks (s_rxList st)" "sorted_wrt (<) ks" "\<forall>j\<in>set ks. n < j"
    "\<forall>j\<in>set ks. j < n + 8192" "mem_ok (e_mem e)" "s_crcInit st = crc" and ok: "reseq_ok (n, ks)"
    using sim by (auto simp: stream_sim_def reseq_ok_def)
  have f: "k < n + 8192" "n \<le> k + 8192" "length ks \<le> 256" using fits by simp_all
  have len: "length (s_rxList st) \<le> 256" using f(3) list_all2_lengthD [OF s(2)] by simp
  obtain b b1 where b: "fbuff fr = Some b" "rd_word fr 5 = Some (seqn k)" "wf_buff b1"
    "\<And>st. s_crcInit st = crc \<Longrightarrow> BuffCheck fr st b = (DTAP_SUCCESS, b1)"
    "(\<lparr>info_pi = fpi fr, info_lcid = c_lcid ch, info_tcid = c_srcTcid ch\<rparr>, buff_data b1) = g k"
    using fr by (auto simp: stream_frame_def)
  define sc where "sc = st\<lparr>s_recvCb := Some cb\<rparr>"
  have sc: "expectedSeq sc = seqn n" "s_rxList sc = s_rxList st" "s_crcInit sc = crc" "s_recvCb sc = Some cb"
    using s by (simp_all add: sc_def)
  have eq: "seqn k = seqn n \<longleftrightarrow> k = n" using f by (intro seqn_eq_iff) auto
  have lt: "DTAP_IsFrameSeqSmaller (seqn k) (seqn n) \<longleftrightarrow> k < n" using f by (intro smaller_seqn) auto
  have fd: "FindStreamRxNode (s_rxList sc) (seqn k) = None \<longleftrightarrow> k \<notin> set ks"
    unfolding FindStreamRxNode_def sc(2)
    by (rule find_by_seq_positions [OF s(2) node_at_seq]) (use s(4,5) f in fastforce)+
  have unf: "DTAP_RecvStreamFrame ch fr (Some cb) st e =
     (if k = n then
        (case ReportExpectedStreamFrame ch (sc\<lparr>expectedSeq := seqn (Suc n)\<rparr>) (RecvCallback ch b1 (fpi fr) sc e) of (st1, e1) \<Rightarrow>
         case StopReorderTimer st1 e1 of (st2, e2) \<Rightarrow>
         case StartReorderTimer st2 e2 of (st3, e3) \<Rightarrow> (DTAP_SUCCESS, st3, e3))
      else if k < n \<or> k \<in> set ks then (DTAP_TRANS_STREAM_RECV_DUPLICATED_ERR, sc, e)
      else (case NewStreamRxNode b1 (e_mem e) of
           (None, m) \<Rightarrow> (DTAP_TRANS_MALLOC_ERR, sc, e\<lparr>e_mem := m\<rparr>)
         | (Some n0, m) \<Rightarrow>
             (case DP_GetMonoTimeMs (e\<lparr>e_mem := m\<rparr>) of (now, e1) \<Rightarrow>
              let x = n0\<lparr>n_sar := 0, n_txSeq := seqn k, n_timeStamp := now, n_pi := fpi fr,
                         n_lcid := c_lcid ch, n_tcid := c_srcTcid ch\<rparr>;
                  l = InsertStreamRxNode (s_rxList sc) x;
                  st1 = sc\<lparr>s_rxList := l, maxExpectedSeq := last_txSeq l + 1\<rparr> in
              case (if reorderTimerHandle st1 = INVALID_TIMER_HANDLE then StartReorderTimer st1 e1 else (st1, e1)) of
                (st2, e2) \<Rightarrow> (DTAP_SUCCESS, st2, e2))))"
    unfolding DTAP_RecvStreamFrame_def b(1,2) Let_def prod.case option.case seqn_fields sc_def [symmetric]
    by (simp add: sc(1) b(4) [OF sc(3)] eq lt fd len [folded sc(2)] seqn_fields)
  consider (exp) "k = n" | (dup) "k \<noteq> n" "k < n \<or> k \<in> set ks" | (new) "n < k" "k \<notin> set ks" by linarith
  then show ?thesis
  proof cases
    case dup
    then have a: "arrive k (n, ks) = (n, ks)" by auto
    have "stream_sim ch crc g (n, ks) (sc, e)" using sim by (simp add: stream_sim_def sc_def)
    then show ?thesis unfolding unf a using dup by simp
  next
    case exp
    then have kn: "k \<notin> set ks" using s(4) by auto
    have a: "arrive k (n, ks) = strip (Suc n) ks" using exp kn strip_expected [OF s(4)] by simp
    obtain dl where dl: "RecvCallback ch b1 (fpi fr) sc e = e\<lparr>e_dl := dl\<rparr>" "upcalls dl = upcalls (e_dl e) @ [g n]"
      using RecvCallback_upcalls [OF sc(4) b(5)] exp by blast
    let ?s1 = "sc\<lparr>expectedSeq := seqn (Suc n)\<rparr>"
    have "\<exists>zs dl'. ReportExpectedStreamFrame ch ?s1 (e\<lparr>e_dl := dl\<rparr>) =
        (?s1\<lparr>s_rxList := zs, expectedSeq := seqn (fst (strip (Suc n) ks))\<rparr>, e\<lparr>e_dl := dl\<rparr>\<lparr>e_dl := dl'\<rparr>) \<and>
      list_all2 (node_at ch g) (snd (strip (Suc n) ks)) zs \<and>
      upcalls dl' = upcalls (e_dl (e\<lparr>e_dl := dl\<rparr>)) @ map g [Suc n..<fst (strip (Suc n) ks)]"
      by (rule report_expected [where cb = cb]) (use s sc in \<open>auto simp: Suc_le_eq less_SucI\<close>)
    then obtain zs dl' where r: "ReportExpectedStreamFrame ch ?s1 (e\<lparr>e_dl := dl\<rparr>) =
        (?s1\<lparr>s_rxList := zs, expectedSeq := seqn (fst (strip (Suc n) ks))\<rparr>, e\<lparr>e_dl := dl'\<rparr>)"
      "list_all2 (node_at ch g) (snd (strip (Suc n) ks)) zs"
      "upcalls dl' = upcalls dl @ map g [Suc n..<fst (strip (Suc n) ks)]" by auto
    let ?s2 = "?s1\<lparr>s_rxList := zs, expectedSeq := seqn (fst (strip (Suc n) ks))\<rparr>"
    obtain h t where sp: "StopReorderTimer ?s2 (e\<lparr>e_dl := dl'\<rparr>) = (?s2\<lparr>reorderTimerHandle := h\<rparr>, e\<lparr>e_dl := dl', e_tim := t\<rparr>)"
      using StopReorderTimer_eq [of ?s2 "e\<lparr>e_dl := dl'\<rparr>"] by blast
    obtain q h' t' ts where sr: "StartReorderTimer (?s2\<lparr>reorderTimerHandle := h\<rparr>) (e\<lparr>e_dl := dl', e_tim := t\<rparr>) =
        (?s2\<lparr>reorderTimerHandle := h, reorderTxSeq := q, reorderTimerHandle := h'\<rparr>, e\<lparr>e_dl := dl', e_tim := t, e_tim := t', e_clock := ts\<rparr>)"
      using StartReorderTimer_eq [of "?s2\<lparr>reorderTimerHandle := h\<rparr>" "e\<lparr>e_dl := dl', e_tim := t\<rparr>"] by blast
    have ok': "reseq_ok (strip (Suc n) ks)" by (rule strip_ok) (use s in \<open>auto simp: Suc_le_eq\<close>)
    have up: "[n..<fst (strip (Suc n) ks)] = n # [Suc n..<fst (strip (Suc n) ks)]"
      using strip_ge [of "Suc n" ks] by (intro upt_conv_Cons) simp
    have bd: "\<forall>j\<in>set (snd (strip (Suc n) ks)). j < fst (strip (Suc n) ks) + 8192"
    proof
      fix j assume "j \<in> set (snd (strip (Suc n) ks))"
      then have "j \<in> set ks" by (subst strip_split [of ks "Suc n"]) simp
      then show "j < fst (strip (Suc n) ks) + 8192" using s(5) strip_ge [of "Suc n" ks] by fastforce
    qed
    show ?thesis unfolding unf a using exp dl r sp sr ok' up bd s sc
      by (simp add: stream_sim_def case_prod_beta)
  next
    case new
    then have nl: "\<not> k < n" by simp
    note ar = arrive_new [OF ok nl new(2)]
    obtain m1 where m1: "SDF_MemAlloc (e_mem e) = (True, m1)" "mem_ok m1" using SDF_MemAlloc_okE [OF s(6)] .
    obtain m2 where m2: "SDF_BuffCopy b1 m1 = (Some b1, m2)" "mem_ok m2" using SDF_BuffCopy_ok [OF m1(2) b(3)] by blast
    obtain now e1 where c: "DP_GetMonoTimeMs (e\<lparr>e_mem := m2\<rparr>) = (now, e1)" by fastforce
    then have e1: "e_dl e1 = e_dl e" "e_mem e1 = m2" by (auto simp: DP_GetMonoTimeMs_def split: prod.splits)
    define x where "x = \<lparr>n_sar = 0, n_txSeq = seqn k, n_buff = b1, n_timeStamp = now, n_pi = fpi fr, n_lcid = c_lcid ch, n_tcid = c_srcTcid ch\<rparr>"
    have x: "node_at ch g k x" using b(5) by (simp add: node_at_def x_def)
    let ?l = "InsertStreamRxNode (s_rxList sc) x"
    let ?s1 = "sc\<lparr>s_rxList := ?l, maxExpectedSeq := last_txSeq ?l + 1\<rparr>"
    have l: "list_all2 (node_at ch g) (insort k ks) ?l"
      unfolding InsertStreamRxNode_def sc(2)
      by (rule insert_by_seq_positions [OF s(2) x node_at_seq]) (use s(4,5) f new in fastforce)+
    have nh: "strip n (insort k ks) = (n, insort k ks)"
    proof -
      have "insort k ks \<noteq> []" by (cases ks) auto
      moreover have "\<forall>j\<in>set (insort k ks). j \<noteq> n" using s(4) new(1) by (auto simp: set_insort_key)
      ultimately show ?thesis by (cases "insort k ks") auto
    qed
    obtain st2 e2 where t: "(if reorderTimerHandle ?s1 = INVALID_TIMER_HANDLE then StartReorderTimer ?s1 e1 else (?s1, e1)) = (st2, e2)" by fastforce
    then have t2: "expectedSeq st2 = seqn n" "s_rxList st2 = ?l" "s_crcInit st2 = crc" "e_dl e2 = e_dl e" "e_mem e2 = m2"
      using StartReorderTimer_eq [of ?s1 e1] e1 sc by (auto split: if_splits)
    have "DTAP_RecvStreamFrame ch fr (Some cb) st e = (DTAP_SUCCESS, st2, e2)"
      unfolding unf using new m1 m2 c t unfolding x_def by (simp add: NewStreamRxNode_def Let_def)
    moreover have "stream_sim ch crc g (n, insort k ks) (st2, e2)"
      using t2 l m2(2) s f ar(2) nl new by (auto simp: stream_sim_def reseq_ok_def set_insort_key)
    ultimately show ?thesis using ar(1) nh t2(4) by simp
  qed
qed

interpretation stream: resequencer "stream_sim ch crc g"
  "\<lambda>k s. snd (DTAP_RecvStreamFrame ch (frs k) (Some cb) (fst s) (snd s))" "\<lambda>s. upcalls (e_dl (snd s))"
  "\<lambda>k l. l @ [g k]" "\<lambda>k a. stream_fits k a \<and> stream_frame ch crc g k (frs k)" for ch crc g cb frs
proof
  fix a s k assume a: "stream_sim ch crc g a s"
  then show "reseq_ok a" by (auto simp: stream_sim_def)
  assume b: "stream_fits k a \<and> stream_frame ch crc g k (frs k)"
  obtain n ks st e where s: "a = (n, ks)" "s = (st, e)" by fastforce
  have *: "\<exists>ret st' e'. DTAP_RecvStreamFrame ch (frs k) (Some cb) st e = (ret, st', e') \<and>
    stream_sim ch crc g (arrive k (n, ks)) (st', e') \<and> upcalls (e_dl e') = upcalls (e_dl e) @ map g [n..<fst (arrive k (n, ks))]"
    using a b unfolding s by (intro recv_stream_step) auto
  then show "stream_sim ch crc g (arrive k a) (snd (DTAP_RecvStreamFrame ch (frs k) (Some cb) (fst s) (snd s)))"
    unfolding s by (auto simp del: arrive.simps)
  show "upcalls (e_dl (snd (snd (DTAP_RecvStreamFrame ch (frs k) (Some cb) (fst s) (snd s))))) =
      fold (\<lambda>k l. l @ [g k]) [fst a..<fst (arrive k a)] (upcalls (e_dl (snd s)))"
    using * unfolding s fold_snoc by (auto simp del: arrive.simps)
qed

text \<open>Frames at the positions \<open>ks\<close>, one after the other.\<close>

definition stream_recvs :: "chan_info \<Rightarrow> recv_cb \<Rightarrow> (nat \<Rightarrow> DTAP_Frame) \<Rightarrow> nat list \<Rightarrow>
    DTAP_Stream_Channel \<times> 'w env \<Rightarrow> DTAP_Stream_Channel \<times> 'w env" where
  "stream_recvs ch cb frs ks = fold (\<lambda>k s. snd (DTAP_RecvStreamFrame ch (frs k) (Some cb) (fst s) (snd s))) ks"

lemma recv_first_stream_frame:
  assumes "expectedSeq st = DTAP_FRAME_SEQ_INIT" "s_rxList st = []" "mem_ok (e_mem e)" "stream_frame ch (s_crcInit st) g k fr"
  shows "\<exists>st' e'. DTAP_RecvStreamFrame ch fr (Some cb) st e = (DTAP_SUCCESS, st', e') \<and>
    stream_sim ch (s_crcInit st) g (Suc k, []) (st', e') \<and> upcalls (e_dl e') = upcalls (e_dl e) @ [g k]"
proof -
  obtain b b1 where b: "fbuff fr = Some b" "rd_word fr 5 = Some (seqn k)" "wf_buff b1"
    "\<And>x. s_crcInit x = s_crcInit st \<Longrightarrow> BuffCheck fr x b = (DTAP_SUCCESS, b1)"
    "(\<lparr>info_pi = fpi fr, info_lcid = c_lcid ch, info_tcid = c_srcTcid ch\<rparr>, buff_data b1) = g k"
    using assms(4) by (auto simp: stream_frame_def)
  define sc where "sc = st\<lparr>s_recvCb := Some cb\<rparr>"
  have sc: "expectedSeq sc = 0xFFFF" "s_rxList sc = []" "s_crcInit sc = s_crcInit st" "s_recvCb sc = Some cb"
    using assms by (simp_all add: sc_def)
  obtain dl where dl: "RecvCallback ch b1 (fpi fr) sc e = e\<lparr>e_dl := dl\<rparr>" "upcalls dl = upcalls (e_dl e) @ [g k]"
    using RecvCallback_upcalls [OF sc(4) b(5)] by blast
  have "DTAP_RecvStreamFrame ch fr (Some cb) st e =
    (DTAP_SUCCESS, sc\<lparr>expectedSeq := seqn (Suc k), maxExpectedSeq := seqn (Suc k)\<rparr>, e\<lparr>e_dl := dl\<rparr>)"
    unfolding DTAP_RecvStreamFrame_def b(1,2) Let_def prod.case option.case seqn_fields sc_def [symmetric]
    by (simp add: sc b(4) [OF sc(3)] dl(1))
  then show ?thesis using dl(2) sc assms(3) by (simp add: stream_sim_def reseq_ok_def)
qed

section \<open>Frames on the wire\<close>

text \<open>A packed frame is a simplex fragment frame; its receiver parses it, and it passes the checks.\<close>

lemma pack_stream_parsed:
  assumes "wf_buff b" "7 \<le> dataOff b" "2 \<le> SDF_BuffTailRoom b" "dataLen b + 9 < 65536" "frameTxSeq st = seqn j"
    "g (Suc j) = (\<lparr>info_pi = p, info_lcid = c_lcid ch, info_tcid = c_srcTcid ch\<rparr>, buff_data b)"
  shows "\<exists>b' pf. DTAP_PackStreamFrame tcid p b DTAP_SAR_UNSEG st = (DTAP_SUCCESS, b', st\<lparr>frameTxSeq := seqn (Suc j)\<rparr>) \<and>
    buff_data b' ! 0 = tcid \<and> wire_length b' + DTAP_BASIC_HEADER_LEN = dataLen b' \<and>
    DTAP_ParseFrame DTAP_FRAME_SIMPLEX_FRAG b' (frame0 c0) = (DTAP_SUCCESS, pf) \<and> payloadLen pf = dataLen b \<and>
    DTAP_CheckEnhanceFrameHeader pf \<and> DTAP_CheckStreamFrame pf \<and> stream_frame ch (s_crcInit st) g (Suc j) pf"
proof -
  let ?fr = "(frame0 CtxSimplexFrag)\<lparr>fbuff := Some b, fpi := p, txSeq := seqn (Suc j)\<rparr>"
  let ?hdr = "frag_hdr CtxSimplexFrag tcid False False ?fr (dataLen b + 7 - DTAP_BASIC_HEADER_LEN + DTAP_CRC_LEN) []"
  let ?c = "s_crcInit st"
  have lh: "length ?hdr = 7" by (simp add: frag_hdr_def)
  have nb: "\<not> DTAP_CheckFrameBit (fbits ?fr) DTAP_FRAME_P_BIT" by (simp add: frame0_def DTAP_CheckFrameBit_def)
  obtain b1 b2 where b1: "buff_prepend ?hdr b = Some b1" and b2: "build_crc ?c b1 = Some b2" and w: "wf_buff b2"
    and d: "buff_data b2 = ?hdr @ buff_data b @ ENCODE2BYTE_LITTLE (CRC16 ?c (?hdr @ buff_data b))"
    and l: "dataLen b2 = length ?hdr + dataLen b + 2" and z: "CRC16 ?c (buff_data b2) = 0"
    by (rule build_envelope [of b ?hdr ?c]) (use assms lh in simp_all)
  have bd: "buildable 7 ?fr b" using assms by (simp add: buildable_def frame0_def)
  have sq: "seq_sar (seqn (Suc j)) 0 = seqn (Suc j)" by (simp add: seq_sar_def seqn_fields)
  obtain x where x: "DTAP_ParseEnhanceFrame ((frame0 c0)\<lparr>fbuff := Some b2, fheader := Some (dataOff b2), fctx := CtxSimplexFrag\<rparr>) = (DTAP_SUCCESS, x)"
      "rd_word x 5 = Some (seqn (Suc j))" "\<And>r. wire_image ?c tcid ?fr b b2 (x\<lparr>sar := sar ?fr, txSeq := txSeq ?fr, reqSeq := r\<rparr>)"
    by (rule frag_parsed [OF bd _ _ _ _ w d _ z, of CtxSimplexFrag "[]" tcid False c0])
      (use l lh nb sq in \<open>auto simp: frame0_def\<close>)
  let ?pf = "x\<lparr>sar := 0, txSeq := seqn (Suc j), reqSeq := DTAP_FRAME_SEQ_INIT\<rparr>"
  have wi: "wire_image ?c tcid ?fr b b2 ?pf" using x(3) [of DTAP_FRAME_SEQ_INIT] by (simp add: frame0_def)
  have ps: "DTAP_ParseFrame DTAP_FRAME_SIMPLEX_FRAG b2 (frame0 c0) = (DTAP_SUCCESS, ?pf)"
    using x by (simp add: DTAP_ParseFrame_def DTAP_ParseSimplexFragFrame_def seqn_fields)
  have hl: "headerLen ?pf = 7" "fheader ?pf = Some (dataOff b2)" "fbuff ?pf = Some b2" "fctx ?pf = CtxSimplexFrag"
    using x(1) l lh by (auto simp: DTAP_ParseEnhanceFrame_def DTAP_ParseExtension_def frame0_def Let_def
        split: if_splits option.splits list.splits prod.splits)
  have pk: "DTAP_PackStreamFrame tcid p b DTAP_SAR_UNSEG st = (DTAP_SUCCESS, b2, st\<lparr>frameTxSeq := seqn (Suc j)\<rparr>)"
    using b1 b2 assms(5)
    by (auto simp: DTAP_PackStreamFrame_def buff_prepend_def SDF_BuffPrepend_def build_crc_def buff_append_def
        frag_hdr_def frame0_def Let_def split: option.splits prod.splits if_splits)
  have st: "frame_typeBits ?pf = buff_data b2 ! 1"
    using frame_typeBits_data [OF w hl(3,2)] d by (simp add: frag_hdr_def)
  have ct: "DTAP_CheckStreamFrame ?pf"
    unfolding DTAP_CheckStreamFrame_def st using wi hl(4)
    by (auto simp: wire_image_def Let_def)
  have rw: "rd_word ?pf 5 = Some (seqn (Suc j))" using x(2) by (simp add: rd_word_def)
  have pi: "fpi ?pf = p" using wi by (simp add: wire_image_def)
  obtain b3 where b3: "SDF_BuffTrimSuffix b2 2 = Some b3" using l by (simp add: SDF_BuffTrimSuffix_def)
  note t3 = SDF_BuffTrimSuffix_SomeD [OF w b3]
  have d3: "buff_data b3 = ?hdr @ buff_data b" using t3 d l lh assms(1) by simp
  obtain b4 where b4: "SDF_BuffTrimPrefix b3 7 = Some b4" using t3 l lh by (simp add: SDF_BuffTrimPrefix_def)
  note t4 = SDF_BuffTrimPrefix_SomeD [of b3 7 b4, OF _ b4]
  have d4: "buff_data b4 = drop 7 (buff_data b3)" "wf_buff b4" using t3 t4 by auto
  then have d4': "buff_data b4 = buff_data b" using lh by (simp add: d3)
  let ?v = "CRC16 ?c (?hdr @ buff_data b)"
  have rc: "rdn b2 (dataOff b2 + dataLen b2 - DTAP_CRC_LEN) 2 = Some [ucast ?v, ucast (drop_bit 8 ?v)]"
  proof -
    have off: "dataOff b2 + dataLen b2 - DTAP_CRC_LEN = dataOff b2 + (dataLen b2 - 2)" using l by simp
    show ?thesis unfolding off using rdn_data [OF w, of "dataLen b2 - 2" 2] l lh d assms(1) by (simp add: ENCODE2BYTE_LITTLE_def)
  qed
  have "BuffCheck ?pf s b2 = (DTAP_SUCCESS, b4)" if "s_crcInit s = ?c" for s
    unfolding BuffCheck_def rc using b3 b4 d3 that hl(1) by (simp add: decode_encode_little del: CRC16_append)
  then have "stream_frame ch ?c g (Suc j) ?pf"
    unfolding stream_frame_def using hl(3) rw d4(2) d4' pi assms(6) by auto
  then show ?thesis using pk ps wi ct by (auto simp: wire_image_def)
qed


text \<open>A stream of one-byte units for the examples.\<close>

definition demo_stream_chan :: chan_info where
  "demo_stream_chan = \<lparr>c_lcid = 5, c_srcTcid = 0x20, c_dstTcid = 0x21, c_mode = 2, c_mtu = 100, c_mps = 120, c_castMode = 0, c_type = 0, c_priority = 3\<rparr>"

definition demo_stream :: DTAP_Stream_Channel where
  "demo_stream = \<lparr>flushTimeout = 1000, s_reorderTimeout = 1000, s_crcInit = 0x1D0F, reorderTxSeq = 0, expectedSeq = DTAP_FRAME_SEQ_INIT,
     maxExpectedSeq = DTAP_FRAME_SEQ_INIT, frameTxSeq = 0, reorderTimerHandle = INVALID_TIMER_HANDLE, s_rxList = [], s_recvCb = None\<rparr>"

definition demo_unit :: "nat \<Rightarrow> SDF_Buff" where
  "demo_unit k = \<lparr>dataOff = 14, dataLen = 1, buffLen = 17, bytes = replicate 14 0 @ [of_nat k, 0, 0]\<rparr>"

definition demo_upcall :: "nat \<Rightarrow> DTAP_Data_Info \<times> byte list" where
  "demo_upcall k = (\<lparr>info_pi = 7, info_lcid = 5, info_tcid = 0x20\<rparr>, [of_nat k])"

definition demo_stream_frame :: "nat \<Rightarrow> DTAP_Frame" where
  "demo_stream_frame k = snd (DTAP_ParseFrame DTAP_FRAME_SIMPLEX_FRAG
     (fst (snd (DTAP_PackStreamFrame 0x20 7 (demo_unit k) DTAP_SAR_UNSEG (demo_stream\<lparr>frameTxSeq := seqn (k - 1)\<rparr>)))) (frame0 CtxBasic))"

definition demo_stream_env :: "unit env" where
  "demo_stream_env = \<lparr>e_mem = [], e_tim = \<lparr>tscript = [], tnext = 0, armed = []\<rparr>, e_clock = [], e_dl = [], e_known = True,
     e_release = [], e_status = [], e_tx = ()\<rparr>"

lemma demo_unit_props: "wf_buff (demo_unit k)" "dataOff (demo_unit k) = 14" "SDF_BuffTailRoom (demo_unit k) = 2"
  "dataLen (demo_unit k) = 1" "buff_data (demo_unit k) = [of_nat k]"
  by (simp_all add: demo_unit_def wf_buff_def SDF_BuffTailRoom_def buff_data_def)

lemma demo_stream_frame: "0 < k \<Longrightarrow> stream_frame demo_stream_chan (s_crcInit demo_stream) demo_upcall k (demo_stream_frame k)"
proof -
  assume k: "0 < k"
  let ?st = "demo_stream\<lparr>frameTxSeq := seqn (k - 1)\<rparr>"
  have "\<exists>b' pf. DTAP_PackStreamFrame 0x20 7 (demo_unit k) DTAP_SAR_UNSEG ?st = (DTAP_SUCCESS, b', ?st\<lparr>frameTxSeq := seqn (Suc (k - 1))\<rparr>) \<and>
    buff_data b' ! 0 = 0x20 \<and> wire_length b' + DTAP_BASIC_HEADER_LEN = dataLen b' \<and>
    DTAP_ParseFrame DTAP_FRAME_SIMPLEX_FRAG b' (frame0 CtxBasic) = (DTAP_SUCCESS, pf) \<and> payloadLen pf = dataLen (demo_unit k) \<and>
    DTAP_CheckEnhanceFrameHeader pf \<and> DTAP_CheckStreamFrame pf \<and> stream_frame demo_stream_chan (s_crcInit ?st) demo_upcall (Suc (k - 1)) pf"
    by (rule pack_stream_parsed) (use k in \<open>simp_all add: demo_unit_props demo_upcall_def demo_stream_chan_def\<close>)
  then show ?thesis using k by (auto simp: demo_stream_frame_def)
qed


text \<open>(C18) What \<open>DTAP_SendStreamFrame\<close> puts on the wire is what the peer's receiver hands up. A unit that fits the
  channel and has room for header and check sequence is transmitted once, under the next sequence number; the
  length field and the channel identifier of the transmitted frame are right, it parses as a simplex fragment
  frame with the unit as its payload, it passes the header check and the check of the stream mode, and a fresh
  receiver with the same seed hands up exactly this unit with its protocol identifier.\<close>
theorem stream_frame_roundtrip:
  assumes "wf_buff b" "7 \<le> dataOff b" "2 \<le> SDF_BuffTailRoom b" "dataLen b + 9 < 65536" "dataLen b \<le> c_mtu ch"
    "frameTxSeq st = seqn j" "c_castMode ch \<noteq> DTAP_FRAME_BROADCAST"
    "expectedSeq rst = DTAP_FRAME_SEQ_INIT" "s_rxList rst = []" "s_crcInit rst = s_crcInit st" "mem_ok (e_mem re)"
  shows "\<exists>b' pf rst' re'. DTAP_SendStreamFrame xmit ch p b st e =
      (fst (transmit xmit (Some b') e), st\<lparr>frameTxSeq := seqn (Suc j)\<rparr>, snd (transmit xmit (Some b') e)) \<and>
    buff_data b' ! 0 = c_dstTcid ch \<and> wire_length b' + DTAP_BASIC_HEADER_LEN = dataLen b' \<and>
    DTAP_ParseFrame DTAP_FRAME_SIMPLEX_FRAG b' (frame0 c0) = (DTAP_SUCCESS, pf) \<and> payloadLen pf = dataLen b \<and>
    DTAP_CheckEnhanceFrameHeader pf \<and> DTAP_CheckStreamFrame pf \<and>
    DTAP_RecvStreamFrame rch pf (Some cb) rst re = (DTAP_SUCCESS, rst', re') \<and> expectedSeq rst' = seqn (Suc (Suc j)) \<and>
    upcalls (e_dl re') = upcalls (e_dl re) @
      [(\<lparr>info_pi = p, info_lcid = c_lcid rch, info_tcid = c_srcTcid rch\<rparr>, buff_data b)]"
proof -
  let ?g = "\<lambda>_. (\<lparr>info_pi = p, info_lcid = c_lcid rch, info_tcid = c_srcTcid rch\<rparr>, buff_data b)"
  obtain b' pf where s: "DTAP_PackStreamFrame (c_dstTcid ch) p b DTAP_SAR_UNSEG st = (DTAP_SUCCESS, b', st\<lparr>frameTxSeq := seqn (Suc j)\<rparr>)"
    "buff_data b' ! 0 = c_dstTcid ch" "wire_length b' + DTAP_BASIC_HEADER_LEN = dataLen b'"
    "DTAP_ParseFrame DTAP_FRAME_SIMPLEX_FRAG b' (frame0 c0) = (DTAP_SUCCESS, pf)" "payloadLen pf = dataLen b"
    "DTAP_CheckEnhanceFrameHeader pf" "DTAP_CheckStreamFrame pf" "stream_frame rch (s_crcInit st) ?g (Suc j) pf"
    using pack_stream_parsed [OF assms(1-4,6), of ?g p rch "c_dstTcid ch" c0] by auto
  have f: "stream_frame rch (s_crcInit rst) ?g (Suc j) pf" using s(8) assms(10) by simp
  obtain rst' re' where r: "DTAP_RecvStreamFrame rch pf (Some cb) rst re = (DTAP_SUCCESS, rst', re')"
    "stream_sim rch (s_crcInit rst) ?g (Suc (Suc j), []) (rst', re')" "upcalls (e_dl re') = upcalls (e_dl re) @ [?g (Suc j)]"
    using recv_first_stream_frame [OF assms(8,9,11) f, of cb] by auto
  have "DTAP_SendStreamFrame xmit ch p b st e =
      (fst (transmit xmit (Some b') e), st\<lparr>frameTxSeq := seqn (Suc j)\<rparr>, snd (transmit xmit (Some b') e))"
    using s(1) assms(5,7) by (simp add: DTAP_SendStreamFrame_def case_prod_beta)
  then show ?thesis using s r by (auto simp: stream_sim_def)
qed

theorem stream_frame_roundtrip_witness:
  "\<exists>b' pf rst' re'. DTAP_SendStreamFrame (\<lambda>_ w. (DTAP_SUCCESS, w)) demo_stream_chan 7 (demo_unit 9) demo_stream demo_stream_env =
      (DTAP_SUCCESS, demo_stream\<lparr>frameTxSeq := 1\<rparr>, demo_stream_env) \<and>
    DTAP_ParseFrame DTAP_FRAME_SIMPLEX_FRAG b' (frame0 CtxBasic) = (DTAP_SUCCESS, pf) \<and>
    DTAP_RecvStreamFrame demo_stream_chan pf (Some (\<lambda>_ _ _. DTAP_SUCCESS)) demo_stream demo_stream_env = (DTAP_SUCCESS, rst', re') \<and>
    upcalls (e_dl re') = [(\<lparr>info_pi = 7, info_lcid = 5, info_tcid = 0x20\<rparr>, [9])]"
proof -
  have s: "seqn 0 = 0" "seqn (Suc 0) = 1" by (simp_all add: seqn_def)
  let ?x = "\<lambda>_ w. (DTAP_SUCCESS, w)" and ?cb = "\<lambda>_ _ _. DTAP_SUCCESS"
  obtain b' pf rst' re' where r: "DTAP_SendStreamFrame ?x demo_stream_chan 7 (demo_unit 9) demo_stream demo_stream_env =
      (fst (transmit ?x (Some b') demo_stream_env), demo_stream\<lparr>frameTxSeq := seqn (Suc 0)\<rparr>, snd (transmit ?x (Some b') demo_stream_env))"
    "DTAP_ParseFrame DTAP_FRAME_SIMPLEX_FRAG b' (frame0 CtxBasic) = (DTAP_SUCCESS, pf)"
    "DTAP_RecvStreamFrame demo_stream_chan pf (Some ?cb) demo_stream demo_stream_env = (DTAP_SUCCESS, rst', re')"
    "upcalls (e_dl re') = upcalls (e_dl demo_stream_env) @ [(\<lparr>info_pi = 7, info_lcid = c_lcid demo_stream_chan,
       info_tcid = c_srcTcid demo_stream_chan\<rparr>, buff_data (demo_unit 9))]"
    using stream_frame_roundtrip [of "demo_unit 9" demo_stream_chan demo_stream 0 demo_stream demo_stream_env ?x 7 demo_stream_env CtxBasic demo_stream_chan ?cb]
    by (auto simp: demo_unit_props demo_stream_chan_def demo_stream_def demo_stream_env_def s)
  have "upcalls (e_dl re') = [(\<lparr>info_pi = 7, info_lcid = 5, info_tcid = 0x20\<rparr>, [9])]"
    using r(4) by (simp add: demo_unit_props demo_stream_chan_def demo_stream_env_def upcalls_def)
  then show ?thesis using r(1-3) s by (auto simp: transmit_def demo_stream_env_def)
qed

section \<open>The reorder timer\<close>

lemma oldest_node_head:
  "\<forall>y\<in>set xs. t \<le> n_timeStamp y \<Longrightarrow> oldest_node xs t s = (t, s)"
  by (induction xs) auto

lemma not_smaller_self [simp]: "\<not> DTAP_IsFrameSeqSmaller s s"
  by (simp add: smaller_soff)

text \<open>The frame at the head of the list is the one that has waited longest, and it is not the one
  expected.\<close>

definition gap_waiting :: "StreamRxNode \<Rightarrow> StreamRxNode list \<Rightarrow> DTAP_Stream_Channel \<Rightarrow> bool" where
  "gap_waiting x xs st \<longleftrightarrow> s_rxList st = x # xs \<and> n_txSeq x \<noteq> expectedSeq st \<and> reorderTxSeq st = n_txSeq x \<and>
     (\<forall>y\<in>set xs. n_timeStamp x \<le> n_timeStamp y)"

lemma start_timer_gap:
  assumes "gap_waiting x xs st"
  shows "\<exists>h t ts. StartReorderTimer st e = (st\<lparr>reorderTimerHandle := h\<rparr>, e\<lparr>e_tim := t, e_clock := ts\<rparr>)"
proof -
  have g: "s_rxList st = x # xs" "reorderTxSeq st = n_txSeq x" "\<forall>y\<in>set xs. n_timeStamp x \<le> n_timeStamp y"
    using assms by (auto simp: gap_waiting_def)
  have o: "snd (oldest_node (s_rxList st) now (reorderTxSeq st)) = reorderTxSeq st" for now
  proof (cases "n_timeStamp x < now")
    case True then show ?thesis using g oldest_node_head by simp
  next
    case False
    then have "\<forall>y\<in>set xs. now \<le> n_timeStamp y" using g(3) by auto
    then show ?thesis using False g oldest_node_head by simp
  qed
  obtain s h t ts where r: "StartReorderTimer st e = (st\<lparr>reorderTxSeq := s, reorderTimerHandle := h\<rparr>, e\<lparr>e_tim := t, e_clock := ts\<rparr>)"
    using StartReorderTimer_eq by blast
  then have "reorderTxSeq (fst (StartReorderTimer st e)) = s" by simp
  moreover have "reorderTxSeq (fst (StartReorderTimer st e)) = reorderTxSeq st"
  proof -
    obtain now e1 m q where c: "DP_GetMonoTimeMs e = (now, e1)" "oldest_node (s_rxList st) now (reorderTxSeq st) = (m, q)" by fastforce
    then have "q = reorderTxSeq st" using o [of now] by simp
    then show ?thesis using c by (simp add: StartReorderTimer_def Let_def split: prod.splits)
  qed
  ultimately have "st\<lparr>reorderTxSeq := s, reorderTimerHandle := h\<rparr> = st\<lparr>reorderTimerHandle := h\<rparr>" by simp
  then show ?thesis using r by auto
qed

lemma reorder_task_gap:
  assumes "gap_waiting x xs st"
  shows "\<exists>st' e'. DTAP_ReorderStreamFrameTask ch st e = (st', e') \<and> gap_waiting x xs st' \<and>
    expectedSeq st' = expectedSeq st \<and> e_dl e' = e_dl e"
proof -
  have g: "s_rxList st = x # xs" "reorderTxSeq st = n_txSeq x" "n_txSeq x \<noteq> expectedSeq st" using assms by (auto simp: gap_waiting_def)
  let ?s1 = "st\<lparr>reorderTimerHandle := INVALID_TIMER_HANDLE\<rparr>"
  let ?s2 = "?s1\<lparr>maxExpectedSeq := last_txSeq (s_rxList ?s1) + 1\<rparr>"
  have "report_overdue ch ?s1 e = (?s1, e)" using g by (subst report_overdue.simps) simp
  moreover have "ReportExpectedStreamFrame ch ?s1 e = (?s1, e)" using g by (subst ReportExpectedStreamFrame.simps) simp
  ultimately have t: "DTAP_ReorderStreamFrameTask ch st e = StartReorderTimer ?s2 e" by (simp add: DTAP_ReorderStreamFrameTask_def)
  have w: "gap_waiting x xs ?s2" using assms by (simp add: gap_waiting_def)
  obtain h tm ts where "StartReorderTimer ?s2 e = (?s2\<lparr>reorderTimerHandle := h\<rparr>, e\<lparr>e_tim := tm, e_clock := ts\<rparr>)"
    using start_timer_gap [OF w] by blast
  moreover have "gap_waiting x xs (?s2\<lparr>reorderTimerHandle := h\<rparr>)" using w by (simp add: gap_waiting_def)
  ultimately show ?thesis using t by auto
qed


definition demo_gap :: DTAP_Stream_Channel where
  "demo_gap = demo_stream\<lparr>expectedSeq := 2, maxExpectedSeq := 5, reorderTxSeq := 3,
     s_rxList := map (\<lambda>k. \<lparr>n_sar = 0, n_txSeq = of_nat k, n_buff = demo_unit k, n_timeStamp = 100 + k, n_pi = 7, n_lcid = 5, n_tcid = 0x20\<rparr>) [3, 4]\<rparr>"


end
