(* ===== verification/Sdf_Map.thy ===== *)
theory Sdf_Map
  imports Nl_Prelude
begin

text \<open>
  The map of the framework, \<^verbatim>\<open>services/stack/src/sdf/bsl/dsl/src/sdf_map.c\<close>: a singly linked list of key-value
  pairs, the latest insertion first, searched with the comparison function of the key type.

  Keys and values are pointers in the code; the model has what they point to. The destructors of the
  traits act on the state \<open>'s\<close> of the client. \<open>None\<close> for a map stands for the null pointer.
\<close>

section \<open>State and operations\<close>

record ('a, 's) SDF_Traits =
  dtor :: "('a \<Rightarrow> 's \<Rightarrow> 's) option"
  cmptor :: "('a \<Rightarrow> 'a \<Rightarrow> int) option"

record ('k, 'v, 's) SDF_Map =
  keyTraits :: "('k, 's) SDF_Traits"
  valTraits :: "('v, 's) SDF_Traits"
  entry :: "('k \<times> 'v) list"

text \<open>\<open>SDF_MapCtor\<close> makes sure that the functions the map calls are present.\<close>

definition run_dtor :: "('a, 's) SDF_Traits \<Rightarrow> 'a \<Rightarrow> 's \<Rightarrow> 's" where
  "run_dtor tr x s = (case dtor tr of None \<Rightarrow> s | Some f \<Rightarrow> f x s)"

definition key_eq :: "('k, 'v, 's) SDF_Map \<Rightarrow> 'k \<Rightarrow> 'k \<Rightarrow> bool" where
  "key_eq mp k k' = (case cmptor (keyTraits mp) of None \<Rightarrow> False | Some c \<Rightarrow> c k k' = 0)"

definition SDF_MapCtor :: "('k, 's) SDF_Traits \<Rightarrow> ('v, 's) SDF_Traits \<Rightarrow> mem \<Rightarrow> ('k, 'v, 's) SDF_Map option \<times> mem" where
  "SDF_MapCtor kt vt m =
     (if dtor kt = None \<or> cmptor kt = None \<or> dtor vt = None then (None, m)
      else case SDF_MemAlloc m of (ok, m1) \<Rightarrow>
        (if ok then Some \<lparr>keyTraits = kt, valTraits = vt, entry = []\<rparr> else None, m1))"

definition SDF_MapDtor :: "('k, 'v, 's) SDF_Map option \<Rightarrow> 's \<Rightarrow> 's" where
  "SDF_MapDtor tbl s =
     (case tbl of None \<Rightarrow> s
      | Some mp \<Rightarrow> foldl (\<lambda>s (k, v). run_dtor (valTraits mp) v (run_dtor (keyTraits mp) k s)) s (entry mp))"

definition SDF_MapFind :: "('k, 'v, 's) SDF_Map option \<Rightarrow> 'k \<Rightarrow> ('k \<times> 'v) option" where
  "SDF_MapFind tbl key =
     (case tbl of None \<Rightarrow> None | Some mp \<Rightarrow> find_first (\<lambda>(k, _). key_eq mp k key) (entry mp))"

definition SDF_MapMoveInsert :: "('k, 'v, 's) SDF_Map option \<Rightarrow> 'k \<Rightarrow> 'v \<Rightarrow> mem \<Rightarrow> bool \<times> ('k, 'v, 's) SDF_Map option \<times> mem" where
  "SDF_MapMoveInsert tbl key val m =
     (case tbl of
        None \<Rightarrow> (False, tbl, m)
      | Some mp \<Rightarrow>
          if SDF_MapFind tbl key \<noteq> None then (False, tbl, m)
          else case SDF_MemAlloc m of (ok, m1) \<Rightarrow>
            if \<not> ok then (False, tbl, m1) else (True, Some (mp\<lparr>entry := (key, val) # entry mp\<rparr>), m1))"

definition SDF_MapErase :: "('k, 'v, 's) SDF_Map option \<Rightarrow> 'k \<Rightarrow> 's \<Rightarrow> bool \<times> ('k, 'v, 's) SDF_Map option \<times> 's" where
  "SDF_MapErase tbl key s =
     (case tbl of
        None \<Rightarrow> (False, tbl, s)
      | Some mp \<Rightarrow>
          (case find_first (\<lambda>(k, _). key_eq mp k key) (entry mp) of
             None \<Rightarrow> (False, tbl, s)
           | Some (k, v) \<Rightarrow>
               (True, Some (mp\<lparr>entry := remove_first (\<lambda>(k, _). key_eq mp k key) (entry mp)\<rparr>),
                run_dtor (valTraits mp) v (run_dtor (keyTraits mp) k s))))"

text \<open>A store through the pointer that a search returned: the value is changed in place.\<close>

definition map_update :: "('k, 'v, 's) SDF_Map option \<Rightarrow> 'k \<Rightarrow> ('v \<Rightarrow> 'v) \<Rightarrow> ('k, 'v, 's) SDF_Map option" where
  "map_update tbl key f =
     map_option (\<lambda>mp. mp\<lparr>entry := upd_first (\<lambda>(k, _). key_eq mp k key) (\<lambda>(k, v). (k, f v)) (entry mp)\<rparr>) tbl"

section \<open>A map is a partial function\<close>

text \<open>What a client relies on: the map holds a partial function from keys to values.\<close>

locale keyed_table =
  fixes invar :: "'t \<Rightarrow> bool"
    and lookup :: "'t \<Rightarrow> 'k \<Rightarrow> 'v option"
    and insert :: "'k \<Rightarrow> 'v \<Rightarrow> 't \<Rightarrow> 't"
    and update :: "'k \<Rightarrow> ('v \<Rightarrow> 'v) \<Rightarrow> 't \<Rightarrow> 't"
    and erase :: "'k \<Rightarrow> 't \<Rightarrow> 't"
  assumes lookup_insert: "invar t \<Longrightarrow> lookup t k = None \<Longrightarrow> lookup (insert k v t) k' = (if k' = k then Some v else lookup t k')"
    and lookup_update: "invar t \<Longrightarrow> lookup (update k f t) k' = (if k' = k then map_option f (lookup t k) else lookup t k')"
    and lookup_erase: "invar t \<Longrightarrow> lookup (erase k t) k' = (if k' = k then None else lookup t k')"
    and invar_insert: "invar t \<Longrightarrow> lookup t k = None \<Longrightarrow> invar (insert k v t)"
    and invar_update: "invar t \<Longrightarrow> invar (update k f t)"
    and invar_erase: "invar t \<Longrightarrow> invar (erase k t)"
begin

lemma erase_insert: "invar t \<Longrightarrow> lookup t k = None \<Longrightarrow> lookup (erase k (insert k v t)) = lookup t"
  by (rule ext) (simp add: lookup_erase lookup_insert invar_insert)

lemma update_insert:
  "invar t \<Longrightarrow> lookup t k = None \<Longrightarrow> lookup (update k f (insert k v t)) = lookup (insert k (f v) t)"
  by (rule ext) (simp add: lookup_update lookup_insert invar_insert)

lemma erase_update: "invar t \<Longrightarrow> lookup (erase k (update k f t)) = lookup (erase k t)"
  by (rule ext) (simp add: lookup_erase lookup_update invar_update)

lemma lookup_other:
  assumes "invar t" "k' \<noteq> k"
  shows "lookup (erase k t) k' = lookup t k'" "lookup (update k f t) k' = lookup t k'"
    "lookup t k = None \<Longrightarrow> lookup (insert k v t) k' = lookup t k'"
  using assms by (simp_all add: lookup_erase lookup_update lookup_insert)

end

text \<open>The list of pairs, with a comparison that tells keys apart, is such a table.\<close>

definition alist_lookup :: "('k \<times> 'v) list \<Rightarrow> 'k \<Rightarrow> 'v option" where
  "alist_lookup l k = map_option snd (find_first (\<lambda>(k', _). k' = k) l)"

definition alist_erase :: "'k \<Rightarrow> ('k \<times> 'v) list \<Rightarrow> ('k \<times> 'v) list" where
  "alist_erase k l = remove_first (\<lambda>(k', _). k' = k) l"

definition alist_update :: "'k \<Rightarrow> ('v \<Rightarrow> 'v) \<Rightarrow> ('k \<times> 'v) list \<Rightarrow> ('k \<times> 'v) list" where
  "alist_update k f l = upd_first (\<lambda>(k', _). k' = k) (\<lambda>(k', v). (k', f v)) l"

lemma alist_lookup_simps [simp]:
  "alist_lookup [] k = None"
  "alist_lookup ((k', v) # l) k = (if k' = k then Some v else alist_lookup l k)"
  by (simp_all add: alist_lookup_def)

lemma alist_erase_simps [simp]:
  "alist_erase k [] = []"
  "alist_erase k ((k', v) # l) = (if k' = k then l else (k', v) # alist_erase k l)"
  by (simp_all add: alist_erase_def)

lemma alist_update_simps [simp]:
  "alist_update k f [] = []"
  "alist_update k f ((k', v) # l) = (if k' = k then (k', f v) # l else (k', v) # alist_update k f l)"
  by (simp_all add: alist_update_def)

lemma alist_lookup_None: "alist_lookup l k = None \<longleftrightarrow> k \<notin> fst ` set l"
  by (induction l) (auto split: if_splits)

lemma alist_lookup_Some: "alist_lookup l k = Some v \<Longrightarrow> (k, v) \<in> set l"
  by (induction l) (auto split: if_splits)

lemma alist_lookup_set: "distinct (map fst l) \<Longrightarrow> (k, v) \<in> set l \<Longrightarrow> alist_lookup l k = Some v"
  by (induction l) (auto simp: rev_image_eqI)

lemma alist_update_keys [simp]: "map fst (alist_update k f l) = map fst l"
  by (induction l) auto

lemma set_alist_erase: "distinct (map fst l) \<Longrightarrow> set (alist_erase k l) = {x \<in> set l. fst x \<noteq> k}"
  by (induction l) (auto simp: rev_image_eqI split: if_splits)

lemma alist_lookup_update:
  "alist_lookup (alist_update k f l) k' = (if k' = k then map_option f (alist_lookup l k) else alist_lookup l k')"
  by (induction l) auto

lemma alist_lookup_erase:
  "distinct (map fst l) \<Longrightarrow> alist_lookup (alist_erase k l) k' = (if k' = k then None else alist_lookup l k')"
proof (induction l)
  case (Cons x l)
  then show ?case by (cases x) (auto simp: alist_lookup_None set_alist_erase)
qed simp

lemma alist_distinct_erase: "distinct (map fst l) \<Longrightarrow> distinct (map fst (alist_erase k l))"
proof (induction l)
  case (Cons x l)
  then show ?case by (cases x) (auto simp: set_alist_erase)
qed simp

interpretation alist: keyed_table "\<lambda>l. distinct (map fst l)" alist_lookup "\<lambda>k v l. (k, v) # l" alist_update alist_erase
  by unfold_locales (simp_all add: alist_lookup_update alist_lookup_erase alist_distinct_erase alist_lookup_None)

section \<open>The operations on a map with a proper key comparison\<close>

definition proper_keys :: "('k, 'v, 's) SDF_Map \<Rightarrow> bool" where
  "proper_keys mp \<longleftrightarrow> (\<forall>k k'. key_eq mp k k' \<longleftrightarrow> k = k')"

lemma key_eq_entry [simp]: "key_eq (mp\<lparr>entry := l\<rparr>) = key_eq mp"
  by (intro ext) (simp add: key_eq_def)

lemma MapFind_alist: "proper_keys mp \<Longrightarrow> map_option snd (SDF_MapFind (Some mp) key) = alist_lookup (entry mp) key"
  by (simp add: SDF_MapFind_def alist_lookup_def proper_keys_def)

lemma MapMoveInsert_alist:
  "proper_keys mp \<Longrightarrow> SDF_MapMoveInsert (Some mp) key v m =
     (if alist_lookup (entry mp) key \<noteq> None then (False, Some mp, m)
      else case SDF_MemAlloc m of (ok, m1) \<Rightarrow>
        (ok, Some (if ok then mp\<lparr>entry := (key, v) # entry mp\<rparr> else mp), m1))"
  by (auto simp: SDF_MapMoveInsert_def MapFind_alist [symmetric] split: prod.splits)

lemma MapErase_alist:
  "proper_keys mp \<Longrightarrow> SDF_MapErase (Some mp) key s =
     (case find_first (\<lambda>(k, _). k = key) (entry mp) of
        None \<Rightarrow> (False, Some mp, s)
      | Some (k, v) \<Rightarrow> (True, Some (mp\<lparr>entry := alist_erase key (entry mp)\<rparr>),
                         run_dtor (valTraits mp) v (run_dtor (keyTraits mp) k s)))"
  by (simp add: SDF_MapErase_def proper_keys_def alist_erase_def split: option.splits)

lemma map_update_alist: "proper_keys mp \<Longrightarrow> map_update (Some mp) key f = Some (mp\<lparr>entry := alist_update key f (entry mp)\<rparr>)"
  by (simp add: map_update_def proper_keys_def alist_update_def)

end
