(* ===== verification/Sdf_Vector.thy ===== *)
theory Sdf_Vector
  imports Sdf_Map
begin

text \<open>
  The growing array of pointers of the framework, \<^verbatim>\<open>services/stack/src/sdf/bsl/dsl/src/sdf_vector.c\<close>. The block
  \<open>buf\<close> has \<open>capacity\<close> cells, of which the first \<open>vsize\<close> are in use; a cell that holds the null pointer is
  \<open>None\<close>. The destructor of the traits acts on the state \<open>'s\<close> of the client.
\<close>

section \<open>State and operations\<close>

record ('a, 's) SDF_Vector =
  buf :: "'a option list"
  vsize :: nat
  capacity :: nat
  vtraits :: "('a option, 's) SDF_Traits"

abbreviation (input) SDF_VECTOR_DEFAULT_CAPACITY :: nat where "SDF_VECTOR_DEFAULT_CAPACITY \<equiv> 8"
abbreviation (input) SDF_VECTOR_GROW_FACTOR :: nat where "SDF_VECTOR_GROW_FACTOR \<equiv> 2"

definition SDF_CreateVectorByCapacity :: "nat \<Rightarrow> ('a option, 's) SDF_Traits \<Rightarrow> mem \<Rightarrow> ('a, 's) SDF_Vector option \<times> mem" where
  "SDF_CreateVectorByCapacity cap tr m =
     (if cap = 0 then (None, m)
      else case SDF_MemAlloc m of (ok, m1) \<Rightarrow>
        if \<not> ok then (None, m1)
        else case SDF_MemAlloc m1 of (ok2, m2) \<Rightarrow>
          if \<not> ok2 then (None, m2)
          else (Some \<lparr>buf = replicate cap None, vsize = 0, capacity = cap, vtraits = tr\<rparr>, m2))"

definition SDF_CreateVector :: "('a option, 's) SDF_Traits \<Rightarrow> mem \<Rightarrow> ('a, 's) SDF_Vector option \<times> mem" where
  "SDF_CreateVector tr m = SDF_CreateVectorByCapacity SDF_VECTOR_DEFAULT_CAPACITY tr m"

text \<open>The loop over the cells in use.\<close>

definition run_dtors :: "('a, 's) SDF_Vector \<Rightarrow> 's \<Rightarrow> 's" where
  "run_dtors v s = foldl (\<lambda>s x. run_dtor (vtraits v) x s) s (take (vsize v) (buf v))"

definition SDF_DestroyVector :: "('a, 's) SDF_Vector option \<Rightarrow> 's \<Rightarrow> 's" where
  "SDF_DestroyVector vec s = (case vec of None \<Rightarrow> s | Some v \<Rightarrow> run_dtors v s)"

definition SDF_CleanVector :: "('a, 's) SDF_Vector option \<Rightarrow> 's \<Rightarrow> ('a, 's) SDF_Vector option \<times> 's" where
  "SDF_CleanVector vec s =
     (case vec of
        None \<Rightarrow> (None, s)
      | Some v \<Rightarrow>
          if dtor (vtraits v) \<noteq> None
          then (Some (v\<lparr>buf := replicate (vsize v) None @ drop (vsize v) (buf v), vsize := 0\<rparr>), run_dtors v s)
          else (Some (v\<lparr>vsize := 0\<rparr>), s))"

definition VectorGrow :: "('a, 's) SDF_Vector \<Rightarrow> mem \<Rightarrow> bool \<times> ('a, 's) SDF_Vector \<times> mem" where
  "VectorGrow v m =
     (case SDF_MemAlloc m of (ok, m1) \<Rightarrow>
        if \<not> ok then (False, v, m1)
        else (True, v\<lparr>buf := list_write 0 (take (capacity v) (buf v)) (replicate (capacity v * SDF_VECTOR_GROW_FACTOR) None),
                      capacity := capacity v * SDF_VECTOR_GROW_FACTOR\<rparr>, m1))"

definition SDF_VectorEmplaceBack :: "('a, 's) SDF_Vector option \<Rightarrow> 'a option \<Rightarrow> mem \<Rightarrow> bool \<times> ('a, 's) SDF_Vector option \<times> mem" where
  "SDF_VectorEmplaceBack vec ptr m =
     (case (vec, ptr) of
        (Some v, Some x) \<Rightarrow>
          (case (if capacity v = vsize v then VectorGrow v m else (True, v, m)) of (ok, v1, m1) \<Rightarrow>
             if \<not> ok then (False, Some v1, m1)
             else (True, Some (v1\<lparr>buf := (buf v1)[vsize v1 := Some x], vsize := vsize v1 + 1\<rparr>), m1))
      | _ \<Rightarrow> (False, vec, m))"

text \<open>\<^verbatim>\<open>memmove_s\<close> of the cells behind \<open>i\<close> one place down.\<close>

definition close_gap :: "nat \<Rightarrow> nat \<Rightarrow> 'a list \<Rightarrow> 'a list" where
  "close_gap i n l = (if i \<noteq> n - 1 then list_write i (take (n - i - 1) (drop (i + 1) l)) l else l)"

definition SDF_VectorRemove :: "('a, 's) SDF_Vector option \<Rightarrow> nat \<Rightarrow> 's \<Rightarrow> ('a, 's) SDF_Vector option \<times> 's" where
  "SDF_VectorRemove vec i s =
     (case vec of
        None \<Rightarrow> (None, s)
      | Some v \<Rightarrow>
          if i \<ge> vsize v then (vec, s)
          else (Some (v\<lparr>buf := close_gap i (vsize v) (buf v), vsize := vsize v - 1\<rparr>), run_dtor (vtraits v) (buf v ! i) s))"

definition SDF_VectorRemoveLast :: "('a, 's) SDF_Vector option \<Rightarrow> 's \<Rightarrow> ('a, 's) SDF_Vector option \<times> 's" where
  "SDF_VectorRemoveLast vec s =
     (case vec of None \<Rightarrow> (None, s) | Some v \<Rightarrow> if vsize v = 0 then (vec, s) else SDF_VectorRemove vec (vsize v - 1) s)"

fun find_from :: "('a \<Rightarrow> bool) \<Rightarrow> nat \<Rightarrow> 'a list \<Rightarrow> nat option" where
  "find_from p i [] = None"
| "find_from p i (x # xs) = (if p x then Some i else find_from p (i + 1) xs)"

definition SDF_VectorFindFirstByStartIndex :: "('a, 's) SDF_Vector option \<Rightarrow> ('a option \<Rightarrow> bool) \<Rightarrow> nat \<Rightarrow> nat option" where
  "SDF_VectorFindFirstByStartIndex vec p startIndex =
     (case vec of
        None \<Rightarrow> None
      | Some v \<Rightarrow> if startIndex \<ge> vsize v then None
                  else find_from p startIndex (drop startIndex (take (vsize v) (buf v))))"

definition SDF_VectorFindFirst :: "('a, 's) SDF_Vector option \<Rightarrow> ('a option \<Rightarrow> bool) \<Rightarrow> nat option" where
  "SDF_VectorFindFirst vec p = SDF_VectorFindFirstByStartIndex vec p 0"

definition SDF_VectorElementAt :: "('a, 's) SDF_Vector option \<Rightarrow> nat \<Rightarrow> 'a option" where
  "SDF_VectorElementAt vec i =
     (case vec of None \<Rightarrow> None | Some v \<Rightarrow> if i \<ge> vsize v then None else buf v ! i)"

definition SDF_VectorPopElement :: "('a, 's) SDF_Vector option \<Rightarrow> nat \<Rightarrow> 'a option \<times> ('a, 's) SDF_Vector option" where
  "SDF_VectorPopElement vec i =
     (case vec of
        None \<Rightarrow> (None, None)
      | Some v \<Rightarrow>
          if i \<ge> vsize v then (None, vec)
          else (buf v ! i, Some (v\<lparr>buf := close_gap i (vsize v) (buf v), vsize := vsize v - 1\<rparr>)))"

text \<open>\<^verbatim>\<open>qsort\<close> leaves the order of equal elements open: it is the argument \<open>qs\<close>.\<close>

definition SDF_VectorSort :: "('a option list \<Rightarrow> 'a option list) \<Rightarrow> ('a, 's) SDF_Vector option \<Rightarrow> ('a, 's) SDF_Vector option" where
  "SDF_VectorSort qs vec =
     (case vec of
        None \<Rightarrow> None
      | Some v \<Rightarrow> if vsize v = 0 then vec else Some (v\<lparr>buf := qs (take (vsize v) (buf v)) @ drop (vsize v) (buf v)\<rparr>))"

section \<open>A vector is a list\<close>

definition wf_vector :: "('a, 's) SDF_Vector \<Rightarrow> bool" where
  "wf_vector v \<longleftrightarrow> vsize v \<le> capacity v \<and> length (buf v) = capacity v \<and> 0 < capacity v \<and>
     None \<notin> set (take (vsize v) (buf v))"

definition elems :: "('a, 's) SDF_Vector \<Rightarrow> 'a list" where
  "elems v = map the (take (vsize v) (buf v))"

lemma elems_buf: "wf_vector v \<Longrightarrow> take (vsize v) (buf v) = map Some (elems v)"
  by (auto simp: elems_def wf_vector_def intro!: map_idI [symmetric]) (metis option.exhaust_sel)

lemma length_elems: "wf_vector v \<Longrightarrow> length (elems v) = vsize v"
  by (simp add: elems_def wf_vector_def)

lemma buf_split: "wf_vector v \<Longrightarrow> buf v = map Some (elems v) @ drop (vsize v) (buf v)"
  by (metis elems_buf append_take_drop_id)

lemma buf_nth: "wf_vector v \<Longrightarrow> i < vsize v \<Longrightarrow> buf v ! i = Some (elems v ! i)"
  by (subst buf_split) (simp_all add: nth_append length_elems)

text \<open>A vector built from a list in use and spare cells.\<close>

lemma wf_vectorI:
  assumes "buf v = map Some xs @ spare" "vsize v = length xs" "capacity v = length xs + length spare" "0 < capacity v"
  shows "wf_vector v \<and> elems v = xs"
  using assms by (auto simp: wf_vector_def elems_def comp_def)

lemma close_gap_split:
  "i < length xs \<Longrightarrow> \<exists>y. close_gap i (length xs) (xs @ ys) = take i xs @ drop (i + 1) xs @ y # ys"
proof (cases "i = length xs - 1")
  case True
  assume i: "i < length xs"
  then have "xs = take i xs @ [xs ! i]" using True by (metis Suc_pred' gr_implies_not0 length_greater_0_conv list.size(3) take_Suc_conv_app_nth take_all_iff order_refl)
  then show ?thesis using True i by (intro exI [of _ "xs ! i"]) (simp add: close_gap_def)
next
  case False
  assume i: "i < length xs"
  have "drop (length xs - 1) (xs @ ys) = last xs # ys"
    using i by (cases xs rule: rev_cases) simp_all
  then show ?thesis
    using False i by (intro exI [of _ "last xs"]) (simp add: close_gap_def list_write_def)
qed

lemma VectorGrow_wf:
  assumes "wf_vector v" "VectorGrow v m = (True, v1, m1)"
  shows "wf_vector v1 \<and> elems v1 = elems v \<and> vsize v1 = vsize v \<and> vsize v1 < capacity v1 \<and> vtraits v1 = vtraits v"
proof -
  have n: "vsize v \<le> capacity v" "length (buf v) = capacity v" "0 < capacity v" using assms(1) by (auto simp: wf_vector_def)
  have v1: "v1 = v\<lparr>buf := buf v @ replicate (capacity v) None, capacity := capacity v * 2\<rparr>"
    using assms(2) n(2) by (auto simp: VectorGrow_def list_write_def mult_2_right drop_replicate split: prod.splits if_splits)
  have "buf v1 = map Some (elems v) @ drop (vsize v) (buf v) @ replicate (capacity v) None"
    by (simp add: v1) (metis buf_split [OF assms(1)] append_assoc)
  from wf_vectorI [OF this] v1 n length_elems [OF assms(1)] show ?thesis by simp
qed

lemma EmplaceBack_elems:
  assumes "wf_vector v" "SDF_VectorEmplaceBack (Some v) (Some x) m = (True, vec, m1)"
  shows "\<exists>v1. vec = Some v1 \<and> wf_vector v1 \<and> elems v1 = elems v @ [x]"
proof -
  obtain v2 m2 where g: "(if capacity v = vsize v then VectorGrow v m else (True, v, m)) = (True, v2, m2)"
    and vec: "vec = Some (v2\<lparr>buf := (buf v2)[vsize v2 := Some x], vsize := vsize v2 + 1\<rparr>)"
    using assms(2) by (auto simp: SDF_VectorEmplaceBack_def split: prod.splits if_splits)
  have w: "wf_vector v2" "elems v2 = elems v" "vsize v2 < capacity v2"
  proof -
    show "wf_vector v2" "elems v2 = elems v" "vsize v2 < capacity v2"
    proof (atomize (full), cases "capacity v = vsize v")
      case True
      then show "wf_vector v2 \<and> elems v2 = elems v \<and> vsize v2 < capacity v2"
        using g VectorGrow_wf [OF assms(1), of m v2 m2] by simp
    next
      case False
      then show "wf_vector v2 \<and> elems v2 = elems v \<and> vsize v2 < capacity v2"
        using g assms(1) by (simp add: wf_vector_def)
    qed
  qed
  have n: "length (buf v2) = capacity v2" "length (elems v2) = vsize v2" using w(1) by (auto simp: wf_vector_def length_elems)
  then obtain y ys where y: "drop (vsize v2) (buf v2) = y # ys" using w(3) by (cases "drop (vsize v2) (buf v2)") auto
  have "(buf v2)[vsize v2 := Some x] = map Some (elems v2 @ [x]) @ ys"
    by (subst buf_split [OF w(1)]) (simp add: y list_update_append n(2))
  moreover have "length ys = capacity v2 - vsize v2 - 1" using y n(1) by (metis diff_Suc_1 length_Cons length_drop)
  ultimately show ?thesis
    using vec w(2,3) n(2) wf_vectorI [of "v2\<lparr>buf := (buf v2)[vsize v2 := Some x], vsize := vsize v2 + 1\<rparr>" "elems v2 @ [x]" ys] by simp
qed

lemma close_gap_elems:
  assumes "wf_vector v" "i < vsize v"
  defines "w \<equiv> v\<lparr>buf := close_gap i (vsize v) (buf v), vsize := vsize v - 1\<rparr>"
  shows "wf_vector w \<and> elems w = take i (elems v) @ drop (i + 1) (elems v)"
proof -
  have n: "length (elems v) = vsize v" "length (buf v) = capacity v" "vsize v \<le> capacity v" "0 < capacity v"
    using assms(1) by (auto simp: wf_vector_def length_elems)
  obtain y where "close_gap i (vsize v) (buf v) = take i (map Some (elems v)) @ drop (i + 1) (map Some (elems v)) @ y # drop (vsize v) (buf v)"
    using close_gap_split [of i "map Some (elems v)" "drop (vsize v) (buf v)"] assms(2) buf_split [OF assms(1)] n(1) by auto
  then have "buf w = map Some (take i (elems v) @ drop (i + 1) (elems v)) @ y # drop (vsize v) (buf v)"
    by (simp add: w_def take_map drop_map)
  from wf_vectorI [OF this] show ?thesis using n assms(2) by (simp add: w_def)
qed

lemma find_from_Some:
  "find_from p i xs = Some j \<longleftrightarrow> i \<le> j \<and> j < i + length xs \<and> p (xs ! (j - i)) \<and> (\<forall>k<j - i. \<not> p (xs ! k))"
proof (induction p i xs rule: find_from.induct)
  case (2 p i x xs)
  show ?case
  proof (cases "p x")
    case True
    then show ?thesis by (auto simp: nth_Cons' split: if_splits)
  next
    case False
    then have "find_from p i (x # xs) = Some j \<longleftrightarrow> i + 1 \<le> j \<and> j < i + 1 + length xs \<and> p (xs ! (j - (i + 1))) \<and> (\<forall>k<j - (i + 1). \<not> p (xs ! k))"
      using 2 by simp
    also have "\<dots> \<longleftrightarrow> i \<le> j \<and> j < i + length (x # xs) \<and> p ((x # xs) ! (j - i)) \<and> (\<forall>k<j - i. \<not> p ((x # xs) ! k))"
    proof (cases "i + 1 \<le> j")
      case True
      then have "j - i = Suc (j - (i + 1))" by simp
      then show ?thesis using True False by (auto simp: less_Suc_eq_0_disj)
    next
      case f: False
      then show ?thesis using False by (auto simp: le_Suc_eq not_le)
    qed
    finally show ?thesis .
  qed
qed simp

lemma EmplaceBack_ok:
  assumes "mem_ok m"
  shows "\<exists>vec m1. SDF_VectorEmplaceBack (Some v) (Some x) m = (True, vec, m1)"
proof -
  obtain m1 where "SDF_MemAlloc m = (True, m1)" using SDF_MemAlloc_okE [OF assms] by blast
  then show ?thesis by (simp add: SDF_VectorEmplaceBack_def VectorGrow_def)
qed

text \<open>(C28) The vector refines the list of its elements. Appending adds at the end, growing the block when it is
  full; it can fail only for lack of memory and then changes nothing. Access by index, removal of an
  element, taking an element out and the search for the first match do on the vector what they do on the
  list, and an index outside the list changes nothing.\<close>

theorem SDF_Vector_refines_list:
  assumes "wf_vector v"
  shows "(mem_ok m \<longrightarrow> (\<exists>w m1. SDF_VectorEmplaceBack (Some v) (Some x) m = (True, Some w, m1) \<and>
            wf_vector w \<and> elems w = elems v @ [x])) \<and>
    (\<forall>vec m1. SDF_VectorEmplaceBack (Some v) (Some x) m = (False, vec, m1) \<longrightarrow> vec = Some v) \<and>
    SDF_VectorElementAt (Some v) i = (if i < length (elems v) then Some (elems v ! i) else None) \<and>
    (\<exists>w. SDF_VectorPopElement (Some v) i = (SDF_VectorElementAt (Some v) i, Some w) \<and>
            wf_vector w \<and> elems w = take i (elems v) @ drop (i + 1) (elems v)) \<and>
    (\<exists>w. fst (SDF_VectorRemove (Some v) i s) = Some w \<and>
            wf_vector w \<and> elems w = take i (elems v) @ drop (i + 1) (elems v)) \<and>
    (SDF_VectorFindFirst (Some v) p = Some j \<longleftrightarrow>
       j < length (elems v) \<and> p (Some (elems v ! j)) \<and> (\<forall>k<j. \<not> p (Some (elems v ! k))))"
proof (intro conjI)
  have n: "length (elems v) = vsize v" by (rule length_elems [OF assms])
  have el: "SDF_VectorElementAt (Some v) i = (if i < length (elems v) then Some (elems v ! i) else None)"
    using buf_nth [OF assms] n by (auto simp: SDF_VectorElementAt_def)
  have out: "take i (elems v) @ drop (i + 1) (elems v) = elems v" if "\<not> i < vsize v" using that n by simp
  show "mem_ok m \<longrightarrow> (\<exists>w m1. SDF_VectorEmplaceBack (Some v) (Some x) m = (True, Some w, m1) \<and>
      wf_vector w \<and> elems w = elems v @ [x])"
    using EmplaceBack_ok [of m v x] EmplaceBack_elems [OF assms] by fastforce
  show "\<forall>vec m1. SDF_VectorEmplaceBack (Some v) (Some x) m = (False, vec, m1) \<longrightarrow> vec = Some v"
    by (auto simp: SDF_VectorEmplaceBack_def VectorGrow_def split: prod.splits if_splits)
  show "SDF_VectorElementAt (Some v) i = (if i < length (elems v) then Some (elems v ! i) else None)" by (fact el)
  show "\<exists>w. SDF_VectorPopElement (Some v) i = (SDF_VectorElementAt (Some v) i, Some w) \<and>
      wf_vector w \<and> elems w = take i (elems v) @ drop (i + 1) (elems v)"
    using close_gap_elems [OF assms, of i] out assms by (auto simp: SDF_VectorPopElement_def SDF_VectorElementAt_def not_le)
  show "\<exists>w. fst (SDF_VectorRemove (Some v) i s) = Some w \<and> wf_vector w \<and> elems w = take i (elems v) @ drop (i + 1) (elems v)"
    using close_gap_elems [OF assms, of i] out assms by (auto simp: SDF_VectorRemove_def not_le)
  have d: "take (vsize v) (buf v) ! k = Some (elems v ! k)" if "k < vsize v" for k using buf_nth [OF assms that] that by simp
  show "SDF_VectorFindFirst (Some v) p = Some j \<longleftrightarrow>
      j < length (elems v) \<and> p (Some (elems v ! j)) \<and> (\<forall>k<j. \<not> p (Some (elems v ! k)))"
  proof (cases "vsize v = 0")
    case True
    then show ?thesis by (simp add: SDF_VectorFindFirst_def SDF_VectorFindFirstByStartIndex_def n)
  next
    case False
    have "vsize v \<le> length (buf v)" using assms by (simp add: wf_vector_def)
    then have "SDF_VectorFindFirst (Some v) p = Some j \<longleftrightarrow> j < vsize v \<and>
        p (take (vsize v) (buf v) ! j) \<and> (\<forall>k<j. \<not> p (take (vsize v) (buf v) ! k))"
      using False by (simp add: SDF_VectorFindFirst_def SDF_VectorFindFirstByStartIndex_def find_from_Some)
    also have "\<dots> \<longleftrightarrow> j < length (elems v) \<and> p (Some (elems v ! j)) \<and> (\<forall>k<j. \<not> p (Some (elems v ! k)))"
      unfolding n using d by (metis order.strict_trans)
    finally show ?thesis .
  qed
qed

text \<open>Witness: a vector with both of its cells in use; appending to it makes the block grow.\<close>

definition demo_vector :: "(nat, unit) SDF_Vector" where
  "demo_vector = \<lparr>buf = [Some 7, Some 9], vsize = 2, capacity = 2, vtraits = \<lparr>dtor = None, cmptor = None\<rparr>\<rparr>"

theorem SDF_Vector_refines_list_witness:
  "\<exists>w m1. SDF_VectorEmplaceBack (Some demo_vector) (Some 11) [] = (True, Some w, m1) \<and>
     wf_vector w \<and> elems w = elems demo_vector @ [11]"
  using SDF_Vector_refines_list [of demo_vector "[]" 11] by (simp add: demo_vector_def wf_vector_def)

end
