(* ===== verification/Dtap_Channel.thy ===== *)
theory Dtap_Channel
  imports Dtap_Basic Dtap_Stream Dtap_Reliable Dtap_Scheduler Sdf_Vector
begin

text \<open>
  The channel table, \<^verbatim>\<open>services/stack/src/dp/dtap/src/dtap_channel.c\<close>: the transmission channels of the device, grouped by
  logic link, created and removed as the connection manager reports them.

  A channel structure is in two parts here, as two components work on it: its fixed fields and the
  attributes of its transmission mode are in the table (\<open>DTAP_Channel\<close>), its packet queue is in the
  scheduler's \<open>chanStore\<close> under the address \<open>ch_addr\<close>. The state \<open>chan_state\<close> has the map of links and the
  environment of the modes, whose \<open>e_tx\<close> is the scheduler.
\<close>

section \<open>State\<close>

datatype chan_attr = AttrNone | AttrBasic DTAP_Basic_Channel | AttrStream DTAP_Stream_Channel | AttrReliable DTAP_ReliableChannel

record DTAP_Channel =
  ch_addr :: nat
  ch_info :: chan_info
  ch_attr :: chan_attr

type_synonym dp_env = "sched env"

type_synonym logic_links = "(u16w, DTAP_Channel list, dp_env) SDF_Map"

text \<open>\<open>cmTransListener\<close> and \<open>cmLinkListener\<close> say whether the two callbacks of the file are registered with the
  connection manager.\<close>

record chan_state =
  g_dtapLogicLinksMap :: "logic_links option"
  cs_env :: dp_env
  cmTransListener :: bool
  cmLinkListener :: bool

abbreviation (input) CM_TRANS_MODE_BASIC :: nat where "CM_TRANS_MODE_BASIC \<equiv> 0"
abbreviation (input) CM_TRANS_MODE_TRANSPARENT :: nat where "CM_TRANS_MODE_TRANSPARENT \<equiv> 1"
abbreviation (input) CM_TRANS_MODE_STREAM :: nat where "CM_TRANS_MODE_STREAM \<equiv> 2"

text \<open>\<open>CM_TransChan_S\<close> with its configuration; the two members of the union in \<open>CM_TransModeConfig_S\<close> are
  separate fields, of which the mode selects one.\<close>

record CM_TransReliableModeConfig =
  rc_reorderTimeout :: nat
  rc_crcInit :: u16w
  rc_retransTimeout :: nat
  rc_rspTimeout :: nat
  rc_txWindow :: nat
  rc_maxTxThreshold :: nat

record CM_TransStreamModeConfig =
  sc_reorderTimeout :: nat
  sc_crcInit :: u16w
  sc_flushTimeout :: nat

record CM_TransChan =
  p_castMode :: nat
  p_lcid :: u16w
  p_srcTcid :: byte
  p_dstTcid :: byte
  p_transMode :: nat
  p_mtu :: nat
  p_mps :: nat
  p_reliableMode :: CM_TransReliableModeConfig
  p_streamMode :: CM_TransStreamModeConfig

section \<open>Destruction\<close>

text \<open>Freeing the buffers of the lists has no counterpart; the timers are stopped.\<close>

definition DTAP_StreamChannelDestroy :: "DTAP_Stream_Channel \<Rightarrow> 'w env \<Rightarrow> 'w env" where
  "DTAP_StreamChannelDestroy st e =
     (if reorderTimerHandle st \<noteq> INVALID_TIMER_HANDLE then e\<lparr>e_tim := CP_TimerDel (reorderTimerHandle st) (e_tim e)\<rparr> else e)"

definition DTAP_ReliableChannelDestroy :: "DTAP_ReliableChannel \<Rightarrow> 'w env \<Rightarrow> 'w env" where
  "DTAP_ReliableChannelDestroy r e =
     (case stop_timer (reorderTimer r) e of (_, e1) \<Rightarrow>
      case stop_timer (retransTimer r) e1 of (_, e2) \<Rightarrow>
      case stop_timer (rspTimer r) e2 of (_, e3) \<Rightarrow> e3)"

definition DTAP_ChannelDestroy :: "DTAP_Channel \<Rightarrow> dp_env \<Rightarrow> dp_env" where
  "DTAP_ChannelDestroy c e =
     (case ch_attr c of
        AttrStream st \<Rightarrow> if c_mode (ch_info c) = CM_TRANS_MODE_STREAM then DTAP_StreamChannelDestroy st e else e
      | AttrReliable r \<Rightarrow> if c_mode (ch_info c) = CM_TRANS_MODE_RELIABLE then DTAP_ReliableChannelDestroy r e else e
      | _ \<Rightarrow> e)"

section \<open>The map of links\<close>

definition DTAP_LogicLinkCompare :: "u16w \<Rightarrow> u16w \<Rightarrow> int" where
  "DTAP_LogicLinkCompare lhs rhs = uint lhs - uint rhs"

definition DTAP_LogicLinksDtor :: "DTAP_Channel list \<Rightarrow> dp_env \<Rightarrow> dp_env" where
  "DTAP_LogicLinksDtor l e = foldl (\<lambda>e c. DTAP_ChannelDestroy c e) e l"

definition DTAP_LogicLinkMapInit :: "chan_state \<Rightarrow> dtap_ret \<times> chan_state" where
  "DTAP_LogicLinkMapInit st =
     (case SDF_MapCtor \<lparr>dtor = Some (\<lambda>_ e. e), cmptor = Some DTAP_LogicLinkCompare\<rparr>
             \<lparr>dtor = Some DTAP_LogicLinksDtor, cmptor = None\<rparr> (e_mem (cs_env st)) of
        (mp, m) \<Rightarrow>
          ((if mp = None then DTAP_TRANS_CHANNEL_CREATE_LINK_MAP_ERR else DTAP_SUCCESS),
           st\<lparr>g_dtapLogicLinksMap := mp, cs_env := (cs_env st)\<lparr>e_mem := m\<rparr>\<rparr>))"

definition DTAP_LogicLinkMapDeInit :: "chan_state \<Rightarrow> chan_state" where
  "DTAP_LogicLinkMapDeInit st =
     (if g_dtapLogicLinksMap st \<noteq> None
      then st\<lparr>cs_env := SDF_MapDtor (g_dtapLogicLinksMap st) (cs_env st), g_dtapLogicLinksMap := None\<rparr> else st)"

definition DTAP_LogicLinkFind :: "u16w \<Rightarrow> chan_state \<Rightarrow> DTAP_Channel list option" where
  "DTAP_LogicLinkFind lcid st = map_option snd (SDF_MapFind (g_dtapLogicLinksMap st) lcid)"

text \<open>A channel in transparent mode answers for every identifier.\<close>

definition chan_match :: "byte \<Rightarrow> DTAP_Channel \<Rightarrow> bool" where
  "chan_match tcid c \<longleftrightarrow> c_mode (ch_info c) = CM_TRANS_MODE_TRANSPARENT \<or> c_srcTcid (ch_info c) = tcid"

definition DTAP_ChannelFind :: "DTAP_Channel list \<Rightarrow> byte \<Rightarrow> DTAP_Channel option" where
  "DTAP_ChannelFind l tcid = find_first (chan_match tcid) l"

definition DTAP_ChannelSearch :: "u16w \<Rightarrow> byte \<Rightarrow> chan_state \<Rightarrow> DTAP_Channel option" where
  "DTAP_ChannelSearch lcid tcid st =
     (case DTAP_LogicLinkFind lcid st of None \<Rightarrow> None | Some l \<Rightarrow> DTAP_ChannelFind l tcid)"

section \<open>Creation\<close>

abbreviation (input) CM_TCID_SLE_CMTC :: byte where "CM_TCID_SLE_CMTC \<equiv> 0x02"
abbreviation (input) CM_TCID_SLE_SMTC :: byte where "CM_TCID_SLE_SMTC \<equiv> 0x0A"
abbreviation (input) CM_TCID_SLE_CUTC :: byte where "CM_TCID_SLE_CUTC \<equiv> 0x1F"
abbreviation (input) DTAP_PRIORITY_CMD :: nat where "DTAP_PRIORITY_CMD \<equiv> 1"
abbreviation (input) DTAP_PRIORITY_HIGH :: nat where "DTAP_PRIORITY_HIGH \<equiv> 2"
abbreviation (input) DTAP_PRIORITY_NORMAL :: nat where "DTAP_PRIORITY_NORMAL \<equiv> 3"
abbreviation (input) DTAP_STREAM_FLUSH_TIMEOUT :: nat where "DTAP_STREAM_FLUSH_TIMEOUT \<equiv> 1000"
abbreviation (input) DTAP_STREAM_REORDER_TIMEOUT :: nat where "DTAP_STREAM_REORDER_TIMEOUT \<equiv> 1000"
abbreviation (input) DTAP_RELIABLE_REORDER_TIMEOUT :: nat where "DTAP_RELIABLE_REORDER_TIMEOUT \<equiv> 10000"
abbreviation (input) DTAP_RELIABLE_RETRANS_TIMEOUT :: nat where "DTAP_RELIABLE_RETRANS_TIMEOUT \<equiv> 1000"
abbreviation (input) DTAP_RELIABLE_RSP_TIMEOUT :: nat where "DTAP_RELIABLE_RSP_TIMEOUT \<equiv> 1000"
abbreviation (input) CM_CAP_WND :: nat where "CM_CAP_WND \<equiv> 200"

definition DTAP_BasicChannelCreate :: "byte \<Rightarrow> mem \<Rightarrow> DTAP_Basic_Channel option \<times> mem" where
  "DTAP_BasicChannelCreate srcTcid m =
     (case SDF_MemAlloc m of (ok, m1) \<Rightarrow>
        (if ok then Some \<lparr>isReady = (srcTcid \<noteq> CM_TCID_SLE_SMTC), cacheRxBuffs = []\<rparr> else None, m1))"

definition DTAP_InitTxWindow :: "nat \<Rightarrow> DTAP_TxWindow" where
  "DTAP_InitTxWindow sz = \<lparr>tx_size = sz, nextTxSeq = 0, expectedAckSeq = 0, txList = []\<rparr>"

definition DTAP_InitRxWindow :: "nat \<Rightarrow> DTAP_RxWindow" where
  "DTAP_InitRxWindow sz = \<lparr>rx_size = sz, bufferSeq = 0, expectedTxSeq = 0, maxExpectedTxSeq = 0, rxList = []\<rparr>"

definition DTAP_StreamChannelCreate :: "CM_TransChan \<Rightarrow> mem \<Rightarrow> DTAP_Stream_Channel option \<times> mem" where
  "DTAP_StreamChannelCreate param m =
     (case SDF_MemAlloc m of (ok, m1) \<Rightarrow>
        let cfg = p_streamMode param in
        (if ok then Some
           \<lparr>flushTimeout = (if sc_flushTimeout cfg = 0 \<or> sc_flushTimeout cfg > DTAP_STREAM_FLUSH_TIMEOUT
                            then DTAP_STREAM_FLUSH_TIMEOUT else sc_flushTimeout cfg),
            s_reorderTimeout = (if sc_reorderTimeout cfg = 0 \<or> sc_reorderTimeout cfg > DTAP_STREAM_REORDER_TIMEOUT
                                then DTAP_STREAM_REORDER_TIMEOUT else sc_reorderTimeout cfg),
            s_crcInit = sc_crcInit cfg, reorderTxSeq = 0, expectedSeq = DTAP_FRAME_SEQ_INIT,
            maxExpectedSeq = DTAP_FRAME_SEQ_INIT, frameTxSeq = 0, reorderTimerHandle = INVALID_TIMER_HANDLE,
            s_rxList = [], s_recvCb = None\<rparr>
         else None, m1))"

definition SetChannelCastMode :: "nat \<Rightarrow> nat" where
  "SetChannelCastMode castMode =
     (if castMode = 0 then DTAP_FRAME_UNICAST
      else if castMode = 1 \<or> castMode = 2 \<or> castMode = 3 then DTAP_FRAME_MULTICAST
      else if castMode = 4 \<or> castMode = 5 then DTAP_FRAME_BROADCAST else DTAP_FRAME_UNICAST)"

definition DTAP_ReliableChannelCreate :: "CM_TransChan \<Rightarrow> dp_env \<Rightarrow> DTAP_ReliableChannel option \<times> dp_env" where
  "DTAP_ReliableChannelCreate param e =
     (case SDF_MemAlloc (e_mem e) of (ok, m) \<Rightarrow>
      let e1 = e\<lparr>e_mem := m\<rparr>; cfg = p_reliableMode param;
          rsp = (if rc_rspTimeout cfg = 0 then DTAP_RELIABLE_RSP_TIMEOUT else rc_rspTimeout cfg);
          window = (if rc_txWindow cfg = 0 then CM_CAP_WND else rc_txWindow cfg) in
      if \<not> ok then (None, e1)
      else case DTAP_TransStartTimer INVALID_TIMER_HANDLE rsp RspTimerExpire (e_tim e1) of (started, h, t) \<Rightarrow>
        (if started then Some
           \<lparr>r_reorderTimeout = (if rc_reorderTimeout cfg = 0 then DTAP_RELIABLE_REORDER_TIMEOUT else rc_reorderTimeout cfg),
            r_crcInit = rc_crcInit cfg,
            retransTimeout = (if rc_retransTimeout cfg = 0 then DTAP_RELIABLE_RETRANS_TIMEOUT else rc_retransTimeout cfg),
            rspTimeout = rsp, maxTxThreshold = rc_maxTxThreshold cfg, reorderTimer = INVALID_TIMER_HANDLE,
            retransTimer = INVALID_TIMER_HANDLE, rspTimer = h, isRecvFrame = False, isRxWindowFull = False, reTxSeq = 0,
            txWindow = DTAP_InitTxWindow window, nackCnt = 0, rxWindow = DTAP_InitRxWindow window, frags = None, cachePi = 0,
            cacheBuff = None, sendPollingCounter = 0, isTxWindowFull = False, isDestroyMsgSent = False\<rparr>
         else None, e1\<lparr>e_tim := t\<rparr>))"

definition chan_priority :: "byte \<Rightarrow> nat" where
  "chan_priority srcTcid =
     (if srcTcid = CM_TCID_SLE_CMTC then DTAP_PRIORITY_CMD
      else if srcTcid \<le> CM_TCID_SLE_CUTC then DTAP_PRIORITY_HIGH else DTAP_PRIORITY_NORMAL)"

text \<open>The attributes that the mode asks for; the other modes have none. \<open>None\<close> is a failure.\<close>

definition create_attr :: "CM_TransChan \<Rightarrow> dp_env \<Rightarrow> chan_attr option \<times> dp_env" where
  "create_attr param e =
     (if p_transMode param = CM_TRANS_MODE_STREAM then
        (case DTAP_StreamChannelCreate param (e_mem e) of (a, m) \<Rightarrow> (map_option AttrStream a, e\<lparr>e_mem := m\<rparr>))
      else if p_transMode param = CM_TRANS_MODE_RELIABLE then
        (case DTAP_ReliableChannelCreate param e of (a, e1) \<Rightarrow> (map_option AttrReliable a, e1))
      else if p_transMode param = CM_TRANS_MODE_BASIC then
        (case DTAP_BasicChannelCreate (p_srcTcid param) (e_mem e) of (a, m) \<Rightarrow> (map_option AttrBasic a, e\<lparr>e_mem := m\<rparr>))
      else (Some AttrNone, e))"

definition DTAP_ChannelCreate :: "CM_TransChan \<Rightarrow> dp_env \<Rightarrow> DTAP_Channel option \<times> dp_env" where
  "DTAP_ChannelCreate param e =
     (case SDF_MemAlloc (e_mem e) of (ok, m) \<Rightarrow>
      let e1 = e\<lparr>e_mem := m\<rparr> in
      if \<not> ok then (None, e1)
      else
        let s = e_tx e1; a = nextAddr s; prio = chan_priority (p_srcTcid param);
            info = \<lparr>c_lcid = p_lcid param, c_srcTcid = p_srcTcid param, c_dstTcid = p_dstTcid param,
                    c_mode = p_transMode param, c_mtu = p_mtu param, c_mps = p_mps param,
                    c_castMode = SetChannelCastMode (p_castMode param), c_type = 0, c_priority = prio\<rparr>;
            s1 = (upd_chan a (\<lambda>_. \<lparr>sc_lcid = p_lcid param, sc_srcTcid = p_srcTcid param, sc_dstTcid = p_dstTcid param,
                    sc_priority = prio, pktList = []\<rparr>) s)\<lparr>nextAddr := a + 1\<rparr> in
        (case create_attr param (e1\<lparr>e_tx := s1\<rparr>) of
           (None, e2) \<Rightarrow> (None, e2)
         | (Some att, e2) \<Rightarrow> (Some \<lparr>ch_addr = a, ch_info = info, ch_attr = att\<rparr>, e2)))"

section \<open>The table follows the connection manager\<close>

definition upd_link :: "u16w \<Rightarrow> (DTAP_Channel list \<Rightarrow> DTAP_Channel list) \<Rightarrow> chan_state \<Rightarrow> chan_state" where
  "upd_link lcid f st = st\<lparr>g_dtapLogicLinksMap := map_update (g_dtapLogicLinksMap st) lcid f\<rparr>"

definition erase_link :: "u16w \<Rightarrow> chan_state \<Rightarrow> chan_state" where
  "erase_link lcid st =
     (case SDF_MapErase (g_dtapLogicLinksMap st) lcid (cs_env st) of (_, mp, e) \<Rightarrow>
        st\<lparr>g_dtapLogicLinksMap := mp, cs_env := e\<rparr>)"

definition link_empty :: "u16w \<Rightarrow> chan_state \<Rightarrow> bool" where
  "link_empty lcid st \<longleftrightarrow> DTAP_LogicLinkFind lcid st = Some []"

text \<open>\<open>DTAP_LogicLinkCreate\<close> and the insertion of the new link into the map, as \<open>DTAP_ChannelAdd\<close> does them.\<close>

definition DTAP_LogicLinkCreate :: "u16w \<Rightarrow> chan_state \<Rightarrow> bool \<times> chan_state" where
  "DTAP_LogicLinkCreate lcid st =
     (case SDF_MemAlloc (e_mem (cs_env st)) of (ok, m) \<Rightarrow> (ok, st\<lparr>cs_env := (cs_env st)\<lparr>e_mem := m\<rparr>\<rparr>))"

definition ensure_link :: "u16w \<Rightarrow> chan_state \<Rightarrow> bool \<times> chan_state" where
  "ensure_link lcid st =
     (if DTAP_LogicLinkFind lcid st \<noteq> None then (True, st)
      else case DTAP_LogicLinkCreate lcid st of (ok, st1) \<Rightarrow>
        if \<not> ok then (False, st1)
        else case SDF_MapMoveInsert (g_dtapLogicLinksMap st1) lcid [] (e_mem (cs_env st1)) of (ins, mp, m) \<Rightarrow>
          (ins, st1\<lparr>g_dtapLogicLinksMap := mp, cs_env := (cs_env st1)\<lparr>e_mem := m\<rparr>\<rparr>))"

text \<open>Unlinking and destroying the channel that a search for \<open>tcid\<close> finds on the link.\<close>

definition drop_channel :: "u16w \<Rightarrow> byte \<Rightarrow> chan_state \<Rightarrow> chan_state" where
  "drop_channel lcid tcid st =
     (case DTAP_ChannelSearch lcid tcid st of
        None \<Rightarrow> st
      | Some c \<Rightarrow>
          let st1 = upd_link lcid (remove_first (chan_match tcid)) st in
          st1\<lparr>cs_env := DTAP_ChannelDestroy c (cs_env st1)\<rparr>)"

definition DTAP_ChannelAdd :: "CM_TransChan \<Rightarrow> chan_state \<Rightarrow> chan_state" where
  "DTAP_ChannelAdd param st =
     (let lcid = p_lcid param in
      case ensure_link lcid st of (ok, st1) \<Rightarrow>
        if \<not> ok then st1
        else let st2 = drop_channel lcid (p_srcTcid param) st1 in
          case DTAP_ChannelCreate param (cs_env st2) of (new, e) \<Rightarrow>
            let st3 = st2\<lparr>cs_env := e\<rparr> in
            (case new of
               None \<Rightarrow> if link_empty lcid st3 then erase_link lcid st3 else st3
             | Some c \<Rightarrow> upd_link lcid (\<lambda>l. c # l) st3))"

definition DTAP_ChannelDel :: "CM_TransChan \<Rightarrow> chan_state \<Rightarrow> chan_state" where
  "DTAP_ChannelDel param st =
     (let lcid = p_lcid param in
      if DTAP_ChannelSearch lcid (p_srcTcid param) st = None then st
      else let e = cs_env st;
               st1 = st\<lparr>cs_env := e\<lparr>e_tx := DTAP_ChannelDown lcid (p_srcTcid param) (e_tx e)\<rparr>\<rparr>;
               st2 = drop_channel lcid (p_srcTcid param) st1
           in if link_empty lcid st2 then erase_link lcid st2 else st2)"

text \<open>The vector of channels of a state change; its elements are owned by the connection manager.\<close>

definition DTAP_ChannelsOperate :: "(CM_TransChan, unit) SDF_Vector \<Rightarrow> (CM_TransChan \<Rightarrow> chan_state \<Rightarrow> chan_state) \<Rightarrow>
    chan_state \<Rightarrow> chan_state" where
  "DTAP_ChannelsOperate v opt st =
     foldl (\<lambda>st i. case SDF_VectorElementAt (Some v) i of None \<Rightarrow> st | Some p \<Rightarrow> opt p st) st [0..<vsize v]"

abbreviation (input) CM_TRANS_CHANNEL_STATE_ACTIVATED :: nat where "CM_TRANS_CHANNEL_STATE_ACTIVATED \<equiv> 2"
abbreviation (input) CM_TRANS_CHANNEL_STATE_RELEASED :: nat where "CM_TRANS_CHANNEL_STATE_RELEASED \<equiv> 4"
abbreviation (input) CM_LINK_STATE_CONNECTED :: nat where "CM_LINK_STATE_CONNECTED \<equiv> 0"

definition DTAP_ChannelStateChangeCbk :: "nat \<Rightarrow> (CM_TransChan, unit) SDF_Vector option \<Rightarrow> chan_state \<Rightarrow> chan_state" where
  "DTAP_ChannelStateChangeCbk result vec st =
     (case vec of
        None \<Rightarrow> st
      | Some v \<Rightarrow>
          if result = CM_TRANS_CHANNEL_STATE_ACTIVATED then DTAP_ChannelsOperate v DTAP_ChannelAdd st
          else if result = CM_TRANS_CHANNEL_STATE_RELEASED then DTAP_ChannelsOperate v DTAP_ChannelDel st
          else st)"

text \<open>\<open>COLLAB_PreAssignTransBuffer\<close> calls a function of an extension that is loaded at run time and has been given
  \<open>DTAP_SetApBufferNum\<close>: told the number of connected links (\<open>CM_GetLogicLinkConnectedSize\<close>, here the argument
  \<open>linkNum\<close>), it may assign another buffer number. It is the parameter \<open>preAssign\<close>.\<close>

abbreviation (input) CM_LINK_STATE_DISCONNECTED :: nat where "CM_LINK_STATE_DISCONNECTED \<equiv> 2"

definition DTAP_LinkCollabProc :: "(nat \<Rightarrow> nat option) \<Rightarrow> nat \<Rightarrow> nat \<Rightarrow> chan_state \<Rightarrow> chan_state" where
  "DTAP_LinkCollabProc preAssign linkNum result st =
     (if result = CM_LINK_STATE_CONNECTED \<or> result = CM_LINK_STATE_DISCONNECTED then
        (case preAssign (u8 linkNum) of
           None \<Rightarrow> st
         | Some n \<Rightarrow> st\<lparr>cs_env := (cs_env st)\<lparr>e_tx := DTAP_SetApBufferNum n (e_tx (cs_env st))\<rparr>\<rparr>)
      else st)"

text \<open>The loop over the channels of a link that became connected.\<close>

fun continue_basic :: "DTAP_Channel list \<Rightarrow> dp_env \<Rightarrow> DTAP_Channel list \<times> dp_env" where
  "continue_basic [] e = ([], e)"
| "continue_basic (c # cs) e =
     (let (c1, e1) = (case (c_mode (ch_info c) = CM_TRANS_MODE_BASIC, ch_attr c) of
                        (True, AttrBasic bc) \<Rightarrow>
                          (case DTAP_RecvBasicFrameContinue bc e of (bc1, e1) \<Rightarrow> (c\<lparr>ch_attr := AttrBasic bc1\<rparr>, e1))
                      | _ \<Rightarrow> (c, e));
          (cs1, e2) = continue_basic cs e1
      in (c1 # cs1, e2))"

definition DTAP_LogicLinkStateChangeCbk :: "(nat \<Rightarrow> nat option) \<Rightarrow> nat \<Rightarrow> (u16w \<times> nat) option \<Rightarrow> chan_state \<Rightarrow> chan_state" where
  "DTAP_LogicLinkStateChangeCbk preAssign linkNum param st =
     (case param of
        None \<Rightarrow> st
      | Some (lcid, result) \<Rightarrow>
          let st1 = DTAP_LinkCollabProc preAssign linkNum result st in
          if result \<noteq> CM_LINK_STATE_CONNECTED then st1
          else (case DTAP_LogicLinkFind lcid st1 of
                  None \<Rightarrow> st1
                | Some l \<Rightarrow>
                    (case continue_basic l (cs_env st1) of (l1, e1) \<Rightarrow>
                       (upd_link lcid (\<lambda>_. l1) st1)\<lparr>cs_env := e1\<rparr>)))"

section \<open>Life cycle\<close>

text \<open>What the calls into the control thread and the connection manager answer: whether each posted function ran and was
  reported, and the results of the two registrations.\<close>

record init_results =
  i_executed :: bool
  i_posted :: bool
  i_deexecuted :: bool
  i_deposted :: bool
  i_regTrans :: dtap_ret
  i_regLink :: dtap_ret

definition run_sched :: "(sched \<Rightarrow> dtap_ret \<times> sched) \<Rightarrow> chan_state \<Rightarrow> dtap_ret \<times> chan_state" where
  "run_sched f st =
     (case f (e_tx (cs_env st)) of (ret, s) \<Rightarrow> (ret, st\<lparr>cs_env := (cs_env st)\<lparr>e_tx := s\<rparr>\<rparr>))"

definition DTAP_ChannelInit :: "init_results \<Rightarrow> chan_state \<Rightarrow> dtap_ret \<times> chan_state" where
  "DTAP_ChannelInit ir st =
     (case DTAP_LogicLinkMapInit st of (ret, st1) \<Rightarrow>
      if ret \<noteq> DTAP_SUCCESS then (ret, st1)
      else case run_sched (DTAP_SchedulerInit (i_executed ir) (i_posted ir)) st1 of (ret2, st2) \<Rightarrow>
      if ret2 \<noteq> DTAP_SUCCESS then (ret2, DTAP_LogicLinkMapDeInit st2)
      else if i_regTrans ir \<noteq> DTAP_SUCCESS then
        (i_regTrans ir, DTAP_LogicLinkMapDeInit (snd (run_sched (DTAP_SchedulerDeinit (i_deexecuted ir) (i_deposted ir)) st2)))
      else let st3 = st2\<lparr>cmTransListener := True\<rparr> in
      if i_regLink ir \<noteq> DTAP_SUCCESS then
        (i_regLink ir, DTAP_LogicLinkMapDeInit (snd (run_sched (DTAP_SchedulerDeinit (i_deexecuted ir) (i_deposted ir))
           (st3\<lparr>cmTransListener := False\<rparr>))))
      else (DTAP_SUCCESS, st3\<lparr>cmLinkListener := True\<rparr>))"

definition DTAP_ChannelDeInit :: "init_results \<Rightarrow> chan_state \<Rightarrow> chan_state" where
  "DTAP_ChannelDeInit ir st =
     DTAP_LogicLinkMapDeInit (snd (run_sched (DTAP_SchedulerDeinit (i_deexecuted ir) (i_deposted ir))
       (st\<lparr>cmLinkListener := False, cmTransListener := False\<rparr>)))"

end
