(* ===== verification/Dtap_Core.thy ===== *)
theory Dtap_Core
  imports Dtap_Channel
begin

text \<open>
  The entry points of the data plane, \<^verbatim>\<open>services/stack/src/dp/dtap/src/dtap.c\<close>: sending and receiving through the channel table and the
  registered transmission modes, the registries of receive callbacks, initialisation. The table of function pointers of
  a mode (\<^verbatim>\<open>DTAP_TransMode_S\<close>) becomes a function per entry that selects on \<open>trans_mode\<close>; an operation gets the
  channel, returns it changed, and the caller stores it back into the table. The scheduler is the layer below:
  \<open>DTAP_SendFrame\<close> of \<^verbatim>\<open>dtap_frame.c\<close> hands a frame to it under the address of the channel.

  \<open>known\<close> tells which channels the connection manager knows (\<^verbatim>\<open>CM_FindTransChannelByLocalTcid\<close>).
\<close>

section \<open>State\<close>

record dtap =
  g_dtapIsInited :: bool
  g_dtapRecvCbks :: "(byte \<times> recv_cb) list"
  g_dtapProtoRecvCbks :: "recv_cb option list"
  g_dtapDataSendCbks :: bool
  d_modes :: mode_table
  cmSignaling :: bool
  d_chan :: chan_state

definition upd_mem :: "mem \<Rightarrow> dtap \<Rightarrow> dtap" where
  "upd_mem m d = d\<lparr>d_chan := (d_chan d)\<lparr>cs_env := (cs_env (d_chan d))\<lparr>e_mem := m\<rparr>\<rparr>\<rparr>"

section \<open>Callbacks\<close>

definition DTAP_RegisterDataSendCbks :: "bool \<Rightarrow> dtap \<Rightarrow> dtap" where
  "DTAP_RegisterDataSendCbks present d = (if present then d\<lparr>g_dtapDataSendCbks := True\<rparr> else d)"

definition DTAP_UnRegisterDataSendCbks :: "dtap \<Rightarrow> dtap" where
  "DTAP_UnRegisterDataSendCbks d = d\<lparr>g_dtapDataSendCbks := False\<rparr>"

definition DTAP_GetProtoRecvCbk :: "byte \<Rightarrow> dtap \<Rightarrow> recv_cb option" where
  "DTAP_GetProtoRecvCbk p d = (if unat p < DTAP_PI_MAX then g_dtapProtoRecvCbks d ! unat p else None)"

definition DTAP_RegisterProtoRecvCbk :: "byte \<Rightarrow> recv_cb option \<Rightarrow> dtap \<Rightarrow> dtap_ret \<times> dtap" where
  "DTAP_RegisterProtoRecvCbk p cbk d =
     (if \<not> g_dtapIsInited d then (DTAP_MODULE_NOT_INITED_ERR, d)
      else if \<not> unat p < DTAP_PI_MAX then (DTAP_REGISTER_RECV_CB_INVALID_PI, d)
      else if cbk = None then (DTAP_REGISTER_RECV_CB_NULL_ERR, d)
      else (DTAP_SUCCESS, d\<lparr>g_dtapProtoRecvCbks := (g_dtapProtoRecvCbks d)[unat p := cbk]\<rparr>))"

definition DTAP_UnregisterProtoRecvCbk :: "byte \<Rightarrow> dtap \<Rightarrow> dtap_ret \<times> dtap" where
  "DTAP_UnregisterProtoRecvCbk p d =
     (if \<not> g_dtapIsInited d then (DTAP_MODULE_NOT_INITED_ERR, d)
      else if \<not> unat p < DTAP_PI_MAX then (DTAP_REGISTER_RECV_CB_INVALID_PI, d)
      else if g_dtapProtoRecvCbks d ! unat p = None then (DTAP_REGISTER_RECV_CB_INVALID_PI, d)
      else (DTAP_SUCCESS, d\<lparr>g_dtapProtoRecvCbks := (g_dtapProtoRecvCbks d)[unat p := None]\<rparr>))"

definition DTAP_DataRecvCbksInit :: "dtap \<Rightarrow> dtap" where
  "DTAP_DataRecvCbksInit d = d\<lparr>g_dtapRecvCbks := []\<rparr>"

definition DTAP_ClearDataRecvCbks :: "dtap \<Rightarrow> dtap" where
  "DTAP_ClearDataRecvCbks d = d\<lparr>g_dtapRecvCbks := []\<rparr>"

definition DTAP_GetDataRecvCbkByTcid :: "byte \<Rightarrow> dtap \<Rightarrow> recv_cb option" where
  "DTAP_GetDataRecvCbkByTcid tcid d = map_option snd (find_first (\<lambda>(t, _). t = tcid) (g_dtapRecvCbks d))"

definition DTAP_AddDataRecvCbkEntry :: "byte \<Rightarrow> recv_cb \<Rightarrow> dtap \<Rightarrow> dtap_ret \<times> dtap" where
  "DTAP_AddDataRecvCbkEntry tcid cb d =
     (if find_first (\<lambda>(t, _). t = tcid) (g_dtapRecvCbks d) \<noteq> None
      then (DTAP_SUCCESS, d\<lparr>g_dtapRecvCbks := upd_first (\<lambda>(t, _). t = tcid) (\<lambda>(t, _). (t, cb)) (g_dtapRecvCbks d)\<rparr>)
      else case SDF_MemAlloc (e_mem (cs_env (d_chan d))) of (ok, m) \<Rightarrow>
        let d1 = upd_mem m d in
        if \<not> ok then (DTAP_REGISTER_RECV_CB_ALLOC_ERR, d1)
        else (DTAP_SUCCESS, d1\<lparr>g_dtapRecvCbks := (tcid, cb) # g_dtapRecvCbks d1\<rparr>))"

definition DTAP_DelDataRecvCbkEntry :: "byte \<Rightarrow> dtap \<Rightarrow> dtap_ret \<times> dtap" where
  "DTAP_DelDataRecvCbkEntry tcid d =
     (if find_first (\<lambda>(t, _). t = tcid) (g_dtapRecvCbks d) \<noteq> None
      then (DTAP_SUCCESS, d\<lparr>g_dtapRecvCbks := remove_first (\<lambda>(t, _). t = tcid) (g_dtapRecvCbks d)\<rparr>)
      else (DTAP_UNREGISTER_RECV_CB_TCID_NOT_EXIST, d))"

abbreviation (input) DTAP_REGISTER_DATA_RECV_CBK :: nat where "DTAP_REGISTER_DATA_RECV_CBK \<equiv> 0"
abbreviation (input) DTAP_UNREGISTER_DATA_RECV_CBK :: nat where "DTAP_UNREGISTER_DATA_RECV_CBK \<equiv> 1"

text \<open>A registration is only made with a callback present.\<close>

definition DTAP_RegisterDataRecvCbInner :: "byte \<Rightarrow> recv_cb option \<Rightarrow> nat \<Rightarrow> dtap \<Rightarrow> dtap_ret \<times> dtap" where
  "DTAP_RegisterDataRecvCbInner tcid cb action d =
     (if action = DTAP_REGISTER_DATA_RECV_CBK
      then (case cb of Some f \<Rightarrow> DTAP_AddDataRecvCbkEntry tcid f d | None \<Rightarrow> (DTAP_SUCCESS, d))
      else if action = DTAP_UNREGISTER_DATA_RECV_CBK then DTAP_DelDataRecvCbkEntry tcid d
      else (DTAP_SUCCESS, d))"

definition DTAP_RegisterDataRecvCb :: "byte \<Rightarrow> recv_cb option \<Rightarrow> dtap \<Rightarrow> dtap_ret \<times> dtap" where
  "DTAP_RegisterDataRecvCb tcid cb d =
     (if \<not> g_dtapIsInited d then (DTAP_MODULE_NOT_INITED_ERR, d)
      else if cb = None then (DTAP_REGISTER_RECV_CB_NULL_ERR, d)
      else DTAP_RegisterDataRecvCbInner tcid cb DTAP_REGISTER_DATA_RECV_CBK d)"

definition DTAP_UnregisterDataRecvCb :: "byte \<Rightarrow> dtap \<Rightarrow> dtap_ret \<times> dtap" where
  "DTAP_UnregisterDataRecvCb tcid d =
     (if \<not> g_dtapIsInited d then (DTAP_MODULE_NOT_INITED_ERR, d)
      else DTAP_RegisterDataRecvCbInner tcid None DTAP_UNREGISTER_DATA_RECV_CBK d)"

section \<open>The modes\<close>

definition DTAP_SendFrame :: "nat option \<Rightarrow> sched xmit" where
  "DTAP_SendFrame transChan b s =
     (case DTAP_DataSendWithPriority transChan b s of (ret, s1) \<Rightarrow>
        ((if ret \<noteq> DTAP_SUCCESS then DTAP_FRAME_SEND_DLI_SEND_ERR else DTAP_SUCCESS), s1))"

text \<open>The entries of the function tables. A channel without the attributes of its mode would be a null
  pointer dereference.\<close>

definition checkFrame :: "trans_mode \<Rightarrow> DTAP_Channel \<Rightarrow> DTAP_Frame \<Rightarrow> bool" where
  "checkFrame md c fr =
     (case (md, ch_attr c) of
        (ModeBasic, _) \<Rightarrow> DTAP_CheckBasicFrame fr
      | (ModeStream, _) \<Rightarrow> DTAP_CheckStreamFrame fr
      | (ModeReliable, AttrReliable r) \<Rightarrow> DTAP_CheckEnhanceFrame r fr
      | _ \<Rightarrow> False)"

definition recvFrame :: "trans_mode \<Rightarrow> bool \<Rightarrow> DTAP_Frame \<Rightarrow> recv_cb option \<Rightarrow> DTAP_Channel \<Rightarrow> dp_env \<Rightarrow>
    dtap_ret \<times> DTAP_Channel \<times> dp_env" where
  "recvFrame md reg fr recvCb c e =
     (case (md, ch_attr c) of
        (ModeBasic, AttrBasic bc) \<Rightarrow>
          (case DTAP_RecvBasicFrame (ch_info c) fr recvCb bc e of (ret, bc1, e1) \<Rightarrow> (ret, c\<lparr>ch_attr := AttrBasic bc1\<rparr>, e1))
      | (ModeStream, AttrStream st) \<Rightarrow>
          (case DTAP_RecvStreamFrame (ch_info c) fr recvCb st e of (ret, st1, e1) \<Rightarrow> (ret, c\<lparr>ch_attr := AttrStream st1\<rparr>, e1))
      | (ModeReliable, AttrReliable r) \<Rightarrow>
          (case DTAP_RecvEnhanceFrame (DTAP_SendFrame (Some (ch_addr c))) reg (ch_info c) fr recvCb r e of
             (ret, r1, e1) \<Rightarrow> (ret, c\<lparr>ch_attr := AttrReliable r1\<rparr>, e1))
      | _ \<Rightarrow> (MemFault, c, e))"

definition sendFrame :: "trans_mode \<Rightarrow> byte \<Rightarrow> SDF_Buff \<Rightarrow> DTAP_Channel \<Rightarrow> dp_env \<Rightarrow> dtap_ret \<times> DTAP_Channel \<times> dp_env" where
  "sendFrame md p b c e =
     (let xmit = DTAP_SendFrame (Some (ch_addr c)); ch = ch_info c in
      case (md, ch_attr c) of
        (ModeBasic, _) \<Rightarrow> (case DTAP_SendBasicFrame xmit ch p b e of (ret, e1) \<Rightarrow> (ret, c, e1))
      | (ModeTransparent, _) \<Rightarrow> (case DTAP_SendTransparentFrame xmit ch p b e of (ret, e1) \<Rightarrow> (ret, c, e1))
      | (ModeStream, AttrStream st) \<Rightarrow>
          (case DTAP_SendStreamFrame xmit ch p b st e of (ret, st1, e1) \<Rightarrow> (ret, c\<lparr>ch_attr := AttrStream st1\<rparr>, e1))
      | (ModeReliable, AttrReliable r) \<Rightarrow>
          (case DTAP_SendEnhanceFrame xmit ch p b r e of (ret, r1, e1) \<Rightarrow> (ret, c\<lparr>ch_attr := AttrReliable r1\<rparr>, e1))
      | _ \<Rightarrow> (MemFault, c, e))"

text \<open>A store through the pointer to a channel of the table.\<close>

definition store_channel :: "DTAP_Channel \<Rightarrow> chan_state \<Rightarrow> chan_state" where
  "store_channel c st = upd_link (c_lcid (ch_info c)) (map (\<lambda>x. if ch_addr x = ch_addr c then c else x)) st"

definition run_channel :: "(u16w \<Rightarrow> byte \<Rightarrow> bool) \<Rightarrow> (DTAP_Channel \<Rightarrow> dp_env \<Rightarrow> 'r \<times> DTAP_Channel \<times> dp_env) \<Rightarrow>
    DTAP_Channel \<Rightarrow> dtap \<Rightarrow> 'r \<times> dtap" where
  "run_channel known f c d =
     (let st = d_chan d; e = (cs_env st)\<lparr>e_known := known (c_lcid (ch_info c)) (c_srcTcid (ch_info c))\<rparr> in
      case f c e of (ret, c1, e1) \<Rightarrow> (ret, d\<lparr>d_chan := (store_channel c1 st)\<lparr>cs_env := e1\<rparr>\<rparr>))"

section \<open>Receiving\<close>

definition DTAP_DataRecvFrame :: "(u16w \<Rightarrow> byte \<Rightarrow> bool) \<Rightarrow> DTAP_Channel \<Rightarrow> trans_mode \<Rightarrow> SDF_Buff \<Rightarrow> recv_cb option \<Rightarrow> dtap \<Rightarrow> dtap" where
  "DTAP_DataRecvFrame known c md b recvCb d =
     (let len = dataLen b in
      if len < DTAP_BASIC_HEADER_LEN then d
      else if len \<noteq> wire_length b + DTAP_BASIC_HEADER_LEN then d
      else case DTAP_ParseFrame (unat (buff_data b ! 1 AND 0x0F)) b (frame0 CtxBasic) of (ret, fr) \<Rightarrow>
      if ret \<noteq> DTAP_SUCCESS then d
      else if payloadLen fr > c_mps (ch_info c) then d
      else if \<not> checkFrameHeader (fctx fr) fr then d
      else if \<not> checkFrame md c fr then d
      else let cb = (if recvCb \<noteq> None then recvCb else DTAP_GetProtoRecvCbk (fpi fr) d) in
        snd (run_channel known (recvFrame md (g_dtapDataSendCbks d) fr cb) c d))"

definition DTAP_DataRecv :: "(u16w \<Rightarrow> byte \<Rightarrow> bool) \<Rightarrow> u16w \<Rightarrow> SDF_Buff option \<Rightarrow> dtap \<Rightarrow> dtap" where
  "DTAP_DataRecv known lcid buff d =
     (case buff of
        None \<Rightarrow> d
      | Some b \<Rightarrow>
          if dataLen b = 0 then d
          else case DTAP_ChannelSearch lcid (buff_data b ! 0) (d_chan d) of
            None \<Rightarrow> d
          | Some c \<Rightarrow>
              (case DTAP_GetTransMode (c_mode (ch_info c)) (d_modes d) of
                 None \<Rightarrow> d
               | Some md \<Rightarrow>
                   let recvCb = DTAP_GetDataRecvCbkByTcid (c_srcTcid (ch_info c)) d in
                   if md = ModeTransparent then
                     (if dataLen b > c_mps (ch_info c) then d
                      else snd (run_channel known (\<lambda>c e. ((), c, DTAP_TransparentTransFrame (ch_info c) b recvCb e)) c d))
                   else DTAP_DataRecvFrame known c md b recvCb d))"

text \<open>Only the reliable mode has the entry \<open>setTransChannelStatus\<close>.\<close>

definition DTAP_ChannelSetStatus :: "(u16w \<Rightarrow> byte \<Rightarrow> bool) \<Rightarrow> u16w \<Rightarrow> byte \<Rightarrow> nat \<Rightarrow> dtap \<Rightarrow> dtap" where
  "DTAP_ChannelSetStatus known lcid tcid result d =
     (case DTAP_ChannelSearch lcid tcid (d_chan d) of
        None \<Rightarrow> d
      | Some c \<Rightarrow>
          let recvCb = DTAP_GetDataRecvCbkByTcid (c_srcTcid (ch_info c)) d in
          (case (DTAP_GetTransMode (c_mode (ch_info c)) (d_modes d), ch_attr c) of
             (Some ModeReliable, AttrReliable r) \<Rightarrow>
               snd (run_channel known (\<lambda>c e. case DTAP_SetTransChannelStatus (ch_info c) (result = 0) recvCb r e of
                      (r1, e1) \<Rightarrow> ((), c\<lparr>ch_attr := AttrReliable r1\<rparr>, e1)) c d)
           | _ \<Rightarrow> d))"

section \<open>Sending\<close>

record DTAP_Data =
  data_pi :: byte
  data_lcid :: u16w
  data_tcid :: byte
  data_buff :: "SDF_Buff option"

abbreviation (input) DTAP_MAX_PAYLOAD_LEN :: nat where "DTAP_MAX_PAYLOAD_LEN \<equiv> 32768"

definition DTAP_DataSend :: "(u16w \<Rightarrow> byte \<Rightarrow> bool) \<Rightarrow> DTAP_Data option \<Rightarrow> dtap \<Rightarrow> dtap_ret \<times> dtap" where
  "DTAP_DataSend known dat d =
     (case dat of
        None \<Rightarrow> (DTAP_TRANS_INVALID_DATA, d)
      | Some x \<Rightarrow>
      case data_buff x of
        None \<Rightarrow> (DTAP_TRANS_INVALID_DATA, d)
      | Some b \<Rightarrow>
          if dataLen b = 0 \<or> dataLen b > DTAP_MAX_PAYLOAD_LEN then (DTAP_TRANS_INVALID_DATA, d)
          else case DTAP_ChannelSearch (data_lcid x) (data_tcid x) (d_chan d) of
            None \<Rightarrow> (DTAP_TRANS_FIND_CHANNEL_ERR, d)
          | Some c \<Rightarrow>
              if dataLen b > c_mtu (ch_info c) then (DTAP_TRANS_EXCEED_MTU_ERR, d)
              else case DTAP_GetTransMode (c_mode (ch_info c)) (d_modes d) of
                None \<Rightarrow> (DTAP_TRANS_INVALID_MODULE_TYPE, d)
              | Some md \<Rightarrow> run_channel known (sendFrame md (data_pi x) b) c d)"

definition DTAP_CMSignalingDataSendCbk :: "(u16w \<Rightarrow> byte \<Rightarrow> bool) \<Rightarrow> byte \<Rightarrow> byte \<Rightarrow> u16w \<Rightarrow> SDF_Buff option \<Rightarrow> dtap \<Rightarrow> dtap_ret \<times> dtap" where
  "DTAP_CMSignalingDataSendCbk known p tcid lcid b d =
     DTAP_DataSend known (Some \<lparr>data_pi = p, data_lcid = lcid, data_tcid = tcid, data_buff = b\<rparr>) d"

section \<open>Timers\<close>

text \<open>The expiry of a timer of the reliable mode gets its channel; the task of the stream mode searches it.\<close>

definition rel_timer :: "timer_cbk \<Rightarrow> DTAP_Channel \<Rightarrow> dp_env \<Rightarrow> unit \<times> DTAP_Channel \<times> dp_env" where
  "rel_timer cbk c e =
     (let xmit = DTAP_SendFrame (Some (ch_addr c)); ch = ch_info c in
      case ch_attr c of
        AttrReliable r \<Rightarrow>
          (case (case cbk of
                   RspTimerExpire \<Rightarrow> DTAP_RspTimerExpireProc xmit ch r e
                 | ReorderTimerExpire \<Rightarrow> DTAP_ReorderTimerExpireProc xmit ch r e
                 | RetransTimerExpire \<Rightarrow> DTAP_RetransTimerExpireProc xmit ch r e
                 | StreamReorderExpire \<Rightarrow> (r, e)) of
             (r1, e1) \<Rightarrow> ((), c\<lparr>ch_attr := AttrReliable r1\<rparr>, e1))
      | _ \<Rightarrow> ((), c, e))"

definition stream_timer :: "(u16w \<Rightarrow> byte \<Rightarrow> bool) \<Rightarrow> u16w \<Rightarrow> byte \<Rightarrow> dtap \<Rightarrow> dtap" where
  "stream_timer known lcid tcid d =
     (case DTAP_ChannelSearch lcid tcid (d_chan d) of
        None \<Rightarrow> d
      | Some c \<Rightarrow>
          if c_mode (ch_info c) \<noteq> CM_TRANS_MODE_STREAM then d
          else (case ch_attr c of
                  AttrStream st \<Rightarrow>
                    snd (run_channel known (\<lambda>c e. case DTAP_ReorderStreamFrameTask (ch_info c) st e of
                           (st1, e1) \<Rightarrow> ((), c\<lparr>ch_attr := AttrStream st1\<rparr>, e1)) c d)
                | _ \<Rightarrow> d))"

section \<open>Life cycle\<close>

text \<open>\<open>CM_SignalingInit\<close> answers \<open>sig\<close>; \<open>cmRecv\<close> stands for the receive function of the connection manager.\<close>

abbreviation (input) TCID_SLE_CMTC :: byte where "TCID_SLE_CMTC \<equiv> 0x02"

definition register_modes :: "mode_table \<Rightarrow> mode_table" where
  "register_modes tab = foldl (\<lambda>t x. DTAP_RegisterTransMode (Some x) t) tab [ModeBasic, ModeTransparent, ModeStream, ModeReliable]"

definition DTAP_Init :: "dtap_ret \<Rightarrow> recv_cb \<Rightarrow> init_results \<Rightarrow> dtap \<Rightarrow> dtap_ret \<times> dtap" where
  "DTAP_Init sig cmRecv ir d =
     (if g_dtapIsInited d then (DTAP_MODULE_DUP_INITED_ERR, d)
      else let d1 = DTAP_DataRecvCbksInit (d\<lparr>g_dtapIsInited := True\<rparr>);
               d2 = d1\<lparr>d_modes := register_modes (d_modes d1)\<rparr> in
      if sig \<noteq> DTAP_SUCCESS then (sig, d2\<lparr>g_dtapIsInited := False\<rparr>)
      else case DTAP_RegisterDataRecvCb TCID_SLE_CMTC (Some cmRecv) (d2\<lparr>cmSignaling := True\<rparr>) of (ret, d3) \<Rightarrow>
      if ret \<noteq> DTAP_SUCCESS then (ret, d3\<lparr>g_dtapIsInited := False, cmSignaling := False\<rparr>)
      else case DTAP_ChannelInit ir (d_chan d3) of (ret2, st) \<Rightarrow>
      let d4 = d3\<lparr>d_chan := st\<rparr> in
      if ret2 \<noteq> DTAP_SUCCESS
      then (ret2, DTAP_ClearDataRecvCbks (d4\<lparr>g_dtapIsInited := False, cmSignaling := False\<rparr>))
      else (DTAP_SUCCESS, d4))"

definition DTAP_DeInit :: "init_results \<Rightarrow> dtap \<Rightarrow> dtap" where
  "DTAP_DeInit ir d =
     (if \<not> g_dtapIsInited d then d
      else let d1 = d\<lparr>d_chan := DTAP_ChannelDeInit ir (d_chan d), cmSignaling := False\<rparr> in
        (DTAP_ClearDataRecvCbks d1)\<lparr>g_dtapIsInited := False\<rparr>)"

end
