(* ===== verification/Trans_Core.thy ===== *)
theory Trans_Core
  imports Trans_Cltp Nlstk_Schedule Dtap_Core
begin

text \<open>
  The transport layer, \<^verbatim>\<open>services/stack/src/dp/transport/src/transport.c\<close>: sending for the applications through the
  control thread, receiving from the data plane, callbacks and life cycle.

  The connection manager is a parameter: \<open>linkByAddr\<close> and \<open>linkByLcid\<close> are \<open>CM_GetLogicLinkByAddr\<close> and
  \<open>CM_GetLogicLinkByLcid\<close> (the identifier of the link to a device, the device of a link), \<open>chanByTcid\<close> is
  \<open>CM_FindTransChannelByLocalTcid\<close> (the device and the source port of a channel).
\<close>

section \<open>Data\<close>

record SLE_Addr =
  addr_type :: byte
  addr_bytes :: "byte list"

abbreviation (input) TRANS_PROTO_CONNECTIONLESS :: nat where "TRANS_PROTO_CONNECTIONLESS \<equiv> 0"
abbreviation (input) TRANS_PROTO_CONNECTION :: nat where "TRANS_PROTO_CONNECTION \<equiv> 1"

abbreviation (input) DTAP_PI_LWCLTP :: byte where "DTAP_PI_LWCLTP \<equiv> 3"
abbreviation (input) DTAP_PI_LWCTP :: byte where "DTAP_PI_LWCTP \<equiv> 4"

record TRANS_Addr =
  devAddr :: SLE_Addr
  t_tcid :: byte
  proto :: nat
  srcPort :: u16w
  dstPort :: u16w

text \<open>\<^verbatim>\<open>TRANS_Result_E\<close>.\<close>

abbreviation (input) TRANS_RESULT_SUCCESS :: nat where "TRANS_RESULT_SUCCESS \<equiv> 0"
abbreviation (input) TRANS_RESULT_INTERNAL_FAULT :: nat where "TRANS_RESULT_INTERNAL_FAULT \<equiv> 1"
abbreviation (input) TRANS_RESULT_LOGIC_LINK_NOT_FOUND :: nat where "TRANS_RESULT_LOGIC_LINK_NOT_FOUND \<equiv> 2"
abbreviation (input) TRANS_RESULT_INVALID_DATA :: nat where "TRANS_RESULT_INVALID_DATA \<equiv> 3"
abbreviation (input) TRANS_RESULT_CHANNEL_NOT_FOUND :: nat where "TRANS_RESULT_CHANNEL_NOT_FOUND \<equiv> 4"
abbreviation (input) TRANS_RESULT_EXCEED_MTU_ERR :: nat where "TRANS_RESULT_EXCEED_MTU_ERR \<equiv> 5"
abbreviation (input) TRANS_RESULT_TX_CACHE_FULL :: nat where "TRANS_RESULT_TX_CACHE_FULL \<equiv> 6"

text \<open>\<^verbatim>\<open>TRANS_Data_S\<close>. The block is not cleared when it is allocated: \<open>td_result\<close> is \<open>None\<close> until it is
  written, and reading it before is an error of the model. \<open>td_buff\<close> is the address of the buffer.\<close>

record TRANS_Data =
  td_addr :: TRANS_Addr
  td_buff :: "nat option"
  td_result :: "nat option"
  refCount :: nat

text \<open>What the blocks of the transport layer hold, and the functions it posts to the control thread.\<close>

datatype trans_cell = TransData TRANS_Data | TransBuff SDF_Buff | TransAddr TRANS_Addr

datatype trans_cb = TRANS_SendDataProc_cb | TRANS_ChannelSetStatusProc_cb

type_synonym trans_heap = "(trans_cb, trans_cell) sched_st"

text \<open>The callbacks of the application; \<open>t_received\<close> and \<open>t_statusCalls\<close> log the calls made to them. Like those of the
  data plane, a receive callback answers by the earlier calls.\<close>

type_synonym trans_deliveries = "(TRANS_Addr \<times> byte list \<times> dtap_ret) list"

type_synonym trans_recv_cb = "trans_deliveries \<Rightarrow> TRANS_Addr \<Rightarrow> byte list \<Rightarrow> dtap_ret"

record TRANS_Cbks =
  recvDataCbk :: "trans_recv_cb option"
  sendDataCbk :: bool

record transport =
  g_transportCbks :: TRANS_Cbks
  g_transIsInited :: bool
  t_received :: trans_deliveries
  t_statusCalls :: "(SLE_Addr \<times> byte \<times> u16w \<times> nat) list"
  t_dtap :: dtap

section \<open>Reference counts\<close>

text \<open>Atomic operations on \<open>refCount\<close>. They answer \<open>None\<close> when the block has been freed.\<close>

definition get_trans :: "nat \<Rightarrow> trans_heap \<Rightarrow> TRANS_Data option" where
  "get_trans a s = (case get_data a s of Some (TransData d) \<Rightarrow> Some d | _ \<Rightarrow> None)"

definition put_trans :: "nat \<Rightarrow> TRANS_Data \<Rightarrow> trans_heap \<Rightarrow> trans_heap" where
  "put_trans a d s = set_cell a (Some (DataCell (TransData d))) s"

definition get_buff :: "nat \<Rightarrow> trans_heap \<Rightarrow> SDF_Buff option" where
  "get_buff a s = (case get_data a s of Some (TransBuff b) \<Rightarrow> Some b | _ \<Rightarrow> None)"

definition TRANS_Data_Retain :: "nat \<Rightarrow> trans_heap \<Rightarrow> trans_heap option" where
  "TRANS_Data_Retain a s = do { d \<leftarrow> get_trans a s; Some (put_trans a (d\<lparr>refCount := Suc (refCount d)\<rparr>) s) }"

definition TRANS_Data_Release :: "nat \<Rightarrow> trans_heap \<Rightarrow> trans_heap option" where
  "TRANS_Data_Release a s = do { d \<leftarrow> get_trans a s; Some (put_trans a (d\<lparr>refCount := refCount d - 1\<rparr>) s) }"

definition TRANS_TransportDataFree :: "nat \<Rightarrow> trans_heap \<Rightarrow> trans_heap option" where
  "TRANS_TransportDataFree a s = do {
     d \<leftarrow> get_trans a s;
     let s1 = put_trans a (d\<lparr>refCount := refCount d - 1\<rparr>) s;
     if refCount d = 1 then free_cell a s1 else Some s1 }"

section \<open>Callbacks\<close>

definition TRANS_ChannelStatusChangeCbk :: "(u16w \<Rightarrow> byte \<Rightarrow> (SLE_Addr \<times> u16w) option) \<Rightarrow> u16w \<Rightarrow> byte \<Rightarrow> nat \<Rightarrow> transport \<Rightarrow> transport" where
  "TRANS_ChannelStatusChangeCbk chanByTcid lcid tcid result t =
     (case chanByTcid lcid tcid of
        None \<Rightarrow> t
      | Some (addr, src_port) \<Rightarrow>
          if sendDataCbk (g_transportCbks t)
          then t\<lparr>t_statusCalls := t_statusCalls t @ [(addr, tcid, src_port, result)]\<rparr> else t)"

definition TRANS_RegisterDtapCbks :: "transport \<Rightarrow> transport" where
  "TRANS_RegisterDtapCbks t = t\<lparr>t_dtap := DTAP_RegisterDataSendCbks True (t_dtap t)\<rparr>"

definition TRANS_RegisterCbks :: "TRANS_Cbks option \<Rightarrow> transport \<Rightarrow> trans_ret \<times> transport" where
  "TRANS_RegisterCbks cbks t =
     (case cbks of
        None \<Rightarrow> (TRANS_REGISTER_CBKS_NULL_PTR, t)
      | Some c \<Rightarrow>
          if recvDataCbk c = None \<or> \<not> sendDataCbk c then (TRANS_REGISTER_CBKS_NULL_PTR, t)
          else (TRANS_SUCCESS, TRANS_RegisterDtapCbks (t\<lparr>g_transportCbks := c\<rparr>)))"

definition TRANS_UnregisterCbks :: "transport \<Rightarrow> transport" where
  "TRANS_UnregisterCbks t =
     t\<lparr>g_transportCbks := \<lparr>recvDataCbk = None, sendDataCbk = False\<rparr>, t_dtap := DTAP_UnRegisterDataSendCbks (t_dtap t)\<rparr>"

section \<open>Receiving\<close>

definition TRANS_FillAddr :: "(u16w \<Rightarrow> SLE_Addr option) \<Rightarrow> DTAP_Data_Info \<Rightarrow> SDF_Buff \<Rightarrow> TRANS_Addr option" where
  "TRANS_FillAddr linkByLcid info b =
     (case linkByLcid (info_lcid info) of
        None \<Rightarrow> None
      | Some a \<Rightarrow>
          Some \<lparr>devAddr = a, t_tcid = info_tcid info,
                proto = (if info_pi info = DTAP_PI_LWCLTP then TRANS_PROTO_CONNECTIONLESS else TRANS_PROTO_CONNECTION),
                srcPort = DECODE2BYTE_BIG (buff_data b ! 1) (buff_data b ! 2),
                dstPort = DECODE2BYTE_BIG (buff_data b ! 3) (buff_data b ! 4)\<rparr>)"

definition TRANS_CheckBasicHeader :: "SDF_Buff \<Rightarrow> bool" where
  "TRANS_CheckBasicHeader b \<longleftrightarrow>
     TRANS_PROTO_BASIC_LEN \<le> dataLen b \<and> basic_version (buff_data b ! 0) = TRANS_PROTO_VERSION"

definition TRANS_PktProc :: "byte \<Rightarrow> SDF_Buff \<Rightarrow> trans_ret \<times> SDF_Buff" where
  "TRANS_PktProc p b = (if p = DTAP_PI_LWCLTP then TRANS_CltpPktProc b else (TRANS_FAIL, b))"

text \<open>The application gets the data and its length as a \<^verbatim>\<open>uint16_t\<close>. The result is compared by the data plane with
  its own codes; the buffer stays with the data plane, without its header.\<close>

definition TRANS_DataRecvCbk :: "(u16w \<Rightarrow> SLE_Addr option) \<Rightarrow> (DTAP_Data_Info \<times> SDF_Buff) option \<Rightarrow> transport \<Rightarrow>
    dtap_ret \<times> SDF_Buff option \<times> transport" where
  "TRANS_DataRecvCbk linkByLcid arg t =
     (let fault = RetOther TRANS_RESULT_INTERNAL_FAULT in
      case arg of
        None \<Rightarrow> (fault, None, t)
      | Some (info, b) \<Rightarrow>
          if dataLen b = 0 then (fault, Some b, t)
          else if info_pi info \<noteq> DTAP_PI_LWCLTP \<and> info_pi info \<noteq> DTAP_PI_LWCTP then (fault, Some b, t)
          else if \<not> TRANS_CheckBasicHeader b then (fault, Some b, t)
          else case TRANS_FillAddr linkByLcid info b of
            None \<Rightarrow> (fault, Some b, t)
          | Some addr \<Rightarrow>
              (case TRANS_PktProc (info_pi info) b of (ret, b1) \<Rightarrow>
                 if ret \<noteq> TRANS_SUCCESS then (fault, Some b1, t)
                 else case recvDataCbk (g_transportCbks t) of
                   None \<Rightarrow> (DTAP_SUCCESS, Some b1, t)
                 | Some cb \<Rightarrow>
                     let dat = take (u16 (dataLen b1)) (buff_data b1); result = cb (t_received t) addr dat in
                     (result, Some b1, t\<lparr>t_received := t_received t @ [(addr, dat, result)]\<rparr>)))"

section \<open>The status of a channel\<close>

text \<open>\<open>TRANS_ChannelSetStatusProc\<close> reads its argument, which the caller allocated; the status travels in the field
  of the source port.\<close>

definition TRANS_ChannelSetStatusProc :: "(SLE_Addr \<Rightarrow> u16w option) \<Rightarrow> (u16w \<Rightarrow> byte \<Rightarrow> bool) \<Rightarrow> nat \<Rightarrow> trans_heap \<Rightarrow> dtap \<Rightarrow> dtap option" where
  "TRANS_ChannelSetStatusProc linkByAddr known arg s d =
     (case get_data arg s of
        Some (TransAddr a) \<Rightarrow>
          (case linkByAddr (devAddr a) of
             None \<Rightarrow> Some d
           | Some lcid \<Rightarrow> Some (DTAP_ChannelSetStatus known lcid (t_tcid a) (unat (srcPort a)) d))
      | _ \<Rightarrow> None)"

text \<open>\<open>DTAP_ChannelSetStatus\<close> of the data plane takes the status as a byte; the value comes from one.\<close>

definition TRANS_ChannelSetStatus :: "SLE_Addr option \<Rightarrow> byte \<Rightarrow> byte \<Rightarrow> trans_heap \<Rightarrow> trans_heap option" where
  "TRANS_ChannelSetStatus addr tcid result s =
     (case addr of
        None \<Rightarrow> Some s
      | Some a \<Rightarrow>
          (case new_cell (DataCell (TransAddr \<lparr>devAddr = a, t_tcid = tcid, proto = 0, srcPort = ucast result, dstPort = 0\<rparr>)) s of
             (None, s1) \<Rightarrow> Some s1
           | (Some p, s1) \<Rightarrow>
               do { (_, s2) \<leftarrow> SchedulePostTask (Some (ClientCb TRANS_ChannelSetStatusProc_cb)) p (Some MemFree) s1; Some s2 }))"

section \<open>Sending\<close>

definition TRANS_CovertDtapErrorCode :: "dtap_ret \<Rightarrow> nat" where
  "TRANS_CovertDtapErrorCode r =
     (if r = DTAP_SUCCESS then TRANS_RESULT_SUCCESS
      else if r = DTAP_TRANS_INVALID_DATA then TRANS_RESULT_INVALID_DATA
      else if r = DTAP_TRANS_FIND_CHANNEL_ERR then TRANS_RESULT_CHANNEL_NOT_FOUND
      else if r = DTAP_TRANS_EXCEED_MTU_ERR then TRANS_RESULT_EXCEED_MTU_ERR
      else if r = DTAP_TRANS_RELIABLE_TX_WINDOW_FULL then TRANS_RESULT_TX_CACHE_FULL
      else TRANS_RESULT_INTERNAL_FAULT)"

definition TRANS_SendDataToDtap :: "(u16w \<Rightarrow> byte \<Rightarrow> bool) \<Rightarrow> byte \<Rightarrow> u16w \<Rightarrow> byte \<Rightarrow> SDF_Buff \<Rightarrow> dtap \<Rightarrow> dtap_ret \<times> dtap" where
  "TRANS_SendDataToDtap known p lcid tcid b d =
     DTAP_DataSend known (Some \<lparr>data_pi = p, data_lcid = lcid, data_tcid = tcid, data_buff = Some b\<rparr>) d"

text \<open>\<open>TRANS_SendDataProc\<close> up to its last statement, the release of the \<open>TRANS_Data_S\<close>. A buffer that the data
  plane takes leaves the heap of the transport layer; every other way out frees it. \<open>send_unit\<close> is the part between
  the look-up of the buffer and its end: the result for the caller and the data plane afterwards.\<close>

definition send_unit :: "(SLE_Addr \<Rightarrow> u16w option) \<Rightarrow> (u16w \<Rightarrow> byte \<Rightarrow> bool) \<Rightarrow> TRANS_Addr \<Rightarrow> SDF_Buff \<Rightarrow> dtap \<Rightarrow> nat \<times> dtap" where
  "send_unit linkByAddr known a b d =
     (case linkByAddr (devAddr a) of
        None \<Rightarrow> (TRANS_RESULT_LOGIC_LINK_NOT_FOUND, d)
      | Some lcid \<Rightarrow>
          if proto a \<noteq> TRANS_PROTO_CONNECTIONLESS then (TRANS_RESULT_INTERNAL_FAULT, d)
          else case TRANS_CltpHeaderBuild (srcPort a) (dstPort a) b of (ret, b1) \<Rightarrow>
            if ret \<noteq> TRANS_SUCCESS then (TRANS_RESULT_INTERNAL_FAULT, d)
            else case TRANS_SendDataToDtap known DTAP_PI_LWCLTP lcid (t_tcid a) b1 d of (r, d1) \<Rightarrow>
              (TRANS_CovertDtapErrorCode r, d1))"

definition TRANS_SendDataProc_body :: "(SLE_Addr \<Rightarrow> u16w option) \<Rightarrow> (u16w \<Rightarrow> byte \<Rightarrow> bool) \<Rightarrow> nat \<Rightarrow> trans_heap \<times> dtap \<Rightarrow>
    (trans_heap \<times> dtap) option" where
  "TRANS_SendDataProc_body linkByAddr known arg = (\<lambda>(s, d). do {
     td \<leftarrow> get_trans arg s;
     p \<leftarrow> td_buff td;
     b \<leftarrow> get_buff p s;
     let (result, d1) = send_unit linkByAddr known (td_addr td) b d;
     s1 \<leftarrow> free_cell p s;
     Some (put_trans arg (td\<lparr>td_buff := None, td_result := Some result\<rparr>) s1, d1) })"

definition TRANS_InitTransportData :: "TRANS_Addr \<Rightarrow> trans_heap \<Rightarrow> nat option \<times> trans_heap" where
  "TRANS_InitTransportData addr s =
     new_cell (DataCell (TransData \<lparr>td_addr = addr, td_buff = None, td_result = None, refCount = 1\<rparr>)) s"

definition cltp_reserve :: "TRANS_Addr \<Rightarrow> nat" where
  "cltp_reserve addr = (if proto addr = TRANS_PROTO_CONNECTIONLESS then TRANS_CltpHeaderSize else 0)"

text \<open>What a failed post leaves to do; after a time-out the task is still in the queue.\<close>

definition TRANS_PostTaskToSendDataFailed :: "bool \<Rightarrow> nat \<Rightarrow> trans_heap \<Rightarrow> trans_heap option" where
  "TRANS_PostTaskToSendDataFailed timeout a s = do {
     s1 \<leftarrow> (if timeout then Some s
           else do {
             s1 \<leftarrow> TRANS_Data_Release a s;
             td \<leftarrow> get_trans a s1;
             p \<leftarrow> td_buff td;
             free_cell p s1 });
     TRANS_TransportDataFree a s1 }"

text \<open>\<open>TRANS_SendData\<close> up to the wait of \<open>CP_PostTaskBlocked\<close>: the call has failed with a code, or it waits on a
  semaphore with its \<open>TRANS_Data_S\<close>.\<close>

datatype send_begin = SendFailed trans_ret | SendWaits nat nat

text \<open>The part of \<open>TRANS_SendData\<close> from the buffer, allocated at \<open>p\<close>, to the wait.\<close>

definition send_buffered :: "nat \<Rightarrow> nat \<Rightarrow> byte list \<Rightarrow> bool \<Rightarrow> trans_heap \<Rightarrow> (send_begin \<times> trans_heap) option" where
  "send_buffered td p dat semInit s = do {
     d \<leftarrow> get_trans td s;
     let s1 = put_trans td (d\<lparr>td_buff := Some p\<rparr>) s;
     b \<leftarrow> get_buff p s1;
     case buff_append dat b of
       None \<Rightarrow> do { s2 \<leftarrow> free_cell p s1; s3 \<leftarrow> TRANS_TransportDataFree td s2; Some (SendFailed TRANS_SEND_DATA_APPEND_FAILED, s3) }
     | Some b1 \<Rightarrow> do {
         s2 \<leftarrow> TRANS_Data_Retain td (set_cell p (Some (DataCell (TransBuff b1))) s1);
         (w, s3) \<leftarrow> PostTaskBlocked_begin TRANS_SendDataProc_cb td False semInit s2;
         case w of
           Some sem \<Rightarrow> Some (SendWaits td sem, s3)
         | None \<Rightarrow> do { s4 \<leftarrow> TRANS_PostTaskToSendDataFailed False td s3; Some (SendFailed TRANS_SEND_DATA_POST_FAILED, s4) } } }"

definition TRANS_SendData_begin :: "TRANS_Addr option \<Rightarrow> byte list option \<Rightarrow> bool \<Rightarrow> trans_heap \<Rightarrow> (send_begin \<times> trans_heap) option" where
  "TRANS_SendData_begin addr data semInit s =
     (case (addr, data) of
        (Some a, Some dat) \<Rightarrow>
          if dat = [] then Some (SendFailed TRANS_SEND_DATA_INVALID_PARAMS, s)
          else if length dat > DTAP_MAX_PAYLOAD_LEN - cltp_reserve a then Some (SendFailed TRANS_SEND_DATA_INVALID_PARAMS, s)
          else (case TRANS_InitTransportData a s of
             (None, s1) \<Rightarrow> Some (SendFailed TRANS_SEND_DATA_MALLOC_FAILED, s1)
           | (Some td, s1) \<Rightarrow>
           case SDF_BuffNewWithExtraReserve (length dat) (cltp_reserve a) (heap_mem s1) of
             (None, m) \<Rightarrow> do { s2 \<leftarrow> TRANS_TransportDataFree td (s1\<lparr>heap_mem := m\<rparr>); Some (SendFailed TRANS_SEND_DATA_MALLOC_FAILED, s2) }
           | (Some b, m) \<Rightarrow> send_buffered td (next_addr s1) dat semInit (place_cell (DataCell (TransBuff b)) (s1\<lparr>heap_mem := m\<rparr>)))
      | _ \<Rightarrow> Some (SendFailed TRANS_SEND_DATA_INVALID_PARAMS, s))"

section \<open>Life cycle\<close>

text \<open>\<open>cb\<close> is the receive function of the transport layer as the data plane sees it.\<close>

definition TRANS_Init :: "recv_cb \<Rightarrow> transport \<Rightarrow> trans_ret \<times> transport" where
  "TRANS_Init cb t =
     (if g_transIsInited t then (TRANS_INIT_DUPLICATE_FAILED, t)
      else case DTAP_RegisterProtoRecvCbk DTAP_PI_LWCLTP (Some cb) (t_dtap t) of (ret, d) \<Rightarrow>
        if ret \<noteq> DTAP_SUCCESS then (TRANS_INIT_REGISTER_FAILED, t\<lparr>t_dtap := d\<rparr>)
        else (TRANS_SUCCESS, t\<lparr>t_dtap := d, g_transIsInited := True\<rparr>))"

definition TRANS_DeInit :: "transport \<Rightarrow> transport" where
  "TRANS_DeInit t =
     (if \<not> g_transIsInited t then t
      else t\<lparr>t_dtap := snd (DTAP_UnregisterProtoRecvCbk DTAP_PI_LWCLTP (t_dtap t)), g_transIsInited := False\<rparr>)"

end
