(* ===== verification/Trans_Threads.thy ===== *)
theory Trans_Threads
  imports Trans_Core
begin

text \<open>
  The threads of the transport layer. Applications call \<open>TRANS_SendData\<close> and \<open>TRANS_ChannelSetStatus\<close> on threads of
  their own; the control thread runs what they post (\<open>SDF_WorkerRunOnce\<close>, \<open>RunTaskBlocked\<close>). A step of \<open>trans_step\<close> is one
  access to what the threads share; between two steps of one thread any number of steps of the others can happen, and
  a wait can time out at any moment. A step that accesses a freed block ends in a state marked with \<open>ts_fault\<close>.

  \<open>lowMem\<close> allows the allocation of the work that returns a semaphore after a time-out to fail, \<open>down\<close> allows the
  scheduling to be disabled. Disabling closes the control thread first, so it finds the thread idle; it is not run
  together with a post.
\<close>

section \<open>State\<close>

text \<open>Where a call stands: waiting for the task; woken or timed out, still with the semaphore; returned from
  \<open>CP_PostTaskBlocked\<close>, with the \<open>TRANS_Data_S\<close> to read or release; returned to the application.\<close>

datatype caller =
    Waiting nat nat
  | Woken nat nat
  | TimedOut nat nat
  | Executed nat
  | Answered nat nat
  | Abandoned nat
  | Returned "trans_ret + nat"
  | CallDone

text \<open>Where the control thread stands with a work: before its function, before the last statement of
  \<open>TRANS_SendDataProc\<close>, before the post of the semaphore, before the function that frees the argument.\<close>

datatype worker =
    WkIdle
  | WkCall "trans_cb SDF_Work"
  | WkRelease "trans_cb SDF_Work" nat
  | WkPost "trans_cb SDF_Work"
  | WkFree "trans_cb SDF_Work"

record trans_sys =
  ts_heap :: trans_heap
  ts_dtap :: dtap
  ts_worker :: worker
  ts_callers :: "caller list"
  ts_fault :: bool

section \<open>Steps of the threads\<close>

text \<open>The rest of a call, after the wait.\<close>

fun caller_step :: "caller \<Rightarrow> trans_heap \<Rightarrow> (caller \<times> trans_heap) option" where
  "caller_step (Woken td sem) h = do { h1 \<leftarrow> do_FreeSem sem h; Some (Executed td, h1) }"
| "caller_step (TimedOut td sem) h = do { h1 \<leftarrow> PostTaskBlocked_timeout sem h; Some (Abandoned td, h1) }"
| "caller_step (Executed td) h = do { d \<leftarrow> get_trans td h; r \<leftarrow> td_result d; Some (Answered td r, h) }"
| "caller_step (Answered td r) h = do { h1 \<leftarrow> TRANS_TransportDataFree td h; Some (Returned (Inr r), h1) }"
| "caller_step (Abandoned td) h =
     do { h1 \<leftarrow> TRANS_PostTaskToSendDataFailed True td h; Some (Returned (Inl TRANS_SEND_DATA_POST_FAILED), h1) }"
| "caller_step c h = Some (c, h)"

fun runs_on :: "caller \<Rightarrow> bool" where
  "runs_on (Waiting _ _) = False"
| "runs_on (Returned _) = False"
| "runs_on CallDone = False"
| "runs_on _ = True"

text \<open>\<open>SDF_WorkerRunOnce\<close> with \<open>RunTaskBlocked\<close> and the functions of the transport layer.\<close>

definition call_client :: "(SLE_Addr \<Rightarrow> u16w option) \<Rightarrow> (u16w \<Rightarrow> byte \<Rightarrow> bool) \<Rightarrow> trans_cb \<Rightarrow> nat \<Rightarrow> trans_cb SDF_Work \<Rightarrow> worker \<Rightarrow>
    trans_heap \<times> dtap \<Rightarrow> (worker \<times> trans_heap \<times> dtap) option" where
  "call_client links known f arg w after = (\<lambda>(h, d).
     (case f of
        TRANS_SendDataProc_cb \<Rightarrow> do { (h1, d1) \<leftarrow> TRANS_SendDataProc_body links known arg (h, d); Some (WkRelease w arg, h1, d1) }
      | TRANS_ChannelSetStatusProc_cb \<Rightarrow> do { d1 \<leftarrow> TRANS_ChannelSetStatusProc links known arg h d; Some (after, h, d1) }))"

fun worker_step :: "(SLE_Addr \<Rightarrow> u16w option) \<Rightarrow> (u16w \<Rightarrow> byte \<Rightarrow> bool) \<Rightarrow> worker \<Rightarrow> trans_heap \<times> dtap \<Rightarrow>
    (worker \<times> trans_heap \<times> dtap) option" where
  "worker_step links known WkIdle (h, d) = do { (w, h1) \<leftarrow> pop_work h; Some (WkCall w, h1, d) }"
| "worker_step links known (WkCall w) (h, d) =
     (case w_cb w of
        None \<Rightarrow> Some (WkFree w, h, d)
      | Some RunTaskBlocked \<Rightarrow> do { t \<leftarrow> get_task (w_arg w) h; call_client links known (bt_func t) (bt_arg t) w (WkPost w) (h, d) }
      | Some (ClientCb f) \<Rightarrow> call_client links known f (w_arg w) w (WkFree w) (h, d))"
| "worker_step links known (WkRelease w td) (h, d) =
     do { h1 \<leftarrow> TRANS_TransportDataFree td h; Some (if w_cb w = Some RunTaskBlocked then WkPost w else WkFree w, h1, d) }"
| "worker_step links known (WkPost w) (h, d) = do { h1 \<leftarrow> RunTaskBlocked_post (w_arg w) h; Some (WkFree w, h1, d) }"
| "worker_step links known (WkFree w) (h, d) = do { h1 \<leftarrow> call_free (w_freeCb w) (w_arg w) h; Some (WkIdle, h1, d) }"

section \<open>Runs\<close>

definition commit :: "'a option \<Rightarrow> ('a \<Rightarrow> trans_sys) \<Rightarrow> trans_sys \<Rightarrow> trans_sys" where
  "commit x f s = (case x of None \<Rightarrow> s\<lparr>ts_fault := True\<rparr> | Some v \<Rightarrow> f v)"

definition started :: "send_begin \<Rightarrow> caller" where
  "started r = (case r of SendFailed e \<Rightarrow> Returned (Inl e) | SendWaits td sem \<Rightarrow> Waiting td sem)"

inductive trans_step :: "bool \<Rightarrow> bool \<Rightarrow> trans_sys \<Rightarrow> trans_sys \<Rightarrow> bool" for lowMem down where
  send: "trans_step lowMem down s (commit (TRANS_SendData_begin addr data semInit (ts_heap s))
    (\<lambda>(r, h). s\<lparr>ts_heap := h, ts_callers := ts_callers s @ [started r]\<rparr>) s)"
| status: "trans_step lowMem down s (commit (TRANS_ChannelSetStatus sa tcid result (ts_heap s))
    (\<lambda>h. s\<lparr>ts_heap := h, ts_callers := ts_callers s @ [CallDone]\<rparr>) s)"
| wake: "i < length (ts_callers s) \<Longrightarrow> ts_callers s ! i = Waiting td sem \<Longrightarrow> get_sem sem (ts_heap s) \<noteq> Some 0 \<Longrightarrow>
    trans_step lowMem down s (commit (SemTimeWait_ok sem (ts_heap s))
      (\<lambda>h. s\<lparr>ts_heap := h, ts_callers := (ts_callers s)[i := Woken td sem]\<rparr>) s)"
| timeout: "i < length (ts_callers s) \<Longrightarrow> ts_callers s ! i = Waiting td sem \<Longrightarrow>
    trans_step lowMem down s (s\<lparr>ts_callers := (ts_callers s)[i := TimedOut td sem]\<rparr>)"
| call: "i < length (ts_callers s) \<Longrightarrow> runs_on (ts_callers s ! i) \<Longrightarrow>
    lowMem \<or> \<not> (\<exists>td sem. ts_callers s ! i = TimedOut td sem) \<or> fst (SDF_MemAlloc (heap_mem (ts_heap s))) \<Longrightarrow>
    trans_step lowMem down s (commit (caller_step (ts_callers s ! i) (ts_heap s))
      (\<lambda>(c, h). s\<lparr>ts_heap := h, ts_callers := (ts_callers s)[i := c]\<rparr>) s)"
| work: "ts_worker s \<noteq> WkIdle \<or> pop_work (ts_heap s) \<noteq> None \<Longrightarrow>
    trans_step lowMem down s (commit (worker_step links known (ts_worker s) (ts_heap s, ts_dtap s))
      (\<lambda>(w, h, d). s\<lparr>ts_worker := w, ts_heap := h, ts_dtap := d\<rparr>) s)"
| enable: "trans_step lowMem down s (s\<lparr>ts_heap := snd (ScheduleEnable mutexInit evc ev (ts_heap s))\<rparr>)"
| disable: "down \<Longrightarrow> ts_worker s = WkIdle \<Longrightarrow>
    trans_step lowMem down s (commit (ScheduleDisable (ts_heap s)) (\<lambda>h. s\<lparr>ts_heap := h\<rparr>) s)"
| other: "trans_step lowMem down s (s\<lparr>ts_dtap := d\<rparr>)"
| memory: "trans_step lowMem down s (s\<lparr>ts_heap := (ts_heap s)\<lparr>heap_mem := m\<rparr>\<rparr>)"

text \<open>The rule \<open>other\<close> stands for every event of the data plane that is not of the transport layer, the rule \<open>memory\<close>
  for the allocations of the rest of the process, which change what the next ones answer.\<close>

definition trans_run :: "bool \<Rightarrow> bool \<Rightarrow> trans_sys \<Rightarrow> trans_sys \<Rightarrow> bool" where
  "trans_run lowMem down = (trans_step lowMem down)\<^sup>*\<^sup>*"

text \<open>The start of the process: no block, no worker.\<close>

definition trans_start :: "mem \<Rightarrow> dtap \<Rightarrow> trans_sys" where
  "trans_start m d = \<lparr>ts_heap = \<lparr>cells = (\<lambda>_. None), next_addr = 0, heap_mem = m, g_schedule = None, g_eventHandle = False\<rparr>,
     ts_dtap = d, ts_worker = WkIdle, ts_callers = [], ts_fault = False\<rparr>"

end
