(* ===== verification/Trans_Sim.thy ===== *)
theory Trans_Sim
  imports Trans_Threads
begin

text \<open>
  Why the threads of the transport layer do not touch freed memory. A call owns up to four blocks, allocated one after
  the other: the \<open>TRANS_Data_S\<close>, the buffer, the task and the semaphore. What each of them holds, and
  whether it is still allocated, is a function of where the call, its task and its semaphore stand (\<open>block\<close>). The
  relation \<open>sim\<close> says that the heap is made of the blocks of the calls and nothing else, and that the queue
  and the control thread hold the tasks and semaphores of the calls in the stages recorded; every step keeps it.
\<close>

section \<open>Calls\<close>

text \<open>Where a task stands: in the queue, in the four stages of the control thread, finished, or dropped when the
  scheduling was disabled. Where a semaphore stands: with the call, left to the queue, being freed, freed.\<close>

datatype tphase = TQueued | TCall | TRel | TPost | TFree | TDone | TDropped

datatype sphase = SCaller | SQueued | SWorker | SGone

text \<open>A call with the address of its first block: a send with its data and its result, a change of
  status with its argument and whether that is still allocated, a call that has failed.\<close>

datatype tx =
    Send nat TRANS_Addr SDF_Buff nat tphase sphase
  | Status nat TRANS_Addr bool
  | Dead nat

primrec tx_base :: "tx \<Rightarrow> nat" where
  "tx_base (Send n _ _ _ _ _) = n"
| "tx_base (Status n _ _) = n"
| "tx_base (Dead n) = n"

primrec tx_span :: "tx \<Rightarrow> nat" where
  "tx_span (Send _ _ _ _ _ _) = 4"
| "tx_span (Status _ _ _) = 1"
| "tx_span (Dead _) = 0"

fun holds_data :: "caller \<Rightarrow> bool" where
  "holds_data (Returned _) = False"
| "holds_data CallDone = False"
| "holds_data _ = True"

fun took_sem :: "caller \<Rightarrow> bool" where
  "took_sem (Woken _ _) = True"
| "took_sem (Executed _) = True"
| "took_sem (Answered _ _) = True"
| "took_sem _ = False"

abbreviation (input) unsent :: "tphase \<Rightarrow> bool" where
  "unsent t \<equiv> t = TQueued \<or> t = TCall \<or> t = TDropped"

abbreviation (input) posted :: "tphase \<Rightarrow> bool" where
  "posted t \<equiv> t = TFree \<or> t = TDone"

definition refs :: "caller \<Rightarrow> tphase \<Rightarrow> nat" where
  "refs c t = of_bool (holds_data c) + of_bool (unsent t \<or> t = TRel)"

text \<open>The blocks of a call, by their position.\<close>

fun block :: "caller \<Rightarrow> tx \<Rightarrow> nat \<Rightarrow> (trans_cb, trans_cell) cell option" where
  "block c (Send n a b r t m) k =
     (if k = 0 then
        (if refs c t = 0 then None
         else Some (DataCell (TransData \<lparr>td_addr = a, td_buff = (if unsent t then Some (n + 1) else None),
                td_result = (if unsent t then None else Some r), refCount = refs c t\<rparr>)))
      else if k = 1 then (if unsent t then Some (DataCell (TransBuff b)) else None)
      else if k = 2 then
        (if t = TDone \<or> t = TDropped then None
         else Some (TaskCell \<lparr>bt_sem = n + 3, bt_func = TRANS_SendDataProc_cb, bt_freeCb = False, bt_arg = n\<rparr>))
      else (if m = SGone then None else Some (SemCell (of_bool (posted t \<and> \<not> took_sem c)))))"
| "block c (Status n a live) k = (if live then Some (DataCell (TransAddr a)) else None)"
| "block c (Dead n) k = None"

text \<open>How the stages of a call fit together.\<close>

fun stages_ok :: "caller \<Rightarrow> nat \<Rightarrow> nat \<Rightarrow> tphase \<Rightarrow> sphase \<Rightarrow> bool" where
  "stages_ok (Waiting td sem) n r t m \<longleftrightarrow> td = n \<and> sem = n + 3 \<and> m = SCaller"
| "stages_ok (Woken td sem) n r t m \<longleftrightarrow> td = n \<and> sem = n + 3 \<and> m = SCaller \<and> posted t"
| "stages_ok (TimedOut td sem) n r t m \<longleftrightarrow> td = n \<and> sem = n + 3 \<and> m = SCaller"
| "stages_ok (Executed td) n r t m \<longleftrightarrow> td = n \<and> m = SGone \<and> posted t"
| "stages_ok (Answered td r') n r t m \<longleftrightarrow> td = n \<and> m = SGone \<and> posted t \<and> r' = r"
| "stages_ok (Abandoned td) n r t m \<longleftrightarrow> td = n \<and> m \<noteq> SCaller"
| "stages_ok (Returned _) n r t m \<longleftrightarrow> m \<noteq> SCaller"
| "stages_ok CallDone n r t m \<longleftrightarrow> False"

section \<open>The queue and the control thread\<close>

datatype lab = LTask nat | LSem nat | LStatus nat

primrec idx :: "lab \<Rightarrow> nat" where
  "idx (LTask i) = i"
| "idx (LSem i) = i"
| "idx (LStatus i) = i"

primrec work_of :: "tx list \<Rightarrow> lab \<Rightarrow> trans_cb SDF_Work" where
  "work_of txs (LTask i) = \<lparr>w_cb = Some RunTaskBlocked, w_arg = tx_base (txs ! i) + 2, w_freeCb = Some FreeBlockTask\<rparr>"
| "work_of txs (LSem i) = \<lparr>w_cb = None, w_arg = tx_base (txs ! i) + 3, w_freeCb = Some FreeSem\<rparr>"
| "work_of txs (LStatus i) = \<lparr>w_cb = Some (ClientCb TRANS_ChannelSetStatusProc_cb), w_arg = tx_base (txs ! i), w_freeCb = Some MemFree\<rparr>"

datatype gwork = GIdle | GCall lab | GRel nat | GPost nat | GFree lab

primrec worker_of :: "tx list \<Rightarrow> gwork \<Rightarrow> worker" where
  "worker_of txs GIdle = WkIdle"
| "worker_of txs (GCall l) = WkCall (work_of txs l)"
| "worker_of txs (GRel i) = WkRelease (work_of txs (LTask i)) (tx_base (txs ! i))"
| "worker_of txs (GPost i) = WkPost (work_of txs (LTask i))"
| "worker_of txs (GFree l) = WkFree (work_of txs l)"

primrec held :: "gwork \<Rightarrow> lab list" where
  "held GIdle = []"
| "held (GCall l) = [l]"
| "held (GRel i) = [LTask i]"
| "held (GPost i) = [LTask i]"
| "held (GFree l) = [l]"

primrec stage :: "gwork \<Rightarrow> tphase" where
  "stage GIdle = TDone"
| "stage (GCall l) = TCall"
| "stage (GRel i) = TRel"
| "stage (GPost i) = TPost"
| "stage (GFree l) = TFree"

text \<open>What the queue and the control thread say of the task, the semaphore and the argument of a call.\<close>

definition task_at :: "lab list \<Rightarrow> gwork \<Rightarrow> nat \<Rightarrow> tphase option" where
  "task_at labs g i = (if LTask i \<in> set (held g) then Some (stage g) else if LTask i \<in> set labs then Some TQueued else None)"

definition sem_at :: "lab list \<Rightarrow> gwork \<Rightarrow> nat \<Rightarrow> sphase option" where
  "sem_at labs g i = (if LSem i \<in> set (held g) then Some SWorker else if LSem i \<in> set labs then Some SQueued else None)"

definition status_at :: "lab list \<Rightarrow> gwork \<Rightarrow> nat \<Rightarrow> bool" where
  "status_at labs g i \<longleftrightarrow> LStatus i \<in> set (held g) \<union> set labs"

lemmas at_defs = task_at_def sem_at_def status_at_def

definition view :: "lab list \<Rightarrow> gwork \<Rightarrow> nat \<Rightarrow> tphase option \<times> sphase option \<times> bool" where
  "view labs g i = (task_at labs g i, sem_at labs g i, status_at labs g i)"

fun row_ok :: "bool \<Rightarrow> caller \<Rightarrow> tx \<Rightarrow> tphase option \<times> sphase option \<times> bool \<Rightarrow> bool" where
  "row_ok down c (Send n a b r t m) (tv, sv, av) \<longleftrightarrow>
     (case tv of Some p \<Rightarrow> t = p | None \<Rightarrow> t = TDone \<or> t = TDropped) \<and>
     (case sv of Some p \<Rightarrow> m = p | None \<Rightarrow> m = SCaller \<or> m = SGone) \<and> \<not> av \<and>
     stages_ok c n r t m \<and> (m = SWorker \<or> m = SGone \<longrightarrow> posted t \<or> t = TDropped) \<and> (t = TDropped \<longrightarrow> down)"
| "row_ok down c (Status n a live) (tv, sv, av) \<longleftrightarrow> tv = None \<and> sv = None \<and> (live \<longleftrightarrow> av) \<and> c = CallDone"
| "row_ok down c (Dead n) (tv, sv, av) \<longleftrightarrow> tv = None \<and> sv = None \<and> \<not> av \<and> (c = CallDone \<or> (\<exists>r. c = Returned r))"

text \<open>A semaphore is left to the queue behind its task.\<close>

fun ordered :: "lab list \<Rightarrow> bool" where
  "ordered [] \<longleftrightarrow> True"
| "ordered (l # ls) \<longleftrightarrow> (case l of LSem i \<Rightarrow> LTask i \<notin> set ls | _ \<Rightarrow> True) \<and> ordered ls"

lemma ordered_snoc: "ordered (ls @ [l]) \<longleftrightarrow> ordered ls \<and> (case l of LTask i \<Rightarrow> LSem i \<notin> set ls | _ \<Rightarrow> True)"
  by (induction ls) (auto split: lab.splits)

section \<open>The relation\<close>

text \<open>The heap consists of the blocks of the calls, which lie one behind the other.\<close>

definition blocks :: "caller list \<Rightarrow> tx list \<Rightarrow> (nat \<Rightarrow> (trans_cb, trans_cell) cell option) \<Rightarrow> nat \<Rightarrow> bool" where
  "blocks cs txs hp nxt \<longleftrightarrow>
     (\<forall>i<length txs. \<forall>k<tx_span (txs ! i). hp (tx_base (txs ! i) + k) = block (cs ! i) (txs ! i) k) \<and>
     (\<forall>j<length txs. \<forall>i<j. tx_base (txs ! i) + tx_span (txs ! i) \<le> tx_base (txs ! j)) \<and>
     (\<forall>i<length txs. tx_base (txs ! i) + tx_span (txs ! i) \<le> nxt) \<and>
     (\<forall>a. hp a \<noteq> None \<longrightarrow> (\<exists>i<length txs. tx_base (txs ! i) \<le> a \<and> a < tx_base (txs ! i) + tx_span (txs ! i)))"

definition queue_ok :: "nat \<Rightarrow> lab list \<Rightarrow> gwork \<Rightarrow> bool" where
  "queue_ok n labs g \<longleftrightarrow> distinct (held g @ labs) \<and> ordered labs \<and> (\<forall>l\<in>set (held g @ labs). idx l < n)"

definition core :: "bool \<Rightarrow> caller list \<Rightarrow> tx list \<Rightarrow> lab list \<Rightarrow> gwork \<Rightarrow> trans_heap \<Rightarrow> bool" where
  "core down cs txs labs g h \<longleftrightarrow> length cs = length txs \<and> blocks cs txs (cells h) (next_addr h) \<and> queue_ok (length txs) labs g \<and>
     (\<forall>i<length txs. row_ok down (cs ! i) (txs ! i) (view labs g i))"

definition threads :: "tx list \<Rightarrow> lab list \<Rightarrow> gwork \<Rightarrow> trans_sys \<Rightarrow> bool" where
  "threads txs labs g s \<longleftrightarrow> ts_worker s = worker_of txs g \<and>
     (case g_schedule (ts_heap s) of
        None \<Rightarrow> labs = [] \<and> g = GIdle
      | Some q \<Rightarrow> q = map (work_of txs) labs \<and> g_eventHandle (ts_heap s))"

definition sim :: "bool \<Rightarrow> trans_sys \<Rightarrow> tx list \<Rightarrow> lab list \<Rightarrow> gwork \<Rightarrow> bool" where
  "sim down s txs labs g \<longleftrightarrow> core down (ts_callers s) txs labs g (ts_heap s) \<and> threads txs labs g s \<and> \<not> ts_fault s"

section \<open>Changing one call\<close>

lemma blocks_upd:
  assumes "blocks cs txs hp nxt" "length cs = length txs" "i < length txs"
    and same: "tx_base x = tx_base (txs ! i)" "tx_span x = tx_span (txs ! i)"
    and own: "\<And>k. k < tx_span x \<Longrightarrow> hp' (tx_base x + k) = block c x k"
    and rest: "\<And>a. a < tx_base x \<or> tx_base x + tx_span x \<le> a \<Longrightarrow> hp' a = hp a"
  shows "blocks (cs[i := c]) (txs[i := x]) hp' nxt"
proof -
  have bs: "tx_base (txs[i := x] ! j) = tx_base (txs ! j)" "tx_span (txs[i := x] ! j) = tx_span (txs ! j)" for j
    using same assms(3) by (cases "j = i"; simp)+
  have B: "\<And>j k. j < length txs \<Longrightarrow> k < tx_span (txs ! j) \<Longrightarrow> hp (tx_base (txs ! j) + k) = block (cs ! j) (txs ! j) k"
    and S: "\<And>j k. k < length txs \<Longrightarrow> j < k \<Longrightarrow> tx_base (txs ! j) + tx_span (txs ! j) \<le> tx_base (txs ! k)"
    and N: "\<forall>j<length txs. tx_base (txs ! j) + tx_span (txs ! j) \<le> nxt"
    and C: "\<And>a. hp a \<noteq> None \<Longrightarrow> \<exists>j<length txs. tx_base (txs ! j) \<le> a \<and> a < tx_base (txs ! j) + tx_span (txs ! j)"
    using assms(1) unfolding blocks_def by blast+
  have "hp' (tx_base (txs ! j) + k) = block (cs[i := c] ! j) (txs[i := x] ! j) k" if j: "j < length txs" "k < tx_span (txs ! j)" for j k
  proof (cases "j = i")
    case True then show ?thesis using own [of k] j same assms(2,3) by simp
  next
    case False
    then have "tx_base (txs ! j) + k < tx_base x \<or> tx_base x + tx_span x \<le> tx_base (txs ! j) + k"
      using S [of i j] S [of j i] j assms(3) same by (cases "j < i") auto
    from rest [OF this] show ?thesis using B [OF j] False by simp
  qed
  moreover have "\<exists>j<length txs. tx_base (txs ! j) \<le> a \<and> a < tx_base (txs ! j) + tx_span (txs ! j)" if a: "hp' a \<noteq> None" for a
  proof (cases "a < tx_base x \<or> tx_base x + tx_span x \<le> a")
    case True then show ?thesis using C rest a by simp
  next
    case False then show ?thesis using same assms(3) by (intro exI [of _ i]) simp
  qed
  ultimately show ?thesis using S N unfolding blocks_def bs length_list_update by blast
qed

lemma core_upd:
  assumes C: "core down cs txs labs g h" and i: "i < length txs"
    and same: "tx_base x = tx_base (txs ! i)" "tx_span x = tx_span (txs ! i)" "next_addr h' = next_addr h"
    and own: "\<And>k. k < tx_span x \<Longrightarrow> cells h' (tx_base x + k) = block c x k"
    and rest: "\<And>a. a < tx_base x \<or> tx_base x + tx_span x \<le> a \<Longrightarrow> cells h' a = cells h a"
    and q: "queue_ok (length txs) labs' g'" "row_ok down c x (view labs' g' i)"
    and other: "\<And>j. j \<noteq> i \<Longrightarrow> view labs' g' j = view labs g j"
  shows "core down (cs[i := c]) (txs[i := x]) labs' g' h'"
proof -
  have "length cs = length txs" "blocks cs txs (cells h) (next_addr h)" using C by (auto simp: core_def)
  then have "blocks (cs[i := c]) (txs[i := x]) (cells h') (next_addr h')"
    unfolding same(3) using i same(1,2) own rest by (intro blocks_upd) auto
  moreover have "row_ok down (cs[i := c] ! j) (txs[i := x] ! j) (view labs' g' j)" if "j < length txs" for j
    using C q(2) other [of j] that by (cases "j = i") (auto simp: core_def)
  ultimately show ?thesis using C q(1) by (simp add: core_def)
qed

text \<open>The special case in which only the queue and the control thread move.\<close>

lemma core_queue:
  assumes "core down cs txs labs g h" "queue_ok (length txs) labs' g'"
    "\<And>i. i < length txs \<Longrightarrow> row_ok down (cs ! i) (txs ! i) (view labs' g' i)"
  shows "core down cs txs labs' g' h"
  using assms by (simp add: core_def)

lemma core_row: "core down cs txs labs g h \<Longrightarrow> i < length txs \<Longrightarrow> row_ok down (cs ! i) (txs ! i) (view labs g i)"
  by (simp add: core_def)

lemma core_heap: "cells h' = cells h \<Longrightarrow> next_addr h' = next_addr h \<Longrightarrow> core down cs txs labs g h' = core down cs txs labs g h"
  by (simp add: core_def)

text \<open>The blocks of a send, read from the heap.\<close>

lemma send_cells:
  assumes "core down cs txs labs g h" "i < length txs" "txs ! i = Send n a b r t m"
  shows "cells h n = block (cs ! i) (Send n a b r t m) 0" "cells h (n + 1) = block (cs ! i) (Send n a b r t m) 1"
    "cells h (n + 2) = block (cs ! i) (Send n a b r t m) 2" "cells h (n + 3) = block (cs ! i) (Send n a b r t m) 3"
proof -
  have "cells h (n + k) = block (cs ! i) (Send n a b r t m) k" if "k < 4" for k
    using assms that unfolding core_def blocks_def by (metis tx_base.simps(1) tx_span.simps(1))
  from this [of 0] this [of 1] this [of 2] this [of 3]
  show "cells h n = block (cs ! i) (Send n a b r t m) 0" "cells h (n + 1) = block (cs ! i) (Send n a b r t m) 1"
    "cells h (n + 2) = block (cs ! i) (Send n a b r t m) 2" "cells h (n + 3) = block (cs ! i) (Send n a b r t m) 3"
    by (simp_all del: block.simps)
qed

lemma status_cell:
  assumes "core down cs txs labs g h" "i < length txs" "txs ! i = Status n a live"
  shows "cells h n = block (cs ! i) (Status n a live) 0"
proof -
  have "cells h (n + k) = block (cs ! i) (Status n a live) k" if "k < 1" for k
    using assms that unfolding core_def blocks_def by (metis tx_base.simps(2) tx_span.simps(2))
  from this [of 0] show ?thesis by simp
qed

lemma less4: "k < (4 :: nat) \<Longrightarrow> k = 0 \<or> k = 1 \<or> k = 2 \<or> k = 3"
  by auto

text \<open>A step of a send: its new stages, and a heap in which only its own blocks differ.\<close>

lemma send_upd:
  assumes C: "core down cs txs labs g h" and i: "i < length txs" "txs ! i = Send n a b r t m"
    and h': "next_addr h' = next_addr h" "\<And>p. p \<noteq> n \<Longrightarrow> p \<noteq> n + 1 \<Longrightarrow> p \<noteq> n + 2 \<Longrightarrow> p \<noteq> n + 3 \<Longrightarrow> cells h' p = cells h p"
    and own: "cells h' n = block c (Send n a b r' t' m') 0" "cells h' (n + 1) = block c (Send n a b r' t' m') 1"
      "cells h' (n + 2) = block c (Send n a b r' t' m') 2" "cells h' (n + 3) = block c (Send n a b r' t' m') 3"
    and q: "queue_ok (length txs) labs' g'" "row_ok down c (Send n a b r' t' m') (view labs' g' i)"
    and other: "\<And>j. j \<noteq> i \<Longrightarrow> view labs' g' j = view labs g j"
  shows "core down (cs[i := c]) (txs[i := Send n a b r' t' m']) labs' g' h'"
proof (rule core_upd [OF C i(1)])
  fix k assume "k < tx_span (Send n a b r' t' m')"
  then have "k = 0 \<or> k = 1 \<or> k = 2 \<or> k = 3" using less4 by simp
  then show "cells h' (tx_base (Send n a b r' t' m') + k) = block c (Send n a b r' t' m') k"
    using own by (auto simp del: block.simps)
qed (use i h' q other in auto)

lemma work_of_upd:
  assumes "tx_base x = tx_base (txs ! i)" "i < length txs"
  shows "work_of (txs[i := x]) = work_of txs" "worker_of (txs[i := x]) = worker_of txs"
proof -
  have b: "tx_base (txs[i := x] ! j) = tx_base (txs ! j)" for j using assms by (cases "j = i") auto
  have w: "work_of (txs[i := x]) l = work_of txs l" for l by (cases l) (simp_all add: b)
  then show "work_of (txs[i := x]) = work_of txs" by blast
  have "worker_of (txs[i := x]) v = worker_of txs v" for v by (cases v) (simp_all add: b w)
  then show "worker_of (txs[i := x]) = worker_of txs" by blast
qed

end
