(* ===== verification/Trans_Safe.thy ===== *)
theory Trans_Safe
  imports Trans_Sim
begin

text \<open>
  Every step of the threads of the transport layer keeps the relation \<open>sim\<close> between the heap and the calls, as long as
  the work that returns a semaphore after a time-out can be allocated: no step accesses a freed block, and a system at
  rest has freed all of its blocks.
\<close>

section \<open>Reading and freeing\<close>

lemma set_cell_sel [simp]:
  "cells (set_cell a v h) = (cells h)(a := v)" "next_addr (set_cell a v h) = next_addr h"
  "g_schedule (set_cell a v h) = g_schedule h" "g_eventHandle (set_cell a v h) = g_eventHandle h"
  "heap_mem (set_cell a v h) = heap_mem h"
  by (simp_all add: set_cell_def)

lemma free_cell_Some: "cells h a = Some v \<Longrightarrow> free_cell a h = Some (set_cell a None h)"
  by (simp add: free_cell_def)

lemma do_FreeSem_Some: "cells h a = Some (SemCell k) \<Longrightarrow> do_FreeSem a h = Some (set_cell a None h)"
  by (simp add: do_FreeSem_def get_sem_def free_cell_Some)

lemma do_FreeBlockTask_Some:
  "cells h a = Some (TaskCell t) \<Longrightarrow> \<not> bt_freeCb t \<Longrightarrow> do_FreeBlockTask a h = Some (set_cell a None h)"
  by (simp add: do_FreeBlockTask_def get_task_def free_cell_Some)

lemma get_trans_Some: "cells h a = Some (DataCell (TransData d)) \<Longrightarrow> get_trans a h = Some d"
  by (simp add: get_trans_def get_data_def)

lemma TRANS_TransportDataFree_Some:
  "cells h a = Some (DataCell (TransData d)) \<Longrightarrow> TRANS_TransportDataFree a h =
     Some (set_cell a (if refCount d = 1 then None else Some (DataCell (TransData (d\<lparr>refCount := refCount d - 1\<rparr>)))) h)"
  by (simp add: TRANS_TransportDataFree_def get_trans_Some put_trans_def free_cell_def set_cell_def)

section \<open>Steps of a call\<close>

lemma sem_at_neq [simp]: "sem_at labs g i \<noteq> Some SCaller" "sem_at labs g i \<noteq> Some SGone"
  by (simp_all add: sem_at_def)

lemma task_at_neq [simp]: "task_at labs g i \<noteq> Some TDone" "task_at labs g i \<noteq> Some TDropped"
  by (cases g; simp add: task_at_def)+

text \<open>A step that moves one send, from \<open>sim\<close> to \<open>sim\<close>.\<close>

lemma sim_send:
  assumes S: "sim down s txs labs g" and i: "i < length txs" "txs ! i = Send n a b r t m"
    and h': "next_addr h' = next_addr (ts_heap s)"
      "\<And>p. p \<noteq> n \<Longrightarrow> p \<noteq> n + 1 \<Longrightarrow> p \<noteq> n + 2 \<Longrightarrow> p \<noteq> n + 3 \<Longrightarrow> cells h' p = cells (ts_heap s) p"
    and own: "cells h' n = block c (Send n a b r' t' m') 0" "cells h' (n + 1) = block c (Send n a b r' t' m') 1"
      "cells h' (n + 2) = block c (Send n a b r' t' m') 2" "cells h' (n + 3) = block c (Send n a b r' t' m') 3"
    and q: "queue_ok (length txs) labs' g'" "row_ok down c (Send n a b r' t' m') (view labs' g' i)"
    and other: "\<And>j. j \<noteq> i \<Longrightarrow> view labs' g' j = view labs g j"
    and sch: "case g_schedule h' of None \<Rightarrow> labs' = [] \<and> g' = GIdle | Some l \<Rightarrow> l = map (work_of txs) labs' \<and> g_eventHandle h'"
    and s': "ts_heap s' = h'" "ts_callers s' = (ts_callers s)[i := c]" "ts_worker s' = worker_of txs g'" "ts_fault s' = ts_fault s"
  shows "sim down s' (txs[i := Send n a b r' t' m']) labs' g'"
proof -
  have C: "core down (ts_callers s) txs labs g (ts_heap s)" using S by (simp add: sim_def)
  have "core down ((ts_callers s)[i := c]) (txs[i := Send n a b r' t' m']) labs' g' h'"
    by (rule send_upd [OF C i h' own q other])
  moreover have "work_of (txs[i := Send n a b r' t' m']) = work_of txs" "worker_of (txs[i := Send n a b r' t' m']) = worker_of txs"
    using i work_of_upd [of "Send n a b r' t' m'" txs i] by simp_all
  ultimately show ?thesis using S sch s' by (simp add: sim_def threads_def cong: option.case_cong)
qed

text \<open>The send that a waiting or running call belongs to.\<close>

lemma row_send:
  assumes "sim down s txs labs g" "i < length (ts_callers s)" "holds_data (ts_callers s ! i)"
  obtains n a b r t m where "i < length txs" "txs ! i = Send n a b r t m"
    "row_ok down (ts_callers s ! i) (Send n a b r t m) (view labs g i)"
proof -
  have l: "i < length txs" using assms(1,2) by (simp add: sim_def core_def)
  have r: "row_ok down (ts_callers s ! i) (txs ! i) (view labs g i)" using assms(1) l by (simp add: sim_def core_def)
  show thesis
  proof (cases "txs ! i")
    case (Send n a b r' t m) then show thesis using that l r by metis
  next
    case (Status n a v) then show thesis using r assms(3) by (cases "view labs g i") auto
  next
    case (Dead n) then show thesis using r assms(3) by (cases "view labs g i") auto
  qed
qed

lemma threads_sched:
  assumes "sim down s txs labs g" "g_schedule h' = g_schedule (ts_heap s)" "g_eventHandle h' = g_eventHandle (ts_heap s)"
  shows "case g_schedule h' of None \<Rightarrow> labs = [] \<and> g = GIdle | Some l \<Rightarrow> l = map (work_of txs) labs \<and> g_eventHandle h'"
  using assms by (simp add: sim_def threads_def split: option.splits)

text \<open>The special case in which neither the queue nor the control thread moves.\<close>

lemma sim_caller:
  assumes S: "sim down s txs labs g" and i: "i < length txs" "txs ! i = Send n a b r t m"
    and q: "row_ok down c (Send n a b r t m') (view labs g i)"
    and h': "next_addr h' = next_addr (ts_heap s)" "g_schedule h' = g_schedule (ts_heap s)" "g_eventHandle h' = g_eventHandle (ts_heap s)"
      "\<And>p. p \<noteq> n \<Longrightarrow> p \<noteq> n + 3 \<Longrightarrow> cells h' p = cells (ts_heap s) p"
    and own: "cells h' n = block c (Send n a b r t m') 0" "cells h' (n + 3) = block c (Send n a b r t m') 3"
  shows "\<exists>txs. sim down (s\<lparr>ts_heap := h', ts_callers := (ts_callers s)[i := c]\<rparr>) txs labs g"
proof -
  have C: "core down (ts_callers s) txs labs g (ts_heap s)" and Q: "queue_ok (length txs) labs g" "ts_worker s = worker_of txs g"
    using S by (simp_all add: sim_def core_def threads_def)
  have "cells h' (n + 1) = cells (ts_heap s) (n + 1)" "cells h' (n + 2) = cells (ts_heap s) (n + 2)" using h'(4) by simp_all
  then have o: "cells h' (n + 1) = block c (Send n a b r t m') 1" "cells h' (n + 2) = block c (Send n a b r t m') 2"
    unfolding send_cells(2,3) [OF C i] by simp_all
  have "sim down (s\<lparr>ts_heap := h', ts_callers := (ts_callers s)[i := c]\<rparr>) (txs[i := Send n a b r t m']) labs g"
    by (rule sim_send [OF S i h'(1) _ own(1) o own(2) Q(1) q _ threads_sched [OF S h'(2,3)]]) (simp_all add: h'(4) Q(2))
  then show ?thesis by blast
qed

lemma wake_sim:
  assumes S: "sim down s txs labs g" and i: "i < length (ts_callers s)" "ts_callers s ! i = Waiting td sem"
    and w: "get_sem sem (ts_heap s) \<noteq> Some 0"
  shows "\<exists>txs. sim down (commit (SemTimeWait_ok sem (ts_heap s))
      (\<lambda>h. s\<lparr>ts_heap := h, ts_callers := (ts_callers s)[i := Woken td sem]\<rparr>) s) txs labs g"
proof -
  obtain n a b r t m where x: "i < length txs" "txs ! i = Send n a b r t m"
      "row_ok down (ts_callers s ! i) (Send n a b r t m) (view labs g i)"
    by (rule row_send [OF S i(1)]) (simp add: i(2))
  have C: "core down (ts_callers s) txs labs g (ts_heap s)" using S by (simp add: sim_def)
  note sc = send_cells [OF C x(1,2), unfolded i(2)]
  have m: "m = SCaller" "td = n" "sem = n + 3" using x(3) by (auto simp: i(2) view_def)
  then have t: "posted t" using w sc(4) by (auto simp: get_sem_def)
  then have ok: "SemTimeWait_ok sem (ts_heap s) = Some (set_cell sem (Some (SemCell 0)) (ts_heap s))"
    using sc(4) m by (simp add: SemTimeWait_ok_def get_sem_def)
  have R: "row_ok down (Woken td sem) (Send n a b r t SCaller) (view labs g i)"
    using x(3) t m by (auto simp: i(2) view_def)
  show ?thesis unfolding ok commit_def option.case
    by (rule sim_caller [OF S x(1,2) R])
       (use t in \<open>simp_all add: sc m refs_def\<close>)
qed

lemma timeout_sim:
  assumes S: "sim down s txs labs g" and i: "i < length (ts_callers s)" "ts_callers s ! i = Waiting td sem"
  shows "\<exists>txs. sim down (s\<lparr>ts_callers := (ts_callers s)[i := TimedOut td sem]\<rparr>) txs labs g"
proof -
  obtain n a b r t m where x: "i < length txs" "txs ! i = Send n a b r t m"
      "row_ok down (ts_callers s ! i) (Send n a b r t m) (view labs g i)"
    by (rule row_send [OF S i(1)]) (simp add: i(2))
  have C: "core down (ts_callers s) txs labs g (ts_heap s)" using S by (simp add: sim_def)
  note sc = send_cells [OF C x(1,2), unfolded i(2)]
  have R: "row_ok down (TimedOut td sem) (Send n a b r t m) (view labs g i)" using x(3) by (auto simp: i(2) view_def split: option.splits)
  have "\<exists>txs. sim down (s\<lparr>ts_heap := ts_heap s, ts_callers := (ts_callers s)[i := TimedOut td sem]\<rparr>) txs labs g"
    by (rule sim_caller [OF S x(1,2) R]) (simp_all add: sc refs_def)
  then show ?thesis by simp
qed

text \<open>The time-out of a call: its semaphore goes to the end of the queue, or is freed when there is no queue any more.\<close>

lemma left_sem_sim:
  assumes S: "sim down s txs labs g" and i: "i < length (ts_callers s)" "ts_callers s ! i = TimedOut td sem"
    and ok: "fst (SDF_MemAlloc (heap_mem (ts_heap s)))"
  shows "\<exists>txs labs. sim down (commit (caller_step (TimedOut td sem) (ts_heap s))
      (\<lambda>(c, h). s\<lparr>ts_heap := h, ts_callers := (ts_callers s)[i := c]\<rparr>) s) txs labs g"
proof -
  obtain n a b r t m where x: "i < length txs" "txs ! i = Send n a b r t m"
      "row_ok down (ts_callers s ! i) (Send n a b r t m) (view labs g i)"
    by (rule row_send [OF S i(1)]) (simp add: i(2))
  have C: "core down (ts_callers s) txs labs g (ts_heap s)" using S by (simp add: sim_def)
  note sc = send_cells [OF C x(1,2), unfolded i(2)]
  have m: "m = SCaller" "td = n" "sem = n + 3" using x(3) by (auto simp: i(2) view_def)
  have sem: "cells (ts_heap s) sem = Some (SemCell (of_bool (posted t)))" using sc(4) m by simp
  have T: "ts_worker s = worker_of txs g" "queue_ok (length txs) labs g" using S by (simp_all add: sim_def threads_def core_def)
  show ?thesis
  proof (cases "g_schedule (ts_heap s)")
    case None
    then have lg: "labs = []" "g = GIdle" using S by (simp_all add: sim_def threads_def)
    have t: "t = TDone \<or> t = TDropped" using x(3) by (simp add: lg view_def at_defs)
    have st: "caller_step (TimedOut td sem) (ts_heap s) = Some (Abandoned td, set_cell sem None (ts_heap s))"
      using sem None by (simp add: PostTaskBlocked_timeout_def SchedulePostTask_def call_free_def do_FreeSem_Some)
    have R: "row_ok down (Abandoned td) (Send n a b r t SGone) (view labs g i)"
      using x(3) m(2) t by (auto simp: lg view_def at_defs)
    have "\<exists>txs. sim down (s\<lparr>ts_heap := set_cell sem None (ts_heap s), ts_callers := (ts_callers s)[i := Abandoned td]\<rparr>) txs labs g"
      by (rule sim_caller [OF S x(1,2) R]) (simp_all add: sc m refs_def)
    then show ?thesis unfolding st commit_def option.case prod.case by blast
  next
    case (Some q)
    then have q: "q = map (work_of txs) labs" "g_eventHandle (ts_heap s)" using S by (simp_all add: sim_def threads_def)
    obtain mm where mm: "SDF_MemAlloc (heap_mem (ts_heap s)) = (True, mm)" using ok by (cases "SDF_MemAlloc (heap_mem (ts_heap s))") auto
    let ?h = "(ts_heap s)\<lparr>heap_mem := mm, g_schedule := Some (q @ [work_of txs (LSem i)])\<rparr>"
    have st: "caller_step (TimedOut td sem) (ts_heap s) = Some (Abandoned td, ?h)"
      using Some q(2) mm x(2) m by (simp add: PostTaskBlocked_timeout_def SchedulePostTask_def SDF_AddWork_def)
    have ls: "LSem i \<notin> set (held g)" "LSem i \<notin> set labs" using x(3) m by (auto simp: view_def at_defs split: if_splits)
    have Q: "queue_ok (length txs) (labs @ [LSem i]) g" using T(2) ls x(1) by (auto simp: queue_ok_def ordered_snoc)
    have tv: "task_at (labs @ [LSem i]) g i = task_at labs g i" by (simp add: task_at_def)
    have sv: "sem_at (labs @ [LSem i]) g i = Some SQueued" "status_at (labs @ [LSem i]) g i = status_at labs g i"
      using ls by (simp_all add: at_defs)
    have R: "row_ok down (Abandoned td) (Send n a b r t SQueued) (view (labs @ [LSem i]) g i)"
      using x(3) m(2) by (simp add: view_def tv sv)
    have O: "view (labs @ [LSem i]) g j = view labs g j" if "j \<noteq> i" for j using that by (simp add: view_def at_defs)
    have ch: "cells ?h = cells (ts_heap s)" by simp
    have o: "cells ?h n = block (Abandoned td) (Send n a b r t SQueued) 0" "cells ?h (n + 1) = block (Abandoned td) (Send n a b r t SQueued) 1"
      "cells ?h (n + 2) = block (Abandoned td) (Send n a b r t SQueued) 2" "cells ?h (n + 3) = block (Abandoned td) (Send n a b r t SQueued) 3"
      unfolding ch sc by (simp_all add: m refs_def)
    show ?thesis unfolding st commit_def option.case prod.case
      by (intro exI, rule sim_send [OF S x(1,2) _ _ o Q R O]) (simp_all add: T(1) q)
  qed
qed

text \<open>The other steps of a call: none of them touches the queue.\<close>

lemma call_sim:
  assumes S: "sim down s txs labs g" and i: "i < length (ts_callers s)" "runs_on (ts_callers s ! i)"
    and nt: "\<nexists>td sem. ts_callers s ! i = TimedOut td sem"
  shows "\<exists>txs. sim down (commit (caller_step (ts_callers s ! i) (ts_heap s))
      (\<lambda>(c, h). s\<lparr>ts_heap := h, ts_callers := (ts_callers s)[i := c]\<rparr>) s) txs labs g"
proof -
  let ?c = "ts_callers s ! i"
  have hd: "holds_data ?c" using i(2) by (cases ?c) auto
  obtain n a b r t m where x: "i < length txs" "txs ! i = Send n a b r t m" "row_ok down ?c (Send n a b r t m) (view labs g i)"
    by (rule row_send [OF S i(1) hd])
  have C: "core down (ts_callers s) txs labs g (ts_heap s)" using S by (simp add: sim_def)
  note move = sim_caller [OF S x(1,2)]
  note sc = send_cells [OF C x(1,2)]
  have data: "cells (ts_heap s) n = Some (DataCell (TransData \<lparr>td_addr = a, td_buff = (if unsent t then Some (n + 1) else None),
      td_result = (if unsent t then None else Some r), refCount = refs ?c t\<rparr>))"
    using sc(1) hd by (simp add: refs_def)
  show ?thesis
  proof (cases ?c)
    case (Woken td sem)
    then have m: "td = n" "sem = n + 3" "m = SCaller" "posted t" using x(3) by (auto simp: view_def)
    have st: "caller_step ?c (ts_heap s) = Some (Executed n, set_cell sem None (ts_heap s))"
      using sc(4) m by (simp add: Woken do_FreeSem_Some)
    have R: "row_ok down (Executed n) (Send n a b r t SGone) (view labs g i)" using x(3) m by (auto simp: Woken view_def split: option.splits)
    show ?thesis unfolding st commit_def option.case prod.case by (rule move [OF R]) (use m(4) in \<open>simp_all add: sc m(1-3) Woken refs_def\<close>)
  next
    case (Executed td)
    then have m: "td = n" "posted t" "m = SGone" using x(3) by (auto simp: view_def)
    have st: "caller_step ?c (ts_heap s) = Some (Answered n r, ts_heap s)" using data m by (auto simp: Executed get_trans_Some)
    have R: "row_ok down (Answered n r) (Send n a b r t m) (view labs g i)" using x(3) m by (auto simp: Executed view_def)
    show ?thesis unfolding st commit_def option.case prod.case by (rule move [OF R]) (use m(2) in \<open>simp_all add: sc m(1,3) Executed refs_def\<close>)
  next
    case (Answered td r')
    then have m: "td = n" "posted t" "m = SGone" using x(3) by (auto simp: view_def)
    have st: "caller_step ?c (ts_heap s) = Some (Returned (Inr r'), set_cell n None (ts_heap s))"
      using TRANS_TransportDataFree_Some [OF data] m(1,2) by (auto simp: Answered refs_def)
    have R: "row_ok down (Returned (Inr r')) (Send n a b r t m) (view labs g i)" using x(3) m by (auto simp: Answered view_def)
    show ?thesis unfolding st commit_def option.case prod.case by (rule move [OF R]) (use m(2) in \<open>auto simp: sc m(1,3) Answered refs_def\<close>)
  next
    case (Abandoned td)
    let ?r = "Returned (Inl TRANS_SEND_DATA_POST_FAILED)"
    have m: "td = n" "m \<noteq> SCaller" using x(3) by (auto simp: Abandoned view_def)
    have st: "caller_step ?c (ts_heap s) = Some (?r, set_cell n (block ?r (Send n a b r t m) 0) (ts_heap s))"
      using TRANS_TransportDataFree_Some [OF data] m(1) by (auto simp: Abandoned refs_def TRANS_PostTaskToSendDataFailed_def)
    have R: "row_ok down ?r (Send n a b r t m) (view labs g i)" using x(3) m by (auto simp: Abandoned view_def)
    show ?thesis unfolding st commit_def option.case prod.case by (rule move [OF R]) (use sc in \<open>simp_all add: Abandoned\<close>)
  qed (use i(2) nt in auto)
qed

section \<open>Steps of the control thread\<close>

text \<open>The call that a label belongs to.\<close>

lemma label_row:
  assumes S: "sim down s txs labs g" and l: "l \<in> set (held g @ labs)"
  shows "idx l < length txs" "row_ok down (ts_callers s ! idx l) (txs ! idx l) (view labs g (idx l))"
  using assms by (auto simp: sim_def core_def queue_ok_def)

lemma task_row:
  assumes S: "sim down s txs labs g" and l: "LTask i \<in> set (held g @ labs)"
  obtains n a b r t m where "i < length txs" "txs ! i = Send n a b r t m" "task_at labs g i = Some t"
    "row_ok down (ts_callers s ! i) (Send n a b r t m) (view labs g i)"
proof -
  have r: "i < length txs" "row_ok down (ts_callers s ! i) (txs ! i) (view labs g i)" using label_row [OF S l] by simp_all
  moreover have "task_at labs g i \<noteq> None" using l by (auto simp: task_at_def)
  ultimately show thesis using that by (cases "txs ! i") (auto simp: view_def)
qed

lemma sem_row:
  assumes S: "sim down s txs labs g" and l: "LSem i \<in> set (held g @ labs)"
  obtains n a b r t m where "i < length txs" "txs ! i = Send n a b r t m" "sem_at labs g i = Some m"
    "row_ok down (ts_callers s ! i) (Send n a b r t m) (view labs g i)"
proof -
  have r: "i < length txs" "row_ok down (ts_callers s ! i) (txs ! i) (view labs g i)" using label_row [OF S l] by simp_all
  moreover have "sem_at labs g i \<noteq> None" using l by (auto simp: sem_at_def)
  ultimately show thesis using that by (cases "txs ! i") (auto simp: view_def)
qed

lemma status_row:
  assumes S: "sim down s txs labs g" and l: "LStatus i \<in> set (held g @ labs)"
  obtains n a where "i < length txs" "txs ! i = Status n a True" "ts_callers s ! i = CallDone"
proof -
  have r: "i < length txs" "row_ok down (ts_callers s ! i) (txs ! i) (view labs g i)" using label_row [OF S l] by simp_all
  moreover have "status_at labs g i" using l by (auto simp: status_at_def)
  ultimately show thesis using that by (cases "txs ! i") (auto simp: view_def)
qed

text \<open>A step that only moves a label between the queue and the control thread.\<close>

lemma sim_idle:
  assumes S: "sim down s txs labs g" and q: "queue_ok (length txs) labs' g'"
    and r: "\<And>i. i < length txs \<Longrightarrow> row_ok down (ts_callers s ! i) (txs ! i) (view labs' g' i)"
    and h: "cells h' = cells (ts_heap s)" "next_addr h' = next_addr (ts_heap s)"
    and sch: "case g_schedule h' of None \<Rightarrow> labs' = [] \<and> g' = GIdle | Some l \<Rightarrow> l = map (work_of txs) labs' \<and> g_eventHandle h'"
  shows "sim down (s\<lparr>ts_worker := worker_of txs g', ts_heap := h', ts_dtap := d\<rparr>) txs labs' g'"
proof -
  have "core down (ts_callers s) txs labs' g' h'"
    using S q r core_heap [OF h] by (auto simp: sim_def intro: core_queue)
  then show ?thesis using S sch by (simp add: sim_def threads_def cong: option.case_cong)
qed

text \<open>A step of the control thread on the task or the semaphore of one call.\<close>

lemma sim_work:
  assumes S: "sim down s txs labs g" and i: "i < length txs" "txs ! i = Send n a b r t m"
    and h': "next_addr h' = next_addr (ts_heap s)"
      "\<And>p. p \<noteq> n \<Longrightarrow> p \<noteq> n + 1 \<Longrightarrow> p \<noteq> n + 2 \<Longrightarrow> p \<noteq> n + 3 \<Longrightarrow> cells h' p = cells (ts_heap s) p"
    and own: "\<And>k. k < 4 \<Longrightarrow> cells h' (n + k) = block (ts_callers s ! i) (Send n a b r' t' m') k"
    and q: "queue_ok (length txs) labs' g'" "row_ok down (ts_callers s ! i) (Send n a b r' t' m') (view labs' g' i)"
    and other: "\<And>j. j \<noteq> i \<Longrightarrow> view labs' g' j = view labs g j"
    and sch: "case g_schedule h' of None \<Rightarrow> labs' = [] \<and> g' = GIdle | Some l \<Rightarrow> l = map (work_of txs) labs' \<and> g_eventHandle h'"
  shows "sim down (s\<lparr>ts_worker := worker_of txs g', ts_heap := h', ts_dtap := d\<rparr>) (txs[i := Send n a b r' t' m']) labs' g'"
  by (rule sim_send [OF S i h' _ _ _ _ q other sch]) (use own [of 0] own [of 1] own [of 2] own [of 3] in simp_all)

lemma send_block:
  assumes "sim down s txs labs g" "i < length txs" "txs ! i = Send n a b r t m" "k < 4"
  shows "cells (ts_heap s) (n + k) = block (ts_callers s ! i) (Send n a b r t m) k"
  using assms unfolding sim_def core_def blocks_def by (metis tx_base.simps(1) tx_span.simps(1))

lemma sim_running:
  assumes "sim down s txs labs g" "g \<noteq> GIdle"
  shows "g_schedule (ts_heap s) = Some (map (work_of txs) labs)" "g_eventHandle (ts_heap s)"
  using assms by (auto simp: sim_def threads_def split: option.splits)

text \<open>Taking the head of the queue.\<close>

lemma view_pop: "j \<noteq> idx l \<Longrightarrow> view labs (GCall l) j = view (l # labs) GIdle j"
  by (cases l) (auto simp: view_def at_defs)

lemma queue_pop: "queue_ok n (l # labs) GIdle \<Longrightarrow> queue_ok n labs (GCall l)"
  by (auto simp: queue_ok_def)

lemma pop_sim:
  assumes S: "sim down s txs (l # labs) GIdle" and q: "g_schedule (ts_heap s) = Some (map (work_of txs) (l # labs))"
  shows "\<exists>txs' labs' g'. sim down (s\<lparr>ts_worker := WkCall (work_of txs l), ts_heap := (ts_heap s)\<lparr>g_schedule := Some (map (work_of txs) labs)\<rparr>, ts_dtap := ts_dtap s\<rparr>) txs' labs' g'"
proof -
  let ?h = "(ts_heap s)\<lparr>g_schedule := Some (map (work_of txs) labs)\<rparr>"
  have Q: "queue_ok (length txs) (l # labs) GIdle" using S by (simp add: sim_def core_def)
  have e: "g_eventHandle (ts_heap s)" using S q by (simp add: sim_def threads_def)
  note sw = sim_work [OF S _ _ _ _ _ queue_pop [OF Q] _ view_pop, where h' = ?h and d = "ts_dtap s"]
  have w: "WkCall (work_of txs l) = worker_of txs (GCall l)" by simp
  show ?thesis
  proof (cases l)
    case (LTask i)
    obtain n a b r t m where x: "i < length txs" "txs ! i = Send n a b r t m" "task_at (l # labs) GIdle i = Some t"
        "row_ok down (ts_callers s ! i) (Send n a b r t m) (view (l # labs) GIdle i)"
      by (rule task_row [OF S, of i]) (simp add: LTask)
    have t: "t = TQueued" using x(3) LTask by (simp add: task_at_def)
    have o: "cells ?h (n + k) = block (ts_callers s ! i) (Send n a b r TCall m) k" if "k < 4" for k
      using send_block [OF S x(1,2) that] by (simp add: t refs_def)
    have R: "row_ok down (ts_callers s ! i) (Send n a b r TCall m) (view labs (GCall l) i)"
      using x(4) LTask by (cases "ts_callers s ! i") (auto simp: view_def at_defs t split: option.splits if_splits)
    show ?thesis unfolding w by (intro exI, rule sw [OF x(1,2) _ _ o R]) (simp_all add: LTask e)
  next
    case (LSem i)
    obtain n a b r t m where x: "i < length txs" "txs ! i = Send n a b r t m" "sem_at (l # labs) GIdle i = Some m"
        "row_ok down (ts_callers s ! i) (Send n a b r t m) (view (l # labs) GIdle i)"
      by (rule sem_row [OF S, of i]) (simp add: LSem)
    have m: "m = SQueued" using x(3) LSem by (simp add: sem_at_def)
    have nt: "LTask i \<notin> set labs" using Q LSem by (simp add: queue_ok_def)
    have o: "cells ?h (n + k) = block (ts_callers s ! i) (Send n a b r t SWorker) k" if "k < 4" for k
      using send_block [OF S x(1,2) that] by (simp add: m)
    have R: "row_ok down (ts_callers s ! i) (Send n a b r t SWorker) (view labs (GCall l) i)"
      using x(4) LSem nt by (cases "ts_callers s ! i") (auto simp: view_def at_defs m split: if_splits)
    show ?thesis unfolding w by (intro exI, rule sw [OF x(1,2) _ _ o R]) (simp_all add: LSem e)
  next
    case (LStatus i)
    have v: "view labs (GCall l) j = view (l # labs) GIdle j" for j
      using Q LStatus view_pop [of j l labs] by (cases "j = i") (auto simp: view_def at_defs queue_ok_def)
    show ?thesis unfolding w
      by (intro exI, rule sim_idle [OF S queue_pop [OF Q]]) (use S in \<open>simp_all add: v e sim_def core_def\<close>)
  qed
qed

text \<open>The stages of a work: its label stays with the control thread until the work is done.\<close>

lemma view_held: "held g = [l] \<Longrightarrow> held g' = [l] \<or> held g' = [] \<Longrightarrow> j \<noteq> idx l \<Longrightarrow> view labs g' j = view labs g j"
  by (cases l) (auto simp: view_def at_defs)

lemma queue_held: "queue_ok n labs g \<Longrightarrow> held g' = held g \<or> held g' = [] \<Longrightarrow> queue_ok n labs g'"
  by (auto simp: queue_ok_def)

text \<open>One step of the control thread with the task of a call.\<close>

lemma task_step:
  assumes S: "sim down s txs labs g" and g: "held g = [LTask i]" "held g' = [LTask i] \<or> held g' = []"
    and x: "txs ! i = Send n a b r t m" "row_ok down (ts_callers s ! i) (Send n a b r' t' m) (view labs g' i)"
    and h: "next_addr h' = next_addr (ts_heap s)" "g_schedule h' = g_schedule (ts_heap s)" "g_eventHandle h' = g_eventHandle (ts_heap s)"
      "\<And>p. p \<noteq> n \<Longrightarrow> p \<noteq> n + 1 \<Longrightarrow> p \<noteq> n + 2 \<Longrightarrow> p \<noteq> n + 3 \<Longrightarrow> cells h' p = cells (ts_heap s) p"
      "\<And>k. k < 4 \<Longrightarrow> cells h' (n + k) = block (ts_callers s ! i) (Send n a b r' t' m) k"
  shows "\<exists>xs ls w. sim down (s\<lparr>ts_worker := worker_of txs g', ts_heap := h', ts_dtap := d\<rparr>) xs ls w"
proof -
  have i: "i < length txs" using label_row(1) [OF S, of "LTask i"] g(1) by simp
  have "queue_ok (length txs) labs g" using S by (simp add: sim_def core_def)
  then have q: "queue_ok (length txs) labs g'" using g by (auto intro: queue_held)
  have r: "g_schedule h' = Some (map (work_of txs) labs)" "g_eventHandle h'" 
    using sim_running [OF S] g(1) h(2,3) by (cases g; simp)+
  have v: "view labs g' j = view labs g j" if "j \<noteq> i" for j using view_held [OF g(1)] g(2) that by simp
  have "sim down (s\<lparr>ts_worker := worker_of txs g', ts_heap := h', ts_dtap := d\<rparr>) (txs[i := Send n a b r' t' m]) labs g'"
    by (rule sim_work [OF S i x(1) h(1,4,5) q x(2) v]) (simp_all add: r)
  then show ?thesis by blast
qed

text \<open>The body of \<open>TRANS_SendDataProc\<close> on the blocks of a call.\<close>

lemma body_Some:
  assumes "cells h n = Some (DataCell (TransData d0))" "td_buff d0 = Some p" "cells h p = Some (DataCell (TransBuff b))" "p \<noteq> n"
  obtains r d1 where "TRANS_SendDataProc_body links known n (h, d) =
    Some (set_cell n (Some (DataCell (TransData (d0\<lparr>td_buff := None, td_result := Some r\<rparr>)))) (set_cell p None h), d1)"
proof -
  obtain r d1 where "send_unit links known (td_addr d0) b d = (r, d1)" by fastforce
  then have "TRANS_SendDataProc_body links known n (h, d) =
    Some (set_cell n (Some (DataCell (TransData (d0\<lparr>td_buff := None, td_result := Some r\<rparr>)))) (set_cell p None h), d1)"
    using assms by (simp add: TRANS_SendDataProc_body_def get_trans_Some get_buff_def get_data_def free_cell_def put_trans_def)
  then show thesis by (rule that)
qed

lemma call_work_sim:
  assumes S: "sim down s txs labs (GCall l)"
  shows "\<exists>txs' labs' g'. sim down (commit (worker_step links known (WkCall (work_of txs l)) (ts_heap s, ts_dtap s))
      (\<lambda>(w, h, d). s\<lparr>ts_worker := w, ts_heap := h, ts_dtap := d\<rparr>) s) txs' labs' g'"
proof (cases l)
  case (LTask i)
  obtain n a b r t m where x: "i < length txs" "txs ! i = Send n a b r t m" "task_at labs (GCall l) i = Some t"
      "row_ok down (ts_callers s ! i) (Send n a b r t m) (view labs (GCall l) i)"
    by (rule task_row [OF S, of i]) (simp add: LTask)
  have t: "t = TCall" using x(3) LTask by (simp add: task_at_def)
  have C: "core down (ts_callers s) txs labs (GCall l) (ts_heap s)" using S by (simp add: sim_def)
  note sc = send_cells [OF C x(1,2)]
  let ?d0 = "\<lparr>td_addr = a, td_buff = Some (n + 1), td_result = None, refCount = refs (ts_callers s ! i) TCall\<rparr>"
  have c: "cells (ts_heap s) n = Some (DataCell (TransData ?d0))" "cells (ts_heap s) (n + 1) = Some (DataCell (TransBuff b))"
    using sc(1,2) by (simp_all add: t refs_def)
  obtain r' d1 where body: "TRANS_SendDataProc_body links known n (ts_heap s, ts_dtap s) =
      Some (set_cell n (Some (DataCell (TransData (?d0\<lparr>td_buff := None, td_result := Some r'\<rparr>)))) (set_cell (n + 1) None (ts_heap s)), d1)"
    by (rule body_Some [OF c(1) _ c(2)]) simp_all
  let ?h = "set_cell n (Some (DataCell (TransData (?d0\<lparr>td_buff := None, td_result := Some r'\<rparr>)))) (set_cell (n + 1) None (ts_heap s))"
  have st: "worker_step links known (WkCall (work_of txs l)) (ts_heap s, ts_dtap s) = Some (worker_of txs (GRel i), ?h, d1)"
    using sc(3) body x(2) by (simp add: LTask t get_task_def call_client_def)
  have R: "row_ok down (ts_callers s ! i) (Send n a b r' TRel m) (view labs (GRel i) i)"
    using x(4) LTask by (cases "ts_callers s ! i") (auto simp: view_def at_defs t)
  have o: "cells ?h (n + k) = block (ts_callers s ! i) (Send n a b r' TRel m) k" if "k < 4" for k
    using send_block [OF S x(1,2) that] that by (auto simp: t refs_def)
  show ?thesis unfolding st commit_def option.case prod.case
    by (rule task_step [OF S _ _ x(2) R _ _ _ _ o]) (simp_all add: LTask)
next
  case (LSem i)
  have Q: "queue_ok (length txs) labs (GCall l)" using S by (simp add: sim_def core_def)
  have v: "view labs (GFree l) j = view labs (GCall l) j" for j by (auto simp: view_def at_defs LSem)
  have st: "worker_step links known (WkCall (work_of txs l)) (ts_heap s, ts_dtap s) = Some (worker_of txs (GFree l), ts_heap s, ts_dtap s)"
    by (simp add: LSem)
  show ?thesis unfolding st commit_def option.case prod.case
    by (intro exI, rule sim_idle [OF S queue_held [OF Q]]) (use S sim_running [OF S] in \<open>simp_all add: v sim_def core_def\<close>)
next
  case (LStatus i)
  obtain n a where x: "i < length txs" "txs ! i = Status n a True"
    by (rule status_row [OF S, of i]) (simp_all add: LStatus)
  have C: "core down (ts_callers s) txs labs (GCall l) (ts_heap s)" using S by (simp add: sim_def)
  have Q: "queue_ok (length txs) labs (GCall l)" using S by (simp add: sim_def core_def)
  have v: "view labs (GFree l) j = view labs (GCall l) j" for j by (auto simp: view_def at_defs LStatus)
  have "\<exists>d1. worker_step links known (WkCall (work_of txs l)) (ts_heap s, ts_dtap s) = Some (worker_of txs (GFree l), ts_heap s, d1)"
    using status_cell [OF C x] x(2)
    by (cases "links (devAddr a)") (simp_all add: LStatus call_client_def TRANS_ChannelSetStatusProc_def get_data_def)
  then obtain d1 where st: "worker_step links known (WkCall (work_of txs l)) (ts_heap s, ts_dtap s) = Some (worker_of txs (GFree l), ts_heap s, d1)" ..
  show ?thesis unfolding st commit_def option.case prod.case
    by (intro exI, rule sim_idle [OF S queue_held [OF Q]]) (use S sim_running [OF S] in \<open>simp_all add: v sim_def core_def\<close>)
qed

lemma release_sim:
  assumes S: "sim down s txs labs (GRel i)"
  shows "\<exists>txs' labs' g'. sim down (commit (worker_step links known (worker_of txs (GRel i)) (ts_heap s, ts_dtap s))
      (\<lambda>(w, h, d). s\<lparr>ts_worker := w, ts_heap := h, ts_dtap := d\<rparr>) s) txs' labs' g'"
proof -
  obtain n a b r t m where x: "i < length txs" "txs ! i = Send n a b r t m" "task_at labs (GRel i) i = Some t"
      "row_ok down (ts_callers s ! i) (Send n a b r t m) (view labs (GRel i) i)"
    by (rule task_row [OF S, of i]) simp
  have t: "t = TRel" using x(3) by (simp add: task_at_def)
  let ?c = "ts_callers s ! i"
  let ?d0 = "\<lparr>td_addr = a, td_buff = None, td_result = Some r, refCount = refs ?c TRel\<rparr>"
  have "cells (ts_heap s) n = Some (DataCell (TransData ?d0))" using send_block [OF S x(1,2), of 0] by (simp add: t refs_def)
  from TRANS_TransportDataFree_Some [OF this]
  have f: "TRANS_TransportDataFree n (ts_heap s) = Some (set_cell n (block ?c (Send n a b r TPost m) 0) (ts_heap s))"
    by (simp add: refs_def)
  let ?h = "set_cell n (block ?c (Send n a b r TPost m) 0) (ts_heap s)"
  have st: "worker_step links known (worker_of txs (GRel i)) (ts_heap s, ts_dtap s) = Some (worker_of txs (GPost i), ?h, ts_dtap s)"
    using f x(2) by (simp del: block.simps)
  have R: "row_ok down ?c (Send n a b r TPost m) (view labs (GPost i) i)"
    using x(4) by (cases ?c) (auto simp: view_def at_defs t)
  have o: "cells ?h (n + k) = block ?c (Send n a b r TPost m) k" if "k < 4" for k
    using send_block [OF S x(1,2) that] by (cases "k = 0") (auto simp: t)
  show ?thesis unfolding st commit_def option.case prod.case
    by (rule task_step [OF S _ _ x(2) R _ _ _ _ o]) (simp_all del: block.simps)
qed

lemma post_sim:
  assumes S: "sim down s txs labs (GPost i)"
  shows "\<exists>txs' labs' g'. sim down (commit (worker_step links known (worker_of txs (GPost i)) (ts_heap s, ts_dtap s))
      (\<lambda>(w, h, d). s\<lparr>ts_worker := w, ts_heap := h, ts_dtap := d\<rparr>) s) txs' labs' g'"
proof -
  obtain n a b r t m where x: "i < length txs" "txs ! i = Send n a b r t m" "task_at labs (GPost i) i = Some t"
      "row_ok down (ts_callers s ! i) (Send n a b r t m) (view labs (GPost i) i)"
    by (rule task_row [OF S, of i]) simp
  have t: "t = TPost" using x(3) by (simp add: task_at_def)
  let ?c = "ts_callers s ! i"
  have m: "m \<noteq> SGone" "\<not> took_sem ?c" using x(4) by (cases ?c; auto simp: view_def t)+
  have c: "cells (ts_heap s) (n + 2) = Some (TaskCell \<lparr>bt_sem = n + 3, bt_func = TRANS_SendDataProc_cb, bt_freeCb = False, bt_arg = n\<rparr>)"
    "cells (ts_heap s) (n + 3) = Some (SemCell 0)"
    using send_block [OF S x(1,2), of 2] send_block [OF S x(1,2), of 3] m by (simp_all add: t)
  let ?h = "set_cell (n + 3) (Some (SemCell 1)) (ts_heap s)"
  have st: "worker_step links known (worker_of txs (GPost i)) (ts_heap s, ts_dtap s) = Some (worker_of txs (GFree (LTask i)), ?h, ts_dtap s)"
    using x(2) c by (simp add: RunTaskBlocked_post_def get_task_def get_sem_def)
  have R: "row_ok down ?c (Send n a b r TFree m) (view labs (GFree (LTask i)) i)"
    using x(4) by (cases ?c) (auto simp: view_def at_defs t)
  have o: "cells ?h (n + k) = block ?c (Send n a b r TFree m) k" if "k < 4" for k
    using send_block [OF S x(1,2) that] m that by (cases "k = 3") (auto simp: t refs_def)
  show ?thesis unfolding st commit_def option.case prod.case
    by (rule task_step [OF S _ _ x(2) R _ _ _ _ o]) simp_all
qed

text \<open>Freeing the argument of a status change.\<close>

lemma status_upd:
  assumes C: "core down cs txs labs g h" and i: "i < length txs" "txs ! i = Status n a True" "cs ! i = CallDone"
    and q: "queue_ok (length txs) labs' g'" "task_at labs' g' i = None" "sem_at labs' g' i = None" "\<not> status_at labs' g' i"
    and other: "\<And>j. j \<noteq> i \<Longrightarrow> view labs' g' j = view labs g j"
  shows "core down cs (txs[i := Status n a False]) labs' g' (set_cell n None h)"
proof -
  have "core down (cs[i := CallDone]) (txs[i := Status n a False]) labs' g' (set_cell n None h)"
    by (rule core_upd [OF C i(1) _ _ _ _ _ q(1) _ other]) (use i q in \<open>auto simp: view_def\<close>)
  moreover have "cs[i := CallDone] = cs" using i(3) by (metis list_update_id)
  ultimately show ?thesis by simp
qed

lemma status_none:
  assumes "core down cs txs labs g h" "i < length txs" "txs ! i = Status n a v"
  shows "task_at labs g i = None" "sem_at labs g i = None"
  using core_row [OF assms(1,2)] assms(3) by (simp_all add: view_def)

lemma free_sim:
  assumes S: "sim down s txs labs (GFree l)"
  shows "\<exists>txs' labs' g'. sim down (commit (worker_step links known (WkFree (work_of txs l)) (ts_heap s, ts_dtap s))
      (\<lambda>(w, h, d). s\<lparr>ts_worker := w, ts_heap := h, ts_dtap := d\<rparr>) s) txs' labs' g'"
proof -
  have C: "core down (ts_callers s) txs labs (GFree l) (ts_heap s)" and Q: "queue_ok (length txs) labs GIdle"
    using S by (auto simp: sim_def core_def queue_ok_def)
  have r: "g_schedule (ts_heap s) = Some (map (work_of txs) labs)" "g_eventHandle (ts_heap s)" by (rule sim_running [OF S]; simp)+
  have v: "view labs GIdle j = view labs (GFree l) j" if "j \<noteq> idx l" for j by (rule view_held [OF _ _ that]) simp_all
  show ?thesis
  proof (cases l)
    case (LTask i)
    obtain n a b r t m where x: "i < length txs" "txs ! i = Send n a b r t m" "task_at labs (GFree l) i = Some t"
        "row_ok down (ts_callers s ! i) (Send n a b r t m) (view labs (GFree l) i)"
      by (rule task_row [OF S, of i]) (simp add: LTask)
    have t: "t = TFree" using x(3) LTask by (simp add: task_at_def)
    have nl: "LTask i \<notin> set labs" using C LTask by (simp add: core_def queue_ok_def)
    let ?h = "set_cell (n + 2) None (ts_heap s)"
    have "cells (ts_heap s) (n + 2) = Some (TaskCell \<lparr>bt_sem = n + 3, bt_func = TRANS_SendDataProc_cb, bt_freeCb = False, bt_arg = n\<rparr>)"
      using send_block [OF S x(1,2), of 2] by (simp add: t)
    from do_FreeBlockTask_Some [OF this] have "do_FreeBlockTask (n + 2) (ts_heap s) = Some ?h" by simp
    then have st: "worker_step links known (WkFree (work_of txs l)) (ts_heap s, ts_dtap s) = Some (worker_of txs GIdle, ?h, ts_dtap s)"
      using x(2) by (simp add: LTask call_free_def)
    have R: "row_ok down (ts_callers s ! i) (Send n a b r TDone m) (view labs GIdle i)"
      using x(4) LTask nl by (cases "ts_callers s ! i") (auto simp: view_def at_defs t)
    have o: "cells ?h (n + k) = block (ts_callers s ! i) (Send n a b r TDone m) k" if "k < 4" for k
      using send_block [OF S x(1,2) that] that by (cases "k = 2") (auto simp: t refs_def)
    show ?thesis unfolding st commit_def option.case prod.case
      by (rule task_step [OF S _ _ x(2) R _ _ _ _ o]) (simp_all add: LTask)
  next
    case (LSem i)
    obtain n a b r t m where x: "i < length txs" "txs ! i = Send n a b r t m" "sem_at labs (GFree l) i = Some m"
        "row_ok down (ts_callers s ! i) (Send n a b r t m) (view labs (GFree l) i)"
      by (rule sem_row [OF S, of i]) (simp add: LSem)
    have m: "m = SWorker" using x(3) LSem by (simp add: sem_at_def)
    have nl: "LSem i \<notin> set labs" using C LSem by (simp add: core_def queue_ok_def)
    let ?h = "set_cell (n + 3) None (ts_heap s)"
    have "do_FreeSem (n + 3) (ts_heap s) = Some ?h"
      using send_block [OF S x(1,2), of 3] by (intro do_FreeSem_Some) (simp_all add: m)
    then have st: "worker_step links known (WkFree (work_of txs l)) (ts_heap s, ts_dtap s) = Some (worker_of txs GIdle, ?h, ts_dtap s)"
      using x(2) by (simp add: LSem call_free_def)
    have R: "row_ok down (ts_callers s ! i) (Send n a b r t SGone) (view labs GIdle i)"
      using x(4) LSem nl by (cases "ts_callers s ! i") (auto simp: view_def at_defs m split: if_splits)
    have o: "cells ?h (n + k) = block (ts_callers s ! i) (Send n a b r t SGone) k" if "k < 4" for k
      using send_block [OF S x(1,2) that] that by (cases "k = 3") (auto simp: m)
    show ?thesis unfolding st commit_def option.case prod.case
      by (intro exI, rule sim_work [OF S x(1,2) _ _ o Q R]) (simp_all add: v LSem r)
  next
    case (LStatus i)
    obtain n a where x: "i < length txs" "txs ! i = Status n a True" "ts_callers s ! i = CallDone"
      by (rule status_row [OF S, of i]) (simp_all add: LStatus)
    have nl: "LStatus i \<notin> set labs" using C LStatus by (simp add: core_def queue_ok_def)
    let ?h = "set_cell n None (ts_heap s)"
    have st: "worker_step links known (WkFree (work_of txs l)) (ts_heap s, ts_dtap s) = Some (worker_of txs GIdle, ?h, ts_dtap s)"
      using status_cell [OF C x(1,2)] x(2) by (simp add: LStatus call_free_def free_cell_Some)
    have "core down (ts_callers s) (txs[i := Status n a False]) labs GIdle ?h"
      using status_none [OF C x(1,2)] nl
      by (intro status_upd [OF C x Q]) (auto simp: at_defs LStatus v split: if_splits)
    moreover have "work_of (txs[i := Status n a False]) = work_of txs" using x work_of_upd [of "Status n a False" txs i] by simp
    ultimately have "sim down (s\<lparr>ts_worker := worker_of txs GIdle, ts_heap := ?h, ts_dtap := ts_dtap s\<rparr>) (txs[i := Status n a False]) labs GIdle"
      using S r by (simp add: sim_def threads_def)
    then show ?thesis unfolding st commit_def option.case prod.case by blast
  qed
qed

lemma work_sim:
  assumes S: "sim down s txs labs g" and w: "ts_worker s \<noteq> WkIdle \<or> pop_work (ts_heap s) \<noteq> None"
  shows "\<exists>txs' labs' g'. sim down (commit (worker_step links known (ts_worker s) (ts_heap s, ts_dtap s))
      (\<lambda>(w, h, d). s\<lparr>ts_worker := w, ts_heap := h, ts_dtap := d\<rparr>) s) txs' labs' g'"
proof -
  have ww: "ts_worker s = worker_of txs g" using S by (simp add: sim_def threads_def)
  show ?thesis
  proof (cases g)
    case GIdle
    then obtain v q where q: "g_schedule (ts_heap s) = Some (v # q)"
      using w ww by (auto simp: pop_work_def split: option.splits list.splits)
    then obtain l ls where l: "labs = l # ls" "v = work_of txs l" "q = map (work_of txs) ls" using S by (auto simp: sim_def threads_def)
    have st: "worker_step links known (ts_worker s) (ts_heap s, ts_dtap s) =
        Some (WkCall (work_of txs l), (ts_heap s)\<lparr>g_schedule := Some (map (work_of txs) ls)\<rparr>, ts_dtap s)"
      using q by (simp add: ww GIdle pop_work_def l)
    show ?thesis unfolding st commit_def option.case prod.case
      by (rule pop_sim) (use S q in \<open>simp_all add: l GIdle\<close>)
  next
    case (GCall l) then show ?thesis using call_work_sim [of down s txs labs l] S ww by simp
  next
    case (GRel i) then show ?thesis using release_sim [of down s txs labs i] S ww by simp
  next
    case (GPost i) then show ?thesis using post_sim [of down s txs labs i] S ww by simp
  next
    case (GFree l) then show ?thesis using free_sim [of down s txs labs l] S ww by simp
  qed
qed

end
