(* ===== verification/Trans_Runs.thy ===== *)
theory Trans_Runs
  imports Trans_Safe
begin

text \<open>
  Runs of the transport layer: the start of a call and the life cycle of the scheduling keep the relation \<open>sim\<close> as
  well, so every state of a run is safe; what a run leaves behind; and the two ways in which the code leaves this
  ground, a semaphore that is freed too early and data that is lost when the scheduling is disabled.
\<close>

section \<open>The start of a call\<close>

definition fresh_heap :: "trans_heap \<Rightarrow> bool" where
  "fresh_heap h \<longleftrightarrow> (\<forall>a\<ge>next_addr h. cells h a = None) \<and> (g_schedule h \<noteq> None \<longrightarrow> g_eventHandle h)"

text \<open>What a failed call may change: it has used addresses and allocations.\<close>

definition same_heap :: "trans_heap \<Rightarrow> trans_heap \<Rightarrow> bool" where
  "same_heap h h' \<longleftrightarrow> cells h' = cells h \<and> next_addr h \<le> next_addr h' \<and> g_schedule h' = g_schedule h \<and> g_eventHandle h' = g_eventHandle h"

lemma new_cell_cases:
  obtains m where "new_cell v h = (None, h\<lparr>heap_mem := m\<rparr>)"
  | m where "new_cell v h = (Some (next_addr h), place_cell v (h\<lparr>heap_mem := m\<rparr>))"
proof (cases "SDF_MemAlloc (heap_mem h)")
  case (Pair ok m)
  then show thesis using that [of m] by (cases ok) (simp_all add: new_cell_def)
qed

lemma place_cell_sel [simp]:
  "cells (place_cell v h) = (cells h)(next_addr h := Some v)" "next_addr (place_cell v h) = Suc (next_addr h)"
  "g_schedule (place_cell v h) = g_schedule h" "g_eventHandle (place_cell v h) = g_eventHandle h"
  "heap_mem (place_cell v h) = heap_mem h"
  by (simp_all add: place_cell_def)

lemma fresh_place: "fresh_heap h \<Longrightarrow> fresh_heap (place_cell v h)"
  by (simp add: fresh_heap_def)

lemma fresh_cells: "fresh_heap h \<Longrightarrow> next_addr h \<le> a \<Longrightarrow> cells h a = None"
  by (simp add: fresh_heap_def)

text \<open>Posting a work: to the end of the queue, or its argument is freed.\<close>

lemma post_cases:
  assumes "fresh_heap h"
  obtains q m where "g_schedule h = Some q"
      "SchedulePostTask cb p f h = Some (True, h\<lparr>heap_mem := m, g_schedule := Some (q @ [\<lparr>w_cb = cb, w_arg = p, w_freeCb = f\<rparr>])\<rparr>)"
  | m where "SchedulePostTask cb p f h = map_option (Pair False) (call_free f p (h\<lparr>heap_mem := m\<rparr>))"
proof (cases "g_schedule h")
  case None
  then have "SchedulePostTask cb p f h = map_option (Pair False) (call_free f p (h\<lparr>heap_mem := heap_mem h\<rparr>))"
    by (simp add: SchedulePostTask_def map_option_case bind_eq_None_conv split: option.split)
  then show thesis by (rule that(2))
next
  case (Some q)
  have e: "g_eventHandle h" using assms Some by (simp add: fresh_heap_def)
  obtain ok m where m: "SDF_MemAlloc (heap_mem h) = (ok, m)" by fastforce
  show thesis
  proof (cases ok)
    case True
    then have "SchedulePostTask cb p f h = Some (True, h\<lparr>heap_mem := m, g_schedule := Some (q @ [\<lparr>w_cb = cb, w_arg = p, w_freeCb = f\<rparr>])\<rparr>)"
      using Some e m by (simp add: SchedulePostTask_def SDF_AddWork_def)
    with Some show thesis by (rule that(1))
  next
    case False
    then have "SchedulePostTask cb p f h = map_option (Pair False) (call_free f p (h\<lparr>heap_mem := m\<rparr>))"
      using Some e m by (simp add: SchedulePostTask_def SDF_AddWork_def map_option_case split: option.split)
    then show thesis by (rule that(2))
  qed
qed

text \<open>\<open>SchedulePostTaskBlocked\<close> up to the wait.\<close>

lemma post_blocked:
  assumes f: "fresh_heap h"
  shows "(\<exists>h1. PostTaskBlocked_begin cb p False semInit h = Some (None, h1) \<and> same_heap h h1) \<or>
    (\<exists>q m. g_schedule h = Some q \<and> PostTaskBlocked_begin cb p False semInit h = Some (Some (Suc (next_addr h)),
       h\<lparr>cells := (cells h)(next_addr h := Some (TaskCell \<lparr>bt_sem = Suc (next_addr h), bt_func = cb, bt_freeCb = False, bt_arg = p\<rparr>),
           Suc (next_addr h) := Some (SemCell 0)), next_addr := next_addr h + 2, heap_mem := m,
         g_schedule := Some (q @ [\<lparr>w_cb = Some RunTaskBlocked, w_arg = next_addr h, w_freeCb = Some FreeBlockTask\<rparr>])\<rparr>))"
proof -
  let ?n = "next_addr h"
  let ?unset = "TaskCell \<lparr>bt_sem = 0, bt_func = cb, bt_freeCb = False, bt_arg = p\<rparr>"
  let ?t = "TaskCell \<lparr>bt_sem = Suc ?n, bt_func = cb, bt_freeCb = False, bt_arg = p\<rparr>"
  have N: "cells h ?n = None" "cells h (Suc ?n) = None" using f by (simp_all add: fresh_cells)
  then have U: "(cells h)(?n := None) = cells h" "(cells h)(Suc ?n := None) = cells h" by (simp_all add: fun_upd_idem)
  show ?thesis
  proof (rule new_cell_cases [of ?unset h])
    fix m assume "new_cell ?unset h = (None, h\<lparr>heap_mem := m\<rparr>)"
    then show ?thesis by (simp add: PostTaskBlocked_begin_def same_heap_def)
  next
    fix m1 assume m1: "new_cell ?unset h = (Some ?n, place_cell ?unset (h\<lparr>heap_mem := m1\<rparr>))"
    let ?hx = "place_cell ?unset (h\<lparr>heap_mem := m1\<rparr>)"
    show ?thesis
    proof (rule new_cell_cases [of "SemCell 0" ?hx])
      fix m assume "new_cell (SemCell 0) ?hx = (None, ?hx\<lparr>heap_mem := m\<rparr>)"
      then show ?thesis using m1 U by (simp add: PostTaskBlocked_begin_def same_heap_def do_FreeBlockTask_Some)
    next
      fix m2 assume m2: "new_cell (SemCell 0) ?hx = (Some (next_addr ?hx), place_cell (SemCell 0) (?hx\<lparr>heap_mem := m2\<rparr>))"
      let ?hy = "set_cell ?n (Some ?t) (place_cell (SemCell 0) (?hx\<lparr>heap_mem := m2\<rparr>))"
      have c2: "cells ?hy = (cells h)(?n := Some ?t, Suc ?n := Some (SemCell 0))" by (simp add: fun_upd_twist)
      have F: "fresh_heap ?hy" using f by (auto simp: fresh_heap_def)
      show ?thesis
      proof (cases semInit)
        case False
        then show ?thesis using m1 m2 U N
          by (simp add: PostTaskBlocked_begin_def same_heap_def free_cell_def do_FreeBlockTask_Some fun_upd_twist)
      next
        case True
        show ?thesis
        proof (rule post_cases [OF F, of "Some RunTaskBlocked" ?n "Some FreeBlockTask"])
          fix m assume "SchedulePostTask (Some RunTaskBlocked) ?n (Some FreeBlockTask) ?hy =
            map_option (Pair False) (call_free (Some FreeBlockTask) ?n (?hy\<lparr>heap_mem := m\<rparr>))"
          then show ?thesis using True m1 m2 U N
            by (simp add: PostTaskBlocked_begin_def same_heap_def call_free_def do_FreeBlockTask_Some do_FreeSem_Some fun_upd_twist)
        next
          fix q m
          let ?w = "\<lparr>w_cb = Some RunTaskBlocked, w_arg = ?n, w_freeCb = Some FreeBlockTask\<rparr>"
          assume q: "g_schedule ?hy = Some q" and p: "SchedulePostTask (Some RunTaskBlocked) ?n (Some FreeBlockTask) ?hy =
            Some (True, ?hy\<lparr>heap_mem := m, g_schedule := Some (q @ [?w])\<rparr>)"
          have e: "?hy\<lparr>heap_mem := m, g_schedule := Some (q @ [?w])\<rparr> =
              h\<lparr>cells := (cells h)(?n := Some ?t, Suc ?n := Some (SemCell 0)), next_addr := ?n + 2, heap_mem := m, g_schedule := Some (q @ [?w])\<rparr>"
            using c2 by (simp add: set_cell_def place_cell_def)
          have b: "PostTaskBlocked_begin cb p False semInit h = Some (Some (Suc ?n), ?hy\<lparr>heap_mem := m, g_schedule := Some (q @ [?w])\<rparr>)"
            using True m1 m2 p by (simp add: PostTaskBlocked_begin_def)
          have "g_schedule h = Some q" using q by simp
          then show ?thesis unfolding b e by blast
        qed
      qed
    qed
  qed
qed

section \<open>Sending\<close>

text \<open>\<open>TRANS_SendData\<close> up to the wait: it has failed and left the heap as it was, or the four blocks of the call are
  in place and its task is at the end of the queue.\<close>

definition call_cells :: "nat \<Rightarrow> TRANS_Addr \<Rightarrow> SDF_Buff \<Rightarrow> (nat \<Rightarrow> (trans_cb, trans_cell) cell option) \<Rightarrow> nat \<Rightarrow> (trans_cb, trans_cell) cell option" where
  "call_cells n a b hp = hp(n := Some (DataCell (TransData \<lparr>td_addr = a, td_buff = Some (Suc n), td_result = None, refCount = 2\<rparr>)),
     Suc n := Some (DataCell (TransBuff b)),
     n + 2 := Some (TaskCell \<lparr>bt_sem = n + 3, bt_func = TRANS_SendDataProc_cb, bt_freeCb = False, bt_arg = n\<rparr>),
     n + 3 := Some (SemCell 0))"

lemma failed_post:
  assumes "cells h n = Some (DataCell (TransData d))" "refCount d = 2" "td_buff d = Some p" "p \<noteq> n" "cells h p = Some v"
  shows "TRANS_PostTaskToSendDataFailed False n h = Some (set_cell n None (set_cell p None h))"
proof -
  let ?h = "set_cell n (Some (DataCell (TransData (d\<lparr>refCount := 1\<rparr>)))) h"
  have "TRANS_Data_Release n h = Some ?h" using assms(1,2) by (simp add: TRANS_Data_Release_def get_trans_Some put_trans_def)
  moreover have "free_cell p ?h = Some (set_cell p None ?h)" using assms(4,5) by (simp add: free_cell_def)
  moreover have "TRANS_TransportDataFree n (set_cell p None ?h) = Some (set_cell n None (set_cell p None h))"
    using assms(4) TRANS_TransportDataFree_Some [of "set_cell p None ?h" n "d\<lparr>refCount := 1\<rparr>"]
    by (simp add: set_cell_def fun_upd_twist)
  ultimately show ?thesis using assms(3) by (simp add: TRANS_PostTaskToSendDataFailed_def get_trans_Some)
qed

lemma send_buffered_cases:
  assumes f: "fresh_heap h" and n: "next_addr h = n + 2"
    and c: "cells h n = Some (DataCell (TransData \<lparr>td_addr = a, td_buff = None, td_result = None, refCount = 1\<rparr>))"
      "cells h (Suc n) = Some (DataCell (TransBuff b))"
  shows "(\<exists>e h1. send_buffered n (Suc n) dat semInit h = Some (SendFailed e, h1) \<and> cells h1 = (cells h)(n := None, Suc n := None) \<and>
      next_addr h \<le> next_addr h1 \<and> g_schedule h1 = g_schedule h \<and> g_eventHandle h1 = g_eventHandle h) \<or>
    (\<exists>b1 q h1. g_schedule h = Some q \<and> send_buffered n (Suc n) dat semInit h = Some (SendWaits n (n + 3), h1) \<and>
      cells h1 = call_cells n a b1 (cells h) \<and> next_addr h1 = n + 4 \<and> g_eventHandle h1 \<and>
      g_schedule h1 = Some (q @ [\<lparr>w_cb = Some RunTaskBlocked, w_arg = n + 2, w_freeCb = Some FreeBlockTask\<rparr>]))"
proof (cases "buff_append dat b")
  case None
  then show ?thesis using c
    by (simp add: send_buffered_def get_trans_def get_buff_def get_data_def put_trans_def free_cell_def TRANS_TransportDataFree_def fun_upd_twist)
next
  case (Some b1)
  let ?d = "\<lparr>td_addr = a, td_buff = Some (Suc n), td_result = None, refCount = 2\<rparr>"
  let ?h = "h\<lparr>cells := (cells h)(n := Some (DataCell (TransData ?d)), Suc n := Some (DataCell (TransBuff b1)))\<rparr>"
  have F: "fresh_heap ?h" using f n by (simp add: fresh_heap_def)
  have st: "send_buffered n (Suc n) dat semInit h = PostTaskBlocked_begin TRANS_SendDataProc_cb n False semInit ?h \<bind>
      (\<lambda>(w, s3). case w of Some sem \<Rightarrow> Some (SendWaits n sem, s3)
         | None \<Rightarrow> TRANS_PostTaskToSendDataFailed False n s3 \<bind> (\<lambda>s4. Some (SendFailed TRANS_SEND_DATA_POST_FAILED, s4)))"
    using c Some by (simp add: send_buffered_def get_trans_def get_buff_def get_data_def put_trans_def TRANS_Data_Retain_def set_cell_def fun_upd_twist numeral_2_eq_2)
  from post_blocked [OF F, of TRANS_SendDataProc_cb n semInit] show ?thesis
  proof (elim disjE exE conjE)
    fix h1 assume h1: "PostTaskBlocked_begin TRANS_SendDataProc_cb n False semInit ?h = Some (None, h1)" "same_heap ?h h1"
    then have "TRANS_PostTaskToSendDataFailed False n h1 = Some (set_cell n None (set_cell (Suc n) None h1))"
      by (intro failed_post [where d = ?d]) (auto simp: same_heap_def)
    then have "send_buffered n (Suc n) dat semInit h =
        Some (SendFailed TRANS_SEND_DATA_POST_FAILED, set_cell n None (set_cell (Suc n) None h1))" using st h1(1) by simp
    then show ?thesis using h1(2) by (simp add: same_heap_def fun_upd_twist)
  next
    fix q m assume "g_schedule ?h = Some q" "PostTaskBlocked_begin TRANS_SendDataProc_cb n False semInit ?h = Some (Some (Suc (next_addr ?h)),
       ?h\<lparr>cells := (cells ?h)(next_addr ?h := Some (TaskCell \<lparr>bt_sem = Suc (next_addr ?h), bt_func = TRANS_SendDataProc_cb, bt_freeCb = False, bt_arg = n\<rparr>),
           Suc (next_addr ?h) := Some (SemCell 0)), next_addr := next_addr ?h + 2, heap_mem := m,
         g_schedule := Some (q @ [\<lparr>w_cb = Some RunTaskBlocked, w_arg = next_addr ?h, w_freeCb = Some FreeBlockTask\<rparr>])\<rparr>)"
    moreover have "g_eventHandle h" using calculation(1) f by (simp add: fresh_heap_def)
    moreover have "Suc (n + 2) = n + 3" by simp
    ultimately show ?thesis using st n by (simp add: call_cells_def del: add_2_eq_Suc') (rule exI [of _ b1], rule refl)
  qed
qed

lemma send_begin_cases:
  assumes f: "fresh_heap h"
  shows "(\<exists>e h1. TRANS_SendData_begin addr data semInit h = Some (SendFailed e, h1) \<and> same_heap h h1) \<or>
    (\<exists>a b q h1. g_schedule h = Some q \<and> TRANS_SendData_begin addr data semInit h = Some (SendWaits (next_addr h) (next_addr h + 3), h1) \<and>
      cells h1 = call_cells (next_addr h) a b (cells h) \<and> next_addr h1 = next_addr h + 4 \<and> g_eventHandle h1 \<and>
      g_schedule h1 = Some (q @ [\<lparr>w_cb = Some RunTaskBlocked, w_arg = next_addr h + 2, w_freeCb = Some FreeBlockTask\<rparr>]))"
proof (cases "\<exists>a dat. addr = Some a \<and> data = Some dat \<and> dat \<noteq> [] \<and> length dat \<le> DTAP_MAX_PAYLOAD_LEN - cltp_reserve a")
  case False
  then show ?thesis by (auto simp: TRANS_SendData_begin_def same_heap_def split: option.splits)
next
  case True
  then obtain a dat where ad: "addr = Some a" "data = Some dat" "dat \<noteq> []" "length dat \<le> DTAP_MAX_PAYLOAD_LEN - cltp_reserve a" by blast
  let ?n = "next_addr h"
  let ?v = "DataCell (TransData \<lparr>td_addr = a, td_buff = None, td_result = None, refCount = 1\<rparr>)"
  have N: "cells h ?n = None" "cells h (Suc ?n) = None" using f by (simp_all add: fresh_cells)
  then have U: "(cells h)(?n := None) = cells h" "(cells h)(Suc ?n := None) = cells h" by (simp_all add: fun_upd_idem)
  show ?thesis
  proof (rule new_cell_cases [of ?v h])
    fix m assume "new_cell ?v h = (None, h\<lparr>heap_mem := m\<rparr>)"
    then show ?thesis using ad by (simp add: TRANS_SendData_begin_def TRANS_InitTransportData_def same_heap_def)
  next
    fix m1 assume m1: "new_cell ?v h = (Some ?n, place_cell ?v (h\<lparr>heap_mem := m1\<rparr>))"
    let ?hx = "place_cell ?v (h\<lparr>heap_mem := m1\<rparr>)"
    obtain bo m2 where bo: "SDF_BuffNewWithExtraReserve (length dat) (cltp_reserve a) (heap_mem ?hx) = (bo, m2)" by fastforce
    show ?thesis
    proof (cases bo)
      case None
      have "TRANS_TransportDataFree ?n (?hx\<lparr>heap_mem := m2\<rparr>) = Some (set_cell ?n None (?hx\<lparr>heap_mem := m2\<rparr>))"
        using TRANS_TransportDataFree_Some [of "?hx\<lparr>heap_mem := m2\<rparr>" ?n "\<lparr>td_addr = a, td_buff = None, td_result = None, refCount = 1\<rparr>"] by simp
      then show ?thesis using ad m1 bo None U by (simp add: TRANS_SendData_begin_def TRANS_InitTransportData_def same_heap_def)
    next
      case (Some b)
      let ?hy = "place_cell (DataCell (TransBuff b)) (?hx\<lparr>heap_mem := m2\<rparr>)"
      have st: "TRANS_SendData_begin addr data semInit h = send_buffered ?n (Suc ?n) dat semInit ?hy"
        using ad m1 bo Some by (simp add: TRANS_SendData_begin_def TRANS_InitTransportData_def)
      have F: "fresh_heap ?hy" using f by (simp add: fresh_heap_def)
      have c: "\<And>b1. call_cells ?n a b1 (cells ?hy) = call_cells ?n a b1 (cells h)" by (simp add: call_cells_def fun_upd_twist)
      have undo: "(cells ?hy)(?n := None, Suc ?n := None) = cells h" using U by (simp add: fun_upd_twist)
      have "next_addr ?hy = ?n + 2" "cells ?hy ?n = Some ?v" "cells ?hy (Suc ?n) = Some (DataCell (TransBuff b))" by simp_all
      from send_buffered_cases [OF F this, of dat semInit] show ?thesis
        unfolding st [symmetric] c undo by (auto simp: same_heap_def) blast
    qed
  qed
qed

text \<open>A new call at the end of the list of calls.\<close>

lemma blocks_snoc:
  assumes "blocks cs txs hp nxt" "length cs = length txs" "tx_base x = nxt" "nxt + tx_span x \<le> nxt'"
    and own: "\<And>k. k < tx_span x \<Longrightarrow> hp' (nxt + k) = block c x k"
    and rest: "\<And>a. a < nxt \<or> nxt + tx_span x \<le> a \<Longrightarrow> hp' a = hp a"
  shows "blocks (cs @ [c]) (txs @ [x]) hp' nxt'"
proof -
  have B: "\<And>j k. j < length txs \<Longrightarrow> k < tx_span (txs ! j) \<Longrightarrow> hp (tx_base (txs ! j) + k) = block (cs ! j) (txs ! j) k"
    and S: "\<And>j k. k < length txs \<Longrightarrow> j < k \<Longrightarrow> tx_base (txs ! j) + tx_span (txs ! j) \<le> tx_base (txs ! k)"
    and N: "\<And>j. j < length txs \<Longrightarrow> tx_base (txs ! j) + tx_span (txs ! j) \<le> nxt"
    and C: "\<And>a. hp a \<noteq> None \<Longrightarrow> \<exists>j<length txs. tx_base (txs ! j) \<le> a \<and> a < tx_base (txs ! j) + tx_span (txs ! j)"
    using assms(1) unfolding blocks_def by blast+
  show ?thesis unfolding blocks_def
  proof (intro conjI allI impI)
    fix i k assume i: "i < length (txs @ [x])" "k < tx_span ((txs @ [x]) ! i)"
    show "hp' (tx_base ((txs @ [x]) ! i) + k) = block ((cs @ [c]) ! i) ((txs @ [x]) ! i) k"
    proof (cases "i < length txs")
      case True
      then show ?thesis using B [of i k] i N [of i] rest assms(2) by (simp add: nth_append)
    next
      case False
      then have "i = length txs" using i(1) by simp
      then show ?thesis using own i(2) assms(2,3) by (simp add: nth_append)
    qed
  next
    fix i j assume "j < length (txs @ [x])" "i < j"
    then show "tx_base ((txs @ [x]) ! i) + tx_span ((txs @ [x]) ! i) \<le> tx_base ((txs @ [x]) ! j)"
      using S [of j i] N [of i] assms(3) by (cases "j < length txs") (auto simp: nth_append)
  next
    fix i assume "i < length (txs @ [x])"
    then show "tx_base ((txs @ [x]) ! i) + tx_span ((txs @ [x]) ! i) \<le> nxt'"
      using N [of i] assms(3,4) by (cases "i < length txs") (auto simp: nth_append)
  next
    fix a assume a: "hp' a \<noteq> None"
    show "\<exists>i<length (txs @ [x]). tx_base ((txs @ [x]) ! i) \<le> a \<and> a < tx_base ((txs @ [x]) ! i) + tx_span ((txs @ [x]) ! i)"
    proof (cases "a < nxt \<or> nxt + tx_span x \<le> a")
      case True
      then obtain j where "j < length txs" "tx_base (txs ! j) \<le> a" "a < tx_base (txs ! j) + tx_span (txs ! j)" using C rest a by metis
      then show ?thesis by (intro exI [of _ j]) (simp add: nth_append)
    next
      case False
      then show ?thesis using assms(3) by (intro exI [of _ "length txs"]) (simp add: nth_append)
    qed
  qed
qed

lemma sim_fresh:
  assumes "sim down s txs labs g"
  shows "fresh_heap (ts_heap s)"
proof -
  let ?h = "ts_heap s"
  have "blocks (ts_callers s) txs (cells ?h) (next_addr ?h)" using assms by (simp add: sim_def core_def)
  then have N: "\<And>j. j < length txs \<Longrightarrow> tx_base (txs ! j) + tx_span (txs ! j) \<le> next_addr ?h"
    and C: "\<And>a. cells ?h a \<noteq> None \<Longrightarrow> \<exists>j<length txs. tx_base (txs ! j) \<le> a \<and> a < tx_base (txs ! j) + tx_span (txs ! j)"
    unfolding blocks_def by blast+
  have "cells ?h a = None" if "next_addr ?h \<le> a" for a using C [of a] N that by (metis le_trans not_le)
  then show ?thesis using assms by (auto simp: fresh_heap_def sim_def threads_def)
qed

lemma work_of_snoc:
  assumes "queue_ok (length txs) labs g"
  shows "map (work_of (txs @ [x])) labs = map (work_of txs) labs" "worker_of (txs @ [x]) g = worker_of txs g"
proof -
  have w: "work_of (txs @ [x]) l = work_of txs l" if "idx l < length txs" for l using that by (cases l) (simp_all add: nth_append)
  then show "map (work_of (txs @ [x])) labs = map (work_of txs) labs" using assms by (auto simp: queue_ok_def)
  show "worker_of (txs @ [x]) g = worker_of txs g" using assms w by (cases g) (auto simp: queue_ok_def nth_append)
qed

text \<open>A call that leaves its label, if it has one, at the end of the queue.\<close>

lemma sim_new:
  assumes S: "sim down s txs labs g" and x: "tx_base x = next_addr (ts_heap s)" "next_addr (ts_heap s) + tx_span x \<le> next_addr h'"
    and own: "\<And>k. k < tx_span x \<Longrightarrow> cells h' (next_addr (ts_heap s) + k) = block c x k"
    and rest: "\<And>a. a < next_addr (ts_heap s) \<or> next_addr (ts_heap s) + tx_span x \<le> a \<Longrightarrow> cells h' a = cells (ts_heap s) a"
    and new: "\<And>l. l \<in> set new \<Longrightarrow> idx l = length txs" "length new \<le> 1" "row_ok down c x (view new GIdle (length txs))"
    and sch: "g_schedule h' = map_option (\<lambda>q. q @ map (work_of (txs @ [x])) new) (g_schedule (ts_heap s))"
      "g_schedule (ts_heap s) = None \<longrightarrow> new = []" "g_eventHandle h' = g_eventHandle (ts_heap s)"
  shows "sim down (s\<lparr>ts_heap := h', ts_callers := ts_callers s @ [c]\<rparr>) (txs @ [x]) (labs @ new) g"
proof -
  let ?n = "length txs"
  have C: "length (ts_callers s) = ?n" "blocks (ts_callers s) txs (cells (ts_heap s)) (next_addr (ts_heap s))" "queue_ok ?n labs g"
      "\<forall>i<?n. row_ok down (ts_callers s ! i) (txs ! i) (view labs g i)" using S by (simp_all add: sim_def core_def)
  have out: "l \<notin> set (held g @ labs)" if "idx l = ?n" for l
    using C(3) that unfolding queue_ok_def by (metis less_irrefl)
  have v: "view (labs @ new) g i = view labs g i" if "i < ?n" for i
    using new(1) that by (fastforce simp: view_def at_defs)
  have vn: "view (labs @ new) g ?n = view new GIdle ?n"
    using out [of "LTask ?n"] out [of "LSem ?n"] out [of "LStatus ?n"] by (auto simp: view_def at_defs)
  have "new = [] \<or> (\<exists>l. new = [l] \<and> idx l = ?n)" using new(1,2) by (cases new) auto
  then have q: "queue_ok (length (txs @ [x])) (labs @ new) g" using C(3)
  proof (elim disjE exE conjE)
    fix l assume l: "new = [l]" "idx l = ?n"
    have "l \<notin> set (held g @ labs)" "\<And>i. l = LTask i \<Longrightarrow> LSem i \<notin> set labs" using out l(2) by auto
    then show ?thesis using C(3) l by (auto simp: queue_ok_def ordered_snoc less_Suc_eq split: lab.split)
  qed (auto simp: queue_ok_def less_Suc_eq)
  have b: "blocks (ts_callers s @ [c]) (txs @ [x]) (cells h') (next_addr h')"
    by (rule blocks_snoc [OF C(2,1) x own rest])
  have "row_ok down ((ts_callers s @ [c]) ! i) ((txs @ [x]) ! i) (view (labs @ new) g i)" if "i < Suc ?n" for i
    using C(1,4) v [of i] vn new(3) that by (cases "i < ?n") (auto simp: nth_append less_Suc_eq)
  then have "core down (ts_callers s @ [c]) (txs @ [x]) (labs @ new) g h'" using C(1) b q by (simp add: core_def)
  moreover have "threads (txs @ [x]) (labs @ new) g (s\<lparr>ts_heap := h', ts_callers := ts_callers s @ [c]\<rparr>)"
    using S sch work_of_snoc [OF C(3), of x] by (auto simp: sim_def threads_def split: option.splits)
  ultimately show ?thesis using S by (simp add: sim_def)
qed

text \<open>A call that has failed, or has nothing to do.\<close>

lemma sim_dead:
  assumes S: "sim down s txs labs g" and h: "same_heap (ts_heap s) h'" and c: "c = CallDone \<or> (\<exists>r. c = Returned r)"
  shows "\<exists>txs labs. sim down (s\<lparr>ts_heap := h', ts_callers := ts_callers s @ [c]\<rparr>) txs labs g"
proof -
  have "sim down (s\<lparr>ts_heap := h', ts_callers := ts_callers s @ [c]\<rparr>) (txs @ [Dead (next_addr (ts_heap s))]) (labs @ []) g"
    by (rule sim_new [OF S]) (use h c in \<open>auto simp: same_heap_def view_def at_defs map_option_case split: option.split\<close>)
  then show ?thesis by blast
qed

lemma send_sim:
  assumes S: "sim down s txs labs g"
  shows "\<exists>txs labs. sim down (commit (TRANS_SendData_begin addr data semInit (ts_heap s))
      (\<lambda>(r, h). s\<lparr>ts_heap := h, ts_callers := ts_callers s @ [started r]\<rparr>) s) txs labs g"
  using send_begin_cases [OF sim_fresh [OF S], of addr data semInit]
proof (elim disjE exE conjE)
  fix e h1 assume h1: "TRANS_SendData_begin addr data semInit (ts_heap s) = Some (SendFailed e, h1)" "same_heap (ts_heap s) h1"
  show ?thesis unfolding h1(1) commit_def option.case prod.case by (rule sim_dead [OF S h1(2)]) (simp add: started_def)
next
  let ?n = "next_addr (ts_heap s)"
  fix a b q h1
  assume q: "g_schedule (ts_heap s) = Some q" and st: "TRANS_SendData_begin addr data semInit (ts_heap s) = Some (SendWaits ?n (?n + 3), h1)"
    and c: "cells h1 = call_cells ?n a b (cells (ts_heap s))" and n: "next_addr h1 = ?n + 4" and e: "g_eventHandle h1"
    and w: "g_schedule h1 = Some (q @ [\<lparr>w_cb = Some RunTaskBlocked, w_arg = ?n + 2, w_freeCb = Some FreeBlockTask\<rparr>])"
  have o: "cells h1 (?n + k) = block (Waiting ?n (?n + 3)) (Send ?n a b 0 TQueued SCaller) k" if "k < 4" for k
    using less4 [OF that] by (auto simp: c call_cells_def refs_def)
  have "g_eventHandle (ts_heap s)" using S q by (simp add: sim_def threads_def)
  then have "sim down (s\<lparr>ts_heap := h1, ts_callers := ts_callers s @ [Waiting ?n (?n + 3)]\<rparr>) (txs @ [Send ?n a b 0 TQueued SCaller]) (labs @ [LTask (length txs)]) g"
    using q w n e o by (intro sim_new [OF S]) (auto simp: view_def at_defs c call_cells_def nth_append)
  then show ?thesis unfolding st commit_def option.case prod.case started_def send_begin.case by blast
qed

lemma status_sim:
  assumes S: "sim down s txs labs g"
  shows "\<exists>txs labs. sim down (commit (TRANS_ChannelSetStatus sa tcid result (ts_heap s))
      (\<lambda>h. s\<lparr>ts_heap := h, ts_callers := ts_callers s @ [CallDone]\<rparr>) s) txs labs g"
proof (cases sa)
  case None
  then show ?thesis using sim_dead [OF S, of "ts_heap s" CallDone] by (simp add: TRANS_ChannelSetStatus_def commit_def same_heap_def)
next
  case (Some a)
  let ?n = "next_addr (ts_heap s)" and ?a = "\<lparr>devAddr = a, t_tcid = tcid, proto = 0, srcPort = ucast result, dstPort = 0\<rparr>"
  let ?v = "DataCell (TransAddr ?a) :: (trans_cb, trans_cell) cell"
  have f: "fresh_heap (ts_heap s)" by (rule sim_fresh [OF S])
  show ?thesis
  proof (rule new_cell_cases [of ?v "ts_heap s"])
    fix m assume "new_cell ?v (ts_heap s) = (None, (ts_heap s)\<lparr>heap_mem := m\<rparr>)"
    then show ?thesis using Some sim_dead [OF S, of "(ts_heap s)\<lparr>heap_mem := m\<rparr>" CallDone]
      by (simp add: TRANS_ChannelSetStatus_def commit_def same_heap_def)
  next
    fix m assume m: "new_cell ?v (ts_heap s) = (Some ?n, place_cell ?v ((ts_heap s)\<lparr>heap_mem := m\<rparr>))"
    let ?h = "place_cell ?v ((ts_heap s)\<lparr>heap_mem := m\<rparr>)" and ?cb = "Some (ClientCb TRANS_ChannelSetStatusProc_cb)"
    have F: "fresh_heap ?h" using f by (simp add: fresh_heap_def)
    show ?thesis
    proof (rule post_cases [OF F, of ?cb ?n "Some MemFree"])
      fix m1 assume "SchedulePostTask ?cb ?n (Some MemFree) ?h = map_option (Pair False) (call_free (Some MemFree) ?n (?h\<lparr>heap_mem := m1\<rparr>))"
      then have st: "TRANS_ChannelSetStatus sa tcid result (ts_heap s) = Some (set_cell ?n None (?h\<lparr>heap_mem := m1\<rparr>))"
        using Some m by (simp add: TRANS_ChannelSetStatus_def call_free_def free_cell_def)
      show ?thesis unfolding st commit_def option.case
        by (rule sim_dead [OF S]) (use f in \<open>simp_all add: same_heap_def fresh_cells fun_upd_idem\<close>)
    next
      fix q m1 assume q: "g_schedule ?h = Some q" and p: "SchedulePostTask ?cb ?n (Some MemFree) ?h =
        Some (True, ?h\<lparr>heap_mem := m1, g_schedule := Some (q @ [\<lparr>w_cb = ?cb, w_arg = ?n, w_freeCb = Some MemFree\<rparr>])\<rparr>)"
      let ?hy = "?h\<lparr>heap_mem := m1, g_schedule := Some (q @ [\<lparr>w_cb = ?cb, w_arg = ?n, w_freeCb = Some MemFree\<rparr>])\<rparr>"
      have st: "TRANS_ChannelSetStatus sa tcid result (ts_heap s) = Some ?hy"
        using Some m p by (simp add: TRANS_ChannelSetStatus_def)
      have "sim down (s\<lparr>ts_heap := ?hy, ts_callers := ts_callers s @ [CallDone]\<rparr>) (txs @ [Status ?n ?a True]) (labs @ [LStatus (length txs)]) g"
        using q by (intro sim_new [OF S]) (auto simp: view_def at_defs nth_append)
      then show ?thesis unfolding st commit_def option.case by blast
    qed
  qed
qed

section \<open>Enabling and disabling\<close>

lemma enable_sim:
  assumes S: "sim down s txs labs g"
  shows "sim down (s\<lparr>ts_heap := snd (ScheduleEnable mutexInit evc ev (ts_heap s))\<rparr>) txs labs g"
proof -
  let ?h = "snd (ScheduleEnable mutexInit evc ev (ts_heap s))"
  have c: "cells ?h = cells (ts_heap s)" "next_addr ?h = next_addr (ts_heap s)"
    by (auto simp: ScheduleEnable_def ScheduleThreadCreate_def split: option.splits prod.splits if_splits)
  have sc: "g_schedule ?h = g_schedule (ts_heap s) \<and> g_eventHandle ?h = g_eventHandle (ts_heap s) \<or>
      g_schedule (ts_heap s) = None \<and> g_schedule ?h = Some [] \<and> g_eventHandle ?h"
    by (auto simp: ScheduleEnable_def ScheduleThreadCreate_def SDF_CreateWorker_def split: option.splits prod.splits if_splits)
  have "threads txs labs g (s\<lparr>ts_heap := ?h\<rparr>)" using S sc by (auto simp: sim_def threads_def split: option.splits)
  then show ?thesis using S core_heap [OF c] by (simp add: sim_def)
qed

text \<open>Destroying the worker: the queue is emptied from its head, the tasks in it are dropped.\<close>

lemma drop_head:
  assumes C: "core True cs txs (l # labs) GIdle h"
  obtains h1 txs' where "call_free (w_freeCb (work_of txs l)) (w_arg (work_of txs l)) h = Some h1"
    "core True cs txs' labs GIdle h1" "work_of txs' = work_of txs"
proof -
  have Q: "queue_ok (length txs) labs GIdle" "idx l < length txs" using C by (auto simp: core_def queue_ok_def)
  have v: "view labs GIdle j = view (l # labs) GIdle j" if "j \<noteq> idx l" for j using that by (cases l) (auto simp: view_def at_defs)
  have r: "row_ok True (cs ! idx l) (txs ! idx l) (view (l # labs) GIdle (idx l))" using C Q(2) by (simp add: core_def)
  have cs: "cs[i := cs ! i] = cs" for i by simp
  show thesis
  proof (cases l)
    case (LTask i)
    then obtain n a b r t m where x: "txs ! i = Send n a b r t m" using r by (cases "txs ! i") (auto simp: view_def at_defs)
    have t: "t = TQueued" using r x LTask by (simp add: view_def at_defs)
    have nl: "LTask i \<notin> set labs" using C LTask by (simp add: core_def queue_ok_def)
    have i: "i < length txs" using Q(2) LTask by simp
    note sc = send_cells [OF C i x]
    let ?x = "Send n a b r TDropped m" and ?h = "set_cell (n + 2) None h"
    have R: "row_ok True (cs ! i) ?x (view labs GIdle i)"
      using r x LTask nl by (cases "cs ! i") (auto simp: view_def at_defs t split: if_splits)
    have "core True (cs[i := cs ! i]) (txs[i := ?x]) labs GIdle ?h"
      by (rule send_upd [OF C i x _ _ _ _ _ _ Q(1) R]) (use sc v in \<open>simp_all add: t refs_def LTask\<close>)
    moreover have "call_free (w_freeCb (work_of txs l)) (w_arg (work_of txs l)) h = Some ?h"
      using sc(3) x by (simp add: LTask t call_free_def do_FreeBlockTask_Some)
    ultimately show thesis using that work_of_upd(1) [of ?x txs i] x i cs by simp
  next
    case (LSem i)
    then obtain n a b r t m where x: "txs ! i = Send n a b r t m" using r by (cases "txs ! i") (auto simp: view_def at_defs)
    have m: "m = SQueued" using r x LSem by (simp add: view_def at_defs)
    have nl: "LSem i \<notin> set labs" "LTask i \<notin> set labs" using C LSem by (simp_all add: core_def queue_ok_def)
    have i: "i < length txs" using Q(2) LSem by simp
    note sc = send_cells [OF C i x]
    let ?x = "Send n a b r t SGone" and ?h = "set_cell (n + 3) None h"
    have R: "row_ok True (cs ! i) ?x (view labs GIdle i)"
      using r x LSem nl by (cases "cs ! i") (auto simp: view_def at_defs m split: if_splits)
    have "core True (cs[i := cs ! i]) (txs[i := ?x]) labs GIdle ?h"
      by (rule send_upd [OF C i x _ _ _ _ _ _ Q(1) R]) (use sc v in \<open>simp_all add: m LSem\<close>)
    moreover have "call_free (w_freeCb (work_of txs l)) (w_arg (work_of txs l)) h = Some ?h"
      using sc(4) x by (simp add: LSem m call_free_def do_FreeSem_Some)
    ultimately show thesis using that work_of_upd(1) [of ?x txs i] x i cs by simp
  next
    case (LStatus i)
    then obtain n a where x: "txs ! i = Status n a True" "cs ! i = CallDone" using r by (cases "txs ! i") (auto simp: view_def at_defs)
    have nl: "LStatus i \<notin> set labs" using C LStatus by (simp add: core_def queue_ok_def)
    have i: "i < length txs" using Q(2) LStatus by simp
    let ?x = "Status n a False" and ?h = "set_cell n None h"
    have "core True cs (txs[i := ?x]) labs GIdle ?h"
      using status_none [OF C i x(1)] nl v by (intro status_upd [OF C i x Q(1)]) (auto simp: at_defs LStatus split: if_splits)
    moreover have "call_free (w_freeCb (work_of txs l)) (w_arg (work_of txs l)) h = Some ?h"
      using status_cell [OF C i x(1)] x by (simp add: LStatus call_free_def free_cell_Some)
    ultimately show thesis using that work_of_upd(1) [of ?x txs i] x i by simp
  qed
qed

lemma free_works_core:
  "core True cs txs labs GIdle h \<Longrightarrow> \<exists>h1 txs'. free_works (map (work_of txs) labs) h = Some h1 \<and> core True cs txs' [] GIdle h1"
proof (induction labs arbitrary: txs h)
  case Nil then show ?case by auto
next
  case (Cons l labs)
  from drop_head [OF Cons.prems] obtain h1 txs' where h1: "call_free (w_freeCb (work_of txs l)) (w_arg (work_of txs l)) h = Some h1"
    "core True cs txs' labs GIdle h1" "work_of txs' = work_of txs" .
  from Cons.IH [OF h1(2)] show ?case using h1(1,3) by simp
qed

lemma disable_sim:
  assumes S: "sim True s txs labs g" and w: "ts_worker s = WkIdle"
  shows "\<exists>txs labs g. sim True (commit (ScheduleDisable (ts_heap s)) (\<lambda>h. s\<lparr>ts_heap := h\<rparr>) s) txs labs g"
proof -
  have g: "g = GIdle" using S w by (cases g) (auto simp: sim_def threads_def)
  let ?h = "(ts_heap s)\<lparr>g_eventHandle := False\<rparr>"
  have C: "core True (ts_callers s) txs labs GIdle ?h" using S core_heap [of ?h "ts_heap s"] by (simp add: sim_def g)
  have "\<exists>h1 txs'. SDF_DestroyWorker ?h = Some h1 \<and> core True (ts_callers s) txs' [] GIdle h1"
  proof (cases "g_schedule (ts_heap s)")
    case None
    then have "labs = []" using S by (simp add: sim_def threads_def)
    then show ?thesis using None C by (auto simp: SDF_DestroyWorker_def)
  next
    case (Some q)
    then have "q = map (work_of txs) labs" using S by (simp add: sim_def threads_def)
    then show ?thesis using Some free_works_core [OF C] by (simp add: SDF_DestroyWorker_def)
  qed
  then obtain h1 txs' where h1: "SDF_DestroyWorker ?h = Some h1" "core True (ts_callers s) txs' [] GIdle h1" by blast
  have "core True (ts_callers s) txs' [] GIdle (h1\<lparr>g_schedule := None\<rparr>)" using h1(2) core_heap [of "h1\<lparr>g_schedule := None\<rparr>" h1] by simp
  then have "sim True (s\<lparr>ts_heap := h1\<lparr>g_schedule := None\<rparr>\<rparr>) txs' [] GIdle"
    using S w by (simp add: sim_def threads_def)
  then show ?thesis using h1(1) by (auto simp: ScheduleDisable_def commit_def)
qed

section \<open>Every step\<close>

definition trans_inv :: "bool \<Rightarrow> trans_sys \<Rightarrow> bool" where
  "trans_inv down s \<longleftrightarrow> (\<exists>txs labs g. sim down s txs labs g)"

lemma trans_step_inv:
  assumes "trans_step lowMem down s s'" "\<not> lowMem" "trans_inv down s"
  shows "trans_inv down s'"
proof -
  obtain txs labs g where S: "sim down s txs labs g" using assms(3) by (auto simp: trans_inv_def)
  from assms(1) show ?thesis unfolding trans_inv_def
  proof cases
    case (send addr data semInit) then show "\<exists>txs labs g. sim down s' txs labs g" using send_sim [OF S] by blast
  next
    case (status sa tcid result) then show "\<exists>txs labs g. sim down s' txs labs g" using status_sim [OF S] by blast
  next
    case (wake i td sem) then show "\<exists>txs labs g. sim down s' txs labs g" using wake_sim [OF S] by blast
  next
    case (timeout i td sem) then show "\<exists>txs labs g. sim down s' txs labs g" using timeout_sim [OF S] by blast
  next
    case (call i)
    show "\<exists>txs labs g. sim down s' txs labs g"
    proof (cases "\<exists>td sem. ts_callers s ! i = TimedOut td sem")
      case True
      then obtain td sem where c: "ts_callers s ! i = TimedOut td sem" by blast
      then have "fst (SDF_MemAlloc (heap_mem (ts_heap s)))" using call(4) assms(2) by auto
      from left_sem_sim [OF S call(2) c this] show ?thesis unfolding call(1) c by blast
    next
      case False
      from call_sim [OF S call(2,3) False] show ?thesis unfolding call(1) by blast
    qed
  next
    case (work links known) then show "\<exists>txs labs g. sim down s' txs labs g" using work_sim [OF S] by blast
  next
    case (enable mutexInit evc ev) then show "\<exists>txs labs g. sim down s' txs labs g" using enable_sim [OF S] by blast
  next
    case disable then show "\<exists>txs labs g. sim down s' txs labs g" using disable_sim [of s txs labs g] S by simp
  next
    case (other d)
    then have "sim down s' txs labs g" using S by (simp add: sim_def threads_def cong: option.case_cong)
    then show "\<exists>txs labs g. sim down s' txs labs g" by blast
  next
    case (memory m)
    then have "sim down s' txs labs g"
      using S core_heap [of "(ts_heap s)\<lparr>heap_mem := m\<rparr>" "ts_heap s"] by (simp add: sim_def threads_def cong: option.case_cong)
    then show "\<exists>txs labs g. sim down s' txs labs g" by blast
  qed
qed

lemma trans_start_inv: "trans_inv down (trans_start m d)"
proof -
  have "sim down (trans_start m d) [] [] GIdle"
    by (simp add: sim_def core_def threads_def trans_start_def blocks_def queue_ok_def)
  then show ?thesis by (auto simp: trans_inv_def)
qed

lemma trans_run_inv: "trans_run False down (trans_start m d) s \<Longrightarrow> trans_inv down s"
  unfolding trans_run_def by (induction rule: rtranclp_induct) (auto intro: trans_start_inv trans_step_inv)

end
