(* ===== verification/Trans_Props.thy ===== *)
theory Trans_Props
  imports Trans_Runs
begin

text \<open>
  What holds of the threads of the transport layer on every run, and two runs that show where it stops.
\<close>

section \<open>Runs to look at\<close>

text \<open>One application sends one byte to a device without a link. The steps of a run as functions of the state.\<close>

definition demo_addr :: TRANS_Addr where
  "demo_addr = \<lparr>devAddr = \<lparr>addr_type = 0, addr_bytes = replicate 6 0\<rparr>, t_tcid = 0x20, proto = 0, srcPort = 1, dstPort = 2\<rparr>"

definition do_enable :: "trans_sys \<Rightarrow> trans_sys" where
  "do_enable s = s\<lparr>ts_heap := snd (ScheduleEnable True True True (ts_heap s))\<rparr>"

definition do_send :: "trans_sys \<Rightarrow> trans_sys" where
  "do_send s = commit (TRANS_SendData_begin (Some demo_addr) (Some [7]) True (ts_heap s))
    (\<lambda>(r, h). s\<lparr>ts_heap := h, ts_callers := ts_callers s @ [started r]\<rparr>) s"

definition do_work :: "trans_sys \<Rightarrow> trans_sys" where
  "do_work s = commit (worker_step (\<lambda>_. None) (\<lambda>_ _. True) (ts_worker s) (ts_heap s, ts_dtap s))
    (\<lambda>(w, h, d). s\<lparr>ts_worker := w, ts_heap := h, ts_dtap := d\<rparr>) s"

definition do_call :: "trans_sys \<Rightarrow> trans_sys" where
  "do_call s = commit (caller_step (ts_callers s ! 0) (ts_heap s)) (\<lambda>(c, h). s\<lparr>ts_heap := h, ts_callers := (ts_callers s)[0 := c]\<rparr>) s"

definition do_timeout :: "trans_sys \<Rightarrow> trans_sys" where
  "do_timeout s = s\<lparr>ts_callers := (ts_callers s)[0 := TimedOut 0 3]\<rparr>"

definition do_wake :: "trans_sys \<Rightarrow> trans_sys" where
  "do_wake s = commit (SemTimeWait_ok 3 (ts_heap s)) (\<lambda>h. s\<lparr>ts_heap := h, ts_callers := (ts_callers s)[0 := Woken 0 3]\<rparr>) s"

definition do_disable :: "trans_sys \<Rightarrow> trans_sys" where
  "do_disable s = commit (ScheduleDisable (ts_heap s)) (\<lambda>h. s\<lparr>ts_heap := h\<rparr>) s"

lemma do_steps:
  "trans_step lowMem down s (do_enable s)"
  "trans_step lowMem down s (do_send s)"
  "ts_worker s \<noteq> WkIdle \<or> pop_work (ts_heap s) \<noteq> None \<Longrightarrow> trans_step lowMem down s (do_work s)"
  "ts_callers s = [c] \<Longrightarrow> runs_on c \<Longrightarrow> lowMem \<or> \<not> (\<exists>td sem. c = TimedOut td sem) \<or> fst (SDF_MemAlloc (heap_mem (ts_heap s))) \<Longrightarrow>
    trans_step lowMem down s (do_call s)"
  "ts_callers s = [Waiting 0 3] \<Longrightarrow> trans_step lowMem down s (do_timeout s)"
  "ts_callers s = [Waiting 0 3] \<Longrightarrow> get_sem 3 (ts_heap s) \<noteq> Some 0 \<Longrightarrow> trans_step lowMem down s (do_wake s)"
  "ts_worker s = WkIdle \<Longrightarrow> trans_step lowMem True s (do_disable s)"
  unfolding do_enable_def do_send_def do_work_def do_call_def do_timeout_def do_wake_def do_disable_def
  by (rule enable send work wake disable timeout call; auto)+

definition demo_data :: "nat option \<Rightarrow> nat option \<Rightarrow> nat \<Rightarrow> TRANS_Data" where
  "demo_data p r n = \<lparr>td_addr = demo_addr, td_buff = p, td_result = r, refCount = n\<rparr>"

definition demo_buff7 :: SDF_Buff where
  "demo_buff7 = \<lparr>dataOff = 23, dataLen = 1, buffLen = 26, bytes = replicate 23 0 @ [7, 0, 0]\<rparr>"

definition demo_task :: "trans_cb SDF_BlockTask" where
  "demo_task = \<lparr>bt_sem = 3, bt_func = TRANS_SendDataProc_cb, bt_freeCb = False, bt_arg = 0\<rparr>"

definition demo_work :: "trans_cb SDF_Work" where
  "demo_work = \<lparr>w_cb = Some RunTaskBlocked, w_arg = 2, w_freeCb = Some FreeBlockTask\<rparr>"

text \<open>A state of these runs: the four blocks of the call, the memory, the queue, the two threads.\<close>

definition demo_st :: "TRANS_Data option \<Rightarrow> SDF_Buff option \<Rightarrow> trans_cb SDF_BlockTask option \<Rightarrow> nat option \<Rightarrow> mem \<Rightarrow>
    trans_cb SDF_Work list option \<Rightarrow> worker \<Rightarrow> caller \<Rightarrow> dtap \<Rightarrow> trans_sys" where
  "demo_st td b t m mm q w c d = \<lparr>ts_heap = \<lparr>cells = (\<lambda>a. if a = 0 then map_option (\<lambda>x. DataCell (TransData x)) td
       else if a = 1 then map_option (\<lambda>x. DataCell (TransBuff x)) b else if a = 2 then map_option TaskCell t
       else if a = 3 then map_option SemCell m else None), next_addr = 4, heap_mem = mm, g_schedule = q, g_eventHandle = (q \<noteq> None)\<rparr>,
     ts_dtap = d, ts_worker = w, ts_callers = [c], ts_fault = False\<rparr>"

lemmas heap_defs = TRANS_InitTransportData_def new_cell_def place_cell_def set_cell_def get_trans_def get_data_def get_buff_def put_trans_def
  get_sem_def get_task_def free_cell_def do_FreeSem_def do_FreeBlockTask_def call_free_def
  TRANS_Data_Retain_def TRANS_TransportDataFree_def SchedulePostTask_def SDF_AddWork_def

lemma demo_begin:
  "TRANS_SendData_begin (Some demo_addr) (Some [7]) True
     \<lparr>cells = (\<lambda>_. None), next_addr = 0, heap_mem = True # True # True # True # True # mm, g_schedule = Some [], g_eventHandle = True\<rparr> =
   Some (SendWaits 0 3, ts_heap (demo_st (Some (demo_data (Some 1) None 2)) (Some demo_buff7) (Some demo_task) (Some 0) mm
     (Some [demo_work]) WkIdle (Waiting 0 3) d))"
proof -
  let ?e = "\<lparr>dataOff = 23, dataLen = 0, buffLen = 26, bytes = replicate 26 0\<rparr>"
  have b: "SDF_BuffNewWithExtraReserve (Suc 0) 9 (True # m) = (Some ?e, m)" for m
    by (simp add: SDF_BuffNewWithExtraReserve_def SDF_MemZalloc_def)
  have a: "buff_append [7] ?e = Some demo_buff7"
    by (simp add: buff_append_def SDF_BuffAppend_def SDF_BuffTailRoom_def buff_write_def list_write_def demo_buff7_def numeral_2_eq_2)
  have r: "cltp_reserve demo_addr = 9" by (simp add: cltp_reserve_def TRANS_CltpHeaderSize_def demo_addr_def)
  show ?thesis
    by (simp add: TRANS_SendData_begin_def r heap_defs b a send_buffered_def PostTaskBlocked_begin_def demo_st_def demo_data_def
        demo_task_def demo_work_def fun_eq_iff numeral_2_eq_2 numeral_3_eq_3 del: replicate.simps)
qed

lemma demo_sent:
  "do_send (do_enable (trans_start ([True, True, True, True, True, True, True] @ mm) d)) =
     demo_st (Some (demo_data (Some 1) None 2)) (Some demo_buff7) (Some demo_task) (Some 0) mm (Some [demo_work]) WkIdle (Waiting 0 3) d"
proof -
  have h: "ts_heap (do_enable (trans_start ([True, True, True, True, True, True, True] @ mm) d)) =
      \<lparr>cells = (\<lambda>_. None), next_addr = 0, heap_mem = True # True # True # True # True # mm, g_schedule = Some [], g_eventHandle = True\<rparr>"
    by (simp add: do_enable_def trans_start_def ScheduleEnable_def ScheduleThreadCreate_def SDF_CreateWorker_def)
  show ?thesis unfolding do_send_def h demo_begin [of mm d]
    by (simp add: commit_def started_def do_enable_def trans_start_def demo_st_def)
qed

lemmas demo_defs = heap_defs commit_def demo_st_def demo_data_def demo_task_def demo_work_def fun_eq_iff

lemma demo_worker:
  "do_work (demo_st td b t m mm (Some [demo_work]) WkIdle c d) = demo_st td b t m mm (Some []) (WkCall demo_work) c d"
  "do_work (demo_st (Some (demo_data (Some (Suc 0)) None n)) (Some x) (Some demo_task) m mm q (WkCall demo_work) c d) =
     demo_st (Some (demo_data None (Some 2) n)) None (Some demo_task) m mm q (WkRelease demo_work 0) c d"
  "do_work (demo_st (Some (demo_data None r n)) b t m mm q (WkRelease demo_work 0) c d) =
     demo_st (if n = 1 then None else Some (demo_data None r (n - 1))) b t m mm q (WkPost demo_work) c d"
  "do_work (demo_st td b (Some demo_task) (Some k) mm q (WkPost demo_work) c d) = demo_st td b (Some demo_task) (Some (Suc k)) mm q (WkFree demo_work) c d"
  "do_work (demo_st td b (Some demo_task) m mm q (WkFree demo_work) c d) = demo_st td b None m mm q WkIdle c d"
  by (simp_all add: do_work_def demo_defs pop_work_def call_client_def TRANS_SendDataProc_body_def send_unit_def RunTaskBlocked_post_def demo_addr_def)

lemma demo_caller:
  "do_wake (demo_st td b t (Some (Suc k)) mm q w (Waiting 0 3) d) = demo_st td b t (Some k) mm q w (Woken 0 3) d"
  "do_call (demo_st td b t (Some k) mm q w (Woken 0 3) d) = demo_st td b t None mm q w (Executed 0) d"
  "do_call (demo_st (Some (demo_data p (Some r) n)) b t m mm q w (Executed 0) d) = demo_st (Some (demo_data p (Some r) n)) b t m mm q w (Answered 0 r) d"
  "do_call (demo_st (Some (demo_data p ro n)) b t m mm q w (Answered 0 x) d) =
     demo_st (if n = 1 then None else Some (demo_data p ro (n - 1))) b t m mm q w (Returned (Inr x)) d"
  by (simp_all add: do_wake_def do_call_def demo_defs SemTimeWait_ok_def)

lemma demo_lost:
  "do_timeout (demo_st td b t m mm q w (Waiting 0 3) d) = demo_st td b t m mm q w (TimedOut 0 3) d"
  "do_call (demo_st td b t (Some k) (False # mm) (Some ws) w (TimedOut 0 3) d) = demo_st td b t None mm (Some ws) w (Abandoned 0) d"
  "do_call (demo_st td b t (Some k) mm None w (TimedOut 0 3) d) = demo_st td b t None mm None w (Abandoned 0) d"
  "do_call (demo_st (Some (demo_data p r n)) b t m mm q w (Abandoned 0) d) =
     demo_st (if n = 1 then None else Some (demo_data p r (n - 1))) b t m mm q w (Returned (Inl TRANS_SEND_DATA_POST_FAILED)) d"
  "do_disable (demo_st td b (Some demo_task) m mm (Some [demo_work]) w c d) = demo_st td b None m mm None w c d"
  by (simp_all add: do_timeout_def do_call_def do_disable_def demo_defs PostTaskBlocked_timeout_def ScheduleDisable_def SDF_DestroyWorker_def
      TRANS_PostTaskToSendDataFailed_def)

lemma demo_fault: "ts_fault (do_work (demo_st td b (Some demo_task) None mm q (WkPost demo_work) c d))"
  by (simp add: do_work_def demo_defs RunTaskBlocked_post_def)

lemma demo_st_sel [simp]:
  "ts_callers (demo_st td b t m mm q w c d) = [c]" "ts_worker (demo_st td b t m mm q w c d) = w" "ts_fault (demo_st td b t m mm q w c d) = False"
  "g_schedule (ts_heap (demo_st td b t m mm q w c d)) = q" "heap_mem (ts_heap (demo_st td b t m mm q w c d)) = mm"
  "get_sem 3 (ts_heap (demo_st td b t m mm q w c d)) = m" "pop_work (ts_heap (demo_st td b t m mm (Some [v]) w c d)) \<noteq> None"
  by (simp_all add: demo_st_def get_sem_def pop_work_def map_option_case split: option.split)

lemma run_step: "trans_run lowMem down s s' \<Longrightarrow> trans_step lowMem down s' s'' \<Longrightarrow> trans_run lowMem down s s''"
  unfolding trans_run_def by (rule rtranclp.rtrancl_into_rtrancl)

lemma run_sent:
  "trans_run lowMem down (trans_start ([True, True, True, True, True, True, True] @ mm) d)
     (demo_st (Some (demo_data (Some 1) None 2)) (Some demo_buff7) (Some demo_task) (Some 0) mm (Some [demo_work]) WkIdle (Waiting 0 3) d)"
  unfolding demo_sent [symmetric] by (rule run_step [OF run_step [OF _ do_steps(1)] do_steps(2)]) (simp add: trans_run_def)

text \<open>The call is served in time: the task runs, the call is woken and returns the result of the task.\<close>

lemma run_served:
  "trans_run lowMem down (trans_start [True, True, True, True, True, True, True] d)
     (demo_st None None None None [] (Some []) WkIdle (Returned (Inr 2)) d)"
proof -
  let ?s = "demo_st (Some (demo_data (Some 1) None 2)) (Some demo_buff7) (Some demo_task) (Some 0) [] (Some [demo_work]) WkIdle (Waiting 0 3) d"
  let ?r = "trans_run lowMem down (trans_start [True, True, True, True, True, True, True] d)"
  have "?r (do_work (do_work ?s))"
    by (rule run_step [OF run_step [OF run_sent [of lowMem down "[]" d, unfolded append_Nil2] do_steps(3)] do_steps(3)]) (simp_all add: demo_worker)
  then have "?r (do_work (do_work (do_work (do_work (do_work ?s)))))"
    by (rule run_step [OF run_step [OF run_step [OF _ do_steps(3)] do_steps(3)] do_steps(3)]) (simp_all add: demo_worker)
  then have "?r (demo_st (Some (demo_data None (Some 2) 1)) None None (Some 1) [] (Some []) WkIdle (Waiting 0 3) d)"
    by (simp add: demo_worker)
  then have "?r (do_call (do_wake (demo_st (Some (demo_data None (Some 2) 1)) None None (Some 1) [] (Some []) WkIdle (Waiting 0 3) d)))"
    by (rule run_step [OF run_step [OF _ do_steps(6)] do_steps(4) [where c = "Woken 0 3"]]) (simp_all add: demo_caller)
  then have "?r (demo_st (Some (demo_data None (Some 2) 1)) None None None [] (Some []) WkIdle (Executed 0) d)" by (simp add: demo_caller)
  then have "?r (do_call (do_call (demo_st (Some (demo_data None (Some 2) 1)) None None None [] (Some []) WkIdle (Executed 0) d)))"
    by (rule run_step [OF run_step [OF _ do_steps(4) [where c = "Executed 0"]] do_steps(4) [where c = "Answered 0 2"]]) (simp_all add: demo_caller)
  then show ?thesis by (simp add: demo_caller)
qed

section \<open>Properties\<close>

text \<open>(C5) Memory safety of the transport layer. Applications send and change the status of channels on any number of threads
  while the control thread runs their tasks; allocations fail, waits time out and the scheduling is enabled and disabled
  at any moment; the steps of the threads interleave in any order. As long as the work that returns a semaphore
  after a time-out can be allocated, no thread ever reads, writes or frees a task, semaphore, buffer or
  \<open>TRANS_Data_S\<close> that has been freed, and no call reads a result before its task has written it.\<close>

theorem transport_memory_safe:
  assumes "trans_run False down (trans_start m d) s"
  shows "\<not> ts_fault s"
  using trans_run_inv [OF assms] by (auto simp: trans_inv_def sim_def)

theorem transport_memory_safe_witness:
  "\<forall>d. \<exists>s. trans_run False True (trans_start [True, True, True, True, True, True, True] d) s \<and>
     ts_callers s = [Returned (Inr TRANS_RESULT_LOGIC_LINK_NOT_FOUND)] \<and> \<not> ts_fault s"
proof
  fix d
  have r: "trans_run False True (trans_start [True, True, True, True, True, True, True] d)
      (demo_st None None None None [] (Some []) WkIdle (Returned (Inr 2)) d)" by (rule run_served)
  show "\<exists>s. trans_run False True (trans_start [True, True, True, True, True, True, True] d) s \<and>
     ts_callers s = [Returned (Inr TRANS_RESULT_LOGIC_LINK_NOT_FOUND)] \<and> \<not> ts_fault s"
    by (intro exI conjI, rule r, simp, rule transport_memory_safe [OF r])
qed

text \<open>(C6) No block is lost: on a run in which the scheduling is not disabled, whatever the interleaving, the time-outs and the
  allocation failures, once every call has returned, the queue is empty and the control thread is idle, every task,
  semaphore, buffer, status argument and \<open>TRANS_Data_S\<close> that the calls allocated has been freed or handed to the data plane.\<close>

theorem transport_no_leak:
  assumes "trans_run False False (trans_start m d) s"
    and "ts_worker s = WkIdle" "g_schedule (ts_heap s) = None \<or> g_schedule (ts_heap s) = Some []"
    and "\<forall>c\<in>set (ts_callers s). c = CallDone \<or> (\<exists>r. c = Returned r)"
  shows "cells (ts_heap s) a = None"
proof (rule ccontr)
  assume a: "cells (ts_heap s) a \<noteq> None"
  obtain txs labs g where S: "sim False s txs labs g" using trans_run_inv [OF assms(1)] by (auto simp: trans_inv_def)
  have g: "g = GIdle" "labs = []"
    using S assms(2,3) by (cases g; auto simp: sim_def threads_def split: option.splits)+
  have C: "core False (ts_callers s) txs labs g (ts_heap s)" using S by (simp add: sim_def)
  then obtain i where i: "i < length txs" "tx_base (txs ! i) \<le> a" "a < tx_base (txs ! i) + tx_span (txs ! i)"
    using a by (auto simp: core_def blocks_def)
  then obtain k where k: "a = tx_base (txs ! i) + k" "k < tx_span (txs ! i)" by (metis le_Suc_ex nat_add_left_cancel_less)
  then have b: "cells (ts_heap s) a = block (ts_callers s ! i) (txs ! i) k"
    using C i(1) unfolding core_def blocks_def by blast
  have "length (ts_callers s) = length txs" using C by (simp add: core_def)
  then have "ts_callers s ! i \<in> set (ts_callers s)" using i(1) by simp
  then have "ts_callers s ! i = CallDone \<or> (\<exists>r. ts_callers s ! i = Returned r)" using assms(4) by blast
  then have "block (ts_callers s ! i) (txs ! i) k = None"
    using core_row [OF C i(1)] g by (cases "txs ! i") (auto simp: view_def at_defs refs_def)
  then show False using a b by simp
qed

theorem transport_no_leak_witness:
  "\<forall>d. \<exists>s. trans_run False False (trans_start [True, True, True, True, True, True, True] d) s \<and> next_addr (ts_heap s) = 4 \<and>
     cells (ts_heap s) 0 = None"
proof
  fix d
  let ?s = "demo_st None None None None [] (Some []) WkIdle (Returned (Inr 2)) d"
  have r: "trans_run False False (trans_start [True, True, True, True, True, True, True] d) ?s" by (rule run_served)
  have "cells (ts_heap ?s) 0 = None" by (rule transport_no_leak [OF r]) simp_all
  then show "\<exists>s. trans_run False False (trans_start [True, True, True, True, True, True, True] d) s \<and> next_addr (ts_heap s) = 4 \<and>
     cells (ts_heap s) 0 = None" using r by (intro exI [of _ ?s]) (simp add: demo_st_def)
qed



end
