(* ===== verification/Dtap_Footprint.thy ===== *)
theory Dtap_Footprint
  imports Dtap_Basic Dtap_Stream Dtap_Reliable
begin

text \<open>
  What the operations of the transmission modes do to the rest of the system. A channel works on two resources it shares
  with the others: the timers and the layer below, on which it transmits. The locale \<open>tx_layer\<close> says what is
  known of the layer below (a preorder that every transmission respects); inside it, every operation is shown to respect
  this preorder and to leave no timer running that is neither its channel's own nor was another's before.
\<close>

section \<open>Timers in use\<close>

text \<open>The handles of the running timers whose callbacks get a pointer to a channel: those of the reliable mode. The timer
  of the stream mode carries the identifiers of its channel instead, which is searched for when the timer expires.\<close>

definition running :: "'w env \<Rightarrow> int set" where
  "running e = fst ` set (filter (\<lambda>(_, _, c). c \<noteq> StreamReorderExpire) (armed (e_tim e)))"

definition handles_ok :: "'w env \<Rightarrow> bool" where
  "handles_ok e \<longleftrightarrow> (\<forall>h\<in>running e. 0 < h)"

text \<open>From an environment in which the channel holds the handles \<open>H\<close> to one in which it holds \<open>H'\<close>.\<close>

definition footprint :: "('w \<Rightarrow> 'w \<Rightarrow> bool) \<Rightarrow> int set \<Rightarrow> 'w env \<Rightarrow> int set \<Rightarrow> 'w env \<Rightarrow> bool" where
  "footprint Q H e H' e' \<longleftrightarrow> (handles_ok e \<longrightarrow> handles_ok e' \<and> running e' \<subseteq> (running e - H) \<union> H') \<and> Q (e_tx e) (e_tx e')"

definition rel_handles :: "DTAP_ReliableChannel \<Rightarrow> int set" where
  "rel_handles r = {reorderTimer r, retransTimer r, rspTimer r}"

text \<open>The value \<open>INVALID_TIMER_HANDLE\<close> names no running timer.\<close>

lemma invalid_not_running: "handles_ok e \<Longrightarrow> - 1 \<notin> running e"
  by (force simp: handles_ok_def)

lemma running_upd [simp]:
  "running (e\<lparr>e_mem := m\<rparr>) = running e" "running (e\<lparr>e_dl := d\<rparr>) = running e" "running (e\<lparr>e_tx := w\<rparr>) = running e"
  "running (e\<lparr>e_clock := c\<rparr>) = running e" "running (e\<lparr>e_release := rl\<rparr>) = running e" "running (e\<lparr>e_status := sl\<rparr>) = running e"
  "running (e\<lparr>e_known := k\<rparr>) = running e"
  by (simp_all add: running_def)

lemma handles_ok_upd [simp]:
  "handles_ok (e\<lparr>e_mem := m\<rparr>) = handles_ok e" "handles_ok (e\<lparr>e_dl := d\<rparr>) = handles_ok e" "handles_ok (e\<lparr>e_tx := w\<rparr>) = handles_ok e"
  "handles_ok (e\<lparr>e_clock := c\<rparr>) = handles_ok e" "handles_ok (e\<lparr>e_release := rl\<rparr>) = handles_ok e"
  "handles_ok (e\<lparr>e_status := sl\<rparr>) = handles_ok e" "handles_ok (e\<lparr>e_known := k\<rparr>) = handles_ok e"
  by (simp_all add: handles_ok_def)

lemma running_del: "running (e\<lparr>e_tim := CP_TimerDel h (e_tim e)\<rparr>) = running e - {h}"
  by (force simp: running_def CP_TimerDel_def)

lemma running_add:
  assumes "CP_TimerAdd h x cbk (e_tim e) = (ok, h', t)" "cbk \<noteq> StreamReorderExpire"
  shows "(ok \<and> 0 < h' \<and> running (e\<lparr>e_tim := t\<rparr>) = insert h' (running e)) \<or> (\<not> ok \<and> h' = h \<and> running (e\<lparr>e_tim := t\<rparr>) = running e)"
  using assms by (cases "SDF_MemAlloc (tscript (e_tim e))") (auto simp: running_def CP_TimerAdd_def split: if_splits
      intro: rev_image_eqI [of "(int (tnext (e_tim e)) + 1, x, cbk)"])

lemma running_add_stream:
  "CP_TimerAdd h x StreamReorderExpire (e_tim e) = (ok, h', t) \<Longrightarrow> running (e\<lparr>e_tim := t\<rparr>) = running e"
  by (auto simp: running_def CP_TimerAdd_def split: prod.splits if_splits)

section \<open>The layer below\<close>

locale tx_layer =
  fixes Q :: "'w \<Rightarrow> 'w \<Rightarrow> bool" and xmit :: "'w xmit"
  assumes Q_refl: "Q w w" and Q_trans: "Q w w1 \<Longrightarrow> Q w1 w2 \<Longrightarrow> Q w w2" and Q_xmit: "Q w (snd (xmit b w))"
begin

lemma fp_refl [intro!, simp]: "footprint Q H e H e"
  by (auto simp: footprint_def Q_refl)

lemma fp_trans: "footprint Q H e H1 e1 \<Longrightarrow> footprint Q H1 e1 H2 e2 \<Longrightarrow> footprint Q H e H2 e2"
  by (auto simp: footprint_def intro: Q_trans)

lemma fp_upd [simp]:
  "footprint Q H e H' (e'\<lparr>e_mem := m\<rparr>) = footprint Q H e H' e'" "footprint Q H e H' (e'\<lparr>e_dl := d\<rparr>) = footprint Q H e H' e'"
  "footprint Q H e H' (e'\<lparr>e_clock := c\<rparr>) = footprint Q H e H' e'" "footprint Q H e H' (e'\<lparr>e_release := rl\<rparr>) = footprint Q H e H' e'"
  "footprint Q H e H' (e'\<lparr>e_status := sl\<rparr>) = footprint Q H e H' e'"
  by (simp_all add: footprint_def)

lemma fp_upd_left [simp]:
  "footprint Q H (e\<lparr>e_mem := m\<rparr>) H' e' = footprint Q H e H' e'" "footprint Q H (e\<lparr>e_dl := d\<rparr>) H' e' = footprint Q H e H' e'"
  "footprint Q H (e\<lparr>e_clock := c\<rparr>) H' e' = footprint Q H e H' e'"
  by (simp_all add: footprint_def)

lemma fp_transmit: "transmit xmit b e = (ret, e') \<Longrightarrow> footprint Q H e H e'"
  using Q_xmit [of "e_tx e" b] by (auto simp: transmit_def footprint_def split: prod.splits)

lemma fp_stop: "stop_timer h e = (h', e') \<Longrightarrow> footprint Q (insert h H) e (insert h' H) e'"
  by (auto simp: stop_timer_def DTAP_TransStopTimer_def footprint_def Q_refl running_del handles_ok_def split: if_splits prod.splits)

lemma fp_add:
  assumes "CP_TimerAdd (- 1) x cbk (e_tim e) = (ok, h', t)" "cbk \<noteq> StreamReorderExpire"
  shows "footprint Q (insert (- 1) H) e (insert h' H) (e\<lparr>e_tim := t\<rparr>)"
  using running_add [OF assms] invalid_not_running [of e] by (auto simp: footprint_def Q_refl handles_ok_def)

lemma fp_start:
  assumes "start_timer (- 1) x cbk e = (h', e')" "cbk \<noteq> StreamReorderExpire"
  shows "footprint Q (insert (- 1) H) e (insert h' H) e'"
  using assms fp_add [of x cbk e _ _ _ H] by (auto simp: start_timer_def DTAP_TransStartTimer_def split: prod.splits)

lemma fp_restart:
  assumes "restart_timer h x cbk e = (h', e')" "cbk \<noteq> StreamReorderExpire"
  shows "footprint Q (insert h H) e (insert h' H) e'"
proof -
  obtain h1 e1 where s: "stop_timer h e = (h1, e1)" by fastforce
  have "h1 = - 1" using s by (auto simp: stop_timer_def DTAP_TransStopTimer_def split: if_splits)
  then have "start_timer (- 1) x cbk e1 = (h', e')"
    using assms s by (auto simp: restart_timer_def DTAP_TransRestartTimer_def stop_timer_def start_timer_def split: prod.splits)
  then have "footprint Q (insert h1 H) e1 (insert h' H) e'" using fp_start assms(2) \<open>h1 = - 1\<close> by blast
  then show ?thesis by (rule fp_trans [OF fp_stop [OF s]])
qed

lemma fp_Q: "footprint Q H e H' e' \<Longrightarrow> Q (e_tx e) (e_tx e')"
  by (simp add: footprint_def)

section \<open>Basic and transparent mode\<close>

lemma fp_deliver_cached: "footprint Q H e H (deliver_cached fs e)"
  by (induction fs e rule: deliver_cached.induct) auto

lemma fp_Continue: "DTAP_RecvBasicFrameContinue bc e = (bc', e') \<Longrightarrow> footprint Q H e H e'"
  using fp_deliver_cached by (auto simp: DTAP_RecvBasicFrameContinue_def)

lemma fp_RecvBasic: "DTAP_RecvBasicFrame ch fr cb bc e = (ret, bc', e') \<Longrightarrow> footprint Q H e H e'"
  by (auto simp: DTAP_RecvBasicFrame_def Let_def split: option.splits if_splits prod.splits)

lemma fp_SendBasic: "DTAP_SendBasicFrame xmit ch p b e = (ret, e') \<Longrightarrow> footprint Q H e H e'"
  by (auto simp: DTAP_SendBasicFrame_def Let_def split: option.splits if_splits prod.splits dest: fp_transmit [of _ _ _ _ H])

lemma fp_SendTransparent: "DTAP_SendTransparentFrame xmit ch p b e = (ret, e') \<Longrightarrow> footprint Q H e H e'"
  by (auto simp: DTAP_SendTransparentFrame_def split: if_splits dest: fp_transmit [of _ _ _ _ H])

lemma fp_TransFrame: "footprint Q H e H (DTAP_TransparentTransFrame ch b cb e)"
  by (simp add: DTAP_TransparentTransFrame_def)

section \<open>Stream mode\<close>

lemma fp_RecvCallback: "footprint Q H e H' (RecvCallback ch b p st e') = footprint Q H e H' e'"
  by (simp add: RecvCallback_def Let_def)

lemma fp_StopReorder: "StopReorderTimer st e = (st', e') \<Longrightarrow> footprint Q H e H e'"
  by (auto simp: StopReorderTimer_def footprint_def Q_refl running_del handles_ok_def split: if_splits)

lemma fp_StartReorder: "StartReorderTimer st e = (st', e') \<Longrightarrow> footprint Q H e H e'"
  by (auto simp: StartReorderTimer_def DP_GetMonoTimeMs_def Let_def footprint_def Q_refl handles_ok_def
      split: if_splits prod.splits dest!: running_add_stream)

lemma fp_ReportExpected:
  "ReportExpectedStreamFrame ch st e = (st', e') \<Longrightarrow>
     footprint Q H e H e' \<and> length (s_rxList st') \<le> length (s_rxList st)"
proof (induction ch st e rule: ReportExpectedStreamFrame.induct)
  case (1 ch st e)
  show ?case
  proof (cases "s_rxList st")
    case (Cons n ns)
    then show ?thesis
      using 1 fp_RecvCallback [of H e H ch "n_buff n" "n_pi n" st e]
      by (auto simp: ReportExpectedStreamFrame.simps [of ch st e] split: if_splits dest!: 1(1) intro: fp_trans)
  qed (use 1 in \<open>simp add: ReportExpectedStreamFrame.simps [of ch st e]\<close>)
qed

lemma fp_report_overdue:
  "report_overdue ch st e = (st', e') \<Longrightarrow>
     footprint Q H e H e' \<and> length (s_rxList st') \<le> length (s_rxList st)"
proof (induction ch st e rule: report_overdue.induct)
  case (1 ch st e)
  show ?case
  proof (cases "s_rxList st")
    case (Cons n ns)
    then show ?thesis
      using 1 fp_RecvCallback [of H e H ch "n_buff n" "n_pi n" st e]
      by (auto simp: report_overdue.simps [of ch st e] split: if_splits dest!: 1(1) intro: fp_trans)
  qed (use 1 in \<open>simp add: report_overdue.simps [of ch st e]\<close>)
qed

lemma fp_ReorderStreamTask: "DTAP_ReorderStreamFrameTask ch st e = (st', e') \<Longrightarrow> footprint Q H e H e'"
proof -
  assume a: "DTAP_ReorderStreamFrameTask ch st e = (st', e')"
  obtain st1 e1 where 1: "report_overdue ch (st\<lparr>reorderTimerHandle := INVALID_TIMER_HANDLE\<rparr>) e = (st1, e1)" by fastforce
  obtain st2 e2 where 2: "ReportExpectedStreamFrame ch st1 e1 = (st2, e2)" by fastforce
  have "footprint Q H e H e2" using fp_report_overdue [OF 1] fp_ReportExpected [OF 2] fp_trans by blast
  then show ?thesis using a fp_trans fp_StartReorder by (auto simp: DTAP_ReorderStreamFrameTask_def 1 2)
qed

lemma fp_RecvStream: "DTAP_RecvStreamFrame ch fr cb st e = (ret, st', e') \<Longrightarrow> footprint Q H e H e'"
proof -
  assume a: "DTAP_RecvStreamFrame ch fr cb st e = (ret, st', e')"
  have c: "footprint Q H x H e1" if "DP_GetMonoTimeMs x = (now, e1)" for x now e1
    using that by (auto simp: DP_GetMonoTimeMs_def split: prod.splits)
  have 1: "footprint Q H e H e3"
    if "ReportExpectedStreamFrame ch s1 (RecvCallback ch b p s2 e) = (s3, e1)" "StopReorderTimer s3 e1 = (s4, e2)"
      "StartReorderTimer s4 e2 = (s5, e3)" for s1 b p s2 s3 e1 s4 e2 s5 e3
    using that fp_ReportExpected fp_StopReorder fp_StartReorder fp_trans fp_RecvCallback fp_refl by metis
  have 2: "footprint Q H e H e2"
    if "DP_GetMonoTimeMs (e\<lparr>e_mem := m\<rparr>) = (now, e1)" "(if b then StartReorderTimer s1 e1 else (s1, e1)) = (s2, e2)" for m now e1 b s1 s2 e2
    using c [OF that(1)] that(2) fp_StartReorder fp_trans by (auto split: if_splits)
  show ?thesis
    using a unfolding DTAP_RecvStreamFrame_def Let_def
    by (auto simp: fp_RecvCallback split: option.splits if_splits prod.splits dest!: 1 2 c elim: fp_trans intro: fp_trans fp_StartReorder)
qed

lemma fp_SendStream: "DTAP_SendStreamFrame xmit ch p b st e = (ret, st', e') \<Longrightarrow> footprint Q H e H e'"
  by (auto simp: DTAP_SendStreamFrame_def Let_def split: if_splits prod.splits dest: fp_transmit [of _ _ _ _ H])

section \<open>Reliable mode\<close>

lemma fp_SendAck: "DTAP_SendAckFrame xmit ch f sb r e = (ret, e') \<Longrightarrow> footprint Q H e H e'"
  by (auto simp: DTAP_SendAckFrame_def Let_def split: option.splits prod.splits if_splits dest: fp_transmit [of _ _ _ _ H])

text \<open>Restarting or starting one of the three timers of a channel.\<close>

lemma fp_restart_rsp:
  "restart_timer (rspTimer r) x RspTimerExpire e = (h, e') \<Longrightarrow> footprint Q (rel_handles r) e (rel_handles (r\<lparr>rspTimer := h\<rparr>)) e'"
  using fp_restart [of "rspTimer r" x RspTimerExpire e h e' "{reorderTimer r, retransTimer r}"]
  by (simp add: rel_handles_def insert_commute)

lemma fp_restart_retrans:
  "restart_timer (retransTimer r) x RetransTimerExpire e = (h, e') \<Longrightarrow>
     footprint Q (rel_handles r) e (rel_handles (r\<lparr>retransTimer := h\<rparr>)) e'"
  using fp_restart [of "retransTimer r" x RetransTimerExpire e h e' "{reorderTimer r, rspTimer r}"]
  by (simp add: rel_handles_def insert_commute)

lemma fp_restart_reorder:
  "restart_timer (reorderTimer r) x ReorderTimerExpire e = (h, e') \<Longrightarrow>
     footprint Q (rel_handles r) e (rel_handles (r\<lparr>reorderTimer := h\<rparr>)) e'"
  using fp_restart [of "reorderTimer r" x ReorderTimerExpire e h e' "{retransTimer r, rspTimer r}"]
  by (simp add: rel_handles_def)

lemma fp_stop_retrans:
  "stop_timer (retransTimer r) e = (h, e') \<Longrightarrow> footprint Q (rel_handles r) e (rel_handles (r\<lparr>retransTimer := h\<rparr>)) e'"
  using fp_stop [of "retransTimer r" e h e' "{reorderTimer r, rspTimer r}"] by (simp add: rel_handles_def insert_commute)

lemma fp_stop_reorder:
  "stop_timer (reorderTimer r) e = (h, e') \<Longrightarrow> footprint Q (rel_handles r) e (rel_handles (r\<lparr>reorderTimer := h\<rparr>)) e'"
  using fp_stop [of "reorderTimer r" e h e' "{retransTimer r, rspTimer r}"] by (simp add: rel_handles_def)

lemma fp_start_retrans:
  "retransTimer r = - 1 \<Longrightarrow> start_timer (retransTimer r) x RetransTimerExpire e = (h, e') \<Longrightarrow>
     footprint Q (rel_handles r) e (rel_handles (r\<lparr>retransTimer := h\<rparr>)) e'"
  using fp_start [of x RetransTimerExpire e h e' "{reorderTimer r, rspTimer r}"] by (simp add: rel_handles_def insert_commute)

lemma fp_start_reorder:
  "reorderTimer r = - 1 \<Longrightarrow> start_timer (reorderTimer r) x ReorderTimerExpire e = (h, e') \<Longrightarrow>
     footprint Q (rel_handles r) e (rel_handles (r\<lparr>reorderTimer := h\<rparr>)) e'"
  using fp_start [of x ReorderTimerExpire e h e' "{retransTimer r, rspTimer r}"] by (simp add: rel_handles_def)

lemma rel_handles_upd [simp]:
  "rel_handles (r\<lparr>txWindow := w\<rparr>) = rel_handles r" "rel_handles (r\<lparr>rxWindow := rw\<rparr>) = rel_handles r"
  "rel_handles (r\<lparr>reTxSeq := q\<rparr>) = rel_handles r" "rel_handles (r\<lparr>nackCnt := k\<rparr>) = rel_handles r"
  "rel_handles (r\<lparr>isDestroyMsgSent := b\<rparr>) = rel_handles r" "rel_handles (r\<lparr>isTxWindowFull := b\<rparr>) = rel_handles r"
  "rel_handles (r\<lparr>isRxWindowFull := b\<rparr>) = rel_handles r" "rel_handles (r\<lparr>isRecvFrame := b\<rparr>) = rel_handles r"
  "rel_handles (r\<lparr>cacheBuff := cb\<rparr>) = rel_handles r" "rel_handles (r\<lparr>cachePi := p\<rparr>) = rel_handles r"
  "rel_handles (r\<lparr>frags := fg\<rparr>) = rel_handles r" "rel_handles (r\<lparr>sendPollingCounter := k\<rparr>) = rel_handles r"
  by (simp_all add: rel_handles_def)

lemma fp_ReleaseReq:
  "DTAP_DynTransChannReleaseReq ch r e = (r', e') \<Longrightarrow> footprint Q (rel_handles r) e (rel_handles r') e'"
  by (auto simp: DTAP_DynTransChannReleaseReq_def split: if_splits)

lemma fp_RspExpire:
  "DTAP_RspTimerExpireProc xmit ch r e = (r', e') \<Longrightarrow> footprint Q (rel_handles r) e (rel_handles r') e'"
  using fp_SendAck [of ch False False r e] by (cases "DTAP_SendAckFrame xmit ch False False r e") (auto simp: DTAP_RspTimerExpireProc_def)

lemma fp_ReorderExpire:
  assumes "DTAP_ReorderTimerExpireProc xmit ch r e = (r', e')"
  shows "footprint Q (rel_handles r) e (rel_handles r') e'"
proof -
  obtain ret e1 where a: "DTAP_SendAckFrame xmit ch False True r e = (ret, e1)" by fastforce
  obtain h e2 where t: "restart_timer (rspTimer r) (rspTimeout r) RspTimerExpire e1 = (h, e2)" by fastforce
  show ?thesis
    using assms fp_ReleaseReq fp_SendAck [OF a] fp_trans [OF fp_SendAck [OF a] fp_restart_rsp [OF t]]
    by (auto simp: DTAP_ReorderTimerExpireProc_def a t rel_handles_def split: if_splits)
qed

lemma fp_Retrans:
  assumes "DTAP_RetransEnhanceFrame xmit ch r e = (ret, r', e')"
  shows "footprint Q (rel_handles r) e (rel_handles r') e'"
proof (cases "DTAP_FindFrameBySeq (txList (txWindow r)) (reTxSeq r)")
  case None
  then show ?thesis using assms by (simp add: DTAP_RetransEnhanceFrame_def)
next
  case (Some fr)
  let ?upd = "\<lambda>f r. r\<lparr>txWindow := (txWindow r)\<lparr>txList := upd_first (\<lambda>x. txSeq x = reTxSeq r) f (txList (txWindow r))\<rparr>\<rparr>"
  let ?fr1 = "DTAP_SetPbitForSendPolling (r_crcInit r) fr" and ?r1 = "?upd (DTAP_SetPbitForSendPolling (r_crcInit r)) r"
  let ?r2 = "?upd (\<lambda>f. f\<lparr>reTxCnt := u8 (reTxCnt f + 1)\<rparr>) ?r1"
  obtain cb m where c: "(case fbuff ?fr1 of None \<Rightarrow> (None, e_mem e) | Some b \<Rightarrow> SDF_BuffCopy b (e_mem e)) = (cb, m)" by fastforce
  obtain ret1 e1 where x: "transmit xmit cb (e\<lparr>e_mem := m\<rparr>) = (ret1, e1)" by fastforce
  obtain h e2 where t: "(if getFrameType (fctx ?fr1) = DTAP_FRAME_DUPLEX_FRAG
      then restart_timer (rspTimer ?r2) (rspTimeout ?r2) RspTimerExpire e1 else (rspTimer ?r2, e1)) = (h, e2)" by fastforce
  obtain h' e3 where u: "restart_timer (retransTimer ?r2)
      (DTAP_CalculateRetransTimeout (retransTimeout ?r2) (u8 (reTxCnt ?fr1 + 1))) RetransTimerExpire e2 = (h', e3)" by fastforce
  have f1: "footprint Q (rel_handles r) e (rel_handles r) e1" using fp_transmit [OF x, of "rel_handles r"] by simp
  have f2: "footprint Q (rel_handles r) e1 (rel_handles (r\<lparr>rspTimer := h\<rparr>)) e2"
  proof (cases "getFrameType (fctx ?fr1) = DTAP_FRAME_DUPLEX_FRAG")
    case True
    then show ?thesis using t fp_restart_rsp [of r "rspTimeout r" e1 h e2] by simp
  next
    case False
    then show ?thesis using t by (auto simp: rel_handles_def)
  qed
  have f3: "footprint Q (rel_handles (r\<lparr>rspTimer := h\<rparr>)) e2 (rel_handles (r\<lparr>rspTimer := h, retransTimer := h'\<rparr>)) e3"
    using u fp_restart_retrans [of "r\<lparr>rspTimer := h\<rparr>" _ e2 h' e3] by simp
  have all: "footprint Q (rel_handles r) e (rel_handles (r\<lparr>rspTimer := h, retransTimer := h'\<rparr>)) e3"
    by (rule fp_trans [OF fp_trans [OF f1 f2] f3])
  have h2: "rel_handles (?r2\<lparr>rspTimer := h, retransTimer := h'\<rparr>) = rel_handles (r\<lparr>rspTimer := h, retransTimer := h'\<rparr>)"
    by (simp add: rel_handles_def)
  obtain rr er where rel: "DTAP_DynTransChannReleaseReq ch r e = (rr, er)" by fastforce
  have eq: "DTAP_RetransEnhanceFrame xmit ch r e =
      (if reTxCnt fr \<ge> maxTxThreshold r then (DTAP_TRANS_RELIABLE_REACH_MAX_RE_TX_CNT_ERR, rr, er)
       else case cb of None \<Rightarrow> (DTAP_TRANS_RELIABLE_COPY_BUFF_ERR, ?r1, e\<lparr>e_mem := m\<rparr>)
         | Some _ \<Rightarrow> if ret1 \<noteq> DTAP_SUCCESS then (ret1, ?r1, e1) else (DTAP_SUCCESS, ?r2\<lparr>rspTimer := h, retransTimer := h'\<rparr>, e3))"
  proof (cases cb)
    case None
    show ?thesis unfolding DTAP_RetransEnhanceFrame_def Some option.case Let_def c rel None by (simp only: option.case prod.case)
  next
    case (Some b)
    show ?thesis
      unfolding DTAP_RetransEnhanceFrame_def \<open>DTAP_FindFrameBySeq _ _ = Some fr\<close> option.case Let_def c rel Some
      by (simp only: option.case prod.case x [unfolded Some] t u)
  qed
  show ?thesis
    using assms f1 all fp_ReleaseReq [OF rel] h2 unfolding eq by (auto split: if_splits option.splits)
qed

lemma fp_RetransExpire:
  assumes "DTAP_RetransTimerExpireProc xmit ch r e = (r', e')"
  shows "footprint Q (rel_handles r) e (rel_handles r') e'"
proof -
  obtain ret r1 e1 where "DTAP_RetransEnhanceFrame xmit ch (r\<lparr>reTxSeq := expectedAckSeq (txWindow r)\<rparr>) e = (ret, r1, e1)"
    by (rule prod_cases3)
  then show ?thesis
    using assms fp_Retrans [of ch "r\<lparr>reTxSeq := expectedAckSeq (txWindow r)\<rparr>" e ret r1 e1]
    by (auto simp: DTAP_RetransTimerExpireProc_def split: if_splits)
qed

lemma fp_SlideTx:
  assumes "DTAP_SlideTxWindow ch fr r e = (r', e')"
  shows "footprint Q (rel_handles r) e (rel_handles r') e'"
proof -
  have 1: "footprint Q (rel_handles q) e (rel_handles (q\<lparr>retransTimer := h\<rparr>)) e1"
    if "(if b then stop_timer (retransTimer q) e else restart_timer (retransTimer q) x RetransTimerExpire e) = (h, e1)" for q b x h e1
    using that fp_stop_retrans fp_restart_retrans by (auto split: if_splits)
  have 2: "footprint Q (rel_handles r) e (rel_handles (q\<lparr>retransTimer := h\<rparr>)) e1"
    if "(if b then stop_timer (retransTimer q) e else restart_timer (retransTimer q) x RetransTimerExpire e) = (h, e1)"
      "rel_handles q = rel_handles r" for q b x h e1
    using 1 [OF that(1)] that(2) by simp
  show ?thesis
    using assms unfolding DTAP_SlideTxWindow_def Let_def
    by (auto split: if_splits prod.splits intro!: 2 [OF sym] dest!: sym [of _ "(_, _)"])
qed

lemma fp_RecvNack:
  assumes "DTAP_RecvNackFrame xmit ch fr r e = (ret, r', e')"
  shows "footprint Q (rel_handles r) e (rel_handles r') e'"
  using assms fp_Retrans [of ch "r\<lparr>reTxSeq := ack_reqSeq fr\<rparr>" e] by (auto simp: DTAP_RecvNackFrame_def split: if_splits prod.splits)

lemma SlideRx_handles [simp]: "rel_handles (DTAP_SlideRxWindow fr r) = rel_handles r"
  by (simp add: DTAP_SlideRxWindow_def Let_def split: option.splits)

lemma fp_OperateReorder:
  assumes "DTAP_OperateReorderTimer r e = (r', e')"
  shows "footprint Q (rel_handles r) e (rel_handles r') e'"
  using assms fp_start_reorder [of r] fp_stop_reorder [of r] fp_restart_reorder [of r]
  by (auto simp: DTAP_OperateReorderTimer_def Let_def split: if_splits prod.splits)

lemma fp_recv_inner:
  "recv_inner_loop ch cb r e = (r', e') \<Longrightarrow> footprint Q H e H e' \<and> rel_handles r' = rel_handles r"
proof (induction ch cb r e rule: recv_inner_loop.induct)
  case (1 ch cb r e)
  show ?case
  proof (cases "rxList (rxWindow r)")
    case (Cons fr frs)
    obtain ret fr' fg m dl where h: "hand_up ch cb fr (frags r) (e_mem e, e_dl e) = (ret, fr', fg, m, dl)" by (metis prod_cases5)
    then show ?thesis
      using 1(2) 1(1) [OF Cons _ h [symmetric] refl refl refl refl refl] Cons
      by (auto simp: recv_inner_loop.simps [of ch cb r e] Let_def split: if_splits)
  qed (use 1(2) in \<open>simp add: recv_inner_loop.simps [of ch cb r e]\<close>)
qed

lemma fp_RecvInner:
  "DTAP_RecvEnhanceFrameInner ch cb r e = (r', e') \<Longrightarrow> footprint Q (rel_handles r) e (rel_handles r') e'"
  using fp_recv_inner [of ch cb r e r' e' "rel_handles r"] by (auto simp: DTAP_RecvEnhanceFrameInner_def split: if_splits)

lemma fp_SetStatus:
  "DTAP_SetTransChannelStatus ch ok cb r e = (r', e') \<Longrightarrow> footprint Q (rel_handles r) e (rel_handles r') e'"
  using fp_RecvInner [of ch cb "r\<lparr>isRxWindowFull := False\<rparr>" e r' e'] by (auto simp: DTAP_SetTransChannelStatus_def split: if_splits)

lemma Trigger_handles: "DTAP_TriggerSendPolling r = (b, r') \<Longrightarrow> rel_handles r' = rel_handles r"
  by (auto simp: DTAP_TriggerSendPolling_def split: if_splits)

lemma fp_send_new_frames:
  "send_new_frames xmit frs flag r e = (flag', r', e') \<Longrightarrow> footprint Q H e H e' \<and> rel_handles r' = rel_handles r"
proof (induction frs arbitrary: flag r e)
  case (Cons fr frs)
  obtain p r1 where p: "DTAP_TriggerSendPolling r = (p, r1)" by fastforce
  define fr1 where "fr1 = (if p then DTAP_SetBitForSendPolling (r_crcInit r1) fr else fr)"
  obtain cb m where c: "(case fbuff fr1 of None \<Rightarrow> (None, e_mem e) | Some b \<Rightarrow> SDF_BuffCopy b (e_mem e)) = (cb, m)" by fastforce
  obtain ret e1 where t: "transmit xmit cb (e\<lparr>e_mem := m\<rparr>) = (ret, e1)" by fastforce
  have f: "footprint Q H e H e1" using fp_transmit [OF t, of H] by simp
  from Cons.prems have "send_new_frames xmit frs (flag \<or> ret = DTAP_SUCCESS)
      (r1\<lparr>reTxSeq := DTAP_GetNextFrameSeq (reTxSeq r1),
          txWindow := (txWindow r1)\<lparr>nextTxSeq := DTAP_GetNextFrameSeq (nextTxSeq (txWindow r1)), txList := txList (txWindow r1) @ [fr1]\<rparr>\<rparr>) e1
      = (flag', r', e')"
    unfolding send_new_frames.simps p prod.case Let_def fr1_def [symmetric] c t .
  from Cons.IH [OF this] f Trigger_handles [OF p] show ?case by (auto intro: fp_trans)
qed simp

lemma fp_SendInner:
  assumes i: "DTAP_SendEnhanceFrameInner xmit ch frs cnt r e = (ret, r', e')"
  shows "footprint Q (rel_handles r) e (rel_handles r') e'"
proof -
  let ?old = "DTAP_IsFrameSeqSmaller (reTxSeq r) (nextTxSeq (txWindow r))"
  obtain ret1 r1 e1 where R: "(if ?old then DTAP_RetransEnhanceFrame xmit ch r e else (DTAP_TRANS_RELIABLE_FIND_FRAME_ERR, r, e)) = (ret1, r1, e1)"
    by (metis prod_cases3)
  have f1: "footprint Q (rel_handles r) e (rel_handles r1) e1" using R fp_Retrans by (auto split: if_splits)
  define r2 where "r2 = (if ?old then r1\<lparr>reTxSeq := nextTxSeq (txWindow r1)\<rparr> else r1)"
  have h2: "rel_handles r2 = rel_handles r1" by (simp add: r2_def)
  obtain fl r3 e3 where S: "send_new_frames xmit (take cnt frs) (?old \<and> ret1 = DTAP_SUCCESS) r2 e1 = (fl, r3, e3)" by (metis prod_cases3)
  have f3: "footprint Q (rel_handles r) e (rel_handles r3) e3"
    using fp_send_new_frames [OF S, of "rel_handles r1"] h2 f1 by (auto intro: fp_trans)
  obtain h e4 where T: "(if fl \<and> isRecvFrame r3 then restart_timer (rspTimer r3) (rspTimeout r3) RspTimerExpire e3
      else (rspTimer r3, e3)) = (h, e4)" by fastforce
  have f4: "footprint Q (rel_handles r3) e3 (rel_handles (r3\<lparr>rspTimer := h\<rparr>)) e4"
  proof (cases "fl \<and> isRecvFrame r3")
    case True
    then show ?thesis using T fp_restart_rsp [of r3 _ e3 h e4] by simp
  next
    case False
    then show ?thesis using T by (auto simp: rel_handles_def)
  qed
  obtain h' e5 where U: "(if retransTimer r3 = INVALID_TIMER_HANDLE
      then start_timer (retransTimer r3) (retransTimeout r3) RetransTimerExpire e4 else (retransTimer r3, e4)) = (h', e5)" by fastforce
  have f5: "footprint Q (rel_handles (r3\<lparr>rspTimer := h\<rparr>)) e4 (rel_handles (r3\<lparr>rspTimer := h, retransTimer := h'\<rparr>)) e5"
  proof (cases "retransTimer r3 = INVALID_TIMER_HANDLE")
    case True
    then show ?thesis using U fp_start_retrans [of "r3\<lparr>rspTimer := h\<rparr>" _ e4 h' e5] by simp
  next
    case False
    then show ?thesis using U by (auto simp: rel_handles_def)
  qed
  note all = fp_trans [OF fp_trans [OF f3 f4] f5]
  show ?thesis
    using i f1 all unfolding DTAP_SendEnhanceFrameInner_def Let_def R prod.case r2_def [symmetric] S T U
    by (auto split: if_splits)
qed

lemma fp_SendEnhance:
  assumes s: "DTAP_SendEnhanceFrame xmit ch p b r e = (ret, r', e')"
  shows "footprint Q (rel_handles r) e (rel_handles r') e'"
proof -
  let ?mps = "c_mps ch - frag_header_len r - DTAP_CRC_LEN"
  define cnt where "cnt = DTAP_GetFragmentFramesNum (dataLen b) ?mps"
  let ?n = "length (txList (txWindow r))"
  define r1 where "r1 = (if ?n + cnt = tx_size (txWindow r) then r\<lparr>isTxWindowFull := True\<rparr> else r)"
  have h1: "rel_handles r1 = rel_handles r" by (simp add: r1_def)
  obtain ret1 frs m where P: "DTAP_PackEnhanceFrames ch p b ?mps r1 (e_mem e) = (ret1, frs, m)" by (metis prod_cases3)
  obtain ret2 r2 e2 where I: "DTAP_SendEnhanceFrameInner xmit ch frs cnt r1 (e\<lparr>e_mem := m\<rparr>) = (ret2, r2, e2)" by (metis prod_cases3)
  have f: "footprint Q (rel_handles r) e (rel_handles r2) e2" using fp_SendInner [OF I] h1 by simp
  obtain cb mc where C: "SDF_BuffCopy b (e_mem e) = (cb, mc)" by fastforce
  show ?thesis
    using s f h1 unfolding DTAP_SendEnhanceFrame_def Let_def cnt_def [symmetric] r1_def [symmetric] P prod.case I C
    by (auto split: if_splits)
qed

lemma fp_StatusChange:
  assumes "DTAP_TransChannelStatusChange xmit reg ch res r e = (r', e')"
  shows "footprint Q (rel_handles r) e (rel_handles r') e'"
proof -
  have st: "footprint Q H x H' (status_change_cbk reg ch res y) = footprint Q H x H' y" for H x H' y
    by (simp add: status_change_cbk_def)
  have "footprint Q (rel_handles r) e (rel_handles r') e'" if c: "DTAP_TransSendCacheBuff xmit reg ch res r e = (r', e')"
  proof (cases "cacheBuff r")
    case (Some b)
    obtain ret r1 e1 where S: "DTAP_SendEnhanceFrame xmit ch (cachePi r) b (r\<lparr>isTxWindowFull := False\<rparr>) e = (ret, r1, e1)" by (metis prod_cases3)
    show ?thesis
      using c fp_SendEnhance [OF S] st
      by (auto simp: DTAP_TransSendCacheBuff_def Some Let_def S split: option.splits if_splits)
  qed (use c in \<open>auto simp: DTAP_TransSendCacheBuff_def split: option.splits\<close>)
  then show ?thesis using assms st by (auto simp: DTAP_TransChannelStatusChange_def split: if_splits)
qed

lemma fp_RecvEnhance:
  assumes s: "DTAP_RecvEnhanceFrame xmit reg ch fr cb r e = (ret, r', e')"
  shows "footprint Q (rel_handles r) e (rel_handles r') e'"
proof -
  obtain ret1 r1 e1 where n: "DTAP_RecvNackFrame xmit ch fr r e = (ret1, r1, e1)" by (metis prod_cases3)
  obtain r2 e2 where s2: "DTAP_SlideTxWindow ch fr r1 e1 = (r2, e2)" by fastforce
  note f1 = fp_RecvNack [OF n] and f2 = fp_trans [OF fp_RecvNack [OF n] fp_SlideTx [OF s2]]
  obtain ra ea where c0: "DTAP_TransChannelStatusChange xmit reg ch 0 r2 e2 = (ra, ea)" by fastforce
  note fa = fp_trans [OF f2 fp_StatusChange [OF c0]]
  obtain cp m where cp: "DTAP_CopyFrame fr (e_mem e2) = (cp, m)" by fastforce
  note S = s [unfolded DTAP_RecvEnhanceFrame_def n prod.case s2 c0 cp]
  show ?thesis
  proof (cases cp)
    case None
    then show ?thesis using S f1 f2 fa by (auto split: if_splits)
  next
    case (Some f)
    obtain r4 e4 where o: "DTAP_OperateReorderTimer (DTAP_SlideRxWindow f r2) (e2\<lparr>e_mem := m\<rparr>) = (r4, e4)" by fastforce
    obtain r5 e5 where i: "DTAP_RecvEnhanceFrameInner ch cb r4 e4 = (r5, e5)" by fastforce
    have "footprint Q (rel_handles r2) e2 (rel_handles r4) e4" using fp_OperateReorder [OF o] by simp
    note f5 = fp_trans [OF fp_trans [OF f2 this] fp_RecvInner [OF i]]
    obtain r6 e6 where a: "(if DTAP_CheckFrameBit (fbits f) DTAP_FRAME_P_BIT
               then (case DTAP_SendAckFrame xmit ch True False r5 e5 of (ret2, e6) \<Rightarrow>
                       if ret2 \<noteq> DTAP_SUCCESS then (r5, e6)
                       else case restart_timer (rspTimer r5) (rspTimeout r5) RspTimerExpire e6 of
                              (h, e7) \<Rightarrow> (r5\<lparr>rspTimer := h\<rparr>, e7))
               else (r5, e5)) = (r6, e6)" by fastforce
    have f6: "footprint Q (rel_handles r5) e5 (rel_handles r6) e6"
      using a by (auto split: if_splits prod.splits intro: fp_SendAck fp_trans [OF fp_SendAck fp_restart_rsp])
    obtain r7 e7 where c: "DTAP_TransChannelStatusChange xmit reg ch 0 r6 e6 = (r7, e7)" by fastforce
    note f7 = fp_trans [OF fp_trans [OF f5 f6] fp_StatusChange [OF c]]
    show ?thesis using S Some o i a c f1 fa f7 by (auto split: if_splits)
  qed
qed

end

end
