(* ===== verification/Dtap_Sched_Ids.thy ===== *)
theory Dtap_Sched_Ids
  imports Dtap_Scheduler
begin

text \<open>
  What the scheduler leaves alone of the channels it is given: their identifiers and their priority. The only
  structures it creates are those of its own fragment channels, at addresses not used before.
\<close>

section \<open>Identifiers of channels\<close>

definition chan_ids :: "sched_chan \<Rightarrow> u16w \<times> byte \<times> byte \<times> nat" where
  "chan_ids c = (sc_lcid c, sc_srcTcid c, sc_dstTcid c, sc_priority c)"

definition ids_kept :: "sched \<Rightarrow> sched \<Rightarrow> bool" where
  "ids_kept s s' \<longleftrightarrow> nextAddr s \<le> nextAddr s' \<and> (\<forall>a<nextAddr s. chan_ids (chanStore s' a) = chan_ids (chanStore s a))"

named_theorems ids_intros \<open>operations that keep the identifiers\<close>

lemma ids_kept_refl [simp, intro]: "ids_kept s s"
  by (simp add: ids_kept_def)

lemma ids_kept_trans: "ids_kept s s1 \<Longrightarrow> ids_kept s1 s2 \<Longrightarrow> ids_kept s s2"
  by (fastforce simp: ids_kept_def)

lemma ids_kept_same: "nextAddr s' = nextAddr s \<Longrightarrow> (\<And>a. chan_ids (chanStore s' a) = chan_ids (chanStore s a)) \<Longrightarrow> ids_kept s s'"
  by (simp add: ids_kept_def)

lemma chan_ids_pktList [simp]: "chan_ids (c\<lparr>pktList := l\<rparr>) = chan_ids c"
  by (simp add: chan_ids_def)

lemma ids_kept_cong: "nextAddr s1 = nextAddr s \<Longrightarrow> chanStore s1 = chanStore s \<Longrightarrow> ids_kept t s1 = ids_kept t s"
  by (simp add: ids_kept_def)

lemma ids_kept_cong_left: "nextAddr s1 = nextAddr s \<Longrightarrow> chanStore s1 = chanStore s \<Longrightarrow> ids_kept s1 t = ids_kept s t"
  by (simp add: ids_kept_def)

lemma ids_upd_simps [simp]:
  "ids_kept t (upd_queue i f s) = ids_kept t s" "ids_kept t (upd_lcid_node i l g s) = ids_kept t s"
  "ids_kept t (upd_buf_node l h s) = ids_kept t s" "ids_kept t (s\<lparr>s_mem := m\<rparr>) = ids_kept t s"
  "ids_kept t (s\<lparr>s_pdFlag := p\<rparr>) = ids_kept t s" "ids_kept t (s\<lparr>g_pktSeq := q\<rparr>) = ids_kept t s"
  "ids_kept t (s\<lparr>dliScript := d\<rparr>) = ids_kept t s" "ids_kept t (s\<lparr>g_sendNotAckPktCnt := k\<rparr>) = ids_kept t s"
  "ids_kept t (s\<lparr>g_lcidBufferList := bl\<rparr>) = ids_kept t s" "ids_kept t (s\<lparr>g_apBufferNum := k\<rparr>) = ids_kept t s"
  "ids_kept t (s\<lparr>clockScript := ts\<rparr>) = ids_kept t s" "ids_kept t (s\<lparr>sent := sl\<rparr>) = ids_kept t s"
  "ids_kept t (s\<lparr>g_dtapScheduler := qs\<rparr>) = ids_kept t s" "ids_kept t (s\<lparr>g_isInited := b\<rparr>) = ids_kept t s"
  by (simp_all add: ids_kept_def)

lemma ids_upd_chan [simp]: "(\<And>c. chan_ids (f c) = chan_ids c) \<Longrightarrow> ids_kept t (upd_chan a f s) = ids_kept t s"
  by (auto simp: ids_kept_def)

section \<open>Queue operations\<close>

lemma ids_alloc [simp]: "ids_kept t (snd (sched_alloc s)) = ids_kept t s"
  by (simp add: sched_alloc_eq)

lemma ids_CreatePacket [simp]: "ids_kept t (snd (DTAP_CreatePacket b s)) = ids_kept t s"
  by (simp add: DTAP_CreatePacket_def sched_alloc_eq)

lemma ids_create_packets [simp]: "ids_kept t (snd (create_packets bs s)) = ids_kept t s"
proof (induction bs arbitrary: s)
  case (Cons b bs)
  obtain pk s1 where c: "DTAP_CreatePacket b s = (pk, s1)" by fastforce
  have "ids_kept t s1 = ids_kept t s" using ids_CreatePacket [of t b s] by (simp add: c)
  then show ?case using Cons.IH [of s1] by (auto simp: c split: prod.splits option.splits)
qed simp

lemma ids_FragmentChannel: "ids_kept t s \<Longrightarrow> ids_kept t (snd (DTAP_GetOrCreateFragmentChannel l s))"
  by (auto simp: DTAP_GetOrCreateFragmentChannel_def sched_alloc_eq Let_def ids_kept_def split: option.splits)

lemma ids_Push [simp]: "ids_kept t (snd (DTAP_PriorityQueuePush i a k s)) = ids_kept t s"
  by (simp add: DTAP_PriorityQueuePush_def DTAP_InsertChannelToLcidNode_def DTAP_CreateLcidNode_def sched_alloc_eq Let_def
      split: option.splits prod.splits bool.splits)

lemma ids_Pop [simp]: "ids_kept t (DTAP_PriorityQueuePop i l a s) = ids_kept t s"
  by (simp add: DTAP_PriorityQueuePop_def Let_def)

lemma ids_SaveFragmentData: "DTAP_SaveFragmentData l bs s = (ok, s') \<Longrightarrow> ids_kept s s'"
proof -
  assume a: "DTAP_SaveFragmentData l bs s = (ok, s')"
  obtain pk s1 where c: "create_packets bs s = (pk, s1)" by fastforce
  obtain ch s2 where d: "DTAP_GetOrCreateFragmentChannel l s1 = (ch, s2)" by fastforce
  have v: "ids_kept s s1" "ids_kept s s2"
    using ids_create_packets [of s bs s] ids_FragmentChannel [of s s1 l] by (simp_all add: c d)
  have p: "ids_kept s t" if "DTAP_PriorityQueuePush i x k s2 = (r, t)" for i x k r t
    using ids_Push [of s i x k s2] that v by simp
  show ?thesis using a v by (auto simp: DTAP_SaveFragmentData_def c d split: option.splits prod.splits if_splits dest!: p)
qed

section \<open>Sending\<close>

lemma ids_SendData:
  assumes "DTAP_SendData l b node s = (ok, s1)" shows "ids_kept s s1"
  using assms by (cases rule: SendData_cases) simp_all

lemma ids_send_fragments: "send_fragments l node bs s = (left, s1) \<Longrightarrow> ids_kept s s1"
proof (induction bs arbitrary: s)
  case (Cons b bs)
  obtain ok s2 where e: "DTAP_SendData l b node s = (ok, s2)" by fastforce
  show ?case using Cons.prems Cons.IH [of s2] ids_SendData [OF e] by (auto simp: e split: if_splits intro: ids_kept_trans)
qed simp

lemma ids_schedule_step:
  assumes "schedule_step i l s = (r, s1)" shows "ids_kept s s1"
  using assms
proof (cases rule: schedule_step_cases)
  case failed
  have "ids_kept s s1" if "DTAP_SplitData l b k s = (None, s1)" for l b k
    using SplitData_sel [OF that] by auto
  then show ?thesis using failed ids_SendData by blast
next
  case (resent n a s2)
  then show ?thesis using ids_SendData [OF resent(6)] by simp
next
  case (split n a frags s2 left s3)
  obtain m pd where s2: "s2 = s\<lparr>s_mem := m, s_pdFlag := pd\<rparr>" using SplitData_sel [OF split(6)] by blast
  have "ids_kept s s3" using ids_send_fragments [OF split(7)] ids_kept_cong_left [of s2 s s3] by (simp add: s2)
  then have p: "ids_kept s (DTAP_PriorityQueuePop i l a s3)" by simp
  show ?thesis using split(8) p ids_kept_trans [OF p ids_SaveFragmentData] by auto
qed simp_all

lemma ids_ScheduleLcid: "DTAP_ScheduleLcid i l s = (r, s1) \<Longrightarrow> ids_kept s s1"
proof (induction i l s rule: DTAP_ScheduleLcid.induct)
  case (1 i l s)
  obtain q s2 where e: "schedule_step i l s = (q, s2)" by fastforce
  show ?case
  proof (cases q)
    case None
    then have "DTAP_ScheduleLcid i l s2 = (r, s1)" using 1(2) by (simp add: DTAP_ScheduleLcid.simps [of i l s] e)
    then have "ids_kept s2 s1" using 1(1) [OF e [symmetric, unfolded None] refl] by simp
    with ids_schedule_step [OF e] show ?thesis by (rule ids_kept_trans)
  next
    case (Some r')
    then show ?thesis using 1(2) ids_schedule_step [OF e] by (simp add: DTAP_ScheduleLcid.simps [of i l s] e)
  qed
qed

lemma ids_schedule_lcids: "schedule_lcids i ls s = (r, s1) \<Longrightarrow> ids_kept s s1"
proof (induction ls arbitrary: s)
  case (Cons l ls)
  let ?s0 = "upd_lcid_node i l (\<lambda>n. n\<lparr>hasScheduled := True\<rparr>) s"
  obtain ok s2 where e: "DTAP_ScheduleLcid i l ?s0 = (ok, s2)" by fastforce
  have w: "ids_kept s s2" using ids_ScheduleLcid [OF e] ids_kept_cong_left [of ?s0 s s2] by simp
  show ?case using Cons.prems Cons.IH ids_kept_trans [OF w] w by (auto simp: e split: if_splits)
qed simp

lemma ids_SchedulePriority: "DTAP_SchedulePriority i s = (r, s1) \<Longrightarrow> ids_kept s s1"
  by (auto simp: DTAP_SchedulePriority_def split: prod.splits dest: ids_schedule_lcids)

lemma ids_run_queues: "ids_kept s (run_queues is s)"
proof (induction "is" arbitrary: s)
  case (Cons i "is")
  obtain ok s2 where e: "DTAP_SchedulePriority i s = (ok, s2)" by fastforce
  show ?case using Cons ids_SchedulePriority [OF e] by (auto simp: e intro: ids_kept_trans)
qed simp

lemma ids_SchedulerRun: "ids_kept t s \<Longrightarrow> ids_kept t (DTAP_SchedulerRun s)"
  unfolding DTAP_SchedulerRun_def by (erule ids_kept_trans) (rule ids_run_queues)

section \<open>Events\<close>

lemma ids_Recalc [simp]: "ids_kept t (DTAP_RecalcLcidQuota s) = ids_kept t s"
  by (simp add: DTAP_RecalcLcidQuota_def Let_def)

lemma ids_SetAp [simp]: "ids_kept t (DTAP_SetApBufferNum n s) = ids_kept t s"
  by (simp add: DTAP_SetApBufferNum_def)

lemma ids_Collab [simp]: "ids_kept t (COLLAB_ContinueAssignTransBuffer collab s) = ids_kept t s"
  by (simp add: COLLAB_ContinueAssignTransBuffer_def split: option.splits)

lemma ids_DataNum [ids_intros]: "ids_kept s (DTAP_DLIDataNumChangecbk b n s)"
  by (simp add: DTAP_DLIDataNumChangecbk_def)

lemma ids_Connect [ids_intros]: "ids_kept s (DTAP_DLIConnectCbk ok p s)"
  by (auto simp: DTAP_DLIConnectCbk_def DTAP_AddLcidBufferNode_def sched_alloc_eq split: option.splits prod.splits)

lemma ids_Disconnect [ids_intros]: "ids_kept s (DTAP_DLIDisconnectCbk collab p s)"
  by (auto simp: DTAP_DLIDisconnectCbk_def DTAP_DeleteLcidBufferNode_def Let_def split: option.splits prod.splits)

lemma ids_SendComplete [ids_intros]: "ids_kept s (DTAP_SendCompleteCbk collab h n s)"
  by (auto simp: DTAP_SendCompleteCbk_def Let_def intro!: ids_SchedulerRun)

lemma ids_DataSend [ids_intros]: "ids_kept s (snd (DTAP_DataSendWithPriority a b s))"
proof -
  have "ids_kept s (snd (DTAP_DataSendWithPriority (Some x) (Some y) s))" for x y
  proof -
    obtain pk s1 where c: "DTAP_CreatePacket y s = (pk, s1)" by fastforce
    obtain r s2 where p: "DTAP_PriorityQueuePush (sc_priority (chanStore s x)) x 1 s1 = (r, s2)" by fastforce
    have k: "ids_kept s s1" "ids_kept s s2"
      using ids_CreatePacket [of s y s, unfolded c] ids_Push [of s "sc_priority (chanStore s x)" x 1 s1, unfolded p] by simp_all
    show ?thesis
      unfolding DTAP_DataSendWithPriority_def Let_def option.case prod.case c
      by (cases pk) (use k in \<open>simp_all add: p [unfolded One_nat_def] ids_SchedulerRun split: option.splits\<close>)
  qed
  then show ?thesis by (cases a; cases b) (simp_all add: DTAP_DataSendWithPriority_def)
qed

lemma ids_DestroyLcidNode [simp]: "ids_kept t (DTAP_DestroyLcidNode n s) = ids_kept t s"
proof -
  have "ids_kept t (foldl (\<lambda>s a. upd_chan a (\<lambda>c. c\<lparr>pktList := []\<rparr>) s) s l) = ids_kept t s" for l
    by (induction l arbitrary: s) simp_all
  then show ?thesis by (simp add: DTAP_DestroyLcidNode_def)
qed

lemma ids_ChannelDownProc [simp]: "ids_kept t (DTAP_ChannelDownProc i l tc s) = ids_kept t s"
proof (cases "DTAP_GetLcidNode i l s")
  case (Some node)
  define s1 where "s1 = (case find_channel l tc node s of
      None \<Rightarrow> s
    | Some a \<Rightarrow>
        let channelPktCnt = length (pktList (chanStore s a));
            t1 = DTAP_DecLcidQueuedPktCnt l channelPktCnt s;
            t2 = upd_lcid_node i l (\<lambda>n. n\<lparr>channelList := remove1 a (channelList n),
                    ln_pktCnt := ln_pktCnt n - channelPktCnt\<rparr>) t1;
            t3 = upd_queue i (\<lambda>q. q\<lparr>q_pktCnt := q_pktCnt q - channelPktCnt\<rparr>) t2
        in upd_chan a (\<lambda>c. c\<lparr>pktList := []\<rparr>) t3)"
  have "ids_kept t s1 = ids_kept t s"
    by (cases "find_channel l tc node s") (simp_all add: s1_def Let_def DTAP_DecLcidQueuedPktCnt_def)
  moreover have "DTAP_ChannelDownProc i l tc s =
      (case DTAP_GetLcidNode i l s1 of
         None \<Rightarrow> s1
       | Some node1 \<Rightarrow>
           if channelList node1 = []
           then DTAP_DestroyLcidNode node1
                  (upd_queue i (\<lambda>q. q\<lparr>lcidList := remove_first (\<lambda>n. ln_lcid n = l) (lcidList q)\<rparr>) s1)
           else s1)"
    by (simp only: DTAP_ChannelDownProc_def Some option.case s1_def Let_def)
  ultimately show ?thesis by (cases "DTAP_GetLcidNode i l s1") simp_all
qed (simp add: DTAP_ChannelDownProc_def)

lemma ids_ChannelDown [simp]: "ids_kept t (DTAP_ChannelDown l tc s) = ids_kept t s"
proof -
  have *: "ids_kept t (foldl (\<lambda>s i. DTAP_ChannelDownProc i l (f i) s) s js) = ids_kept t s" for f js
    by (induction js arbitrary: s) simp_all
  show ?thesis by (simp only: DTAP_ChannelDown_def *)
qed

lemma ids_Init [ids_intros]: "ids_kept s (DTAP_SchedulerInitInner s)"
  by (simp add: DTAP_SchedulerInitInner_def)

lemma ids_Deinit [ids_intros]: "ids_kept s (DTAP_SchedulerDeinitInner s)"
proof -
  have d: "ids_kept t (foldl (\<lambda>s n. DTAP_DestroyLcidNode n s) s l) = ids_kept t s" for t s l
    by (induction l arbitrary: s) simp_all
  have "ids_kept t (foldl (\<lambda>s i. foldl (\<lambda>s n. DTAP_DestroyLcidNode n s) s (lcidList (g_dtapScheduler s ! i))) s js) = ids_kept t s" for t js s
    by (induction js arbitrary: s) (simp_all add: d)
  then show ?thesis by (auto simp: DTAP_SchedulerDeinitInner_def Let_def)
qed

end
