(* ===== verification/Dtap_Sched_Credit.thy ===== *)
theory Dtap_Sched_Credit
  imports Dtap_Sched_Quota
begin

text \<open>
  Flow control of the scheduler. A run never has more fragments with the controller than the controller
  announced, nor more of one link than its quota; every fragment handed over is charged once to the global
  counter and once to its link. The two counters stay equal over every sequence of sends, completions,
  connections and disconnections, as long as the controller only completes what it was given.
\<close>

section \<open>The credit view of a state\<close>

type_synonym credit_view = "nat \<times> bool \<times> nat \<times> (u16w \<times> SDF_Buff) list \<times> (u16w \<times> nat \<times> nat) list"

definition credit_view :: "sched \<Rightarrow> credit_view" where
  "credit_view s = (g_apBufferNum s, g_isInited s, g_sendNotAckPktCnt s, sent s,
     map (\<lambda>n. (bn_lcid n, quota n, bn_notAck n)) (g_lcidBufferList s))"

definition byte_fields :: "sched \<Rightarrow> bool" where
  "byte_fields s \<longleftrightarrow> g_apBufferNum s < 256 \<and> (\<forall>n\<in>set (g_lcidBufferList s). quota n < 256)"

definition within_credit :: "sched \<Rightarrow> sched \<Rightarrow> bool" where
  "within_credit s s' \<longleftrightarrow>
     g_apBufferNum s' = g_apBufferNum s \<and> g_isInited s' = g_isInited s \<and>
     map (\<lambda>n. (bn_lcid n, quota n)) (g_lcidBufferList s') = map (\<lambda>n. (bn_lcid n, quota n)) (g_lcidBufferList s) \<and>
     (\<exists>new. sent s' = sent s @ new \<and> g_sendNotAckPktCnt s' = g_sendNotAckPktCnt s + length new \<and>
        sum_list (map bn_notAck (g_lcidBufferList s')) = sum_list (map bn_notAck (g_lcidBufferList s)) + length new) \<and>
     g_sendNotAckPktCnt s' \<le> max (g_sendNotAckPktCnt s) (g_apBufferNum s) \<and>
     list_all2 (\<lambda>n n'. bn_notAck n' \<le> max (bn_notAck n) (quota n)) (g_lcidBufferList s) (g_lcidBufferList s')"

lemma within_credit_view:
  assumes "credit_view s' = credit_view s" shows "within_credit s s'"
proof -
  let ?t = "\<lambda>n. (bn_lcid n, quota n, bn_notAck n)"
  have m: "map ?t (g_lcidBufferList s') = map ?t (g_lcidBufferList s)" using assms by (simp add: credit_view_def)
  have e: "map (f \<circ> ?t) (g_lcidBufferList s') = map (f \<circ> ?t) (g_lcidBufferList s)" for f
    using arg_cong [OF m, of "map f"] by simp
  have "list_all2 (\<lambda>n n'. bn_notAck n' \<le> max (bn_notAck n) (quota n)) (g_lcidBufferList s) (g_lcidBufferList s')"
    using m by (auto simp: list_all2_conv_all_nth list_eq_iff_nth_eq)
  then show ?thesis
    using assms e [of "\<lambda>(a, b, c). (a, b)"] arg_cong [OF e [of "\<lambda>(a, b, c). c"], of sum_list]
    by (simp add: within_credit_def credit_view_def comp_def)
qed

lemma within_credit_refl [simp]: "within_credit s s"
  by (rule within_credit_view) simp

lemma within_credit_trans:
  assumes a: "within_credit s s1" and b: "within_credit s1 s2"
  shows "within_credit s s2"
proof -
  have q: "map (\<lambda>n. (bn_lcid n, quota n)) (g_lcidBufferList s1) = map (\<lambda>n. (bn_lcid n, quota n)) (g_lcidBufferList s)"
    using a by (simp add: within_credit_def)
  have "list_all2 (\<lambda>n n'. bn_notAck n' \<le> max (bn_notAck n) (quota n)) (g_lcidBufferList s) (g_lcidBufferList s2)"
    unfolding list_all2_conv_all_nth
  proof (intro conjI allI impI)
    show "length (g_lcidBufferList s) = length (g_lcidBufferList s2)"
      using a b map_eq_imp_length_eq [OF q] unfolding within_credit_def by (metis list_all2_lengthD)
    fix i assume i: "i < length (g_lcidBufferList s)"
    have "quota (g_lcidBufferList s1 ! i) = quota (g_lcidBufferList s ! i)"
      using q i by (auto simp: list_eq_iff_nth_eq)
    then show "bn_notAck (g_lcidBufferList s2 ! i) \<le> max (bn_notAck (g_lcidBufferList s ! i)) (quota (g_lcidBufferList s ! i))"
      using a b i by (fastforce simp: within_credit_def list_all2_conv_all_nth)
  qed
  then show ?thesis using a b by (auto simp: within_credit_def)
qed

lemma within_credit_bytes: "within_credit s s' \<Longrightarrow> byte_fields s \<Longrightarrow> byte_fields s'"
proof -
  assume a: "within_credit s s'" and b: "byte_fields s"
  have "map quota (g_lcidBufferList s') = map quota (g_lcidBufferList s)"
    using arg_cong [of _ _ "map snd", OF conjunct1 [OF conjunct2 [OF conjunct2 [OF a [unfolded within_credit_def]]]]] by (simp add: comp_def)
  then have "(\<forall>q\<in>set (map quota (g_lcidBufferList s')). q < 256) = (\<forall>q\<in>set (map quota (g_lcidBufferList s)). q < 256)"
    by (simp only:)
  then show ?thesis using a b by (simp add: within_credit_def byte_fields_def)
qed

section \<open>Operations that leave the credit alone\<close>

lemma view_simps [simp]:
  "credit_view (s\<lparr>s_mem := m\<rparr>) = credit_view s" "credit_view (s\<lparr>dliScript := d\<rparr>) = credit_view s"
  "credit_view (s\<lparr>s_pdFlag := p\<rparr>) = credit_view s" "credit_view (s\<lparr>g_pktSeq := q\<rparr>) = credit_view s"
  "credit_view (s\<lparr>nextAddr := a\<rparr>) = credit_view s" "credit_view (s\<lparr>clockScript := c\<rparr>) = credit_view s"
  "credit_view (upd_queue i f s) = credit_view s" "credit_view (upd_lcid_node i l g s) = credit_view s"
  "credit_view (upd_chan a h s) = credit_view s"
  by (simp_all add: credit_view_def)

lemma view_upd_buf [simp]:
  assumes "\<And>n. bn_lcid (f n) = bn_lcid n \<and> quota (f n) = quota n \<and> bn_notAck (f n) = bn_notAck n"
  shows "credit_view (upd_buf_node l f s) = credit_view s"
  using map_upd_first [of "\<lambda>n. (bn_lcid n, quota n, bn_notAck n)" f "\<lambda>n. bn_lcid n = l" "g_lcidBufferList s"] assms
  by (simp add: credit_view_def upd_buf_node_def)

lemma view_Pop [simp]: "credit_view (DTAP_PriorityQueuePop i l a s) = credit_view s"
  by (simp add: DTAP_PriorityQueuePop_def Let_def)

lemma view_alloc [simp]: "credit_view (snd (sched_alloc s)) = credit_view s"
  by (simp add: sched_alloc_eq)

lemma view_CreatePacket [simp]: "credit_view (snd (DTAP_CreatePacket b s)) = credit_view s"
  by (simp add: DTAP_CreatePacket_def sched_alloc_eq)

lemma view_create_packets [simp]: "credit_view (snd (create_packets bs s)) = credit_view s"
proof (induction bs arbitrary: s)
  case (Cons b bs)
  obtain pk s1 where c: "DTAP_CreatePacket b s = (pk, s1)" by fastforce
  have "credit_view s1 = credit_view s" using view_CreatePacket [of b s] by (simp add: c)
  then show ?case using Cons.IH [of s1] by (auto simp: c split: prod.splits option.splits)
qed simp

lemma view_FragmentChannel [simp]: "credit_view (snd (DTAP_GetOrCreateFragmentChannel l s)) = credit_view s"
  by (simp add: DTAP_GetOrCreateFragmentChannel_def sched_alloc_eq Let_def split: option.splits)

lemma view_Push [simp]: "credit_view (snd (DTAP_PriorityQueuePush i a k s)) = credit_view s"
  by (simp add: DTAP_PriorityQueuePush_def DTAP_InsertChannelToLcidNode_def DTAP_CreateLcidNode_def sched_alloc_eq Let_def
      split: option.splits prod.splits bool.splits)

lemma view_SaveFragmentData [simp]: "credit_view (snd (DTAP_SaveFragmentData l bs s)) = credit_view s"
proof -
  obtain pk s1 where c: "create_packets bs s = (pk, s1)" by fastforce
  obtain ch s2 where d: "DTAP_GetOrCreateFragmentChannel l s1 = (ch, s2)" by fastforce
  have v: "credit_view s1 = credit_view s" "credit_view s2 = credit_view s1"
    using view_create_packets [of bs s] view_FragmentChannel [of l s1] by (simp_all add: c d)
  have p: "credit_view t = credit_view s2" if "DTAP_PriorityQueuePush i a k s2 = (r, t)" for i a k r t
    using view_Push [of i a k s2] that by simp
  show ?thesis
    by (auto simp: DTAP_SaveFragmentData_def c d v split: option.splits prod.splits dest!: p)
qed

lemma view_SaveFragmentDataD: "DTAP_SaveFragmentData l bs s = (ok, t) \<Longrightarrow> credit_view t = credit_view s"
  by (metis snd_conv view_SaveFragmentData)

section \<open>Sending\<close>

lemma CanSend_iff:
  "DTAP_CanSend l s \<longleftrightarrow> (\<exists>n. DTAP_GetLcidBufferNode l s = Some n \<and> g_sendNotAckPktCnt s < g_apBufferNum s \<and> bn_notAck n < quota n)"
  by (auto simp: DTAP_CanSend_def split: option.splits)

lemma upd_first_found:
  "find_first p xs = Some x \<Longrightarrow> \<exists>as bs. xs = as @ x # bs \<and> upd_first p f xs = as @ f x # bs"
proof (induction xs)
  case (Cons y xs)
  show ?case
  proof (cases "p y")
    case True
    with Cons.prems have "y # xs = [] @ x # xs \<and> upd_first p f (y # xs) = [] @ f x # xs" by simp
    then show ?thesis by blast
  next
    case False
    with Cons obtain as bs where "xs = as @ x # bs" "upd_first p f xs = as @ f x # bs" by auto
    with False have "y # xs = (y # as) @ x # bs \<and> upd_first p f (y # xs) = (y # as) @ f x # bs"
      by (metis append_Cons upd_first.simps(2))
    then show ?thesis by blast
  qed
qed simp

lemma SendData_within:
  assumes "DTAP_SendData l b node s = (ok, s1)" "DTAP_CanSend node s" "byte_fields s"
  shows "within_credit s s1"
  using assms(1)
proof (cases rule: SendData_cases)
  case (failed m sc)
  then show ?thesis by (simp add: within_credit_view)
next
  case (okay m sc ts f)
  obtain n where n: "DTAP_GetLcidBufferNode node s = Some n" "g_sendNotAckPktCnt s < g_apBufferNum s" "bn_notAck n < quota n"
    using assms(2) by (auto simp: CanSend_iff)
  let ?g = "\<lambda>n. f n\<lparr>bn_notAck := u32 (bn_notAck n + 1)\<rparr>"
  obtain as bs where l: "g_lcidBufferList s = as @ n # bs" "upd_first (\<lambda>n. bn_lcid n = node) ?g (g_lcidBufferList s) = as @ ?g n # bs"
    using upd_first_found [OF n(1) [unfolded DTAP_GetLcidBufferNode_def], of ?g] by blast
  have q: "quota n < 256" "g_apBufferNum s < 256" using assms(3) l by (auto simp: byte_fields_def)
  have fn: "bn_lcid (f n) = bn_lcid n" "quota (f n) = quota n" using okay(2) by (simp_all add: rate_only_def)
  have u: "u32 (bn_notAck n + 1) = bn_notAck n + 1" "u8 (g_sendNotAckPktCnt s + 1) = g_sendNotAckPktCnt s + 1"
    using n q by simp_all
  have bl: "g_lcidBufferList s1 = as @ (f n)\<lparr>bn_notAck := bn_notAck n + 1\<rparr> # bs"
    using okay(3) l u by (simp add: upd_buf_node_def)
  have others: "g_apBufferNum s1 = g_apBufferNum s" "g_isInited s1 = g_isInited s" "sent s1 = sent s @ [(l, b)]" "g_sendNotAckPktCnt s1 = g_sendNotAckPktCnt s + 1"
    using okay(3) u by simp_all
  show ?thesis
    unfolding within_credit_def bl others l(1) using n fn by (auto simp: list_all2_append list_all2_same)
qed

lemma send_fragments_within:
  "send_fragments l node bs s = (left, s1) \<Longrightarrow> byte_fields s \<Longrightarrow> within_credit s s1"
proof (induction bs arbitrary: s)
  case (Cons b bs)
  obtain ok s2 where e: "DTAP_SendData l b node s = (ok, s2)" by fastforce
  show ?case
  proof (cases "DTAP_CanSend node s")
    case True
    have w: "within_credit s s2" by (rule SendData_within [OF e True Cons.prems(2)])
    then have "byte_fields s2" using Cons.prems(2) by (rule within_credit_bytes)
    then show ?thesis using Cons.prems(1) Cons.IH [of s2] w True e by (auto split: if_splits intro: within_credit_trans)
  next
    case False
    then show ?thesis using Cons.prems(1) by auto
  qed
qed simp

lemma schedule_step_within:
  assumes "schedule_step i l s = (r, s1)" "byte_fields s"
  shows "within_credit s s1"
  using assms(1)
proof (cases rule: schedule_step_cases)
  case idle then show ?thesis by simp
next
  case failed
  have "within_credit s s1" if "DTAP_SendData n a l s = (False, s1)" for n a
    using that by (cases rule: SendData_cases) (simp_all add: within_credit_view)
  moreover have "within_credit s s1" if "DTAP_SplitData l b k s = (None, s1)" for l b k
    using SplitData_sel [OF that] by (auto intro: within_credit_view)
  ultimately show ?thesis using failed by auto
next
  case (resent n a s2)
  have "within_credit s2 s1" unfolding resent(7) by (rule within_credit_view) simp
  then show ?thesis by (rule within_credit_trans [OF SendData_within [OF resent(6,2) assms(2)]])
next
  case (split n a frags s2 left s3)
  obtain m pd where s2: "s2 = s\<lparr>s_mem := m, s_pdFlag := pd\<rparr>" using SplitData_sel [OF split(6)] by blast
  then have w2: "within_credit s s2" by (simp add: within_credit_view)
  then have "within_credit s2 s3" by (intro send_fragments_within [OF split(7)] within_credit_bytes [OF _ assms(2)])
  with w2 have "within_credit s s3" by (rule within_credit_trans)
  moreover have "credit_view s1 = credit_view s3"
    using split(8) view_SaveFragmentDataD by auto
  ultimately show ?thesis by (rule within_credit_trans [OF _ within_credit_view])
qed

lemma ScheduleLcid_within:
  "DTAP_ScheduleLcid i l s = (r, s1) \<Longrightarrow> byte_fields s \<Longrightarrow> within_credit s s1"
proof (induction i l s rule: DTAP_ScheduleLcid.induct)
  case (1 i l s)
  obtain q s2 where e: "schedule_step i l s = (q, s2)" by fastforce
  have w: "within_credit s s2" by (rule schedule_step_within [OF e 1(3)])
  show ?case
  proof (cases q)
    case None
    then have "DTAP_ScheduleLcid i l s2 = (r, s1)" using 1(2) by (simp add: DTAP_ScheduleLcid.simps [of i l s] e)
    then have "within_credit s2 s1" using 1(1) [OF e [symmetric, unfolded None] refl] within_credit_bytes [OF w 1(3)] by simp
    with w show ?thesis by (rule within_credit_trans)
  next
    case (Some r')
    then show ?thesis using 1(2) w by (simp add: DTAP_ScheduleLcid.simps [of i l s] e)
  qed
qed

lemma schedule_lcids_within:
  "schedule_lcids i ls s = (r, s1) \<Longrightarrow> byte_fields s \<Longrightarrow> within_credit s s1"
proof (induction ls arbitrary: s)
  case (Cons l ls)
  let ?s0 = "upd_lcid_node i l (\<lambda>n. n\<lparr>hasScheduled := True\<rparr>) s"
  obtain ok s2 where e: "DTAP_ScheduleLcid i l ?s0 = (ok, s2)" by fastforce
  have w0: "within_credit s ?s0" by (rule within_credit_view) simp
  have w: "within_credit s s2"
    by (rule within_credit_trans [OF w0 ScheduleLcid_within [OF e within_credit_bytes [OF w0 Cons.prems(2)]]])
  note b = within_credit_bytes [OF w Cons.prems(2)]
  show ?case using Cons.prems Cons.IH [OF _ b] Cons.IH [OF _ Cons.prems(2)] within_credit_trans [OF w] w
    by (auto simp: e split: if_splits)
qed simp

lemma SchedulePriority_within:
  assumes "DTAP_SchedulePriority i s = (r, s1)" "byte_fields s"
  shows "within_credit s s1"
proof -
  obtain r2 s2 where e: "schedule_lcids i (map ln_lcid (lcidList (g_dtapScheduler s ! i))) s = (r2, s2)" by fastforce
  have "credit_view s1 = credit_view s2" using assms(1) by (auto simp: DTAP_SchedulePriority_def e)
  then show ?thesis by (intro within_credit_trans [OF schedule_lcids_within [OF e assms(2)]] within_credit_view)
qed

lemma run_queues_within: "byte_fields s \<Longrightarrow> within_credit s (run_queues is s)"
proof (induction "is" arbitrary: s)
  case (Cons i "is")
  obtain ok s2 where e: "DTAP_SchedulePriority i s = (ok, s2)" by fastforce
  have w: "within_credit s s2" by (rule SchedulePriority_within [OF e Cons.prems])
  show ?case using Cons w within_credit_bytes [OF w Cons.prems] by (auto simp: e intro: within_credit_trans)
qed simp

lemma SchedulerRun_within: "byte_fields s \<Longrightarrow> within_credit s (DTAP_SchedulerRun s)"
  by (simp add: DTAP_SchedulerRun_def run_queues_within)

text \<open>(C17) A run of the scheduler stays within the controller's credit. With the counters at their
  width of one byte, every fragment the run hands to the driver layer is counted once globally and once on
  a link; afterwards at most \<open>g_apBufferNum\<close> fragments are outstanding (or as many as before, when there
  were more already), and on each link at most its quota (or as many as before). The announced number of
  buffers, the links and their quotas do not change, and what was sent before stays sent.\<close>
theorem scheduler_run_within_credit:
  assumes "g_apBufferNum s < 256" "\<forall>n\<in>set (g_lcidBufferList s). quota n < 256"
  shows "let s' = DTAP_SchedulerRun s; bs = g_lcidBufferList s; bs' = g_lcidBufferList s' in
     (\<exists>new. sent s' = sent s @ new \<and> g_sendNotAckPktCnt s' = g_sendNotAckPktCnt s + length new \<and>
        sum_list (map bn_notAck bs') = sum_list (map bn_notAck bs) + length new) \<and>
     g_sendNotAckPktCnt s' \<le> max (g_sendNotAckPktCnt s) (g_apBufferNum s) \<and>
     g_apBufferNum s' = g_apBufferNum s \<and> length bs' = length bs \<and>
     (\<forall>i<length bs. bn_lcid (bs' ! i) = bn_lcid (bs ! i) \<and> quota (bs' ! i) = quota (bs ! i) \<and>
        bn_notAck (bs' ! i) \<le> max (bn_notAck (bs ! i)) (quota (bs ! i)))"
proof -
  have w: "within_credit s (DTAP_SchedulerRun s)" using assms by (intro SchedulerRun_within) (simp add: byte_fields_def)
  then have q: "map (\<lambda>n. (bn_lcid n, quota n)) (g_lcidBufferList (DTAP_SchedulerRun s)) = map (\<lambda>n. (bn_lcid n, quota n)) (g_lcidBufferList s)"
    by (simp add: within_credit_def)
  have "\<forall>i<length (g_lcidBufferList s). bn_lcid (g_lcidBufferList (DTAP_SchedulerRun s) ! i) = bn_lcid (g_lcidBufferList s ! i) \<and>
    quota (g_lcidBufferList (DTAP_SchedulerRun s) ! i) = quota (g_lcidBufferList s ! i)"
    using q by (auto simp: list_eq_iff_nth_eq)
  then show ?thesis using w map_eq_imp_length_eq [OF q]
    unfolding Let_def within_credit_def list_all2_conv_all_nth by blast
qed

section \<open>Histories of events\<close>

text \<open>The scheduler changes on these events only. A completion event is constrained: the controller
  completes at most what is outstanding on the link.\<close>

inductive sched_event :: "(nat \<Rightarrow> nat option) \<Rightarrow> sched \<Rightarrow> sched \<Rightarrow> bool" for collab where
  Ev_Init: "sched_event collab s (DTAP_SchedulerInitInner s)"
| Ev_Deinit: "sched_event collab s (DTAP_SchedulerDeinitInner s)"
| Ev_Connect: "sched_event collab s (DTAP_DLIConnectCbk success param s)"
| Ev_Disconnect: "sched_event collab s (DTAP_DLIDisconnectCbk collab param s)"
| Ev_DataNum: "sched_event collab s (DTAP_DLIDataNumChangecbk isAcb dataNum s)"
| Ev_Send: "sched_event collab s (snd (DTAP_DataSendWithPriority transChan buff s))"
| Ev_ChannelDown: "sched_event collab s (DTAP_ChannelDown lcid srcTcid s)"
| Ev_Complete: "(\<And>n. DTAP_GetLcidBufferNode connHandle s = Some n \<Longrightarrow> numCompleted \<le> bn_notAck n) \<Longrightarrow>
    sched_event collab s (DTAP_SendCompleteCbk collab connHandle numCompleted s)"

inductive_cases sched_eventE [consumes 1, case_names Init Deinit Connect Disconnect DataNum Send ChannelDown Complete]:
  "sched_event collab s s'"

definition credit_inv :: "sched \<Rightarrow> bool" where
  "credit_inv s \<longleftrightarrow> byte_fields s \<and> distinct (map bn_lcid (g_lcidBufferList s)) \<and>
     (g_isInited s \<longrightarrow> g_sendNotAckPktCnt s = sum_list (map bn_notAck (g_lcidBufferList s)))"

lemma credit_inv_view: "credit_view s' = credit_view s \<Longrightarrow> credit_inv s' = credit_inv s"
proof -
  assume a: "credit_view s' = credit_view s"
  let ?t = "\<lambda>n. (bn_lcid n, quota n, bn_notAck n)"
  have m: "map ?t (g_lcidBufferList s') = map ?t (g_lcidBufferList s)" using a by (simp add: credit_view_def)
  have e: "map (f \<circ> ?t) (g_lcidBufferList s') = map (f \<circ> ?t) (g_lcidBufferList s)" for f
    using arg_cong [OF m, of "map f"] by simp
  have l: "map bn_lcid (g_lcidBufferList s') = map bn_lcid (g_lcidBufferList s)" using e [of fst] by (simp add: comp_def)
  have k: "map bn_notAck (g_lcidBufferList s') = map bn_notAck (g_lcidBufferList s)" using e [of "snd \<circ> snd"] by (simp add: comp_def)
  have "map quota (g_lcidBufferList s') = map quota (g_lcidBufferList s)" using e [of "fst \<circ> snd"] by (simp add: comp_def)
  then have "(\<forall>q\<in>set (map quota (g_lcidBufferList s')). q < 256) = (\<forall>q\<in>set (map quota (g_lcidBufferList s)). q < 256)"
    by (simp only:)
  then show ?thesis using a l k by (simp add: credit_inv_def byte_fields_def credit_view_def)
qed

lemma credit_inv_within:
  assumes w: "within_credit s s'" and i: "credit_inv s"
  shows "credit_inv s'"
proof -
  have m: "map (\<lambda>n. (bn_lcid n, quota n)) (g_lcidBufferList s') = map (\<lambda>n. (bn_lcid n, quota n)) (g_lcidBufferList s)"
    using w by (simp add: within_credit_def)
  have "map bn_lcid (g_lcidBufferList s') = map bn_lcid (g_lcidBufferList s)"
    using arg_cong [OF m, of "map fst"] by (simp add: comp_def)
  then show ?thesis
    using w i within_credit_bytes [OF w] unfolding credit_inv_def within_credit_def by auto
qed

lemma credit_inv_run: "credit_inv s \<Longrightarrow> credit_inv (DTAP_SchedulerRun s)"
  by (rule credit_inv_within [OF SchedulerRun_within]) (simp_all add: credit_inv_def)

lemma quota_topup_byte:
  "\<forall>n\<in>set ns. quota n < 256 \<Longrightarrow> \<forall>n\<in>set (quota_topup pool tot r ns). quota n < 256"
proof (induction r arbitrary: ns)
  case (Suc r)
  have b: "\<forall>n\<in>set (upd_first p (\<lambda>n. n\<lparr>quota := u8 (quota n + 1)\<rparr>) ns). quota n < 256" for p
    using Suc.prems by (induction ns) auto
  show ?case
  proof (cases "snd (quota_pick pool tot ns)")
    case (Some l)
    then show ?thesis using Suc.IH [OF b [of "\<lambda>n. bn_lcid n = l"]] by simp
  qed (use Suc in simp)
qed simp

lemma RecalcLcidQuota_maps:
  "map bn_lcid (g_lcidBufferList (DTAP_RecalcLcidQuota s)) = map bn_lcid (g_lcidBufferList s)"
  "map bn_notAck (g_lcidBufferList (DTAP_RecalcLcidQuota s)) = map bn_notAck (g_lcidBufferList s)"
  "map queuedPktCnt (g_lcidBufferList (DTAP_RecalcLcidQuota s)) = map queuedPktCnt (g_lcidBufferList s)"
  using arg_cong [OF RecalcLcidQuota_erase [of s], of "map bn_lcid"] arg_cong [OF RecalcLcidQuota_erase [of s], of "map bn_notAck"]
    arg_cong [OF RecalcLcidQuota_erase [of s], of "map queuedPktCnt"]
  by (simp_all add: comp_def)

lemma credit_inv_Recalc: "credit_inv (DTAP_RecalcLcidQuota s) \<longleftrightarrow> g_apBufferNum s < 256 \<and>
    distinct (map bn_lcid (g_lcidBufferList s)) \<and>
    (g_isInited s \<longrightarrow> g_sendNotAckPktCnt s = sum_list (map bn_notAck (g_lcidBufferList s)))"
proof -
  have b: "\<forall>n\<in>set (map (quota_base pool tot) ns). quota n < 256" for pool tot ns by (simp add: quota_base_def)
  have "\<forall>n\<in>set (DTAP_AllocLcidQuota ap tot ns). quota n < 256" for ap tot ns
    unfolding DTAP_AllocLcidQuota_def Let_def by (rule quota_topup_byte [OF b])
  then have "\<forall>n\<in>set (g_lcidBufferList (DTAP_RecalcLcidQuota s)). quota n < 256"
    by (simp add: RecalcLcidQuota_list Let_def)
  then show ?thesis by (auto simp: credit_inv_def byte_fields_def RecalcLcidQuota_maps)
qed

lemma credit_inv_SetAp: "credit_inv s \<Longrightarrow> credit_inv (DTAP_SetApBufferNum n s)"
  by (simp add: DTAP_SetApBufferNum_def credit_inv_Recalc) (simp add: credit_inv_def)

lemma credit_inv_Collab: "credit_inv s \<Longrightarrow> credit_inv (COLLAB_ContinueAssignTransBuffer collab s)"
  by (simp add: COLLAB_ContinueAssignTransBuffer_def credit_inv_SetAp split: option.splits)

lemma credit_inv_Init: "credit_inv s \<Longrightarrow> credit_inv (DTAP_SchedulerInitInner s)"
  by (auto simp: credit_inv_def byte_fields_def DTAP_SchedulerInitInner_def)

lemma DestroyLcidNode_view [simp]: "credit_view (DTAP_DestroyLcidNode n s) = credit_view s"
proof -
  have "credit_view (foldl (\<lambda>s a. upd_chan a f s) s xs) = credit_view s" for f xs
    by (induction xs arbitrary: s) simp_all
  then show ?thesis by (simp add: DTAP_DestroyLcidNode_def)
qed

lemma credit_inv_Deinit: "credit_inv s \<Longrightarrow> credit_inv (DTAP_SchedulerDeinitInner s)"
proof -
  assume i: "credit_inv s"
  have f: "credit_view (foldl (\<lambda>s n. DTAP_DestroyLcidNode n s) s ns) = credit_view s" for s ns
    by (induction ns arbitrary: s) simp_all
  have g: "credit_view (foldl (\<lambda>s i. foldl (\<lambda>s n. DTAP_DestroyLcidNode n s) s (lcidList (g_dtapScheduler s ! i))) s is) = credit_view s" for s "is"
    by (induction "is" arbitrary: s) (simp_all add: f)
  show ?thesis
    using i g [of "s\<lparr>g_lcidBufferList := []\<rparr>" "[0..<4]"]
    by (auto simp: DTAP_SchedulerDeinitInner_def Let_def credit_inv_def byte_fields_def credit_view_def)
qed

lemma credit_inv_Connect: "credit_inv s \<Longrightarrow> credit_inv (DTAP_DLIConnectCbk ok p s)"
proof (cases p)
  case (Some l)
  assume i: "credit_inv s"
  have a: "l \<notin> set (map bn_lcid (g_lcidBufferList s))" if "DTAP_GetLcidBufferNode l s = None"
    using that by (auto simp: DTAP_GetLcidBufferNode_def find_first_None_iff)
  have b: "credit_inv (DTAP_RecalcLcidQuota (s\<lparr>s_mem := m, g_lcidBufferList := g_lcidBufferList s @ [nd]\<rparr>))"
    if "DTAP_GetLcidBufferNode l s = None" "bn_lcid nd = l" "bn_notAck nd = 0" for m nd
    unfolding credit_inv_Recalc using i a [OF that(1)] that by (auto simp: credit_inv_def byte_fields_def)
  have c: "credit_inv (s\<lparr>s_mem := m\<rparr>)" for m using i credit_inv_view [of "s\<lparr>s_mem := m\<rparr>" s] by simp
  show ?thesis using i Some b c by (auto simp: DTAP_DLIConnectCbk_def DTAP_AddLcidBufferNode_def sched_alloc_eq)
qed (simp add: DTAP_DLIConnectCbk_def)

text \<open>The buffer node of a link, cut out of the list.\<close>

lemma remove_first_found:
  "find_first p xs = Some x \<Longrightarrow> \<exists>as bs. xs = as @ x # bs \<and> remove_first p xs = as @ bs"
proof (induction xs)
  case (Cons y xs)
  show ?case
  proof (cases "p y")
    case True
    with Cons.prems have "y # xs = [] @ x # xs \<and> remove_first p (y # xs) = [] @ xs" by simp
    then show ?thesis by blast
  next
    case False
    with Cons obtain as bs where "xs = as @ x # bs" "remove_first p xs = as @ bs" by auto
    with False have "y # xs = (y # as) @ x # bs \<and> remove_first p (y # xs) = (y # as) @ bs" by simp
    then show ?thesis by blast
  qed
qed simp

lemma notAck_of_link:
  assumes "map bn_lcid (g_lcidBufferList s') = map bn_lcid (g_lcidBufferList s)"
    "map bn_notAck (g_lcidBufferList s') = map bn_notAck (g_lcidBufferList s)"
    "DTAP_GetLcidBufferNode l s = Some n"
  obtains n' where "DTAP_GetLcidBufferNode l s' = Some n'" "bn_notAck n' = bn_notAck n"
proof -
  have "\<exists>n'. find_first (\<lambda>n. bn_lcid n = l) ys = Some n' \<and> bn_notAck n' = bn_notAck n"
    if "map bn_lcid ys = map bn_lcid xs" "map bn_notAck ys = map bn_notAck xs" "find_first (\<lambda>n. bn_lcid n = l) xs = Some n" for xs ys
    using that
  proof (induction xs arbitrary: ys)
    case (Cons x xs)
    then show ?case by (cases ys) (auto split: if_splits)
  qed simp
  then show thesis using assms that by (auto simp: DTAP_GetLcidBufferNode_def)
qed

lemma Collab_maps:
  "map bn_lcid (g_lcidBufferList (COLLAB_ContinueAssignTransBuffer collab s)) = map bn_lcid (g_lcidBufferList s)"
  "map bn_notAck (g_lcidBufferList (COLLAB_ContinueAssignTransBuffer collab s)) = map bn_notAck (g_lcidBufferList s)"
  "g_sendNotAckPktCnt (COLLAB_ContinueAssignTransBuffer collab s) = g_sendNotAckPktCnt s"
  "g_isInited (COLLAB_ContinueAssignTransBuffer collab s) = g_isInited s"
  "g_apBufferNum s < 256 \<Longrightarrow> g_apBufferNum (COLLAB_ContinueAssignTransBuffer collab s) < 256"
  by (simp_all add: COLLAB_ContinueAssignTransBuffer_def DTAP_SetApBufferNum_def RecalcLcidQuota_maps split: option.splits)

lemma credit_inv_Disconnect: "credit_inv s \<Longrightarrow> credit_inv (DTAP_DLIDisconnectCbk collab p s)"
proof (cases p)
  case (Some l)
  assume i: "credit_inv s"
  show ?thesis
  proof (cases "DTAP_GetLcidBufferNode l s")
    case None
    then show ?thesis using i Some by (simp add: DTAP_DLIDisconnectCbk_def DTAP_DeleteLcidBufferNode_def)
  next
    case n: (Some n)
    define s1 where "s1 = COLLAB_ContinueAssignTransBuffer collab (s\<lparr>g_sendNotAckPktCnt := g_sendNotAckPktCnt s - bn_notAck n\<rparr>)"
    have m: "map bn_lcid (g_lcidBufferList s1) = map bn_lcid (g_lcidBufferList s)"
      "map bn_notAck (g_lcidBufferList s1) = map bn_notAck (g_lcidBufferList s)"
      "g_sendNotAckPktCnt s1 = g_sendNotAckPktCnt s - bn_notAck n" "g_isInited s1 = g_isInited s" "g_apBufferNum s1 < 256"
      using i by (simp_all add: s1_def Collab_maps credit_inv_def byte_fields_def)
    obtain n' where n': "DTAP_GetLcidBufferNode l s1 = Some n'" "bn_notAck n' = bn_notAck n"
      by (rule notAck_of_link [OF m(1,2) n])
    obtain as bs where l: "g_lcidBufferList s1 = as @ n' # bs" "remove_first (\<lambda>n. bn_lcid n = l) (g_lcidBufferList s1) = as @ bs"
      using remove_first_found [OF n'(1) [unfolded DTAP_GetLcidBufferNode_def]] by blast
    have d: "distinct (map bn_lcid (as @ n' # bs))" using i m(1) unfolding credit_inv_def l(1) by simp
    have e: "DTAP_DLIDisconnectCbk collab p s = DTAP_RecalcLcidQuota (s1\<lparr>g_lcidBufferList := as @ bs\<rparr>)"
      using Some n n' l(2) by (simp add: DTAP_DLIDisconnectCbk_def DTAP_DeleteLcidBufferNode_def flip: s1_def)
    have sum: "sum_list (map bn_notAck (g_lcidBufferList s)) = sum_list (map bn_notAck (as @ n' # bs))"
      using m(2) l(1) by simp
    show ?thesis unfolding e credit_inv_Recalc using d m sum n'(2) i by (auto simp: credit_inv_def)
  qed
qed (simp add: DTAP_DLIDisconnectCbk_def)

lemma credit_inv_Complete:
  assumes i: "credit_inv s" and k: "\<And>n. DTAP_GetLcidBufferNode l s = Some n \<Longrightarrow> k \<le> bn_notAck n"
  shows "credit_inv (DTAP_SendCompleteCbk collab l k s)"
proof (cases "DTAP_GetLcidBufferNode l s")
  case None
  then show ?thesis using i by (simp add: DTAP_SendCompleteCbk_def)
next
  case n: (Some n)
  define s1 where "s1 = COLLAB_ContinueAssignTransBuffer collab (s\<lparr>g_sendNotAckPktCnt := g_sendNotAckPktCnt s - k\<rparr>)"
  have m: "map bn_lcid (g_lcidBufferList s1) = map bn_lcid (g_lcidBufferList s)"
    "map bn_notAck (g_lcidBufferList s1) = map bn_notAck (g_lcidBufferList s)"
    "g_sendNotAckPktCnt s1 = g_sendNotAckPktCnt s - k" "g_isInited s1 = g_isInited s" "g_apBufferNum s1 < 256"
    using i by (simp_all add: s1_def Collab_maps credit_inv_def byte_fields_def)
  obtain n' where n': "DTAP_GetLcidBufferNode l s1 = Some n'" "bn_notAck n' = bn_notAck n"
    by (rule notAck_of_link [OF m(1,2) n])
  let ?f = "\<lambda>n. n\<lparr>bn_notAck := bn_notAck n - k\<rparr>"
  obtain as bs where l: "g_lcidBufferList s1 = as @ n' # bs" "upd_first (\<lambda>n. bn_lcid n = l) ?f (g_lcidBufferList s1) = as @ ?f n' # bs"
    using upd_first_found [OF n'(1) [unfolded DTAP_GetLcidBufferNode_def], of ?f] by blast
  have e: "DTAP_SendCompleteCbk collab l k s = DTAP_SchedulerRun (DTAP_RecalcLcidQuota (upd_buf_node l ?f s1))"
    using n by (simp add: DTAP_SendCompleteCbk_def Let_def flip: s1_def)
  have d: "distinct (map bn_lcid (as @ n' # bs))" using i m(1) unfolding credit_inv_def l(1) by simp
  have sum: "sum_list (map bn_notAck (g_lcidBufferList s)) = sum_list (map bn_notAck (as @ n' # bs))"
    using m(2) l(1) by simp
  have bl: "g_lcidBufferList (upd_buf_node l ?f s1) = as @ ?f n' # bs" by (simp add: upd_buf_node_def l(2))
  have "credit_inv (DTAP_RecalcLcidQuota (upd_buf_node l ?f s1))"
    unfolding credit_inv_Recalc bl using d m sum n'(2) i k [OF n] by (auto simp: credit_inv_def)
  then show ?thesis unfolding e by (rule credit_inv_run)
qed

lemma credit_inv_Send: "credit_inv s \<Longrightarrow> credit_inv (snd (DTAP_DataSendWithPriority a b s))"
proof -
  assume i: "credit_inv s"
  have cp: "credit_inv s1" if "DTAP_CreatePacket b s = (pk, s1)" for b pk s1
    using i credit_inv_view [of s1 s] view_CreatePacket [of b s] that by simp
  have pu: "credit_inv s2" if "credit_inv s1" "DTAP_PriorityQueuePush j a k s1 = (r, s2)" for j a k s1 r s2
    using that credit_inv_view [of s2 s1] view_Push [of j a k s1] by simp
  have uc: "credit_inv (upd_chan a f s2) = credit_inv s2" for a f s2 by (rule credit_inv_view) simp
  have rq: "credit_inv s3 \<Longrightarrow> credit_inv (DTAP_RecalcLcidQuota s3)" for s3
    unfolding credit_inv_Recalc by (simp add: credit_inv_def byte_fields_def)
  show ?thesis
    using i by (auto simp: DTAP_DataSendWithPriority_def Let_def uc dest: cp pu [OF cp] intro!: credit_inv_run rq
        split: option.splits prod.splits if_splits)
qed

lemma credit_inv_ChannelDown: "credit_inv s \<Longrightarrow> credit_inv (DTAP_ChannelDown l t s)"
proof -
  have p: "credit_view (DTAP_ChannelDownProc j l' t' s') = credit_view s'" for j l' t' s'
    by (simp add: DTAP_ChannelDownProc_def DTAP_DecLcidQueuedPktCnt_def Let_def split: option.splits)
  have f: "credit_view (foldl (\<lambda>s i. DTAP_ChannelDownProc i l (g i) s) s is) = credit_view s" for g s "is"
    by (induction "is" arbitrary: s) (simp_all add: p)
  assume "credit_inv s"
  then show ?thesis unfolding DTAP_ChannelDown_def by (simp only: credit_inv_view [OF f])
qed

lemmas credit_inv_events = credit_inv_Init credit_inv_Deinit credit_inv_Connect credit_inv_Disconnect
  credit_inv_SetAp credit_inv_Send credit_inv_ChannelDown credit_inv_Complete

lemma credit_inv_event: "sched_event collab s s' \<Longrightarrow> credit_inv s \<Longrightarrow> credit_inv s'"
  by (erule sched_eventE) (auto simp: DTAP_DLIDataNumChangecbk_def intro!: credit_inv_events)

lemma credit_inv_history: "(sched_event collab)\<^sup>*\<^sup>* s s' \<Longrightarrow> credit_inv s \<Longrightarrow> credit_inv s'"
  by (induction rule: rtranclp_induct) (auto intro: credit_inv_event)

definition sched_boot :: sched where
  "sched_boot = \<lparr>g_dtapScheduler = map (\<lambda>i. \<lparr>lcidList = [], q_priority = 0, q_pktCnt = 0\<rparr>) [0..<4],
     g_lcidBufferList = [], g_sendNotAckPktCnt = 0, g_isInited = False, g_pktSeq = 0, g_apBufferNum = DTAP_MIN_BUFFER_NUM,
     chanStore = (\<lambda>_. \<lparr>sc_lcid = 0, sc_srcTcid = 0, sc_dstTcid = 0, sc_priority = 0, pktList = []\<rparr>),
     nextAddr = 0, s_mem = [], dliScript = [], clockScript = [], s_acbLen = 0, s_pdFlag = 255, sent = []\<rparr>"


definition demo_busy :: sched where
  "demo_busy = DTAP_RecalcLcidQuota (demo_sched\<lparr>s_acbLen := 4,
     g_dtapScheduler := (g_dtapScheduler demo_sched)[0 :=
       \<lparr>lcidList = [\<lparr>channelList = [0], hasScheduled = False, ln_lcid = 1, ln_priority = 0, ln_pktCnt = 2\<rparr>], q_priority = 0, q_pktCnt = 2\<rparr>],
     chanStore := (\<lambda>_. \<lparr>sc_lcid = 1, sc_srcTcid = 0xFF, sc_dstTcid = 0xFF, sc_priority = 0,
       pktList = map (\<lambda>k. \<lparr>pkt_buff = \<lparr>dataOff = 0, dataLen = 6, buffLen = 6, bytes = [1, 2, 3, 4, 5, 6]\<rparr>,
         pkt_seq = k, isSplited = True\<rparr>) [0, 1]\<rparr>)\<rparr>)"

theorem scheduler_run_within_credit_witness:
  "length (sent (DTAP_SchedulerRun demo_busy)) = 2 \<and>
   g_sendNotAckPktCnt (DTAP_SchedulerRun demo_busy) = 2 \<and>
   g_sendNotAckPktCnt (DTAP_SchedulerRun demo_busy) \<le> max (g_sendNotAckPktCnt demo_busy) (g_apBufferNum demo_busy)"
proof -
  have h: "g_apBufferNum demo_busy < 256" "\<forall>n\<in>set (g_lcidBufferList demo_busy). quota n < 256" by code_simp+
  have "length (sent (DTAP_SchedulerRun demo_busy)) = 2" "g_sendNotAckPktCnt (DTAP_SchedulerRun demo_busy) = 2" by code_simp+
  then show ?thesis using scheduler_run_within_credit [OF h] unfolding Let_def by blast
qed


end
