(* ===== verification/Dtap_Table.thy ===== *)
theory Dtap_Table
  imports Dtap_Channel Dtap_Footprint Dtap_Sched_Ids Dtap_Sched_Credit Dtap_Rel_Tx
begin

text \<open>
  The channel table as the rest of the data plane sees it. The map of links is an association list from link identifiers
  to channel lists (\<open>links_of\<close>). The invariant \<open>tbl_inv\<close> ties the table to the two resources the channels share, the
  timers and the scheduler; every operation of \<^verbatim>\<open>dtap_channel.c\<close> is shown to keep it.
\<close>

section \<open>The map as an association list\<close>

definition links_of :: "chan_state \<Rightarrow> (u16w \<times> DTAP_Channel list) list" where
  "links_of st = (case g_dtapLogicLinksMap st of None \<Rightarrow> [] | Some mp \<Rightarrow> entry mp)"

text \<open>The map has the traits that \<open>DTAP_LogicLinkMapInit\<close> gives it.\<close>

definition map_ok :: "chan_state \<Rightarrow> bool" where
  "map_ok st \<longleftrightarrow> (\<forall>mp. g_dtapLogicLinksMap st = Some mp \<longrightarrow>
     keyTraits mp = \<lparr>dtor = Some (\<lambda>_ e. e), cmptor = Some DTAP_LogicLinkCompare\<rparr> \<and>
     valTraits mp = \<lparr>dtor = Some DTAP_LogicLinksDtor, cmptor = None\<rparr>)"

lemma map_ok_keys: "map_ok st \<Longrightarrow> g_dtapLogicLinksMap st = Some mp \<Longrightarrow> proper_keys mp"
  by (simp add: map_ok_def proper_keys_def key_eq_def DTAP_LogicLinkCompare_def word_uint_eq_iff)

lemma table_env [simp]:
  "links_of (st\<lparr>cs_env := e\<rparr>) = links_of st" "map_ok (st\<lparr>cs_env := e\<rparr>) = map_ok st"
  "DTAP_LogicLinkFind l (st\<lparr>cs_env := e\<rparr>) = DTAP_LogicLinkFind l st"
  "DTAP_ChannelSearch l tc (st\<lparr>cs_env := e\<rparr>) = DTAP_ChannelSearch l tc st"
  by (simp_all add: links_of_def map_ok_def DTAP_LogicLinkFind_def DTAP_ChannelSearch_def)

lemma LogicLinkFind_alist: "map_ok st \<Longrightarrow> DTAP_LogicLinkFind lcid st = alist_lookup (links_of st) lcid"
  using map_ok_keys [of st] by (cases "g_dtapLogicLinksMap st")
    (auto simp: DTAP_LogicLinkFind_def links_of_def MapFind_alist, simp add: SDF_MapFind_def)

lemma upd_link_alist:
  assumes "map_ok st"
  shows "links_of (upd_link lcid f st) = alist_update lcid f (links_of st)" "map_ok (upd_link lcid f st)"
    "cs_env (upd_link lcid f st) = cs_env st"
proof -
  have "map_update (g_dtapLogicLinksMap st) lcid f =
      map_option (\<lambda>mp. mp\<lparr>entry := alist_update lcid f (entry mp)\<rparr>) (g_dtapLogicLinksMap st)"
    using map_ok_keys [OF assms] by (cases "g_dtapLogicLinksMap st") (simp_all add: map_update_alist, simp add: map_update_def)
  then show "links_of (upd_link lcid f st) = alist_update lcid f (links_of st)" "map_ok (upd_link lcid f st)"
    "cs_env (upd_link lcid f st) = cs_env st"
    using assms by (auto simp: upd_link_def links_of_def map_ok_def split: option.splits)
qed

lemma erase_link_alist:
  assumes "map_ok st"
  shows "links_of (erase_link lcid st) = alist_erase lcid (links_of st)" "map_ok (erase_link lcid st)"
    "alist_lookup (links_of st) lcid = Some [] \<Longrightarrow> cs_env (erase_link lcid st) = cs_env st"
proof -
  have n: "alist_lookup l lcid = None \<Longrightarrow> alist_erase lcid l = l"
    and f: "find_first (\<lambda>(k, _). k = lcid) l = map_option (\<lambda>v. (lcid, v)) (alist_lookup l lcid)" for l :: "(u16w \<times> DTAP_Channel list) list"
    by (induction l) (auto split: if_splits)
  have "links_of (erase_link lcid st) = alist_erase lcid (links_of st) \<and> map_ok (erase_link lcid st) \<and>
    (alist_lookup (links_of st) lcid = Some [] \<longrightarrow> cs_env (erase_link lcid st) = cs_env st)"
  proof (cases "g_dtapLogicLinksMap st")
    case None
    then show ?thesis using assms by (simp add: erase_link_def links_of_def SDF_MapErase_def map_ok_def)
  next
    case (Some mp)
    note p = map_ok_keys [OF assms Some]
    show ?thesis
      using assms Some p by (cases "alist_lookup (entry mp) lcid")
        (auto simp: erase_link_def links_of_def map_ok_def MapErase_alist f n run_dtor_def DTAP_LogicLinksDtor_def)
  qed
  then show "links_of (erase_link lcid st) = alist_erase lcid (links_of st)" "map_ok (erase_link lcid st)"
    "alist_lookup (links_of st) lcid = Some [] \<Longrightarrow> cs_env (erase_link lcid st) = cs_env st" by simp_all
qed

lemma ensure_link_alist:
  assumes "map_ok st" "ensure_link lcid st = (ok, st1)"
  shows "map_ok st1 \<and> links_of st1 = (if ok \<and> alist_lookup (links_of st) lcid = None then (lcid, []) # links_of st else links_of st) \<and>
    (ok \<longrightarrow> alist_lookup (links_of st1) lcid \<noteq> None) \<and> (\<exists>m. cs_env st1 = (cs_env st)\<lparr>e_mem := m\<rparr>)"
proof (cases "g_dtapLogicLinksMap st")
  case None
  then have l: "DTAP_LogicLinkFind lcid st = None" by (simp add: DTAP_LogicLinkFind_def SDF_MapFind_def)
  show ?thesis
    using assms None unfolding ensure_link_def l
    by (auto simp: DTAP_LogicLinkCreate_def SDF_MapMoveInsert_def links_of_def map_ok_def split: prod.splits if_splits
        intro: exI [of _ "e_mem (cs_env st)"])
next
  case (Some mp)
  note p = map_ok_keys [OF assms(1) Some]
  have l: "DTAP_LogicLinkFind lcid st = alist_lookup (entry mp) lcid" "links_of st = entry mp"
    using LogicLinkFind_alist [OF assms(1)] Some by (simp_all add: links_of_def)
  show ?thesis
    using assms Some p unfolding ensure_link_def l
    by (auto simp: DTAP_LogicLinkCreate_def MapMoveInsert_alist links_of_def map_ok_def split: prod.splits if_splits
        intro: exI [of _ "e_mem (cs_env st)"])
qed

section \<open>The invariant\<close>

text \<open>The attributes of a channel are those of its mode and respect the bounds of the mode.\<close>

definition chan_inv :: "DTAP_Channel \<Rightarrow> bool" where
  "chan_inv c \<longleftrightarrow>
     (case ch_attr c of
        AttrBasic bc \<Rightarrow> c_mode (ch_info c) = CM_TRANS_MODE_BASIC \<and> length (cacheRxBuffs bc) \<le> 65
      | AttrStream s \<Rightarrow> c_mode (ch_info c) = CM_TRANS_MODE_STREAM \<and> length (s_rxList s) \<le> 257
      | AttrReliable r \<Rightarrow> c_mode (ch_info c) = CM_TRANS_MODE_RELIABLE \<and> (\<exists>A. tx_win A r)
      | AttrNone \<Rightarrow> c_mode (ch_info c) \<notin> {CM_TRANS_MODE_BASIC, CM_TRANS_MODE_STREAM, CM_TRANS_MODE_RELIABLE})"

definition chan_handles :: "DTAP_Channel \<Rightarrow> int set" where
  "chan_handles c = (case ch_attr c of AttrReliable r \<Rightarrow> rel_handles r | _ \<Rightarrow> {})"

text \<open>The scheduler has the structure of the channel, with the same identifiers.\<close>

definition chan_known :: "sched \<Rightarrow> DTAP_Channel \<Rightarrow> bool" where
  "chan_known s c \<longleftrightarrow> ch_addr c < nextAddr s \<and>
     chan_ids (chanStore s (ch_addr c)) = (c_lcid (ch_info c), c_srcTcid (ch_info c), c_dstTcid (ch_info c), c_priority (ch_info c))"

definition link_ok :: "sched \<Rightarrow> u16w \<Rightarrow> DTAP_Channel list \<Rightarrow> bool" where
  "link_ok s lcid l \<longleftrightarrow> (\<forall>c\<in>set l. c_lcid (ch_info c) = lcid \<and> chan_inv c \<and> chan_known s c) \<and> distinct (map ch_addr l)"

definition live_handles :: "chan_state \<Rightarrow> int set" where
  "live_handles st = (\<Union>(_, l)\<in>set (links_of st). \<Union>c\<in>set l. chan_handles c)"

text \<open>\<open>X\<close> is the set of links that may be without channels: none between two operations. A running timer of the reliable
  mode, whose callback is given a pointer to its channel, belongs to a channel of the table.\<close>

definition tbl_inv :: "u16w set \<Rightarrow> chan_state \<Rightarrow> bool" where
  "tbl_inv X st \<longleftrightarrow> map_ok st \<and> distinct (map fst (links_of st)) \<and>
     (\<forall>(lcid, l)\<in>set (links_of st). link_ok (e_tx (cs_env st)) lcid l \<and> (l = [] \<longrightarrow> lcid \<in> X)) \<and>
     handles_ok (cs_env st) \<and> running (cs_env st) \<subseteq> live_handles st \<and> credit_inv (e_tx (cs_env st))"

text \<open>What the scheduler keeps for the channels on every operation; the transmissions of a channel are one of them.\<close>

definition sched_kept :: "sched \<Rightarrow> sched \<Rightarrow> bool" where
  "sched_kept s s' \<longleftrightarrow> ids_kept s s' \<and> (credit_inv s \<longrightarrow> credit_inv s')"

lemma sched_kept_refl [simp, intro]: "sched_kept s s"
  by (simp add: sched_kept_def)

lemma sched_kept_trans: "sched_kept s s1 \<Longrightarrow> sched_kept s1 s2 \<Longrightarrow> sched_kept s s2"
  by (auto simp: sched_kept_def intro: ids_kept_trans)

lemma sched_kept_send: "sched_kept s (snd (DTAP_DataSendWithPriority a b s))"
  by (simp add: sched_kept_def ids_DataSend credit_inv_Send)

lemma sched_kept_event: "sched_event collab s s' \<Longrightarrow> sched_kept s s'"
  unfolding sched_kept_def using credit_inv_event by (auto elim!: sched_eventE intro: ids_intros)

interpretation quiet: tx_layer sched_kept "\<lambda>_ w. (DTAP_SUCCESS, w)"
  by unfold_locales (auto intro: sched_kept_trans)

section \<open>Frame rules\<close>

lemma fp_frame: "footprint Q H e H' e' \<Longrightarrow> footprint Q (H \<union> K) e (H' \<union> K) e'"
  by (auto simp: footprint_def)

lemma footprint_live:
  "footprint Q H e H' e' \<Longrightarrow> handles_ok e \<Longrightarrow> running e \<subseteq> H \<union> K \<Longrightarrow> handles_ok e' \<and> running e' \<subseteq> H' \<union> K"
  by (auto simp: footprint_def)

lemma chan_known_kept: "chan_known s c \<Longrightarrow> ids_kept s s' \<Longrightarrow> chan_known s' c"
  by (auto simp: chan_known_def ids_kept_def)

lemma link_ok_kept: "link_ok s lcid l \<Longrightarrow> ids_kept s s' \<Longrightarrow> link_ok s' lcid l"
  by (auto simp: link_ok_def intro: chan_known_kept)

lemma set_alist_update:
  "distinct (map fst l) \<Longrightarrow> alist_lookup l k = Some v \<Longrightarrow> set (alist_update k f l) = insert (k, f v) {x \<in> set l. fst x \<noteq> k}"
proof (induction l)
  case (Cons x l)
  then show ?case by (cases x) (auto simp: rev_image_eqI split: if_splits)
qed simp

lemma set_alist_lookup:
  "distinct (map fst l) \<Longrightarrow> alist_lookup l k = Some v \<Longrightarrow> set l = insert (k, v) {x \<in> set l. fst x \<noteq> k}"
proof -
  assume "distinct (map fst l)" "alist_lookup l k = Some v"
  moreover have "alist_update k (\<lambda>x. x) l = l" by (induction l) auto
  ultimately show ?thesis using set_alist_update [of l k v "\<lambda>x. x"] by simp
qed

text \<open>A change of the environment alone.\<close>

lemma tbl_inv_env:
  assumes "tbl_inv X st" "footprint sched_kept {} (cs_env st) {} e'"
  shows "tbl_inv X (st\<lparr>cs_env := e'\<rparr>)"
proof -
  have "ids_kept (e_tx (cs_env st)) (e_tx e')" using assms(2) by (simp add: footprint_def sched_kept_def)
  then show ?thesis
    using assms link_ok_kept unfolding tbl_inv_def footprint_def sched_kept_def live_handles_def by (fastforce simp: case_prod_beta)
qed

lemma tbl_inv_sched: "tbl_inv X st \<Longrightarrow> sched_kept (e_tx (cs_env st)) s \<Longrightarrow> tbl_inv X (st\<lparr>cs_env := (cs_env st)\<lparr>e_tx := s\<rparr>\<rparr>)"
  by (rule tbl_inv_env) (auto simp: footprint_def)

lemma tbl_inv_mem: "tbl_inv X st \<Longrightarrow> tbl_inv X (st\<lparr>cs_env := (cs_env st)\<lparr>e_mem := m\<rparr>\<rparr>)"
  by (rule tbl_inv_env) (auto simp: footprint_def)

text \<open>A change of the channels of one link from \<open>l\<close> to \<open>f l\<close>, with the environment.\<close>

lemma tbl_inv_link:
  assumes i: "tbl_inv X st" and l: "alist_lookup (links_of st) lcid = Some l"
    and fp: "footprint sched_kept (\<Union>c\<in>set l. chan_handles c) (cs_env st) (\<Union>c\<in>set (f l). chan_handles c) e'"
    and ok: "link_ok (e_tx e') lcid (f l)" "f l = [] \<Longrightarrow> lcid \<in> X"
  shows "tbl_inv X ((upd_link lcid f st)\<lparr>cs_env := e'\<rparr>)"
proof -
  have m: "map_ok st" and d: "distinct (map fst (links_of st))"
    and links: "\<forall>(lcid, l)\<in>set (links_of st). link_ok (e_tx (cs_env st)) lcid l \<and> (l = [] \<longrightarrow> lcid \<in> X)"
    and h: "handles_ok (cs_env st)" "running (cs_env st) \<subseteq> live_handles st" and c: "credit_inv (e_tx (cs_env st))"
    using i by (simp_all add: tbl_inv_def)
  have k: "ids_kept (e_tx (cs_env st)) (e_tx e')" "credit_inv (e_tx e')" using fp c by (simp_all add: footprint_def sched_kept_def)
  have s: "set (links_of st) = insert (lcid, l) {x \<in> set (links_of st). fst x \<noteq> lcid}"
    by (rule set_alist_lookup [OF d l])
  note s' = set_alist_update [OF d l, of f]
  let ?K = "\<Union>(_, l)\<in>{x \<in> set (links_of st). fst x \<noteq> lcid}. \<Union>c\<in>set l. chan_handles c"
  have lv: "live_handles st = (\<Union>c\<in>set l. chan_handles c) \<union> ?K" unfolding live_handles_def by (subst s) simp
  have lv': "live_handles ((upd_link lcid f st)\<lparr>cs_env := e'\<rparr>) = (\<Union>c\<in>set (f l). chan_handles c) \<union> ?K"
    unfolding live_handles_def table_env upd_link_alist [OF m] s' by simp
  have "handles_ok e' \<and> running e' \<subseteq> (\<Union>c\<in>set (f l). chan_handles c) \<union> ?K"
    by (rule footprint_live [OF fp h [unfolded lv]])
  moreover have "\<forall>(i, l)\<in>set (alist_update lcid f (links_of st)). link_ok (e_tx e') i l \<and> (l = [] \<longrightarrow> i \<in> X)"
    unfolding s' using ok links link_ok_kept [OF _ k(1)] by auto
  ultimately show ?thesis
    using m d k(2) unfolding tbl_inv_def lv' by (simp add: upd_link_alist)
qed

section \<open>Operations of the channel table\<close>

lemma tbl_inv_mono: "tbl_inv X st \<Longrightarrow> X \<subseteq> Y \<Longrightarrow> tbl_inv Y st"
  by (fastforce simp: tbl_inv_def)

lemma fp_drop_invalid: "footprint Q H e (insert (- 1) H') e' \<Longrightarrow> footprint Q H e H' e'"
  using invalid_not_running [of e'] by (auto simp: footprint_def)

lemma stop_timer_invalid: "stop_timer h e = (h', e') \<Longrightarrow> h' = - 1"
  by (auto simp: stop_timer_def DTAP_TransStopTimer_def split: if_splits)

lemma fp_ReliableDestroy: "footprint sched_kept (rel_handles r) e {} (DTAP_ReliableChannelDestroy r e)"
proof -
  obtain h1 e1 where 1: "stop_timer (reorderTimer r) e = (h1, e1)" by fastforce
  obtain h2 e2 where 2: "stop_timer (retransTimer r) e1 = (h2, e2)" by fastforce
  obtain h3 e3 where 3: "stop_timer (rspTimer r) e2 = (h3, e3)" by fastforce
  have "footprint sched_kept (rel_handles r) e {retransTimer r, rspTimer r} e1"
    using quiet.fp_stop [OF 1, of "{retransTimer r, rspTimer r}"] stop_timer_invalid [OF 1] by (simp add: rel_handles_def fp_drop_invalid)
  moreover have "footprint sched_kept {retransTimer r, rspTimer r} e1 {rspTimer r} e2"
    using quiet.fp_stop [OF 2, of "{rspTimer r}"] stop_timer_invalid [OF 2] by (simp add: fp_drop_invalid)
  moreover have "footprint sched_kept {rspTimer r} e2 {} e3"
    using quiet.fp_stop [OF 3, of "{}"] stop_timer_invalid [OF 3] by (simp add: fp_drop_invalid)
  ultimately have "footprint sched_kept (rel_handles r) e {} e3" using quiet.fp_trans by blast
  then show ?thesis by (simp add: DTAP_ReliableChannelDestroy_def 1 2 3)
qed

lemma fp_ChannelDestroy: "chan_inv c \<Longrightarrow> footprint sched_kept (chan_handles c) e {} (DTAP_ChannelDestroy c e)"
  using fp_ReliableDestroy by (auto simp: chan_inv_def chan_handles_def DTAP_ChannelDestroy_def DTAP_StreamChannelDestroy_def
      footprint_def running_del handles_ok_def split: chan_attr.splits)

lemma remove_first_split:
  "find_first p l = Some x \<Longrightarrow> \<exists>l1 l2. l = l1 @ x # l2 \<and> remove_first p l = l1 @ l2"
proof (induction l)
  case (Cons y l)
  show ?case
  proof (cases "p y")
    case False
    then obtain l1 l2 where "l = l1 @ x # l2" "remove_first p l = l1 @ l2" using Cons by auto
    then show ?thesis using False by (intro exI [of _ "y # l1"] exI [of _ l2]) simp
  qed (use Cons.prems in \<open>auto intro: exI [of _ "[]"]\<close>)
qed simp

lemma link_ok_sub: "link_ok s lcid (l1 @ c # l2) \<Longrightarrow> link_ok s lcid (l1 @ l2) \<and> chan_inv c"
  by (auto simp: link_ok_def)

lemma tbl_inv_lookup: "tbl_inv X st \<Longrightarrow> alist_lookup (links_of st) lcid = Some l \<Longrightarrow> link_ok (e_tx (cs_env st)) lcid l \<and> (l = [] \<longrightarrow> lcid \<in> X)"
  by (auto simp: tbl_inv_def dest!: alist_lookup_Some)

lemma drop_channel_inv:
  assumes i: "tbl_inv X st" "lcid \<in> X"
  shows "tbl_inv X (drop_channel lcid tcid st)"
proof (cases "DTAP_ChannelSearch lcid tcid st")
  case None
  then show ?thesis using i by (simp add: drop_channel_def)
next
  case (Some c)
  have m: "map_ok st" using i by (simp add: tbl_inv_def)
  obtain l where l: "alist_lookup (links_of st) lcid = Some l" "find_first (chan_match tcid) l = Some c"
    using Some by (auto simp: DTAP_ChannelSearch_def LogicLinkFind_alist [OF m] DTAP_ChannelFind_def split: option.splits)
  obtain l1 l2 where s: "l = l1 @ c # l2" "remove_first (chan_match tcid) l = l1 @ l2" using remove_first_split [OF l(2)] by blast
  have ok: "link_ok (e_tx (cs_env st)) lcid (l1 @ l2)" "chan_inv c"
    using tbl_inv_lookup [OF i(1) l(1)] link_ok_sub unfolding s(1) by blast+
  let ?e = "DTAP_ChannelDestroy c (cs_env st)"
  note f = fp_ChannelDestroy [OF ok(2), of "cs_env st"]
  have "footprint sched_kept (\<Union>c\<in>set l. chan_handles c) (cs_env st) (\<Union>c\<in>set (remove_first (chan_match tcid) l). chan_handles c) ?e"
    unfolding s(2) using fp_frame [OF f, of "\<Union>c\<in>set (l1 @ l2). chan_handles c"] by (simp add: s(1) Un_ac)
  moreover have "link_ok (e_tx ?e) lcid (remove_first (chan_match tcid) l)"
    unfolding s(2) using f link_ok_kept [OF ok(1)] by (simp add: footprint_def sched_kept_def)
  ultimately have "tbl_inv X ((upd_link lcid (remove_first (chan_match tcid)) st)\<lparr>cs_env := ?e\<rparr>)"
    using i(2) by (rule tbl_inv_link [OF i(1) l(1)])
  then show ?thesis by (simp add: drop_channel_def Some upd_link_alist(3) [OF m] Let_def)
qed

lemma tidy_link_inv:
  assumes i: "tbl_inv (insert lcid X) st"
  shows "tbl_inv X (if link_empty lcid st then erase_link lcid st else st)"
proof -
  have m: "map_ok st" and d: "distinct (map fst (links_of st))" using i by (simp_all add: tbl_inv_def)
  have le: "link_empty lcid st \<longleftrightarrow> alist_lookup (links_of st) lcid = Some []" by (simp add: link_empty_def LogicLinkFind_alist [OF m])
  show ?thesis
  proof (cases "link_empty lcid st")
    case True
    then have l: "alist_lookup (links_of st) lcid = Some []" by (simp add: le)
    have s: "set (links_of st) = insert (lcid, []) {x \<in> set (links_of st). fst x \<noteq> lcid}" by (rule set_alist_lookup [OF d l])
    have "live_handles (erase_link lcid st) = live_handles st"
      unfolding live_handles_def erase_link_alist(1) [OF m] set_alist_erase [OF d] by (subst (2) s) auto
    then show ?thesis
      using i True erase_link_alist [OF m, of lcid] l alist_distinct_erase [OF d, of lcid]
      by (auto simp: tbl_inv_def set_alist_erase [OF d])
  next
    case False
    then have "l \<noteq> []" if "(lcid, l) \<in> set (links_of st)" for l using alist_lookup_set [OF d that] le by auto
    then show ?thesis using False i by (fastforce simp: tbl_inv_def)
  qed
qed

lemma ensure_link_inv:
  assumes "tbl_inv X st" "ensure_link lcid st = (ok, st1)"
  shows "tbl_inv (insert lcid X) st1 \<and> (\<not> ok \<longrightarrow> tbl_inv X st1) \<and> (ok \<longrightarrow> alist_lookup (links_of st1) lcid \<noteq> None)"
proof -
  have m: "map_ok st" using assms by (simp add: tbl_inv_def)
  from ensure_link_alist [OF m assms(2)] obtain mm where e: "map_ok st1" "cs_env st1 = (cs_env st)\<lparr>e_mem := mm\<rparr>"
    "links_of st1 = (if ok \<and> alist_lookup (links_of st) lcid = None then (lcid, []) # links_of st else links_of st)"
    "ok \<longrightarrow> alist_lookup (links_of st1) lcid \<noteq> None" by blast
  have "live_handles st1 = live_handles st" by (simp add: live_handles_def e(3))
  then show ?thesis using assms(1) e by (auto simp: tbl_inv_def alist_lookup_None link_ok_def)
qed

text \<open>The window size of a configuration is a byte (\<^verbatim>\<open>uint8_t\<close>).\<close>

definition param_ok :: "CM_TransChan \<Rightarrow> bool" where
  "param_ok p \<longleftrightarrow> rc_txWindow (p_reliableMode p) < 256"

definition attr_handles :: "chan_attr \<Rightarrow> int set" where
  "attr_handles a = (case a of AttrReliable r \<Rightarrow> rel_handles r | _ \<Rightarrow> {})"

lemma ReliableCreate_fp:
  assumes "DTAP_ReliableChannelCreate param e = (new, e')" "param_ok param"
  shows "(case new of None \<Rightarrow> footprint sched_kept {} e {} e' | Some r \<Rightarrow> footprint sched_kept {} e (rel_handles r) e' \<and> tx_win 0 r) \<and>
    e_tx e' = e_tx e"
proof -
  obtain ok m where a: "SDF_MemAlloc (e_mem e) = (ok, m)" by fastforce
  define rsp where "rsp = (if rc_rspTimeout (p_reliableMode param) = 0 then DTAP_RELIABLE_RSP_TIMEOUT else rc_rspTimeout (p_reliableMode param))"
  obtain st h t where t: "DTAP_TransStartTimer INVALID_TIMER_HANDLE rsp RspTimerExpire (e_tim e) = (st, h, t)" by (metis prod_cases3)
  have add: "CP_TimerAdd (- 1) rsp RspTimerExpire (e_tim e) = (st, h, t)" using t by (simp add: DTAP_TransStartTimer_def)
  have w: "tx_win 0 r" if "txWindow r = DTAP_InitTxWindow k" "k \<le> 255" for r :: DTAP_ReliableChannel and k
    using that by (simp add: tx_win_def DTAP_InitTxWindow_def seqn_def)
  have rr: "running (e\<lparr>e_mem := m, e_tim := t\<rparr>) = running (e\<lparr>e_tim := t\<rparr>)" by (simp add: running_def)
  have f: "\<not> st \<Longrightarrow> footprint sched_kept {} e {} (e\<lparr>e_mem := m, e_tim := t\<rparr>)"
      "st \<Longrightarrow> footprint sched_kept {} e {- 1, h} (e\<lparr>e_mem := m, e_tim := t\<rparr>)"
    using running_add [OF add] rr by (auto simp: footprint_def handles_ok_def)
  have t': "DTAP_TransStartTimer INVALID_TIMER_HANDLE rsp RspTimerExpire (e_tim (e\<lparr>e_mem := m\<rparr>)) = (st, h, t)" using t by simp
  note D = assms(1) [unfolded DTAP_ReliableChannelCreate_def a prod.case Let_def rsp_def [symmetric] t']
  show ?thesis
  proof (cases "ok \<and> st")
    case True
    then obtain r where r: "new = Some r" "e' = e\<lparr>e_mem := m, e_tim := t\<rparr>" "rel_handles r = {- 1, h}"
      "txWindow r = DTAP_InitTxWindow (if rc_txWindow (p_reliableMode param) = 0 then CM_CAP_WND else rc_txWindow (p_reliableMode param))"
      using D by (simp add: rel_handles_def split del: if_split) (erule conjE, drule sym, simp)
    then show ?thesis using f(2) True w [OF r(4)] assms(2) by (simp add: param_ok_def)
  next
    case False
    then have "new = None \<and> (e' = e\<lparr>e_mem := m\<rparr> \<or> \<not> st \<and> e' = e\<lparr>e_mem := m, e_tim := t\<rparr>)" using D by (auto split: if_splits)
    then show ?thesis using f(1) by (auto simp: footprint_def)
  qed
qed

lemma create_attr_fp:
  assumes "create_attr param e = (new, e')" "param_ok param"
  shows "(case new of None \<Rightarrow> footprint sched_kept {} e {} e' | Some a \<Rightarrow> footprint sched_kept {} e (attr_handles a) e' \<and>
      (\<forall>c. ch_attr c = a \<and> c_mode (ch_info c) = p_transMode param \<longrightarrow> chan_inv c)) \<and> e_tx e' = e_tx e"
proof -
  obtain r e1 where r: "DTAP_ReliableChannelCreate param e = (r, e1)" by fastforce
  show ?thesis
    using assms ReliableCreate_fp [OF r assms(2)]
    by (auto simp: create_attr_def r DTAP_StreamChannelCreate_def DTAP_BasicChannelCreate_def attr_handles_def chan_inv_def
        footprint_def Let_def split: if_splits option.splits prod.splits)
qed

lemma sched_kept_new_chan:
  "nextAddr s = a \<Longrightarrow> sched_kept s ((upd_chan a f s)\<lparr>nextAddr := a + 1\<rparr>)"
  by (auto simp: sched_kept_def ids_kept_def upd_chan_def credit_inv_def byte_fields_def)

lemma ChannelCreate_fp:
  assumes "DTAP_ChannelCreate param e = (new, e')" "param_ok param"
  shows "(case new of
      None \<Rightarrow> footprint sched_kept {} e {} e'
    | Some c \<Rightarrow> footprint sched_kept {} e (chan_handles c) e' \<and> chan_inv c \<and> chan_known (e_tx e') c \<and> ch_addr c = nextAddr (e_tx e) \<and>
        c_lcid (ch_info c) = p_lcid param \<and> c_srcTcid (ch_info c) = p_srcTcid param \<and> c_mode (ch_info c) = p_transMode param)"
proof -
  obtain ok m where a: "SDF_MemAlloc (e_mem e) = (ok, m)" by fastforce
  let ?a = "nextAddr (e_tx e)" and ?prio = "chan_priority (p_srcTcid param)"
  let ?s1 = "(upd_chan ?a (\<lambda>_. \<lparr>sc_lcid = p_lcid param, sc_srcTcid = p_srcTcid param, sc_dstTcid = p_dstTcid param,
                    sc_priority = ?prio, pktList = []\<rparr>) (e_tx e))\<lparr>nextAddr := ?a + 1\<rparr>"
  let ?e1 = "e\<lparr>e_mem := m, e_tx := ?s1\<rparr>"
  obtain at e2 where c: "create_attr param ?e1 = (at, e2)" by fastforce
  note C = create_attr_fp [OF c assms(2)]
  have f0: "footprint sched_kept {} e {} ?e1" using sched_kept_new_chan by (auto simp: footprint_def running_def handles_ok_def)
  show ?thesis
  proof (cases "ok")
    case True
    show ?thesis
    proof (cases at)
      case None
      then show ?thesis using assms(1) C f0 True by (auto simp: DTAP_ChannelCreate_def a c [simplified] Let_def intro: quiet.fp_trans)
    next
      case (Some t)
      then obtain ch where ch: "new = Some ch" "e' = e2" "ch_addr ch = ?a" "ch_attr ch = t" "c_lcid (ch_info ch) = p_lcid param"
        "c_srcTcid (ch_info ch) = p_srcTcid param" "c_dstTcid (ch_info ch) = p_dstTcid param" "c_priority (ch_info ch) = ?prio"
        "c_mode (ch_info ch) = p_transMode param"
        using assms(1) True by (auto simp: DTAP_ChannelCreate_def a c [simplified] Let_def)
      have "chan_handles ch = attr_handles t" by (simp add: chan_handles_def attr_handles_def ch)
      moreover have "chan_known (e_tx e2) ch" using C ch by (simp add: chan_known_def chan_ids_def upd_chan_def)
      ultimately show ?thesis using C ch f0 Some by (auto intro: quiet.fp_trans)
    qed
  qed (use assms(1) in \<open>auto simp: DTAP_ChannelCreate_def a footprint_def\<close>)
qed

lemma drop_channel_lookup:
  assumes "map_ok st" "alist_lookup (links_of st) lcid \<noteq> None"
  shows "alist_lookup (links_of (drop_channel lcid tcid st)) lcid \<noteq> None" "map_ok (drop_channel lcid tcid st)"
  using assms by (auto simp: drop_channel_def Let_def upd_link_alist alist_lookup_update split: option.splits)

lemma ChannelAdd_inv:
  assumes i: "tbl_inv {} st" and p: "param_ok param"
  shows "tbl_inv {} (DTAP_ChannelAdd param st)"
proof -
  let ?l = "p_lcid param"
  obtain ok st1 where en: "ensure_link ?l st = (ok, st1)" by fastforce
  note E = ensure_link_inv [OF i en]
  let ?st2 = "drop_channel ?l (p_srcTcid param) st1"
  have i2: "tbl_inv {?l} ?st2" using E drop_channel_inv [of "{?l}" st1 ?l] by simp
  obtain new e where c: "DTAP_ChannelCreate param (cs_env ?st2) = (new, e)" by fastforce
  note C = ChannelCreate_fp [OF c p]
  show ?thesis
  proof (cases ok)
    case False
    then show ?thesis using E by (simp add: DTAP_ChannelAdd_def en)
  next
    case True
    show ?thesis
    proof (cases new)
      case None
      have "tbl_inv {?l} (?st2\<lparr>cs_env := e\<rparr>)" using tbl_inv_env [OF i2] C None by simp
      from tidy_link_inv [OF this] show ?thesis by (simp add: DTAP_ChannelAdd_def en True c None Let_def)
    next
      case (Some ch)
      have C: "footprint sched_kept {} (cs_env ?st2) (chan_handles ch) e" "chan_inv ch" "chan_known (e_tx e) ch"
        "ch_addr ch = nextAddr (e_tx (cs_env ?st2))" "c_lcid (ch_info ch) = ?l" using C Some by simp_all
      have m1: "map_ok st1" using E by (simp add: tbl_inv_def)
      obtain l where l: "alist_lookup (links_of ?st2) ?l = Some l" and m2: "map_ok ?st2"
        using drop_channel_lookup [OF m1] E True by blast
      have ok: "link_ok (e_tx (cs_env ?st2)) ?l l" using tbl_inv_lookup [OF i2 l] by simp
      have "link_ok (e_tx e) ?l (ch # l)"
        using C link_ok_kept [OF ok, of "e_tx e"] ok by (auto simp: link_ok_def footprint_def sched_kept_def chan_known_def)
      moreover have "footprint sched_kept (\<Union>c\<in>set l. chan_handles c) (cs_env ?st2) (\<Union>c\<in>set (ch # l). chan_handles c) e"
        using fp_frame [OF C(1), of "\<Union>c\<in>set l. chan_handles c"] by simp
      ultimately have "tbl_inv {?l} ((upd_link ?l (\<lambda>l. ch # l) ?st2)\<lparr>cs_env := e\<rparr>)" by (intro tbl_inv_link [OF i2 l]) simp_all
      then have "tbl_inv {} (if link_empty ?l ((upd_link ?l (\<lambda>l. ch # l) ?st2)\<lparr>cs_env := e\<rparr>)
          then erase_link ?l ((upd_link ?l (\<lambda>l. ch # l) ?st2)\<lparr>cs_env := e\<rparr>) else ((upd_link ?l (\<lambda>l. ch # l) ?st2)\<lparr>cs_env := e\<rparr>))"
        by (rule tidy_link_inv)
      moreover have "\<not> link_empty ?l ((upd_link ?l (\<lambda>l. ch # l) ?st2)\<lparr>cs_env := e\<rparr>)"
        by (simp add: link_empty_def LogicLinkFind_alist upd_link_alist m2 alist_lookup_update l)
      moreover have "DTAP_ChannelAdd param st = (upd_link ?l (\<lambda>l. ch # l) ?st2)\<lparr>cs_env := e\<rparr>"
        by (simp add: DTAP_ChannelAdd_def en True c Some Let_def upd_link_def)
      ultimately show ?thesis by simp
    qed
  qed
qed

lemma ChannelDel_inv: "tbl_inv {} st \<Longrightarrow> tbl_inv {} (DTAP_ChannelDel param st)"
proof -
  assume i: "tbl_inv {} st"
  let ?s = "DTAP_ChannelDown (p_lcid param) (p_srcTcid param) (e_tx (cs_env st))"
  have "sched_kept (e_tx (cs_env st)) ?s" by (simp add: sched_kept_def credit_inv_ChannelDown)
  from tbl_inv_sched [OF i this] have "tbl_inv {p_lcid param} (st\<lparr>cs_env := (cs_env st)\<lparr>e_tx := ?s\<rparr>\<rparr>)" by (rule tbl_inv_mono) simp
  from tidy_link_inv [OF drop_channel_inv [OF this]] i show ?thesis by (simp add: DTAP_ChannelDel_def Let_def)
qed

lemma StateChange_inv:
  assumes "tbl_inv {} st" "\<And>v i p. vec = Some v \<Longrightarrow> SDF_VectorElementAt (Some v) i = Some p \<Longrightarrow> param_ok p"
  shows "tbl_inv {} (DTAP_ChannelStateChangeCbk result vec st)"
proof -
  have op: "tbl_inv {} (DTAP_ChannelsOperate v opt st)"
    if "vec = Some v" and opt: "\<And>p st. param_ok p \<Longrightarrow> tbl_inv {} st \<Longrightarrow> tbl_inv {} (opt p st)" for v opt
  proof -
    have "tbl_inv {} (foldl (\<lambda>st i. case SDF_VectorElementAt (Some v) i of None \<Rightarrow> st | Some p \<Rightarrow> opt p st) st is)"
      if "tbl_inv {} st" for "is" st
      using that by (induction "is" arbitrary: st) (auto split: option.splits dest: assms(2) [OF \<open>vec = Some v\<close>] intro: opt)
    then show ?thesis using assms(1) by (simp only: DTAP_ChannelsOperate_def)
  qed
  show ?thesis
    using assms(1) by (auto simp: DTAP_ChannelStateChangeCbk_def split: option.splits intro: op ChannelAdd_inv ChannelDel_inv)
qed

lemma continue_basic_fp:
  "continue_basic l e = (l', e') \<Longrightarrow> footprint sched_kept {} e {} e' \<and>
     list_all2 (\<lambda>c c'. ch_addr c' = ch_addr c \<and> ch_info c' = ch_info c \<and> chan_handles c' = chan_handles c \<and> (chan_inv c \<longrightarrow> chan_inv c')) l l'"
proof (induction l arbitrary: e e' l')
  case (Cons c l)
  obtain c1 e1 where 1: "(case (c_mode (ch_info c) = CM_TRANS_MODE_BASIC, ch_attr c) of
      (True, AttrBasic bc) \<Rightarrow> (case DTAP_RecvBasicFrameContinue bc e of (bc1, e1) \<Rightarrow> (c\<lparr>ch_attr := AttrBasic bc1\<rparr>, e1))
    | _ \<Rightarrow> (c, e)) = (c1, e1)" by fastforce
  obtain l1 e2 where 2: "continue_basic l e1 = (l1, e2)" by fastforce
  have "footprint sched_kept {} e {} e1 \<and> ch_addr c1 = ch_addr c \<and> ch_info c1 = ch_info c \<and> chan_handles c1 = chan_handles c \<and> (chan_inv c \<longrightarrow> chan_inv c1)"
    using 1 quiet.fp_deliver_cached by (auto simp: DTAP_RecvBasicFrameContinue_def chan_handles_def chan_inv_def split: bool.splits chan_attr.splits)
  then show ?case using Cons.IH [OF 2] Cons.prems 1 2 by (auto simp: Let_def intro: quiet.fp_trans)
qed simp

lemma LinkCollab_inv: "tbl_inv X st \<Longrightarrow> tbl_inv X (DTAP_LinkCollabProc preAssign linkNum result st)"
  by (auto simp: DTAP_LinkCollabProc_def sched_kept_def credit_inv_SetAp split: option.splits intro: tbl_inv_sched)

lemma LinkState_inv:
  assumes "tbl_inv {} st"
  shows "tbl_inv {} (DTAP_LogicLinkStateChangeCbk preAssign linkNum param st)"
proof (cases param)
  case (Some q)
  obtain lcid result where q: "q = (lcid, result)" by fastforce
  let ?st1 = "DTAP_LinkCollabProc preAssign linkNum result st"
  note i = LinkCollab_inv [OF assms, of preAssign linkNum result]
  have m: "map_ok ?st1" using i by (simp add: tbl_inv_def)
  show ?thesis
  proof (cases "result = CM_LINK_STATE_CONNECTED \<and> alist_lookup (links_of ?st1) lcid \<noteq> None")
    case True
    then obtain l where l: "alist_lookup (links_of ?st1) lcid = Some l" by blast
    obtain l1 e1 where c: "continue_basic l (cs_env ?st1) = (l1, e1)" by fastforce
    note C = continue_basic_fp [OF c]
    have r: "length l1 = length l" "\<And>k. k < length l \<Longrightarrow> ch_addr (l1 ! k) = ch_addr (l ! k) \<and> ch_info (l1 ! k) = ch_info (l ! k) \<and>
        chan_handles (l1 ! k) = chan_handles (l ! k) \<and> (chan_inv (l ! k) \<longrightarrow> chan_inv (l1 ! k))"
      using C by (auto simp: list_all2_conv_all_nth)
    have h: "map chan_handles l1 = map chan_handles l" and a: "map ch_addr l1 = map ch_addr l" using r by (auto intro!: nth_equalityI)
    have lk: "link_ok (e_tx (cs_env ?st1)) lcid l" "l \<noteq> []" using tbl_inv_lookup [OF i l] by simp_all
    have "link_ok (e_tx e1) lcid l" using lk C by (auto simp: footprint_def sched_kept_def intro: link_ok_kept)
    then have ok: "link_ok (e_tx e1) lcid l1" using a r by (simp add: link_ok_def all_set_conv_all_nth chan_known_def)
    have "(\<Union>c\<in>set l1. chan_handles c) = (\<Union>c\<in>set l. chan_handles c)" using arg_cong [OF h, of "\<lambda>x. \<Union>(set x)"] by simp
    then have "footprint sched_kept (\<Union>c\<in>set l. chan_handles c) (cs_env ?st1) (\<Union>c\<in>set l1. chan_handles c) e1"
      using fp_frame [of sched_kept "{}" "cs_env ?st1" "{}" e1] C by simp
    then have "tbl_inv {} ((upd_link lcid (\<lambda>_. l1) ?st1)\<lparr>cs_env := e1\<rparr>)"
      using ok lk r(1) by (intro tbl_inv_link [OF i l]) auto
    then show ?thesis using Some q True l c LogicLinkFind_alist [OF m, of lcid] by (simp add: DTAP_LogicLinkStateChangeCbk_def Let_def)
  qed (use i Some q LogicLinkFind_alist [OF m, of lcid] in \<open>auto simp: DTAP_LogicLinkStateChangeCbk_def Let_def\<close>)
qed (use assms in \<open>simp add: DTAP_LogicLinkStateChangeCbk_def\<close>)

section \<open>Life cycle\<close>

lemma LogicLinksDtor_fp:
  "(\<forall>c\<in>set l. chan_inv c) \<Longrightarrow> footprint sched_kept (\<Union>c\<in>set l. chan_handles c) e {} (DTAP_LogicLinksDtor l e)"
proof (induction l arbitrary: e)
  case (Cons c l)
  have 1: "footprint sched_kept (chan_handles c) e {} (DTAP_ChannelDestroy c e)" using Cons.prems by (intro fp_ChannelDestroy) simp
  from fp_frame [OF this, of "\<Union>c\<in>set l. chan_handles c"]
  have "footprint sched_kept (\<Union>c\<in>set (c # l). chan_handles c) e (\<Union>c\<in>set l. chan_handles c) (DTAP_ChannelDestroy c e)" by simp
  from quiet.fp_trans [OF this Cons.IH] Cons.prems show ?case by (simp add: DTAP_LogicLinksDtor_def)
qed (simp add: DTAP_LogicLinksDtor_def)

text \<open>After the map of links is destroyed, no timer of the reliable mode is left.\<close>

lemma MapDeInit_inv:
  assumes "tbl_inv X st"
  shows "tbl_inv {} (DTAP_LogicLinkMapDeInit st)" "g_dtapLogicLinksMap (DTAP_LogicLinkMapDeInit st) = None"
    "running (cs_env (DTAP_LogicLinkMapDeInit st)) = {}"
proof -
  let ?st = "DTAP_LogicLinkMapDeInit st"
  have ds: "footprint sched_kept (\<Union>(_, l)\<in>set en. \<Union>c\<in>set l. chan_handles c) e {} (foldl (\<lambda>e (k, v). DTAP_LogicLinksDtor v e) e en)"
    if "\<forall>(_, l)\<in>set en. \<forall>c\<in>set l. chan_inv c" for en :: "(u16w \<times> DTAP_Channel list) list" and e
    using that
  proof (induction en arbitrary: e)
    case (Cons x en)
    obtain k l where x: "x = (k, l)" by fastforce
    have "footprint sched_kept (\<Union>c\<in>set l. chan_handles c) e {} (DTAP_LogicLinksDtor l e)" using Cons.prems x by (intro LogicLinksDtor_fp) simp
    from fp_frame [OF this, of "\<Union>(_, l)\<in>set en. \<Union>c\<in>set l. chan_handles c"] quiet.fp_trans [OF _ Cons.IH] Cons.prems
    show ?case by (simp add: x)
  qed simp
  have f: "footprint sched_kept (live_handles st) (cs_env st) {} (cs_env ?st)"
  proof (cases "g_dtapLogicLinksMap st")
    case None
    then show ?thesis by (simp add: DTAP_LogicLinkMapDeInit_def live_handles_def links_of_def)
  next
    case (Some mp)
    have "cs_env ?st = foldl (\<lambda>e (k, v). DTAP_LogicLinksDtor v e) (cs_env st) (links_of st)"
      using assms Some by (simp add: DTAP_LogicLinkMapDeInit_def SDF_MapDtor_def links_of_def tbl_inv_def map_ok_def run_dtor_def)
    moreover have "\<forall>(_, l)\<in>set (links_of st). \<forall>c\<in>set l. chan_inv c" using assms by (fastforce simp: tbl_inv_def link_ok_def)
    ultimately show ?thesis using ds by (simp add: live_handles_def)
  qed
  have h: "handles_ok (cs_env st)" "running (cs_env st) \<subseteq> live_handles st \<union> {}" "credit_inv (e_tx (cs_env st))"
    using assms by (simp_all add: tbl_inv_def)
  have n: "g_dtapLogicLinksMap ?st = None" by (simp add: DTAP_LogicLinkMapDeInit_def)
  then have l: "links_of ?st = []" "map_ok ?st" by (simp_all add: links_of_def map_ok_def)
  from footprint_live [OF f h(1,2)] f h(3) l n
  show "tbl_inv {} ?st" "g_dtapLogicLinksMap ?st = None" "running (cs_env ?st) = {}"
    by (auto simp: tbl_inv_def footprint_def sched_kept_def)
qed

lemma MapInit_inv:
  assumes "tbl_inv X st" "g_dtapLogicLinksMap st = None" "DTAP_LogicLinkMapInit st = (ret, st1)"
  shows "tbl_inv {} st1" "ret \<noteq> DTAP_SUCCESS \<Longrightarrow> g_dtapLogicLinksMap st1 = None"
  using assms by (auto simp: DTAP_LogicLinkMapInit_def SDF_MapCtor_def tbl_inv_def map_ok_def links_of_def live_handles_def split: prod.splits if_splits)

lemma run_sched_inv:
  assumes "tbl_inv X st" "\<And>s. sched_kept s (snd (f s))"
  shows "tbl_inv X (snd (run_sched f st))" "g_dtapLogicLinksMap (snd (run_sched f st)) = g_dtapLogicLinksMap st"
  using tbl_inv_sched [OF assms(1) assms(2)] by (auto simp: run_sched_def split: prod.splits)

text \<open>The table exists exactly while both listeners are registered.\<close>

definition table_up :: "bool \<Rightarrow> chan_state \<Rightarrow> bool" where
  "table_up b st \<longleftrightarrow> (g_dtapLogicLinksMap st \<noteq> None) = b \<and> cmTransListener st = b \<and> cmLinkListener st = b"

lemma sched_kept_Init: "sched_kept s (snd (DTAP_SchedulerInit x y s))"
  by (simp add: DTAP_SchedulerInit_def sched_kept_def ids_Init credit_inv_Init)

lemma sched_kept_Deinit: "sched_kept s (snd (DTAP_SchedulerDeinit x y s))"
  by (simp add: DTAP_SchedulerDeinit_def sched_kept_def ids_Deinit credit_inv_Deinit)

lemma listeners_upd [simp]:
  "tbl_inv X (st\<lparr>cmTransListener := b\<rparr>) = tbl_inv X st" "tbl_inv X (st\<lparr>cmLinkListener := b\<rparr>) = tbl_inv X st"
  by (simp_all add: tbl_inv_def map_ok_def links_of_def live_handles_def)

lemma listeners_kept [simp]:
  "cmTransListener (DTAP_LogicLinkMapDeInit st) = cmTransListener st" "cmLinkListener (DTAP_LogicLinkMapDeInit st) = cmLinkListener st"
  "cmTransListener (snd (DTAP_LogicLinkMapInit st)) = cmTransListener st" "cmLinkListener (snd (DTAP_LogicLinkMapInit st)) = cmLinkListener st"
  "cmTransListener (snd (run_sched f st)) = cmTransListener st" "cmLinkListener (snd (run_sched f st)) = cmLinkListener st"
  by (simp_all add: DTAP_LogicLinkMapDeInit_def DTAP_LogicLinkMapInit_def run_sched_def split: prod.splits)

lemma ChannelDeInit_inv:
  assumes "tbl_inv X st"
  shows "tbl_inv {} (DTAP_ChannelDeInit ir st)" "table_up False (DTAP_ChannelDeInit ir st)" "running (cs_env (DTAP_ChannelDeInit ir st)) = {}"
proof -
  let ?st = "st\<lparr>cmLinkListener := False, cmTransListener := False\<rparr>"
  have "tbl_inv X ?st" using assms by simp
  from MapDeInit_inv [OF run_sched_inv(1) [OF this sched_kept_Deinit]]
  show "tbl_inv {} (DTAP_ChannelDeInit ir st)" "table_up False (DTAP_ChannelDeInit ir st)" "running (cs_env (DTAP_ChannelDeInit ir st)) = {}"
    by (simp_all add: DTAP_ChannelDeInit_def table_up_def)
qed

lemma ChannelInit_inv:
  assumes "tbl_inv X st" "table_up False st" "DTAP_ChannelInit ir st = (ret, st')"
  shows "tbl_inv {} st'" "table_up (ret = DTAP_SUCCESS) st'"
proof -
  obtain ret1 st1 where 1: "DTAP_LogicLinkMapInit st = (ret1, st1)" by fastforce
  obtain ret2 st2 where 2: "run_sched (DTAP_SchedulerInit (i_executed ir) (i_posted ir)) st1 = (ret2, st2)" by fastforce
  have n: "g_dtapLogicLinksMap st = None" "\<not> cmTransListener st" "\<not> cmLinkListener st" using assms(2) by (auto simp: table_up_def)
  have i1: "tbl_inv {} st1" "ret1 \<noteq> DTAP_SUCCESS \<Longrightarrow> g_dtapLogicLinksMap st1 = None" using MapInit_inv [OF assms(1) n(1) 1] by auto
  have i2: "tbl_inv {} st2" "g_dtapLogicLinksMap st2 = g_dtapLogicLinksMap st1"
    using run_sched_inv [OF i1(1), where f = "DTAP_SchedulerInit (i_executed ir) (i_posted ir)"] sched_kept_Init by (simp_all add: 2)
  have l1: "\<not> cmTransListener st1" "\<not> cmLinkListener st1" using listeners_kept(3,4) [of st] n by (simp_all add: 1)
  have l2: "\<not> cmTransListener st2" "\<not> cmLinkListener st2"
    using listeners_kept(5,6) [of "DTAP_SchedulerInit (i_executed ir) (i_posted ir)" st1] l1 by (simp_all add: 2)
  have s1: "g_dtapLogicLinksMap st1 \<noteq> None" if "ret1 = DTAP_SUCCESS"
    using 1 that by (auto simp: DTAP_LogicLinkMapInit_def split: prod.splits if_splits)
  have un: "tbl_inv {} (DTAP_LogicLinkMapDeInit (snd (run_sched (DTAP_SchedulerDeinit x y) t)))"
      "g_dtapLogicLinksMap (DTAP_LogicLinkMapDeInit (snd (run_sched (DTAP_SchedulerDeinit x y) t))) = None"
    if "tbl_inv {} t" for x y t
    using MapDeInit_inv(1,2) [OF run_sched_inv(1) [OF that sched_kept_Deinit]] by simp_all
  note cases = assms(3) [unfolded DTAP_ChannelInit_def 1 2 prod.case Let_def]
  show "tbl_inv {} st'" using cases i1(1) i2(1) un MapDeInit_inv(1) [OF i2(1)] by (auto split: if_splits)
  show "table_up (ret = DTAP_SUCCESS) st'"
    using cases i1(2) i2 s1 l1 l2 un MapDeInit_inv(2) [OF i2(1)] by (auto simp: table_up_def split: if_splits)
qed

end
