(* ===== verification/Dtap_System.thy ===== *)
theory Dtap_System
  imports Dtap_Core Dtap_Table
begin

text \<open>
  The data plane as a whole: every event that reaches \<^verbatim>\<open>dtap.c\<close> and \<^verbatim>\<open>dtap_channel.c\<close> from the upper
  layers, the connection manager, the controller and the timers is a step of \<open>dtap_event\<close>, and the invariant of the
  channel table holds on every run. The scheduler is the layer below of every transmission mode, so the locale
  \<open>tx_layer\<close> is interpreted on \<open>DTAP_SendFrame\<close>.
\<close>

section \<open>One step of one channel\<close>

interpretation below: tx_layer sched_kept "DTAP_SendFrame a" for a
proof
  show "sched_kept w (snd (DTAP_SendFrame a b w))" for b w
    using sched_kept_send [of w a b] by (auto simp: DTAP_SendFrame_def split: prod.splits)
qed (auto intro: sched_kept_trans)

definition chan_kept :: "DTAP_Channel \<Rightarrow> dp_env \<Rightarrow> DTAP_Channel \<Rightarrow> dp_env \<Rightarrow> bool" where
  "chan_kept c e c1 e1 \<longleftrightarrow> ch_addr c1 = ch_addr c \<and> ch_info c1 = ch_info c \<and> chan_inv c1 \<and>
     footprint sched_kept (chan_handles c) e (chan_handles c1) e1"

lemma fp_known [simp]: "footprint Q H (e\<lparr>e_known := k\<rparr>) H' e' = footprint Q H e H' e'"
  by (simp add: footprint_def)

lemma ParseFrame_reqSeq:
  assumes "DTAP_ParseFrame ty b (frame0 c0) = (DTAP_SUCCESS, fr)"
  shows "is_seq (frame_reqSeq fr) \<or> frame_reqSeq fr = DTAP_FRAME_SEQ_INIT"
proof -
  have q: "is_seq (w AND 0x3FFF)" "is_seq 0" for w :: u16w
    by (simp_all add: is_seq_def word_and_le1)
  have x: "DTAP_ParseExtension g = (r, g') \<Longrightarrow> fctx g' = fctx g \<and> reqSeq g' = reqSeq g" for g g' r
    by (auto simp: DTAP_ParseExtension_def Let_def split: option.splits if_splits prod.splits list.splits)
  have f: "DTAP_ParseEnhanceFrame g = (r, g') \<Longrightarrow> fctx g' = fctx g \<and> reqSeq g' = reqSeq g" for g g' r
    by (auto simp: DTAP_ParseEnhanceFrame_def Let_def split: option.splits if_splits prod.splits list.splits dest!: x)
  obtain c where c: "parseFrame c ((frame0 c0)\<lparr>fbuff := Some b, fheader := Some (dataOff b), fctx := c\<rparr>) = (DTAP_SUCCESS, fr)"
    using assms by (auto simp: DTAP_ParseFrame_def split: option.splits)
  show ?thesis
    using c q f by (cases c) (auto simp: frame_reqSeq_def frame0_def DTAP_ParseBasicFrame_def DTAP_ParseSimplexAggrFrame_def
        DTAP_ParseSimplexFragFrame_def DTAP_ParseDuplexAggrFrame_def DTAP_ParseDuplexFragFrame_def DTAP_ParseAckFrame_def
        split: option.splits if_splits prod.splits list.splits dest!: f)
qed

lemma RecvBasic_len:
  "DTAP_RecvBasicFrame ch fr cb bc e = (ret, bc', e') \<Longrightarrow> length (cacheRxBuffs bc) \<le> 65 \<Longrightarrow> length (cacheRxBuffs bc') \<le> 65"
  by (auto simp: DTAP_RecvBasicFrame_def Let_def split: option.splits if_splits prod.splits)

lemma reorder_timer_len:
  "StartReorderTimer st e = (st', e') \<Longrightarrow> s_rxList st' = s_rxList st" "StopReorderTimer st e = (st', e') \<Longrightarrow> s_rxList st' = s_rxList st"
  by (auto simp: StartReorderTimer_def StopReorderTimer_def Let_def split: if_splits prod.splits)

lemma Insert_len: "length (InsertStreamRxNode l n) \<le> Suc (length l)"
  by (induction l) (auto simp: InsertStreamRxNode_def)

lemma RecvStream_len:
  assumes "DTAP_RecvStreamFrame ch fr cb st (e :: dp_env) = (ret, st', e')" "length (s_rxList st) \<le> 257"
  shows "length (s_rxList st') \<le> 257"
proof -
  have ins: "length (InsertStreamRxNode l n) \<le> 257" if "length l \<le> 256" for l n using Insert_len [of l n] that by simp
  have rep: "length (s_rxList s) \<le> length (s_rxList st)" if "ReportExpectedStreamFrame ch (st\<lparr>s_recvCb := c, expectedSeq := q\<rparr>) x = (s, y)" for c q s and x y :: dp_env
    using quiet.fp_ReportExpected [OF that] by simp
  show ?thesis
    using assms unfolding DTAP_RecvStreamFrame_def Let_def
    by (auto split: option.splits if_splits prod.splits dest!: rep reorder_timer_len intro!: ins)
qed

lemma ReorderStream_len:
  assumes "DTAP_ReorderStreamFrameTask ch st (e :: dp_env) = (st', e')"
  shows "length (s_rxList st') \<le> length (s_rxList st)"
proof -
  obtain st1 e1 where 1: "report_overdue ch (st\<lparr>reorderTimerHandle := INVALID_TIMER_HANDLE\<rparr>) e = (st1, e1)" by fastforce
  obtain st2 e2 where 2: "ReportExpectedStreamFrame ch st1 e1 = (st2, e2)" by fastforce
  show ?thesis
    using assms quiet.fp_report_overdue [OF 1] quiet.fp_ReportExpected [OF 2] reorder_timer_len(1)
    by (fastforce simp: DTAP_ReorderStreamFrameTask_def 1 2)
qed

lemma SendStream_len:
  "DTAP_SendStreamFrame xmit ch p b st e = (ret, st', e') \<Longrightarrow> length (s_rxList st) \<le> k \<Longrightarrow> length (s_rxList st') \<le> k"
  by (auto simp: DTAP_SendStreamFrame_def DTAP_PackStreamFrame_def Let_def split: if_splits prod.splits option.splits)

text \<open>Every operation of a channel respects its neighbours.\<close>

lemma chan_kept_refl: "chan_inv c \<Longrightarrow> footprint sched_kept (chan_handles c) e (chan_handles c) e1 \<Longrightarrow> chan_kept c e c e1"
  by (simp add: chan_kept_def)

lemma kept_basic:
  "ch_attr c = AttrBasic bc \<Longrightarrow> chan_inv c \<Longrightarrow> length (cacheRxBuffs bc1) \<le> 65 \<Longrightarrow> footprint sched_kept {} e {} e1 \<Longrightarrow>
     chan_kept c e (c\<lparr>ch_attr := AttrBasic bc1\<rparr>) e1"
  by (simp add: chan_kept_def chan_inv_def chan_handles_def)

lemma kept_stream:
  "ch_attr c = AttrStream st \<Longrightarrow> chan_inv c \<Longrightarrow> length (s_rxList st1) \<le> 257 \<Longrightarrow> footprint sched_kept {} e {} e1 \<Longrightarrow>
     chan_kept c e (c\<lparr>ch_attr := AttrStream st1\<rparr>) e1"
  by (simp add: chan_kept_def chan_inv_def chan_handles_def)

lemma kept_reliable:
  assumes "ch_attr c = AttrReliable r" "chan_inv c" "rel_event xmit reg ch cb (r, e) (r1, e1)"
    "footprint sched_kept (rel_handles r) e (rel_handles r1) e1"
  shows "chan_kept c e (c\<lparr>ch_attr := AttrReliable r1\<rparr>) e1"
proof -
  obtain A where "tx_win A r" using assms(1,2) by (auto simp: chan_inv_def)
  then have "\<exists>A. tx_win A r1" using rel_event_window [OF assms(3)] by blast
  then show ?thesis using assms by (auto simp: chan_kept_def chan_inv_def chan_handles_def)
qed

lemma recvFrame_kept:
  assumes i: "chan_inv c" and q: "is_seq (frame_reqSeq fr) \<or> frame_reqSeq fr = DTAP_FRAME_SEQ_INIT"
    and k: "checkFrame md c fr" and r: "recvFrame md reg fr cb c e = (ret, c1, e1)"
  shows "chan_kept c e c1 e1"
proof (cases "ch_attr c")
  case AttrNone
  then show ?thesis using r i by (auto simp: recvFrame_def chan_kept_refl split: trans_mode.splits)
next
  case (AttrBasic bc)
  then have l: "length (cacheRxBuffs bc) \<le> 65" using i by (simp add: chan_inv_def)
  show ?thesis
    using r i AttrBasic RecvBasic_len [OF _ l] quiet.fp_RecvBasic
    by (auto simp: recvFrame_def chan_kept_refl split: trans_mode.splits prod.splits intro!: kept_basic)
next
  case (AttrStream st)
  then have l: "length (s_rxList st) \<le> 257" using i by (simp add: chan_inv_def)
  show ?thesis
    using r i AttrStream RecvStream_len [OF _ l] quiet.fp_RecvStream
    by (auto simp: recvFrame_def chan_kept_refl split: trans_mode.splits prod.splits intro!: kept_stream)
next
  case (AttrReliable x)
  show ?thesis
    using r i k AttrReliable below.fp_RecvEnhance Rel_Recv [OF q]
    by (auto simp: recvFrame_def checkFrame_def chan_kept_refl split: trans_mode.splits prod.splits
        intro!: kept_reliable [OF AttrReliable i Rel_Recv [OF q]])
qed

lemma sendFrame_kept:
  assumes i: "chan_inv c" and r: "sendFrame md p b c e = (ret, c1, e1)"
  shows "chan_kept c e c1 e1"
proof -
  have same: "c1 = c \<and> footprint sched_kept (chan_handles c) e (chan_handles c) e1" if "md = ModeBasic \<or> md = ModeTransparent"
    using that r below.fp_SendBasic below.fp_SendTransparent by (auto simp: sendFrame_def Let_def split: prod.splits)
  have none: "chan_kept c e c1 e1" if "ch_attr c = AttrNone \<or> (\<exists>bc. ch_attr c = AttrBasic bc)" "md = ModeStream \<or> md = ModeReliable"
    using that r i by (auto simp: sendFrame_def Let_def chan_kept_refl)
  have simple: "chan_kept c e c1 e1" if "md = ModeBasic \<or> md = ModeTransparent" using same [OF that] i by (simp add: chan_kept_refl)
  show ?thesis
  proof (cases "ch_attr c")
    case (AttrStream st)
    then have l: "length (s_rxList st) \<le> 257" using i by (simp add: chan_inv_def)
    show ?thesis
      using r i AttrStream l below.fp_SendStream SendStream_len [OF _ l] same
      by (cases md) (auto simp: sendFrame_def Let_def chan_kept_refl split: prod.splits intro!: kept_stream)
  next
    case (AttrReliable x)
    show ?thesis
      using r i AttrReliable below.fp_SendEnhance same
      by (cases md) (auto simp: sendFrame_def Let_def chan_kept_refl split: prod.splits intro!: kept_reliable [OF AttrReliable i] Rel_Send)
  qed (use none simple in \<open>cases md; blast\<close>)+
qed

lemma rel_timer_kept:
  assumes i: "chan_inv c" and r: "rel_timer cbk c e = (u, c1, e1)"
  shows "chan_kept c e c1 e1"
proof (cases "ch_attr c")
  case (AttrReliable x)
  show ?thesis
  proof (cases cbk)
    case RspTimerExpire
    then show ?thesis using r AttrReliable below.fp_RspExpire
      by (auto simp: rel_timer_def Let_def split: prod.splits intro!: kept_reliable [OF AttrReliable i Rel_Rsp])
  next
    case ReorderTimerExpire
    then show ?thesis using r AttrReliable below.fp_ReorderExpire
      by (auto simp: rel_timer_def Let_def split: prod.splits intro!: kept_reliable [OF AttrReliable i Rel_Reorder])
  next
    case RetransTimerExpire
    then show ?thesis using r AttrReliable below.fp_RetransExpire
      by (auto simp: rel_timer_def Let_def split: prod.splits intro!: kept_reliable [OF AttrReliable i Rel_Retrans])
  next
    case StreamReorderExpire
    then have "c1 = c" "e1 = e" using r AttrReliable by (cases c; auto simp: rel_timer_def)+
    then show ?thesis using i by (simp add: chan_kept_refl)
  qed
qed (use r i in \<open>auto simp: rel_timer_def chan_kept_refl\<close>)

section \<open>The step in its table\<close>

lemma upd_chan_split:
  assumes "c \<in> set l" "distinct (map ch_addr l)" "ch_addr c1 = ch_addr c"
  shows "\<exists>l1 l2. l = l1 @ c # l2 \<and> map (\<lambda>x. if ch_addr x = ch_addr c1 then c1 else x) l = l1 @ c1 # l2"
proof -
  obtain l1 l2 where l: "l = l1 @ c # l2" using assms(1) by (meson split_list)
  moreover have "map (\<lambda>x. if ch_addr x = ch_addr c1 then c1 else x) l1 = l1" "map (\<lambda>x. if ch_addr x = ch_addr c1 then c1 else x) l2 = l2"
    using assms(2,3) unfolding l by (auto intro!: map_idI intro: rev_image_eqI split: if_splits)
  ultimately show ?thesis using assms(3) by (intro exI [of _ l1] exI [of _ l2]) simp
qed

lemma run_channel_inv:
  assumes i: "tbl_inv {} (d_chan d)" and l: "alist_lookup (links_of (d_chan d)) lcid = Some l" "c \<in> set l"
    and f: "\<And>e ret c1 e1. chan_inv c \<Longrightarrow> f c e = (ret, c1, e1) \<Longrightarrow> chan_kept c e c1 e1"
  shows "tbl_inv {} (d_chan (snd (run_channel known f c d)))"
proof -
  let ?st = "d_chan d"
  define e where "e = (cs_env ?st)\<lparr>e_known := known (c_lcid (ch_info c)) (c_srcTcid (ch_info c))\<rparr>"
  obtain ret c1 e1 where r: "f c e = (ret, c1, e1)" by (metis prod_cases3)
  have ok: "link_ok (e_tx (cs_env ?st)) lcid l" using tbl_inv_lookup [OF i l(1)] by simp
  then have c: "chan_inv c" "c_lcid (ch_info c) = lcid" "distinct (map ch_addr l)" using l(2) by (auto simp: link_ok_def)
  have k: "ch_addr c1 = ch_addr c" "ch_info c1 = ch_info c" "chan_inv c1"
    "footprint sched_kept (chan_handles c) (cs_env ?st) (chan_handles c1) e1"
    using f [OF c(1) r] by (simp_all add: chan_kept_def e_def)
  let ?g = "map (\<lambda>x. if ch_addr x = ch_addr c1 then c1 else x)"
  obtain l1 l2 where s: "l = l1 @ c # l2" "?g l = l1 @ c1 # l2" using upd_chan_split [OF l(2) c(3) k(1)] by blast
  have fp: "footprint sched_kept (\<Union>c\<in>set l. chan_handles c) (cs_env ?st) (\<Union>c\<in>set (?g l). chan_handles c) e1"
    unfolding s(2) using fp_frame [OF k(4), of "\<Union>c\<in>set (l1 @ l2). chan_handles c"] by (simp add: s(1) Un_ac)
  have "link_ok (e_tx e1) lcid l" using k(4) by (intro link_ok_kept [OF ok]) (simp add: footprint_def sched_kept_def)
  then have ok1: "link_ok (e_tx e1) lcid (?g l)" unfolding s(2) unfolding s(1) using k by (auto simp: link_ok_def chan_known_def)
  have "tbl_inv {} ((upd_link lcid ?g ?st)\<lparr>cs_env := e1\<rparr>)"
    using l(2) fp ok1 by (intro tbl_inv_link [OF i l(1)]) auto
  then show ?thesis unfolding run_channel_def Let_def e_def [symmetric] r using k(2) c(2) by (simp add: store_channel_def)
qed

lemma search_link:
  assumes "map_ok st" "DTAP_ChannelSearch lcid tcid st = Some c"
  obtains l where "alist_lookup (links_of st) lcid = Some l" "c \<in> set l" "chan_match tcid c"
  using assms by (auto simp: DTAP_ChannelSearch_def LogicLinkFind_alist DTAP_ChannelFind_def split: option.splits dest!: find_first_SomeD)

lemma run_searched_inv:
  assumes "tbl_inv {} (d_chan d)" "DTAP_ChannelSearch lcid tcid (d_chan d) = Some c"
    and "\<And>e ret c1 e1. chan_inv c \<Longrightarrow> f c e = (ret, c1, e1) \<Longrightarrow> chan_kept c e c1 e1"
  shows "tbl_inv {} (d_chan (snd (run_channel known f c d)))"
proof -
  have "map_ok (d_chan d)" using assms(1) by (simp add: tbl_inv_def)
  from search_link [OF this assms(2)] show ?thesis using run_channel_inv [OF assms(1)] assms(3) by metis
qed

lemma DataSend_inv: "tbl_inv {} (d_chan d) \<Longrightarrow> tbl_inv {} (d_chan (snd (DTAP_DataSend known x d)))"
  by (auto simp: DTAP_DataSend_def split: option.splits intro!: run_searched_inv intro: sendFrame_kept)

lemma DataRecvFrame_inv:
  assumes "tbl_inv {} (d_chan d)" "DTAP_ChannelSearch lcid tcid (d_chan d) = Some c"
  shows "tbl_inv {} (d_chan (DTAP_DataRecvFrame known c md b cb d))"
proof -
  obtain ret fr where p: "DTAP_ParseFrame (unat (buff_data b ! 1 AND 0x0F)) b (frame0 CtxBasic) = (ret, fr)" by fastforce
  show ?thesis
    using assms ParseFrame_reqSeq [of "unat (buff_data b ! 1 AND 0x0F)" b CtxBasic fr] p
    by (auto simp: DTAP_DataRecvFrame_def Let_def intro!: run_searched_inv intro: recvFrame_kept)
qed

lemma DataRecv_inv:
  assumes "tbl_inv {} (d_chan d)"
  shows "tbl_inv {} (d_chan (DTAP_DataRecv known lcid b d))"
proof -
  have t: "chan_kept c e c (DTAP_TransparentTransFrame (ch_info c) x cb e)" if "chan_inv c" for c e x cb
    using that quiet.fp_TransFrame by (simp add: chan_kept_refl)
  show ?thesis
    using assms DataRecvFrame_inv [OF assms]
    by (auto simp: DTAP_DataRecv_def Let_def split: option.splits intro!: run_searched_inv t)
qed

lemma SetStatus_inv:
  assumes "tbl_inv {} (d_chan d)"
  shows "tbl_inv {} (d_chan (DTAP_ChannelSetStatus known lcid tcid result d))"
proof -
  have t: "chan_kept c e c1 e1" if "chan_inv c" "ch_attr c = AttrReliable r"
    "(case DTAP_SetTransChannelStatus (ch_info c) ok cb r e of (r1, e1) \<Rightarrow> ((), c\<lparr>ch_attr := AttrReliable r1\<rparr>, e1)) = (u, c1, e1)" for c e r ok cb u c1 e1
    using that quiet.fp_SetStatus by (auto split: prod.splits intro!: kept_reliable [OF that(2,1) Rel_Status])
  show ?thesis
    using assms by (auto simp: DTAP_ChannelSetStatus_def Let_def split: option.splits trans_mode.splits chan_attr.splits
        intro!: run_searched_inv t)
qed

lemma stream_timer_inv:
  assumes "tbl_inv {} (d_chan d)"
  shows "tbl_inv {} (d_chan (stream_timer known lcid tcid d))"
proof -
  have t: "chan_kept c e c1 e1" if i: "chan_inv c" "ch_attr c = AttrStream st"
    and step: "(case DTAP_ReorderStreamFrameTask (ch_info c) st e of (st1, e1) \<Rightarrow> ((), c\<lparr>ch_attr := AttrStream st1\<rparr>, e1)) = (u, c1, e1)" for c e st u c1 e1
  proof -
    obtain st1 where s: "DTAP_ReorderStreamFrameTask (ch_info c) st e = (st1, e1)" "c1 = c\<lparr>ch_attr := AttrStream st1\<rparr>"
      using step by (auto split: prod.splits)
    have "length (s_rxList st1) \<le> 257" using ReorderStream_len [OF s(1)] i by (simp add: chan_inv_def)
    then show ?thesis unfolding s(2) using i quiet.fp_ReorderStreamTask [OF s(1)] by (intro kept_stream)
  qed
  show ?thesis
    using assms by (auto simp: stream_timer_def split: option.splits chan_attr.splits intro!: run_searched_inv t)
qed

section \<open>Events\<close>

definition channels :: "chan_state \<Rightarrow> DTAP_Channel set" where
  "channels st = (\<Union>(_, l)\<in>set (links_of st). set l)"

text \<open>The data plane changes on these events only. A timer of the reliable mode runs on the channel that holds its handle; the
  connection manager calls the listeners that are registered.\<close>

inductive dtap_event :: "(nat \<Rightarrow> nat option) \<Rightarrow> dtap \<Rightarrow> dtap \<Rightarrow> bool" for collab where
  Dp_Send: "dtap_event collab d (snd (DTAP_DataSend known x d))"
| Dp_Signaling: "dtap_event collab d (snd (DTAP_CMSignalingDataSendCbk known p tcid lcid b d))"
| Dp_Recv: "dtap_event collab d (DTAP_DataRecv known lcid b d)"
| Dp_SetStatus: "dtap_event collab d (DTAP_ChannelSetStatus known lcid tcid result d)"
| Dp_RelTimer: "(h, period, cbk) \<in> set (armed (e_tim (cs_env (d_chan d)))) \<Longrightarrow> cbk \<noteq> StreamReorderExpire \<Longrightarrow>
    c \<in> channels (d_chan d) \<Longrightarrow> h \<in> chan_handles c \<Longrightarrow> dtap_event collab d (snd (run_channel known (rel_timer cbk) c d))"
| Dp_StreamTimer: "dtap_event collab d (stream_timer known lcid tcid d)"
| Dp_StateChange: "cmTransListener (d_chan d) \<Longrightarrow> (\<And>v i p. vec = Some v \<Longrightarrow> SDF_VectorElementAt (Some v) i = Some p \<Longrightarrow> param_ok p) \<Longrightarrow>
    dtap_event collab d (d\<lparr>d_chan := DTAP_ChannelStateChangeCbk result vec (d_chan d)\<rparr>)"
| Dp_LinkState: "cmLinkListener (d_chan d) \<Longrightarrow>
    dtap_event collab d (d\<lparr>d_chan := DTAP_LogicLinkStateChangeCbk preAssign linkNum param (d_chan d)\<rparr>)"
| Dp_Controller: "sched_event collab (e_tx (cs_env (d_chan d))) s \<Longrightarrow>
    dtap_event collab d (d\<lparr>d_chan := (d_chan d)\<lparr>cs_env := (cs_env (d_chan d))\<lparr>e_tx := s\<rparr>\<rparr>\<rparr>)"
| Dp_Register: "dtap_event collab d (snd (DTAP_RegisterDataRecvCb tcid cb d))"
| Dp_Unregister: "dtap_event collab d (snd (DTAP_UnregisterDataRecvCb tcid d))"
| Dp_RegisterProto: "dtap_event collab d (snd (DTAP_RegisterProtoRecvCbk p cb d))"
| Dp_UnregisterProto: "dtap_event collab d (snd (DTAP_UnregisterProtoRecvCbk p d))"
| Dp_RegisterSend: "dtap_event collab d (DTAP_RegisterDataSendCbks present d)"
| Dp_UnregisterSend: "dtap_event collab d (DTAP_UnRegisterDataSendCbks d)"
| Dp_Init: "dtap_event collab d (snd (DTAP_Init sig cmRecv ir d))"
| Dp_DeInit: "dtap_event collab d (DTAP_DeInit ir d)"

inductive_cases dtap_eventE [consumes 1]: "dtap_event collab d d'"

definition dtap_inv :: "dtap \<Rightarrow> bool" where
  "dtap_inv d \<longleftrightarrow> tbl_inv {} (d_chan d) \<and> table_up (g_dtapIsInited d) (d_chan d) \<and> cmSignaling d = g_dtapIsInited d \<and>
     length (g_dtapProtoRecvCbks d) = DTAP_PI_MAX \<and> distinct (map fst (g_dtapRecvCbks d)) \<and> length (d_modes d) = CM_TRANS_MODE_MAX \<and>
     (g_dtapIsInited d \<longrightarrow> d_modes d = map Some [ModeBasic, ModeTransparent, ModeStream, ModeReliable])"

section \<open>Nothing else changes\<close>

lemma table_up_env [simp]: "table_up b (st\<lparr>cs_env := e\<rparr>) = table_up b st"
  by (simp add: table_up_def)

lemma table_up_link [simp]: "table_up b (upd_link lcid f st) = table_up b st" "table_up b (erase_link lcid st) = table_up b st"
  by (auto simp: table_up_def upd_link_def erase_link_def map_update_def SDF_MapErase_def split: option.splits prod.splits)

lemma table_up_ensure: "ensure_link lcid st = (ok, st1) \<Longrightarrow> table_up b st1 = table_up b st"
  by (auto simp: ensure_link_def DTAP_LogicLinkCreate_def SDF_MapMoveInsert_def table_up_def split: if_splits option.splits prod.splits)

lemma table_up_drop [simp]: "table_up b (drop_channel lcid tcid st) = table_up b st"
  by (simp add: drop_channel_def Let_def split: option.splits)

lemma table_up_Add [simp]: "table_up b (DTAP_ChannelAdd param st) = table_up b st"
  by (auto simp: DTAP_ChannelAdd_def Let_def split: prod.splits option.splits dest: table_up_ensure)

lemma table_up_Del [simp]: "table_up b (DTAP_ChannelDel param st) = table_up b st"
  by (simp add: DTAP_ChannelDel_def Let_def)

lemma table_up_StateChange [simp]: "table_up b (DTAP_ChannelStateChangeCbk result vec st) = table_up b st"
proof -
  have op: "table_up b (DTAP_ChannelsOperate v opt st) = table_up b st" if "\<And>p st. table_up b (opt p st) = table_up b st" for v opt
  proof -
    have "table_up b (foldl (\<lambda>st i. case SDF_VectorElementAt (Some v) i of None \<Rightarrow> st | Some p \<Rightarrow> opt p st) st is) = table_up b st" for "is" st
      using that by (induction "is" arbitrary: st) (auto split: option.splits)
    then show ?thesis by (simp only: DTAP_ChannelsOperate_def)
  qed
  show ?thesis by (simp add: DTAP_ChannelStateChangeCbk_def op split: option.splits)
qed

lemma table_up_LinkState [simp]: "table_up b (DTAP_LogicLinkStateChangeCbk preAssign linkNum param st) = table_up b st"
  by (auto simp: DTAP_LogicLinkStateChangeCbk_def DTAP_LinkCollabProc_def Let_def split: option.splits prod.splits)

text \<open>What a step of one channel leaves alone.\<close>

definition same_shell :: "dtap \<Rightarrow> dtap \<Rightarrow> bool" where
  "same_shell d d' \<longleftrightarrow> table_up (g_dtapIsInited d) (d_chan d) = table_up (g_dtapIsInited d) (d_chan d') \<and> (\<exists>st. d' = d\<lparr>d_chan := st\<rparr>)"

lemma shell_refl [simp]: "same_shell d d"
  by (auto simp: same_shell_def intro: exI [of _ "d_chan d"])

lemma shell_run [simp]: "same_shell d (snd (run_channel known f c d))"
  by (auto simp: same_shell_def run_channel_def Let_def store_channel_def split: prod.splits)

lemma shell_step: "dtap_inv d \<Longrightarrow> same_shell d d' \<Longrightarrow> tbl_inv {} (d_chan d') \<Longrightarrow> dtap_inv d'"
  by (auto simp: dtap_inv_def same_shell_def)

lemma shell_ops:
  "same_shell d (snd (DTAP_DataSend known x d))" "same_shell d (DTAP_DataRecv known lcid b d)"
  "same_shell d (DTAP_ChannelSetStatus known lcid tcid result d)" "same_shell d (stream_timer known lcid tcid d)"
  by (auto simp: DTAP_DataSend_def DTAP_DataRecv_def DTAP_DataRecvFrame_def DTAP_ChannelSetStatus_def stream_timer_def Let_def
      split: option.splits prod.splits trans_mode.splits chan_attr.splits)

section \<open>The invariant holds on every run\<close>

lemma register_modes_all: "length tab = 4 \<Longrightarrow> register_modes tab = map Some [ModeBasic, ModeTransparent, ModeStream, ModeReliable]"
  by (auto simp: register_modes_def DTAP_RegisterTransMode_def length_Suc_conv numeral_eq_Suc)

lemma upd_first_keys: "map fst (upd_first (\<lambda>(t, _). t = k) (\<lambda>(t, _). (t, v)) l) = map fst l"
  by (induction l) auto

lemma remove_first_keys: "distinct (map fst l) \<Longrightarrow> distinct (map fst (remove_first p l))"
proof -
  have "set (remove_first p l) \<subseteq> set l" for l :: "('a \<times> 'b) list" by (induction l) auto
  then have s: "fst ` set (remove_first p l) \<subseteq> fst ` set l" for l :: "('a \<times> 'b) list" by blast
  show "distinct (map fst l) \<Longrightarrow> distinct (map fst (remove_first p l))" using s by (induction l) auto
qed

lemma AddEntry_inv: "dtap_inv d \<Longrightarrow> dtap_inv (snd (DTAP_AddDataRecvCbkEntry tcid cb d))"
proof -
  assume i: "dtap_inv d"
  obtain ok m where a: "SDF_MemAlloc (e_mem (cs_env (d_chan d))) = (ok, m)" by fastforce
  have u: "dtap_inv (upd_mem m d)" "g_dtapRecvCbks (upd_mem m d) = g_dtapRecvCbks d"
    using i by (simp_all add: dtap_inv_def upd_mem_def tbl_inv_mem)
  show ?thesis
  proof (cases "find_first (\<lambda>(t, _). t = tcid) (g_dtapRecvCbks d)")
    case None
    then have "dtap_inv ((upd_mem m d)\<lparr>g_dtapRecvCbks := (tcid, cb) # g_dtapRecvCbks d\<rparr>)"
      using u by (auto simp: dtap_inv_def find_first_None_iff)
    then show ?thesis using u None by (simp add: DTAP_AddDataRecvCbkEntry_def a Let_def)
  next
    case (Some x)
    then show ?thesis using i by (simp add: DTAP_AddDataRecvCbkEntry_def dtap_inv_def upd_first_keys)
  qed
qed

lemma Register_inv: "dtap_inv d \<Longrightarrow> dtap_inv (snd (DTAP_RegisterDataRecvCb tcid cb d))"
  by (simp add: DTAP_RegisterDataRecvCb_def DTAP_RegisterDataRecvCbInner_def AddEntry_inv split: option.splits)

lemma Unregister_inv: "dtap_inv d \<Longrightarrow> dtap_inv (snd (DTAP_UnregisterDataRecvCb tcid d))"
  by (auto simp: DTAP_UnregisterDataRecvCb_def DTAP_RegisterDataRecvCbInner_def DTAP_DelDataRecvCbkEntry_def dtap_inv_def remove_first_keys)

lemma Proto_inv:
  "dtap_inv d \<Longrightarrow> dtap_inv (snd (DTAP_RegisterProtoRecvCbk p cb d))" "dtap_inv d \<Longrightarrow> dtap_inv (snd (DTAP_UnregisterProtoRecvCbk p d))"
  by (auto simp: DTAP_RegisterProtoRecvCbk_def DTAP_UnregisterProtoRecvCbk_def dtap_inv_def)

lemma SendCbks_inv: "dtap_inv d \<Longrightarrow> dtap_inv (DTAP_RegisterDataSendCbks b d)" "dtap_inv d \<Longrightarrow> dtap_inv (DTAP_UnRegisterDataSendCbks d)"
  by (auto simp: DTAP_RegisterDataSendCbks_def DTAP_UnRegisterDataSendCbks_def dtap_inv_def)

lemma Init_inv:
  assumes i: "dtap_inv d"
  shows "dtap_inv (snd (DTAP_Init sig cmRecv ir d))"
proof (cases "g_dtapIsInited d")
  case False
  define d2 where "d2 = d\<lparr>g_dtapIsInited := True, g_dtapRecvCbks := [], d_modes := register_modes (d_modes d)\<rparr>"
  have m: "length (d_modes d) = 4" using i by (simp add: dtap_inv_def)
  have 2: "d2 = (DTAP_DataRecvCbksInit (d\<lparr>g_dtapIsInited := True\<rparr>))\<lparr>d_modes := register_modes (d_modes (DTAP_DataRecvCbksInit (d\<lparr>g_dtapIsInited := True\<rparr>)))\<rparr>"
    by (simp add: d2_def DTAP_DataRecvCbksInit_def)
  obtain ret d3 where r: "DTAP_RegisterDataRecvCb TCID_SLE_CMTC (Some cmRecv) (d2\<lparr>cmSignaling := True\<rparr>) = (ret, d3)" by fastforce
  obtain ok m where a: "SDF_MemAlloc (e_mem (cs_env (d_chan d))) = (ok, m)" by fastforce
  define cbs where "cbs = (if ok then [(TCID_SLE_CMTC, cmRecv)] else [])"
  have d3: "d3 = d2\<lparr>cmSignaling := True, g_dtapRecvCbks := cbs, d_chan := (d_chan d)\<lparr>cs_env := (cs_env (d_chan d))\<lparr>e_mem := m\<rparr>\<rparr>\<rparr>"
    "distinct (map fst cbs)"
    using r by (auto simp: DTAP_RegisterDataRecvCb_def DTAP_RegisterDataRecvCbInner_def DTAP_AddDataRecvCbkEntry_def upd_mem_def Let_def
        d2_def a cbs_def split: if_splits)
  let ?st = "(d_chan d)\<lparr>cs_env := (cs_env (d_chan d))\<lparr>e_mem := m\<rparr>\<rparr>"
  have t: "tbl_inv {} ?st" "table_up False ?st" using i False by (simp_all add: dtap_inv_def tbl_inv_mem)
  obtain ret2 st where c: "DTAP_ChannelInit ir ?st = (ret2, st)" by fastforce
  note C = ChannelInit_inv [OF t c]
  have c3: "DTAP_ChannelInit ir (d_chan d3) = (ret2, st)" using c d3(1) by simp
  show ?thesis
    unfolding DTAP_Init_def Let_def 2 [symmetric] r prod.case c3
    using i False C t d3(2) m register_modes_all [OF m] unfolding d3(1)
    by (auto simp: dtap_inv_def d2_def DTAP_ClearDataRecvCbks_def)
qed (use i in \<open>simp add: DTAP_Init_def\<close>)

lemma DeInit_inv: "dtap_inv d \<Longrightarrow> dtap_inv (DTAP_DeInit ir d)"
  using ChannelDeInit_inv(1,2) [of "{}" "d_chan d" ir] by (auto simp: dtap_inv_def DTAP_DeInit_def DTAP_ClearDataRecvCbks_def Let_def)

lemma dtap_event_inv:
  assumes "dtap_event collab d d'" "dtap_inv d"
  shows "dtap_inv d'"
proof -
  have t: "tbl_inv {} (d_chan d)" using assms(2) by (simp add: dtap_inv_def)
  note step = shell_step [OF assms(2)]
  show ?thesis using assms(1)
  proof cases
    case (Dp_RelTimer h period cbk c known)
    then obtain lcid l where "(lcid, l) \<in> set (links_of (d_chan d))" "c \<in> set l" by (auto simp: channels_def)
    then have "alist_lookup (links_of (d_chan d)) lcid = Some l" "c \<in> set l" using t by (auto simp: tbl_inv_def intro: alist_lookup_set)
    from run_channel_inv [OF t this, of "rel_timer cbk" known] rel_timer_kept [of c cbk]
    show ?thesis using Dp_RelTimer step [OF shell_run, of known "rel_timer cbk" c] by blast
  next
    case (Dp_StateChange vec result)
    then show ?thesis using assms(2) StateChange_inv [OF t, of vec] by (simp add: dtap_inv_def)
  next
    case (Dp_Controller s)
    then show ?thesis using assms(2) tbl_inv_sched [OF t sched_kept_event] by (simp add: dtap_inv_def)
  next
    case Dp_Send
    then show ?thesis using step [OF shell_ops(1) DataSend_inv [OF t]] by simp
  next
    case Dp_Signaling
    then show ?thesis using step [OF shell_ops(1) DataSend_inv [OF t]] by (simp add: DTAP_CMSignalingDataSendCbk_def)
  next
    case Dp_Recv
    then show ?thesis using step [OF shell_ops(2) DataRecv_inv [OF t]] by simp
  next
    case Dp_SetStatus
    then show ?thesis using step [OF shell_ops(3) SetStatus_inv [OF t]] by simp
  next
    case Dp_StreamTimer
    then show ?thesis using step [OF shell_ops(4) stream_timer_inv [OF t]] by simp
  next
    case Dp_LinkState
    then show ?thesis using assms(2) LinkState_inv [OF t] by (simp add: dtap_inv_def)
  qed (simp_all add: assms(2) Register_inv Unregister_inv Proto_inv SendCbks_inv Init_inv DeInit_inv)
qed

section \<open>Runs from the start\<close>

text \<open>The state of the process before \<open>DTAP_Init\<close>; the scripts of the allocators, the timers, the clocks and the controller are free.\<close>

definition dtap_boot :: "mem \<Rightarrow> bool list \<Rightarrow> nat list \<Rightarrow> sched \<Rightarrow> dtap" where
  "dtap_boot m ts ck s = \<lparr>g_dtapIsInited = False, g_dtapRecvCbks = [], g_dtapProtoRecvCbks = replicate DTAP_PI_MAX None,
     g_dtapDataSendCbks = False, d_modes = replicate CM_TRANS_MODE_MAX None, cmSignaling = False,
     d_chan = \<lparr>g_dtapLogicLinksMap = None,
       cs_env = \<lparr>e_mem = m, e_tim = \<lparr>tscript = ts, tnext = 0, armed = []\<rparr>, e_clock = ck, e_dl = [], e_known = False, e_release = [],
         e_status = [], e_tx = s\<rparr>,
       cmTransListener = False, cmLinkListener = False\<rparr>\<rparr>"

definition sched_start :: "mem \<Rightarrow> bool list \<Rightarrow> nat list \<Rightarrow> nat \<Rightarrow> sched" where
  "sched_start m dli ck len = sched_boot\<lparr>s_mem := m, dliScript := dli, clockScript := ck, s_acbLen := len\<rparr>"

lemma dtap_boot_inv: "dtap_inv (dtap_boot m ts ck (sched_start m' dli ck' len))"
  by (simp add: dtap_inv_def dtap_boot_def sched_start_def tbl_inv_def table_up_def map_ok_def links_of_def handles_ok_def running_def
      credit_inv_def byte_fields_def sched_boot_def)

lemma dtap_run_inv: "(dtap_event collab)\<^sup>*\<^sup>* (dtap_boot m ts ck (sched_start m' dli ck' len)) d \<Longrightarrow> dtap_inv d"
  by (induction rule: rtranclp_induct) (auto intro: dtap_boot_inv dtap_event_inv)

end
