(* ===== verification/Dtap_Runs.thy ===== *)
theory Dtap_Runs
  imports Dtap_System
begin

text \<open>
  What holds of the data plane on every run from the start of the process: the table of channels is well formed, no
  timer outlives its channel, the table is a map from link and channel identifiers to channels.
\<close>

section \<open>A run for the witnesses\<close>

definition demo_cb :: recv_cb where
  "demo_cb dl info b = DTAP_SUCCESS"

definition demo_results :: init_results where
  "demo_results = \<lparr>i_executed = True, i_posted = True, i_deexecuted = True, i_deposted = True, i_regTrans = DTAP_SUCCESS,
     i_regLink = DTAP_SUCCESS\<rparr>"

definition demo_param :: CM_TransChan where
  "demo_param = \<lparr>p_castMode = 0, p_lcid = 1, p_srcTcid = 0x40, p_dstTcid = 0x41, p_transMode = 3, p_mtu = 100, p_mps = 20,
     p_reliableMode = \<lparr>rc_reorderTimeout = 0, rc_crcInit = 0, rc_retransTimeout = 0, rc_rspTimeout = 0, rc_txWindow = 4, rc_maxTxThreshold = 3\<rparr>,
     p_streamMode = \<lparr>sc_reorderTimeout = 0, sc_crcInit = 0, sc_flushTimeout = 0\<rparr>\<rparr>"

definition demo_vec :: "(CM_TransChan, unit) SDF_Vector" where
  "demo_vec = \<lparr>buf = [Some demo_param], vsize = 1, capacity = 1, vtraits = \<lparr>dtor = None, cmptor = None\<rparr>\<rparr>"

definition demo_start :: dtap where
  "demo_start = dtap_boot [] [] [] (sched_start [] [] [] 100)"

definition demo_ready :: dtap where
  "demo_ready = snd (DTAP_Init DTAP_SUCCESS demo_cb demo_results demo_start)"

definition demo_up :: dtap where
  "demo_up = demo_ready\<lparr>d_chan := DTAP_ChannelStateChangeCbk CM_TRANS_CHANNEL_STATE_ACTIVATED (Some demo_vec) (d_chan demo_ready)\<rparr>"

lemmas demo_defs = demo_results_def demo_param_def demo_vec_def demo_start_def dtap_boot_def sched_start_def sched_boot_def

lemma demo_ready_eq:
  "d_chan demo_ready = \<lparr>g_dtapLogicLinksMap = Some \<lparr>keyTraits = \<lparr>dtor = Some (\<lambda>_ e. e), cmptor = Some DTAP_LogicLinkCompare\<rparr>,
       valTraits = \<lparr>dtor = Some DTAP_LogicLinksDtor, cmptor = None\<rparr>, entry = []\<rparr>,
     cs_env = (cs_env (d_chan demo_start))\<lparr>e_tx := DTAP_SchedulerInitInner (sched_start [] [] [] 100)\<rparr>, cmTransListener = True, cmLinkListener = True\<rparr>"
  by (simp add: demo_ready_def DTAP_Init_def DTAP_DataRecvCbksInit_def Let_def DTAP_RegisterDataRecvCb_def DTAP_RegisterDataRecvCbInner_def
      DTAP_AddDataRecvCbkEntry_def upd_mem_def DTAP_ChannelInit_def DTAP_LogicLinkMapInit_def SDF_MapCtor_def run_sched_def
      DTAP_SchedulerInit_def demo_results_def demo_start_def dtap_boot_def)

text \<open>The rules that evaluate the activation of a channel.\<close>

lemmas demo_eval = demo_up_def demo_ready_eq DTAP_ChannelStateChangeCbk_def DTAP_ChannelsOperate_def demo_vec_def SDF_VectorElementAt_def
  DTAP_ChannelAdd_def ensure_link_def DTAP_LogicLinkFind_def SDF_MapFind_def DTAP_LogicLinkCreate_def SDF_MapMoveInsert_def
  Let_def drop_channel_def DTAP_ChannelSearch_def key_eq_def DTAP_LogicLinkCompare_def DTAP_ChannelFind_def DTAP_ChannelCreate_def
  create_attr_def DTAP_ReliableChannelCreate_def DTAP_TransStartTimer_def CP_TimerAdd_def upd_link_def map_update_def links_of_def
  DTAP_SchedulerInitInner_def demo_defs upd_chan_def

lemma demo_run: "(dtap_event (\<lambda>_. None))\<^sup>*\<^sup>* (dtap_boot [] [] [] (sched_start [] [] [] 100)) demo_up"
proof -
  have "dtap_event (\<lambda>_. None) (dtap_boot [] [] [] (sched_start [] [] [] 100)) demo_ready"
    unfolding demo_ready_def demo_start_def by (rule Dp_Init)
  moreover have "dtap_event (\<lambda>_. None) demo_ready demo_up"
    unfolding demo_up_def
  proof (rule Dp_StateChange)
    show "cmTransListener (d_chan demo_ready)" by (simp add: demo_ready_eq)
    show "param_ok p" if "Some demo_vec = Some v" "SDF_VectorElementAt (Some v) i = Some p" for v i p
      using that by (cases i) (auto simp: demo_vec_def SDF_VectorElementAt_def param_ok_def demo_param_def split: if_splits)
  qed
  ultimately show ?thesis by (auto intro: rtranclp.rtrancl_into_rtrancl)
qed

lemma demo_channel: "map (\<lambda>(k, l). (k, map ch_addr l)) (links_of (d_chan demo_up)) = [(1, [0])]"
  by (simp add: demo_eval)

section \<open>Well-formed states\<close>

text \<open>Channels of different links have different addresses, as the scheduler has their link identifiers.\<close>

lemma link_ok_addr: "link_ok s lcid l \<Longrightarrow> a \<in> ch_addr ` set l \<Longrightarrow> sc_lcid (chanStore s a) = lcid"
  by (auto simp: link_ok_def chan_known_def chan_ids_def)

lemma links_addr_distinct:
  assumes "distinct (map fst L)" "\<And>lcid l. (lcid, l) \<in> set L \<Longrightarrow> link_ok s lcid l"
  shows "distinct (map ch_addr (concat (map snd L)))"
  using assms
proof (induction L)
  case (Cons x L)
  obtain k l where x: "x = (k, l)" by fastforce
  have l: "link_ok s k l" using Cons.prems(2) x by simp
  have "a \<notin> ch_addr ` set (concat (map snd L))" if "a \<in> ch_addr ` set l" for a
  proof
    assume "a \<in> ch_addr ` set (concat (map snd L))"
    then obtain k' l' where b: "(k', l') \<in> set L" "a \<in> ch_addr ` set l'" by (auto simp: image_iff) (metis surjective_pairing)
    then have "k' = k" using link_ok_addr [OF l that] link_ok_addr [of s k' l' a] Cons.prems(2) by simp
    then show False using b(1) Cons.prems(1) x by (auto simp: rev_image_eqI)
  qed
  moreover have "distinct (map ch_addr l)" using l by (simp add: link_ok_def)
  ultimately show ?case using Cons x by auto
qed simp

text \<open>(C9) Whatever the upper layers, the connection manager, the controller and the timers do, and whichever allocations fail:
  the channel table and its two listeners exist exactly while the module is initialised, and then all four modes are
  registered; no link is listed twice or without a channel; and every channel is listed under its own link, has the
  attributes that its mode works on, and keeps the bounds of its mode: at most 65 frames in the cache of a basic channel,
  at most 257 in the reorder list of a stream channel, at most as many frames in the transmission window of a
  reliable channel as it was given. No two channels share an address, and the scheduler knows each of them by the same
  identifiers and priority.\<close>
theorem dtap_state_well_formed:
  assumes "(dtap_event collab)\<^sup>*\<^sup>* (dtap_boot m ts ck (sched_start m' dli ck' len)) d"
  shows "let st = d_chan d; s = e_tx (cs_env st) in
    ((g_dtapLogicLinksMap st \<noteq> None) = g_dtapIsInited d \<and> cmTransListener st = g_dtapIsInited d \<and> cmLinkListener st = g_dtapIsInited d) \<and>
    (g_dtapIsInited d \<longrightarrow> (\<forall>md. DTAP_GetTransMode (getModeType md) (d_modes d) = Some md)) \<and>
    distinct (map fst (links_of st)) \<and>
    (\<forall>(lcid, l)\<in>set (links_of st). l \<noteq> [] \<and> (\<forall>c\<in>set l.
       c_lcid (ch_info c) = lcid \<and>
       (case ch_attr c of
          AttrBasic bc \<Rightarrow> c_mode (ch_info c) = CM_TRANS_MODE_BASIC \<and> length (cacheRxBuffs bc) \<le> 65
        | AttrStream x \<Rightarrow> c_mode (ch_info c) = CM_TRANS_MODE_STREAM \<and> length (s_rxList x) \<le> 257
        | AttrReliable r \<Rightarrow> c_mode (ch_info c) = CM_TRANS_MODE_RELIABLE \<and> length (txList (txWindow r)) \<le> tx_size (txWindow r) \<and>
            tx_size (txWindow r) \<le> 255
        | AttrNone \<Rightarrow> c_mode (ch_info c) \<notin> {CM_TRANS_MODE_BASIC, CM_TRANS_MODE_STREAM, CM_TRANS_MODE_RELIABLE}) \<and>
       sc_lcid (chanStore s (ch_addr c)) = lcid \<and> sc_srcTcid (chanStore s (ch_addr c)) = c_srcTcid (ch_info c) \<and>
       sc_priority (chanStore s (ch_addr c)) = c_priority (ch_info c))) \<and>
    distinct (map ch_addr (concat (map snd (links_of st))))"
proof -
  have i: "dtap_inv d" by (rule dtap_run_inv [OF assms])
  let ?st = "d_chan d"
  have t: "tbl_inv {} ?st" and up: "table_up (g_dtapIsInited d) ?st" using i by (simp_all add: dtap_inv_def)
  have md: "g_dtapIsInited d \<longrightarrow> (\<forall>md. DTAP_GetTransMode (getModeType md) (d_modes d) = Some md)"
    using i by (auto simp: dtap_inv_def DTAP_GetTransMode_def numeral_eq_Suc split: trans_mode.splits) (case_tac md; simp)+
  have ok: "link_ok (e_tx (cs_env ?st)) lcid l \<and> l \<noteq> []" if "(lcid, l) \<in> set (links_of ?st)" for lcid l
    using t that by (auto simp: tbl_inv_def)
  have d: "distinct (map fst (links_of ?st))" using t by (simp add: tbl_inv_def)
  have addr: "distinct (map ch_addr (concat (map snd (links_of ?st))))"
    by (rule links_addr_distinct [OF d]) (use ok in blast)
  have links: "\<forall>(lcid, l)\<in>set (links_of ?st). l \<noteq> [] \<and> (\<forall>c\<in>set l.
       c_lcid (ch_info c) = lcid \<and>
       (case ch_attr c of
          AttrBasic bc \<Rightarrow> c_mode (ch_info c) = CM_TRANS_MODE_BASIC \<and> length (cacheRxBuffs bc) \<le> 65
        | AttrStream x \<Rightarrow> c_mode (ch_info c) = CM_TRANS_MODE_STREAM \<and> length (s_rxList x) \<le> 257
        | AttrReliable r \<Rightarrow> c_mode (ch_info c) = CM_TRANS_MODE_RELIABLE \<and> length (txList (txWindow r)) \<le> tx_size (txWindow r) \<and>
            tx_size (txWindow r) \<le> 255
        | AttrNone \<Rightarrow> c_mode (ch_info c) \<notin> {CM_TRANS_MODE_BASIC, CM_TRANS_MODE_STREAM, CM_TRANS_MODE_RELIABLE}) \<and>
       sc_lcid (chanStore (e_tx (cs_env ?st)) (ch_addr c)) = lcid \<and> sc_srcTcid (chanStore (e_tx (cs_env ?st)) (ch_addr c)) = c_srcTcid (ch_info c) \<and>
       sc_priority (chanStore (e_tx (cs_env ?st)) (ch_addr c)) = c_priority (ch_info c))"
    using ok by (fastforce simp: link_ok_def chan_inv_def chan_known_def chan_ids_def tx_win_def split: chan_attr.splits)
  show ?thesis unfolding Let_def using up md d links addr by (auto simp: table_up_def)
qed

theorem dtap_state_well_formed_witness:
  "\<exists>c. links_of (d_chan demo_up) = [(1, [c])] \<and> c_lcid (ch_info c) = 1 \<and>
     sc_lcid (chanStore (e_tx (cs_env (d_chan demo_up))) (ch_addr c)) = 1"
proof -
  obtain c where c: "links_of (d_chan demo_up) = [(1, [c])]" using demo_channel by auto
  show ?thesis using dtap_state_well_formed [OF demo_run] unfolding Let_def c by (auto simp: c)
qed

section \<open>Timers\<close>

lemma running_armed: "h \<in> running e \<longleftrightarrow> (\<exists>t cbk. (h, t, cbk) \<in> set (armed (e_tim e)) \<and> cbk \<noteq> StreamReorderExpire)"
  by (force simp: running_def)

lemma live_reliable:
  "h \<in> live_handles st \<longleftrightarrow> (\<exists>(lcid, l)\<in>set (links_of st). \<exists>c\<in>set l. \<exists>r. ch_attr c = AttrReliable r \<and> h \<in> {reorderTimer r, retransTimer r, rspTimer r})"
  by (fastforce simp: live_handles_def chan_handles_def rel_handles_def split: chan_attr.splits)

text \<open>(C10) The timers of the reliable mode are periodic and carry a pointer to their channel. On every run, each of them that
  is running is one of the three timers of a channel in the table, so none outlives its channel: not when the connection
  manager releases or replaces the channel, and not when the creation of a channel fails half-way. After \<open>DTAP_DeInit\<close>
  none is left running.\<close>
theorem no_timer_without_channel:
  assumes "(dtap_event collab)\<^sup>*\<^sup>* (dtap_boot m ts ck (sched_start m' dli ck' len)) d"
  shows "(\<forall>(h, period, cbk)\<in>set (armed (e_tim (cs_env (d_chan d)))). cbk \<noteq> StreamReorderExpire \<longrightarrow>
      (\<exists>(lcid, l)\<in>set (links_of (d_chan d)). \<exists>c\<in>set l. \<exists>r. ch_attr c = AttrReliable r \<and> h \<in> {reorderTimer r, retransTimer r, rspTimer r})) \<and>
    (\<forall>(h, period, cbk)\<in>set (armed (e_tim (cs_env (d_chan (DTAP_DeInit ir d))))). cbk = StreamReorderExpire)"
proof -
  have live: "running (cs_env (d_chan x)) \<subseteq> live_handles (d_chan x)" if "dtap_inv x" for x
    using that by (simp add: dtap_inv_def tbl_inv_def)
  have i: "dtap_inv d" by (rule dtap_run_inv [OF assms])
  have "g_dtapLogicLinksMap (d_chan (DTAP_DeInit ir d)) = None"
    using DeInit_inv [OF i, of ir] by (auto simp: dtap_inv_def table_up_def DTAP_DeInit_def DTAP_ClearDataRecvCbks_def Let_def split: if_splits)
  then have "running (cs_env (d_chan (DTAP_DeInit ir d))) = {}"
    using live [OF DeInit_inv [OF i, of ir]] by (simp add: live_handles_def links_of_def)
  then have "\<forall>(h, period, cbk)\<in>set (armed (e_tim (cs_env (d_chan (DTAP_DeInit ir d))))). cbk = StreamReorderExpire"
    using running_armed [of _ "cs_env (d_chan (DTAP_DeInit ir d))"] by fastforce
  moreover have "\<exists>(lcid, l)\<in>set (links_of (d_chan d)). \<exists>c\<in>set l. \<exists>r. ch_attr c = AttrReliable r \<and> h \<in> {reorderTimer r, retransTimer r, rspTimer r}"
    if "(h, period, cbk) \<in> set (armed (e_tim (cs_env (d_chan d))))" "cbk \<noteq> StreamReorderExpire" for h period cbk
    using live [OF i] that running_armed [of h "cs_env (d_chan d)"] live_reliable [of h "d_chan d"] by blast
  ultimately show ?thesis by blast
qed

lemma demo_timer: "armed (e_tim (cs_env (d_chan demo_up))) = [(1, 1000, RspTimerExpire)]"
  by (simp add: demo_eval)

theorem no_timer_without_channel_witness:
  "(1, 1000, RspTimerExpire) \<in> set (armed (e_tim (cs_env (d_chan demo_up)))) \<and>
   (\<exists>(lcid, l)\<in>set (links_of (d_chan demo_up)). \<exists>c\<in>set l. \<exists>r. ch_attr c = AttrReliable r \<and> 1 \<in> {reorderTimer r, retransTimer r, rspTimer r})"
  using no_timer_without_channel [OF demo_run, of demo_results] by (simp add: demo_timer)

section \<open>The table as a map\<close>

text \<open>A table without transparent channels, in which the channel identifiers of a link differ.\<close>

definition plain_table :: "chan_state \<Rightarrow> bool" where
  "plain_table st \<longleftrightarrow> (\<forall>(lcid, l)\<in>set (links_of st). (\<forall>c\<in>set l. c_mode (ch_info c) \<noteq> CM_TRANS_MODE_TRANSPARENT) \<and>
     distinct (map (\<lambda>c. c_srcTcid (ch_info c)) l))"

definition plain_link :: "DTAP_Channel list \<Rightarrow> bool" where
  "plain_link l \<longleftrightarrow> (\<forall>c\<in>set l. c_mode (ch_info c) \<noteq> CM_TRANS_MODE_TRANSPARENT) \<and> distinct (map (\<lambda>c. c_srcTcid (ch_info c)) l)"

definition keyed :: "chan_state \<Rightarrow> bool" where
  "keyed st \<longleftrightarrow> map_ok st \<and> distinct (map fst (links_of st)) \<and> plain_table st"

lemma plain_lookup: "plain_table st \<Longrightarrow> alist_lookup (links_of st) lcid = Some l \<Longrightarrow> plain_link l"
  by (auto simp: plain_table_def plain_link_def dest!: alist_lookup_Some)

lemma plain_table_lookup:
  "distinct (map fst (links_of st)) \<Longrightarrow> plain_table st \<longleftrightarrow> (\<forall>lcid l. alist_lookup (links_of st) lcid = Some l \<longrightarrow> plain_link l)"
  by (fastforce simp: plain_table_def plain_link_def dest: alist_lookup_Some alist_lookup_set)

lemma Search_lookup:
  "map_ok st \<Longrightarrow> DTAP_ChannelSearch lcid tcid st = Option.bind (alist_lookup (links_of st) lcid) (find_first (chan_match tcid))"
  by (simp add: DTAP_ChannelSearch_def LogicLinkFind_alist DTAP_ChannelFind_def split: option.splits)

lemma plain_remove:
  assumes "plain_link l"
  shows "plain_link (remove_first (chan_match t) l) \<and> (\<forall>c\<in>set (remove_first (chan_match t) l). c_srcTcid (ch_info c) \<noteq> t) \<and>
    find_first (chan_match t') (remove_first (chan_match t) l) = (if t' = t then None else find_first (chan_match t') l)"
  using assms
proof (induction l)
  case (Cons c l)
  have p: "plain_link l" and m: "\<And>u. chan_match u c \<longleftrightarrow> c_srcTcid (ch_info c) = u" and o: "\<forall>x\<in>set l. c_srcTcid (ch_info x) \<noteq> c_srcTcid (ch_info c)"
    using Cons.prems by (auto simp: plain_link_def chan_match_def rev_image_eqI)
  have mode: "\<forall>x\<in>set l. c_mode (ch_info x) \<noteq> CM_TRANS_MODE_TRANSPARENT" "c_mode (ch_info c) \<noteq> CM_TRANS_MODE_TRANSPARENT"
    using Cons.prems by (simp_all add: plain_link_def)
  show ?case
  proof (cases "c_srcTcid (ch_info c) = t")
    case True
    then have "find_first (chan_match t) l = None" using o mode by (auto simp: find_first_None_iff chan_match_def)
    then show ?thesis using True p m o by auto
  next
    case False
    have "set (remove_first (chan_match t) l) \<subseteq> set l" by (induction l) auto
    then have "plain_link (c # remove_first (chan_match t) l)" using Cons.IH [OF p] o mode by (auto simp: plain_link_def)
    then show ?thesis using False m Cons.IH [OF p] by (auto split: if_splits)
  qed
qed (simp add: plain_link_def)

lemma keyed_env [simp]: "keyed (st\<lparr>cs_env := e\<rparr>) = keyed st"
  by (simp add: keyed_def plain_table_def)

lemma drop_keyed:
  assumes "keyed st"
  shows "keyed (drop_channel lcid t st) \<and>
    (\<forall>k t'. DTAP_ChannelSearch k t' (drop_channel lcid t st) = (if k = lcid \<and> t' = t then None else DTAP_ChannelSearch k t' st)) \<and>
    (\<forall>l. alist_lookup (links_of (drop_channel lcid t st)) lcid = Some l \<longrightarrow> (\<forall>c\<in>set l. c_srcTcid (ch_info c) \<noteq> t))"
proof (cases "DTAP_ChannelSearch lcid t st")
  case None
  have k: "map_ok st" "plain_table st" using assms by (simp_all add: keyed_def)
  have "c_srcTcid (ch_info c) \<noteq> t" if "alist_lookup (links_of st) lcid = Some l" "c \<in> set l" for l c
    using None that by (auto simp: Search_lookup [OF k(1)] find_first_None_iff chan_match_def)
  then show ?thesis using None assms by (auto simp: drop_channel_def)
next
  case (Some c)
  have k: "map_ok st" "distinct (map fst (links_of st))" "plain_table st" using assms by (simp_all add: keyed_def)
  define st' where "st' = drop_channel lcid t st"
  obtain l where l: "alist_lookup (links_of st) lcid = Some l" using Some by (auto simp: Search_lookup [OF k(1)] bind_eq_Some_conv)
  have L: "links_of st' = alist_update lcid (remove_first (chan_match t)) (links_of st)" "map_ok st'"
    using upd_link_alist [OF k(1)] by (simp_all add: st'_def drop_channel_def Some Let_def)
  note P = plain_remove [OF plain_lookup [OF k(3) l]]
  have "distinct (map fst (links_of st'))" using k(2) by (simp add: L)
  then have "keyed st'" unfolding keyed_def using L(2) plain_table_lookup [of st'] plain_lookup [OF k(3)] P l
    by (auto simp: L(1) alist_lookup_update split: if_splits)
  moreover have "DTAP_ChannelSearch i t' st' = (if i = lcid \<and> t' = t then None else DTAP_ChannelSearch i t' st)" for i t'
    using P [of t t'] l by (cases "t' = t") (auto simp: Search_lookup L k alist_lookup_update)
  moreover have "\<forall>l'. alist_lookup (links_of st') lcid = Some l' \<longrightarrow> (\<forall>c\<in>set l'. c_srcTcid (ch_info c) \<noteq> t)"
    using P l by (simp add: L alist_lookup_update)
  ultimately show ?thesis by (simp add: st'_def)
qed

lemma tidy_keyed:
  assumes "keyed st" and st': "st' = (if link_empty lcid st then erase_link lcid st else st)"
  shows "keyed st' \<and> (\<forall>k t. DTAP_ChannelSearch k t st' = DTAP_ChannelSearch k t st)"
proof (cases "link_empty lcid st")
  case True
  have k: "map_ok st" "distinct (map fst (links_of st))" "plain_table st" using assms by (simp_all add: keyed_def)
  have l: "alist_lookup (links_of st) lcid = Some []" using True by (simp add: link_empty_def LogicLinkFind_alist [OF k(1)])
  note E = erase_link_alist [OF k(1), of lcid]
  have "keyed (erase_link lcid st)" using k E alist_distinct_erase by (auto simp: keyed_def plain_table_def set_alist_erase)
  moreover have "DTAP_ChannelSearch i t (erase_link lcid st) = DTAP_ChannelSearch i t st" for i t
    using l by (simp add: Search_lookup E k alist_lookup_erase)
  ultimately show ?thesis using True by (simp add: st')
qed (use assms in simp)

lemma ensure_keyed:
  assumes "keyed st" "ensure_link lcid st = (ok, st1)"
  shows "keyed st1 \<and> (\<forall>k t. DTAP_ChannelSearch k t st1 = DTAP_ChannelSearch k t st) \<and> (ok \<longrightarrow> alist_lookup (links_of st1) lcid \<noteq> None) \<and>
    (\<not> ok \<longrightarrow> alist_lookup (links_of st1) lcid = None)"
proof -
  have k: "map_ok st" "distinct (map fst (links_of st))" "plain_table st" using assms(1) by (simp_all add: keyed_def)
  have n: "\<not> ok \<longrightarrow> alist_lookup (links_of st) lcid = None"
    using assms(2) by (auto simp: ensure_link_def LogicLinkFind_alist [OF k(1)] split: if_splits)
  from ensure_link_alist [OF k(1) assms(2)]
  have e: "map_ok st1" "links_of st1 = (if ok \<and> alist_lookup (links_of st) lcid = None then (lcid, []) # links_of st else links_of st)"
    "ok \<longrightarrow> alist_lookup (links_of st1) lcid \<noteq> None" by blast+
  have "keyed st1" using e k by (auto simp: keyed_def plain_table_def alist_lookup_None)
  moreover have "DTAP_ChannelSearch i t st1 = DTAP_ChannelSearch i t st" for i t using e k by (simp add: Search_lookup)
  ultimately show ?thesis using e n by auto
qed

lemma cons_keyed:
  assumes "keyed st" "alist_lookup (links_of st) lcid = Some l" "\<forall>x\<in>set l. c_srcTcid (ch_info x) \<noteq> c_srcTcid (ch_info c)"
    "c_mode (ch_info c) \<noteq> CM_TRANS_MODE_TRANSPARENT"
  shows "keyed (upd_link lcid (\<lambda>l. c # l) st) \<and>
    (\<forall>k t. DTAP_ChannelSearch k t (upd_link lcid (\<lambda>l. c # l) st) =
       (if k = lcid \<and> t = c_srcTcid (ch_info c) then Some c else DTAP_ChannelSearch k t st))"
proof -
  have k: "map_ok st" "distinct (map fst (links_of st))" "plain_table st" using assms by (simp_all add: keyed_def)
  note U = upd_link_alist [OF k(1), of lcid "\<lambda>l. c # l"]
  have "plain_link (c # l)" using plain_lookup [OF k(3) assms(2)] assms(3,4) by (auto simp: plain_link_def)
  moreover have "distinct (map fst (links_of (upd_link lcid (\<lambda>l. c # l) st)))" using k(2) by (simp add: U)
  ultimately have "keyed (upd_link lcid (\<lambda>l. c # l) st)"
    unfolding keyed_def using U plain_table_lookup [of "upd_link lcid (\<lambda>l. c # l) st"] plain_lookup [OF k(3)] assms(2)
    by (auto simp: alist_lookup_update split: if_splits)
  moreover have "DTAP_ChannelSearch i t (upd_link lcid (\<lambda>l. c # l) st) =
      (if i = lcid \<and> t = c_srcTcid (ch_info c) then Some c else DTAP_ChannelSearch i t st)" for i t
    using assms(2,4) by (auto simp: Search_lookup U k alist_lookup_update chan_match_def)
  ultimately show ?thesis by blast
qed

text \<open>While the allocations succeed, a channel is created.\<close>

definition alloc_ok :: "dp_env \<Rightarrow> bool" where
  "alloc_ok e \<longleftrightarrow> mem_ok (e_mem e) \<and> mem_ok (tscript (e_tim e))"

lemma ensure_ok:
  assumes "alloc_ok (cs_env st)" "g_dtapLogicLinksMap st \<noteq> None" "map_ok st"
  shows "fst (ensure_link lcid st) \<and> alloc_ok (cs_env (snd (ensure_link lcid st)))"
proof -
  obtain m1 where m1: "SDF_MemAlloc (e_mem (cs_env st)) = (True, m1)" "mem_ok m1" using assms(1) SDF_MemAlloc_okE by (auto simp: alloc_ok_def)
  obtain m2 where m2: "SDF_MemAlloc m1 = (True, m2)" "mem_ok m2" using m1(2) SDF_MemAlloc_okE by blast
  obtain mp where mp: "g_dtapLogicLinksMap st = Some mp" using assms(2) by blast
  have f: "SDF_MapFind (Some mp) lcid = None" if "DTAP_LogicLinkFind lcid st = None" using that by (simp add: DTAP_LogicLinkFind_def mp)
  show ?thesis
    using assms(1) by (auto simp: ensure_link_def DTAP_LogicLinkCreate_def m1 mp SDF_MapMoveInsert_def m2 f alloc_ok_def)
qed

lemma drop_alloc: "map_ok st \<Longrightarrow> alloc_ok (cs_env st) \<Longrightarrow> alloc_ok (cs_env (drop_channel lcid t st))"
  by (auto simp: drop_channel_def Let_def upd_link_alist DTAP_ChannelDestroy_def DTAP_StreamChannelDestroy_def DTAP_ReliableChannelDestroy_def
      stop_timer_def DTAP_TransStopTimer_def CP_TimerDel_def alloc_ok_def split: option.splits chan_attr.splits)

lemma create_ok:
  assumes "alloc_ok e"
  shows "fst (DTAP_ChannelCreate param e) \<noteq> None"
proof -
  obtain m1 where m1: "SDF_MemAlloc (e_mem e) = (True, m1)" "mem_ok m1" using assms SDF_MemAlloc_okE by (auto simp: alloc_ok_def)
  obtain m2 where m2: "SDF_MemAlloc m1 = (True, m2)" using m1(2) SDF_MemAlloc_okE by blast
  obtain t where t: "SDF_MemAlloc (tscript (e_tim e)) = (True, t)" using assms SDF_MemAlloc_okE by (auto simp: alloc_ok_def)
  show ?thesis
    by (simp add: DTAP_ChannelCreate_def m1 Let_def create_attr_def DTAP_StreamChannelCreate_def DTAP_BasicChannelCreate_def
        DTAP_ReliableChannelCreate_def DTAP_TransStartTimer_def CP_TimerAdd_def m2 t split: option.splits prod.splits)
qed

lemma drop_tx: "map_ok st \<Longrightarrow> e_tx (cs_env (drop_channel lcid t st)) = e_tx (cs_env st)"
  by (auto simp: drop_channel_def Let_def upd_link_alist DTAP_ChannelDestroy_def DTAP_StreamChannelDestroy_def DTAP_ReliableChannelDestroy_def
      stop_timer_def DTAP_TransStopTimer_def split: option.splits chan_attr.splits)

lemma Del_keyed:
  assumes "keyed st"
  shows "keyed (DTAP_ChannelDel param st) \<and>
    (\<forall>k t. DTAP_ChannelSearch k t (DTAP_ChannelDel param st) =
       (if k = p_lcid param \<and> t = p_srcTcid param then None else DTAP_ChannelSearch k t st))"
proof -
  let ?st1 = "st\<lparr>cs_env := (cs_env st)\<lparr>e_tx := DTAP_ChannelDown (p_lcid param) (p_srcTcid param) (e_tx (cs_env st))\<rparr>\<rparr>"
  let ?st2 = "drop_channel (p_lcid param) (p_srcTcid param) ?st1"
  have "keyed ?st1" using assms by simp
  note D = drop_keyed [OF this, of "p_lcid param" "p_srcTcid param"]
  have T: "keyed (if link_empty (p_lcid param) ?st2 then erase_link (p_lcid param) ?st2 else ?st2) \<and>
    (\<forall>k t. DTAP_ChannelSearch k t (if link_empty (p_lcid param) ?st2 then erase_link (p_lcid param) ?st2 else ?st2) = DTAP_ChannelSearch k t ?st2)"
    using D by (intro tidy_keyed) simp_all
  show ?thesis
  proof (cases "DTAP_ChannelSearch (p_lcid param) (p_srcTcid param) st")
    case None
    then show ?thesis using assms by (auto simp: DTAP_ChannelDel_def)
  next
    case (Some c)
    then show ?thesis using T D by (simp add: DTAP_ChannelDel_def Let_def)
  qed
qed

lemma Add_keyed:
  assumes k: "keyed st" and p: "param_ok param" "p_transMode param \<noteq> CM_TRANS_MODE_TRANSPARENT"
  shows "\<exists>new. keyed (DTAP_ChannelAdd param st) \<and>
    (\<forall>k t. DTAP_ChannelSearch k t (DTAP_ChannelAdd param st) = (if k = p_lcid param \<and> t = p_srcTcid param then new else DTAP_ChannelSearch k t st)) \<and>
    (case new of
       None \<Rightarrow> \<not> (g_dtapLogicLinksMap st \<noteq> None \<and> alloc_ok (cs_env st))
     | Some c \<Rightarrow> c_lcid (ch_info c) = p_lcid param \<and> c_srcTcid (ch_info c) = p_srcTcid param \<and> c_mode (ch_info c) = p_transMode param \<and>
         ch_addr c = nextAddr (e_tx (cs_env st)))"
proof -
  let ?l = "p_lcid param" and ?t = "p_srcTcid param"
  have mk: "map_ok st" using k by (simp add: keyed_def)
  obtain ok st1 where en: "ensure_link ?l st = (ok, st1)" by fastforce
  note E = ensure_keyed [OF k en]
  have m1: "map_ok st1" using E by (simp add: keyed_def)
  have tx1: "e_tx (cs_env st1) = e_tx (cs_env st)" using ensure_link_alist [OF mk en] by auto
  define st2 where "st2 = drop_channel ?l ?t st1"
  have D: "keyed st2" "\<And>k t. DTAP_ChannelSearch k t st2 = (if k = ?l \<and> t = ?t then None else DTAP_ChannelSearch k t st)"
    "\<And>l. alist_lookup (links_of st2) ?l = Some l \<Longrightarrow> \<forall>c\<in>set l. c_srcTcid (ch_info c) \<noteq> ?t"
    using drop_keyed [of st1 ?l ?t] E by (auto simp: st2_def)
  obtain new e where c: "DTAP_ChannelCreate param (cs_env st2) = (new, e)" by fastforce
  note C = ChannelCreate_fp [OF c p(1)]
  have good: "ok \<and> new \<noteq> None" if "g_dtapLogicLinksMap st \<noteq> None" "alloc_ok (cs_env st)"
    using ensure_ok [OF that(2,1) mk, of ?l] drop_alloc [OF m1, of ?l ?t] create_ok [of "cs_env st2" param] by (auto simp: en c st2_def [symmetric])
  show ?thesis
  proof (cases "ok")
    case False
    then have "DTAP_ChannelAdd param st = st1" by (simp add: DTAP_ChannelAdd_def en)
    moreover have "DTAP_ChannelSearch ?l ?t st1 = None" using E False by (simp add: Search_lookup m1)
    ultimately show ?thesis using E good False by (intro exI [of _ None]) auto
  next
    case True
    show ?thesis
    proof (cases new)
      case None
      let ?st3 = "st2\<lparr>cs_env := e\<rparr>"
      have a: "DTAP_ChannelAdd param st = (if link_empty ?l ?st3 then erase_link ?l ?st3 else ?st3)"
        by (simp add: DTAP_ChannelAdd_def en True c None Let_def st2_def [symmetric])
      have "keyed (DTAP_ChannelAdd param st) \<and> (\<forall>k t. DTAP_ChannelSearch k t (DTAP_ChannelAdd param st) = DTAP_ChannelSearch k t ?st3)"
        by (rule tidy_keyed [OF _ a]) (simp add: D(1))
      then show ?thesis using D(2) good None by (intro exI [of _ None]) auto
    next
      case (Some ch)
      have C: "ch_addr ch = nextAddr (e_tx (cs_env st2))" "c_lcid (ch_info ch) = ?l" "c_srcTcid (ch_info ch) = ?t" "c_mode (ch_info ch) = p_transMode param"
        using C Some by simp_all
      obtain l where l: "alist_lookup (links_of st2) ?l = Some l"
        using drop_channel_lookup(1) [OF m1, of ?l ?t] E True by (auto simp: st2_def)
      have a: "DTAP_ChannelAdd param st = (upd_link ?l (\<lambda>l. ch # l) (st2\<lparr>cs_env := e\<rparr>))"
        by (simp add: DTAP_ChannelAdd_def en True c Some Let_def st2_def [symmetric])
      have "keyed (st2\<lparr>cs_env := e\<rparr>)" "alist_lookup (links_of (st2\<lparr>cs_env := e\<rparr>)) ?l = Some l" using D(1) l by simp_all
      from cons_keyed [OF this, of ch] have K: "keyed (DTAP_ChannelAdd param st)"
        "\<And>k t. DTAP_ChannelSearch k t (DTAP_ChannelAdd param st) = (if k = ?l \<and> t = ?t then Some ch else DTAP_ChannelSearch k t st2)"
        using D(3) [OF l] C p(2) unfolding a by auto
      have "ch_addr ch = nextAddr (e_tx (cs_env st))" using C(1) drop_tx [OF m1, of ?l ?t] tx1 by (simp add: st2_def)
      then show ?thesis using K D(2) C by (intro exI [of _ "Some ch"]) auto
    qed
  qed
qed

text \<open>(C11) On every run, as long as no transparent channel is in use and the channel identifiers of each link differ, the table
  is a map from link and channel identifiers to channels. Releasing a channel removes exactly its entry. Activating a channel
  changes exactly its entry: to a new channel with the requested identifiers, mode and limits at an address never used
  before, or, when an allocation fails, to none; it cannot fail while the allocations succeed. Both operations keep the table
  free of duplicates.\<close>
theorem channel_table_refines_map:
  assumes run: "(dtap_event collab)\<^sup>*\<^sup>* (dtap_boot m ts ck (sched_start m' dli ck' len)) d"
    and plain: "plain_table (d_chan d)" and p: "param_ok param" "p_transMode param \<noteq> CM_TRANS_MODE_TRANSPARENT"
  shows "let st = d_chan d; key = (p_lcid param, p_srcTcid param); add = DTAP_ChannelAdd param st; del = DTAP_ChannelDel param st in
    plain_table add \<and> plain_table del \<and>
    (\<forall>k t. DTAP_ChannelSearch k t del = (if (k, t) = key then None else DTAP_ChannelSearch k t st)) \<and>
    (\<forall>k t. (k, t) \<noteq> key \<longrightarrow> DTAP_ChannelSearch k t add = DTAP_ChannelSearch k t st) \<and>
    (case DTAP_ChannelSearch (p_lcid param) (p_srcTcid param) add of
       None \<Rightarrow> \<not> (g_dtapIsInited d \<and> alloc_ok (cs_env st))
     | Some c \<Rightarrow> c_lcid (ch_info c) = p_lcid param \<and> c_srcTcid (ch_info c) = p_srcTcid param \<and> c_mode (ch_info c) = p_transMode param \<and>
         ch_addr c = nextAddr (e_tx (cs_env st)))"
proof -
  have i: "dtap_inv d" by (rule dtap_run_inv [OF run])
  have k: "keyed (d_chan d)" using i plain by (simp add: keyed_def dtap_inv_def tbl_inv_def)
  have up: "(g_dtapLogicLinksMap (d_chan d) \<noteq> None) = g_dtapIsInited d" using i by (simp add: dtap_inv_def table_up_def)
  have pl: "keyed x \<Longrightarrow> plain_table x" for x by (simp add: keyed_def)
  from Add_keyed [OF k p] obtain new where A: "keyed (DTAP_ChannelAdd param (d_chan d))"
    "\<And>k t. DTAP_ChannelSearch k t (DTAP_ChannelAdd param (d_chan d)) =
       (if k = p_lcid param \<and> t = p_srcTcid param then new else DTAP_ChannelSearch k t (d_chan d))"
    "case new of None \<Rightarrow> \<not> (g_dtapLogicLinksMap (d_chan d) \<noteq> None \<and> alloc_ok (cs_env (d_chan d)))
     | Some c \<Rightarrow> c_lcid (ch_info c) = p_lcid param \<and> c_srcTcid (ch_info c) = p_srcTcid param \<and> c_mode (ch_info c) = p_transMode param \<and>
         ch_addr c = nextAddr (e_tx (cs_env (d_chan d)))" by blast
  show ?thesis
    unfolding Let_def using A(1,3) pl Del_keyed [OF k, of param] up by (auto simp: A(2) split: option.splits)
qed

lemma demo_plain: "plain_table (d_chan demo_ready)"
  by (simp add: plain_table_def links_of_def demo_ready_eq)

lemma demo_ready_run: "(dtap_event (\<lambda>_. None))\<^sup>*\<^sup>* (dtap_boot [] [] [] (sched_start [] [] [] 100)) demo_ready"
  unfolding demo_ready_def demo_start_def by (rule r_into_rtranclp) (rule Dp_Init)

theorem channel_table_refines_map_witness:
  "let st = d_chan demo_ready in g_dtapIsInited demo_ready \<and> alloc_ok (cs_env st) \<and> plain_table (DTAP_ChannelAdd demo_param st) \<and>
   (\<exists>c. DTAP_ChannelSearch 1 0x40 (DTAP_ChannelAdd demo_param st) = Some c \<and> c_mode (ch_info c) = CM_TRANS_MODE_RELIABLE \<and> ch_addr c = 0) \<and>
   DTAP_ChannelSearch 1 0x40 (DTAP_ChannelDel demo_param st) = None"
proof -
  have o: "param_ok demo_param" "p_transMode demo_param \<noteq> CM_TRANS_MODE_TRANSPARENT" "p_lcid demo_param = 1" "p_srcTcid demo_param = 0x40"
    "p_transMode demo_param = CM_TRANS_MODE_RELIABLE" by (simp_all add: param_ok_def demo_param_def)
  have r: "g_dtapIsInited demo_ready" "alloc_ok (cs_env (d_chan demo_ready))" "nextAddr (e_tx (cs_env (d_chan demo_ready))) = 0"
    using dtap_run_inv [OF demo_ready_run]
    by (simp_all add: demo_ready_eq dtap_inv_def table_up_def alloc_ok_def demo_defs DTAP_SchedulerInitInner_def)
  show ?thesis
    using channel_table_refines_map [OF demo_ready_run demo_plain o(1,2)] r o(3-5) unfolding Let_def by (auto split: option.splits)
qed

end
