(* ===== verification/Dtap_Path.thy ===== *)
theory Dtap_Path
  imports Dtap_Runs
begin

text \<open>
  The way of the data through the components: a unit from \<open>DTAP_DataSend\<close> of one device to the receive callback of
  another, and two places where the components do not fit together.
\<close>

section \<open>From one device to another in basic mode\<close>

lemma send_basic_frame:
  assumes "DTAP_BuildBasicFrame (c_dstTcid ch) ((frame0 CtxBasic)\<lparr>fpi := p, fbuff := Some b\<rparr>) = (DTAP_SUCCESS, fr)"
  shows "DTAP_SendBasicFrame xmit ch p b e = transmit xmit (fbuff fr) e"
  by (simp add: DTAP_SendBasicFrame_def assms)

lemma data_recv_basic:
  assumes c: "DTAP_ChannelSearch lcid (buff_data b ! 0) (d_chan d) = Some c" "DTAP_GetTransMode (c_mode (ch_info c)) (d_modes d) = Some ModeBasic"
      "ch_attr c = AttrBasic bc" "isReady bc"
    and b: "4 \<le> dataLen b" "wire_length b + DTAP_BASIC_HEADER_LEN = dataLen b" "buff_data b ! 1 = 0"
    and p: "DTAP_ParseFrame DTAP_FRAME_BASIC b (frame0 CtxBasic) = (DTAP_SUCCESS, fr)" "fctx fr = CtxBasic" "frame_typeBits fr = 0"
      "DTAP_CheckBasicFrameHeader fr" "payloadLen fr \<le> c_mps (ch_info c)" "basic_frame fr"
    and cb: "(case DTAP_GetDataRecvCbkByTcid (c_srcTcid (ch_info c)) d of Some f \<Rightarrow> Some f | None \<Rightarrow> DTAP_GetProtoRecvCbk (fpi fr) d) = Some cb"
  shows "upcalls (e_dl (cs_env (d_chan (DTAP_DataRecv known lcid (Some b) d)))) =
    upcalls (e_dl (cs_env (d_chan d))) @ [basic_upcall (ch_info c) fr]"
proof -
  let ?r = "DTAP_GetDataRecvCbkByTcid (c_srcTcid (ch_info c)) d"
  let ?e = "(cs_env (d_chan d))\<lparr>e_known := known (c_lcid (ch_info c)) (c_srcTcid (ch_info c))\<rparr>"
  obtain dl where r: "DTAP_RecvBasicFrame (ch_info c) fr (Some cb) bc ?e = (DTAP_SUCCESS, bc, ?e\<lparr>e_dl := dl\<rparr>)"
    "upcalls dl = upcalls (e_dl (cs_env (d_chan d))) @ [basic_upcall (ch_info c) fr]"
    using recv_basic_ready [OF p(6) c(4), of "ch_info c" cb ?e] by auto
  have cb': "(if ?r \<noteq> None then ?r else DTAP_GetProtoRecvCbk (fpi fr) d) = Some cb" using cb by (auto split: option.splits)
  have ck: "checkFrame ModeBasic c fr" by (simp add: checkFrame_def DTAP_CheckBasicFrame_def p(3))
  have "DTAP_DataRecv known lcid (Some b) d = DTAP_DataRecvFrame known c ModeBasic b ?r d"
    using b(1) c by (simp add: DTAP_DataRecv_def Let_def)
  also have "\<dots> = snd (run_channel known (recvFrame ModeBasic (g_dtapDataSendCbks d) fr (Some cb)) c d)"
    using b p(2,4,5) p(1) ck cb' by (auto simp: DTAP_DataRecvFrame_def Let_def split: if_splits)
  also have "e_dl (cs_env (d_chan \<dots>)) = dl"
    using r(1) c(3) by (simp add: run_channel_def Let_def recvFrame_def)
  finally show ?thesis using r(2) by simp
qed

text \<open>End to end in basic mode: a unit of at most 32768 bytes, with room for the header in its buffer, that a device passes to
  \<open>DTAP_DataSend\<close> on a basic channel reaches the scheduler as one frame under the address of that channel, and the result of
  the call is that of the scheduler. When this frame comes to the peer, \<open>DTAP_DataRecv\<close> finds the
  peer's channel by the destination identifier in it and calls the receive function registered for that channel, or else the
  one registered for the protocol, once, with exactly the unit and its protocol identifier; on a fixed channel the protocol
  identifier is not carried and reported as none.\<close>
lemma basic_path:
  assumes "DTAP_ChannelSearch lcid tcid (d_chan d) = Some c" "DTAP_GetTransMode (c_mode (ch_info c)) (d_modes d) = Some ModeBasic"
    and b: "wf_buff b" "5 \<le> dataOff b" "0 < dataLen b" "dataLen b \<le> DTAP_MAX_PAYLOAD_LEN" "dataLen b \<le> c_mtu (ch_info c)"
    and "DTAP_ChannelSearch lcid' (c_dstTcid (ch_info c)) (d_chan d') = Some c'"
      "DTAP_GetTransMode (c_mode (ch_info c')) (d_modes d') = Some ModeBasic"
      "ch_attr c' = AttrBasic bc" "isReady bc" "dataLen b \<le> c_mps (ch_info c')"
    and pi: "q = (if c_dstTcid (ch_info c) > TCID_FTC_RFU_END then p else DTAP_PI_NONE)"
    and cb: "(case DTAP_GetDataRecvCbkByTcid (c_srcTcid (ch_info c')) d' of Some f \<Rightarrow> Some f | None \<Rightarrow> DTAP_GetProtoRecvCbk q d') = Some cb"
  shows "\<exists>fb ret d1 s1. DTAP_DataSend known (Some \<lparr>data_pi = p, data_lcid = lcid, data_tcid = tcid, data_buff = Some b\<rparr>) d = (ret, d1) \<and>
    DTAP_SendFrame (Some (ch_addr c)) (Some fb) (e_tx (cs_env (d_chan d))) = (ret, s1) \<and> e_tx (cs_env (d_chan d1)) = s1 \<and>
    upcalls (e_dl (cs_env (d_chan (DTAP_DataRecv known' lcid' (Some fb) d')))) = upcalls (e_dl (cs_env (d_chan d'))) @
      [(\<lparr>info_pi = q, info_lcid = c_lcid (ch_info c'), info_tcid = c_srcTcid (ch_info c')\<rparr>, buff_data b)]"
proof -
  let ?fr = "(frame0 CtxBasic)\<lparr>fpi := p, fbuff := Some b\<rparr>"
  have fb: "fbuff ?fr = Some b" by simp
  have l: "dataLen b + 5 < 65536" using b(4) by simp
  obtain b' pf where B: "DTAP_BuildBasicFrame (c_dstTcid (ch_info c)) ?fr = (DTAP_SUCCESS, ?fr\<lparr>fbuff := Some b'\<rparr>)" "wf_buff b'"
    "take 2 (buff_data b') = [c_dstTcid (ch_info c), 0]" "dataLen b' = headerLen pf + dataLen b" "4 \<le> headerLen pf" "headerLen pf \<le> 5"
    "DTAP_ParseFrame DTAP_FRAME_BASIC b' (frame0 CtxBasic) = (DTAP_SUCCESS, pf)"
    "fbuff pf = Some b'" "fctx pf = CtxBasic" "frame_typeBits pf = 0" "DTAP_CheckBasicFrameHeader pf"
    "wire_length b' + DTAP_BASIC_HEADER_LEN = dataLen b'" 
    "fpi pf = (if c_dstTcid (ch_info c) > TCID_FTC_RFU_END then fpi ?fr else DTAP_PI_NONE)"
    "drop (headerLen pf) (buff_data b') = buff_data b" "payloadLen pf = dataLen b"
    by (rule basic_build_parse [OF fb b(1,2) l, of "c_dstTcid (ch_info c)" CtxBasic])
  have q: "fpi pf = q" using B(13) pi by simp
  have nth: "buff_data b' ! 0 = c_dstTcid (ch_info c)" "buff_data b' ! 1 = 0"
    using B(3) nth_take [of 0 2 "buff_data b'"] nth_take [of 1 2 "buff_data b'"] by simp_all
  obtain ret s1 where x: "DTAP_SendFrame (Some (ch_addr c)) (Some b') (e_tx (cs_env (d_chan d))) = (ret, s1)" by fastforce
  let ?data = "Some \<lparr>data_pi = p, data_lcid = lcid, data_tcid = tcid, data_buff = Some b\<rparr>"
  have s: "fst (DTAP_DataSend known ?data d) = ret \<and> e_tx (cs_env (d_chan (snd (DTAP_DataSend known ?data d)))) = s1"
    using assms(1,2) b x by (simp add: DTAP_DataSend_def run_channel_def Let_def sendFrame_def send_basic_frame [OF B(1)] transmit_def)
  have u: "basic_upcall (ch_info c') pf = (\<lparr>info_pi = q, info_lcid = c_lcid (ch_info c'), info_tcid = c_srcTcid (ch_info c')\<rparr>, buff_data b)"
    using B(8,14) q by (simp add: basic_upcall_def)
  have "upcalls (e_dl (cs_env (d_chan (DTAP_DataRecv known' lcid' (Some b') d')))) =
      upcalls (e_dl (cs_env (d_chan d'))) @ [basic_upcall (ch_info c') pf]"
    using assms(8-12) B(2,4-12,15) nth by (intro data_recv_basic [OF _ _ _ _ _ _ _ _ _ _ _ _ _ cb [folded q]]) (auto simp: basic_frame_def)
  then show ?thesis
    using s x u by (intro exI [of _ b'] exI [of _ ret] exI [of _ "snd (DTAP_DataSend known ?data d)"] exI [of _ s1]) (auto simp: prod_eq_iff)
qed

text \<open>Two devices with one channel each, to try the path on.\<close>

definition demo_link :: "DTAP_Channel \<Rightarrow> dtap" where
  "demo_link c = demo_ready\<lparr>d_modes := map Some [ModeBasic, ModeTransparent, ModeStream, ModeReliable],
     g_dtapRecvCbks := [], g_dtapProtoRecvCbks := replicate DTAP_PI_MAX (Some demo_cb),
     d_chan := (d_chan demo_ready)\<lparr>g_dtapLogicLinksMap :=
       map_option (\<lambda>mp. mp\<lparr>entry := [(c_lcid (ch_info c), [c])]\<rparr>) (g_dtapLogicLinksMap (d_chan demo_ready))\<rparr>\<rparr>"

definition demo_basic_at :: "byte \<Rightarrow> byte \<Rightarrow> DTAP_Channel" where
  "demo_basic_at src dst = \<lparr>ch_addr = 0, ch_info = \<lparr>c_lcid = 1, c_srcTcid = src, c_dstTcid = dst, c_mode = 0, c_mtu = 512, c_mps = 512,
     c_castMode = 0, c_type = 0, c_priority = 3\<rparr>, ch_attr = AttrBasic \<lparr>isReady = True, cacheRxBuffs = []\<rparr>\<rparr>"

lemma demo_link_search: "c_srcTcid (ch_info c) = t \<Longrightarrow> c_lcid (ch_info c) = 1 \<Longrightarrow> DTAP_ChannelSearch 1 t (d_chan (demo_link c)) = Some c"
  by (simp add: demo_link_def demo_ready_eq DTAP_ChannelSearch_def DTAP_LogicLinkFind_def SDF_MapFind_def key_eq_def DTAP_LogicLinkCompare_def
      DTAP_ChannelFind_def chan_match_def)

lemma demo_link_chans:
  "DTAP_ChannelSearch 1 0x20 (d_chan (demo_link (demo_basic_at 0x20 0x21))) = Some (demo_basic_at 0x20 0x21)"
  "DTAP_ChannelSearch 1 0x21 (d_chan (demo_link (demo_basic_at 0x21 0x20))) = Some (demo_basic_at 0x21 0x20)"
  by (rule demo_link_search; simp add: demo_basic_at_def)+

lemma demo_link_facts:
  "DTAP_GetTransMode 0 (d_modes (demo_link x)) = Some ModeBasic"
  "DTAP_GetDataRecvCbkByTcid t (demo_link x) = None" "DTAP_GetProtoRecvCbk 3 (demo_link x) = Some demo_cb"
  "e_dl (cs_env (d_chan (demo_link x))) = []"
  by (simp_all add: demo_link_def DTAP_GetTransMode_def DTAP_GetDataRecvCbkByTcid_def DTAP_GetProtoRecvCbk_def demo_ready_eq demo_start_def dtap_boot_def)

lemma demo_basic_info:
  "c_mode (ch_info (demo_basic_at a b)) = 0" "ch_attr (demo_basic_at a b) = AttrBasic \<lparr>isReady = True, cacheRxBuffs = []\<rparr>"
  "c_mtu (ch_info (demo_basic_at a b)) = 512" "c_mps (ch_info (demo_basic_at a b)) = 512" "c_srcTcid (ch_info (demo_basic_at a b)) = a"
  "c_dstTcid (ch_info (demo_basic_at a b)) = b" "c_lcid (ch_info (demo_basic_at a b)) = 1" "ch_addr (demo_basic_at a b) = 0"
  by (simp_all add: demo_basic_at_def)

section \<open>Resuming a receiver\<close>

lemma hand_up_None:
  assumes "hand_up ch None fr fg (m, dl) = (ret, fr', fg', m', dl')"
  shows "dl' = dl \<and> ret \<noteq> DTAP_TRANS_RELIABLE_TRANS_CHANNEL_FULL"
proof -
  have u: "DTAP_UpdateFragmentFrame x b m = (r, fg1, m1) \<Longrightarrow> r \<noteq> DTAP_TRANS_RELIABLE_TRANS_CHANNEL_FULL" for x b m r fg1 m1
    by (auto simp: DTAP_UpdateFragmentFrame_def Let_def split: if_splits option.splits prod.splits)
  show ?thesis
    using assms by (auto simp: hand_up_def DTAP_RecvAggregateFrame_def DTAP_RecvFragmentFrame_def upcall_def Let_def
        split: if_splits option.splits prod.splits dest!: u)
qed

lemma inner_loop_None:
  "recv_inner_loop ch None r e = (r', e') \<Longrightarrow> e_dl e' = e_dl e \<and>
     (\<exists>n. rxList (rxWindow r') = drop n (rxList (rxWindow r)) \<and>
       (\<forall>fr frs. rxList (rxWindow r) = fr # frs \<longrightarrow> txSeq fr = bufferSeq (rxWindow r) \<longrightarrow> 0 < n))"
proof (induction ch "None :: recv_cb option" r e rule: recv_inner_loop.induct)
  case (1 ch r e)
  show ?case
  proof (cases "rxList (rxWindow r)")
    case Nil
    then show ?thesis using 1(2) by (auto simp: recv_inner_loop.simps [of ch None r e])
  next
    case (Cons fr frs)
    obtain ret fr' fg m dl where h: "hand_up ch None fr (frags r) (e_mem e, e_dl e) = (ret, fr', fg, m, dl)" by (metis prod_cases5)
    note H = hand_up_None [OF h]
    show ?thesis
    proof (cases "txSeq fr = bufferSeq (rxWindow r)")
      case True
      let ?r = "r\<lparr>frags := fg, rxWindow := (rxWindow r)\<lparr>rxList := frs, bufferSeq := DTAP_GetNextFrameSeq (bufferSeq (rxWindow r))\<rparr>\<rparr>"
      have "recv_inner_loop ch None ?r (e\<lparr>e_mem := m, e_dl := dl\<rparr>) = (r', e')"
        using 1(2) True H by (simp add: recv_inner_loop.simps [of ch None r e] Cons h Let_def)
      then have "e_dl e' = dl \<and> (\<exists>n. rxList (rxWindow r') = drop n frs)"
        using 1(1) [OF Cons _ h [symmetric] refl refl refl refl refl] True H by auto
      then obtain n where "e_dl e' = dl" "rxList (rxWindow r') = drop n frs" by blast
      then show ?thesis using H Cons by (auto intro!: exI [of _ "Suc n"])
    next
      case False
      then show ?thesis using 1(2) Cons by (auto simp: recv_inner_loop.simps [of ch None r e] intro!: exI [of _ 0])
    qed
  qed
qed

text \<open>(C37) When the upper layer of a reliable channel has refused a frame as full and later reports that it can take data again,
  \<open>DTAP_ChannelSetStatus\<close> looks for the receive function of the channel only, not for the one of the protocol as
  \<open>DTAP_DataRecvFrame\<close> does. For an upper layer that is registered by protocol the waiting frames in sequence, the refused one at least,
  are taken off the reception list, and nothing is handed up.\<close>
theorem resume_drops_waiting_frames:
  assumes "DTAP_ChannelSearch lcid tcid (d_chan d) = Some c" "ch_attr c = AttrReliable r"
    "DTAP_GetTransMode (c_mode (ch_info c)) (d_modes d) = Some ModeReliable"
    and cb: "DTAP_GetDataRecvCbkByTcid (c_srcTcid (ch_info c)) d = None" "DTAP_GetProtoRecvCbk (fpi fr) d = Some f"
    and w: "isRxWindowFull r" "rxList (rxWindow r) = fr # frs" "txSeq fr = bufferSeq (rxWindow r)"
  shows "\<exists>r' e' n. d_chan (DTAP_ChannelSetStatus known lcid tcid 0 d) =
      (store_channel (c\<lparr>ch_attr := AttrReliable r'\<rparr>) (d_chan d))\<lparr>cs_env := e'\<rparr> \<and>
    0 < n \<and> rxList (rxWindow r') = drop n (fr # frs) \<and> e_dl e' = e_dl (cs_env (d_chan d))"
proof -
  let ?e = "(cs_env (d_chan d))\<lparr>e_known := known (c_lcid (ch_info c)) (c_srcTcid (ch_info c))\<rparr>"
  obtain r' e' where l: "recv_inner_loop (ch_info c) None (r\<lparr>isRxWindowFull := False\<rparr>) ?e = (r', e')" by fastforce
  from inner_loop_None [OF this] w obtain n where n: "0 < n" "rxList (rxWindow r') = drop n (fr # frs)" "e_dl e' = e_dl (cs_env (d_chan d))"
    by auto
  have "d_chan (DTAP_ChannelSetStatus known lcid tcid 0 d) = (store_channel (c\<lparr>ch_attr := AttrReliable r'\<rparr>) (d_chan d))\<lparr>cs_env := e'\<rparr>"
    using assms(1-3) l by (simp add: DTAP_ChannelSetStatus_def Let_def cb(1) run_channel_def DTAP_SetTransChannelStatus_def DTAP_RecvEnhanceFrameInner_def)
  then show ?thesis using n by blast
qed

definition demo_waiting :: DTAP_Channel where
  "demo_waiting = \<lparr>ch_addr = 0, ch_info = demo_chan, ch_attr = AttrReliable (demo_rel\<lparr>isRxWindowFull := True,
     rxWindow := (DTAP_InitRxWindow 4)\<lparr>rxList := [frame0 CtxSimplexFrag]\<rparr>\<rparr>)\<rparr>"

theorem resume_drops_waiting_frames_witness:
  "DTAP_GetProtoRecvCbk 0 (demo_link demo_waiting) = Some demo_cb \<and>
   (\<exists>r' e'. d_chan (DTAP_ChannelSetStatus (\<lambda>_ _. True) 1 0x40 0 (demo_link demo_waiting)) =
      (store_channel (demo_waiting\<lparr>ch_attr := AttrReliable r'\<rparr>) (d_chan (demo_link demo_waiting)))\<lparr>cs_env := e'\<rparr> \<and>
      rxList (rxWindow r') = [] \<and> e_dl e' = [])"
proof -
  let ?r = "demo_rel\<lparr>isRxWindowFull := True, rxWindow := (DTAP_InitRxWindow 4)\<lparr>rxList := [frame0 CtxSimplexFrag]\<rparr>\<rparr>"
  have s: "DTAP_ChannelSearch 1 0x40 (d_chan (demo_link demo_waiting)) = Some demo_waiting"
    by (rule demo_link_search) (simp_all add: demo_waiting_def demo_chan_def)
  have r: "ch_attr demo_waiting = AttrReliable ?r" by (simp add: demo_waiting_def)
  have m: "DTAP_GetTransMode (c_mode (ch_info demo_waiting)) (d_modes (demo_link demo_waiting)) = Some ModeReliable"
    by (simp add: demo_link_def demo_waiting_def demo_chan_def DTAP_GetTransMode_def numeral_eq_Suc)
  have cb: "DTAP_GetDataRecvCbkByTcid t (demo_link x) = None" "DTAP_GetProtoRecvCbk 0 (demo_link x) = Some demo_cb" for t x
    by (simp_all add: demo_link_def DTAP_GetDataRecvCbkByTcid_def DTAP_GetProtoRecvCbk_def)
  have e: "e_dl (cs_env (d_chan (demo_link demo_waiting))) = []" by (simp add: demo_link_def demo_ready_eq demo_start_def dtap_boot_def)
  have f: "fpi (frame0 CtxSimplexFrag) = 0" "txSeq (frame0 CtxSimplexFrag) = 0" by (simp_all add: frame0_def)
  from resume_drops_waiting_frames [OF s r m cb(1), of "frame0 CtxSimplexFrag" demo_cb "[]" "\<lambda>_ _. True"]
  obtain r' e' n where "d_chan (DTAP_ChannelSetStatus (\<lambda>_ _. True) 1 0x40 0 (demo_link demo_waiting)) =
      (store_channel (demo_waiting\<lparr>ch_attr := AttrReliable r'\<rparr>) (d_chan (demo_link demo_waiting)))\<lparr>cs_env := e'\<rparr>"
    "0 < n" "rxList (rxWindow r') = drop n [frame0 CtxSimplexFrag]" "e_dl e' = []"
    by (auto simp: cb f e DTAP_InitRxWindow_def)
  then show ?thesis using cb(2) by (intro conjI exI [of _ r'] exI [of _ e']) simp_all
qed

section \<open>Replacing a channel\<close>

lemma keyed_search:
  assumes "keyed st" "(k, l) \<in> set (links_of st)" "c \<in> set l"
  shows "DTAP_ChannelSearch k (c_srcTcid (ch_info c)) st = Some c"
proof -
  have kk: "map_ok st" "distinct (map fst (links_of st))" "plain_table st" using assms(1) by (simp_all add: keyed_def)
  have l: "alist_lookup (links_of st) k = Some l" by (rule alist_lookup_set [OF kk(2) assms(2)])
  have "plain_link l \<Longrightarrow> c \<in> set l \<Longrightarrow> find_first (chan_match (c_srcTcid (ch_info c))) l = Some c"
    by (induction l) (auto simp: plain_link_def chan_match_def rev_image_eqI)
  then show ?thesis using plain_lookup [OF kk(3) l] assms(3) l by (simp add: Search_lookup kk)
qed

lemma drop_keyed_map: "map_ok st \<Longrightarrow> map_ok (drop_channel lcid tcid st)"
  by (simp add: drop_channel_def Let_def upd_link_alist split: option.splits)

lemma create_queues:
  assumes "DTAP_ChannelCreate param e = (new, e')" "param_ok param"
  shows "g_dtapScheduler (e_tx e') = g_dtapScheduler (e_tx e)"
proof -
  obtain ok m where a: "SDF_MemAlloc (e_mem e) = (ok, m)" by fastforce
  let ?s1 = "(upd_chan (nextAddr (e_tx e)) (\<lambda>_. \<lparr>sc_lcid = p_lcid param, sc_srcTcid = p_srcTcid param, sc_dstTcid = p_dstTcid param,
                    sc_priority = chan_priority (p_srcTcid param), pktList = []\<rparr>) (e_tx e))\<lparr>nextAddr := nextAddr (e_tx e) + 1\<rparr>"
  obtain at e2 where c: "create_attr param (e\<lparr>e_mem := m, e_tx := ?s1\<rparr>) = (at, e2)" by fastforce
  have "g_dtapScheduler (e_tx e2) = g_dtapScheduler (e_tx e)" using create_attr_fp [OF c assms(2)] by (simp add: upd_chan_def)
  then show ?thesis using assms(1) by (auto simp: DTAP_ChannelCreate_def a c [simplified] Let_def split: if_splits option.splits)
qed

lemma add_queues:
  assumes "map_ok st" "param_ok param"
  shows "g_dtapScheduler (e_tx (cs_env (DTAP_ChannelAdd param st))) = g_dtapScheduler (e_tx (cs_env st))"
proof -
  let ?l = "p_lcid param"
  obtain ok st1 where en: "ensure_link ?l st = (ok, st1)" by fastforce
  have 1: "map_ok st1" "e_tx (cs_env st1) = e_tx (cs_env st)" using ensure_link_alist [OF assms(1) en] by auto
  define st2 where "st2 = drop_channel ?l (p_srcTcid param) st1"
  obtain new e where c: "DTAP_ChannelCreate param (cs_env st2) = (new, e)" by fastforce
  have q: "g_dtapScheduler (e_tx e) = g_dtapScheduler (e_tx (cs_env st))"
    using create_queues [OF c assms(2)] drop_tx [OF 1(1), of ?l "p_srcTcid param"] 1(2) by (simp add: st2_def)
  have m: "map_ok (st2\<lparr>cs_env := e\<rparr>)" using drop_keyed_map [OF 1(1)] by (simp add: st2_def)
  show ?thesis
    using q 1(2) upd_link_alist(3) [OF m] erase_link_alist(3) [OF m, of ?l] LogicLinkFind_alist [OF m, of ?l]
    by (auto simp: DTAP_ChannelAdd_def en Let_def st2_def [symmetric] c link_empty_def split: option.splits)
qed

text \<open>(C36) A channel that the connection manager activates a second time is replaced without being taken out of the scheduler: a queue entry
  that refers to the old channel still refers to it afterwards, although the old channel has been freed and no
  channel of the table has its address any more. (Releasing a channel goes through \<open>DTAP_ChannelDown\<close>, which removes these
  references first.)\<close>
theorem replaced_channel_still_scheduled:
  assumes run: "(dtap_event collab)\<^sup>*\<^sup>* (dtap_boot m ts ck (sched_start m' dli ck' len)) d"
    and p: "plain_table (d_chan d)" "param_ok param" "p_transMode param \<noteq> CM_TRANS_MODE_TRANSPARENT"
    and old: "DTAP_ChannelSearch (p_lcid param) (p_srcTcid param) (d_chan d) = Some old"
    and queued: "node \<in> set (lcidList (g_dtapScheduler (e_tx (cs_env (d_chan d))) ! i))" "ch_addr old \<in> set (channelList node)"
  shows "let st' = DTAP_ChannelAdd param (d_chan d) in
    node \<in> set (lcidList (g_dtapScheduler (e_tx (cs_env st')) ! i)) \<and> ch_addr old \<in> set (channelList node) \<and>
    (\<forall>(lcid, l)\<in>set (links_of st'). \<forall>c\<in>set l. ch_addr c \<noteq> ch_addr old)"
proof -
  let ?st = "d_chan d" and ?key = "(p_lcid param, p_srcTcid param)"
  have t: "tbl_inv {} ?st" using dtap_run_inv [OF run] by (simp add: dtap_inv_def)
  have k: "keyed ?st" using t p(1) by (simp add: keyed_def tbl_inv_def)
  have mk: "map_ok ?st" using k by (simp add: keyed_def)
  obtain new where A: "keyed (DTAP_ChannelAdd param ?st)"
    "\<And>k t. DTAP_ChannelSearch k t (DTAP_ChannelAdd param ?st) = (if k = p_lcid param \<and> t = p_srcTcid param then new else DTAP_ChannelSearch k t ?st)"
    "\<And>c. new = Some c \<Longrightarrow> ch_addr c = nextAddr (e_tx (cs_env ?st))"
    using Add_keyed [OF k p(2,3)] by (auto split: option.splits)
  obtain lo where lo: "alist_lookup (links_of ?st) (p_lcid param) = Some lo" "old \<in> set lo" "chan_match (p_srcTcid param) old"
    by (rule search_link [OF mk old])
  have oko: "link_ok (e_tx (cs_env ?st)) (p_lcid param) lo" using tbl_inv_lookup [OF t lo(1)] by simp
  have "ch_addr c \<noteq> ch_addr old" if c: "(lcid, l) \<in> set (links_of (DTAP_ChannelAdd param ?st))" "c \<in> set l" for lcid l c
  proof (cases "(lcid, c_srcTcid (ch_info c)) = ?key")
    case True
    then have "new = Some c" using keyed_search [OF A(1) c] A(2) by auto
    from A(3) [OF this] show ?thesis using oko lo(2) by (auto simp: link_ok_def chan_known_def)
  next
    case False
    then have "DTAP_ChannelSearch lcid (c_srcTcid (ch_info c)) ?st = Some c" using keyed_search [OF A(1) c] A(2) by auto
    then obtain lc where lc: "alist_lookup (links_of ?st) lcid = Some lc" "c \<in> set lc" using search_link [OF mk] by blast
    have okc: "link_ok (e_tx (cs_env ?st)) lcid lc" using tbl_inv_lookup [OF t lc(1)] by simp
    show ?thesis
    proof
      assume eq: "ch_addr c = ch_addr old"
      then have "lcid = p_lcid param" using link_ok_addr [OF okc] link_ok_addr [OF oko] lc(2) lo(2) by (metis imageI)
      then have "c = old" using eq lc lo oko by (auto simp: link_ok_def distinct_map inj_on_def)
      moreover have "c_srcTcid (ch_info old) = p_srcTcid param"
        using lo plain_lookup [OF p(1) lo(1)] by (auto simp: chan_match_def plain_link_def)
      ultimately show False using False \<open>lcid = p_lcid param\<close> by simp
    qed
  qed
  then show ?thesis unfolding Let_def using queued add_queues [OF mk p(2)] by auto
qed

text \<open>Witness: the channel of the run above, with one packet passed to the scheduler.\<close>

definition demo_sched :: sched where
  "demo_sched = (DTAP_SchedulerInitInner (sched_start [] [] [] 100))\<lparr>chanStore := (\<lambda>a. if a = 0
     then \<lparr>sc_lcid = 1, sc_srcTcid = 0x40, sc_dstTcid = 0x41, sc_priority = 3, pktList = []\<rparr> else \<lparr>sc_lcid = 0, sc_srcTcid = 0, sc_dstTcid = 0, sc_priority = 0, pktList = []\<rparr>), nextAddr := 1\<rparr>"

lemma demo_up_sched: "e_tx (cs_env (d_chan demo_up)) = demo_sched"
  by (simp add: demo_eval demo_sched_def chan_priority_def fun_upd_def) (rule ext, simp)

lemma demo_up_table:
  "map (\<lambda>(k, l). (k, map (\<lambda>c. (ch_addr c, c_srcTcid (ch_info c), c_mode (ch_info c))) l)) (links_of (d_chan demo_up)) = [(1, [(0, 0x40, 3)])]"
  by (simp add: demo_eval)

lemma demo_queued: "lcidList (g_dtapScheduler (snd (DTAP_DataSendWithPriority (Some 0) (Some demo_buff) demo_sched)) ! 3) =
    [\<lparr>channelList = [0], hasScheduled = False, ln_lcid = 1, ln_priority = 3, ln_pktCnt = 1\<rparr>]"
  by code_simp

theorem replaced_channel_still_scheduled_witness:
  "\<exists>d :: dtap. let st' = DTAP_ChannelAdd demo_param (d_chan d) in
     (\<exists>old. DTAP_ChannelSearch 1 0x40 (d_chan d) = Some old \<and> ch_addr old = 0) \<and>
     channelList (hd (lcidList (g_dtapScheduler (e_tx (cs_env st')) ! 3))) = [0] \<and>
     0 \<notin> ch_addr ` set (concat (map snd (links_of st')))"
proof -
  let ?s = "snd (DTAP_DataSendWithPriority (Some 0) (Some demo_buff) demo_sched)"
  let ?node = "\<lparr>channelList = [0], hasScheduled = False, ln_lcid = 1, ln_priority = 3, ln_pktCnt = 1\<rparr> :: DTAP_LcidNode"
  define d where "d = demo_up\<lparr>d_chan := (d_chan demo_up)\<lparr>cs_env := (cs_env (d_chan demo_up))\<lparr>e_tx := ?s\<rparr>\<rparr>\<rparr>"
  have "dtap_event (\<lambda>_. None) demo_up d"
    unfolding d_def by (rule Dp_Controller) (simp only: demo_up_sched Ev_Send)
  with demo_run have run: "(dtap_event (\<lambda>_. None))\<^sup>*\<^sup>* (dtap_boot [] [] [] (sched_start [] [] [] 100)) d" by (rule rtranclp.rtrancl_into_rtrancl)
  have o: "param_ok demo_param" "p_transMode demo_param \<noteq> CM_TRANS_MODE_TRANSPARENT" "p_lcid demo_param = 1" "p_srcTcid demo_param = 0x40"
    by (simp_all add: param_ok_def demo_param_def)
  obtain c where c: "links_of (d_chan demo_up) = [(1, [c])]" "ch_addr c = 0" "c_srcTcid (ch_info c) = 0x40" "c_mode (ch_info c) = 3"
    using demo_up_table by (auto simp: map_eq_Cons_conv)
  have l: "links_of (d_chan d) = [(1, [c])]" by (simp add: d_def c)
  have mk: "map_ok (d_chan d)" using dtap_run_inv [OF run] by (simp add: dtap_inv_def tbl_inv_def)
  have s: "DTAP_ChannelSearch (p_lcid demo_param) (p_srcTcid demo_param) (d_chan d) = Some c"
    by (simp add: Search_lookup [OF mk] l o chan_match_def c)
  have pl: "plain_table (d_chan d)" by (simp add: plain_table_def l c)
  have q: "lcidList (g_dtapScheduler (e_tx (cs_env (d_chan d))) ! 3) = [?node]" by (simp add: d_def demo_queued)
  have n: "?node \<in> set (lcidList (g_dtapScheduler (e_tx (cs_env (d_chan d))) ! 3))" "ch_addr c \<in> set (channelList ?node)"
    by (simp_all add: q c)
  have "lcidList (g_dtapScheduler (e_tx (cs_env (DTAP_ChannelAdd demo_param (d_chan d)))) ! 3) = [?node]"
    using add_queues [OF mk o(1)] q by simp
  moreover have "0 \<notin> ch_addr ` set (concat (map snd (links_of (DTAP_ChannelAdd demo_param (d_chan d)))))"
    using replaced_channel_still_scheduled [OF run pl o(1,2) s n] by (fastforce simp: Let_def c)
  ultimately show ?thesis unfolding Let_def using s c(2) o by (intro exI [of _ d]) (simp del: set_concat)
qed

end
