(* ===== verification/Trans_Path.thy ===== *)
theory Trans_Path
  imports Trans_Props Dtap_Path
begin

text \<open>
  The way of the data of an application: from the task that \<open>TRANS_SendData\<close> posts on one device to the receive callback of
  the application on another, through the data plane in basic mode.
\<close>

section \<open>The receiving end\<close>

text \<open>\<open>TRANS_DataRecvCbk\<close> on a packet behind the header that \<open>TRANS_CltpHeaderBuild\<close> writes.\<close>

lemma recv_packet:
  assumes b: "wf_buff pb" "buff_data pb = cltp_header sp dp n @ xs" "unat n \<le> length xs" "length xs < 65536"
    and i: "info_pi info = DTAP_PI_LWCLTP" "linkByLcid (info_lcid info) = Some dev"
    and cb: "recvDataCbk (g_transportCbks t) = Some up"
  defines "addr \<equiv> \<lparr>devAddr = dev, t_tcid = info_tcid info, proto = TRANS_PROTO_CONNECTIONLESS, srcPort = sp, dstPort = dp\<rparr>"
  shows "\<exists>pb'. TRANS_DataRecvCbk linkByLcid (Some (info, pb)) t =
    (up (t_received t) addr xs, Some pb', t\<lparr>t_received := t_received t @ [(addr, xs, up (t_received t) addr xs)]\<rparr>)"
proof -
  obtain b1 where b1: "TRANS_CltpPktProc pb = (TRANS_SUCCESS, b1)" "wf_buff b1" "buff_data b1 = xs"
    by (rule TRANS_CltpPktProc_header [OF b(1-3)])
  have len: "dataLen pb = 9 + length xs" "dataLen b1 = length xs" using length_buff_data [OF b(1)] length_buff_data [OF b1(2)] b(2) b1(3) by simp_all
  have nth: "buff_data pb ! k = cltp_header sp dp n ! k" if "k < 9" for k using that by (simp add: b(2) nth_append)
  have "TRANS_CheckBasicHeader pb" by (simp add: TRANS_CheckBasicHeader_def len nth codec_simps)
  moreover have "TRANS_FillAddr linkByLcid info pb = Some addr"
    using i by (simp add: TRANS_FillAddr_def addr_def nth codec_simps)
  moreover have "TRANS_PktProc (info_pi info) pb = (TRANS_SUCCESS, b1)" using i(1) b1(1) by (simp add: TRANS_PktProc_def)
  ultimately show ?thesis using i(1) cb len b(4) b1(3) by (simp add: TRANS_DataRecvCbk_def Let_def)
qed

section \<open>Properties\<close>

text \<open>(C12) End to end in basic mode. The task of a send on a device finds the link and the basic channel of its destination: the payload, behind
  the transport header, goes to the scheduler of the data plane as one frame, and the call returns the converted
  answer of the scheduler. When the frame comes to the peer, \<open>DTAP_DataRecv\<close> calls the receive function of the protocol with
  a packet of which \<open>TRANS_DataRecvCbk\<close> makes exactly one call to the application: the payload byte by byte, the address of
  the sending device, the local channel and the ports the sender gave.\<close>
theorem transport_end_to_end:
  assumes a: "linkByAddr (devAddr a) = Some lcid" "proto a = TRANS_PROTO_CONNECTIONLESS"
    and c: "DTAP_ChannelSearch lcid (t_tcid a) (d_chan d) = Some c" "DTAP_GetTransMode (c_mode (ch_info c)) (d_modes d) = Some ModeBasic"
      "TCID_FTC_RFU_END < c_dstTcid (ch_info c)"
    and b: "wf_buff b" "14 \<le> dataOff b" "0 < dataLen b" "dataLen b + 9 \<le> DTAP_MAX_PAYLOAD_LEN" "dataLen b + 9 \<le> c_mtu (ch_info c)"
    and c': "DTAP_ChannelSearch lcid' (c_dstTcid (ch_info c)) (d_chan d') = Some c'"
      "DTAP_GetTransMode (c_mode (ch_info c')) (d_modes d') = Some ModeBasic"
      "ch_attr c' = AttrBasic bc" "isReady bc" "dataLen b + 9 \<le> c_mps (ch_info c')"
      "DTAP_GetDataRecvCbkByTcid (c_srcTcid (ch_info c')) d' = None" "DTAP_GetProtoRecvCbk DTAP_PI_LWCLTP d' = Some cb"
    and t: "linkByLcid (c_lcid (ch_info c')) = Some dev" "recvDataCbk (g_transportCbks t) = Some up"
  defines "info \<equiv> \<lparr>info_pi = DTAP_PI_LWCLTP, info_lcid = c_lcid (ch_info c'), info_tcid = c_srcTcid (ch_info c')\<rparr>"
    and "addr \<equiv> \<lparr>devAddr = dev, t_tcid = c_srcTcid (ch_info c'), proto = TRANS_PROTO_CONNECTIONLESS, srcPort = srcPort a, dstPort = dstPort a\<rparr>"
    and "pkt \<equiv> cltp_header (srcPort a) (dstPort a) (of_nat (dataLen b)) @ buff_data b"
  shows "\<exists>fb ret d1 s1. send_unit linkByAddr known a b d = (TRANS_CovertDtapErrorCode ret, d1) \<and>
    DTAP_SendFrame (Some (ch_addr c)) (Some fb) (e_tx (cs_env (d_chan d))) = (ret, s1) \<and> e_tx (cs_env (d_chan d1)) = s1 \<and>
    upcalls (e_dl (cs_env (d_chan (DTAP_DataRecv known' lcid' (Some fb) d')))) = upcalls (e_dl (cs_env (d_chan d'))) @ [(info, pkt)] \<and>
    (\<forall>pb. wf_buff pb \<and> buff_data pb = pkt \<longrightarrow> (\<exists>pb'. TRANS_DataRecvCbk linkByLcid (Some (info, pb)) t =
       (up (t_received t) addr (buff_data b), Some pb',
        t\<lparr>t_received := t_received t @ [(addr, buff_data b, up (t_received t) addr (buff_data b))]\<rparr>)))"
proof -
  let ?n = "of_nat (dataLen b) :: u16w"
  have o: "9 \<le> dataOff b" using b(2) by simp
  obtain b1 where b1: "TRANS_CltpHeaderBuild (srcPort a) (dstPort a) b = (TRANS_SUCCESS, b1)" "wf_buff b1"
      "buff_data b1 = cltp_header (srcPort a) (dstPort a) ?n @ buff_data b" "dataOff b1 = dataOff b - 9" "dataLen b1 = dataLen b + 9"
    by (rule TRANS_CltpHeaderBuild_ok [OF b(1) o])
  have l: "5 \<le> dataOff b1" "0 < dataLen b1" "dataLen b1 \<le> DTAP_MAX_PAYLOAD_LEN" "dataLen b1 \<le> c_mtu (ch_info c)" "dataLen b1 \<le> c_mps (ch_info c')"
    using b1(4,5) b(2,4,5) c'(5) by simp_all
  have q: "DTAP_PI_LWCLTP = (if c_dstTcid (ch_info c) > TCID_FTC_RFU_END then DTAP_PI_LWCLTP else DTAP_PI_NONE)" using c(3) by simp
  have r: "(case DTAP_GetDataRecvCbkByTcid (c_srcTcid (ch_info c')) d' of Some f \<Rightarrow> Some f | None \<Rightarrow> DTAP_GetProtoRecvCbk DTAP_PI_LWCLTP d') = Some cb"
    using c'(6,7) by simp
  obtain fb ret d1 s1 where p: "DTAP_DataSend known (Some \<lparr>data_pi = DTAP_PI_LWCLTP, data_lcid = lcid, data_tcid = t_tcid a, data_buff = Some b1\<rparr>) d = (ret, d1)"
      "DTAP_SendFrame (Some (ch_addr c)) (Some fb) (e_tx (cs_env (d_chan d))) = (ret, s1)" "e_tx (cs_env (d_chan d1)) = s1"
      "upcalls (e_dl (cs_env (d_chan (DTAP_DataRecv known' lcid' (Some fb) d')))) = upcalls (e_dl (cs_env (d_chan d'))) @ [(info, pkt)]"
    using basic_path [OF c(1,2) b1(2) l(1-4) c'(1-4) l(5) q r, of known known'] unfolding info_def pkt_def b1(3) by blast
  have s: "send_unit linkByAddr known a b d = (TRANS_CovertDtapErrorCode ret, d1)"
    using a b1(1) p(1) by (simp add: send_unit_def TRANS_SendDataToDtap_def)
  have len: "length (buff_data b) = dataLen b" using b(1) by simp
  have n: "unat ?n \<le> length (buff_data b)" "length (buff_data b) < 65536" using b(4) len by simp_all
  have "\<exists>pb'. TRANS_DataRecvCbk linkByLcid (Some (info, pb)) t = (up (t_received t) addr (buff_data b), Some pb',
        t\<lparr>t_received := t_received t @ [(addr, buff_data b, up (t_received t) addr (buff_data b))]\<rparr>)"
    if "wf_buff pb" "buff_data pb = pkt" for pb
    using recv_packet [OF that(1) that(2) [unfolded pkt_def] n, of info linkByLcid dev t up] t by (simp add: info_def addr_def)
  then show ?thesis using s p(2-4) by blast
qed

text \<open>Two devices with one channel each; the application of the peer accepts everything.\<close>

definition demo_transport :: transport where
  "demo_transport = \<lparr>g_transportCbks = \<lparr>recvDataCbk = Some (\<lambda>_ _ _. DTAP_SUCCESS), sendDataCbk = True\<rparr>, g_transIsInited = True,
     t_received = [], t_statusCalls = [], t_dtap = demo_link (demo_basic_at 0x21 0x20)\<rparr>"

definition demo_dev :: SLE_Addr where
  "demo_dev = \<lparr>addr_type = 1, addr_bytes = [1, 2, 3, 4, 5, 6]\<rparr>"

definition demo_packet :: SDF_Buff where
  "demo_packet = \<lparr>dataOff = 0, dataLen = 10, buffLen = 10, bytes = cltp_header 1 2 1 @ [7]\<rparr>"

theorem transport_end_to_end_witness:
  "\<exists>fb ret d1 s1 pb'. send_unit (\<lambda>_. Some 1) (\<lambda>_ _. True) demo_addr demo_buff7 (demo_link (demo_basic_at 0x20 0x21)) =
       (TRANS_CovertDtapErrorCode ret, d1) \<and>
    DTAP_SendFrame (Some 0) (Some fb) (e_tx (cs_env (d_chan (demo_link (demo_basic_at 0x20 0x21))))) = (ret, s1) \<and> e_tx (cs_env (d_chan d1)) = s1 \<and>
    upcalls (e_dl (cs_env (d_chan (DTAP_DataRecv (\<lambda>_ _. True) 1 (Some fb) (demo_link (demo_basic_at 0x21 0x20)))))) =
      [(\<lparr>info_pi = 3, info_lcid = 1, info_tcid = 0x21\<rparr>, buff_data demo_packet)] \<and>
    TRANS_DataRecvCbk (\<lambda>_. Some demo_dev)
         (Some (\<lparr>info_pi = 3, info_lcid = 1, info_tcid = 0x21\<rparr>, demo_packet)) demo_transport = (DTAP_SUCCESS, Some pb',
       demo_transport\<lparr>t_received := [(\<lparr>devAddr = demo_dev, t_tcid = 0x21, proto = 0, srcPort = 1, dstPort = 2\<rparr>, [7], DTAP_SUCCESS)]\<rparr>)"
proof -
  have a: "t_tcid demo_addr = 0x20" "proto demo_addr = 0" "srcPort demo_addr = 1" "dstPort demo_addr = 2" by (simp_all add: demo_addr_def)
  have b: "wf_buff demo_buff7" "14 \<le> dataOff demo_buff7" "dataLen demo_buff7 = 1" "buff_data demo_buff7 = [7]"
    by (simp_all add: demo_buff7_def wf_buff_def buff_data_def)
  have t: "recvDataCbk (g_transportCbks demo_transport) = Some (\<lambda>_ _ _. DTAP_SUCCESS)" "t_received demo_transport = []"
    by (simp_all add: demo_transport_def)
  have p: "wf_buff demo_packet" "buff_data demo_packet = cltp_header 1 2 1 @ [7]"
    by (simp_all add: demo_packet_def wf_buff_def buff_data_def)
  show ?thesis
    using transport_end_to_end [where linkByAddr = "\<lambda>_. Some 1" and a = demo_addr and lcid = 1 and d = "demo_link (demo_basic_at 0x20 0x21)"
        and c = "demo_basic_at 0x20 0x21" and b = demo_buff7 and lcid' = 1 and d' = "demo_link (demo_basic_at 0x21 0x20)"
        and c' = "demo_basic_at 0x21 0x20" and bc = "\<lparr>isReady = True, cacheRxBuffs = []\<rparr>" and cb = demo_cb
        and linkByLcid = "\<lambda>_. Some demo_dev" and dev = demo_dev and t = demo_transport and up = "\<lambda>_ _ _. DTAP_SUCCESS"
        and known = "\<lambda>_ _. True" and known' = "\<lambda>_ _. True"] p
    by (simp add: a b t demo_basic_info demo_link_chans demo_link_facts upcalls_def [of "[]"]) blast
qed

end
