(* ===== verification/Cm_Tcid.thy ===== *)
theory Cm_Tcid
  imports Nl_Prelude
begin

text \<open>
  Identifiers of dynamic transmission channels, \<^verbatim>\<open>services/stack/src/cp/bsl/sle/cm/dyntrans/src/cm_dyn_tcid.c\<close>. A connected
  link has a pool with one flag for each of the 96 unicast identifiers. The list of pools is a list of records
  (\<open>Sdf_DList\<close> shows that the list macros behave so).
\<close>

section \<open>Identifiers and results\<close>

datatype cm_ret = CM_SUCCESS | CM_FAIL | CM_INVALID_PARAM_ERR | CM_MEM_ERR | CM_NOT_FOUND | CM_NULL_POINTER

abbreviation (input) CM_TRANS_INVALID_TCID :: byte where "CM_TRANS_INVALID_TCID \<equiv> 0x00"
abbreviation (input) CM_TCID_UC_BEGIN :: byte where "CM_TCID_UC_BEGIN \<equiv> 0x80"
abbreviation (input) CM_TCID_UC_END :: byte where "CM_TCID_UC_END \<equiv> 0xDF"
abbreviation (input) CM_DYN_UNICAST_TCID_SIZE_MAX :: nat where "CM_DYN_UNICAST_TCID_SIZE_MAX \<equiv> 96"

abbreviation (input) CM_ACCESS_TRANS_MODE_UNICAST :: nat where "CM_ACCESS_TRANS_MODE_UNICAST \<equiv> 0"
abbreviation (input) CM_ACCESS_TRANS_MODE_MAX :: nat where "CM_ACCESS_TRANS_MODE_MAX \<equiv> 6"

section \<open>Pools\<close>

record CM_DynTcidPool =
  pool_lcid :: u16w
  unicastTcidUsed :: "bool list"

text \<open>The static variables of the file, and the script of the allocator.\<close>

record tcid_st =
  g_cmDynTransPoolListHead :: "CM_DynTcidPool list"
  g_cmDynTcidIsInited :: bool

abbreviation pools :: "tcid_st \<Rightarrow> CM_DynTcidPool list" where "pools \<equiv> g_cmDynTransPoolListHead"

definition CM_DynTransGetTcidPool :: "u16w \<Rightarrow> tcid_st \<Rightarrow> CM_DynTcidPool option" where
  "CM_DynTransGetTcidPool lcid s = find_first (\<lambda>p. pool_lcid p = lcid) (pools s)"

text \<open>A write through the pointer that \<open>CM_DynTransGetTcidPool\<close> returned.\<close>

definition upd_pool :: "u16w \<Rightarrow> (bool list \<Rightarrow> bool list) \<Rightarrow> tcid_st \<Rightarrow> tcid_st" where
  "upd_pool lcid f s = s\<lparr>g_cmDynTransPoolListHead :=
     upd_first (\<lambda>p. pool_lcid p = lcid) (\<lambda>p. p\<lparr>unicastTcidUsed := f (unicastTcidUsed p)\<rparr>) (pools s)\<rparr>"

definition CM_DynTcidActivatePool :: "u16w \<Rightarrow> mem \<Rightarrow> tcid_st \<Rightarrow> cm_ret \<times> mem \<times> tcid_st" where
  "CM_DynTcidActivatePool lcid m s =
     (case CM_DynTransGetTcidPool lcid s of
        Some _ \<Rightarrow> (CM_SUCCESS, m, s)
      | None \<Rightarrow>
          case SDF_MemAlloc m of (ok, m1) \<Rightarrow>
            if \<not> ok then (CM_MEM_ERR, m1, s)
            else (CM_SUCCESS, m1, s\<lparr>g_cmDynTransPoolListHead :=
                    pools s @ [\<lparr>pool_lcid = lcid, unicastTcidUsed = replicate CM_DYN_UNICAST_TCID_SIZE_MAX False\<rparr>]\<rparr>))"

definition CM_DynTcidDestroyPool :: "u16w \<Rightarrow> tcid_st \<Rightarrow> cm_ret \<times> tcid_st" where
  "CM_DynTcidDestroyPool lcid s =
     (case CM_DynTransGetTcidPool lcid s of
        None \<Rightarrow> (CM_SUCCESS, s)
      | Some _ \<Rightarrow> (CM_SUCCESS, s\<lparr>g_cmDynTransPoolListHead := remove_first (\<lambda>p. pool_lcid p = lcid) (pools s)\<rparr>))"

definition CM_DynTcidInit :: "tcid_st \<Rightarrow> tcid_st" where
  "CM_DynTcidInit s =
     (if g_cmDynTcidIsInited s then s else s\<lparr>g_cmDynTransPoolListHead := [], g_cmDynTcidIsInited := True\<rparr>)"

definition CM_DynTcidDeInit :: "tcid_st \<Rightarrow> tcid_st" where
  "CM_DynTcidDeInit s =
     (if g_cmDynTcidIsInited s
      then (foldl (\<lambda>s p. snd (CM_DynTcidDestroyPool (pool_lcid p) s)) s (pools s))\<lparr>g_cmDynTcidIsInited := False\<rparr>
      else s)"

text \<open>The loop of \<open>CM_DynAllocateUnicastTcid\<close> from position \<open>i\<close> on; \<open>used\<close> is what is left of the array.\<close>

fun first_unused :: "nat \<Rightarrow> nat \<Rightarrow> bool list \<Rightarrow> nat option" where
  "first_unused i m [] = None"
| "first_unused i m (u # used) = (if i > m then None else if \<not> u then Some i else first_unused (i + 1) m used)"

definition CM_DynAllocateUnicastTcid :: "CM_DynTcidPool \<Rightarrow> byte \<Rightarrow> byte \<Rightarrow> tcid_st \<Rightarrow> byte \<times> tcid_st" where
  "CM_DynAllocateUnicastTcid node minValue maxValue s =
     (case first_unused 0 (unat maxValue - unat minValue) (unicastTcidUsed node) of
        None \<Rightarrow> (CM_TRANS_INVALID_TCID, s)
      | Some i \<Rightarrow> (of_nat i + minValue, upd_pool (pool_lcid node) (\<lambda>used. used[i := True]) s))"

definition CM_DynReturnAllocatedUnicastTcid :: "CM_DynTcidPool \<Rightarrow> byte \<Rightarrow> byte \<Rightarrow> byte \<Rightarrow> tcid_st \<Rightarrow> cm_ret \<times> tcid_st" where
  "CM_DynReturnAllocatedUnicastTcid node tcid minValue maxValue s =
     (let i = unat tcid - unat minValue in
      if tcid < minValue \<or> tcid > maxValue \<or> i \<ge> length (unicastTcidUsed node) then (CM_FAIL, s)
      else if \<not> unicastTcidUsed node ! i then (CM_FAIL, s)
      else (CM_SUCCESS, upd_pool (pool_lcid node) (\<lambda>used. used[i := False]) s))"

definition CM_DynTcidAllocate :: "u16w \<Rightarrow> nat \<Rightarrow> tcid_st \<Rightarrow> byte \<times> tcid_st" where
  "CM_DynTcidAllocate lcid transportMode s =
     (case CM_DynTransGetTcidPool lcid s of
        None \<Rightarrow> (CM_TRANS_INVALID_TCID, s)
      | Some node \<Rightarrow>
          if transportMode = CM_ACCESS_TRANS_MODE_UNICAST
          then CM_DynAllocateUnicastTcid node CM_TCID_UC_BEGIN CM_TCID_UC_END s else (CM_TRANS_INVALID_TCID, s))"

definition CM_DynTcidRelease :: "u16w \<Rightarrow> byte \<Rightarrow> nat \<Rightarrow> tcid_st \<Rightarrow> cm_ret \<times> tcid_st" where
  "CM_DynTcidRelease lcid tcid transportMode s =
     (case CM_DynTransGetTcidPool lcid s of
        None \<Rightarrow> (CM_FAIL, s)
      | Some node \<Rightarrow>
          if transportMode = CM_ACCESS_TRANS_MODE_UNICAST
          then CM_DynReturnAllocatedUnicastTcid node tcid CM_TCID_UC_BEGIN CM_TCID_UC_END s else (CM_FAIL, s))"

section \<open>A pool is a set of identifiers\<close>

definition used_tcids :: "CM_DynTcidPool \<Rightarrow> byte set" where
  "used_tcids p = {t. CM_TCID_UC_BEGIN \<le> t \<and> t \<le> CM_TCID_UC_END \<and> unicastTcidUsed p ! (unat t - 128)}"

definition pool_of :: "tcid_st \<Rightarrow> u16w \<rightharpoonup> byte set" where
  "pool_of s lcid = map_option used_tcids (CM_DynTransGetTcidPool lcid s)"

definition wf_pools :: "tcid_st \<Rightarrow> bool" where
  "wf_pools s \<longleftrightarrow> distinct (map pool_lcid (pools s)) \<and>
     (\<forall>p\<in>set (pools s). length (unicastTcidUsed p) = CM_DYN_UNICAST_TCID_SIZE_MAX)"

lemma pool_of_dom: "dom (pool_of s) = pool_lcid ` set (pools s)"
  by (force simp: pool_of_def CM_DynTransGetTcidPool_def dom_def find_first_None_iff)

lemma first_unused_SomeD:
  "first_unused i m used = Some k \<Longrightarrow> i \<le> k \<and> k \<le> m \<and> k - i < length used \<and> \<not> used ! (k - i)"
  by (induction i m used rule: first_unused.induct) (auto simp: nth_Cons' Suc_diff_le split: if_splits)

lemma first_unused_NoneD: "first_unused i m used = None \<Longrightarrow> j < length used \<Longrightarrow> i + j \<le> m \<Longrightarrow> used ! j"
proof (induction i m used arbitrary: j rule: first_unused.induct)
  case (2 i m u used)
  then show ?case by (cases j) (auto split: if_splits)
qed simp

lemma uc_tcid:
  fixes t :: byte
  shows "CM_TCID_UC_BEGIN \<le> t \<and> t \<le> CM_TCID_UC_END \<longleftrightarrow> 128 \<le> unat t \<and> unat t < 224"
  by (auto simp: word_le_nat_alt)

lemma mem_used_tcids: "t \<in> used_tcids p \<longleftrightarrow> 128 \<le> unat t \<and> unat t < 224 \<and> unicastTcidUsed p ! (unat t - 128)"
  using uc_tcid [of t] by (auto simp: used_tcids_def)

lemma unat_uc: "i < 96 \<Longrightarrow> unat (of_nat i + CM_TCID_UC_BEGIN :: byte) = i + 128"
  by (simp add: unat_word_ariths unat_of_nat take_bit_eq_mod)

lemma upd_pool_inited [simp]: "g_cmDynTcidIsInited (upd_pool lcid f s) = g_cmDynTcidIsInited s"
  by (simp add: upd_pool_def)

lemma upd_pool_wf:
  assumes "wf_pools s" "\<And>u. length (f u) = length u"
  shows "wf_pools (upd_pool lcid f s)"
proof -
  let ?n = "\<lambda>p. length (unicastTcidUsed p)"
  have "map pool_lcid (pools (upd_pool lcid f s)) = map pool_lcid (pools s)" "map ?n (pools (upd_pool lcid f s)) = map ?n (pools s)"
    unfolding upd_pool_def by (simp_all add: map_upd_first assms(2))
  then have "distinct (map pool_lcid (pools (upd_pool lcid f s))) = distinct (map pool_lcid (pools s))"
    "?n ` set (pools (upd_pool lcid f s)) = ?n ` set (pools s)" by (metis, metis set_map)
  then show ?thesis using assms(1) unfolding wf_pools_def by (metis (no_types, lifting) image_iff)
qed

lemma pool_of_upd:
  assumes "CM_DynTransGetTcidPool lcid s = Some p"
  shows "pool_of (upd_pool lcid f s) = (pool_of s)(lcid \<mapsto> used_tcids (p\<lparr>unicastTcidUsed := f (unicastTcidUsed p)\<rparr>))"
proof
  fix k
  have "find_first (\<lambda>p. pool_lcid p = lcid) (pools s) = Some p" using assms by (simp add: CM_DynTransGetTcidPool_def)
  moreover have "pool_lcid p = lcid" using find_first_SomeD [OF calculation] by simp
  ultimately show "pool_of (upd_pool lcid f s) k = ((pool_of s)(lcid \<mapsto> used_tcids (p\<lparr>unicastTcidUsed := f (unicastTcidUsed p)\<rparr>))) k"
    by (cases "k = lcid") (simp_all add: pool_of_def CM_DynTransGetTcidPool_def upd_pool_def find_upd_first find_upd_first_other)
qed

lemma GetTcidPool_wf:
  "wf_pools s \<Longrightarrow> CM_DynTransGetTcidPool lcid s = Some p \<Longrightarrow> pool_lcid p = lcid \<and> length (unicastTcidUsed p) = 96"
  by (auto simp: wf_pools_def CM_DynTransGetTcidPool_def dest: find_first_SomeD)

lemma used_tcids_upd:
  assumes "length (unicastTcidUsed p) = 96" "i < 96"
  shows "used_tcids (p\<lparr>unicastTcidUsed := (unicastTcidUsed p)[i := b]\<rparr>) =
    (if b then insert (of_nat i + CM_TCID_UC_BEGIN) (used_tcids p) else used_tcids p - {of_nat i + CM_TCID_UC_BEGIN})"
proof -
  have e: "t = of_nat i + CM_TCID_UC_BEGIN \<longleftrightarrow> unat t = i + 128" for t :: byte
    using unat_uc [OF assms(2)] by (metis word_unat_eq_iff)
  show ?thesis
  proof (rule set_eqI)
    fix t
    show "t \<in> used_tcids (p\<lparr>unicastTcidUsed := (unicastTcidUsed p)[i := b]\<rparr>) \<longleftrightarrow>
      t \<in> (if b then insert (of_nat i + CM_TCID_UC_BEGIN) (used_tcids p) else used_tcids p - {of_nat i + CM_TCID_UC_BEGIN})"
      using assms by (auto simp: mem_used_tcids e nth_list_update)
  qed
qed

text \<open>The operations on this view: a map from links to the sets of their identifiers in use.\<close>

lemma CM_DynTcidAllocate_spec:
  assumes "wf_pools s" "CM_DynTcidAllocate lcid mode s = (t, s')"
  shows "wf_pools s' \<and> g_cmDynTcidIsInited s' = g_cmDynTcidIsInited s \<and>
    (if t = CM_TRANS_INVALID_TCID then s' = s \<and> (mode = CM_ACCESS_TRANS_MODE_UNICAST \<longrightarrow> pool_of s lcid \<in> {None, Some {CM_TCID_UC_BEGIN..CM_TCID_UC_END}})
     else mode = CM_ACCESS_TRANS_MODE_UNICAST \<and> t \<in> {CM_TCID_UC_BEGIN..CM_TCID_UC_END} \<and>
       (\<exists>U. pool_of s lcid = Some U \<and> t \<notin> U \<and> pool_of s' = (pool_of s)(lcid \<mapsto> insert t U)))"
proof (cases "CM_DynTransGetTcidPool lcid s")
  case None
  then show ?thesis using assms by (auto simp: CM_DynTcidAllocate_def pool_of_def)
next
  case (Some p)
  note w = GetTcidPool_wf [OF assms(1) Some]
  show ?thesis
  proof (cases "mode = CM_ACCESS_TRANS_MODE_UNICAST")
    case False
    then show ?thesis using assms Some by (auto simp: CM_DynTcidAllocate_def)
  next
    case True
    show ?thesis
    proof (cases "first_unused 0 95 (unicastTcidUsed p)")
      case None
      then have "unicastTcidUsed p ! j" if "j < 96" for j using first_unused_NoneD [OF None, of j] w that by simp
      then have "used_tcids p = {CM_TCID_UC_BEGIN..CM_TCID_UC_END}"
        by (auto simp: mem_used_tcids uc_tcid [unfolded atLeastAtMost_iff] word_le_nat_alt)
      then show ?thesis using assms Some True None by (auto simp: CM_DynTcidAllocate_def CM_DynAllocateUnicastTcid_def pool_of_def)
    next
      case u: (Some i)
      have i: "i < 96" "\<not> unicastTcidUsed p ! i" using first_unused_SomeD [OF u] by simp_all
      have t: "t = of_nat i + CM_TCID_UC_BEGIN" "s' = upd_pool lcid (\<lambda>used. used[i := True]) s"
        using assms(2) Some True u w by (simp_all add: CM_DynTcidAllocate_def CM_DynAllocateUnicastTcid_def)
      have ut: "unat t = i + 128" using unat_uc [OF i(1)] t(1) by simp
      then have "t \<noteq> 0" "t \<in> {CM_TCID_UC_BEGIN..CM_TCID_UC_END}" "t \<notin> used_tcids p"
        using i by (auto simp: mem_used_tcids word_le_nat_alt)
      moreover have "pool_of s' = (pool_of s)(lcid \<mapsto> insert t (used_tcids p))"
        unfolding t(2) pool_of_upd [OF Some] using used_tcids_upd [OF _ i(1), of p True] w t(1) by simp
      moreover have "wf_pools s'" unfolding t(2) by (rule upd_pool_wf [OF assms(1)]) simp
      moreover have "pool_of s lcid = Some (used_tcids p)" using Some by (simp add: pool_of_def)
      ultimately show ?thesis using True t(2) by simp
    qed
  qed
qed

lemma CM_DynTcidRelease_spec:
  assumes "wf_pools s" "CM_DynTcidRelease lcid t mode s = (ret, s')"
  shows "wf_pools s' \<and> g_cmDynTcidIsInited s' = g_cmDynTcidIsInited s \<and>
    (if mode = CM_ACCESS_TRANS_MODE_UNICAST \<and> (\<exists>U. pool_of s lcid = Some U \<and> t \<in> U)
     then ret = CM_SUCCESS \<and> pool_of s' = (pool_of s)(lcid \<mapsto> the (pool_of s lcid) - {t})
     else ret = CM_FAIL \<and> s' = s)"
proof (cases "CM_DynTransGetTcidPool lcid s")
  case None
  then show ?thesis using assms by (auto simp: CM_DynTcidRelease_def pool_of_def)
next
  case (Some p)
  note w = GetTcidPool_wf [OF assms(1) Some]
  let ?i = "unat t - 128"
  have m: "t \<in> used_tcids p \<longleftrightarrow> \<not> (t < CM_TCID_UC_BEGIN \<or> t > CM_TCID_UC_END \<or> ?i \<ge> length (unicastTcidUsed p)) \<and> unicastTcidUsed p ! ?i"
    using w by (auto simp: mem_used_tcids word_less_nat_alt)
  show ?thesis
  proof (cases "mode = CM_ACCESS_TRANS_MODE_UNICAST \<and> t \<in> used_tcids p")
    case True
    then have i: "?i < 96" "unat t = ?i + 128" by (auto simp: mem_used_tcids)
    have t: "t = of_nat ?i + CM_TCID_UC_BEGIN" using unat_uc [OF i(1)] i(2) by (metis word_unat_eq_iff)
    have s': "ret = CM_SUCCESS" "s' = upd_pool lcid (\<lambda>used. used[?i := False]) s"
      using assms(2) Some True m w by (auto simp: CM_DynTcidRelease_def CM_DynReturnAllocatedUnicastTcid_def Let_def)
    have "pool_of s' = (pool_of s)(lcid \<mapsto> used_tcids p - {t})"
      unfolding s'(2) pool_of_upd [OF Some] using used_tcids_upd [OF _ i(1), of p False] w t by simp
    moreover have "wf_pools s'" unfolding s'(2) by (rule upd_pool_wf [OF assms(1)]) simp
    moreover have "pool_of s lcid = Some (used_tcids p)" using Some by (simp add: pool_of_def)
    ultimately show ?thesis using True s' by simp
  next
    case False
    then have "ret = CM_FAIL" "s' = s"
      using assms(2) Some m by (auto simp: CM_DynTcidRelease_def CM_DynReturnAllocatedUnicastTcid_def Let_def split: if_splits)
    then show ?thesis using assms(1) False Some by (auto simp: pool_of_def)
  qed
qed

lemma CM_DynTcidActivatePool_spec:
  assumes "wf_pools s" "CM_DynTcidActivatePool lcid m s = (ret, m', s')"
  shows "wf_pools s' \<and> g_cmDynTcidIsInited s' = g_cmDynTcidIsInited s \<and> (mem_ok m \<longrightarrow> ret = CM_SUCCESS \<and> mem_ok m') \<and>
    pool_of s' = (if ret = CM_SUCCESS \<and> pool_of s lcid = None then (pool_of s)(lcid \<mapsto> {}) else pool_of s)"
proof (cases "CM_DynTransGetTcidPool lcid s")
  case None
  obtain ok m1 where m: "SDF_MemAlloc m = (ok, m1)" by fastforce
  have n: "lcid \<notin> pool_lcid ` set (pools s)" using None by (auto simp: CM_DynTransGetTcidPool_def find_first_None_iff)
  have f: "find_first P (l @ [x]) = (case find_first P l of None \<Rightarrow> if P x then Some x else None | Some y \<Rightarrow> Some y)" for P l and x :: CM_DynTcidPool
    by (induction l) simp_all
  have "used_tcids \<lparr>pool_lcid = lcid, unicastTcidUsed = replicate 96 False\<rparr> = {}"
    by (auto simp: mem_used_tcids)
  then show ?thesis
    using assms None m n SDF_MemAlloc_ok [of m]
    by (auto simp: CM_DynTcidActivatePool_def wf_pools_def pool_of_def CM_DynTransGetTcidPool_def f fun_eq_iff split: if_splits option.splits)
next
  case (Some p)
  then show ?thesis using assms by (auto simp: CM_DynTcidActivatePool_def pool_of_def)
qed

lemma CM_DynTcidDestroyPool_spec:
  assumes "wf_pools s" "CM_DynTcidDestroyPool lcid s = (ret, s')"
  shows "ret = CM_SUCCESS \<and> wf_pools s' \<and> g_cmDynTcidIsInited s' = g_cmDynTcidIsInited s \<and> pool_of s' = (pool_of s)(lcid := None)"
proof (cases "CM_DynTransGetTcidPool lcid s")
  case None
  then show ?thesis using assms by (auto simp: CM_DynTcidDestroyPool_def pool_of_def fun_eq_iff)
next
  case (Some p)
  let ?P = "\<lambda>k p. pool_lcid p = k"
  have r: "remove_first (?P lcid) l = filter (\<lambda>p. pool_lcid p \<noteq> lcid) l" if "distinct (map pool_lcid l)" for l
    using that by (induction l) (auto intro!: filter_True [symmetric] simp: rev_image_eqI)
  have f: "find_first (?P k) (filter (\<lambda>p. pool_lcid p \<noteq> lcid) l) = (if k = lcid then None else find_first (?P k) l)" for k l
    by (induction l) auto
  have s': "ret = CM_SUCCESS" "s' = s\<lparr>g_cmDynTransPoolListHead := filter (\<lambda>p. pool_lcid p \<noteq> lcid) (pools s)\<rparr>"
    using assms Some r [of "pools s"] by (auto simp: CM_DynTcidDestroyPool_def wf_pools_def)
  show ?thesis using assms(1) by (auto simp: s' wf_pools_def pool_of_def CM_DynTransGetTcidPool_def f fun_eq_iff distinct_map_filter)
qed

lemma CM_DynTcidInit_spec:
  "wf_pools s \<Longrightarrow> wf_pools (CM_DynTcidInit s) \<and> pool_of (CM_DynTcidInit s) \<subseteq>\<^sub>m pool_of s"
  by (auto simp: CM_DynTcidInit_def wf_pools_def pool_of_def CM_DynTransGetTcidPool_def map_le_def)

lemma CM_DynTcidDeInit_spec:
  assumes "wf_pools s"
  shows "wf_pools (CM_DynTcidDeInit s) \<and> pool_of (CM_DynTcidDeInit s) \<subseteq>\<^sub>m pool_of s"
proof -
  have "wf_pools s \<Longrightarrow> wf_pools (foldl (\<lambda>s p. snd (CM_DynTcidDestroyPool (pool_lcid p) s)) s l) \<and>
      pool_of (foldl (\<lambda>s p. snd (CM_DynTcidDestroyPool (pool_lcid p) s)) s l) \<subseteq>\<^sub>m pool_of s" for s l
  proof (induction l arbitrary: s)
    case (Cons p l)
    obtain r s1 where d: "CM_DynTcidDestroyPool (pool_lcid p) s = (r, s1)" by fastforce
    have w: "wf_pools s1" "pool_of s1 \<subseteq>\<^sub>m pool_of s" using CM_DynTcidDestroyPool_spec [OF Cons.prems d] by (auto simp: map_le_def)
    show ?case using Cons.IH [OF w(1)] w(2) d by (auto intro: map_le_trans)
  qed simp
  from this [OF assms] show ?thesis
    using assms by (auto simp: CM_DynTcidDeInit_def wf_pools_def pool_of_def [abs_def] CM_DynTransGetTcidPool_def)
qed

end
