(* ===== verification/Cm_Trans.thy ===== *)
theory Cm_Trans
  imports Cm_Tcid Trans_Core
begin

text \<open>
  The transmission channels of the connection manager, \<^verbatim>\<open>services/stack/src/cp/bsl/sle/cm/link/src/cm_trans_channel_mgr.c\<close>: the
  lists of fixed and of dynamic channels, and the reports of their state to the listener, which is the data plane.

  A node is a record with its address \<open>n_ptr\<close>, by which it is unlinked; \<open>linkByLcid\<close> is \<open>SleLogicLinkGetByLcid\<close>, of which the
  code uses the address of the remote device. Freeing the elements of a vector has no counterpart. The state of the listener has the type \<open>'d\<close>. The member \<open>accessParams\<close> is a null
  pointer in every channel and has no field. The union of the configurations of the modes is a pair of fields; the structure of the
  signalling has the same layout, so copying between them does not fail.
\<close>

section \<open>Data\<close>

record CM_TransModeConfig =
  tm_transMode :: nat
  tm_mtu :: nat
  tm_mps :: nat
  tm_reliableMode :: CM_TransReliableModeConfig
  tm_streamMode :: CM_TransStreamModeConfig

record SleTransLcidParam =
  tp_version :: nat
  tp_localIndex :: nat
  tp_transModeConfig :: CM_TransModeConfig
  tp_castMode :: nat
  tp_channelMode :: nat
  tp_direction :: nat
  tp_aid :: nat
  tp_exclusive :: bool
  tp_srcPort :: u16w
  tp_dstPort :: u16w
  tp_slqi :: nat
  tp_frameType :: nat

record SleTransLcid =
  n_ptr :: nat
  n_lcid :: u16w
  n_addr :: SLE_Addr
  n_state :: nat
  n_params :: "SleTransLcidParam option"
  n_local :: byte
  n_remote :: byte

abbreviation (input) CM_TRANS_CHANNEL_STATE_INIT :: nat where "CM_TRANS_CHANNEL_STATE_INIT \<equiv> 0"
abbreviation (input) CM_TRANS_CHANNEL_STATE_ACTIVATING :: nat where "CM_TRANS_CHANNEL_STATE_ACTIVATING \<equiv> 1"
abbreviation (input) CM_TRANS_CHANNEL_STATE_RELEASING :: nat where "CM_TRANS_CHANNEL_STATE_RELEASING \<equiv> 3"

definition CM_TRANS_CHANNEL_IS_FIXED :: "byte \<Rightarrow> bool" where
  "CM_TRANS_CHANNEL_IS_FIXED tcid \<longleftrightarrow> 0x01 \<le> tcid \<and> tcid \<le> CM_TCID_SLE_CUTC"

definition CM_TRANS_CHANNEL_IS_DYNAMIC :: "byte \<Rightarrow> bool" where
  "CM_TRANS_CHANNEL_IS_DYNAMIC tcid \<longleftrightarrow> 0x20 \<le> tcid \<and> tcid \<le> 0xFF"

text \<open>\<^verbatim>\<open>CM_DynTransChanParam_S\<close>, the argument of the events of a dynamic channel.\<close>

record CM_DynTransChanParam =
  y_version :: nat
  y_localIndex :: nat
  y_lcid :: u16w
  y_reqId :: nat
  y_localTcid :: byte
  y_remoteTcid :: byte
  y_srcPort :: u16w
  y_dstPort :: u16w
  y_transModeConfig :: CM_TransModeConfig
  y_channelMode :: nat
  y_direction :: nat
  y_aid :: nat
  y_slqi :: nat
  y_exclusive :: bool
  y_measure :: bool
  y_expectedTransportMode :: nat
  y_result :: nat
  y_state :: nat
  y_frameType :: nat

type_synonym 'd trans_listener = "nat \<Rightarrow> (CM_TransChan, unit) SDF_Vector option \<Rightarrow> 'd \<Rightarrow> 'd"

type_synonym node_vector = "(SleTransLcid, unit) SDF_Vector"

text \<open>The static variables of the file, the identifiers of \<open>Cm_Tcid\<close>, the state of the listener, and the allocator. \<open>cm_next\<close> is
  the address of the next node.\<close>

record 'd cm_trans =
  g_fixedTransListHead :: "SleTransLcid list"
  g_dynTransListHead :: "SleTransLcid list"
  g_transChannelCbk :: "'d trans_listener option"
  cm_listener :: 'd
  cm_tcids :: tcid_st
  cm_mem :: mem
  cm_next :: nat

section \<open>Initialisation and registration\<close>

definition CM_TransChannelMgrInit :: "('d, 'x) cm_trans_scheme \<Rightarrow> ('d, 'x) cm_trans_scheme" where
  "CM_TransChannelMgrInit st = st\<lparr>g_fixedTransListHead := [], g_dynTransListHead := []\<rparr>"

text \<open>\<open>SDF_DListDestroy\<close> with \<open>CM_TransChannelFreeNode\<close> unlinks and frees every node.\<close>

definition CM_TransChannelMgrDeInit :: "('d, 'x) cm_trans_scheme \<Rightarrow> ('d, 'x) cm_trans_scheme" where
  "CM_TransChannelMgrDeInit st = st\<lparr>g_fixedTransListHead := [], g_dynTransListHead := []\<rparr>"

definition CM_RegTransChannelCbk :: "'d trans_listener option \<Rightarrow> ('d, 'x) cm_trans_scheme \<Rightarrow> cm_ret \<times> ('d, 'x) cm_trans_scheme" where
  "CM_RegTransChannelCbk cbk st = (CM_SUCCESS, st\<lparr>g_transChannelCbk := cbk\<rparr>)"

definition CM_UnRegTransChannelCbk :: "('d, 'x) cm_trans_scheme \<Rightarrow> ('d, 'x) cm_trans_scheme" where
  "CM_UnRegTransChannelCbk st = st\<lparr>g_transChannelCbk := None\<rparr>"

section \<open>Searching\<close>

definition CM_IsExistFixedTransChannelByLcid :: "u16w \<Rightarrow> ('d, 'x) cm_trans_scheme \<Rightarrow> bool" where
  "CM_IsExistFixedTransChannelByLcid lcid st = list_ex (\<lambda>n. n_lcid n = lcid) (g_fixedTransListHead st)"

definition CM_IsExistDynamicTransChannelByLcid :: "u16w \<Rightarrow> ('d, 'x) cm_trans_scheme \<Rightarrow> bool" where
  "CM_IsExistDynamicTransChannelByLcid lcid st = list_ex (\<lambda>n. n_lcid n = lcid) (g_dynTransListHead st)"

text \<open>The loop that puts nodes into a vector; it goes on when a node could not be added.\<close>

fun fill_vector :: "'a list \<Rightarrow> ('a, unit) SDF_Vector option \<Rightarrow> mem \<Rightarrow> ('a, unit) SDF_Vector option \<times> mem" where
  "fill_vector [] v m = (v, m)"
| "fill_vector (n # ns) v m = (case SDF_VectorEmplaceBack v (Some n) m of (_, v1, m1) \<Rightarrow> fill_vector ns v1 m1)"

definition find_by_lcid :: "SleTransLcid list \<Rightarrow> u16w \<Rightarrow> node_vector option \<Rightarrow> mem \<Rightarrow> cm_ret \<times> node_vector option \<times> mem" where
  "find_by_lcid nodes lcid vec m =
     (if vec = None then (CM_INVALID_PARAM_ERR, vec, m)
      else case fill_vector (filter (\<lambda>n. n_lcid n = lcid) nodes) vec m of (v, m1) \<Rightarrow>
        ((case v of Some w \<Rightarrow> if vsize w = 0 then CM_NOT_FOUND else CM_SUCCESS | None \<Rightarrow> CM_NOT_FOUND), v, m1))"

definition CM_FindFixedTransChannelByLcid :: "u16w \<Rightarrow> node_vector option \<Rightarrow> ('d, 'x) cm_trans_scheme \<Rightarrow>
    cm_ret \<times> node_vector option \<times> ('d, 'x) cm_trans_scheme" where
  "CM_FindFixedTransChannelByLcid lcid vec st =
     (case find_by_lcid (g_fixedTransListHead st) lcid vec (cm_mem st) of (ret, v, m) \<Rightarrow> (ret, v, st\<lparr>cm_mem := m\<rparr>))"

definition CM_FindDynTransChannelByLcid :: "u16w \<Rightarrow> node_vector option \<Rightarrow> ('d, 'x) cm_trans_scheme \<Rightarrow>
    cm_ret \<times> node_vector option \<times> ('d, 'x) cm_trans_scheme" where
  "CM_FindDynTransChannelByLcid lcid vec st =
     (case find_by_lcid (g_dynTransListHead st) lcid vec (cm_mem st) of (ret, v, m) \<Rightarrow> (ret, v, st\<lparr>cm_mem := m\<rparr>))"

definition CM_FindTransChannelByLocalTcid :: "u16w \<Rightarrow> byte \<Rightarrow> ('d, 'x) cm_trans_scheme \<Rightarrow> SleTransLcid option" where
  "CM_FindTransChannelByLocalTcid lcid tcid st =
     find_first (\<lambda>n. n_lcid n = lcid \<and> n_local n = tcid)
       (if CM_TRANS_CHANNEL_IS_FIXED tcid then g_fixedTransListHead st else g_dynTransListHead st)"

definition CM_FindTransChannelByRemoteTcid :: "u16w \<Rightarrow> byte \<Rightarrow> ('d, 'x) cm_trans_scheme \<Rightarrow> SleTransLcid option" where
  "CM_FindTransChannelByRemoteTcid lcid tcid st =
     find_first (\<lambda>n. n_lcid n = lcid \<and> n_remote n = tcid)
       (if CM_TRANS_CHANNEL_IS_FIXED tcid then g_fixedTransListHead st else g_dynTransListHead st)"

section \<open>Nodes\<close>

definition cm_alloc :: "('d, 'x) cm_trans_scheme \<Rightarrow> bool \<times> ('d, 'x) cm_trans_scheme" where
  "cm_alloc st = (case SDF_MemAlloc (cm_mem st) of (ok, m) \<Rightarrow> (ok, st\<lparr>cm_mem := m\<rparr>))"

definition CM_AllocTransChannelNode :: "u16w \<Rightarrow> SLE_Addr \<Rightarrow> SleTransLcidParam option \<Rightarrow> byte \<Rightarrow> byte \<Rightarrow> ('d, 'x) cm_trans_scheme \<Rightarrow>
    SleTransLcid option \<times> ('d, 'x) cm_trans_scheme" where
  "CM_AllocTransChannelNode lcid a params localTcid remoteTcid st =
     (case cm_alloc st of (ok, st1) \<Rightarrow>
      if \<not> ok then (None, st1)
      else case (if params = None then (True, st1) else cm_alloc st1) of (ok2, st2) \<Rightarrow>
        if \<not> ok2 then (None, st2)
        else (Some \<lparr>n_ptr = cm_next st2, n_lcid = lcid, n_addr = a, n_state = 0, n_params = params, n_local = localTcid, n_remote = remoteTcid\<rparr>,
              st2\<lparr>cm_next := cm_next st2 + 1\<rparr>))"

definition CM_AllocTransChannel :: "(u16w \<Rightarrow> SLE_Addr option) \<Rightarrow> u16w \<Rightarrow> SleTransLcidParam option \<Rightarrow> byte \<Rightarrow> byte \<Rightarrow> nat \<Rightarrow>
    ('d, 'x) cm_trans_scheme \<Rightarrow> SleTransLcid option \<times> ('d, 'x) cm_trans_scheme" where
  "CM_AllocTransChannel linkByLcid lcid params localTcid remoteTcid channelState st =
     (case linkByLcid lcid of
        None \<Rightarrow> (None, st)
      | Some a \<Rightarrow>
          (case CM_AllocTransChannelNode lcid a params localTcid remoteTcid st of
             (None, st1) \<Rightarrow> (None, st1)
           | (Some n, st1) \<Rightarrow>
               let node = n\<lparr>n_state := channelState\<rparr> in
               (Some node,
                if CM_TRANS_CHANNEL_IS_FIXED localTcid
                then st1\<lparr>g_fixedTransListHead := g_fixedTransListHead st1 @ [node]\<rparr>
                else st1\<lparr>g_dynTransListHead := g_dynTransListHead st1 @ [node]\<rparr>)))"

section \<open>Reports to the listener\<close>

text \<open>The \<^verbatim>\<open>CM_TransChan_S\<close> of a node; without parameters it is a basic channel with the largest sizes.\<close>

definition zero_reliable :: CM_TransReliableModeConfig where
  "zero_reliable = \<lparr>rc_reorderTimeout = 0, rc_crcInit = 0, rc_retransTimeout = 0, rc_rspTimeout = 0, rc_txWindow = 0, rc_maxTxThreshold = 0\<rparr>"

definition zero_stream :: CM_TransStreamModeConfig where
  "zero_stream = \<lparr>sc_reorderTimeout = 0, sc_crcInit = 0, sc_flushTimeout = 0\<rparr>"

definition basic_config :: CM_TransModeConfig where
  "basic_config = \<lparr>tm_transMode = CM_TRANS_MODE_BASIC, tm_mtu = 65535, tm_mps = 65535, tm_reliableMode = zero_reliable, tm_streamMode = zero_stream\<rparr>"

definition node_config :: "SleTransLcid \<Rightarrow> CM_TransModeConfig" where
  "node_config node = (case n_params node of None \<Rightarrow> basic_config | Some p \<Rightarrow> tp_transModeConfig p)"

definition trans_chan :: "nat \<Rightarrow> SleTransLcid \<Rightarrow> CM_TransChan" where
  "trans_chan castMode node =
     (let c = node_config node in
      \<lparr>p_castMode = castMode, p_lcid = n_lcid node, p_srcTcid = n_local node, p_dstTcid = n_remote node, p_transMode = tm_transMode c,
       p_mtu = tm_mtu c, p_mps = tm_mps c, p_reliableMode = tm_reliableMode c, p_streamMode = tm_streamMode c\<rparr>)"

definition cm_vector :: "('d, 'x) cm_trans_scheme \<Rightarrow> ('a, unit) SDF_Vector option \<times> ('d, 'x) cm_trans_scheme" where
  "cm_vector st = (case SDF_CreateVector \<lparr>dtor = None, cmptor = None\<rparr> (cm_mem st) of (v, m) \<Rightarrow> (v, st\<lparr>cm_mem := m\<rparr>))"

fun fixed_chans :: "SleTransLcid list \<Rightarrow> (CM_TransChan, unit) SDF_Vector option \<Rightarrow> mem \<Rightarrow> bool \<times> (CM_TransChan, unit) SDF_Vector option \<times> mem" where
  "fixed_chans [] v m = (True, v, m)"
| "fixed_chans (n # ns) v m =
     (case SDF_MemAlloc m of (ok, m1) \<Rightarrow>
        if \<not> ok then (False, v, m1)
        else case SDF_VectorEmplaceBack v (Some (trans_chan CM_ACCESS_TRANS_MODE_UNICAST n)) m1 of (_, v1, m2) \<Rightarrow> fixed_chans ns v1 m2)"

definition CM_FixedTransChannelChangeCbk :: "u16w \<Rightarrow> nat \<Rightarrow> ('d, 'x) cm_trans_scheme \<Rightarrow> cm_ret \<times> ('d, 'x) cm_trans_scheme" where
  "CM_FixedTransChannelChangeCbk lcid state st =
     (case g_transChannelCbk st of
        None \<Rightarrow> (CM_SUCCESS, st)
      | Some cbk \<Rightarrow>
          case cm_vector st of (vec, st1) \<Rightarrow>
          if vec = None then (CM_FAIL, st1)
          else case fixed_chans (filter (\<lambda>n. n_lcid n = lcid) (g_fixedTransListHead st1)) vec (cm_mem st1) of (ok, v, m) \<Rightarrow>
            let st2 = st1\<lparr>cm_mem := m\<rparr> in
            if \<not> ok then (CM_FAIL, st2) else (CM_SUCCESS, st2\<lparr>cm_listener := cbk state v (cm_listener st2)\<rparr>))"

definition CM_DynTransChannelChangeCbk :: "SleTransLcid \<Rightarrow> nat \<Rightarrow> ('d, 'x) cm_trans_scheme \<Rightarrow> ('d, 'x) cm_trans_scheme" where
  "CM_DynTransChannelChangeCbk node state st =
     (case g_transChannelCbk st of
        None \<Rightarrow> st
      | Some cbk \<Rightarrow>
          case cm_vector st of (vec, st1) \<Rightarrow>
          if vec = None then st1
          else case cm_alloc st1 of (ok, st2) \<Rightarrow>
            if \<not> ok then st2
            else case SDF_VectorEmplaceBack vec
                        (Some (trans_chan (case n_params node of None \<Rightarrow> 0 | Some p \<Rightarrow> tp_castMode p) node)) (cm_mem st2) of (_, v, m) \<Rightarrow>
              st2\<lparr>cm_mem := m, cm_listener := cbk state v (cm_listener st2)\<rparr>)"

section \<open>Activation and release\<close>

definition same_node :: "SleTransLcid \<Rightarrow> SleTransLcid \<Rightarrow> bool" where
  "same_node n x \<longleftrightarrow> n_ptr x = n_ptr n"

text \<open>\<open>CM_TransChannelDestroyOneNode\<close> for the two lists, and the loop over a vector of nodes, which ends at a null pointer.\<close>

definition destroy_fixed_node :: "SleTransLcid \<Rightarrow> ('d, 'x) cm_trans_scheme \<Rightarrow> ('d, 'x) cm_trans_scheme" where
  "destroy_fixed_node n st = st\<lparr>g_fixedTransListHead := remove_first (same_node n) (g_fixedTransListHead st)\<rparr>"

definition destroy_dyn_node :: "SleTransLcid \<Rightarrow> ('d, 'x) cm_trans_scheme \<Rightarrow> ('d, 'x) cm_trans_scheme" where
  "destroy_dyn_node n st = st\<lparr>g_dynTransListHead := remove_first (same_node n) (g_dynTransListHead st)\<rparr>"

fun for_nodes :: "(SleTransLcid \<Rightarrow> 's \<Rightarrow> 's) \<Rightarrow> SleTransLcid option list \<Rightarrow> 's \<Rightarrow> 's" where
  "for_nodes f [] st = st"
| "for_nodes f (None # ns) st = st"
| "for_nodes f (Some n # ns) st = for_nodes f ns (f n st)"

definition vector_nodes :: "node_vector \<Rightarrow> SleTransLcid option list" where
  "vector_nodes v = map (SDF_VectorElementAt (Some v)) [0..<vsize v]"

definition CM_TransChannelDestroyListNode :: "node_vector \<Rightarrow> ('d, 'x) cm_trans_scheme \<Rightarrow> ('d, 'x) cm_trans_scheme" where
  "CM_TransChannelDestroyListNode v st = for_nodes destroy_fixed_node (vector_nodes v) st"

definition CM_FixedTransChannelFreeListNode :: "u16w \<Rightarrow> node_vector \<Rightarrow> ('d, 'x) cm_trans_scheme \<Rightarrow> ('d, 'x) cm_trans_scheme" where
  "CM_FixedTransChannelFreeListNode lcid v st =
     CM_TransChannelDestroyListNode v (snd (CM_FixedTransChannelChangeCbk lcid CM_TRANS_CHANNEL_STATE_RELEASED st))"

definition CM_ReleaseFixedTransChannel :: "u16w \<Rightarrow> ('d, 'x) cm_trans_scheme \<Rightarrow> ('d, 'x) cm_trans_scheme" where
  "CM_ReleaseFixedTransChannel lcid st =
     (case cm_vector st of (vec, st1) \<Rightarrow>
      if vec = None then st1
      else case CM_FindFixedTransChannelByLcid lcid vec st1 of (ret, v, st2) \<Rightarrow>
        (case v of
           Some w \<Rightarrow> if ret \<noteq> CM_SUCCESS then st2 else CM_FixedTransChannelFreeListNode lcid w st2
         | None \<Rightarrow> st2))"

definition g_TransFixedChannels :: "byte list" where
  "g_TransFixedChannels = [CM_TCID_SLE_CMTC, CM_TCID_SLE_SMTC, CM_TCID_SLE_CUTC]"

fun activate_fixed :: "(u16w \<Rightarrow> SLE_Addr option) \<Rightarrow> u16w \<Rightarrow> SleTransLcidParam option \<Rightarrow> byte list \<Rightarrow> ('d, 'x) cm_trans_scheme \<Rightarrow>
    bool \<times> ('d, 'x) cm_trans_scheme" where
  "activate_fixed linkByLcid lcid params [] st = (True, st)"
| "activate_fixed linkByLcid lcid params (t # ts) st =
     (case CM_AllocTransChannel linkByLcid lcid params t t CM_TRANS_CHANNEL_STATE_ACTIVATED st of
        (None, st1) \<Rightarrow> (False, st1)
      | (Some _, st1) \<Rightarrow> activate_fixed linkByLcid lcid params ts st1)"

definition CM_ActivateFixedTransChannel :: "(u16w \<Rightarrow> SLE_Addr option) \<Rightarrow> u16w \<Rightarrow> SleTransLcidParam option \<Rightarrow> ('d, 'x) cm_trans_scheme \<Rightarrow>
    cm_ret \<times> ('d, 'x) cm_trans_scheme" where
  "CM_ActivateFixedTransChannel linkByLcid lcid params st =
     (if CM_IsExistFixedTransChannelByLcid lcid st then (CM_FAIL, st)
      else case activate_fixed linkByLcid lcid params g_TransFixedChannels st of (ok, st1) \<Rightarrow>
        if \<not> ok then (CM_FAIL, CM_ReleaseFixedTransChannel lcid st1)
        else (CM_SUCCESS, snd (CM_FixedTransChannelChangeCbk lcid CM_TRANS_CHANNEL_STATE_ACTIVATED st1)))"

definition CM_ActivateDynamicTransChannel :: "(u16w \<Rightarrow> SLE_Addr option) \<Rightarrow> u16w \<Rightarrow> CM_DynTransChanParam \<Rightarrow> ('d, 'x) cm_trans_scheme \<Rightarrow>
    SleTransLcid option \<times> ('d, 'x) cm_trans_scheme" where
  "CM_ActivateDynamicTransChannel linkByLcid lcid params st =
     (if y_localTcid params = CM_TRANS_INVALID_TCID then (None, st)
      else
        let transParams = \<lparr>tp_version = y_version params, tp_localIndex = y_localIndex params, tp_transModeConfig = y_transModeConfig params,
              tp_castMode = 0, tp_channelMode = y_channelMode params, tp_direction = y_direction params, tp_aid = y_aid params,
              tp_exclusive = True, tp_srcPort = y_srcPort params, tp_dstPort = y_dstPort params, tp_slqi = y_slqi params,
              tp_frameType = y_frameType params\<rparr> in
        (case CM_AllocTransChannel linkByLcid lcid (Some transParams) (y_localTcid params) (y_remoteTcid params) (y_state params) st of
           (None, st1) \<Rightarrow> (None, st1)
         | (Some node, st1) \<Rightarrow>
             (Some node, if y_state params = CM_TRANS_CHANNEL_STATE_ACTIVATED
                         then CM_DynTransChannelChangeCbk node (y_state params) st1 else st1)))"

text \<open>A store through the pointer of a dynamic node.\<close>

definition upd_dyn_node :: "SleTransLcid \<Rightarrow> ('d, 'x) cm_trans_scheme \<Rightarrow> ('d, 'x) cm_trans_scheme" where
  "upd_dyn_node n st = st\<lparr>g_dynTransListHead := upd_first (same_node n) (\<lambda>_. n) (g_dynTransListHead st)\<rparr>"

definition CM_DynamicTransChannelSetTcidAndChangeCbk :: "SleTransLcid \<Rightarrow> byte \<Rightarrow> nat \<Rightarrow> ('d, 'x) cm_trans_scheme \<Rightarrow>
    SleTransLcid \<times> ('d, 'x) cm_trans_scheme" where
  "CM_DynamicTransChannelSetTcidAndChangeCbk node remoteTcid state st =
     (let n1 = node\<lparr>n_state := state, n_remote := remoteTcid\<rparr>; st1 = upd_dyn_node n1 st in
      (n1, if state = CM_TRANS_CHANNEL_STATE_ACTIVATED then CM_DynTransChannelChangeCbk n1 state st1 else st1))"

definition CM_DynTransChannelFreeListNode :: "SleTransLcid \<Rightarrow> ('d, 'x) cm_trans_scheme \<Rightarrow> ('d, 'x) cm_trans_scheme" where
  "CM_DynTransChannelFreeListNode node st = destroy_dyn_node node (CM_DynTransChannelChangeCbk node CM_TRANS_CHANNEL_STATE_RELEASED st)"

text \<open>\<open>CM_ReleaseDynamicTransChannelByLocalTcid\<close> and \<open>CM_ReleaseDynamicTransChannelByRemoteTcid\<close> differ in their log message only.\<close>

definition CM_ReleaseDynamicTransChannelByLocalTcid :: "SleTransLcid \<Rightarrow> ('d, 'x) cm_trans_scheme \<Rightarrow> ('d, 'x) cm_trans_scheme" where
  "CM_ReleaseDynamicTransChannelByLocalTcid node st = CM_DynTransChannelFreeListNode node st"

definition CM_ReleaseDynamicTransChannelByRemoteTcid :: "SleTransLcid \<Rightarrow> ('d, 'x) cm_trans_scheme \<Rightarrow> ('d, 'x) cm_trans_scheme" where
  "CM_ReleaseDynamicTransChannelByRemoteTcid node st = CM_DynTransChannelFreeListNode node st"

end
