(* ===== verification/Cm_Dyn.thy ===== *)
theory Cm_Dyn
  imports Cm_Trans
begin

text \<open>
  Dynamic transmission channels: the table of event handlers,
  \<^verbatim>\<open>services/stack/src/cp/bsl/sle/cm/dyntrans/src/cm_dyn_trans_chan_state_mgr.c\<close>, and the entry points that feed it from the
  applications, the peer and the link manager, \<^verbatim>\<open>cm_dyn_trans_channel_mgr.c\<close>.

  The signalling of the connection manager sends the messages to the peer: \<open>cm_script\<close> is what its send functions answer, \<open>cm_signals\<close>
  the messages sent. \<open>cm_reports\<close> are the calls to the quality of service manager, which registered the callbacks. The link manager
  is \<open>linkByAddr\<close> (\<open>SleLogicLinkGetByAddr\<close>) and \<open>linkByLcid\<close> (\<open>SleLogicLinkGetByLcid\<close>).
\<close>

section \<open>Messages and reports\<close>

record CM_SignalingTransChanEstablishReq =
  sq_srcTcid :: byte
  sq_exclusive :: bool
  sq_measure :: bool
  sq_transModeConfig :: CM_TransModeConfig
  sq_slqi :: "nat list"
  sq_portConfig :: "(u16w \<times> u16w \<times> nat) option"

datatype cm_signal =
    EstablishReq u16w CM_SignalingTransChanEstablishReq
  | EstablishRsp u16w nat byte byte nat
  | ReleaseReq u16w byte byte
  | ReleaseRsp u16w nat byte byte nat

record CM_DynTransChanEstablishParamRsp =
  er_version :: nat
  er_localIndex :: nat
  er_result :: nat
  er_srcPort :: u16w
  er_dstPort :: u16w
  er_transMode :: nat
  er_srcTcid :: byte
  er_dstTcid :: byte
  er_slqi :: "nat list"
  er_aid :: "nat list"
  er_lcid :: u16w
  er_addr :: SLE_Addr
  er_mtu :: nat
  er_frameType :: nat

record CM_DynTransChanReleaseParamRsp =
  rr_version :: nat
  rr_localIndex :: nat
  rr_result :: nat
  rr_srcPort :: u16w
  rr_dstPort :: u16w
  rr_srcTcid :: byte
  rr_dstTcid :: byte
  rr_lcid :: u16w
  rr_slqi :: "nat list"
  rr_addr :: SLE_Addr
  rr_frameType :: nat

record CM_DynTransChanStatusIndicationRsp =
  si_version :: nat
  si_localIndex :: nat
  si_result :: nat
  si_srcPort :: u16w
  si_dstPort :: u16w
  si_added :: bool
  si_transMode :: nat
  si_srcTcid :: byte
  si_dstTcid :: byte
  si_slqi :: "nat list"
  si_lcid :: u16w
  si_addr :: SLE_Addr
  si_mtu :: nat

datatype cm_report =
    EstablishReport CM_DynTransChanEstablishParamRsp
  | ReleaseReport CM_DynTransChanReleaseParamRsp
  | StatusReport CM_DynTransChanStatusIndicationRsp

text \<open>The callbacks; of those without a result only whether they are registered matters.\<close>

record CM_DynTransChannelCbks =
  establishRspCbk :: bool
  releaseRspCbk :: bool
  statusIndicationCbk :: bool
  establishedCheckCbk :: "(u16w \<Rightarrow> u16w \<Rightarrow> bool) option"

record 'd cm_st = "'d cm_trans" +
  g_channelCbks :: CM_DynTransChannelCbks
  g_cmIsRegistered :: bool
  cm_linkListener :: bool
  cm_script :: "bool list"
  cm_signals :: "cm_signal list"
  cm_reports :: "cm_report list"

definition no_cbks :: CM_DynTransChannelCbks where
  "no_cbks = \<lparr>establishRspCbk = False, releaseRspCbk = False, statusIndicationCbk = False, establishedCheckCbk = None\<rparr>"

abbreviation (input) CM_RESULT_ESTABLISH_SUCCESS :: nat where "CM_RESULT_ESTABLISH_SUCCESS \<equiv> 0"
abbreviation (input) CM_RESULT_INSUFFICIENT_RESOURCE :: nat where "CM_RESULT_INSUFFICIENT_RESOURCE \<equiv> 1"
abbreviation (input) CM_RESULT_UNSUPPORTED_MTU_SIZE :: nat where "CM_RESULT_UNSUPPORTED_MTU_SIZE \<equiv> 2"
abbreviation (input) CM_RESULT_ESTABLISH_TIMEOUT :: nat where "CM_RESULT_ESTABLISH_TIMEOUT \<equiv> 5"
abbreviation (input) CM_RESULT_RELEASE_SUCCESS :: nat where "CM_RESULT_RELEASE_SUCCESS \<equiv> 0"
abbreviation (input) CM_RESULT_RELEASE_TIMEOUT :: nat where "CM_RESULT_RELEASE_TIMEOUT \<equiv> 1"
abbreviation (input) CM_DYN_TRANS_CHAN_ESTABLISH_SUCCESS :: nat where "CM_DYN_TRANS_CHAN_ESTABLISH_SUCCESS \<equiv> 0"
abbreviation (input) CM_DYN_TRANS_CHAN_ESTABLISH_FAIL :: nat where "CM_DYN_TRANS_CHAN_ESTABLISH_FAIL \<equiv> 1"
abbreviation (input) CM_DYN_TRANS_CHAN_ESTABLISH_TIMEOUT :: nat where "CM_DYN_TRANS_CHAN_ESTABLISH_TIMEOUT \<equiv> 60"
abbreviation (input) CM_DYN_TRANS_CHAN_RELEASE_SUCCESS :: nat where "CM_DYN_TRANS_CHAN_RELEASE_SUCCESS \<equiv> 0"
abbreviation (input) CM_DYN_TRANS_CHAN_RELEASE_FAIL :: nat where "CM_DYN_TRANS_CHAN_RELEASE_FAIL \<equiv> 1"
abbreviation (input) CM_DYN_TRANS_CHAN_RELEASE_TIMEOUT :: nat where "CM_DYN_TRANS_CHAN_RELEASE_TIMEOUT \<equiv> 60"
abbreviation (input) CM_DYN_TRANS_CHAN_STATUS_INDICATION_NORMAL :: nat where "CM_DYN_TRANS_CHAN_STATUS_INDICATION_NORMAL \<equiv> 0"
abbreviation (input) CM_DYN_TRANS_CHAN_STATUS_INDICATION_DICONNECTED :: nat where "CM_DYN_TRANS_CHAN_STATUS_INDICATION_DICONNECTED \<equiv> 2"
abbreviation (input) CM_CAP_MIN_MTU :: nat where "CM_CAP_MIN_MTU \<equiv> 32"
abbreviation (input) CM_TRANS_MODE_MAX :: nat where "CM_TRANS_MODE_MAX \<equiv> 4"
abbreviation (input) CM_TRANS_CHANNEL_SLQI_MAX :: nat where "CM_TRANS_CHANNEL_SLQI_MAX \<equiv> 2"
abbreviation (input) CM_TRANS_INVALID_AID :: nat where "CM_TRANS_INVALID_AID \<equiv> 3999"

section \<open>Calls to the signalling and to the pools\<close>

definition cm_send :: "cm_signal \<Rightarrow> 'd cm_st \<Rightarrow> bool \<times> 'd cm_st" where
  "cm_send sig st =
     (let st1 = st\<lparr>cm_script := tl (cm_script st)\<rparr> in
      if cm_script st = [] \<or> hd (cm_script st) then (True, st1\<lparr>cm_signals := cm_signals st1 @ [sig]\<rparr>) else (False, st1))"

definition tcid_allocate :: "u16w \<Rightarrow> nat \<Rightarrow> 'd cm_st \<Rightarrow> byte \<times> 'd cm_st" where
  "tcid_allocate lcid mode st = (case CM_DynTcidAllocate lcid mode (cm_tcids st) of (t, s) \<Rightarrow> (t, st\<lparr>cm_tcids := s\<rparr>))"

definition tcid_release :: "u16w \<Rightarrow> byte \<Rightarrow> nat \<Rightarrow> 'd cm_st \<Rightarrow> cm_ret \<times> 'd cm_st" where
  "tcid_release lcid t mode st = (case CM_DynTcidRelease lcid t mode (cm_tcids st) of (ret, s) \<Rightarrow> (ret, st\<lparr>cm_tcids := s\<rparr>))"

section \<open>Reports to the quality of service manager\<close>

definition cm_report :: "cm_report \<Rightarrow> 'd cm_st \<Rightarrow> 'd cm_st" where
  "cm_report r st = st\<lparr>cm_reports := cm_reports st @ [r]\<rparr>"

definition CM_DynTransChanEstablishRspCbk :: "SleTransLcid \<Rightarrow> nat \<Rightarrow> 'd cm_st \<Rightarrow> 'd cm_st" where
  "CM_DynTransChanEstablishRspCbk node result st =
     (if \<not> establishRspCbk (g_channelCbks st) then st
      else case n_params node of None \<Rightarrow> st | Some p \<Rightarrow>
        cm_report (EstablishReport \<lparr>er_version = tp_version p, er_localIndex = tp_localIndex p, er_result = result,
          er_srcPort = tp_srcPort p, er_dstPort = tp_dstPort p, er_transMode = tm_transMode (tp_transModeConfig p),
          er_srcTcid = n_local node, er_dstTcid = n_remote node, er_slqi = [tp_slqi p], er_aid = [tp_aid p], er_lcid = n_lcid node,
          er_addr = n_addr node, er_mtu = tm_mtu (tp_transModeConfig p), er_frameType = tp_frameType p\<rparr>) st)"

definition CM_DynTransChanReleaseRspCbk :: "SleTransLcid \<Rightarrow> nat \<Rightarrow> 'd cm_st \<Rightarrow> 'd cm_st" where
  "CM_DynTransChanReleaseRspCbk node result st =
     (if \<not> releaseRspCbk (g_channelCbks st) then st
      else case n_params node of None \<Rightarrow> st | Some p \<Rightarrow>
        cm_report (ReleaseReport \<lparr>rr_version = tp_version p, rr_localIndex = tp_localIndex p, rr_result = result,
          rr_srcPort = tp_srcPort p, rr_dstPort = tp_dstPort p, rr_srcTcid = n_local node, rr_dstTcid = n_remote node,
          rr_lcid = n_lcid node, rr_slqi = [tp_slqi p], rr_addr = n_addr node, rr_frameType = tp_frameType p\<rparr>) st)"

definition CM_DynTransChanStatusIndicationCbk :: "SleTransLcid \<Rightarrow> bool \<Rightarrow> nat \<Rightarrow> 'd cm_st \<Rightarrow> 'd cm_st" where
  "CM_DynTransChanStatusIndicationCbk node added result st =
     (if \<not> statusIndicationCbk (g_channelCbks st) then st
      else case n_params node of None \<Rightarrow> st | Some p \<Rightarrow>
        cm_report (StatusReport \<lparr>si_version = tp_version p, si_localIndex = tp_localIndex p, si_result = result,
          si_srcPort = tp_srcPort p, si_dstPort = tp_dstPort p, si_added = added, si_transMode = tm_transMode (tp_transModeConfig p),
          si_srcTcid = n_local node, si_dstTcid = n_remote node, si_slqi = [tp_slqi p], si_lcid = n_lcid node, si_addr = n_addr node,
          si_mtu = tm_mtu (tp_transModeConfig p)\<rparr>) st)"

section \<open>Event handlers\<close>

type_synonym 'd dyn_handler = "nat \<Rightarrow> CM_DynTransChanParam \<Rightarrow> nat \<Rightarrow> 'd cm_st \<Rightarrow> cm_ret \<times> 'd cm_st"

definition establish_req :: "byte \<Rightarrow> CM_DynTransChanParam \<Rightarrow> CM_SignalingTransChanEstablishReq" where
  "establish_req localTcid param = \<lparr>sq_srcTcid = localTcid, sq_exclusive = y_exclusive param, sq_measure = y_measure param,
     sq_transModeConfig = y_transModeConfig param, sq_slqi = [y_slqi param],
     sq_portConfig = Some (y_srcPort param, y_dstPort param, y_aid param)\<rparr>"

definition CM_DynTransChanActiveEstablishingReqHandler :: "(u16w \<Rightarrow> SLE_Addr option) \<Rightarrow> 'd dyn_handler" where
  "CM_DynTransChanActiveEstablishingReqHandler linkByLcid curState param nextState st =
     (case tcid_allocate (y_lcid param) (y_expectedTransportMode param) st of (localTcid, st1) \<Rightarrow>
      if localTcid = CM_TRANS_INVALID_TCID then (CM_FAIL, st1)
      else case CM_ActivateDynamicTransChannel linkByLcid (y_lcid param)
                  (param\<lparr>y_localTcid := localTcid, y_remoteTcid := CM_TRANS_INVALID_TCID, y_state := nextState\<rparr>) st1 of
        (None, st2) \<Rightarrow> (CM_FAIL, snd (tcid_release (y_lcid param) localTcid (y_expectedTransportMode param) st2))
      | (Some node, st2) \<Rightarrow>
          (case cm_send (EstablishReq (y_lcid param) (establish_req localTcid param)) st2 of (ok, st3) \<Rightarrow>
           if ok then (CM_SUCCESS, st3)
           else (CM_FAIL, snd (tcid_release (y_lcid param) localTcid (y_expectedTransportMode param)
                   (CM_ReleaseDynamicTransChannelByLocalTcid node st3)))))"

definition CM_DynTransChanActiveEstablishedRspHandler :: "'d dyn_handler" where
  "CM_DynTransChanActiveEstablishedRspHandler curState param nextState st =
     (if y_result param \<noteq> CM_RESULT_ESTABLISH_SUCCESS then (CM_FAIL, st)
      else case CM_FindTransChannelByLocalTcid (y_lcid param) (y_localTcid param) st of
        None \<Rightarrow> (CM_FAIL, st)
      | Some node \<Rightarrow>
          (case CM_DynamicTransChannelSetTcidAndChangeCbk node (y_remoteTcid param) nextState st of (n1, st1) \<Rightarrow>
             (CM_SUCCESS, CM_DynTransChanEstablishRspCbk n1 CM_DYN_TRANS_CHAN_ESTABLISH_SUCCESS st1)))"

text \<open>The end of the handlers that give a channel up: its node and its identifier are released.\<close>

definition give_up :: "SleTransLcid \<Rightarrow> CM_DynTransChanParam \<Rightarrow> 'd cm_st \<Rightarrow> cm_ret \<times> 'd cm_st" where
  "give_up node param st =
     (case tcid_release (y_lcid param) (y_localTcid param) (y_expectedTransportMode param)
             (CM_ReleaseDynamicTransChannelByLocalTcid node st) of (ret, st1) \<Rightarrow>
        (if ret = CM_SUCCESS then CM_SUCCESS else CM_FAIL, st1))"

definition CM_DynTransChanActiveEstablishingFailRspHandler :: "'d dyn_handler" where
  "CM_DynTransChanActiveEstablishingFailRspHandler curState param nextState st =
     (if y_result param = CM_RESULT_ESTABLISH_SUCCESS then (CM_FAIL, st)
      else case CM_FindTransChannelByLocalTcid (y_lcid param) (y_localTcid param) st of
        None \<Rightarrow> (CM_FAIL, st)
      | Some node \<Rightarrow>
          let result = (if y_result param = CM_RESULT_ESTABLISH_TIMEOUT then CM_DYN_TRANS_CHAN_ESTABLISH_TIMEOUT
                        else CM_DYN_TRANS_CHAN_ESTABLISH_FAIL) in
          give_up node param (CM_DynTransChanEstablishRspCbk node result st))"

definition CM_DynTransChanActiveReleasingHandler :: "'d dyn_handler" where
  "CM_DynTransChanActiveReleasingHandler curState param nextState st =
     (case CM_FindTransChannelByLocalTcid (y_lcid param) (y_localTcid param) st of
        None \<Rightarrow> (CM_FAIL, st)
      | Some node \<Rightarrow>
          (case cm_send (ReleaseReq (y_lcid param) (y_localTcid param) (n_remote node)) (upd_dyn_node (node\<lparr>n_state := nextState\<rparr>) st) of
             (ok, st1) \<Rightarrow>
               if ok then (CM_SUCCESS, st1) else (CM_FAIL, upd_dyn_node (node\<lparr>n_state := curState\<rparr>) st1)))"

definition CM_DynTransChanActiveReleasedRspHandler :: "'d dyn_handler" where
  "CM_DynTransChanActiveReleasedRspHandler curState param nextState st =
     (case CM_FindTransChannelByLocalTcid (y_lcid param) (y_localTcid param) st of
        None \<Rightarrow> (CM_FAIL, st)
      | Some node \<Rightarrow> give_up node param (CM_DynTransChanReleaseRspCbk node CM_DYN_TRANS_CHAN_RELEASE_SUCCESS st))"

definition CM_DynTransChanActiveReleasingFailRspHandler :: "'d dyn_handler" where
  "CM_DynTransChanActiveReleasingFailRspHandler curState param nextState st =
     (case CM_FindTransChannelByLocalTcid (y_lcid param) (y_localTcid param) st of
        None \<Rightarrow> (CM_FAIL, st)
      | Some node \<Rightarrow>
          let result = (if y_result param = CM_RESULT_RELEASE_TIMEOUT then CM_DYN_TRANS_CHAN_RELEASE_TIMEOUT
                        else CM_DYN_TRANS_CHAN_RELEASE_FAIL) in
          give_up node param (CM_DynTransChanReleaseRspCbk node result st))"

definition CM_DynTransChanExpectionReleaseHandler :: "u16w \<Rightarrow> byte \<Rightarrow> byte \<Rightarrow> 'd cm_st \<Rightarrow> 'd cm_st" where
  "CM_DynTransChanExpectionReleaseHandler lcid localTcid remoteTcid st = snd (cm_send (ReleaseReq lcid localTcid remoteTcid) st)"

definition CM_DynTransChanPassiveReleasedReqHandler :: "'d dyn_handler" where
  "CM_DynTransChanPassiveReleasedReqHandler curState param nextState st =
     (case CM_FindTransChannelByRemoteTcid (y_lcid param) (y_remoteTcid param) st of
        None \<Rightarrow> (CM_FAIL, st)
      | Some node \<Rightarrow>
          let localTcid = n_local node; remoteTcid = n_remote node; lcid = n_lcid node;
              st1 = CM_DynTransChanStatusIndicationCbk node False CM_DYN_TRANS_CHAN_STATUS_INDICATION_DICONNECTED st;
              st2 = snd (tcid_release lcid localTcid (y_expectedTransportMode param) st1);
              st3 = CM_ReleaseDynamicTransChannelByRemoteTcid node st2 in
          (case cm_send (ReleaseRsp lcid (y_reqId param) remoteTcid localTcid CM_RESULT_RELEASE_SUCCESS) st3 of (ok, st4) \<Rightarrow>
             if ok then (CM_SUCCESS, st4)
             else (CM_FAIL, CM_DynTransChanExpectionReleaseHandler lcid localTcid remoteTcid st4)))"

definition CM_DynTransChannelEstablishedCheck :: "u16w \<Rightarrow> u16w \<Rightarrow> 'd cm_st \<Rightarrow> bool" where
  "CM_DynTransChannelEstablishedCheck src dst st =
     (case establishedCheckCbk (g_channelCbks st) of None \<Rightarrow> True | Some check \<Rightarrow> check src dst)"

definition CM_DynTransChannelMtuCheck :: "nat \<Rightarrow> bool" where
  "CM_DynTransChannelMtuCheck mtu \<longleftrightarrow> mtu \<ge> CM_CAP_MIN_MTU"

definition CM_DynTransChanSendEstablishedErrResp :: "CM_DynTransChanParam \<Rightarrow> nat \<Rightarrow> 'd cm_st \<Rightarrow> 'd cm_st" where
  "CM_DynTransChanSendEstablishedErrResp param result st =
     snd (cm_send (EstablishRsp (y_lcid param) (y_reqId param) (y_remoteTcid param) CM_TRANS_INVALID_TCID result) st)"

definition CM_DynTransChanPassiveEstablishedReqHandler :: "(u16w \<Rightarrow> SLE_Addr option) \<Rightarrow> 'd dyn_handler" where
  "CM_DynTransChanPassiveEstablishedReqHandler linkByLcid curState param nextState st =
     (if \<not> CM_DynTransChannelMtuCheck (tm_mtu (y_transModeConfig param))
      then (CM_FAIL, CM_DynTransChanSendEstablishedErrResp param CM_RESULT_UNSUPPORTED_MTU_SIZE st)
      else if \<not> CM_DynTransChannelEstablishedCheck (y_srcPort param) (y_dstPort param) st
      then (CM_FAIL, CM_DynTransChanSendEstablishedErrResp param CM_RESULT_INSUFFICIENT_RESOURCE st)
      else case tcid_allocate (y_lcid param) (y_expectedTransportMode param) st of (localTcid, st1) \<Rightarrow>
      if localTcid = CM_TRANS_INVALID_TCID then (CM_FAIL, st1)
      else case CM_ActivateDynamicTransChannel linkByLcid (y_lcid param) (param\<lparr>y_localTcid := localTcid, y_state := nextState\<rparr>) st1 of
        (None, st2) \<Rightarrow> (CM_FAIL, snd (tcid_release (y_lcid param) localTcid (y_expectedTransportMode param) st2))
      | (Some node, st2) \<Rightarrow>
          (case cm_send (EstablishRsp (y_lcid param) (y_reqId param) (y_remoteTcid param) localTcid CM_RESULT_ESTABLISH_SUCCESS) st2 of
             (ok, st3) \<Rightarrow>
               if \<not> ok then (CM_FAIL, snd (tcid_release (y_lcid param) localTcid (y_expectedTransportMode param)
                               (CM_ReleaseDynamicTransChannelByLocalTcid node st3)))
               else (CM_SUCCESS, CM_DynTransChanStatusIndicationCbk node True CM_DYN_TRANS_CHAN_STATUS_INDICATION_NORMAL st3)))"

section \<open>The table of events\<close>

abbreviation (input) CM_DYN_TRANS_CHAN_EVENT_ACTIVE_ESTABLISHING_REQ :: nat where "CM_DYN_TRANS_CHAN_EVENT_ACTIVE_ESTABLISHING_REQ \<equiv> 0"
abbreviation (input) CM_DYN_TRANS_CHAN_EVENT_ACTIVE_ESTABLISHED_RSP :: nat where "CM_DYN_TRANS_CHAN_EVENT_ACTIVE_ESTABLISHED_RSP \<equiv> 1"
abbreviation (input) CM_DYN_TRANS_CHAN_EVENT_ACTIVE_ESTABLISHING_FAIL_RSP :: nat where "CM_DYN_TRANS_CHAN_EVENT_ACTIVE_ESTABLISHING_FAIL_RSP \<equiv> 2"
abbreviation (input) CM_DYN_TRANS_CHAN_EVENT_ACTIVE_RELEASING_REQ :: nat where "CM_DYN_TRANS_CHAN_EVENT_ACTIVE_RELEASING_REQ \<equiv> 3"
abbreviation (input) CM_DYN_TRANS_CHAN_EVENT_ACTIVE_RELEASED_RSP :: nat where "CM_DYN_TRANS_CHAN_EVENT_ACTIVE_RELEASED_RSP \<equiv> 4"
abbreviation (input) CM_DYN_TRANS_CHAN_EVENT_ACTIVE_RELEASING_FAIL_RSP :: nat where "CM_DYN_TRANS_CHAN_EVENT_ACTIVE_RELEASING_FAIL_RSP \<equiv> 5"
abbreviation (input) CM_DYN_TRANS_CHAN_EVENT_PASSIVE_RELEASED_REQ :: nat where "CM_DYN_TRANS_CHAN_EVENT_PASSIVE_RELEASED_REQ \<equiv> 6"
abbreviation (input) CM_DYN_TRANS_CHAN_EVENT_PASSIVE_ESTABLISHED_REQ :: nat where "CM_DYN_TRANS_CHAN_EVENT_PASSIVE_ESTABLISHED_REQ \<equiv> 7"

text \<open>The rows are current state, event, next state and handler.\<close>

definition g_dynTransChanEvents :: "(u16w \<Rightarrow> SLE_Addr option) \<Rightarrow> (nat \<times> nat \<times> nat \<times> 'd dyn_handler) list" where
  "g_dynTransChanEvents linkByLcid =
     [(CM_TRANS_CHANNEL_STATE_INIT, CM_DYN_TRANS_CHAN_EVENT_ACTIVE_ESTABLISHING_REQ, CM_TRANS_CHANNEL_STATE_ACTIVATING,
         CM_DynTransChanActiveEstablishingReqHandler linkByLcid),
      (CM_TRANS_CHANNEL_STATE_ACTIVATING, CM_DYN_TRANS_CHAN_EVENT_ACTIVE_ESTABLISHED_RSP, CM_TRANS_CHANNEL_STATE_ACTIVATED,
         CM_DynTransChanActiveEstablishedRspHandler),
      (CM_TRANS_CHANNEL_STATE_ACTIVATING, CM_DYN_TRANS_CHAN_EVENT_ACTIVE_ESTABLISHING_FAIL_RSP, CM_TRANS_CHANNEL_STATE_RELEASED,
         CM_DynTransChanActiveEstablishingFailRspHandler),
      (CM_TRANS_CHANNEL_STATE_ACTIVATED, CM_DYN_TRANS_CHAN_EVENT_ACTIVE_RELEASING_REQ, CM_TRANS_CHANNEL_STATE_RELEASING,
         CM_DynTransChanActiveReleasingHandler),
      (CM_TRANS_CHANNEL_STATE_RELEASING, CM_DYN_TRANS_CHAN_EVENT_ACTIVE_RELEASED_RSP, CM_TRANS_CHANNEL_STATE_RELEASED,
         CM_DynTransChanActiveReleasedRspHandler),
      (CM_TRANS_CHANNEL_STATE_RELEASING, CM_DYN_TRANS_CHAN_EVENT_ACTIVE_RELEASING_FAIL_RSP, CM_TRANS_CHANNEL_STATE_RELEASED,
         CM_DynTransChanActiveReleasingFailRspHandler),
      (CM_TRANS_CHANNEL_STATE_ACTIVATED, CM_DYN_TRANS_CHAN_EVENT_PASSIVE_RELEASED_REQ, CM_TRANS_CHANNEL_STATE_RELEASED,
         CM_DynTransChanPassiveReleasedReqHandler),
      (CM_TRANS_CHANNEL_STATE_INIT, CM_DYN_TRANS_CHAN_EVENT_PASSIVE_ESTABLISHED_REQ, CM_TRANS_CHANNEL_STATE_ACTIVATED,
         CM_DynTransChanPassiveEstablishedReqHandler linkByLcid)]"

definition CM_DynTransChanPostEventAndHandler :: "(u16w \<Rightarrow> SLE_Addr option) \<Rightarrow> nat \<Rightarrow> CM_DynTransChanParam \<Rightarrow> 'd cm_st \<Rightarrow> cm_ret \<times> 'd cm_st" where
  "CM_DynTransChanPostEventAndHandler linkByLcid event param st =
     (if event \<ge> length (g_dynTransChanEvents linkByLcid :: (nat \<times> nat \<times> nat \<times> 'd dyn_handler) list) then (CM_FAIL, st)
      else case g_dynTransChanEvents linkByLcid ! event of (currentState, _, nextState, func) \<Rightarrow> func currentState param nextState st)"

section \<open>The end of a link\<close>

definition notify_disconnected :: "SleTransLcid \<Rightarrow> 'd cm_st \<Rightarrow> 'd cm_st" where
  "notify_disconnected node st =
     (let state = n_state node in
      if state = CM_TRANS_CHANNEL_STATE_RELEASED then st
      else if state = CM_TRANS_CHANNEL_STATE_ACTIVATING \<or> state = CM_TRANS_CHANNEL_STATE_INIT
      then CM_ReleaseDynamicTransChannelByLocalTcid node (CM_DynTransChanEstablishRspCbk node CM_DYN_TRANS_CHAN_ESTABLISH_FAIL st)
      else if state = CM_TRANS_CHANNEL_STATE_ACTIVATED \<or> state = CM_TRANS_CHANNEL_STATE_RELEASING
      then CM_ReleaseDynamicTransChannelByLocalTcid node
             (CM_DynTransChanStatusIndicationCbk node False CM_DYN_TRANS_CHAN_STATUS_INDICATION_DICONNECTED st)
      else st)"

definition CM_DynTransChannelNotifyAllDisconnected :: "node_vector \<Rightarrow> 'd cm_st \<Rightarrow> 'd cm_st" where
  "CM_DynTransChannelNotifyAllDisconnected v st = for_nodes notify_disconnected (vector_nodes v) st"

definition CM_DynTransChannReleaseAllNode :: "u16w \<Rightarrow> 'd cm_st \<Rightarrow> 'd cm_st" where
  "CM_DynTransChannReleaseAllNode lcid st =
     (case cm_vector st of (vec, st1) \<Rightarrow>
      if vec = None then st1
      else case CM_FindDynTransChannelByLcid lcid vec st1 of (ret, v, st2) \<Rightarrow>
        (case v of
           Some w \<Rightarrow> if ret \<noteq> CM_SUCCESS then st2 else CM_DynTransChannelNotifyAllDisconnected w st2
         | None \<Rightarrow> st2))"

end
