(* ===== verification/Cm_Chan.thy ===== *)
theory Cm_Chan
  imports Cm_Dyn
begin

text \<open>
  The entry points of the dynamic transmission channels, \<^verbatim>\<open>services/stack/src/cp/bsl/sle/cm/dyntrans/src/cm_dyn_trans_channel_mgr.c\<close>:
  requests of the applications, messages of the peer, states of the links, registration. The relation \<open>cm_event\<close> has a step for each of
  them and for those of \<open>Cm_Trans\<close>.
\<close>

section \<open>Parameters\<close>

definition CM_DynTransChanGetTransportMode :: "byte \<Rightarrow> nat" where
  "CM_DynTransChanGetTransportMode tcid =
     (if CM_TCID_UC_BEGIN \<le> tcid \<and> tcid \<le> CM_TCID_UC_END then CM_ACCESS_TRANS_MODE_UNICAST else CM_ACCESS_TRANS_MODE_MAX)"

text \<open>\<^verbatim>\<open>CM_DynTransChanParam_S loopParam = { 0 }\<close>.\<close>

definition zero_param :: CM_DynTransChanParam where
  "zero_param = \<lparr>y_version = 0, y_localIndex = 0, y_lcid = 0, y_reqId = 0, y_localTcid = 0, y_remoteTcid = 0, y_srcPort = 0, y_dstPort = 0,
     y_transModeConfig = \<lparr>tm_transMode = 0, tm_mtu = 0, tm_mps = 0, tm_reliableMode = zero_reliable, tm_streamMode = zero_stream\<rparr>,
     y_channelMode = 0, y_direction = 0, y_aid = 0, y_slqi = 0, y_exclusive = False, y_measure = False, y_expectedTransportMode = 0,
     y_result = 0, y_state = 0, y_frameType = 0\<rparr>"

record CM_DynTransChannelEstablishParamReq =
  eq_version :: nat
  eq_localIndex :: nat
  eq_addr :: SLE_Addr
  eq_srcPort :: u16w
  eq_dstPort :: u16w
  eq_transModeConfig :: CM_TransModeConfig
  eq_slqi :: nat
  eq_expectedTransportMode :: nat
  eq_exclusive :: bool
  eq_frameType :: nat

record CM_DynTransChannelReleaseParamReq =
  lq_version :: nat
  lq_localIndex :: nat
  lq_addr :: SLE_Addr
  lq_srcTcid :: byte
  lq_dstTcid :: byte

section \<open>Requests of the applications\<close>

definition CM_DynTransChannelCreate :: "(SLE_Addr \<Rightarrow> u16w option) \<Rightarrow> (u16w \<Rightarrow> SLE_Addr option) \<Rightarrow> CM_DynTransChannelEstablishParamReq \<Rightarrow>
    'd cm_st \<Rightarrow> cm_ret \<times> 'd cm_st" where
  "CM_DynTransChannelCreate linkByAddr linkByLcid req st =
     (case linkByAddr (eq_addr req) of
        None \<Rightarrow> (CM_FAIL, st)
      | Some lcid \<Rightarrow>
          (case CM_DynTransChanPostEventAndHandler linkByLcid CM_DYN_TRANS_CHAN_EVENT_ACTIVE_ESTABLISHING_REQ
                  (zero_param\<lparr>y_version := eq_version req, y_localIndex := eq_localIndex req, y_lcid := lcid, y_srcPort := eq_srcPort req,
                     y_dstPort := eq_dstPort req, y_localTcid := CM_TRANS_INVALID_TCID, y_remoteTcid := CM_TRANS_INVALID_TCID,
                     y_aid := CM_TRANS_INVALID_AID, y_exclusive := True, y_slqi := eq_slqi req,
                     y_expectedTransportMode := eq_expectedTransportMode req, y_state := CM_TRANS_CHANNEL_STATE_INIT,
                     y_frameType := eq_frameType req, y_transModeConfig := eq_transModeConfig req\<rparr>) st of
             (ret, st1) \<Rightarrow> (if ret = CM_SUCCESS then ret else CM_FAIL, st1)))"

definition CM_DynTransChannelEstablishReq :: "(SLE_Addr \<Rightarrow> u16w option) \<Rightarrow> (u16w \<Rightarrow> SLE_Addr option) \<Rightarrow>
    CM_DynTransChannelEstablishParamReq option \<Rightarrow> 'd cm_st \<Rightarrow> cm_ret \<times> 'd cm_st" where
  "CM_DynTransChannelEstablishReq linkByAddr linkByLcid param st =
     (if \<not> g_cmIsRegistered st then (CM_FAIL, st)
      else case param of
        None \<Rightarrow> (CM_INVALID_PARAM_ERR, st)
      | Some req \<Rightarrow>
          if \<not> (eq_expectedTransportMode req = CM_ACCESS_TRANS_MODE_UNICAST \<and> tm_transMode (eq_transModeConfig req) < CM_TRANS_MODE_MAX)
          then (CM_INVALID_PARAM_ERR, st)
          else if eq_slqi req \<ge> CM_TRANS_CHANNEL_SLQI_MAX then (CM_INVALID_PARAM_ERR, st)
          else case CM_DynTransChannelCreate linkByAddr linkByLcid req st of
            (ret, st1) \<Rightarrow> (if ret = CM_SUCCESS then CM_SUCCESS else CM_FAIL, st1))"

definition CM_DynTransChannelReleaseReq :: "(SLE_Addr \<Rightarrow> u16w option) \<Rightarrow> (u16w \<Rightarrow> SLE_Addr option) \<Rightarrow>
    CM_DynTransChannelReleaseParamReq option \<Rightarrow> 'd cm_st \<Rightarrow> cm_ret \<times> 'd cm_st" where
  "CM_DynTransChannelReleaseReq linkByAddr linkByLcid param st =
     (if \<not> g_cmIsRegistered st then (CM_FAIL, st)
      else case param of
        None \<Rightarrow> (CM_INVALID_PARAM_ERR, st)
      | Some req \<Rightarrow>
          if \<not> CM_TRANS_CHANNEL_IS_DYNAMIC (lq_srcTcid req) then (CM_INVALID_PARAM_ERR, st)
          else case linkByAddr (lq_addr req) of
            None \<Rightarrow> (CM_FAIL, st)
          | Some lcid \<Rightarrow>
              (case CM_DynTransChanPostEventAndHandler linkByLcid CM_DYN_TRANS_CHAN_EVENT_ACTIVE_RELEASING_REQ
                      (zero_param\<lparr>y_lcid := lcid, y_localTcid := lq_srcTcid req, y_remoteTcid := lq_dstTcid req\<rparr>) st of
                 (ret, st1) \<Rightarrow> (if ret = CM_SUCCESS then CM_SUCCESS else CM_FAIL, st1)))"

section \<open>Messages of the peer\<close>

text \<open>\<open>slqiList.slqi[0]\<close> is read whatever the number of entries; the array of an empty list is zero.\<close>

definition CM_DynTransChannelEstablishReqCbk :: "(u16w \<Rightarrow> SLE_Addr option) \<Rightarrow> u16w \<Rightarrow> nat \<Rightarrow> CM_SignalingTransChanEstablishReq option \<Rightarrow>
    'd cm_st \<Rightarrow> 'd cm_st" where
  "CM_DynTransChannelEstablishReqCbk linkByLcid lcid reqId rq st =
     (case rq of
        None \<Rightarrow> st
      | Some req \<Rightarrow>
          if \<not> CM_TRANS_CHANNEL_IS_DYNAMIC (sq_srcTcid req) then st
          else if CM_FindTransChannelByRemoteTcid lcid (sq_srcTcid req) st \<noteq> None then st
          else
            let p = zero_param\<lparr>y_lcid := lcid, y_remoteTcid := sq_srcTcid req, y_result := CM_RESULT_ESTABLISH_SUCCESS,
                  y_expectedTransportMode := CM_DynTransChanGetTransportMode (sq_srcTcid req), y_reqId := reqId,
                  y_slqi := (case sq_slqi req of [] \<Rightarrow> 0 | q # _ \<Rightarrow> q), y_transModeConfig := sq_transModeConfig req\<rparr>;
                p1 = (case sq_portConfig req of
                        None \<Rightarrow> p
                      | Some (src, dst, aid) \<Rightarrow> p\<lparr>y_srcPort := dst, y_dstPort := src, y_aid := aid\<rparr>) in
            snd (CM_DynTransChanPostEventAndHandler linkByLcid CM_DYN_TRANS_CHAN_EVENT_PASSIVE_ESTABLISHED_REQ p1 st))"

text \<open>Responses are source and destination identifier and result.\<close>

definition CM_DynTransChannelEstablishRspCbk :: "(u16w \<Rightarrow> SLE_Addr option) \<Rightarrow> u16w \<Rightarrow> (byte \<times> byte \<times> nat) option \<Rightarrow> 'd cm_st \<Rightarrow> 'd cm_st" where
  "CM_DynTransChannelEstablishRspCbk linkByLcid lcid rs st =
     (case rs of
        None \<Rightarrow> st
      | Some (srcTcid, dstTcid, result) \<Rightarrow>
          if \<not> CM_TRANS_CHANNEL_IS_DYNAMIC srcTcid then st
          else if result = CM_RESULT_ESTABLISH_SUCCESS \<and> \<not> CM_TRANS_CHANNEL_IS_DYNAMIC dstTcid then st
          else
            let p = zero_param\<lparr>y_lcid := lcid, y_localTcid := srcTcid, y_remoteTcid := dstTcid, y_result := result,
                  y_expectedTransportMode := CM_DynTransChanGetTransportMode srcTcid\<rparr> in
            (case CM_FindTransChannelByLocalTcid lcid srcTcid st of
               None \<Rightarrow> st
             | Some node \<Rightarrow>
                 if n_state node \<noteq> CM_TRANS_CHANNEL_STATE_ACTIVATING then st
                 else snd (CM_DynTransChanPostEventAndHandler linkByLcid
                        (if result = CM_RESULT_ESTABLISH_SUCCESS then CM_DYN_TRANS_CHAN_EVENT_ACTIVE_ESTABLISHED_RSP
                         else CM_DYN_TRANS_CHAN_EVENT_ACTIVE_ESTABLISHING_FAIL_RSP) p st)))"

definition CM_DynTransChannelReleaseReqCbk :: "(u16w \<Rightarrow> SLE_Addr option) \<Rightarrow> u16w \<Rightarrow> nat \<Rightarrow> (byte \<times> byte) option \<Rightarrow> 'd cm_st \<Rightarrow> 'd cm_st" where
  "CM_DynTransChannelReleaseReqCbk linkByLcid lcid reqId rq st =
     (case rq of
        None \<Rightarrow> st
      | Some (srcTcid, dstTcid) \<Rightarrow>
          if \<not> CM_TRANS_CHANNEL_IS_DYNAMIC srcTcid then st
          else snd (CM_DynTransChanPostEventAndHandler linkByLcid CM_DYN_TRANS_CHAN_EVENT_PASSIVE_RELEASED_REQ
                 (zero_param\<lparr>y_lcid := lcid, y_remoteTcid := srcTcid, y_localTcid := dstTcid, y_result := CM_RESULT_ESTABLISH_SUCCESS,
                    y_expectedTransportMode := CM_DynTransChanGetTransportMode srcTcid, y_reqId := reqId\<rparr>) st))"

definition CM_DynTransChannelReleaseRspCbk :: "(u16w \<Rightarrow> SLE_Addr option) \<Rightarrow> u16w \<Rightarrow> (byte \<times> byte \<times> nat) option \<Rightarrow> 'd cm_st \<Rightarrow> 'd cm_st" where
  "CM_DynTransChannelReleaseRspCbk linkByLcid lcid rs st =
     (case rs of
        None \<Rightarrow> st
      | Some (srcTcid, dstTcid, result) \<Rightarrow>
          if \<not> CM_TRANS_CHANNEL_IS_DYNAMIC srcTcid then st
          else snd (CM_DynTransChanPostEventAndHandler linkByLcid
                 (if result = CM_RESULT_RELEASE_SUCCESS then CM_DYN_TRANS_CHAN_EVENT_ACTIVE_RELEASED_RSP
                  else CM_DYN_TRANS_CHAN_EVENT_ACTIVE_RELEASING_FAIL_RSP)
                 (zero_param\<lparr>y_lcid := lcid, y_result := result, y_localTcid := srcTcid, y_remoteTcid := dstTcid,
                    y_expectedTransportMode := CM_DynTransChanGetTransportMode srcTcid\<rparr>) st))"

section \<open>Links and registration\<close>

definition CM_DynTransLogicLinkCbk :: "(u16w \<times> nat) option \<Rightarrow> 'd cm_st \<Rightarrow> 'd cm_st" where
  "CM_DynTransLogicLinkCbk state st =
     (case state of
        None \<Rightarrow> st
      | Some (lcid, result) \<Rightarrow>
          if result = CM_LINK_STATE_CONNECTED then
            (case CM_DynTcidActivatePool lcid (cm_mem st) (cm_tcids st) of (ret, m, s) \<Rightarrow> st\<lparr>cm_mem := m, cm_tcids := s\<rparr>)
          else if result = CM_LINK_STATE_DISCONNECTED then
            (let st1 = CM_DynTransChannReleaseAllNode lcid st in st1\<lparr>cm_tcids := snd (CM_DynTcidDestroyPool lcid (cm_tcids st1))\<rparr>)
          else st)"

definition CM_DynTransChannStateMgrRegCbks :: "CM_DynTransChannelCbks \<Rightarrow> 'd cm_st \<Rightarrow> 'd cm_st" where
  "CM_DynTransChannStateMgrRegCbks cbks st = st\<lparr>cm_tcids := CM_DynTcidInit (cm_tcids st), g_channelCbks := cbks\<rparr>"

definition CM_DynTransChannStateMgrUnRegCbks :: "'d cm_st \<Rightarrow> 'd cm_st" where
  "CM_DynTransChannStateMgrUnRegCbks st = st\<lparr>g_channelCbks := no_cbks, cm_tcids := CM_DynTcidDeInit (cm_tcids st)\<rparr>"

text \<open>\<open>regLink\<close> and \<open>regSig\<close> are the answers of the link manager and of the signalling; from then on both call this component.\<close>

definition CM_RegDynTransChannelCbks :: "cm_ret \<Rightarrow> cm_ret \<Rightarrow> CM_DynTransChannelCbks option \<Rightarrow> 'd cm_st \<Rightarrow> cm_ret \<times> 'd cm_st" where
  "CM_RegDynTransChannelCbks regLink regSig cb st =
     (if g_cmIsRegistered st then (CM_FAIL, st)
      else case cb of
        None \<Rightarrow> (CM_INVALID_PARAM_ERR, st)
      | Some cbks \<Rightarrow>
          if \<not> (establishRspCbk cbks \<and> releaseRspCbk cbks \<and> statusIndicationCbk cbks) then (CM_INVALID_PARAM_ERR, st)
          else let st1 = CM_DynTransChannStateMgrRegCbks cbks st in
            if regLink \<noteq> CM_SUCCESS then (regLink, st1)
            else let st2 = st1\<lparr>cm_linkListener := True\<rparr> in
              if regSig \<noteq> CM_SUCCESS then (CM_FAIL, st2) else (CM_SUCCESS, st2\<lparr>g_cmIsRegistered := True\<rparr>))"

definition CM_UnRegDynTransChannelCbks :: "'d cm_st \<Rightarrow> 'd cm_st" where
  "CM_UnRegDynTransChannelCbks st =
     (if \<not> g_cmIsRegistered st then st else (CM_DynTransChannStateMgrUnRegCbks st)\<lparr>g_cmIsRegistered := False\<rparr>)"

section \<open>Runs\<close>

text \<open>A state of a run is the state of the component with the set of links that were reported to it as connected. The steps are restricted by what the
  environment does: \<open>mems\<close> is satisfied by the scripts of the allocator, \<open>peer\<close> by the identifiers with which peers answer, \<open>cfg\<close> by the
  configurations of channels; \<open>moves\<close> are the steps the listener makes of its own. The link manager calls
  the component once it is registered, and does not report a connected link again before it is disconnected; no allocation fails while the
  channels of a disconnected link are released.\<close>

inductive cm_event :: "(mem \<Rightarrow> bool) \<Rightarrow> (byte \<Rightarrow> bool) \<Rightarrow> (CM_TransModeConfig \<Rightarrow> bool) \<Rightarrow> ('d \<Rightarrow> 'd \<Rightarrow> bool) \<Rightarrow>
    'd cm_st \<times> u16w set \<Rightarrow> 'd cm_st \<times> u16w set \<Rightarrow> bool" for mems peer cfg moves where
  Cm_Memory: "mems m \<Longrightarrow> cm_event mems peer cfg moves (st, C) (st\<lparr>cm_mem := m\<rparr>, C)"
| Cm_Answers: "cm_event mems peer cfg moves (st, C) (st\<lparr>cm_script := s\<rparr>, C)"
| Cm_Listener: "moves (cm_listener st) d \<Longrightarrow> cm_event mems peer cfg moves (st, C) (st\<lparr>cm_listener := d\<rparr>, C)"
| Cm_Register: "cm_event mems peer cfg moves (st, C) (snd (CM_RegDynTransChannelCbks regLink regSig cb st), C)"
| Cm_Unregister: "cm_event mems peer cfg moves (st, C) (CM_UnRegDynTransChannelCbks st, C)"
| Cm_Establish: "(\<And>r. req = Some r \<Longrightarrow> cfg (eq_transModeConfig r)) \<Longrightarrow>
    cm_event mems peer cfg moves (st, C) (snd (CM_DynTransChannelEstablishReq linkByAddr linkByLcid req st), C)"
| Cm_Release: "cm_event mems peer cfg moves (st, C) (snd (CM_DynTransChannelReleaseReq linkByAddr linkByLcid rel st), C)"
| Cm_EstablishReq: "(\<And>r. rq = Some r \<Longrightarrow> cfg (sq_transModeConfig r)) \<Longrightarrow>
    cm_event mems peer cfg moves (st, C) (CM_DynTransChannelEstablishReqCbk linkByLcid lcid reqId rq st, C)"
| Cm_EstablishRsp: "(\<And>src dst result. rs = Some (src, dst, result) \<Longrightarrow> peer dst) \<Longrightarrow>
    cm_event mems peer cfg moves (st, C) (CM_DynTransChannelEstablishRspCbk linkByLcid lcid rs st, C)"
| Cm_ReleaseReq: "cm_event mems peer cfg moves (st, C) (CM_DynTransChannelReleaseReqCbk linkByLcid lcid reqId rq2 st, C)"
| Cm_ReleaseRsp: "cm_event mems peer cfg moves (st, C) (CM_DynTransChannelReleaseRspCbk linkByLcid lcid rs st, C)"
| Cm_Connected: "cm_linkListener st \<Longrightarrow> lcid \<notin> C \<Longrightarrow>
    cm_event mems peer cfg moves (st, C) (CM_DynTransLogicLinkCbk (Some (lcid, CM_LINK_STATE_CONNECTED)) st, insert lcid C)"
| Cm_Disconnected: "cm_linkListener st \<Longrightarrow> mem_ok (cm_mem st) \<Longrightarrow>
    cm_event mems peer cfg moves (st, C) (CM_DynTransLogicLinkCbk (Some (lcid, CM_LINK_STATE_DISCONNECTED)) st, C - {lcid})"
| Cm_FixedActivate: "(\<And>p. fp = Some p \<Longrightarrow> cfg (tp_transModeConfig p)) \<Longrightarrow>
    cm_event mems peer cfg moves (st, C) (snd (CM_ActivateFixedTransChannel linkByLcid lcid fp st), C)"
| Cm_FixedRelease: "cm_event mems peer cfg moves (st, C) (CM_ReleaseFixedTransChannel lcid st, C)"

definition cm_start :: "'d trans_listener \<Rightarrow> 'd \<Rightarrow> mem \<Rightarrow> bool list \<Rightarrow> 'd cm_st" where
  "cm_start cbk d m s = \<lparr>g_fixedTransListHead = [], g_dynTransListHead = [], g_transChannelCbk = Some cbk, cm_listener = d,
     cm_tcids = \<lparr>g_cmDynTransPoolListHead = [], g_cmDynTcidIsInited = False\<rparr>, cm_mem = m, cm_next = 0, g_channelCbks = no_cbks,
     g_cmIsRegistered = False, cm_linkListener = False, cm_script = s, cm_signals = [], cm_reports = []\<rparr>"

end
