(* ===== verification/Cm_Inv.thy ===== *)
theory Cm_Inv
  imports Cm_Chan
begin

text \<open>
  What the dynamic channels of the connection manager keep. \<open>dyn_inv\<close> relates the list of channels to the pools of identifiers; it is kept
  by adding a channel with a fresh identifier, by releasing a channel with its identifier and by changing the state of a channel, and
  every handler is made of these. The locale \<open>channel_listener\<close> is the contract with the data plane, which is told of activated and
  released channels.
\<close>

section \<open>Channels and identifiers\<close>

definition node_key :: "SleTransLcid \<Rightarrow> u16w \<times> byte" where
  "node_key n = (n_lcid n, n_local n)"

definition locals :: "u16w \<Rightarrow> SleTransLcid list \<Rightarrow> byte set" where
  "locals lcid l = n_local ` {n \<in> set l. n_lcid n = lcid}"

abbreviation unicast_tcids :: "byte set" where "unicast_tcids \<equiv> {CM_TCID_UC_BEGIN..CM_TCID_UC_END}"

definition node_ok :: "bool \<Rightarrow> (CM_TransModeConfig \<Rightarrow> bool) \<Rightarrow> u16w set \<Rightarrow> SleTransLcid \<Rightarrow> bool" where
  "node_ok ex good C n \<longleftrightarrow> n_lcid n \<in> C \<and> n_local n \<in> unicast_tcids \<and>
     n_state n \<in> {CM_TRANS_CHANNEL_STATE_ACTIVATING, CM_TRANS_CHANNEL_STATE_ACTIVATED, CM_TRANS_CHANNEL_STATE_RELEASING} \<and>
     good (node_config n) \<and> n_params n \<noteq> None \<and> (ex \<longrightarrow> n_remote n \<in> insert CM_TRANS_INVALID_TCID unicast_tcids)"

text \<open>Every identifier of a channel is marked in the pool of its link; with \<open>ex\<close>, no other is. The pools of the links in \<open>C\<close> are \<open>P\<close>.\<close>

definition dyn_inv :: "bool \<Rightarrow> (CM_TransModeConfig \<Rightarrow> bool) \<Rightarrow> u16w set \<Rightarrow> SleTransLcid list \<Rightarrow> (u16w \<rightharpoonup> byte set) \<Rightarrow> nat \<Rightarrow> bool" where
  "dyn_inv ex good C l P k \<longleftrightarrow> (\<forall>n\<in>set l. n_ptr n < k \<and> node_ok ex good C n) \<and> distinct (map n_ptr l) \<and> distinct (map node_key l) \<and>
     dom P \<subseteq> C \<and> (\<forall>lcid U. P lcid = Some U \<longrightarrow> locals lcid l \<subseteq> U \<and> (ex \<longrightarrow> U \<subseteq> locals lcid l))"

definition released :: "u16w \<Rightarrow> byte \<Rightarrow> nat \<Rightarrow> (u16w \<rightharpoonup> byte set) \<Rightarrow> (u16w \<rightharpoonup> byte set)" where
  "released lcid t mode P =
     (case P lcid of
        Some U \<Rightarrow> if mode = CM_ACCESS_TRANS_MODE_UNICAST \<and> t \<in> U then P(lcid \<mapsto> U - {t}) else P
      | None \<Rightarrow> P)"

lemma mem_locals: "t \<in> locals lcid l \<longleftrightarrow> (\<exists>n\<in>set l. n_lcid n = lcid \<and> n_local n = t)"
  by (auto simp: locals_def)

lemma locals_cong: "set (map node_key l) = set (map node_key l') \<Longrightarrow> locals lcid l = locals lcid l'"
proof -
  assume a: "set (map node_key l) = set (map node_key l')"
  have "locals lcid l = {t. (lcid, t) \<in> set (map node_key l)}" for l by (force simp: mem_locals node_key_def)
  with a show ?thesis by simp
qed

lemma distinct_map_eq: "distinct (map f l) \<Longrightarrow> x \<in> set l \<Longrightarrow> y \<in> set l \<Longrightarrow> f x = f y \<longleftrightarrow> x = y"
  by (auto simp: distinct_map inj_on_def)

lemma remove_same_node: "distinct (map n_ptr l) \<Longrightarrow> remove_first (same_node n) l = filter (\<lambda>x. n_ptr x \<noteq> n_ptr n) l"
  by (induction l) (auto simp: same_node_def rev_image_eqI intro!: filter_True [symmetric])

lemma set_remove_node:
  assumes "distinct (map n_ptr l)" "n \<in> set l"
  shows "set (remove_first (same_node n) l) = set l - {n}"
  using distinct_map_eq [OF assms(1) _ assms(2)] by (auto simp: remove_same_node [OF assms(1)])

lemma locals_remove:
  assumes "distinct (map n_ptr l)" "distinct (map node_key l)" "n \<in> set l"
  shows "locals lcid (remove_first (same_node n) l) = (if lcid = n_lcid n then locals lcid l - {n_local n} else locals lcid l)"
  using distinct_map_eq [OF assms(2) _ assms(3)] by (auto simp: locals_def set_remove_node [OF assms(1,3)] node_key_def)

lemma dyn_inv_remove:
  assumes "dyn_inv ex good C l P k" "n \<in> set l" "ex \<longrightarrow> mode = CM_ACCESS_TRANS_MODE_UNICAST"
  shows "dyn_inv ex good C (remove_first (same_node n) l) (released (n_lcid n) (n_local n) mode P) k"
proof -
  have d: "distinct (map n_ptr l)" "distinct (map node_key l)" using assms(1) by (simp_all add: dyn_inv_def)
  have l: "locals k (remove_first (same_node n) l) = (if k = n_lcid n then locals k l - {n_local n} else locals k l)" for k
    by (rule locals_remove [OF d assms(2)])
  have n: "n_local n \<in> locals (n_lcid n) l" using assms(2) by (auto simp: locals_def)
  have P: "dom P \<subseteq> C" "\<And>lcid U. P lcid = Some U \<Longrightarrow> locals lcid l \<subseteq> U \<and> (ex \<longrightarrow> U \<subseteq> locals lcid l)"
    using assms(1) by (auto simp: dyn_inv_def)
  have r: "dom (released (n_lcid n) (n_local n) mode P) \<subseteq> C" using P(1) by (auto simp: released_def split: option.splits if_splits)
  have "locals lcid (remove_first (same_node n) l) \<subseteq> U \<and> (ex \<longrightarrow> U \<subseteq> locals lcid (remove_first (same_node n) l))"
    if "released (n_lcid n) (n_local n) mode P lcid = Some U" for lcid U
    using that P(2) [of lcid] n assms(3) unfolding l
    by (auto simp: released_def split: option.splits if_splits)
  moreover have "\<forall>x\<in>set (remove_first (same_node n) l). n_ptr x < k \<and> node_ok ex good C x"
    using assms(1) set_remove_first [of "same_node n" l] by (auto simp: dyn_inv_def)
  moreover have "distinct (map n_ptr (remove_first (same_node n) l))" "distinct (map node_key (remove_first (same_node n) l))"
    using d by (simp_all add: remove_same_node [OF d(1)] distinct_map_filter)
  ultimately show ?thesis using r by (simp add: dyn_inv_def)
qed

lemma dyn_inv_add:
  assumes "dyn_inv ex good C l P k" "P (n_lcid n) = Some U" "n_local n \<notin> U" "n_ptr n = k" "k < k'" "n_lcid n \<in> C \<Longrightarrow> node_ok ex good C n"
  shows "dyn_inv ex good C (l @ [n]) (P(n_lcid n \<mapsto> insert (n_local n) U)) k'"
proof -
  have i: "\<forall>x\<in>set l. n_ptr x < k \<and> node_ok ex good C x" "distinct (map n_ptr l)" "distinct (map node_key l)" "dom P \<subseteq> C"
    "\<And>lcid U. P lcid = Some U \<Longrightarrow> locals lcid l \<subseteq> U \<and> (ex \<longrightarrow> U \<subseteq> locals lcid l)" using assms(1) by (auto simp: dyn_inv_def)
  have c: "n_lcid n \<in> C" using i(4) assms(2) by blast
  have "n_local n \<notin> locals (n_lcid n) l" using i(5) [OF assms(2)] assms(3) by blast
  then have "node_key n \<notin> node_key ` set l" by (auto simp: node_key_def mem_locals)
  moreover have "n_ptr n \<notin> n_ptr ` set l" using i(1) assms(4) by auto
  moreover have "locals lcid (l @ [n]) = (if lcid = n_lcid n then insert (n_local n) (locals lcid l) else locals lcid l)" for lcid
    by (auto simp: locals_def)
  moreover have "(P(n_lcid n \<mapsto> insert (n_local n) U)) lcid = Some V \<Longrightarrow>
      locals lcid (l @ [n]) \<subseteq> V \<and> (ex \<longrightarrow> V \<subseteq> locals lcid (l @ [n]))" for lcid V
    using i(5) [of lcid] assms(2) unfolding calculation(3) by (auto split: if_splits)
  ultimately show ?thesis using i(1-4) c assms(4,5,6) by (auto simp: dyn_inv_def)
qed

lemma upd_same_node:
  "distinct (map n_ptr l) \<Longrightarrow> upd_first (same_node n) (\<lambda>_. n) l = map (\<lambda>x. if n_ptr x = n_ptr n then n else x) l"
proof (induction l)
  case (Cons x l)
  show ?case
  proof (cases "n_ptr x = n_ptr n")
    case True
    then have "\<forall>y\<in>set l. n_ptr y \<noteq> n_ptr n" using Cons.prems by (auto simp: rev_image_eqI)
    then have "map (\<lambda>x. if n_ptr x = n_ptr n then n else x) l = l" by (simp add: map_idI)
    then show ?thesis using True by (simp add: same_node_def)
  qed (use Cons in \<open>simp add: same_node_def\<close>)
qed simp

lemma dyn_inv_upd:
  assumes "dyn_inv ex good C l P k" "n \<in> set l" "n_ptr n' = n_ptr n" "node_key n' = node_key n" "node_ok ex good C n'"
  shows "dyn_inv ex good C (upd_first (same_node n') (\<lambda>_. n') l) P k"
proof -
  have i: "\<forall>x\<in>set l. n_ptr x < k \<and> node_ok ex good C x" "distinct (map n_ptr l)" "distinct (map node_key l)" "dom P \<subseteq> C"
    "\<And>lcid U. P lcid = Some U \<Longrightarrow> locals lcid l \<subseteq> U \<and> (ex \<longrightarrow> U \<subseteq> locals lcid l)" using assms(1) by (auto simp: dyn_inv_def)
  let ?f = "\<lambda>x. if n_ptr x = n_ptr n' then n' else x"
  have u: "upd_first (same_node n') (\<lambda>_. n') l = map ?f l" by (rule upd_same_node [OF i(2)])
  have k: "node_key (?f x) = node_key x" if "x \<in> set l" for x
    using distinct_map_eq [OF i(2) that assms(2)] assms(3,4) by auto
  have "map n_ptr (map ?f l) = map n_ptr l" "map node_key (map ?f l) = map node_key l" using k by simp_all
  moreover have "locals lcid (map ?f l) = locals lcid l" for lcid
    by (rule locals_cong) (rule arg_cong [OF calculation(2), of set])
  moreover have "\<forall>x\<in>set (map ?f l). n_ptr x < k \<and> node_ok ex good C x" using i(1) assms(2,3,5) by auto
  ultimately show ?thesis unfolding u using i(2-5) by (simp add: dyn_inv_def del: map_map)
qed

lemma released_undo: "P lcid = Some U \<Longrightarrow> t \<notin> U \<Longrightarrow> released lcid t CM_ACCESS_TRANS_MODE_UNICAST (P(lcid \<mapsto> insert t U)) = P"
  by (auto simp: released_def fun_eq_iff)

lemma dyn_inv_shrink:
  "dyn_inv ex good C l P k \<Longrightarrow> \<forall>n\<in>set l. n_lcid n \<noteq> lcid \<Longrightarrow> P lcid = None \<Longrightarrow> dyn_inv ex good (C - {lcid}) l P k"
  by (auto simp: dyn_inv_def node_ok_def)

lemma dyn_inv_next: "dyn_inv ex good C l P k \<Longrightarrow> k \<le> k' \<Longrightarrow> dyn_inv ex good C l P k'"
  by (auto simp: dyn_inv_def)

lemma dyn_inv_pools: "dyn_inv ex good C l P k \<Longrightarrow> P' \<subseteq>\<^sub>m P \<Longrightarrow> dyn_inv ex good C l P' k"
  unfolding dyn_inv_def map_le_def dom_def by (metis (mono_tags, lifting) mem_Collect_eq option.distinct(1) subset_eq)

section \<open>The contract of the listener\<close>

definition chan_key :: "CM_TransChan \<Rightarrow> u16w \<times> byte" where
  "chan_key p = (p_lcid p, p_srcTcid p)"

definition chan_config :: "CM_TransChan \<Rightarrow> CM_TransModeConfig" where
  "chan_config p = \<lparr>tm_transMode = p_transMode p, tm_mtu = p_mtu p, tm_mps = p_mps p, tm_reliableMode = p_reliableMode p, tm_streamMode = p_streamMode p\<rparr>"

lemma trans_chan_key [simp]: "chan_key (trans_chan c n) = node_key n"
  by (simp add: chan_key_def trans_chan_def node_key_def Let_def)

lemma trans_chan_config [simp]: "chan_config (trans_chan c n) = node_config n"
  by (simp add: chan_config_def trans_chan_def Let_def)

text \<open>The listener knows a set of channels. It is told of activated and of released ones; the configurations it can take are \<open>good\<close>.\<close>

locale channel_listener =
  fixes cbk :: "'d trans_listener" and linv :: "'d \<Rightarrow> bool" and knows :: "'d \<Rightarrow> (u16w \<times> byte) set" and good :: "CM_TransModeConfig \<Rightarrow> bool"
  assumes told_activated: "linv d \<Longrightarrow> wf_vector v \<Longrightarrow> \<forall>p\<in>set (elems v). good (chan_config p) \<Longrightarrow>
      linv (cbk CM_TRANS_CHANNEL_STATE_ACTIVATED (Some v) d) \<and>
      knows (cbk CM_TRANS_CHANNEL_STATE_ACTIVATED (Some v) d) = knows d \<union> chan_key ` set (elems v)"
    and told_released: "linv d \<Longrightarrow> wf_vector v \<Longrightarrow>
      linv (cbk CM_TRANS_CHANNEL_STATE_RELEASED (Some v) d) \<and>
      knows (cbk CM_TRANS_CHANNEL_STATE_RELEASED (Some v) d) = knows d - chan_key ` set (elems v)"
    and good_basic: "good basic_config"

definition hears :: "'d trans_listener \<Rightarrow> ('d \<Rightarrow> bool) \<Rightarrow> ('d \<Rightarrow> (u16w \<times> byte) set) \<Rightarrow> (u16w \<times> byte) set \<Rightarrow> ('d, 'x) cm_trans_scheme \<Rightarrow> bool" where
  "hears cbk linv knows T st \<longleftrightarrow> g_transChannelCbk st = Some cbk \<and> mem_ok (cm_mem st) \<and> linv (cm_listener st) \<and> knows (cm_listener st) = T"

text \<open>The channels of which the listener should know: the fixed ones, and the dynamic ones with an identifier of the peer.\<close>

definition active_channels :: "('d, 'x) cm_trans_scheme \<Rightarrow> (u16w \<times> byte) set" where
  "active_channels st = node_key ` {n \<in> set (g_dynTransListHead st). n_remote n \<noteq> CM_TRANS_INVALID_TCID} \<union>
     node_key ` set (g_fixedTransListHead st)"

definition fixed_inv :: "SleTransLcid list \<Rightarrow> nat \<Rightarrow> bool" where
  "fixed_inv l k \<longleftrightarrow> distinct (map n_ptr l) \<and> (\<forall>n\<in>set l. n_ptr n < k \<and> n_local n \<in> set g_TransFixedChannels)"

definition cm_inv :: "bool \<Rightarrow> bool \<Rightarrow> 'd trans_listener \<Rightarrow> ('d \<Rightarrow> bool) \<Rightarrow> ('d \<Rightarrow> (u16w \<times> byte) set) \<Rightarrow> (CM_TransModeConfig \<Rightarrow> bool) \<Rightarrow>
    u16w set \<Rightarrow> ('d, 'x) cm_trans_scheme \<Rightarrow> bool" where
  "cm_inv ex tell cbk linv knows good C st \<longleftrightarrow> wf_pools (cm_tcids st) \<and>
     dyn_inv ex good C (g_dynTransListHead st) (pool_of (cm_tcids st)) (cm_next st) \<and>
     (tell \<longrightarrow> fixed_inv (g_fixedTransListHead st) (cm_next st) \<and> hears cbk linv knows (active_channels st) st)"

section \<open>Effects of the operations\<close>

lemma cm_vectorE:
  assumes "cm_vector st = (v, st')"
  obtains m where "st' = st\<lparr>cm_mem := m\<rparr>" "\<And>w. v = Some w \<Longrightarrow> wf_vector w \<and> elems w = []" "mem_ok (cm_mem st) \<Longrightarrow> v \<noteq> None \<and> mem_ok m"
proof -
  obtain ok m1 where m1: "SDF_MemAlloc (cm_mem st) = (ok, m1)" by fastforce
  obtain ok2 m2 where m2: "SDF_MemAlloc m1 = (ok2, m2)" by fastforce
  have w: "wf_vector \<lparr>buf = replicate 8 None, vsize = 0, capacity = 8, vtraits = tr\<rparr> \<and> elems \<lparr>buf = replicate 8 None, vsize = 0, capacity = 8, vtraits = tr\<rparr> = []"
    for tr by (simp add: wf_vector_def elems_def)
  show thesis
    using assms m1 m2 SDF_MemAlloc_ok [of "cm_mem st"] SDF_MemAlloc_ok [of m1] w
    by (intro that [of "if ok then m2 else m1"])
      (auto simp: cm_vector_def SDF_CreateVector_def SDF_CreateVectorByCapacity_def split: if_splits)
qed

lemma EmplaceBackE:
  assumes "wf_vector v" "SDF_VectorEmplaceBack (Some v) (Some x) m = (ok, vec, m')"
  obtains w where "vec = Some w" "wf_vector w" "mem_ok m \<Longrightarrow> ok \<and> mem_ok m'" "ok \<Longrightarrow> elems w = elems v @ [x]"
proof -
  have m: "mem_ok m \<Longrightarrow> ok \<and> mem_ok m'"
    using assms(2) SDF_MemAlloc_ok [of m] by (auto simp: SDF_VectorEmplaceBack_def VectorGrow_def split: prod.splits if_splits)
  show thesis
  proof (cases ok)
    case True
    then obtain w where "vec = Some w" "wf_vector w" "elems w = elems v @ [x]" using EmplaceBack_elems [OF assms(1), of x m vec m'] assms(2) by auto
    then show ?thesis using that m by auto
  next
    case False
    then have "vec = Some v" using assms(2) by (auto simp: SDF_VectorEmplaceBack_def VectorGrow_def split: prod.splits if_splits)
    then show ?thesis using that assms(1) m False by auto
  qed
qed

lemma ChangeCbkE:
  obtains m d where "CM_DynTransChannelChangeCbk n s st = st\<lparr>cm_mem := m, cm_listener := d\<rparr>"
    "\<And>cbk. g_transChannelCbk st = Some cbk \<Longrightarrow> mem_ok (cm_mem st) \<Longrightarrow>
       mem_ok m \<and> (\<exists>v c. wf_vector v \<and> elems v = [trans_chan c n] \<and> d = cbk s (Some v) (cm_listener st))"
proof (cases "g_transChannelCbk st")
  case None
  then show ?thesis by (intro that [where m = "cm_mem st" and d = "cm_listener st"]) (simp_all add: CM_DynTransChannelChangeCbk_def)
next
  case (Some cb)
  obtain vec st1 where v: "cm_vector st = (vec :: (CM_TransChan, unit) SDF_Vector option, st1)" by fastforce
  obtain m1 where m1: "st1 = st\<lparr>cm_mem := m1\<rparr>" "\<And>w. vec = Some w \<Longrightarrow> wf_vector w \<and> elems w = []" "mem_ok (cm_mem st) \<Longrightarrow> vec \<noteq> None \<and> mem_ok m1"
    using cm_vectorE [OF v] by blast
  obtain ok m2 where m2: "SDF_MemAlloc m1 = (ok, m2)" by fastforce
  have ok: "mem_ok m1 \<Longrightarrow> ok \<and> mem_ok m2" using SDF_MemAlloc_ok [of m1] m2 by simp
  show ?thesis
  proof (cases "vec = None \<or> \<not> ok")
    case True
    then show ?thesis using Some v m1 m2 ok
      by (intro that [where m = "if vec = None then m1 else m2" and d = "cm_listener st"])
        (auto simp: CM_DynTransChannelChangeCbk_def cm_alloc_def)
  next
    case False
    then obtain w where w: "vec = Some w" "wf_vector w" "elems w = []" using m1(2) by auto
    let ?x = "trans_chan (case n_params n of None \<Rightarrow> 0 | Some p \<Rightarrow> tp_castMode p) n"
    obtain e vec' m3 where e: "SDF_VectorEmplaceBack (Some w) (Some ?x) m2 = (e, vec', m3)" by (metis prod_cases3)
    obtain w' where w': "vec' = Some w'" "wf_vector w'" "mem_ok m2 \<Longrightarrow> e \<and> mem_ok m3" "e \<Longrightarrow> elems w' = elems w @ [?x]"
      using EmplaceBackE [OF w(2) e] by blast
    have "CM_DynTransChannelChangeCbk n s st = st\<lparr>cm_mem := m3, cm_listener := cb s (Some w') (cm_listener st)\<rparr>"
      using Some v w(1) m1(1) m2 False e w'(1) by (simp add: CM_DynTransChannelChangeCbk_def cm_alloc_def)
    then show ?thesis using that Some m1(3) ok w'(2-4) w(3) by auto
  qed
qed

lemma cm_sendE:
  assumes "cm_send sig st = (ok, st')"
  obtains a b where "st' = st\<lparr>cm_script := a, cm_signals := b\<rparr>"
  using assms that [of _ "tl (cm_script st)"] that [of "cm_signals st" "tl (cm_script st)"]
  by (auto simp: cm_send_def Let_def split: if_splits)

lemma reportE:
  "\<exists>r. CM_DynTransChanEstablishRspCbk n res st = st\<lparr>cm_reports := r\<rparr>" "\<exists>r. CM_DynTransChanReleaseRspCbk n res st = st\<lparr>cm_reports := r\<rparr>"
  "\<exists>r. CM_DynTransChanStatusIndicationCbk n b res st = st\<lparr>cm_reports := r\<rparr>"
  by (auto simp: CM_DynTransChanEstablishRspCbk_def CM_DynTransChanReleaseRspCbk_def CM_DynTransChanStatusIndicationCbk_def cm_report_def
      split: option.splits intro: exI [of _ "cm_reports st"])

lemma ChangeCbk_eff:
  "\<exists>m d. CM_DynTransChannelChangeCbk n s st = st\<lparr>cm_mem := m, cm_listener := d\<rparr> \<and>
    (g_transChannelCbk st = Some cbk \<and> mem_ok (cm_mem st) \<longrightarrow>
       mem_ok m \<and> (\<exists>v c. wf_vector v \<and> elems v = [trans_chan c n] \<and> d = cbk s (Some v) (cm_listener st)))"
  by (rule ChangeCbkE [of n s st]) metis

text \<open>What the invariant does not look at.\<close>

lemma cm_inv_frame [simp]:
  "cm_inv ex tell cbk linv knows good C (st\<lparr>cm_reports := r\<rparr>) = cm_inv ex tell cbk linv knows good C st"
  "cm_inv ex tell cbk linv knows good C (st\<lparr>cm_script := a\<rparr>) = cm_inv ex tell cbk linv knows good C st"
  "cm_inv ex tell cbk linv knows good C (st\<lparr>cm_signals := b\<rparr>) = cm_inv ex tell cbk linv knows good C st"
  "cm_inv ex tell cbk linv knows good C (st\<lparr>g_channelCbks := c\<rparr>) = cm_inv ex tell cbk linv knows good C st"
  "cm_inv ex tell cbk linv knows good C (st\<lparr>g_cmIsRegistered := f\<rparr>) = cm_inv ex tell cbk linv knows good C st"
  "cm_inv ex tell cbk linv knows good C (st\<lparr>cm_linkListener := f\<rparr>) = cm_inv ex tell cbk linv knows good C st"
  by (simp_all add: cm_inv_def active_channels_def hears_def)

lemma uc_not_fixed: "t \<in> unicast_tcids \<Longrightarrow> t \<notin> set g_TransFixedChannels \<and> \<not> CM_TRANS_CHANNEL_IS_FIXED t \<and> t \<noteq> 0 \<and> CM_TRANS_CHANNEL_IS_DYNAMIC t"
  by (auto simp: g_TransFixedChannels_def CM_TRANS_CHANNEL_IS_FIXED_def CM_TRANS_CHANNEL_IS_DYNAMIC_def word_le_nat_alt)

lemma dyn_key_not_fixed:
  "dyn_inv ex good C l P k \<Longrightarrow> fixed_inv f k' \<Longrightarrow> n \<in> set l \<Longrightarrow> node_key n \<notin> node_key ` set f"
  using uc_not_fixed [of "n_local n"] by (auto simp: dyn_inv_def node_ok_def fixed_inv_def node_key_def)

lemma tcid_release_eff:
  assumes "wf_pools (cm_tcids st)"
  shows "\<exists>s. snd (tcid_release lcid t mode st) = st\<lparr>cm_tcids := s\<rparr> \<and> wf_pools s \<and> pool_of s = released lcid t mode (pool_of (cm_tcids st))"
proof -
  obtain ret s where r: "CM_DynTcidRelease lcid t mode (cm_tcids st) = (ret, s)" by fastforce
  have "pool_of s = released lcid t mode (pool_of (cm_tcids st))" "wf_pools s"
    using CM_DynTcidRelease_spec [OF assms r] by (auto simp: released_def split: option.splits if_splits)
  then show ?thesis using r by (auto simp: tcid_release_def)
qed

lemma AllocTransChannel_eff:
  assumes "CM_AllocTransChannel linkByLcid lcid params t r s st = (res, st')"
  defines "n \<equiv> \<lparr>n_ptr = cm_next st, n_lcid = lcid, n_addr = the (linkByLcid lcid), n_state = s, n_params = params, n_local = t, n_remote = r\<rparr>"
  shows "\<exists>m. (res = None \<and> st' = st\<lparr>cm_mem := m\<rparr> \<or> res = Some n \<and>
      st' = (if CM_TRANS_CHANNEL_IS_FIXED t then st\<lparr>g_fixedTransListHead := g_fixedTransListHead st @ [n], cm_mem := m, cm_next := cm_next st + 1\<rparr>
             else st\<lparr>g_dynTransListHead := g_dynTransListHead st @ [n], cm_mem := m, cm_next := cm_next st + 1\<rparr>)) \<and>
    (mem_ok (cm_mem st) \<longrightarrow> mem_ok m \<and> (res = None) = (linkByLcid lcid = None))"
proof (cases "linkByLcid lcid")
  case None
  then show ?thesis using assms by (auto simp: CM_AllocTransChannel_def intro: exI [of _ "cm_mem st"])
next
  case (Some a)
  obtain ok m1 where m1: "SDF_MemAlloc (cm_mem st) = (ok, m1)" by fastforce
  obtain ok2 m2 where m2: "SDF_MemAlloc m1 = (ok2, m2)" by fastforce
  show ?thesis
    using assms(1) Some m1 m2 SDF_MemAlloc_ok [of "cm_mem st"] SDF_MemAlloc_ok [of m1]
    by (intro exI [of _ "if ok \<and> params \<noteq> None then m2 else m1"])
      (auto simp: CM_AllocTransChannel_def CM_AllocTransChannelNode_def cm_alloc_def n_def Let_def split: if_splits)
qed

lemma tcid_allocate_eff:
  assumes "wf_pools (cm_tcids st)" "tcid_allocate lcid mode st = (t, st')"
  shows "\<exists>s. st' = st\<lparr>cm_tcids := s\<rparr> \<and> wf_pools s \<and> (if t = CM_TRANS_INVALID_TCID then s = cm_tcids st
     else mode = CM_ACCESS_TRANS_MODE_UNICAST \<and> t \<in> unicast_tcids \<and>
       (\<exists>U. pool_of (cm_tcids st) lcid = Some U \<and> t \<notin> U \<and> pool_of s = (pool_of (cm_tcids st))(lcid \<mapsto> insert t U)))"
proof -
  obtain s where s: "CM_DynTcidAllocate lcid mode (cm_tcids st) = (t, s)" "st' = st\<lparr>cm_tcids := s\<rparr>"
    using assms(2) by (auto simp: tcid_allocate_def split: prod.splits)
  show ?thesis using CM_DynTcidAllocate_spec [OF assms(1) s(1)] s(2) by (intro exI [of _ s]) (simp split: if_splits)
qed

lemma active_keys_cong:
  assumes "map (\<lambda>x. (node_key x, n_remote x)) l = map (\<lambda>x. (node_key x, n_remote x)) l'"
  shows "node_key ` {x \<in> set l. n_remote x \<noteq> 0} = node_key ` {x \<in> set l'. n_remote x \<noteq> 0}"
proof -
  have "node_key ` {x \<in> set l. n_remote x \<noteq> 0} = fst ` {p \<in> set (map (\<lambda>x. (node_key x, n_remote x)) l). snd p \<noteq> 0}" for l
    by (force simp: image_iff)
  note e = this
  show ?thesis unfolding e [of l] e [of l'] assms ..
qed

context channel_listener
begin

lemma hears_activated:
  assumes "hears cbk linv knows T st" "good (node_config n)"
  shows "hears cbk linv knows (insert (node_key n) T) (CM_DynTransChannelChangeCbk n CM_TRANS_CHANNEL_STATE_ACTIVATED st)"
proof -
  obtain m d where c: "CM_DynTransChannelChangeCbk n CM_TRANS_CHANNEL_STATE_ACTIVATED st = st\<lparr>cm_mem := m, cm_listener := d\<rparr>"
    "g_transChannelCbk st = Some cbk \<and> mem_ok (cm_mem st) \<longrightarrow> mem_ok m \<and>
       (\<exists>v c. wf_vector v \<and> elems v = [trans_chan c n] \<and> d = cbk CM_TRANS_CHANNEL_STATE_ACTIVATED (Some v) (cm_listener st))"
    using ChangeCbk_eff [of n 2 st cbk] by (elim exE conjE)
  have h: "g_transChannelCbk st = Some cbk" "mem_ok (cm_mem st)" "linv (cm_listener st)" "knows (cm_listener st) = T"
    using assms(1) by (simp_all add: hears_def)
  obtain v c where v: "mem_ok m" "wf_vector v" "elems v = [trans_chan c n]" "d = cbk CM_TRANS_CHANNEL_STATE_ACTIVATED (Some v) (cm_listener st)"
    using c(2) h(1,2) by blast
  show ?thesis using told_activated [OF h(3) v(2)] v h assms(2) c(1) by (simp add: hears_def)
qed

lemma hears_released:
  assumes "hears cbk linv knows T st"
  shows "hears cbk linv knows (T - {node_key n}) (CM_DynTransChannelChangeCbk n CM_TRANS_CHANNEL_STATE_RELEASED st)"
proof -
  obtain m d where c: "CM_DynTransChannelChangeCbk n CM_TRANS_CHANNEL_STATE_RELEASED st = st\<lparr>cm_mem := m, cm_listener := d\<rparr>"
    "g_transChannelCbk st = Some cbk \<and> mem_ok (cm_mem st) \<longrightarrow> mem_ok m \<and>
       (\<exists>v c. wf_vector v \<and> elems v = [trans_chan c n] \<and> d = cbk CM_TRANS_CHANNEL_STATE_RELEASED (Some v) (cm_listener st))"
    using ChangeCbk_eff [of n 4 st cbk] by (elim exE conjE)
  have h: "g_transChannelCbk st = Some cbk" "mem_ok (cm_mem st)" "linv (cm_listener st)" "knows (cm_listener st) = T"
    using assms(1) by (simp_all add: hears_def)
  obtain v c where v: "mem_ok m" "wf_vector v" "elems v = [trans_chan c n]" "d = cbk CM_TRANS_CHANNEL_STATE_RELEASED (Some v) (cm_listener st)"
    using c(2) h(1,2) by blast
  show ?thesis using told_released [OF h(3) v(2)] v h c(1) by (simp add: hears_def)
qed

abbreviation inv where "inv ex tell \<equiv> cm_inv ex tell cbk linv knows good"

lemma inv_release_node:
  assumes "inv ex tell C st" "n \<in> set (g_dynTransListHead st)" "ex \<longrightarrow> mode = CM_ACCESS_TRANS_MODE_UNICAST"
  shows "inv ex tell C (snd (tcid_release (n_lcid n) (n_local n) mode (CM_ReleaseDynamicTransChannelByLocalTcid n st)))"
proof -
  let ?l = "g_dynTransListHead st"
  obtain m d where c: "CM_DynTransChannelChangeCbk n CM_TRANS_CHANNEL_STATE_RELEASED st = st\<lparr>cm_mem := m, cm_listener := d\<rparr>"
    using ChangeCbk_eff [of n 4 st cbk] by (elim exE conjE)
  let ?st = "CM_ReleaseDynamicTransChannelByLocalTcid n st"
  have r: "?st = st\<lparr>cm_mem := m, cm_listener := d, g_dynTransListHead := remove_first (same_node n) ?l\<rparr>"
    by (simp add: CM_ReleaseDynamicTransChannelByLocalTcid_def CM_DynTransChannelFreeListNode_def destroy_dyn_node_def c)
  obtain s where s: "snd (tcid_release (n_lcid n) (n_local n) mode ?st) = ?st\<lparr>cm_tcids := s\<rparr>" "wf_pools s"
    "pool_of s = released (n_lcid n) (n_local n) mode (pool_of (cm_tcids st))"
    using tcid_release_eff [of ?st "n_lcid n" "n_local n" mode] assms(1) by (auto simp: r cm_inv_def)
  have i: "dyn_inv ex good C ?l (pool_of (cm_tcids st)) (cm_next st)" using assms(1) by (simp add: cm_inv_def)
  have d: "distinct (map n_ptr ?l)" "distinct (map node_key ?l)" using i by (simp_all add: dyn_inv_def)
  have "hears cbk linv knows (active_channels (?st\<lparr>cm_tcids := s\<rparr>)) (?st\<lparr>cm_tcids := s\<rparr>)" if tell
  proof -
    have "node_key n \<notin> node_key ` set (g_fixedTransListHead st)"
      using dyn_key_not_fixed [OF i _ assms(2)] assms(1) that by (auto simp: cm_inv_def)
    then have "active_channels (?st\<lparr>cm_tcids := s\<rparr>) = active_channels st - {node_key n}"
      using distinct_map_eq [OF d(2) _ assms(2)] by (auto simp: active_channels_def r set_remove_node [OF d(1) assms(2)]) (metis imageI)
    moreover have "hears cbk linv knows (active_channels st) st" using assms(1) that by (simp add: cm_inv_def)
    ultimately show ?thesis using hears_released [of "active_channels st" st n] by (simp add: c r hears_def)
  qed
  then show ?thesis
    using assms(1) dyn_inv_remove [OF i assms(2,3)] s unfolding s(1) by (simp add: cm_inv_def r)
qed

lemma inv_release_node':
  assumes "inv ex tell C st" "n \<in> set (g_dynTransListHead st)" "ex \<longrightarrow> mode = CM_ACCESS_TRANS_MODE_UNICAST" "lcid = n_lcid n" "t = n_local n"
  shows "inv ex tell C (snd (tcid_release lcid t mode (CM_ReleaseDynamicTransChannelByLocalTcid n st)))"
  using inv_release_node [OF assms(1-3)] assms(4,5) by simp

lemma inv_upd_node:
  assumes "inv ex tell C st" "n \<in> set (g_dynTransListHead st)" "n_state n' \<in> {1, 2, 3}" "n' = n\<lparr>n_state := n_state n'\<rparr>"
  shows "inv ex tell C (upd_dyn_node n' st)"
proof -
  let ?l = "g_dynTransListHead st"
  have i: "dyn_inv ex good C ?l (pool_of (cm_tcids st)) (cm_next st)" using assms(1) by (simp add: cm_inv_def)
  have d: "distinct (map n_ptr ?l)" using i by (simp add: dyn_inv_def)
  have n: "n_ptr n' = n_ptr n" "node_key n' = node_key n" "n_remote n' = n_remote n" "node_config n' = node_config n" "n_params n' = n_params n"
    "n_lcid n' = n_lcid n" "n_local n' = n_local n"
    by (subst assms(4), simp add: node_key_def node_config_def)+
  have "node_ok ex good C n" using i assms(2) by (simp add: dyn_inv_def)
  then have o: "node_ok ex good C n'" using n assms(3) by (auto simp: node_ok_def)
  let ?f = "\<lambda>x. if n_ptr x = n_ptr n' then n' else x"
  have u: "upd_first (same_node n') (\<lambda>_. n') ?l = map ?f ?l" by (rule upd_same_node [OF d])
  have "map (\<lambda>x. (node_key x, n_remote x)) (map ?f ?l) = map (\<lambda>x. (node_key x, n_remote x)) ?l"
    using distinct_map_eq [OF d _ assms(2)] n by auto
  from active_keys_cong [OF this] have "node_key ` {x \<in> set (map ?f ?l). n_remote x \<noteq> 0} = node_key ` {x \<in> set ?l. n_remote x \<noteq> 0}" .
  then have "active_channels (upd_dyn_node n' st) = active_channels st" by (simp add: active_channels_def upd_dyn_node_def u)
  then show ?thesis using assms(1) dyn_inv_upd [OF i assms(2) n(1,2) o] by (simp add: cm_inv_def upd_dyn_node_def hears_def)
qed

lemma inv_add_node:
  assumes inv: "inv ex tell C st" and alloc: "tcid_allocate lcid mode st = (t, st1)" "t \<noteq> CM_TRANS_INVALID_TCID"
    and act: "CM_ActivateDynamicTransChannel linkByLcid lcid p st1 = (res, st2)" "y_localTcid p = t" "good (y_transModeConfig p)"
    and state: "y_state p = CM_TRANS_CHANNEL_STATE_ACTIVATING \<and> y_remoteTcid p = 0 \<or>
      y_state p = CM_TRANS_CHANNEL_STATE_ACTIVATED \<and> y_remoteTcid p \<noteq> 0 \<and> (ex \<longrightarrow> y_remoteTcid p \<in> unicast_tcids)"
  shows "case res of None \<Rightarrow> inv ex tell C (snd (tcid_release lcid t mode st2))
    | Some n \<Rightarrow> inv ex tell C st2 \<and> n \<in> set (g_dynTransListHead st2) \<and> n_lcid n = lcid \<and> n_local n = t \<and> mode = CM_ACCESS_TRANS_MODE_UNICAST"
proof -
  let ?l = "g_dynTransListHead st" and ?P = "pool_of (cm_tcids st)"
  have w: "wf_pools (cm_tcids st)" and i: "dyn_inv ex good C ?l ?P (cm_next st)"
    and h: "tell \<Longrightarrow> fixed_inv (g_fixedTransListHead st) (cm_next st) \<and> hears cbk linv knows (active_channels st) st"
    using inv by (simp_all add: cm_inv_def)
  obtain s U where s: "st1 = st\<lparr>cm_tcids := s\<rparr>" "wf_pools s" "mode = CM_ACCESS_TRANS_MODE_UNICAST" "t \<in> unicast_tcids"
    "?P lcid = Some U" "t \<notin> U" "pool_of s = ?P(lcid \<mapsto> insert t U)"
    using tcid_allocate_eff [OF w alloc(1)] alloc(2) by auto
  note t = uc_not_fixed [OF s(4)]
  define tp where "tp = \<lparr>tp_version = y_version p, tp_localIndex = y_localIndex p, tp_transModeConfig = y_transModeConfig p,
      tp_castMode = 0, tp_channelMode = y_channelMode p, tp_direction = y_direction p, tp_aid = y_aid p, tp_exclusive = True,
      tp_srcPort = y_srcPort p, tp_dstPort = y_dstPort p, tp_slqi = y_slqi p, tp_frameType = y_frameType p\<rparr>"
  obtain st3 where a: "CM_AllocTransChannel linkByLcid lcid (Some tp) t (y_remoteTcid p) (y_state p) st1 = (res, st3)"
    "st2 = (case res of None \<Rightarrow> st3 | Some n \<Rightarrow> if y_state p = 2 then CM_DynTransChannelChangeCbk n (y_state p) st3 else st3)"
    using act(1,2) alloc(2) by (auto simp: CM_ActivateDynamicTransChannel_def tp_def Let_def split: prod.splits option.splits)
  define n where "n = \<lparr>n_ptr = cm_next st, n_lcid = lcid, n_addr = the (linkByLcid lcid), n_state = y_state p, n_params = Some tp, n_local = t, n_remote = y_remoteTcid p\<rparr>"
  obtain m where m: "res = None \<and> st3 = st1\<lparr>cm_mem := m\<rparr> \<or> res = Some n \<and>
      st3 = st1\<lparr>g_dynTransListHead := ?l @ [n], cm_mem := m, cm_next := cm_next st + 1\<rparr>" "mem_ok (cm_mem st) \<longrightarrow> mem_ok m"
    using AllocTransChannel_eff [OF a(1)] t s(1) by (auto simp: n_def)
  show ?thesis
  proof (cases res)
    case None
    then have st2: "st2 = st\<lparr>cm_tcids := s, cm_mem := m\<rparr>" using m a(2) s(1) by simp
    obtain s' where s': "snd (tcid_release lcid t mode st2) = st2\<lparr>cm_tcids := s'\<rparr>" "wf_pools s'" "pool_of s' = released lcid t mode (pool_of s)"
      using tcid_release_eff [of st2 lcid t mode] s(2) st2 by auto
    have "pool_of s' = ?P" using s'(3) released_undo [of ?P lcid U t] s(3,5,6,7) by simp
    then show ?thesis using None i h s'(1,2) m(2) st2 by (auto simp: cm_inv_def hears_def active_channels_def)
  next
    case (Some n')
    then have st3: "n' = n" "st3 = st\<lparr>cm_tcids := s, g_dynTransListHead := ?l @ [n], cm_mem := m, cm_next := cm_next st + 1\<rparr>"
      using m s(1) by auto
    have good: "good (node_config n)" using act(3) by (simp add: n_def node_config_def tp_def)
    have "dyn_inv ex good C (?l @ [n]) (?P(n_lcid n \<mapsto> insert (n_local n) U)) (cm_next st + 1)"
    proof (rule dyn_inv_add [OF i])
      show "node_ok ex good C n" if "n_lcid n \<in> C" using that s(4) state good by (auto simp: node_ok_def n_def)
    qed (use s in \<open>simp_all add: n_def\<close>)
    then have d: "dyn_inv ex good C (?l @ [n]) (pool_of s) (cm_next st + 1)" using s(7) by (simp add: n_def)
    have f: "fixed_inv (g_fixedTransListHead st) (cm_next st + 1)" if tell using h [OF that] by (auto simp: fixed_inv_def)
    have act2: "active_channels st3 = (if y_state p = 2 then insert (node_key n) (active_channels st) else active_channels st)"
      using state by (auto simp: active_channels_def st3 n_def)
    have h3: "hears cbk linv knows (active_channels st) st3" if tell using h [OF that] m(2) by (simp add: hears_def st3)
    obtain m' d' where c: "CM_DynTransChannelChangeCbk n 2 st3 = st3\<lparr>cm_mem := m', cm_listener := d'\<rparr>"
      using ChangeCbk_eff [of n 2 st3 cbk] by (elim exE conjE)
    have st2: "st2 = (if y_state p = 2 then st3\<lparr>cm_mem := m', cm_listener := d'\<rparr> else st3)" using a(2) Some st3(1) c by simp
    have hd: "hears cbk linv knows (active_channels st2) st2" if tell
    proof -
      have "active_channels st2 = active_channels st3" by (simp add: st2 active_channels_def)
      then show ?thesis using hears_activated [OF h3 [OF that] good] h3 [OF that] c act2 by (simp add: st2)
    qed
    have "cm_tcids st2 = s" "g_dynTransListHead st2 = ?l @ [n]" "cm_next st2 = cm_next st + 1" "g_fixedTransListHead st2 = g_fixedTransListHead st"
      by (simp_all add: st2 st3(2))
    then have "inv ex tell C st2" "n \<in> set (g_dynTransListHead st2)" using d f hd s(2) by (simp_all add: cm_inv_def)
    moreover have "n_lcid n = lcid" "n_local n = t" by (simp_all add: n_def)
    ultimately show ?thesis using Some st3(1) s(3) by simp
  qed
qed

end

end
