(* ===== verification/Cm_Events.thy ===== *)
theory Cm_Events
  imports Cm_Inv
begin

text \<open>
  Every event of the dynamic transmission channels keeps the invariant of \<open>Cm_Inv\<close>: the handlers of the table, the entry points, the end of
  a link, and the fixed channels.
\<close>

section \<open>Handlers\<close>

lemma find_dyn_local:
  "CM_FindTransChannelByLocalTcid lcid t st = Some n \<Longrightarrow> CM_TRANS_CHANNEL_IS_DYNAMIC t \<Longrightarrow>
     n \<in> set (g_dynTransListHead st) \<and> n_lcid n = lcid \<and> n_local n = t"
  by (auto simp: CM_FindTransChannelByLocalTcid_def CM_TRANS_CHANNEL_IS_FIXED_def CM_TRANS_CHANNEL_IS_DYNAMIC_def word_le_nat_alt
      dest!: find_first_SomeD split: if_splits)

lemma find_dyn_remote:
  "CM_FindTransChannelByRemoteTcid lcid t st = Some n \<Longrightarrow> CM_TRANS_CHANNEL_IS_DYNAMIC t \<Longrightarrow>
     n \<in> set (g_dynTransListHead st) \<and> n_lcid n = lcid \<and> n_remote n = t"
  by (auto simp: CM_FindTransChannelByRemoteTcid_def CM_TRANS_CHANNEL_IS_FIXED_def CM_TRANS_CHANNEL_IS_DYNAMIC_def word_le_nat_alt
      dest!: find_first_SomeD split: if_splits)

lemma dynamic_nonzero: "CM_TRANS_CHANNEL_IS_DYNAMIC t \<Longrightarrow> t \<noteq> 0"
  by (auto simp: CM_TRANS_CHANNEL_IS_DYNAMIC_def)

lemma transport_mode_uc: "CM_DynTransChanGetTransportMode t = (if t \<in> unicast_tcids then CM_ACCESS_TRANS_MODE_UNICAST else CM_ACCESS_TRANS_MODE_MAX)"
  by (simp add: CM_DynTransChanGetTransportMode_def)

text \<open>Releasing the identifier and unlinking the node can be exchanged.\<close>

lemma free_node_tcids:
  "CM_DynTransChannelFreeListNode n (st\<lparr>cm_tcids := s\<rparr>) = (CM_DynTransChannelFreeListNode n st)\<lparr>cm_tcids := s\<rparr>"
  "cm_tcids (CM_DynTransChannelFreeListNode n st) = cm_tcids st"
proof -
  have "CM_DynTransChannelChangeCbk n k (st\<lparr>cm_tcids := s\<rparr>) = (CM_DynTransChannelChangeCbk n k st)\<lparr>cm_tcids := s\<rparr>"
    "cm_tcids (CM_DynTransChannelChangeCbk n k st) = cm_tcids st" for k
    by (auto simp: CM_DynTransChannelChangeCbk_def cm_vector_def cm_alloc_def split: option.splits prod.splits)
  then show "CM_DynTransChannelFreeListNode n (st\<lparr>cm_tcids := s\<rparr>) = (CM_DynTransChannelFreeListNode n st)\<lparr>cm_tcids := s\<rparr>"
    "cm_tcids (CM_DynTransChannelFreeListNode n st) = cm_tcids st"
    by (simp_all add: CM_DynTransChannelFreeListNode_def destroy_dyn_node_def)
qed

lemma release_commute:
  "CM_ReleaseDynamicTransChannelByRemoteTcid n (snd (tcid_release lcid t mode st)) =
     snd (tcid_release lcid t mode (CM_ReleaseDynamicTransChannelByLocalTcid n st))"
  by (simp add: CM_ReleaseDynamicTransChannelByRemoteTcid_def CM_ReleaseDynamicTransChannelByLocalTcid_def tcid_release_def free_node_tcids
      split: prod.splits)

context channel_listener
begin

lemma inv_send: "cm_send sig st = (ok, st') \<Longrightarrow> inv ex tell C st' = inv ex tell C st"
  by (auto elim!: cm_sendE)

lemma send_dyn: "cm_send sig st = (ok, st') \<Longrightarrow> g_dynTransListHead st' = g_dynTransListHead st"
  by (auto elim!: cm_sendE)

lemma inv_reports [simp]:
  "inv ex tell C (CM_DynTransChanEstablishRspCbk n res st) = inv ex tell C st"
  "inv ex tell C (CM_DynTransChanReleaseRspCbk n res st) = inv ex tell C st"
  "inv ex tell C (CM_DynTransChanStatusIndicationCbk n b res st) = inv ex tell C st"
  by (metis reportE cm_inv_frame(1))+

lemma reports_dyn [simp]:
  "g_dynTransListHead (CM_DynTransChanEstablishRspCbk n res st) = g_dynTransListHead st"
  "g_dynTransListHead (CM_DynTransChanReleaseRspCbk n res st) = g_dynTransListHead st"
  "g_dynTransListHead (CM_DynTransChanStatusIndicationCbk n b res st) = g_dynTransListHead st"
  by (auto simp: CM_DynTransChanEstablishRspCbk_def CM_DynTransChanReleaseRspCbk_def
      CM_DynTransChanStatusIndicationCbk_def cm_report_def split: option.splits)

text \<open>The two ways to make a channel, with the answer of the signalling.\<close>

lemma inv_active_establish:
  assumes "inv ex tell C st" "good (y_transModeConfig p)"
  shows "inv ex tell C (snd (CM_DynTransChanActiveEstablishingReqHandler linkByLcid cur p CM_TRANS_CHANNEL_STATE_ACTIVATING st))"
proof -
  obtain t st1 where a: "tcid_allocate (y_lcid p) (y_expectedTransportMode p) st = (t, st1)" by fastforce
  let ?p = "p\<lparr>y_localTcid := t, y_remoteTcid := CM_TRANS_INVALID_TCID, y_state := CM_TRANS_CHANNEL_STATE_ACTIVATING\<rparr>"
  obtain res st2 where b: "CM_ActivateDynamicTransChannel linkByLcid (y_lcid p) ?p st1 = (res, st2)" by fastforce
  show ?thesis
  proof (cases "t = CM_TRANS_INVALID_TCID")
    case True
    then have "st1 = st" using tcid_allocate_eff [OF _ a] assms(1) by (auto simp: cm_inv_def)
    then show ?thesis using a True assms(1) by (simp add: CM_DynTransChanActiveEstablishingReqHandler_def)
  next
    case False
    note i = inv_add_node [OF assms(1) a False b]
    show ?thesis
    proof (cases res)
      case None
      then show ?thesis using a b False i assms(2) by (simp add: CM_DynTransChanActiveEstablishingReqHandler_def)
    next
      case (Some n)
      obtain ok st3 where s: "cm_send (EstablishReq (y_lcid p) (establish_req t p)) st2 = (ok, st3)" by fastforce
      have j: "inv ex tell C st3" "n \<in> set (g_dynTransListHead st3)" "n_lcid n = y_lcid p" "n_local n = t" "y_expectedTransportMode p = 0"
        using i Some assms(2) inv_send [OF s] send_dyn [OF s] by simp_all
      show ?thesis using a b False Some s j inv_release_node' [OF j(1,2), of 0 "y_lcid p" t]
        by (simp add: CM_DynTransChanActiveEstablishingReqHandler_def)
    qed
  qed
qed

lemma inv_passive_establish:
  assumes "inv ex tell C st" "good (y_transModeConfig p)" "CM_TRANS_CHANNEL_IS_DYNAMIC (y_remoteTcid p)"
    "y_expectedTransportMode p = CM_DynTransChanGetTransportMode (y_remoteTcid p)"
  shows "inv ex tell C (snd (CM_DynTransChanPassiveEstablishedReqHandler linkByLcid cur p CM_TRANS_CHANNEL_STATE_ACTIVATED st))"
proof -
  have err: "inv ex tell C (CM_DynTransChanSendEstablishedErrResp p r st)" for r
    using assms(1) inv_send by (metis CM_DynTransChanSendEstablishedErrResp_def prod.collapse)
  obtain t st1 where a: "tcid_allocate (y_lcid p) (y_expectedTransportMode p) st = (t, st1)" by fastforce
  let ?p = "p\<lparr>y_localTcid := t, y_state := CM_TRANS_CHANNEL_STATE_ACTIVATED\<rparr>"
  obtain res st2 where b: "CM_ActivateDynamicTransChannel linkByLcid (y_lcid p) ?p st1 = (res, st2)" by fastforce
  show ?thesis
  proof (cases "CM_DynTransChannelMtuCheck (tm_mtu (y_transModeConfig p)) \<and> CM_DynTransChannelEstablishedCheck (y_srcPort p) (y_dstPort p) st")
    case False
    then show ?thesis using err by (auto simp: CM_DynTransChanPassiveEstablishedReqHandler_def)
  next
    case ok: True
    show ?thesis
    proof (cases "t = CM_TRANS_INVALID_TCID")
      case True
      then have "st1 = st" using tcid_allocate_eff [OF _ a] assms(1) by (auto simp: cm_inv_def)
      then show ?thesis using a True assms(1) ok by (simp add: CM_DynTransChanPassiveEstablishedReqHandler_def)
    next
      case False
      have "y_expectedTransportMode p = 0" using tcid_allocate_eff [OF _ a] assms(1) False by (auto simp: cm_inv_def)
      then have "y_remoteTcid p \<in> unicast_tcids" using assms(4) by (simp add: transport_mode_uc split: if_splits)
      note i = inv_add_node [OF assms(1) a False b]
      have i: "case res of None \<Rightarrow> inv ex tell C (snd (tcid_release (y_lcid p) t (y_expectedTransportMode p) st2))
        | Some n \<Rightarrow> inv ex tell C st2 \<and> n \<in> set (g_dynTransListHead st2) \<and> n_lcid n = y_lcid p \<and> n_local n = t \<and> y_expectedTransportMode p = 0"
        by (rule i) (use \<open>y_remoteTcid p \<in> unicast_tcids\<close> dynamic_nonzero [OF assms(3)] assms(2) in simp_all)
      show ?thesis
      proof (cases res)
        case None
        then show ?thesis using a b False i ok by (simp add: CM_DynTransChanPassiveEstablishedReqHandler_def)
      next
        case (Some n)
        obtain o' st3 where s: "cm_send (EstablishRsp (y_lcid p) (y_reqId p) (y_remoteTcid p) t CM_RESULT_ESTABLISH_SUCCESS) st2 = (o', st3)" by fastforce
        have j: "inv ex tell C st3" "n \<in> set (g_dynTransListHead st3)" "n_lcid n = y_lcid p" "n_local n = t" "y_expectedTransportMode p = 0"
          using i Some inv_send [OF s] send_dyn [OF s] by simp_all
        show ?thesis using a b False Some s j inv_release_node' [OF j(1,2), of 0 "y_lcid p" t] ok
          by (simp add: CM_DynTransChanPassiveEstablishedReqHandler_def)
      qed
    qed
  qed
qed

text \<open>A channel of which the peer tells its identifier.\<close>

lemma inv_established:
  assumes "inv ex tell C st" "CM_TRANS_CHANNEL_IS_DYNAMIC (y_localTcid p)" "CM_TRANS_CHANNEL_IS_DYNAMIC (y_remoteTcid p)"
    "ex \<longrightarrow> y_remoteTcid p \<in> unicast_tcids"
  shows "inv ex tell C (snd (CM_DynTransChanActiveEstablishedRspHandler cur p CM_TRANS_CHANNEL_STATE_ACTIVATED st))"
proof (cases "y_result p = CM_RESULT_ESTABLISH_SUCCESS \<and> CM_FindTransChannelByLocalTcid (y_lcid p) (y_localTcid p) st \<noteq> None")
  case False
  then show ?thesis using assms(1) by (auto simp: CM_DynTransChanActiveEstablishedRspHandler_def)
next
  case True
  then obtain n where f: "CM_FindTransChannelByLocalTcid (y_lcid p) (y_localTcid p) st = Some n" by auto
  note n = find_dyn_local [OF f assms(2)]
  let ?l = "g_dynTransListHead st"
  let ?n = "n\<lparr>n_state := CM_TRANS_CHANNEL_STATE_ACTIVATED, n_remote := y_remoteTcid p\<rparr>" and ?k = CM_TRANS_CHANNEL_STATE_ACTIVATED
  have i: "dyn_inv ex good C ?l (pool_of (cm_tcids st)) (cm_next st)" using assms(1) by (simp add: cm_inv_def)
  have d: "distinct (map n_ptr ?l)" using i by (simp add: dyn_inv_def)
  have nk: "node_key ?n = node_key n" "node_config ?n = node_config n" by (simp_all add: node_key_def node_config_def)
  have "node_ok ex good C n" using i n by (simp add: dyn_inv_def)
  then have o: "node_ok ex good C ?n" "good (node_config ?n)" using nk assms(4) by (auto simp: node_ok_def)
  let ?st1 = "upd_dyn_node ?n st"
  have l1: "g_dynTransListHead ?st1 = map (\<lambda>x. if n_ptr x = n_ptr n then ?n else x) ?l"
    using upd_same_node [OF d, of ?n] by (simp add: upd_dyn_node_def)
  have "{x \<in> set (g_dynTransListHead ?st1). n_remote x \<noteq> 0} = insert ?n ({x \<in> set ?l. n_remote x \<noteq> 0} - {n})"
    using distinct_map_eq [OF d] n dynamic_nonzero [OF assms(3)] unfolding l1 by (auto simp: image_iff)
  then have "node_key ` {x \<in> set (g_dynTransListHead ?st1). n_remote x \<noteq> 0} = insert (node_key n) (node_key ` {x \<in> set ?l. n_remote x \<noteq> 0})"
    by (auto simp: nk)
  then have ac: "active_channels ?st1 = insert (node_key n) (active_channels st)"
    by (simp add: active_channels_def upd_dyn_node_def)
  obtain m' d' where c: "CM_DynTransChannelChangeCbk ?n ?k ?st1 = ?st1\<lparr>cm_mem := m', cm_listener := d'\<rparr>"
    using ChangeCbk_eff [of ?n ?k ?st1 cbk] by (elim exE conjE)
  have ac': "active_channels (CM_DynTransChannelChangeCbk ?n ?k ?st1) = active_channels ?st1" by (simp add: c active_channels_def)
  have "hears cbk linv knows (active_channels st) ?st1" if tell using assms(1) that by (simp add: cm_inv_def hears_def upd_dyn_node_def)
  then have h: "hears cbk linv knows (active_channels (CM_DynTransChannelChangeCbk ?n ?k ?st1)) (CM_DynTransChannelChangeCbk ?n ?k ?st1)" if tell
    using hears_activated [OF _ o(2), of "active_channels st" ?st1] that unfolding ac' ac nk by blast
  have sel: "cm_tcids (CM_DynTransChannelChangeCbk ?n ?k ?st1) = cm_tcids st" "cm_next (CM_DynTransChannelChangeCbk ?n ?k ?st1) = cm_next st"
    "g_dynTransListHead (CM_DynTransChannelChangeCbk ?n ?k ?st1) = upd_first (same_node ?n) (\<lambda>_. ?n) ?l"
    "g_fixedTransListHead (CM_DynTransChannelChangeCbk ?n ?k ?st1) = g_fixedTransListHead st"
    unfolding c by (simp_all add: upd_dyn_node_def)
  have "dyn_inv ex good C (upd_first (same_node ?n) (\<lambda>_. ?n) ?l) (pool_of (cm_tcids st)) (cm_next st)"
    using n nk o(1) by (intro dyn_inv_upd [OF i]) simp_all
  then have "inv ex tell C (CM_DynTransChannelChangeCbk ?n ?k ?st1)"
    using assms(1) h unfolding cm_inv_def sel by blast
  then show ?thesis
    using f True by (simp add: CM_DynTransChanActiveEstablishedRspHandler_def CM_DynamicTransChannelSetTcidAndChangeCbk_def Let_def)
qed

text \<open>The handlers that give a channel up.\<close>

lemma inv_give_up:
  assumes "inv ex tell C st" "n \<in> set (g_dynTransListHead st)" "n_lcid n = y_lcid p" "n_local n = y_localTcid p"
    "ex \<longrightarrow> y_expectedTransportMode p = CM_ACCESS_TRANS_MODE_UNICAST"
  shows "inv ex tell C (snd (give_up n p st))"
  using inv_release_node' [OF assms(1,2,5)] assms(3,4) by (auto simp: give_up_def split: prod.splits)

lemma uc_of_node: "inv ex tell C st \<Longrightarrow> n \<in> set (g_dynTransListHead st) \<Longrightarrow> n_local n \<in> unicast_tcids"
  by (auto simp: cm_inv_def dyn_inv_def node_ok_def)

lemma inv_give_up_handlers:
  assumes "inv ex tell C st" "CM_TRANS_CHANNEL_IS_DYNAMIC (y_localTcid p)" "y_expectedTransportMode p = CM_DynTransChanGetTransportMode (y_localTcid p)"
  shows "inv ex tell C (snd (CM_DynTransChanActiveEstablishingFailRspHandler cur p nxt st))"
    "inv ex tell C (snd (CM_DynTransChanActiveReleasedRspHandler cur p nxt st))"
    "inv ex tell C (snd (CM_DynTransChanActiveReleasingFailRspHandler cur p nxt st))"
proof -
  have g: "inv ex tell C (snd (give_up n p st'))"
    if "CM_FindTransChannelByLocalTcid (y_lcid p) (y_localTcid p) st = Some n" "inv ex tell C st'" "g_dynTransListHead st' = g_dynTransListHead st" for n st'
  proof (rule inv_give_up)
    show "ex \<longrightarrow> y_expectedTransportMode p = CM_ACCESS_TRANS_MODE_UNICAST"
      using uc_of_node [OF assms(1), of n] find_dyn_local [OF that(1) assms(2)] assms(3) by (simp add: transport_mode_uc)
  qed (use find_dyn_local [OF that(1) assms(2)] that(2,3) in auto)
  show "inv ex tell C (snd (CM_DynTransChanActiveEstablishingFailRspHandler cur p nxt st))"
    "inv ex tell C (snd (CM_DynTransChanActiveReleasedRspHandler cur p nxt st))"
    "inv ex tell C (snd (CM_DynTransChanActiveReleasingFailRspHandler cur p nxt st))"
    using g assms(1) by (simp_all add: CM_DynTransChanActiveEstablishingFailRspHandler_def CM_DynTransChanActiveReleasedRspHandler_def
        CM_DynTransChanActiveReleasingFailRspHandler_def Let_def split: option.splits)
qed

lemma inv_releasing:
  assumes "inv ex tell C st" "CM_TRANS_CHANNEL_IS_DYNAMIC (y_localTcid p)" "cur \<in> {1, 2, 3}" "nxt \<in> {1, 2, 3}"
  shows "inv ex tell C (snd (CM_DynTransChanActiveReleasingHandler cur p nxt st))"
proof (cases "CM_FindTransChannelByLocalTcid (y_lcid p) (y_localTcid p) st")
  case None
  then show ?thesis using assms(1) by (simp add: CM_DynTransChanActiveReleasingHandler_def)
next
  case (Some n)
  note n = find_dyn_local [OF Some assms(2)]
  let ?st1 = "upd_dyn_node (n\<lparr>n_state := nxt\<rparr>) st"
  obtain ok st2 where s: "cm_send (ReleaseReq (y_lcid p) (y_localTcid p) (n_remote n)) ?st1 = (ok, st2)" by fastforce
  have i1: "inv ex tell C ?st1" by (rule inv_upd_node [OF assms(1), of n]) (use n assms(4) in simp_all)
  then have i2: "inv ex tell C st2" using inv_send [OF s] by simp
  have d: "distinct (map n_ptr (g_dynTransListHead st))" using assms(1) by (simp add: cm_inv_def dyn_inv_def)
  have "n\<lparr>n_state := nxt\<rparr> \<in> set (g_dynTransListHead st2)"
    unfolding send_dyn [OF s] using n by (auto simp: upd_dyn_node_def upd_same_node [OF d] image_iff)
  then have i3: "inv ex tell C (upd_dyn_node (n\<lparr>n_state := cur\<rparr>) st2)"
    by (rule inv_upd_node [OF i2]) (use assms(3) in simp_all)
  show ?thesis using Some s i2 i3 by (simp add: CM_DynTransChanActiveReleasingHandler_def)
qed

lemma inv_passive_release:
  assumes "inv ex tell C st" "CM_TRANS_CHANNEL_IS_DYNAMIC (y_remoteTcid p)" "y_expectedTransportMode p = CM_DynTransChanGetTransportMode (y_remoteTcid p)"
  shows "inv ex tell C (snd (CM_DynTransChanPassiveReleasedReqHandler cur p nxt st))"
proof (cases "CM_FindTransChannelByRemoteTcid (y_lcid p) (y_remoteTcid p) st")
  case None
  then show ?thesis using assms(1) by (simp add: CM_DynTransChanPassiveReleasedReqHandler_def)
next
  case (Some n)
  note n = find_dyn_remote [OF Some assms(2)]
  let ?st1 = "CM_DynTransChanStatusIndicationCbk n False CM_DYN_TRANS_CHAN_STATUS_INDICATION_DICONNECTED st"
  let ?st3 = "CM_ReleaseDynamicTransChannelByRemoteTcid n (snd (tcid_release (n_lcid n) (n_local n) (y_expectedTransportMode p) ?st1))"
  have "node_ok ex good C n" using assms(1) n by (simp add: cm_inv_def dyn_inv_def)
  then have "ex \<longrightarrow> y_expectedTransportMode p = 0" using n assms(3) dynamic_nonzero [OF assms(2)] by (auto simp: node_ok_def transport_mode_uc)
  then have i3: "inv ex tell C ?st3" unfolding release_commute using assms(1) n by (intro inv_release_node) simp_all
  obtain ok st4 where s: "cm_send (ReleaseRsp (n_lcid n) (y_reqId p) (n_remote n) (n_local n) CM_RESULT_RELEASE_SUCCESS) ?st3 = (ok, st4)" by fastforce
  have "inv ex tell C st4" using inv_send [OF s] i3 by simp
  moreover have "inv ex tell C (CM_DynTransChanExpectionReleaseHandler a b c st4)" if "inv ex tell C st4" for a b c
    using that inv_send by (metis CM_DynTransChanExpectionReleaseHandler_def prod.collapse)
  ultimately show ?thesis using Some s by (simp add: CM_DynTransChanPassiveReleasedReqHandler_def Let_def)
qed

end

section \<open>The end of a link\<close>

lemma reports_tcids:
  "CM_DynTransChanEstablishRspCbk n res (st\<lparr>cm_tcids := s\<rparr>) = (CM_DynTransChanEstablishRspCbk n res st)\<lparr>cm_tcids := s\<rparr>"
  "CM_DynTransChanStatusIndicationCbk n b res (st\<lparr>cm_tcids := s\<rparr>) = (CM_DynTransChanStatusIndicationCbk n b res st)\<lparr>cm_tcids := s\<rparr>"
  by (simp_all add: CM_DynTransChanEstablishRspCbk_def CM_DynTransChanStatusIndicationCbk_def cm_report_def split: option.splits)

lemma notify_tcids: "notify_disconnected n (st\<lparr>cm_tcids := s\<rparr>) = (notify_disconnected n st)\<lparr>cm_tcids := s\<rparr>"
  by (simp add: notify_disconnected_def Let_def CM_ReleaseDynamicTransChannelByLocalTcid_def free_node_tcids reports_tcids)

lemma for_nodes_tcids:
  "for_nodes notify_disconnected ns (st\<lparr>cm_tcids := s\<rparr>) = (for_nodes notify_disconnected ns st)\<lparr>cm_tcids := s\<rparr>"
proof (induction ns arbitrary: st)
  case (Cons x ns)
  show ?case using Cons.IH by (cases x) (simp_all add: notify_tcids)
qed simp

lemma release_all_tcids:
  "CM_DynTransChannReleaseAllNode lcid (st\<lparr>cm_tcids := s\<rparr>) = (CM_DynTransChannReleaseAllNode lcid st)\<lparr>cm_tcids := s\<rparr>"
proof -
  obtain vec :: "node_vector option" and m where v: "SDF_CreateVector \<lparr>dtor = None, cmptor = None\<rparr> (cm_mem st) = (vec, m)" by fastforce
  obtain ret w m2 where f: "find_by_lcid (g_dynTransListHead st) lcid vec m = (ret, w, m2)" by (metis prod_cases3)
  have e: "st\<lparr>cm_tcids := s, cm_mem := k\<rparr> = st\<lparr>cm_mem := k, cm_tcids := s\<rparr>" for k by simp
  have v2: "cm_vector (st\<lparr>cm_tcids := s\<rparr>) = (vec, st\<lparr>cm_mem := m, cm_tcids := s\<rparr>)" "cm_vector st = (vec, st\<lparr>cm_mem := m\<rparr>)"
    using v by (simp_all add: cm_vector_def)
  have f2: "CM_FindDynTransChannelByLcid lcid vec (st\<lparr>cm_mem := m, cm_tcids := s\<rparr>) = (ret, w, st\<lparr>cm_mem := m2, cm_tcids := s\<rparr>)"
    "CM_FindDynTransChannelByLcid lcid vec (st\<lparr>cm_mem := m\<rparr>) = (ret, w, st\<lparr>cm_mem := m2\<rparr>)"
    using f by (simp_all add: CM_FindDynTransChannelByLcid_def)
  show ?thesis
    by (cases w) (simp_all add: CM_DynTransChannReleaseAllNode_def v2 f2 CM_DynTransChannelNotifyAllDisconnected_def for_nodes_tcids)
qed

lemma cm_vector_ok:
  assumes "mem_ok (cm_mem st)"
  shows "\<exists>v m. cm_vector st = (Some v, st\<lparr>cm_mem := m\<rparr>) \<and> wf_vector v \<and> elems v = [] \<and> mem_ok m"
proof -
  obtain m1 where m1: "SDF_MemAlloc (cm_mem st) = (True, m1)" "mem_ok m1" using SDF_MemAlloc_okE [OF assms] by blast
  obtain m2 where "SDF_MemAlloc m1 = (True, m2)" "mem_ok m2" using SDF_MemAlloc_okE [OF m1(2)] by blast
  with m1 show ?thesis
    by (intro exI [of _ "\<lparr>buf = replicate 8 None, vsize = 0, capacity = 8, vtraits = \<lparr>dtor = None, cmptor = None\<rparr>\<rparr>"] exI [of _ m2])
      (simp add: cm_vector_def SDF_CreateVector_def SDF_CreateVectorByCapacity_def wf_vector_def elems_def)
qed

lemma fill_vector_ok:
  assumes "wf_vector v" "mem_ok m"
  shows "\<exists>w m'. fill_vector ns (Some v) m = (Some w, m') \<and> wf_vector w \<and> elems w = elems v @ ns \<and> mem_ok m'"
  using assms
proof (induction ns arbitrary: v m)
  case (Cons n ns)
  obtain ok vec m1 where e: "SDF_VectorEmplaceBack (Some v) (Some n) m = (ok, vec, m1)" by (metis prod_cases3)
  obtain w where w: "vec = Some w" "wf_vector w" "mem_ok m \<Longrightarrow> ok \<and> mem_ok m1" "ok \<Longrightarrow> elems w = elems v @ [n]"
    using EmplaceBackE [OF Cons.prems(1) e] by blast
  show ?case using Cons.IH [OF w(2), of m1] w Cons.prems(2) e by simp
qed simp

lemma vector_nodes_elems: "wf_vector v \<Longrightarrow> vector_nodes v = map Some (elems v)"
  by (rule nth_equalityI) (simp_all add: vector_nodes_def SDF_VectorElementAt_def length_elems buf_nth)

lemma cm_inv_shrink:
  "cm_inv ex tell cbk linv knows good C st \<Longrightarrow> \<forall>n\<in>set (g_dynTransListHead st). n_lcid n \<noteq> lcid \<Longrightarrow> pool_of (cm_tcids st) lcid = None \<Longrightarrow>
     cm_inv ex tell cbk linv knows good (C - {lcid}) st"
  by (simp add: cm_inv_def dyn_inv_shrink)

context channel_listener
begin

lemma inv_notify:
  assumes "inv ex tell C st" "n \<in> set (g_dynTransListHead st)" "pool_of (cm_tcids st) (n_lcid n) = None"
  shows "inv ex tell C (notify_disconnected n st) \<and> g_dynTransListHead (notify_disconnected n st) = remove_first (same_node n) (g_dynTransListHead st) \<and>
    cm_tcids (notify_disconnected n st) = cm_tcids st"
proof -
  have s: "n_state n \<in> {1, 2, 3}" using assms(1,2) by (auto simp: cm_inv_def dyn_inv_def node_ok_def)
  obtain r st1 where st1: "st1 = st\<lparr>cm_reports := r\<rparr>" "notify_disconnected n st = CM_ReleaseDynamicTransChannelByLocalTcid n st1"
  proof (cases "n_state n = 1")
    case True
    then show ?thesis using that reportE(1) [of n 1 st] by (auto simp: notify_disconnected_def Let_def)
  next
    case False
    then show ?thesis using that s reportE(3) [of n False 2 st] by (auto simp: notify_disconnected_def Let_def)
  qed
  let ?st2 = "CM_ReleaseDynamicTransChannelByLocalTcid n st1"
  obtain m d where c: "CM_DynTransChannelChangeCbk n CM_TRANS_CHANNEL_STATE_RELEASED st1 = st1\<lparr>cm_mem := m, cm_listener := d\<rparr>"
    using ChangeCbk_eff [of n 4 st1 cbk] by (elim exE conjE)
  have r: "?st2 = st1\<lparr>cm_mem := m, cm_listener := d, g_dynTransListHead := remove_first (same_node n) (g_dynTransListHead st)\<rparr>"
    unfolding CM_ReleaseDynamicTransChannelByLocalTcid_def CM_DynTransChannelFreeListNode_def destroy_dyn_node_def c by (simp add: st1(1))
  have "tcid_release (n_lcid n) (n_local n) 0 ?st2 = (CM_FAIL, ?st2)"
    using assms(3) unfolding r by (simp add: tcid_release_def CM_DynTcidRelease_def pool_of_def st1(1))
  moreover have "inv ex tell C st1" "n \<in> set (g_dynTransListHead st1)" using assms(1,2) st1(1) by simp_all
  ultimately have "inv ex tell C ?st2" using inv_release_node [of ex tell C st1 n 0] by simp
  moreover have "g_dynTransListHead ?st2 = remove_first (same_node n) (g_dynTransListHead st)" "cm_tcids ?st2 = cm_tcids st"
    unfolding r by (simp_all add: st1(1))
  ultimately show ?thesis by (simp only: st1(2) simp_thms)
qed

lemma inv_notify_all:
  assumes "inv ex tell C st" "set ns \<subseteq> set (g_dynTransListHead st)" "distinct ns" "\<forall>n\<in>set ns. pool_of (cm_tcids st) (n_lcid n) = None"
  defines "st' \<equiv> for_nodes notify_disconnected (map Some ns) st"
  shows "inv ex tell C st' \<and> set (g_dynTransListHead st') = set (g_dynTransListHead st) - set ns"
  using assms(1-4) unfolding st'_def
proof (induction ns arbitrary: st)
  case (Cons n ns)
  let ?s = "notify_disconnected n st"
  have n: "inv ex tell C ?s" "g_dynTransListHead ?s = remove_first (same_node n) (g_dynTransListHead st)" "cm_tcids ?s = cm_tcids st"
    using inv_notify [of ex tell C st n] Cons.prems by simp_all
  have d: "distinct (map n_ptr (g_dynTransListHead st))" using Cons.prems(1) by (simp add: cm_inv_def dyn_inv_def)
  have l: "set (g_dynTransListHead ?s) = set (g_dynTransListHead st) - {n}" using set_remove_node [OF d, of n] Cons.prems(2) n(2) by simp
  have "inv ex tell C (for_nodes notify_disconnected (map Some ns) ?s) \<and>
      set (g_dynTransListHead (for_nodes notify_disconnected (map Some ns) ?s)) = set (g_dynTransListHead ?s) - set ns"
    by (rule Cons.IH) (use Cons.prems n(1,3) l in auto)
  then show ?case using l by auto
qed simp

lemma inv_mem: "inv ex tell C st \<Longrightarrow> tell \<longrightarrow> mem_ok m \<Longrightarrow> inv ex tell C (st\<lparr>cm_mem := m\<rparr>)"
  by (auto simp: cm_inv_def hears_def active_channels_def)

lemma inv_tcids:
  "inv ex tell C st \<Longrightarrow> wf_pools s \<Longrightarrow> pool_of s \<subseteq>\<^sub>m pool_of (cm_tcids st) \<Longrightarrow> inv ex tell C (st\<lparr>cm_tcids := s\<rparr>)"
  by (auto simp: cm_inv_def hears_def active_channels_def intro: dyn_inv_pools)

lemma inv_disconnected:
  assumes "inv ex tell C st" "mem_ok (cm_mem st)"
  shows "inv ex tell (C - {lcid}) (CM_DynTransLogicLinkCbk (Some (lcid, CM_LINK_STATE_DISCONNECTED)) st)"
proof -
  obtain ret s where s: "CM_DynTcidDestroyPool lcid (cm_tcids st) = (ret, s)" by fastforce
  have w: "wf_pools (cm_tcids st)" using assms(1) by (simp add: cm_inv_def)
  have p: "wf_pools s" "pool_of s = (pool_of (cm_tcids st))(lcid := None)" using CM_DynTcidDestroyPool_spec [OF w s] by simp_all
  define st0 where "st0 = st\<lparr>cm_tcids := s\<rparr>"
  have i0: "inv ex tell C st0" unfolding st0_def by (rule inv_tcids [OF assms(1) p(1)]) (simp add: p(2) map_le_def)
  let ?ns = "filter (\<lambda>n. n_lcid n = lcid) (g_dynTransListHead st)"
  have "mem_ok (cm_mem st0)" using assms(2) by (simp add: st0_def)
  then have "\<exists>v m. cm_vector st0 = (Some (v :: node_vector), st0\<lparr>cm_mem := m\<rparr>) \<and> wf_vector v \<and> elems v = [] \<and> mem_ok m"
    by (rule cm_vector_ok)
  then obtain v0 m1 where v: "cm_vector st0 = (Some (v0 :: node_vector), st0\<lparr>cm_mem := m1\<rparr>)" "wf_vector v0" "elems v0 = []" "mem_ok m1"
    by (elim exE conjE)
  obtain w m2 where m2: "fill_vector ?ns (Some v0) m1 = (Some w, m2)" "wf_vector w" "elems w = ?ns" "mem_ok m2"
    using fill_vector_ok [OF v(2,4), of ?ns] v(3) by auto
  define st2 where "st2 = st0\<lparr>cm_mem := m2\<rparr>"
  have i2: "inv ex tell C st2" unfolding st2_def using inv_mem [OF i0] m2(4) by simp
  have z: "vsize w = 0 \<longleftrightarrow> ?ns = []" using length_elems [OF m2(2)] m2(3) by (metis length_0_conv)
  have r: "CM_DynTransChannReleaseAllNode lcid st0 = for_nodes notify_disconnected (map Some ?ns) st2"
    using v(1) m2 z by (auto simp: CM_DynTransChannReleaseAllNode_def CM_FindDynTransChannelByLcid_def find_by_lcid_def st2_def st0_def
        CM_DynTransChannelNotifyAllDisconnected_def vector_nodes_elems)
  have d: "distinct ?ns" using assms(1) by (auto simp: cm_inv_def dyn_inv_def distinct_map)
  let ?e = "for_nodes notify_disconnected (map Some ?ns) st2"
  have "inv ex tell C ?e \<and> set (g_dynTransListHead ?e) = set (g_dynTransListHead st2) - set ?ns"
    by (rule inv_notify_all [OF i2 _ d]) (auto simp: st2_def st0_def p(2))
  then have e: "inv ex tell C ?e" "\<forall>n\<in>set (g_dynTransListHead ?e). n_lcid n \<noteq> lcid" by (auto simp: st2_def st0_def)
  have e1: "?e = (CM_DynTransChannReleaseAllNode lcid st)\<lparr>cm_tcids := s\<rparr>" using r release_all_tcids [of lcid s st] by (simp add: st0_def)
  then have tc: "cm_tcids ?e = s" using arg_cong [OF e1, of cm_tcids] by simp
  have "CM_DynTransLogicLinkCbk (Some (lcid, CM_LINK_STATE_DISCONNECTED)) st = ?e"
  proof -
    have t: "cm_tcids (CM_DynTransChannReleaseAllNode lcid st) = cm_tcids st"
      using arg_cong [OF release_all_tcids [of lcid "cm_tcids st" st], of cm_tcids] by simp
    then show ?thesis using s by (simp add: CM_DynTransLogicLinkCbk_def Let_def e1)
  qed
  moreover have "inv ex tell (C - {lcid}) ?e"
    by (rule cm_inv_shrink [OF e]) (unfold tc p(2), simp)
  ultimately show ?thesis by simp
qed

end

end
