(* ===== verification/Cm_Fixed.thy ===== *)
theory Cm_Fixed
  imports Cm_Events
begin

text \<open>
  The fixed channels of a link and the remaining events; every step of \<open>cm_event\<close> keeps the invariant.
\<close>

section \<open>Fixed channels\<close>

lemma fixed_chans_ok:
  assumes "wf_vector v" "mem_ok m"
  shows "\<exists>w m'. fixed_chans ns (Some v) m = (True, Some w, m') \<and> wf_vector w \<and>
    elems w = elems v @ map (trans_chan CM_ACCESS_TRANS_MODE_UNICAST) ns \<and> mem_ok m'"
  using assms
proof (induction ns arbitrary: v m)
  case (Cons n ns)
  obtain m0 where m0: "SDF_MemAlloc m = (True, m0)" "mem_ok m0" using SDF_MemAlloc_okE [OF Cons.prems(2)] by blast
  let ?x = "trans_chan CM_ACCESS_TRANS_MODE_UNICAST n"
  obtain ok vec m1 where e: "SDF_VectorEmplaceBack (Some v) (Some ?x) m0 = (ok, vec, m1)" by (metis prod_cases3)
  obtain w where w: "vec = Some w" "wf_vector w" "mem_ok m0 \<Longrightarrow> ok \<and> mem_ok m1" "ok \<Longrightarrow> elems w = elems v @ [?x]"
    using EmplaceBackE [OF Cons.prems(1) e] by blast
  show ?case using Cons.IH [OF w(2), of m1] w m0 e by simp
qed simp

lemma FixedChange_eff:
  "\<exists>m d. snd (CM_FixedTransChannelChangeCbk lcid s st) = st\<lparr>cm_mem := m, cm_listener := d\<rparr> \<and>
    (g_transChannelCbk st = Some cbk \<and> mem_ok (cm_mem st) \<longrightarrow> mem_ok m \<and>
       (\<exists>v. wf_vector v \<and> elems v = map (trans_chan CM_ACCESS_TRANS_MODE_UNICAST) (filter (\<lambda>n. n_lcid n = lcid) (g_fixedTransListHead st)) \<and>
          d = cbk s (Some v) (cm_listener st)))"
proof -
  let ?ns = "filter (\<lambda>n. n_lcid n = lcid) (g_fixedTransListHead st)"
  have g: "\<exists>m d. snd (CM_FixedTransChannelChangeCbk lcid s st) = st\<lparr>cm_mem := m, cm_listener := d\<rparr>"
  proof -
    have "\<exists>m d. snd (CM_FixedTransChannelChangeCbk lcid s st) = st\<lparr>cm_mem := m, cm_listener := d\<rparr> \<or>
      snd (CM_FixedTransChannelChangeCbk lcid s st) = st\<lparr>cm_mem := m\<rparr> \<or> snd (CM_FixedTransChannelChangeCbk lcid s st) = st"
      by (simp add: CM_FixedTransChannelChangeCbk_def cm_vector_def Let_def split: option.splits prod.splits) blast
    moreover have "st\<lparr>cm_mem := m\<rparr> = st\<lparr>cm_mem := m, cm_listener := cm_listener st\<rparr>" "st = st\<lparr>cm_mem := cm_mem st, cm_listener := cm_listener st\<rparr>" for m
      by simp_all
    ultimately show ?thesis by metis
  qed
  show ?thesis
  proof (cases "g_transChannelCbk st = Some cbk \<and> mem_ok (cm_mem st)")
    case True
    then have "mem_ok (cm_mem st)" by simp
    then have "\<exists>v m. cm_vector st = (Some (v :: (CM_TransChan, unit) SDF_Vector), st\<lparr>cm_mem := m\<rparr>) \<and> wf_vector v \<and> elems v = [] \<and> mem_ok m"
      by (rule cm_vector_ok)
    then obtain v m where v: "cm_vector st = (Some (v :: (CM_TransChan, unit) SDF_Vector), st\<lparr>cm_mem := m\<rparr>)" "wf_vector v" "elems v = []" "mem_ok m"
      by (elim exE conjE)
    obtain w m' where w: "fixed_chans ?ns (Some v) m = (True, Some w, m')" "wf_vector w" "elems w = map (trans_chan CM_ACCESS_TRANS_MODE_UNICAST) ?ns" "mem_ok m'"
      using fixed_chans_ok [OF v(2,4), of ?ns] v(3) by auto
    have "snd (CM_FixedTransChannelChangeCbk lcid s st) = st\<lparr>cm_mem := m', cm_listener := cbk s (Some w) (cm_listener st)\<rparr>"
      using True v(1) w(1) by (simp add: CM_FixedTransChannelChangeCbk_def Let_def)
    then show ?thesis using w(2-4) by blast
  next
    case False
    then show ?thesis using g by blast
  qed
qed

lemma destroy_fixed_nodes:
  "for_nodes destroy_fixed_node ns st = st\<lparr>g_fixedTransListHead := g_fixedTransListHead (for_nodes destroy_fixed_node ns st)\<rparr> \<and>
   set (g_fixedTransListHead (for_nodes destroy_fixed_node ns st)) \<subseteq> set (g_fixedTransListHead st)"
proof (induction ns arbitrary: st)
  case (Cons x ns)
  show ?case
  proof (cases x)
    case (Some n)
    let ?s = "destroy_fixed_node n st"
    have "?s = st\<lparr>g_fixedTransListHead := g_fixedTransListHead ?s\<rparr>" "set (g_fixedTransListHead ?s) \<subseteq> set (g_fixedTransListHead st)"
      using set_remove_first by (simp_all add: destroy_fixed_node_def)
    then show ?thesis using Cons.IH [of ?s] Some by (metis (no_types, lifting) cm_trans.update_convs(1) cm_trans.surjective for_nodes.simps(3) subset_trans)
  qed simp
qed simp

lemma destroy_fixed_list:
  "distinct (map n_ptr (g_fixedTransListHead st)) \<Longrightarrow>
   g_fixedTransListHead (for_nodes destroy_fixed_node (map Some ns) st) = filter (\<lambda>x. n_ptr x \<notin> n_ptr ` set ns) (g_fixedTransListHead st)"
proof (induction ns arbitrary: st)
  case (Cons n ns)
  have f: "g_fixedTransListHead (destroy_fixed_node n st) = filter (\<lambda>x. n_ptr x \<noteq> n_ptr n) (g_fixedTransListHead st)"
    using remove_same_node [OF Cons.prems] by (simp add: destroy_fixed_node_def)
  show ?case using Cons.IH [of "destroy_fixed_node n st"] Cons.prems by (simp add: f distinct_map_filter conj_commute)
qed simp

text \<open>Releasing changes the list, the allocator and the listener; without allocation failure the channels of the link are gone.\<close>

lemma ReleaseFixed_frame:
  "\<exists>F m d. CM_ReleaseFixedTransChannel lcid st = st\<lparr>g_fixedTransListHead := F, cm_mem := m, cm_listener := d\<rparr>"
proof -
  let ?F = "g_fixedTransListHead st" and ?k = CM_TRANS_CHANNEL_STATE_RELEASED
  have free: "\<exists>F m d. CM_FixedTransChannelFreeListNode lcid v (st\<lparr>cm_mem := m0\<rparr>) = st\<lparr>g_fixedTransListHead := F, cm_mem := m, cm_listener := d\<rparr>" for v m0
  proof -
    obtain m d where c: "snd (CM_FixedTransChannelChangeCbk lcid ?k (st\<lparr>cm_mem := m0\<rparr>)) = st\<lparr>cm_mem := m, cm_listener := d\<rparr>"
      using FixedChange_eff [of lcid ?k "st\<lparr>cm_mem := m0\<rparr>" undefined] by auto
    show ?thesis using destroy_fixed_nodes [of "vector_nodes v" "st\<lparr>cm_mem := m, cm_listener := d\<rparr>"]
      unfolding CM_FixedTransChannelFreeListNode_def c CM_TransChannelDestroyListNode_def by (metis cm_trans.update_convs(1,4,6) cm_trans.surjective)
  qed
  have k: "st\<lparr>cm_mem := m\<rparr> = st\<lparr>g_fixedTransListHead := ?F, cm_mem := m, cm_listener := cm_listener st\<rparr>" for m by simp
  obtain vec :: "node_vector option" and m0 where "SDF_CreateVector \<lparr>dtor = None, cmptor = None\<rparr> (cm_mem st) = (vec, m0)" by fastforce
  then have v: "cm_vector st = (vec, st\<lparr>cm_mem := m0\<rparr>)" by (simp add: cm_vector_def)
  obtain ret w m1 where "find_by_lcid ?F lcid vec m0 = (ret, w, m1)" by (metis prod_cases3)
  then have f: "CM_FindFixedTransChannelByLcid lcid vec (st\<lparr>cm_mem := m0\<rparr>) = (ret, w, st\<lparr>cm_mem := m1\<rparr>)"
    by (simp add: CM_FindFixedTransChannelByLcid_def)
  show ?thesis
  proof (cases "vec = None \<or> w = None \<or> ret \<noteq> CM_SUCCESS")
    case True
    then have "CM_ReleaseFixedTransChannel lcid st \<in> {st\<lparr>cm_mem := m0\<rparr>, st\<lparr>cm_mem := m1\<rparr>}"
      using v f by (auto simp: CM_ReleaseFixedTransChannel_def split: option.splits)
    then show ?thesis using k by (metis empty_iff insert_iff)
  next
    case False
    then show ?thesis using v f free by (auto simp: CM_ReleaseFixedTransChannel_def)
  qed
qed

lemma ReleaseFixed_ok:
  fixes lcid :: u16w
  assumes "g_transChannelCbk st = Some cbk" "mem_ok (cm_mem st)" "distinct (map n_ptr (g_fixedTransListHead st))"
  defines "ns \<equiv> filter (\<lambda>n. n_lcid n = lcid) (g_fixedTransListHead st)"
  shows "\<exists>m d. CM_ReleaseFixedTransChannel lcid st = st\<lparr>g_fixedTransListHead := filter (\<lambda>n. n_lcid n \<noteq> lcid) (g_fixedTransListHead st), cm_mem := m, cm_listener := d\<rparr> \<and>
    mem_ok m \<and> (d = cm_listener st \<and> ns = [] \<or>
      (\<exists>v. wf_vector v \<and> elems v = map (trans_chan CM_ACCESS_TRANS_MODE_UNICAST) ns \<and> d = cbk CM_TRANS_CHANNEL_STATE_RELEASED (Some v) (cm_listener st)))"
proof -
  let ?F = "g_fixedTransListHead st" and ?k = CM_TRANS_CHANNEL_STATE_RELEASED
  have "\<exists>v m. cm_vector st = (Some (v :: node_vector), st\<lparr>cm_mem := m\<rparr>) \<and> wf_vector v \<and> elems v = [] \<and> mem_ok m"
    by (rule cm_vector_ok [OF assms(2)])
  then obtain v0 m0 where v: "cm_vector st = (Some (v0 :: node_vector), st\<lparr>cm_mem := m0\<rparr>)" "wf_vector v0" "elems v0 = []" "mem_ok m0"
    by (elim exE conjE)
  obtain w m1 where w: "fill_vector ns (Some v0) m0 = (Some w, m1)" "wf_vector w" "elems w = ns" "mem_ok m1"
    using fill_vector_ok [OF v(2,4), of ns] v(3) by auto
  have z: "vsize w = 0 \<longleftrightarrow> ns = []" using length_elems [OF w(2)] w(3) by (metis length_0_conv)
  show ?thesis
  proof (cases "ns = []")
    case e: True
    then have "CM_ReleaseFixedTransChannel lcid st = st\<lparr>cm_mem := m1\<rparr>"
      using v(1) w(1) z by (simp add: CM_ReleaseFixedTransChannel_def CM_FindFixedTransChannelByLcid_def find_by_lcid_def ns_def)
    moreover have "filter (\<lambda>n. n_lcid n \<noteq> lcid) ?F = ?F" using e by (auto simp: filter_empty_conv ns_def)
    ultimately show ?thesis using e w(4) by (intro exI [of _ m1] exI [of _ "cm_listener st"]) simp
  next
    case False
    obtain m d where c: "snd (CM_FixedTransChannelChangeCbk lcid ?k (st\<lparr>cm_mem := m1\<rparr>)) = st\<lparr>cm_mem := m, cm_listener := d\<rparr>" "mem_ok m"
      "\<exists>v. wf_vector v \<and> elems v = map (trans_chan CM_ACCESS_TRANS_MODE_UNICAST) ns \<and> d = cbk ?k (Some v) (cm_listener st)"
      using FixedChange_eff [of lcid ?k "st\<lparr>cm_mem := m1\<rparr>" cbk] assms(1) w(4) by (auto simp: ns_def)
    let ?s = "st\<lparr>cm_mem := m, cm_listener := d\<rparr>"
    have "(n_ptr x \<notin> n_ptr ` set ns) = (n_lcid x \<noteq> lcid)" if "x \<in> set ?F" for x
      using distinct_map_eq [of n_ptr ?F x] assms(3) that by (auto simp: image_iff ns_def)
    then have "filter (\<lambda>x. n_ptr x \<notin> n_ptr ` set ns) ?F = filter (\<lambda>x. n_lcid x \<noteq> lcid) ?F" by (rule filter_cong [OF refl])
    then have "for_nodes destroy_fixed_node (map Some ns) ?s = ?s\<lparr>g_fixedTransListHead := filter (\<lambda>x. n_lcid x \<noteq> lcid) ?F\<rparr>"
      using destroy_fixed_nodes [of "map Some ns" ?s] destroy_fixed_list [of ?s ns] assms(3) by simp
    then have "CM_ReleaseFixedTransChannel lcid st = ?s\<lparr>g_fixedTransListHead := filter (\<lambda>x. n_lcid x \<noteq> lcid) ?F\<rparr>"
      using v(1) w z False c(1) by (simp add: CM_ReleaseFixedTransChannel_def CM_FindFixedTransChannelByLcid_def find_by_lcid_def
          CM_FixedTransChannelFreeListNode_def CM_TransChannelDestroyListNode_def vector_nodes_elems ns_def)
    then show ?thesis using c(2,3) by (intro exI [of _ m] exI [of _ d]) simp
  qed
qed

text \<open>Making the nodes of the fixed channels.\<close>

lemma activate_fixed_eff:
  assumes "activate_fixed linkByLcid lcid ps ts st = (ok, st')" "\<forall>t\<in>set ts. CM_TRANS_CHANNEL_IS_FIXED t"
  shows "\<exists>new m k. st' = st\<lparr>g_fixedTransListHead := g_fixedTransListHead st @ new, cm_mem := m, cm_next := k\<rparr> \<and> cm_next st \<le> k \<and>
    (\<forall>n\<in>set new. n_lcid n = lcid \<and> n_local n \<in> set ts \<and> n_params n = ps \<and> cm_next st \<le> n_ptr n \<and> n_ptr n < k) \<and> distinct (map n_ptr new) \<and>
    (mem_ok (cm_mem st) \<longrightarrow> mem_ok m \<and> (\<not> ok \<longrightarrow> new = []))"
proof (cases "mem_ok (cm_mem st) \<and> linkByLcid lcid = None")
  case True
  then have "st' = st" using assms(1) by (cases ts) (simp_all add: CM_AllocTransChannel_def)
  then show ?thesis using True by (intro exI [of _ "[]"] exI [of _ "cm_mem st"] exI [of _ "cm_next st"]) simp
next
  case False
  have "\<exists>new m k. st' = st\<lparr>g_fixedTransListHead := g_fixedTransListHead st @ new, cm_mem := m, cm_next := k\<rparr> \<and> cm_next st \<le> k \<and>
    (\<forall>n\<in>set new. n_lcid n = lcid \<and> n_local n \<in> set ts \<and> n_params n = ps \<and> cm_next st \<le> n_ptr n \<and> n_ptr n < k) \<and> distinct (map n_ptr new) \<and>
    (mem_ok (cm_mem st) \<longrightarrow> mem_ok m \<and> ok)"
    using assms False
  proof (induction ts arbitrary: st)
    case Nil
    then show ?case by (intro exI [of _ "[]"] exI [of _ "cm_mem st"] exI [of _ "cm_next st"]) simp
  next
    case (Cons t ts)
    obtain res st1 where a: "CM_AllocTransChannel linkByLcid lcid ps t t CM_TRANS_CHANNEL_STATE_ACTIVATED st = (res, st1)" by fastforce
    define n where "n = \<lparr>n_ptr = cm_next st, n_lcid = lcid, n_addr = the (linkByLcid lcid), n_state = 2, n_params = ps, n_local = t, n_remote = t\<rparr>"
    have t: "CM_TRANS_CHANNEL_IS_FIXED t" using Cons.prems(2) by simp
    obtain m where m: "res = None \<and> st1 = st\<lparr>cm_mem := m\<rparr> \<or> res = Some n \<and>
        st1 = st\<lparr>g_fixedTransListHead := g_fixedTransListHead st @ [n], cm_mem := m, cm_next := cm_next st + 1\<rparr>"
      "mem_ok (cm_mem st) \<longrightarrow> mem_ok m \<and> (res = None) = (linkByLcid lcid = None)"
      using AllocTransChannel_eff [OF a] t by (auto simp: n_def)
    show ?case
    proof (cases res)
      case None
      then have "st' = st\<lparr>cm_mem := m\<rparr>" "\<not> mem_ok (cm_mem st)" using Cons.prems(1,3) a m by auto
      then show ?thesis by (intro exI [of _ "[]"] exI [of _ m] exI [of _ "cm_next st"]) simp
    next
      case (Some n')
      then have st1: "st1 = st\<lparr>g_fixedTransListHead := g_fixedTransListHead st @ [n], cm_mem := m, cm_next := cm_next st + 1\<rparr>" using m(1) by auto
      have "activate_fixed linkByLcid lcid ps ts st1 = (ok, st')" using Cons.prems(1) a Some by simp
      moreover have "\<not> (mem_ok (cm_mem st1) \<and> linkByLcid lcid = None)"
      proof (cases "linkByLcid lcid = None")
        case True
        then have "\<not> mem_ok (cm_mem st)" using Cons.prems(3) by simp
        have "res = None" using a True by (simp add: CM_AllocTransChannel_def)
        then show ?thesis using Some by simp
      qed simp
      ultimately obtain new m' k where i: "st' = st1\<lparr>g_fixedTransListHead := g_fixedTransListHead st1 @ new, cm_mem := m', cm_next := k\<rparr>" "cm_next st1 \<le> k"
        "\<forall>n\<in>set new. n_lcid n = lcid \<and> n_local n \<in> set ts \<and> n_params n = ps \<and> cm_next st1 \<le> n_ptr n \<and> n_ptr n < k" "distinct (map n_ptr new)"
        "mem_ok (cm_mem st1) \<longrightarrow> mem_ok m' \<and> ok"
        using Cons.IH [of st1] Cons.prems(2) by auto
      show ?thesis
        using i m(2) by (intro exI [of _ "n # new"] exI [of _ m'] exI [of _ k]) (auto simp: st1 n_def)
    qed
  qed
  then show ?thesis by blast
qed

section \<open>Every event keeps the invariant\<close>

lemma post_event:
  "CM_DynTransChanPostEventAndHandler linkByLcid 0 p st = CM_DynTransChanActiveEstablishingReqHandler linkByLcid 0 p 1 st"
  "CM_DynTransChanPostEventAndHandler linkByLcid 1 p st = CM_DynTransChanActiveEstablishedRspHandler 1 p 2 st"
  "CM_DynTransChanPostEventAndHandler linkByLcid (Suc 0) p st = CM_DynTransChanActiveEstablishedRspHandler 1 p 2 st"
  "CM_DynTransChanPostEventAndHandler linkByLcid 2 p st = CM_DynTransChanActiveEstablishingFailRspHandler 1 p 4 st"
  "CM_DynTransChanPostEventAndHandler linkByLcid 3 p st = CM_DynTransChanActiveReleasingHandler 2 p 3 st"
  "CM_DynTransChanPostEventAndHandler linkByLcid 4 p st = CM_DynTransChanActiveReleasedRspHandler 3 p 4 st"
  "CM_DynTransChanPostEventAndHandler linkByLcid 5 p st = CM_DynTransChanActiveReleasingFailRspHandler 3 p 4 st"
  "CM_DynTransChanPostEventAndHandler linkByLcid 6 p st = CM_DynTransChanPassiveReleasedReqHandler 2 p 4 st"
  "CM_DynTransChanPostEventAndHandler linkByLcid 7 p st = CM_DynTransChanPassiveEstablishedReqHandler linkByLcid 0 p 2 st"
  by (simp_all add: CM_DynTransChanPostEventAndHandler_def g_dynTransChanEvents_def)

context channel_listener
begin

lemma inv_release_fixed:
  assumes "inv ex tell C st"
  shows "inv ex tell C (CM_ReleaseFixedTransChannel lcid st)"
proof (cases tell)
  case False
  obtain F m d where "CM_ReleaseFixedTransChannel lcid st = st\<lparr>g_fixedTransListHead := F, cm_mem := m, cm_listener := d\<rparr>"
    using ReleaseFixed_frame [of lcid st] by (elim exE)
  then show ?thesis using assms False by (simp add: cm_inv_def)
next
  case True
  let ?F = "g_fixedTransListHead st"
  have i: "dyn_inv ex good C (g_dynTransListHead st) (pool_of (cm_tcids st)) (cm_next st)" "fixed_inv ?F (cm_next st)"
    and h: "g_transChannelCbk st = Some cbk" "mem_ok (cm_mem st)" "linv (cm_listener st)" "knows (cm_listener st) = active_channels st"
    using assms True by (simp_all add: cm_inv_def hears_def)
  let ?ns = "filter (\<lambda>n. n_lcid n = lcid) ?F" and ?F' = "filter (\<lambda>n. n_lcid n \<noteq> lcid) ?F"
  obtain m d where r: "CM_ReleaseFixedTransChannel lcid st = st\<lparr>g_fixedTransListHead := ?F', cm_mem := m, cm_listener := d\<rparr>" "mem_ok m"
    "d = cm_listener st \<and> ?ns = [] \<or> (\<exists>v. wf_vector v \<and> elems v = map (trans_chan CM_ACCESS_TRANS_MODE_UNICAST) ?ns \<and>
       d = cbk CM_TRANS_CHANNEL_STATE_RELEASED (Some v) (cm_listener st))"
    using ReleaseFixed_ok [OF h(1,2), of lcid] i(2) by (auto simp: fixed_inv_def)
  have key: "(\<lambda>n. chan_key (trans_chan c n)) = node_key" for c by (simp add: fun_eq_iff)
  have "linv d \<and> knows d = active_channels st - node_key ` set ?ns"
    using r(3) told_released [OF h(3)] h(3,4) by (auto simp: image_image key filter_empty_conv)
  moreover have "active_channels (st\<lparr>g_fixedTransListHead := ?F', cm_mem := m, cm_listener := d\<rparr>) = active_channels st - node_key ` set ?ns"
  proof -
    have "node_key ` set (g_dynTransListHead st) \<inter> node_key ` set ?F = {}" using dyn_key_not_fixed [OF i] by blast
    moreover have "node_key ` set ?F' = node_key ` set ?F - node_key ` set ?ns" by (auto simp: node_key_def)
    ultimately show ?thesis unfolding active_channels_def by auto
  qed
  moreover have "fixed_inv ?F' (cm_next st)" using i(2) by (auto simp: fixed_inv_def distinct_map_filter)
  ultimately show ?thesis using assms r(1,2) h(1) by (simp add: cm_inv_def hears_def)
qed

lemma inv_activate_fixed:
  assumes "inv ex tell C st" "\<And>p. fp = Some p \<Longrightarrow> good (tp_transModeConfig p)"
  shows "inv ex tell C (snd (CM_ActivateFixedTransChannel linkByLcid lcid fp st))"
proof (cases "CM_IsExistFixedTransChannelByLcid lcid st")
  case True
  then show ?thesis using assms(1) by (simp add: CM_ActivateFixedTransChannel_def)
next
  case False
  let ?F = "g_fixedTransListHead st" and ?k = CM_TRANS_CHANNEL_STATE_ACTIVATED
  have fx: "\<forall>t\<in>set g_TransFixedChannels. CM_TRANS_CHANNEL_IS_FIXED t"
    by (simp add: g_TransFixedChannels_def CM_TRANS_CHANNEL_IS_FIXED_def)
  obtain ok st1 where a: "activate_fixed linkByLcid lcid fp g_TransFixedChannels st = (ok, st1)" by fastforce
  obtain new m k where n: "st1 = st\<lparr>g_fixedTransListHead := ?F @ new, cm_mem := m, cm_next := k\<rparr>" "cm_next st \<le> k"
    "\<forall>n\<in>set new. n_lcid n = lcid \<and> n_local n \<in> set g_TransFixedChannels \<and> n_params n = fp \<and> cm_next st \<le> n_ptr n \<and> n_ptr n < k"
    "distinct (map n_ptr new)" "mem_ok (cm_mem st) \<longrightarrow> mem_ok m \<and> (\<not> ok \<longrightarrow> new = [])"
    using activate_fixed_eff [OF a fx] by (elim exE conjE)
  have i: "dyn_inv ex good C (g_dynTransListHead st) (pool_of (cm_tcids st)) k" "wf_pools (cm_tcids st)"
    using assms(1) dyn_inv_next [OF _ n(2)] by (auto simp: cm_inv_def)
  have F: "fixed_inv (?F @ new) k" if "fixed_inv ?F (cm_next st)"
    using that n(2-4) by (force simp: fixed_inv_def)
  show ?thesis
  proof (cases ok)
    case no: False
    have "inv ex tell C st1"
      using assms(1) i n(1,5) F no by (auto simp: cm_inv_def hears_def active_channels_def)
    then show ?thesis using a False no inv_release_fixed by (simp add: CM_ActivateFixedTransChannel_def)
  next
    case True
    obtain m' d where c: "snd (CM_FixedTransChannelChangeCbk lcid ?k st1) = st1\<lparr>cm_mem := m', cm_listener := d\<rparr>"
      "g_transChannelCbk st1 = Some cbk \<and> mem_ok (cm_mem st1) \<longrightarrow> mem_ok m' \<and>
       (\<exists>v. wf_vector v \<and> elems v = map (trans_chan CM_ACCESS_TRANS_MODE_UNICAST) (filter (\<lambda>n. n_lcid n = lcid) (g_fixedTransListHead st1)) \<and>
          d = cbk ?k (Some v) (cm_listener st1))"
      using FixedChange_eff [of lcid ?k st1 cbk] by (elim exE conjE)
    have ns: "filter (\<lambda>n. n_lcid n = lcid) (g_fixedTransListHead st1) = new"
      using False n(1,3) by (auto simp: CM_IsExistFixedTransChannelByLcid_def list_ex_iff filter_empty_conv)
    have g: "\<forall>n\<in>set new. good (node_config n)" using n(3) assms(2) good_basic by (auto simp: node_config_def split: option.splits)
    let ?st2 = "st1\<lparr>cm_mem := m', cm_listener := d\<rparr>"
    have "hears cbk linv knows (active_channels ?st2) ?st2" if tell
    proof -
      have h: "g_transChannelCbk st = Some cbk" "mem_ok (cm_mem st)" "linv (cm_listener st)" "knows (cm_listener st) = active_channels st"
        using assms(1) that by (simp_all add: cm_inv_def hears_def)
      obtain v where v: "mem_ok m'" "wf_vector v" "elems v = map (trans_chan CM_ACCESS_TRANS_MODE_UNICAST) new" "d = cbk ?k (Some v) (cm_listener st)"
        using c(2) [unfolded ns] h(1,2) n(1,5) by auto
      have "linv d \<and> knows d = active_channels st \<union> node_key ` set new"
        using told_activated [OF h(3) v(2)] g v(3,4) h(4) by (simp add: image_image)
      moreover have "active_channels ?st2 = active_channels st \<union> node_key ` set new" by (auto simp: active_channels_def n(1))
      ultimately show ?thesis using v(1) h(1) by (simp add: hears_def n(1))
    qed
    moreover have "fixed_inv (g_fixedTransListHead ?st2) (cm_next ?st2)" if tell using F assms(1) that by (simp add: cm_inv_def n(1))
    ultimately have "inv ex tell C ?st2" using i by (simp add: cm_inv_def n(1))
    then show ?thesis using a False True c(1) by (simp add: CM_ActivateFixedTransChannel_def)
  qed
qed

lemma inv_connected:
  assumes "inv ex tell C st" "lcid \<notin> C"
  shows "inv ex tell (insert lcid C) (CM_DynTransLogicLinkCbk (Some (lcid, CM_LINK_STATE_CONNECTED)) st)"
    "inv ex tell (insert lcid C) st"
proof -
  let ?l = "g_dynTransListHead st"
  have w: "wf_pools (cm_tcids st)" and i: "dyn_inv ex good C ?l (pool_of (cm_tcids st)) (cm_next st)" using assms(1) by (simp_all add: cm_inv_def)
  have P: "pool_of (cm_tcids st) lcid = None" using i assms(2) by (auto simp: dyn_inv_def)
  have L: "locals lcid ?l = {}" using i assms(2) by (auto simp: dyn_inv_def node_ok_def locals_def)
  have i1: "dyn_inv ex good (insert lcid C) ?l (pool_of (cm_tcids st)) (cm_next st)" using i by (auto simp: dyn_inv_def node_ok_def)
  then show "inv ex tell (insert lcid C) st" using assms(1) by (simp add: cm_inv_def)
  obtain ret m s where a: "CM_DynTcidActivatePool lcid (cm_mem st) (cm_tcids st) = (ret, m, s)" by (metis prod_cases3)
  note sp = CM_DynTcidActivatePool_spec [OF w a]
  have "dyn_inv ex good (insert lcid C) ?l ((pool_of (cm_tcids st))(lcid \<mapsto> {})) (cm_next st)"
    using i1 L by (auto simp: dyn_inv_def)
  then have "dyn_inv ex good (insert lcid C) ?l (pool_of s) (cm_next st)" using sp i1 by (auto split: if_splits)
  then show "inv ex tell (insert lcid C) (CM_DynTransLogicLinkCbk (Some (lcid, CM_LINK_STATE_CONNECTED)) st)"
    using assms(1) sp a by (simp add: CM_DynTransLogicLinkCbk_def cm_inv_def hears_def active_channels_def)
qed

lemma inv_register: "inv ex tell C st \<Longrightarrow> inv ex tell C (snd (CM_RegDynTransChannelCbks regLink regSig cb st))"
proof -
  assume a: "inv ex tell C st"
  have "inv ex tell C (st\<lparr>cm_tcids := CM_DynTcidInit (cm_tcids st)\<rparr>)"
    using a CM_DynTcidInit_spec [of "cm_tcids st"] by (intro inv_tcids) (auto simp: cm_inv_def)
  then show ?thesis using a by (simp add: CM_RegDynTransChannelCbks_def CM_DynTransChannStateMgrRegCbks_def Let_def split: option.splits)
qed

lemma inv_unregister: "inv ex tell C st \<Longrightarrow> inv ex tell C (CM_UnRegDynTransChannelCbks st)"
proof -
  assume a: "inv ex tell C st"
  then have "inv ex tell C (st\<lparr>g_channelCbks := no_cbks\<rparr>)" by simp
  then have "inv ex tell C (st\<lparr>g_channelCbks := no_cbks\<rparr>\<lparr>cm_tcids := CM_DynTcidDeInit (cm_tcids st)\<rparr>)"
    using CM_DynTcidDeInit_spec [of "cm_tcids st"] a by (intro inv_tcids) (auto simp: cm_inv_def)
  then show ?thesis using a by (simp add: CM_UnRegDynTransChannelCbks_def CM_DynTransChannStateMgrUnRegCbks_def)
qed

lemma inv_establish_req:
  assumes "inv ex tell C st" "\<And>r. req = Some r \<Longrightarrow> good (eq_transModeConfig r)"
  shows "inv ex tell C (snd (CM_DynTransChannelEstablishReq linkByAddr linkByLcid req st))"
proof (cases req)
  case (Some r)
  have "inv ex tell C (snd (CM_DynTransChannelCreate linkByAddr linkByLcid r st))"
    using assms Some inv_active_establish by (simp add: CM_DynTransChannelCreate_def post_event case_prod_beta split: option.splits)
  then show ?thesis using Some assms(1) by (simp add: CM_DynTransChannelEstablishReq_def case_prod_beta)
qed (use assms in \<open>simp add: CM_DynTransChannelEstablishReq_def\<close>)

lemma inv_release_req: "inv ex tell C st \<Longrightarrow> inv ex tell C (snd (CM_DynTransChannelReleaseReq linkByAddr linkByLcid req st))"
  using inv_releasing by (simp add: CM_DynTransChannelReleaseReq_def post_event case_prod_beta split: option.splits)

lemma inv_establish_req_cbk:
  assumes "inv ex tell C st" "\<And>r. rq = Some r \<Longrightarrow> good (sq_transModeConfig r)"
  shows "inv ex tell C (CM_DynTransChannelEstablishReqCbk linkByLcid lcid reqId rq st)"
proof (cases rq)
  case (Some r)
  show ?thesis
    using assms Some inv_passive_establish [of ex tell C st]
    by (cases "sq_portConfig r") (simp_all add: CM_DynTransChannelEstablishReqCbk_def post_event Let_def case_prod_beta)
qed (use assms in \<open>simp add: CM_DynTransChannelEstablishReqCbk_def\<close>)

lemma inv_establish_rsp_cbk:
  assumes "inv ex tell C st" "\<And>src dst result. rs = Some (src, dst, result) \<Longrightarrow> ex \<Longrightarrow> CM_TRANS_CHANNEL_IS_DYNAMIC dst \<Longrightarrow> dst \<in> unicast_tcids"
  shows "inv ex tell C (CM_DynTransChannelEstablishRspCbk linkByLcid lcid rs st)"
proof (cases rs)
  case (Some r)
  obtain src dst result where r: "r = (src, dst, result)" by (cases r)
  show ?thesis
    using assms Some r inv_established [of ex tell C st] inv_give_up_handlers(1) [of ex tell C st]
    by (cases "CM_FindTransChannelByLocalTcid lcid src st") (auto simp: CM_DynTransChannelEstablishRspCbk_def post_event Let_def)
qed (use assms in \<open>simp add: CM_DynTransChannelEstablishRspCbk_def\<close>)

lemma inv_release_req_cbk: "inv ex tell C st \<Longrightarrow> inv ex tell C (CM_DynTransChannelReleaseReqCbk linkByLcid lcid reqId rq st)"
  using inv_passive_release [of ex tell C st] by (auto simp: CM_DynTransChannelReleaseReqCbk_def post_event split: option.splits)

lemma inv_release_rsp_cbk: "inv ex tell C st \<Longrightarrow> inv ex tell C (CM_DynTransChannelReleaseRspCbk linkByLcid lcid rs st)"
  using inv_give_up_handlers(2,3) [of ex tell C st] by (auto simp: CM_DynTransChannelReleaseRspCbk_def post_event split: option.splits)

lemma inv_event:
  assumes "cm_event mems peer good moves (st, C) (st', C')" "inv ex tell C st"
    and "ex \<Longrightarrow> \<forall>t. peer t \<and> CM_TRANS_CHANNEL_IS_DYNAMIC t \<longrightarrow> t \<in> unicast_tcids" "tell \<Longrightarrow> \<forall>m. mems m \<longrightarrow> mem_ok m"
    and "tell \<Longrightarrow> \<forall>d d'. moves d d' \<and> linv d \<longrightarrow> linv d' \<and> knows d' = knows d"
  shows "inv ex tell C' st'"
  using assms(1)
proof cases
  case (Cm_Memory m)
  then show ?thesis using inv_mem [OF assms(2)] assms(4) by simp
next
  case (Cm_Listener d)
  then show ?thesis using assms(2,5) by (auto simp: cm_inv_def hears_def active_channels_def)
next
  case (Cm_Establish req linkByAddr linkByLcid)
  then show ?thesis using inv_establish_req [OF assms(2)] by simp
next
  case (Cm_EstablishReq rq linkByLcid lcid reqId)
  then show ?thesis using inv_establish_req_cbk [OF assms(2)] by simp
next
  case (Cm_EstablishRsp rs linkByLcid lcid)
  then show ?thesis using inv_establish_rsp_cbk [OF assms(2)] assms(3) by blast
next
  case (Cm_Connected lcid)
  then show ?thesis using inv_connected [OF assms(2)] by simp
next
  case (Cm_Disconnected lcid)
  then show ?thesis using inv_disconnected [OF assms(2)] by simp
next
  case (Cm_FixedActivate fp linkByLcid lcid)
  then show ?thesis using inv_activate_fixed [OF assms(2)] by simp
qed (use assms(2) inv_register inv_unregister inv_release_req inv_release_req_cbk inv_release_rsp_cbk inv_release_fixed in simp_all)

lemma inv_run:
  assumes "(cm_event mems peer good moves)\<^sup>*\<^sup>* (st, C) (st', C')" "inv ex tell C st"
    and "ex \<Longrightarrow> \<forall>t. peer t \<and> CM_TRANS_CHANNEL_IS_DYNAMIC t \<longrightarrow> t \<in> unicast_tcids" "tell \<Longrightarrow> \<forall>m. mems m \<longrightarrow> mem_ok m"
    and "tell \<Longrightarrow> \<forall>d d'. moves d d' \<and> linv d \<longrightarrow> linv d' \<and> knows d' = knows d"
  shows "inv ex tell C' st'"
  using assms(1)
proof (induction rule: rtranclp_induct2)
  case refl
  show ?case by (rule assms(2))
next
  case (step st1 C1 st2 C2)
  show ?case by (rule inv_event [OF step(2,3) assms(3-5)])
qed

lemma inv_start: "tell \<longrightarrow> mem_ok m \<and> linv d \<and> knows d = {} \<Longrightarrow> inv ex tell {} (cm_start cbk d m s)"
  by (auto simp: cm_inv_def cm_start_def wf_pools_def dyn_inv_def pool_of_def CM_DynTransGetTcidPool_def fixed_inv_def hears_def active_channels_def)

end

end
