(* ===== verification/Cm_Props.thy ===== *)
theory Cm_Props
  imports Cm_Fixed Dtap_Runs
begin

text \<open>
  The connection manager and the data plane. The channel table of the data plane is a listener of the connection manager in the sense
  of \<open>channel_listener\<close>, so on every run both have the same channels; identifiers of channels are unique, and they are given back as long as
  the peers use unicast identifiers.
\<close>

section \<open>The data plane as listener\<close>

definition dtap_knows :: "chan_state \<Rightarrow> (u16w \<times> byte) set" where
  "dtap_knows d = {(lcid, tcid). DTAP_ChannelSearch lcid tcid d \<noteq> None}"

text \<open>The table is up, its allocations succeed, and no transparent channel answers for the others.\<close>

definition dtap_ready :: "chan_state \<Rightarrow> bool" where
  "dtap_ready d \<longleftrightarrow> keyed d \<and> g_dtapLogicLinksMap d \<noteq> None \<and> alloc_ok (cs_env d)"

definition dtap_config :: "CM_TransModeConfig \<Rightarrow> bool" where
  "dtap_config c \<longleftrightarrow> rc_txWindow (tm_reliableMode c) < 256 \<and> tm_transMode c \<noteq> CM_TRANS_MODE_TRANSPARENT"

lemma ChannelsOperate_elems: "wf_vector v \<Longrightarrow> DTAP_ChannelsOperate v opt st = foldl (\<lambda>st p. opt p st) st (elems v)"
proof -
  assume w: "wf_vector v"
  have "map (SDF_VectorElementAt (Some v)) [0..<vsize v] = map Some (elems v)"
    using w by (intro nth_equalityI) (simp_all add: SDF_VectorElementAt_def length_elems buf_nth)
  then have "foldl (\<lambda>st x. case x of None \<Rightarrow> st | Some p \<Rightarrow> opt p st) st (map (SDF_VectorElementAt (Some v)) [0..<vsize v]) =
      foldl (\<lambda>st x. case x of None \<Rightarrow> st | Some p \<Rightarrow> opt p st) st (map Some (elems v))" by simp
  then show ?thesis by (simp add: DTAP_ChannelsOperate_def foldl_map)
qed

lemma table_some:
  "g_dtapLogicLinksMap (upd_link lcid f st) = None \<longleftrightarrow> g_dtapLogicLinksMap st = None"
  "g_dtapLogicLinksMap (erase_link lcid st) = None \<longleftrightarrow> g_dtapLogicLinksMap st = None"
  "g_dtapLogicLinksMap (drop_channel lcid t st) = None \<longleftrightarrow> g_dtapLogicLinksMap st = None"
  "ensure_link lcid st = (ok, st1) \<Longrightarrow> g_dtapLogicLinksMap st1 = None \<longleftrightarrow> g_dtapLogicLinksMap st = None"
  by (auto simp: upd_link_def map_update_def erase_link_def SDF_MapErase_def drop_channel_def Let_def ensure_link_def DTAP_LogicLinkCreate_def
      SDF_MapMoveInsert_def split: option.splits prod.splits if_splits)

lemma create_alloc: "alloc_ok e \<Longrightarrow> alloc_ok (snd (DTAP_ChannelCreate param e))"
proof -
  assume a: "alloc_ok e"
  obtain m1 where m1: "SDF_MemAlloc (e_mem e) = (True, m1)" "mem_ok m1" using a SDF_MemAlloc_okE by (auto simp: alloc_ok_def)
  obtain m2 where m2: "SDF_MemAlloc m1 = (True, m2)" "mem_ok m2" using m1(2) SDF_MemAlloc_okE by blast
  obtain t where t: "SDF_MemAlloc (tscript (e_tim e)) = (True, t)" "mem_ok t" using a SDF_MemAlloc_okE by (auto simp: alloc_ok_def)
  show ?thesis
    using a by (simp add: DTAP_ChannelCreate_def m1 Let_def create_attr_def DTAP_StreamChannelCreate_def DTAP_BasicChannelCreate_def
        DTAP_ReliableChannelCreate_def DTAP_TransStartTimer_def CP_TimerAdd_def m2 t alloc_ok_def upd_chan_def split: option.splits prod.splits)
qed

lemma ready_add:
  assumes "dtap_ready d" "dtap_config (chan_config p)"
  shows "dtap_ready (DTAP_ChannelAdd p d) \<and> dtap_knows (DTAP_ChannelAdd p d) = insert (chan_key p) (dtap_knows d)"
proof -
  have r: "keyed d" "g_dtapLogicLinksMap d \<noteq> None" "alloc_ok (cs_env d)" "map_ok d" using assms(1) by (simp_all add: dtap_ready_def keyed_def)
  have p: "param_ok p" "p_transMode p \<noteq> CM_TRANS_MODE_TRANSPARENT" using assms(2) by (simp_all add: dtap_config_def chan_config_def param_ok_def)
  obtain new where n: "keyed (DTAP_ChannelAdd p d)" "new \<noteq> None"
    "\<And>k t. DTAP_ChannelSearch k t (DTAP_ChannelAdd p d) = (if k = p_lcid p \<and> t = p_srcTcid p then new else DTAP_ChannelSearch k t d)"
    using Add_keyed [OF r(1) p] r(2,3) by (auto split: option.splits)
  obtain ok st1 where e: "ensure_link (p_lcid p) d = (ok, st1)" by fastforce
  have o: ok "alloc_ok (cs_env st1)" using ensure_ok [OF r(3,2,4), of "p_lcid p"] e by simp_all
  have m1: "map_ok st1" using ensure_link_alist [OF r(4) e] by simp
  let ?st2 = "drop_channel (p_lcid p) (p_srcTcid p) st1"
  have a2: "alloc_ok (cs_env ?st2)" by (rule drop_alloc [OF m1 o(2)])
  obtain c env where c: "DTAP_ChannelCreate p (cs_env ?st2) = (Some c, env)" "alloc_ok env"
    using create_ok [OF a2, of p] create_alloc [OF a2, of p] by (cases "DTAP_ChannelCreate p (cs_env ?st2)") auto
  have add: "DTAP_ChannelAdd p d = upd_link (p_lcid p) (\<lambda>l. c # l) (?st2\<lparr>cs_env := env\<rparr>)"
    using e o(1) c(1) by (simp add: DTAP_ChannelAdd_def Let_def)
  have "g_dtapLogicLinksMap (DTAP_ChannelAdd p d) \<noteq> None" unfolding add using table_some(4) [OF e] r(2) by (simp add: table_some)
  moreover have "alloc_ok (cs_env (DTAP_ChannelAdd p d))" unfolding add using c(2) by (simp add: upd_link_def)
  moreover have "dtap_knows (DTAP_ChannelAdd p d) = insert (chan_key p) (dtap_knows d)"
    using n(2) unfolding dtap_knows_def n(3) by (auto simp: chan_key_def split: if_splits)
  ultimately show ?thesis using n(1) by (simp add: dtap_ready_def)
qed

lemma ready_del:
  assumes "dtap_ready d"
  shows "dtap_ready (DTAP_ChannelDel p d) \<and> dtap_knows (DTAP_ChannelDel p d) = dtap_knows d - {chan_key p}"
proof -
  have r: "keyed d" "g_dtapLogicLinksMap d \<noteq> None" "alloc_ok (cs_env d)" "map_ok d" using assms(1) by (simp_all add: dtap_ready_def keyed_def)
  note D = Del_keyed [OF r(1), of p]
  let ?st1 = "d\<lparr>cs_env := (cs_env d)\<lparr>e_tx := DTAP_ChannelDown (p_lcid p) (p_srcTcid p) (e_tx (cs_env d))\<rparr>\<rparr>"
  let ?st2 = "drop_channel (p_lcid p) (p_srcTcid p) ?st1"
  have a2: "alloc_ok (cs_env ?st2)" using r(3) by (intro drop_alloc) (simp_all add: r(4) alloc_ok_def)
  have "keyed ?st1" using r(1) by simp
  from drop_keyed [OF this] have m2: "map_ok ?st2" by (simp add: keyed_def)
  have e: "cs_env (erase_link (p_lcid p) ?st2) = cs_env ?st2" if "link_empty (p_lcid p) ?st2"
    using that erase_link_alist(3) [OF m2] by (simp add: link_empty_def LogicLinkFind_alist [OF m2])
  have "alloc_ok (cs_env (DTAP_ChannelDel p d)) \<and> g_dtapLogicLinksMap (DTAP_ChannelDel p d) \<noteq> None"
    using r(2,3) a2 e table_some(2) [of "p_lcid p" ?st2] table_some(3) [of "p_lcid p" "p_srcTcid p" ?st1]
    by (auto simp: DTAP_ChannelDel_def Let_def)
  moreover have "dtap_knows (DTAP_ChannelDel p d) = dtap_knows d - {chan_key p}"
    using D unfolding dtap_knows_def by (auto simp: chan_key_def split: if_splits)
  ultimately show ?thesis using D by (simp add: dtap_ready_def)
qed

lemma ready_adds:
  "dtap_ready d \<Longrightarrow> \<forall>p\<in>set ps. dtap_config (chan_config p) \<Longrightarrow> dtap_ready (foldl (\<lambda>st p. DTAP_ChannelAdd p st) d ps) \<and>
     dtap_knows (foldl (\<lambda>st p. DTAP_ChannelAdd p st) d ps) = dtap_knows d \<union> chan_key ` set ps"
proof (induction ps arbitrary: d)
  case (Cons p ps)
  then show ?case using ready_add [OF Cons.prems(1), of p] Cons.IH [of "DTAP_ChannelAdd p d"] by auto
qed simp

lemma ready_dels:
  "dtap_ready d \<Longrightarrow> dtap_ready (foldl (\<lambda>st p. DTAP_ChannelDel p st) d ps) \<and>
     dtap_knows (foldl (\<lambda>st p. DTAP_ChannelDel p st) d ps) = dtap_knows d - chan_key ` set ps"
proof (induction ps arbitrary: d)
  case (Cons p ps)
  then show ?case using ready_del [OF Cons.prems(1), of p] Cons.IH [of "DTAP_ChannelDel p d"] by auto
qed simp

interpretation dtap: channel_listener DTAP_ChannelStateChangeCbk dtap_ready dtap_knows dtap_config
  by unfold_locales (simp_all add: DTAP_ChannelStateChangeCbk_def ChannelsOperate_elems ready_adds ready_dels
      dtap_config_def basic_config_def zero_reliable_def)

text \<open>Nothing is known of the listener.\<close>

interpretation silent: channel_listener cbk "\<lambda>_. False" "\<lambda>_. {}" "\<lambda>_. True" for cbk
  by unfold_locales simp_all

lemma find_upd_node:
  assumes "find_first P l = Some n" "distinct (map n_ptr l)" "n_ptr n' = n_ptr n" "P n'"
  shows "find_first P (upd_first (same_node n') (\<lambda>_. n') l) = Some n'"
  using assms
proof (induction l)
  case (Cons x l)
  show ?case
  proof (cases "P x")
    case False
    then have "n \<in> set l" using Cons.prems(1) by (auto dest: find_first_SomeD)
    then have "n_ptr x \<noteq> n_ptr n'" using Cons.prems(2,3) by (auto simp: rev_image_eqI)
    then show ?thesis using Cons False by (simp add: same_node_def)
  qed (use Cons.prems in \<open>simp add: same_node_def\<close>)
qed simp

section \<open>A run for the witnesses\<close>

text \<open>The component is registered, link 1 is connected, an application asks for a channel, and the peer answers with identifier \<open>t\<close>.\<close>

definition demo_peer :: SLE_Addr where
  "demo_peer = \<lparr>addr_type = 0, addr_bytes = [1, 2, 3, 4, 5, 6]\<rparr>"

definition demo_link :: "u16w \<Rightarrow> SLE_Addr option" where
  "demo_link lcid = (if lcid = 1 then Some demo_peer else None)"

definition demo_lcid :: "SLE_Addr \<Rightarrow> u16w option" where
  "demo_lcid a = (if a = demo_peer then Some 1 else None)"

definition demo_req :: CM_DynTransChannelEstablishParamReq where
  "demo_req = \<lparr>eq_version = 0, eq_localIndex = 0, eq_addr = demo_peer, eq_srcPort = 5, eq_dstPort = 6, eq_transModeConfig = basic_config,
     eq_slqi = 0, eq_expectedTransportMode = CM_ACCESS_TRANS_MODE_UNICAST, eq_exclusive = True, eq_frameType = 0\<rparr>"

definition demo_listening :: "'d trans_listener \<Rightarrow> 'd \<Rightarrow> 'd cm_st" where
  "demo_listening cbk d = snd (CM_RegDynTransChannelCbks CM_SUCCESS CM_SUCCESS
     (Some \<lparr>establishRspCbk = True, releaseRspCbk = True, statusIndicationCbk = True, establishedCheckCbk = None\<rparr>) (cm_start cbk d [] []))"

definition demo_connected :: "'d trans_listener \<Rightarrow> 'd \<Rightarrow> 'd cm_st" where
  "demo_connected cbk d = CM_DynTransLogicLinkCbk (Some (1, CM_LINK_STATE_CONNECTED)) (demo_listening cbk d)"

definition demo_asked :: "'d trans_listener \<Rightarrow> 'd \<Rightarrow> 'd cm_st" where
  "demo_asked cbk d = snd (CM_DynTransChannelEstablishReq demo_lcid demo_link (Some demo_req) (demo_connected cbk d))"

definition demo_established :: "byte \<Rightarrow> 'd trans_listener \<Rightarrow> 'd \<Rightarrow> 'd cm_st" where
  "demo_established t cbk d = CM_DynTransChannelEstablishRspCbk demo_link 1 (Some (0x80, t, 0)) (demo_asked cbk d)"

lemma demo_run_cm:
  assumes "cfg basic_config" "peer t"
  shows "(cm_event mems peer cfg moves)\<^sup>*\<^sup>* (cm_start cbk d [] [], {}) (demo_established t cbk d, {1})"
proof -
  have "cm_event mems peer cfg moves (cm_start cbk d [] [], {}) (demo_listening cbk d, {})"
    unfolding demo_listening_def by (rule Cm_Register)
  moreover have "cm_linkListener (demo_listening cbk d)"
    by (simp add: demo_listening_def CM_RegDynTransChannelCbks_def cm_start_def Let_def)
  then have "cm_event mems peer cfg moves (demo_listening cbk d, {}) (demo_connected cbk d, insert 1 {})"
    unfolding demo_connected_def by (rule Cm_Connected) simp
  moreover have "cm_event mems peer cfg moves (demo_connected cbk d, {1}) (demo_asked cbk d, {1})"
    unfolding demo_asked_def using assms(1) by (intro Cm_Establish) (auto simp: demo_req_def)
  moreover have "cm_event mems peer cfg moves (demo_asked cbk d, {1}) (demo_established t cbk d, {1})"
    unfolding demo_established_def using assms(2) by (intro Cm_EstablishRsp) auto
  ultimately show ?thesis by (auto intro: rtranclp.rtrancl_into_rtrancl)
qed

lemma demo_listening_eq:
  "demo_listening cbk d = (cm_start cbk d [] [])\<lparr>cm_tcids := \<lparr>g_cmDynTransPoolListHead = [], g_cmDynTcidIsInited = True\<rparr>,
     g_channelCbks := \<lparr>establishRspCbk = True, releaseRspCbk = True, statusIndicationCbk = True, establishedCheckCbk = None\<rparr>,
     cm_linkListener := True, g_cmIsRegistered := True\<rparr>"
  by (simp add: demo_listening_def CM_RegDynTransChannelCbks_def CM_DynTransChannStateMgrRegCbks_def CM_DynTcidInit_def cm_start_def Let_def)

lemma demo_connected_eq:
  "demo_connected cbk d = (demo_listening cbk d)\<lparr>cm_tcids := \<lparr>g_cmDynTransPoolListHead =
     [\<lparr>pool_lcid = 1, unicastTcidUsed = replicate 96 False\<rparr>], g_cmDynTcidIsInited = True\<rparr>\<rparr>"
  by (simp add: demo_connected_def demo_listening_eq CM_DynTransLogicLinkCbk_def CM_DynTcidActivatePool_def CM_DynTransGetTcidPool_def
      cm_start_def)

definition demo_node :: SleTransLcid where
  "demo_node = \<lparr>n_ptr = 0, n_lcid = 1, n_addr = demo_peer, n_state = CM_TRANS_CHANNEL_STATE_ACTIVATING,
     n_params = Some \<lparr>tp_version = 0, tp_localIndex = 0, tp_transModeConfig = basic_config, tp_castMode = 0, tp_channelMode = 0,
       tp_direction = 0, tp_aid = CM_TRANS_INVALID_AID, tp_exclusive = True, tp_srcPort = 5, tp_dstPort = 6, tp_slqi = 0, tp_frameType = 0\<rparr>,
     n_local = 0x80, n_remote = CM_TRANS_INVALID_TCID\<rparr>"

lemma demo_asked_eq:
  "g_dynTransListHead (demo_asked cbk d) = [demo_node]" "g_cmIsRegistered (demo_asked cbk d)" "g_fixedTransListHead (demo_asked cbk d) = []"
  "pools (cm_tcids (demo_asked cbk d)) = [\<lparr>pool_lcid = 1, unicastTcidUsed = True # replicate 95 False\<rparr>]"
proof -
  have u: "first_unused 0 95 (replicate 96 False) = Some 0" by (simp add: numeral_eq_Suc)
  have a: "tcid_allocate 1 0 (demo_connected cbk d) = (0x80, (demo_connected cbk d)\<lparr>cm_tcids := \<lparr>g_cmDynTransPoolListHead =
      [\<lparr>pool_lcid = 1, unicastTcidUsed = (replicate 96 False)[0 := True]\<rparr>], g_cmDynTcidIsInited = True\<rparr>\<rparr>)"
    by (simp add: demo_connected_eq tcid_allocate_def CM_DynTcidAllocate_def CM_DynTransGetTcidPool_def CM_DynAllocateUnicastTcid_def u upd_pool_def)
  have r: "(replicate 96 False)[0 := True] = True # replicate 95 False" by (simp add: numeral_eq_Suc)
  have c: "g_cmIsRegistered (demo_connected cbk d)" "cm_mem (demo_connected cbk d) = []" "cm_script (demo_connected cbk d) = []"
    "g_dynTransListHead (demo_connected cbk d) = []" "g_fixedTransListHead (demo_connected cbk d) = []" "cm_next (demo_connected cbk d) = 0"
    by (simp_all add: demo_connected_eq demo_listening_eq cm_start_def)
  note ev = demo_asked_def CM_DynTransChannelEstablishReq_def CM_DynTransChannelCreate_def post_event demo_req_def demo_lcid_def
    basic_config_def CM_DynTransChanActiveEstablishingReqHandler_def zero_param_def a CM_ActivateDynamicTransChannel_def
    CM_AllocTransChannel_def demo_link_def CM_AllocTransChannelNode_def cm_alloc_def CM_TRANS_CHANNEL_IS_FIXED_def cm_send_def Let_def
  show "g_dynTransListHead (demo_asked cbk d) = [demo_node]" "g_cmIsRegistered (demo_asked cbk d)" "g_fixedTransListHead (demo_asked cbk d) = []"
    "pools (cm_tcids (demo_asked cbk d)) = [\<lparr>pool_lcid = 1, unicastTcidUsed = True # replicate 95 False\<rparr>]"
    by (simp_all add: ev c r demo_node_def)
qed

lemma demo_established_eq:
  assumes "CM_TRANS_CHANNEL_IS_DYNAMIC t"
  shows "g_dynTransListHead (demo_established t cbk d) = [demo_node\<lparr>n_state := CM_TRANS_CHANNEL_STATE_ACTIVATED, n_remote := t\<rparr>]"
    "cm_tcids (demo_established t cbk d) = cm_tcids (demo_asked cbk d)"
    "g_fixedTransListHead (demo_established t cbk d) = g_fixedTransListHead (demo_asked cbk d)"
proof -
  let ?n = "demo_node\<lparr>n_state := CM_TRANS_CHANNEL_STATE_ACTIVATED, n_remote := t\<rparr>" and ?st = "demo_asked cbk d"
  let ?st1 = "upd_dyn_node ?n ?st"
  obtain m d' where c: "CM_DynTransChannelChangeCbk ?n CM_TRANS_CHANNEL_STATE_ACTIVATED ?st1 = ?st1\<lparr>cm_mem := m, cm_listener := d'\<rparr>"
    using ChangeCbk_eff [of ?n 2 ?st1 undefined] by (elim exE conjE)
  obtain rep where s: "CM_DynTransChanEstablishRspCbk ?n 0 (?st1\<lparr>cm_mem := m, cm_listener := d'\<rparr>) = ?st1\<lparr>cm_mem := m, cm_listener := d', cm_reports := rep\<rparr>"
    using reportE(1) [of ?n 0 "?st1\<lparr>cm_mem := m, cm_listener := d'\<rparr>"] by (elim exE) simp
  have f: "CM_FindTransChannelByLocalTcid 1 0x80 ?st = Some demo_node" "CM_TRANS_CHANNEL_IS_DYNAMIC 0x80"
    by (simp_all add: CM_FindTransChannelByLocalTcid_def CM_TRANS_CHANNEL_IS_FIXED_def CM_TRANS_CHANNEL_IS_DYNAMIC_def demo_asked_eq)
      (simp_all add: demo_node_def)
  have "demo_established t cbk d = ?st1\<lparr>cm_mem := m, cm_listener := d', cm_reports := rep\<rparr>"
    using assms f c s by (simp add: demo_established_def CM_DynTransChannelEstablishRspCbk_def Let_def post_event
        CM_DynTransChanActiveEstablishedRspHandler_def CM_DynamicTransChannelSetTcidAndChangeCbk_def demo_node_def)
  then show "g_dynTransListHead (demo_established t cbk d) = [?n]" "cm_tcids (demo_established t cbk d) = cm_tcids ?st"
    "g_fixedTransListHead (demo_established t cbk d) = g_fixedTransListHead ?st"
    by (simp_all add: upd_dyn_node_def demo_asked_eq same_node_def)
qed

abbreviation deaf :: "bool trans_listener" where "deaf \<equiv> \<lambda>_ _ d. d"

section \<open>Properties\<close>







text \<open>(C39) An identifier is lost when the peer uses another one. The responses of a peer are accepted with every dynamic identifier, from
  0x20 on, but the handler of its release request takes the mode in which to give back the local identifier from the identifier of the
  peer, and outside the unicast range there is none: the channel is gone, the pool keeps its identifier.\<close>
theorem dyn_tcid_lost:
  assumes n: "CM_FindTransChannelByRemoteTcid lcid t st = Some n" and t: "CM_TRANS_CHANNEL_IS_DYNAMIC t" "t \<notin> {0x80..0xDF}"
    and d: "distinct (map n_ptr (g_dynTransListHead st))"
  shows "let st' = CM_DynTransChannelReleaseReqCbk linkByLcid lcid reqId (Some (t, n_local n)) st in
    n \<in> set (g_dynTransListHead st) \<and> n \<notin> set (g_dynTransListHead st') \<and> cm_tcids st' = cm_tcids st"
proof -
  have m: "CM_DynTransChanGetTransportMode t = CM_ACCESS_TRANS_MODE_MAX" using t(2) by (auto simp: CM_DynTransChanGetTransportMode_def)
  have l: "n \<in> set (g_dynTransListHead st)" using find_dyn_remote [OF n t(1)] by simp
  let ?st1 = "CM_DynTransChanStatusIndicationCbk n False CM_DYN_TRANS_CHAN_STATUS_INDICATION_DICONNECTED st"
  have r: "tcid_release (n_lcid n) (n_local n) CM_ACCESS_TRANS_MODE_MAX ?st1 = (CM_FAIL, ?st1)"
    by (simp add: tcid_release_def CM_DynTcidRelease_def split: option.splits)
  let ?st3 = "CM_ReleaseDynamicTransChannelByRemoteTcid n ?st1"
  obtain m' d' where c: "CM_DynTransChannelChangeCbk n CM_TRANS_CHANNEL_STATE_RELEASED ?st1 = ?st1\<lparr>cm_mem := m', cm_listener := d'\<rparr>"
    using ChangeCbk_eff [of n 4 ?st1 undefined] by (elim exE conjE)
  obtain rep where s1: "?st1 = st\<lparr>cm_reports := rep\<rparr>" using reportE(3) [of n False 2 st] by (elim exE)
  have st3: "g_dynTransListHead ?st3 = remove_first (same_node n) (g_dynTransListHead st)" "cm_tcids ?st3 = cm_tcids st"
    unfolding CM_ReleaseDynamicTransChannelByRemoteTcid_def CM_DynTransChannelFreeListNode_def destroy_dyn_node_def c by (simp_all add: s1)
  have send: "g_dynTransListHead (snd (cm_send sig x)) = g_dynTransListHead x" "cm_tcids (snd (cm_send sig x)) = cm_tcids x" for sig and x :: "'a cm_st"
    by (simp_all add: cm_send_def Let_def)
  have "g_dynTransListHead (CM_DynTransChannelReleaseReqCbk linkByLcid lcid reqId (Some (t, n_local n)) st) = g_dynTransListHead ?st3"
    "cm_tcids (CM_DynTransChannelReleaseReqCbk linkByLcid lcid reqId (Some (t, n_local n)) st) = cm_tcids ?st3"
    using t(1) n by (simp_all add: CM_DynTransChannelReleaseReqCbk_def post_event CM_DynTransChanPassiveReleasedReqHandler_def m r Let_def
        CM_DynTransChanExpectionReleaseHandler_def send case_prod_beta)
  then show ?thesis using l st3 set_remove_node [OF d l] by (simp add: Let_def)
qed

theorem dyn_tcid_lost_witness:
  "let st = demo_established 0x30 deaf False; st' = CM_DynTransChannelReleaseReqCbk demo_link 1 7 (Some (0x30, 0x80)) st in
     map n_local (g_dynTransListHead st) = [0x80] \<and> demo_node\<lparr>n_state := 2, n_remote := 0x30\<rparr> \<notin> set (g_dynTransListHead st') \<and>
     map (\<lambda>p. unicastTcidUsed p ! 0) (pools (cm_tcids st')) = [True]"
proof -
  let ?st = "demo_established 0x30 deaf False" and ?n = "demo_node\<lparr>n_state := 2, n_remote := 0x30\<rparr>"
  have dyn: "CM_TRANS_CHANNEL_IS_DYNAMIC 0x30" by (simp add: CM_TRANS_CHANNEL_IS_DYNAMIC_def)
  have l: "g_dynTransListHead ?st = [?n]" "pools (cm_tcids ?st) = [\<lparr>pool_lcid = 1, unicastTcidUsed = True # replicate 95 False\<rparr>]"
    by (simp_all add: demo_established_eq demo_asked_eq dyn)
  have n: "n_local demo_node = 0x80" "n_lcid demo_node = 1" by (simp_all add: demo_node_def)
  have f: "CM_FindTransChannelByRemoteTcid 1 0x30 ?st = Some ?n"
    by (simp add: CM_FindTransChannelByRemoteTcid_def CM_TRANS_CHANNEL_IS_FIXED_def l n)
  show ?thesis using dyn_tcid_lost [OF f dyn, of demo_link 7] l n unfolding Let_def by simp
qed

text \<open>(C40) A failed release request makes a channel that is still being established look established. The handler is called whatever the
  state of the channel is, and when the request cannot be sent it restores the state of its table row, not the one the channel had: a
  channel without an identifier of the peer is then activated, and the response that would establish it is ignored.\<close>
theorem release_failure_activates:
  assumes n: "CM_FindTransChannelByLocalTcid lcid t st = Some n" and t: "CM_TRANS_CHANNEL_IS_DYNAMIC t"
    and s: "n_state n = CM_TRANS_CHANNEL_STATE_ACTIVATING" "cm_script st = False # rest" "distinct (map n_ptr (g_dynTransListHead st))"
    and r: "g_cmIsRegistered st" "linkByAddr (lq_addr req) = Some lcid" "lq_srcTcid req = t"
  shows "\<exists>st'. CM_DynTransChannelReleaseReq linkByAddr linkByLcid (Some req) st = (CM_FAIL, st') \<and>
    CM_FindTransChannelByLocalTcid lcid t st' = Some (n\<lparr>n_state := CM_TRANS_CHANNEL_STATE_ACTIVATED\<rparr>) \<and>
    CM_DynTransChannelEstablishRspCbk linkByLcid lcid (Some (t, dst, result)) st' = st'"
proof -
  let ?a = "n\<lparr>n_state := CM_TRANS_CHANNEL_STATE_RELEASING\<rparr>" and ?b = "n\<lparr>n_state := CM_TRANS_CHANNEL_STATE_ACTIVATED\<rparr>"
  let ?st' = "upd_dyn_node ?b ((upd_dyn_node ?a st)\<lparr>cm_script := rest\<rparr>)"
  have f: "\<not> CM_TRANS_CHANNEL_IS_FIXED t" using t by (auto simp: CM_TRANS_CHANNEL_IS_FIXED_def CM_TRANS_CHANNEL_IS_DYNAMIC_def word_le_nat_alt)
  have sc: "cm_script (upd_dyn_node ?a st) = False # rest" using s(2) by (simp add: upd_dyn_node_def)
  have rel: "CM_DynTransChannelReleaseReq linkByAddr linkByLcid (Some req) st = (CM_FAIL, ?st')"
    using n t r by (simp add: CM_DynTransChannelReleaseReq_def post_event CM_DynTransChanActiveReleasingHandler_def cm_send_def sc Let_def)
  have "map n_ptr (upd_first (same_node ?a) (\<lambda>_. ?a) (g_dynTransListHead st)) = map n_ptr (g_dynTransListHead st)"
    unfolding upd_same_node [OF s(3)] by auto
  then have d1: "distinct (map n_ptr (upd_first (same_node ?a) (\<lambda>_. ?a) (g_dynTransListHead st)))" using s(3) by simp
  have l: "find_first (\<lambda>x. n_lcid x = lcid \<and> n_local x = t) (g_dynTransListHead st) = Some n"
    using n f by (simp add: CM_FindTransChannelByLocalTcid_def)
  note step = find_upd_node [where P = "\<lambda>x. n_lcid x = lcid \<and> n_local x = t"]
  have e: "CM_FindTransChannelByLocalTcid lcid t ?st' = Some ?b"
    using step [OF step [OF l s(3), of ?a] d1, of ?b] find_first_SomeD [OF l] f
    by (simp add: CM_FindTransChannelByLocalTcid_def upd_dyn_node_def)
  then have "CM_DynTransChannelEstablishRspCbk linkByLcid lcid (Some (t, dst, result)) ?st' = ?st'"
    by (simp add: CM_DynTransChannelEstablishRspCbk_def Let_def)
  then show ?thesis using rel e by blast
qed

theorem release_failure_activates_witness:
  "let st = (demo_asked deaf False)\<lparr>cm_script := [False]\<rparr>;
       req = \<lparr>lq_version = 0, lq_localIndex = 0, lq_addr = demo_peer, lq_srcTcid = 0x80, lq_dstTcid = 0\<rparr> in
     \<exists>st'. CM_DynTransChannelReleaseReq demo_lcid demo_link (Some req) st = (CM_FAIL, st') \<and>
       CM_FindTransChannelByLocalTcid 1 0x80 st' = Some (demo_node\<lparr>n_state := CM_TRANS_CHANNEL_STATE_ACTIVATED\<rparr>) \<and>
       CM_DynTransChannelEstablishRspCbk demo_link 1 (Some (0x80, 0x81, 0)) st' = st'"
proof -
  let ?st = "(demo_asked deaf False)\<lparr>cm_script := [False]\<rparr>"
  have n: "n_local demo_node = 0x80" "n_lcid demo_node = 1" "n_state demo_node = 1" by (simp_all add: demo_node_def)
  have "CM_FindTransChannelByLocalTcid 1 0x80 ?st = Some demo_node"
    by (simp add: CM_FindTransChannelByLocalTcid_def CM_TRANS_CHANNEL_IS_FIXED_def demo_asked_eq n)
  then show ?thesis unfolding Let_def
    by (rule release_failure_activates [where rest = "[]"])
      (simp_all add: CM_TRANS_CHANNEL_IS_DYNAMIC_def demo_asked_eq n demo_lcid_def)
qed

end
