(* ===== verification/Spec2Isabelle.thy ===== *)
theory Spec2Isabelle
  imports Crc16 Sdf_DList Dtap_Sched_Quota Dtap_Rel_Rx Dtap_Rel_Retrans Trans_Path Cm_Props
begin

text \<open>
  Verification of the data plane of the NearLink protocol stack, and of the part of the connection manager that opens
  and closes its channels
  (\<^verbatim>\<open>services/stack/src\<close>; paths below are relative to it).

  \<^bold>\<open>The program.\<close> Data of an application passes these parts, downwards when it is sent and upwards when it is
  received:

    \<^item> the transport layer (\<^verbatim>\<open>dp/transport\<close>): an application calls \<open>TRANS_SendData\<close> on its own thread; the data is
      copied into a buffer and a task with it is posted to the control thread, for which the caller waits;
    \<^item> the worker and the task scheduling (\<^verbatim>\<open>sdf/oal/thread/src/sdf_worker.c\<close>,
      \<^verbatim>\<open>cp/nlstkfwk/schedule\<close>): the queue of the control thread and the blocking post;
    \<^item> the data transmission and adaptation protocol DTAP (\<^verbatim>\<open>dp/dtap\<close>): entry points (\<^verbatim>\<open>dtap.c\<close>), a table of
      channels (\<^verbatim>\<open>dtap_channel.c\<close>), four transmission modes (transparent, basic, stream, reliable), the frame codec
      with fragmentation and aggregation, and a packet scheduler (\<^verbatim>\<open>dtap_scheduler.c\<close>);
    \<^item> the data path of the driver layer interface (\<^verbatim>\<open>dli/layer\<close>), which cuts packets to the size of the controller's
      buffers and puts received pieces together.

  Beside them the connection manager (\<^verbatim>\<open>cp/bsl/sle/cm\<close>) establishes channels: \<^verbatim>\<open>dyntrans\<close> negotiates dynamic ones with the
  peer, with requests and responses in either direction, and hands out their identifiers; \<^verbatim>\<open>link/src/cm_trans_channel_mgr.c\<close>
  keeps the lists of fixed and dynamic channels and tells the data plane of each that is activated or released.

  They rest on the containers of the framework (\<^verbatim>\<open>sdf/bsl/dsl\<close>: buffer, doubly linked list, map, vector) and on
  \<^verbatim>\<open>utils/src/crc16.c\<close>. The link manager reports links and answers questions about them; timers
  expire on the control thread; the controller reports completed packets.

  \<^bold>\<open>Conventions.\<close> A struct is a record, with the fields of the source; an operation is a function of the same name that
  returns the changed state. Bytes are \<open>8 word\<close>; sequence numbers, check values, ports and link identifiers are words
  of their width; lengths and counters are natural numbers with the wrap-around of the C type written out where it
  can be reached. Error codes are datatypes. Reading or writing outside a buffer is the result \<open>MemFault\<close>; access to
  a freed block of the transport layer's heap is \<open>None\<close>, and a thread that makes it marks the state (\<open>ts_fault\<close>).
  Whether an allocation, a timer or a post succeeds, what the clock shows and what the driver answers is taken
  from scripts in the state, so that a theorem holds for every sequence of answers.

  \<^bold>\<open>The theories.\<close>

    \<^item> \<open>Nl_Prelude\<close>: integer types, byte codec, allocator script, theorem collections, lemmas on lists and words.
    \<^item> \<open>Crc16\<close> (\<^verbatim>\<open>utils/src/crc16.c\<close>): table, step, loop; equal to bit-serial division, detects errors within two bytes.
    \<^item> \<open>Sdf_Buff\<close> (\<^verbatim>\<open>sdf_buff.c\<close>): headroom, data and tailroom in one block; the locale \<open>byte_buffer\<close> (append and
      prepend keep the data) is interpreted as \<open>sdf\<close>.
    \<^item> \<open>Sdf_DList\<close> (\<^verbatim>\<open>sdf_dlist.c\<close>): pointers in an explicit store; the locale \<open>linked_list\<close>, interpreted as \<open>dl\<close>,
      relates a head to a HOL list, which justifies HOL lists for the queues of the other theories.
    \<^item> \<open>Sdf_Map\<close> (\<^verbatim>\<open>sdf_map.c\<close>) with the locale \<open>keyed_table\<close>, interpreted as \<open>alist\<close>; \<open>Sdf_Vector\<close> (\<^verbatim>\<open>sdf_vector.c\<close>)
      as a refinement of lists.
    \<^item> \<open>Dtap_Types\<close>, \<open>Dtap_Env\<close>: error codes, identifiers, callbacks, and the environment of a channel: allocator,
      timers, upcalls, clock and the layer below (\<open>e_tx\<close>, with its send operation as an argument).
    \<^item> \<open>Dtap_Frame\<close> (\<^verbatim>\<open>dtap_frame.c\<close>, \<^verbatim>\<open>dtap_frame_basic.c\<close>, second part of \<^verbatim>\<open>dtap_frame_enhance.c\<close>): building and parsing;
      the locale \<open>frame_codec\<close>, interpreted as \<open>simplex\<close> and \<open>duplex\<close>, gives the round trip of both fragment formats;
      parsing reads no byte outside the frame.
    \<^item> \<open>Dtap_Frag\<close> (first part of \<^verbatim>\<open>dtap_frame_enhance.c\<close>): fragmentation, reassembly, disaggregation.
    \<^item> \<open>Dtap_Seq\<close> (\<^verbatim>\<open>dtap_trans.c\<close>): comparison of 14-bit sequence numbers, mode registry, timers of a channel.
    \<^item> \<open>Dtap_Reseq\<close>: the abstract receiver that puts numbered frames into sequence, and the locale \<open>resequencer\<close>,
      interpreted as \<open>stream\<close> and \<open>reliable\<close>.
    \<^item> \<open>Dtap_Basic\<close>, \<open>Dtap_Stream\<close>, \<open>Dtap_Reliable\<close> (\<^verbatim>\<open>dtap_trans_basic.c\<close>, \<^verbatim>\<open>dtap_trans_transparent.c\<close>,
      \<^verbatim>\<open>dtap_trans_stream.c\<close>, \<^verbatim>\<open>dtap_trans_reliable.c\<close>): the modes. For the reliable one \<open>Dtap_Rel_Tx\<close> shows the
      invariant of the transmission window and what an acknowledgement releases, \<open>Dtap_Rel_Rx\<close> that the units sent are
      handed up in order and complete, \<open>Dtap_Rel_Retrans\<close> that retransmission ends.
    \<^item> \<open>Dtap_Scheduler\<close> (\<^verbatim>\<open>dtap_scheduler.c\<close>): queues, credit, quota. \<open>Dtap_Sched_Credit\<close>: the counters agree
      and are never exceeded; \<open>Dtap_Sched_Quota\<close>: the distribution is the largest remainder method;
      \<open>Dtap_Sched_Ids\<close>: what the scheduler leaves alone.
    \<^item> \<open>Dtap_Channel\<close> (\<^verbatim>\<open>dtap_channel.c\<close>) and \<open>Dtap_Core\<close> (\<^verbatim>\<open>dtap.c\<close>): the table and the entry points.
      \<open>Dtap_Footprint\<close> has the locale \<open>tx_layer\<close>: what every operation of a mode leaves alone, given a layer below
      that respects a preorder; \<open>quiet\<close> (in \<open>Dtap_Table\<close>) and \<open>below\<close> (in \<open>Dtap_System\<close>, on the scheduler) interpret
      it. \<open>Dtap_Table\<close>, \<open>Dtap_System\<close>, \<open>Dtap_Runs\<close>: the invariant of the table, kept by every event of the data plane
      (\<open>dtap_event\<close>), hence on every run.
    \<^item> \<open>Dli_Data\<close> (\<^verbatim>\<open>dli_layer.c\<close>, \<^verbatim>\<open>dli_layer_utils.c\<close>): splitting and reassembly, with their round trip.
    \<^item> \<open>Dtap_Path\<close>: a unit from \<open>DTAP_DataSend\<close> of one device to the receive callback of another, in basic mode.
    \<^item> \<open>Nlstk_Schedule\<close>: worker, tasks and semaphores on a heap of cells. \<open>Trans_Cltp\<close> (\<^verbatim>\<open>transport_cltp.c\<close>):
      the packet header. \<open>Trans_Core\<close> (\<^verbatim>\<open>transport.c\<close>): the operations of the transport layer.
    \<^item> \<open>Trans_Threads\<close>: the step relation \<open>trans_step\<close> of the application threads and the control thread.
      \<open>Trans_Sim\<close>, \<open>Trans_Safe\<close>, \<open>Trans_Runs\<close>: the relation \<open>sim\<close> between the heap and the stages of the calls, kept by
      every step. \<open>Trans_Props\<close>: no thread accesses freed memory, a system at rest has freed everything, and the two
      cases in which this ends. \<open>Trans_Path\<close>: the whole way from one application to another.

    \<^item> \<open>Cm_Tcid\<close> (\<^verbatim>\<open>cm_dyn_tcid.c\<close>): pools of identifiers, as a map from links to sets. \<open>Cm_Trans\<close>
      (\<^verbatim>\<open>cm_trans_channel_mgr.c\<close>): the lists of channels and the reports to the listener. \<open>Cm_Dyn\<close>
      (\<^verbatim>\<open>cm_dyn_trans_chan_state_mgr.c\<close>): the handlers of the event table. \<open>Cm_Chan\<close> (\<^verbatim>\<open>cm_dyn_trans_channel_mgr.c\<close>): the
      entry points, and the step relation \<open>cm_event\<close> over all of them.
    \<^item> \<open>Cm_Inv\<close>: the invariant of channels and pools, and the locale \<open>channel_listener\<close>, the contract with whoever is
      told of channels. \<open>Cm_Events\<close>, \<open>Cm_Fixed\<close>: every event keeps the invariant. \<open>Cm_Props\<close> interprets the locale
      on \<open>DTAP_ChannelStateChangeCbk\<close> as \<open>dtap\<close>, and as \<open>silent\<close> where nothing is known of the listener, and has the
      properties.

  \<^bold>\<open>What is shown\<close>, in the order of importance. The reliable mode hands up the units that were sent, in order, each
  once, whatever is lost, repeated or reordered below; the stream mode hands up a sequence without repetition;
  retransmission stops after a bounded number of attempts. In every interleaving of applications and control thread
  the transport layer is memory safe and leaves no block behind. The transmission window stays within its size, an
  acknowledgement releases exactly what it covers. On every run from the start the state is well formed, no timer
  outlives its channel, and the channel table is a map. Data given to \<open>TRANS_SendData\<close> in basic mode arrives at the
  application on the other device with the right ports and addresses. The connection manager and the data plane agree
  on the channels on every run without allocation failures; identifiers of dynamic channels are unique on every run, and
  none is lost while peers use unicast identifiers. The scheduler stays within the credit of the
  controller. Frames, fragments, packets and their headers survive the wire; parsers and buffers stay in bounds.
  Where the code does not do what it means to, a theorem shows a run that goes wrong: a stream that stops at a gap, a
  cached unit that is never sent, a channel that is scheduled after it is freed, frames dropped when a channel is
  resumed, a unit lost or corrupted when the upper layer refuses it, a semaphore freed early, data lost at shutdown,
  an identifier lost when the peer releases a channel, a channel that is taken for established after a failed release.

  \<^bold>\<open>Bounds.\<close> No definition takes fuel: every loop is a structural recursion or has a termination proof. The
  sequence theorems of the modes assume of every arriving frame that it lies within half of the 14-bit number space of
  the one expected, and for the reliable mode within the window of the sender, which is at most 255 frames
  (\<open>stream_fits\<close>, \<open>rel_fits\<close>): frames further apart cannot be told apart by their numbers. The caches hold at
  most 65 frames of a basic channel and 257 of a stream channel; this is proved, not assumed.

  \<^bold>\<open>Assumptions.\<close> In the thread model an address is not used again after it is freed, a step is one access to what the
  threads share, and \<open>ScheduleDisable\<close> does not run together with a post. The data plane runs on the control thread
  only, so its operations are functions on its state. A receive callback of the upper layer answers as a function of
  what it gets and does not call back into the data plane. For the data plane the connection
  manager is a parameter (\<open>linkByAddr\<close>, \<open>linkByLcid\<close>, \<open>chanByTcid\<close>, \<open>known\<close>), and its requests are logged. For the
  channels of the connection manager the link manager is \<open>linkByAddr\<close> and \<open>linkByLcid\<close>, which may differ in every
  event, and whether a signalling message can be sent comes from a script; the callbacks it calls do not call back into
  it; the link manager reports a link as connected once until it is disconnected, and no allocation fails while the
  channels of a disconnected link are released. That the transport layer shortens the
  buffer it is handed is not seen by the data plane, which only keeps it when the frame is refused.

  \<^bold>\<open>Not modelled.\<close> Of the data path: log output, statistics and maintenance dumps; the thread of the driver layer and
  its device files; commands and events of the driver layer interface, which are tables of marshalling code for the
  controller. Of the worker: the thread itself (its loop is the step of the control thread), event descriptors and the
  timer wheel, which are operating system calls. The single list of the framework is used by none of the modelled
  parts. Of the connection manager: the state machines of links, which follow
  commands and events of the controller, the isochronous groups, and the encoding of its signalling messages. The rest of
  the control plane (service management, quality of service, discovery, security, profiles) and the services and
  frameworks in C++ are separate programs above the data plane; they reach it only through the entry points and parameters above.
\<close>

end
